(* ===== verification/Prelude.thy ===== *)
theory Prelude
  imports Complex_Main
begin

text \<open>
  Shared vocabulary of the development.

  \<^item> A service method is a \<open>prog\<close>: it takes the state of the world and returns either
    the exception it throws or its result, together with the state it leaves behind.  State is
    kept on the exceptional path too, because a handler that throws after a committed write has
    still written.
  \<^item> \<open>prog_inv\<close> collects the inversion rules that turn a successful (or failed) run of a
    program into facts about its parts; \<open>prog_eval\<close> collects the equations that run one.
  \<^item> A collection is the list of its documents.  \<open>get_by\<close> and \<open>upd_by\<close> are lookup and
    update by a key field; the locale \<open>keyed_store\<close> states the laws that every client of a
    collection relies on, and the race argument (\<open>cas\<close>) is proved once from those laws.
\<close>

named_theorems prog_inv "inversion of completed programs"
named_theorems prog_eval "running programs"
named_theorems coll "lookup after update in collections"

section \<open>Programs with state and exceptions\<close>

type_synonym ('s, 'e, 'a) prog = "'s \<Rightarrow> ('e + 'a) \<times> 's"

definition ret :: "'a \<Rightarrow> ('s, 'e, 'a) prog" where
  "ret a s = (Inr a, s)"

definition throw :: "'e \<Rightarrow> ('s, 'e, 'a) prog" where
  "throw e s = (Inl e, s)"

definition bnd :: "('s, 'e, 'a) prog \<Rightarrow> ('a \<Rightarrow> ('s, 'e, 'b) prog) \<Rightarrow> ('s, 'e, 'b) prog" where
  "bnd m f s = (case m s of (Inl e, s') \<Rightarrow> (Inl e, s') | (Inr a, s') \<Rightarrow> f a s')"

definition asks :: "('s \<Rightarrow> 'a) \<Rightarrow> ('s, 'e, 'a) prog" where
  "asks f s = (Inr (f s), s)"

definition modify :: "('s \<Rightarrow> 's) \<Rightarrow> ('s, 'e, unit) prog" where
  "modify f s = (Inr (), f s)"

text \<open>\<open>guard b e\<close> is the early exit \<open>if (!b) throw e\<close>.\<close>

definition guard :: "bool \<Rightarrow> 'e \<Rightarrow> ('s, 'e, unit) prog" where
  "guard b e s = (if b then (Inr (), s) else (Inl e, s))"

text \<open>\<open>demand e x\<close> is \<open>if (!x) throw e\<close> on a value that may be absent.\<close>

definition demand :: "'e \<Rightarrow> 'a option \<Rightarrow> ('s, 'e, 'a) prog" where
  "demand e x s = (case x of None \<Rightarrow> (Inl e, s) | Some a \<Rightarrow> (Inr a, s))"

definition of_sum :: "'e + 'a \<Rightarrow> ('s, 'e, 'a) prog" where
  "of_sum x s = (x, s)"

definition try_catch :: "('s, 'e, 'a) prog \<Rightarrow> ('e \<Rightarrow> ('s, 'e, 'a) prog) \<Rightarrow> ('s, 'e, 'a) prog" where
  "try_catch m h s = (case m s of (Inl e, s') \<Rightarrow> h e s' | (Inr a, s') \<Rightarrow> (Inr a, s'))"

primrec for_each :: "'x list \<Rightarrow> ('x \<Rightarrow> ('s, 'e, unit) prog) \<Rightarrow> ('s, 'e, unit) prog" where
  "for_each [] f = ret ()"
| "for_each (x # xs) f = bnd (f x) (\<lambda>_. for_each xs f)"

lemma ret_inv [prog_inv]:
  "ret a s = (Inr b, s') \<longleftrightarrow> b = a \<and> s' = s"
  "ret a s = (Inl e, s') \<longleftrightarrow> False"
  by (auto simp: ret_def)

lemma throw_inv [prog_inv]:
  "throw e s = (Inr b, s') \<longleftrightarrow> False"
  "throw e s = (Inl e', s') \<longleftrightarrow> e' = e \<and> s' = s"
  by (auto simp: throw_def)

lemma bnd_inv [prog_inv]:
  "bnd m f s = (Inr b, s') \<longleftrightarrow> (\<exists>a s1. m s = (Inr a, s1) \<and> f a s1 = (Inr b, s'))"
  "bnd m f s = (Inl e, s') \<longleftrightarrow>
     m s = (Inl e, s') \<or> (\<exists>a s1. m s = (Inr a, s1) \<and> f a s1 = (Inl e, s'))"
  by (auto simp: bnd_def split: prod.splits sum.splits)

lemma bndE:
  assumes "bnd m f s = (Inr b, s')"
  obtains a s1 where "m s = (Inr a, s1)" "f a s1 = (Inr b, s')"
  using assms by (auto simp: bnd_inv)

lemma bnd_assoc: "bnd (bnd m f) g = bnd m (\<lambda>a. bnd (f a) g)"
  by (rule ext) (auto simp: bnd_def split: prod.splits sum.splits)

lemma asks_inv [prog_inv]:
  "asks f s = (Inr b, s') \<longleftrightarrow> b = f s \<and> s' = s"
  "asks f s = (Inl e, s') \<longleftrightarrow> False"
  by (auto simp: asks_def)

lemma modify_inv [prog_inv]:
  "modify f s = (Inr u, s') \<longleftrightarrow> s' = f s"
  "modify f s = (Inl e, s') \<longleftrightarrow> False"
  by (auto simp: modify_def)

lemma guard_inv [prog_inv]:
  "guard b e s = (Inr u, s') \<longleftrightarrow> b \<and> s' = s"
  "guard b e s = (Inl e', s') \<longleftrightarrow> \<not> b \<and> e' = e \<and> s' = s"
  by (auto simp: guard_def)

lemma demand_inv [prog_inv]:
  "demand e x s = (Inr a, s') \<longleftrightarrow> x = Some a \<and> s' = s"
  "demand e x s = (Inl e', s') \<longleftrightarrow> x = None \<and> e' = e \<and> s' = s"
  by (auto simp: demand_def split: option.splits)

lemma of_sum_inv [prog_inv]:
  "of_sum x s = (Inr a, s') \<longleftrightarrow> x = Inr a \<and> s' = s"
  "of_sum x s = (Inl e, s') \<longleftrightarrow> x = Inl e \<and> s' = s"
  by (auto simp: of_sum_def)

lemma try_catch_inv [prog_inv]:
  "try_catch m h s = (Inr a, s') \<longleftrightarrow>
     m s = (Inr a, s') \<or> (\<exists>e s1. m s = (Inl e, s1) \<and> h e s1 = (Inr a, s'))"
  "try_catch m h s = (Inl e', s') \<longleftrightarrow> (\<exists>e s1. m s = (Inl e, s1) \<and> h e s1 = (Inl e', s'))"
  by (auto simp: try_catch_def split: prod.splits sum.splits)

lemma case_option_inv [prog_inv]:
  "(case x of None \<Rightarrow> m | Some a \<Rightarrow> f a) s = (r, s') \<longleftrightarrow>
     (x = None \<and> m s = (r, s')) \<or> (\<exists>a. x = Some a \<and> f a s = (r, s'))"
  by (cases x) auto

lemma if_inv [prog_inv]:
  "(if b then m else n) s = (r, s') \<longleftrightarrow> (b \<and> m s = (r, s')) \<or> (\<not> b \<and> n s = (r, s'))"
  by simp

lemmas [prog_eval] = ret_def throw_def asks_def modify_def guard_def demand_def of_sum_def

lemma bnd_eval [prog_eval]:
  "m s = (Inr a, s1) \<Longrightarrow> bnd m f s = f a s1"
  "m s = (Inl e, s1) \<Longrightarrow> bnd m f s = (Inl e, s1)"
  by (simp_all add: bnd_def)

lemma try_catch_eval [prog_eval]:
  "m s = (Inr a, s1) \<Longrightarrow> try_catch m h s = (Inr a, s1)"
  "m s = (Inl e, s1) \<Longrightarrow> try_catch m h s = h e s1"
  by (simp_all add: try_catch_def)

text \<open>A concrete run is evaluated to the tag of its result; the run itself follows.\<close>

lemma run_succeeds: "\<not> isl (fst (m s)) \<Longrightarrow> \<exists>a s'. m s = (Inr a, s')"
  by (metis prod.collapse sum.collapse(2))

text \<open>A program whose steps all keep a predicate keeps it, whichever way it ends.\<close>

definition keeps :: "('s \<Rightarrow> bool) \<Rightarrow> ('s, 'e, 'a) prog \<Rightarrow> bool" where
  "keeps P m \<longleftrightarrow> (\<forall>s. P s \<longrightarrow> P (snd (m s)))"

lemma keepsI: "(\<And>s r s'. P s \<Longrightarrow> m s = (r, s') \<Longrightarrow> P s') \<Longrightarrow> keeps P m"
  by (metis keeps_def prod.collapse)

lemma keepsD: "keeps P m \<Longrightarrow> m s = (r, s') \<Longrightarrow> P s \<Longrightarrow> P s'"
  by (metis keeps_def snd_conv)

lemma keeps_basic [intro, simp]:
  "keeps P (ret a)" "keeps P (throw e)" "keeps P (asks f)" "keeps P (guard b e)"
  "keeps P (demand e x)" "keeps P (of_sum y)"
  by (auto simp: keeps_def ret_def throw_def asks_def guard_def demand_def of_sum_def
      split: option.splits)

lemma keeps_modify: "(\<And>s. P s \<Longrightarrow> P (f s)) \<Longrightarrow> keeps P (modify f)"
  by (auto simp: keeps_def modify_def)

lemma keeps_bnd [intro]:
  assumes "keeps P m" and "\<And>a. keeps P (f a)"
  shows "keeps P (bnd m f)"
proof (rule keepsI)
  fix s r s' assume "P s" and run: "bnd m f s = (r, s')"
  obtain x s1 where m: "m s = (x, s1)" by (cases "m s")
  with \<open>P s\<close> assms(1) have "P s1" by (auto dest: keepsD)
  with m run assms(2) show "P s'" by (auto simp: bnd_def split: sum.splits dest: keepsD)
qed

lemma keeps_try_catch [intro]:
  assumes "keeps P m" and "\<And>e. keeps P (h e)"
  shows "keeps P (try_catch m h)"
proof (rule keepsI)
  fix s r s' assume "P s" and run: "try_catch m h s = (r, s')"
  obtain x s1 where m: "m s = (x, s1)" by (cases "m s")
  with \<open>P s\<close> assms(1) have "P s1" by (auto dest: keepsD)
  with m run assms(2) show "P s'"
    by (auto simp: try_catch_def split: sum.splits dest: keepsD)
qed

lemma keeps_for_each [intro]: "(\<And>x. keeps P (f x)) \<Longrightarrow> keeps P (for_each xs f)"
  by (induction xs) auto

lemma keeps_if [intro]: "keeps P m \<Longrightarrow> keeps P n \<Longrightarrow> keeps P (if b then m else n)"
  by simp

lemma keeps_option [intro]:
  "keeps P m \<Longrightarrow> (\<And>x. keeps P (f x)) \<Longrightarrow> keeps P (case y of None \<Rightarrow> m | Some x \<Rightarrow> f x)"
  by (cases y) auto

section \<open>Collections: lists of documents with a key field\<close>

definition get_by :: "('d \<Rightarrow> 'k) \<Rightarrow> 'k \<Rightarrow> 'd list \<Rightarrow> 'd option" where
  "get_by key i ds = find (\<lambda>d. key d = i) ds"

definition upd_by :: "('d \<Rightarrow> 'k) \<Rightarrow> 'k \<Rightarrow> ('d \<Rightarrow> 'd) \<Rightarrow> 'd list \<Rightarrow> 'd list" where
  "upd_by key i f ds = map (\<lambda>d. if key d = i then f d else d) ds"

definition upd_where :: "('d \<Rightarrow> bool) \<Rightarrow> ('d \<Rightarrow> 'd) \<Rightarrow> 'd list \<Rightarrow> 'd list" where
  "upd_where P f ds = map (\<lambda>d. if P d then f d else d) ds"

lemma get_by_Nil [simp, coll]: "get_by key i [] = None"
  by (simp add: get_by_def)

lemma get_by_Cons [simp, coll]:
  "get_by key i (d # ds) = (if key d = i then Some d else get_by key i ds)"
  by (simp add: get_by_def)

lemma upd_by_Nil [simp]: "upd_by key i f [] = []"
  by (simp add: upd_by_def)

lemma upd_by_Cons [simp]:
  "upd_by key i f (d # ds) = (if key d = i then f d else d) # upd_by key i f ds"
  by (simp add: upd_by_def)

lemma upd_where_Nil [simp]: "upd_where P f [] = []"
  by (simp add: upd_where_def)

lemma upd_where_Cons [simp]:
  "upd_where P f (d # ds) = (if P d then f d else d) # upd_where P f ds"
  by (simp add: upd_where_def)

lemma get_by_upd_by [coll]:
  assumes "\<And>d. key (f d) = key d"
  shows "get_by key j (upd_by key i f ds) =
    (if j = i then map_option f (get_by key i ds) else get_by key j ds)"
  by (induction ds) (auto simp: assms)

lemma get_by_snoc [coll]:
  "get_by key j (ds @ [d]) =
     (case get_by key j ds of Some x \<Rightarrow> Some x | None \<Rightarrow> if key d = j then Some d else None)"
  by (induction ds) auto

lemma get_by_key: "get_by key i ds = Some d \<Longrightarrow> key d = i"
  by (induction ds) (auto split: if_splits)

lemma get_by_mem: "get_by key i ds = Some d \<Longrightarrow> d \<in> set ds"
  by (induction ds) (auto split: if_splits)

lemma get_by_None_iff: "get_by key i ds = None \<longleftrightarrow> i \<notin> key ` set ds"
  by (induction ds) auto

lemma get_by_distinct:
  "distinct (map key ds) \<Longrightarrow> d \<in> set ds \<Longrightarrow> get_by key (key d) ds = Some d"
  by (induction ds) force+

lemma keys_upd_by [simp]:
  assumes "\<And>d. key' (f d) = key' d"
  shows "map key' (upd_by key i f ds) = map key' ds"
  by (induction ds) (auto simp: assms)

lemma keys_upd_where [simp]:
  assumes "\<And>d. key' (f d) = key' d"
  shows "map key' (upd_where P f ds) = map key' ds"
  by (induction ds) (auto simp: assms)

lemma length_upd_by [simp]: "length (upd_by key i f ds) = length ds"
  by (simp add: upd_by_def)

lemma set_upd_by:
  "d \<in> set (upd_by key i f ds) \<Longrightarrow> (d \<in> set ds \<and> key d \<noteq> i) \<or> (\<exists>d0 \<in> set ds. key d0 = i \<and> d = f d0)"
  by (auto simp: upd_by_def split: if_splits)

lemma upd_by_None: "get_by key i ds = None \<Longrightarrow> upd_by key i f ds = ds"
  by (induction ds) (auto split: if_splits)

section \<open>The interface of a keyed store and its conditional update\<close>

text \<open>
  \<open>cas\<close> is the idiom every race in the code base is settled by: one conditional
  \<open>findOneAndUpdate\<close> whose filter names the expected state, and whose empty result (not a
  prior read) tells the loser that it lost.
\<close>

definition cas ::
  "('k \<Rightarrow> 's \<Rightarrow> 'd option) \<Rightarrow> ('k \<Rightarrow> ('d \<Rightarrow> 'd) \<Rightarrow> 's \<Rightarrow> 's) \<Rightarrow> 'k \<Rightarrow> ('d \<Rightarrow> bool) \<Rightarrow> ('d \<Rightarrow> 'd) \<Rightarrow>
     's \<Rightarrow> 'd option \<times> 's" where
  "cas lookup amend i P f s =
     (case lookup i s of
        None \<Rightarrow> (None, s)
      | Some d \<Rightarrow> if P d then (Some (f d), amend i f s) else (None, s))"

locale keyed_store =
  fixes lookup :: "'k \<Rightarrow> 's \<Rightarrow> 'd option"
    and amend :: "'k \<Rightarrow> ('d \<Rightarrow> 'd) \<Rightarrow> 's \<Rightarrow> 's"
    and admissible :: "('d \<Rightarrow> 'd) \<Rightarrow> bool"
  assumes lookup_amend:
    "admissible f \<Longrightarrow>
       lookup j (amend i f s) = (if j = i then map_option f (lookup i s) else lookup j s)"
begin

lemma cas_miss: "cas lookup amend i P f s = (None, s') \<Longrightarrow> s' = s"
  by (auto simp: cas_def split: option.splits if_splits)

lemma cas_hit:
  assumes "cas lookup amend i P f s = (Some d', s')" and "admissible f"
  obtains d where "lookup i s = Some d" and "P d" and "d' = f d" and "lookup i s' = Some (f d)"
proof -
  from assms(1) obtain d where "lookup i s = Some d" "P d" "d' = f d" "s' = amend i f s"
    by (auto simp: cas_def split: option.splits if_splits)
  with assms(2) that show thesis by (simp add: lookup_amend)
qed

lemma cas_frame:
  assumes "cas lookup amend i P f s = (r, s')" and "admissible f" and "j \<noteq> i"
  shows "lookup j s' = lookup j s"
  using assms by (auto simp: cas_def lookup_amend split: option.splits if_splits)

text \<open>The loser of a race: once the winner's update has falsified the loser's filter, the
  loser's conditional update finds nothing and writes nothing.\<close>

lemma cas_loser:
  assumes "cas lookup amend i P f s = (Some d', s')" and "admissible f" and "\<not> Q d'"
  shows "cas lookup amend i Q g s' = (None, s')"
proof -
  from assms(1,2) obtain d where "d' = f d" and "lookup i s' = Some (f d)"
    by (rule cas_hit)
  with assms(3) show ?thesis by (simp add: cas_def)
qed

end

interpretation list_store: keyed_store "get_by key" "\<lambda>i f. upd_by key i f" "\<lambda>f. \<forall>d. key (f d) = key d"
  for key :: "'d \<Rightarrow> 'k"
  by unfold_locales (simp add: get_by_upd_by)

section \<open>Lists and options\<close>

lemma sum_list_map_upd_by:
  fixes w :: "'d \<Rightarrow> 'a :: ab_group_add"
  assumes "distinct (map key ds)" and "get_by key i ds = Some d"
  shows "sum_list (map w (upd_by key i f ds)) = sum_list (map w ds) - w d + w (f d)"
  using assms
proof (induction ds)
  case (Cons x xs)
  show ?case
  proof (cases "key x = i")
    case True
    with Cons.prems have "get_by key i xs = None" by (auto simp: get_by_None_iff)
    with True Cons.prems show ?thesis by (simp add: upd_by_None algebra_simps)
  next
    case False
    with Cons show ?thesis by (simp add: algebra_simps)
  qed
qed simp

lemma filter_map_cong:
  assumes "\<And>d. d \<in> set ds \<Longrightarrow> P (f d) \<longleftrightarrow> P d" and "\<And>d. d \<in> set ds \<Longrightarrow> P d \<Longrightarrow> f d = d"
  shows "filter P (map f ds) = filter P ds"
  using assms by (induction ds) simp_all

lemma sum_partition:
  "finite A \<Longrightarrow> sum f A = sum f {x \<in> A. P x} + sum f {x \<in> A. \<not> P x}"
  by (subst sum.union_disjoint [symmetric]) (auto intro: sum.cong)

lemma all_upd_by:
  assumes "distinct (map key ds)" "get_by key i ds = Some d" "Q (f d)" "\<And>x. x \<in> set ds \<Longrightarrow> Q x"
  shows "x \<in> set (upd_by key i f ds) \<Longrightarrow> Q x"
proof -
  assume "x \<in> set (upd_by key i f ds)"
  then consider "x \<in> set ds" | d0 where "d0 \<in> set ds" "key d0 = i" "x = f d0"
    by (blast dest: set_upd_by)
  then show "Q x"
  proof cases
    case 2
    with get_by_distinct [OF assms(1)] assms(2) have "d0 = d" by fastforce
    with 2 assms(3) show ?thesis by simp
  qed (rule assms(4))
qed

section \<open>Strings\<close>

text \<open>\<open>String.prototype.trim\<close> on ASCII text.\<close>

definition is_space :: "char \<Rightarrow> bool" where
  "is_space c \<longleftrightarrow> of_char c = (32::nat) \<or> (9 \<le> (of_char c :: nat) \<and> (of_char c :: nat) \<le> 13)"

definition trim :: "string \<Rightarrow> string" where
  "trim t = rev (dropWhile is_space (rev (dropWhile is_space t)))"

text \<open>\<open>String.prototype.toLowerCase\<close> on ASCII text.\<close>

definition lower_char :: "char \<Rightarrow> char" where
  "lower_char c = (if 65 \<le> (of_char c :: nat) \<and> (of_char c :: nat) \<le> 90 then char_of ((of_char c :: nat) + 32) else c)"

definition toLowerCase :: "string \<Rightarrow> string" where
  "toLowerCase t = map lower_char t"

end
