(* ===== verification/Domain.thy ===== *)
theory Domain
  imports Prelude
begin

text \<open>
  The data model: the enumerations of \<open>src/common/enums\<close> and the documents of the
  \<open>schemas\<close> directories as datatypes and records, the exceptions services throw, and the
  state \<open>world\<close> that every operation of the development reads and writes.

  Object ids are natural numbers, instants are integers (milliseconds since the epoch), money,
  litres and coordinates are rationals: a JavaScript number is read as the exact value it
  denotes, and IEEE rounding noise is outside the model.  An optional property is an
  \<open>option\<close> field, an embedded array a list in insertion order.  Field names carry a short
  prefix per document because record fields share one name space.
\<close>

type_synonym oid = nat
type_synonym instant = int
type_synonym coords = "rat \<times> rat"
type_synonym region_code = string
type_synonym governorate_code = string

section \<open>Enumerations\<close>

datatype order_status =
    PENDING_APPROVAL | APPROVED | AWAITING_ROUTING | ROUTED_TO_TRANSPORT | ASSIGNED_TO_DRIVER
  | PENDING_PAYMENT | LOADING | IN_TRANSIT | UNLOADING | DELIVERED | REJECTED | CANCELLED

datatype user_role =
    SUPER_ADMIN | FUEL_COMPANY_ADMIN | TRANSPORT_COMPANY_ADMIN | CLIENT | DRIVER

datatype fuel_type = DIESEL | PETROL_91 | PETROL_95 | KEROSENE

datatype payment_method = DIRECT | DEFERRED | CREDIT

datatype invoice_state = ISSUED | SETTLED | VOID

datatype commission_basis = PERCENTAGE | PER_UNIT

datatype account_movement_kind =
    COMMISSION_CHARGED | CASHBACK_CREDITED | PAYMENT_RECORDED | CASHBACK_PAID_OUT

datatype account_movement_state = RECORDED | CONFIRMED

datatype litre_movement_kind =
    SHORTFALL_CREDIT | EXCESS_DEBIT | ORDER_DRAWDOWN | DRAWDOWN_RETURNED | CORRECTION

datatype verification_stage = DEPARTURE_STAGE | LOADING_STAGE
datatype verification_method = NFC_CARD | QR_CODE
datatype otp_purpose = ARRIVAL | DELIVERY
datatype driver_eligibility = ELIGIBLE | BUSY | OFFLINE | INACTIVE
datatype company_type = FUEL | TRANSPORT
datatype company_status = ACTIVE | SUSPENDED
datatype tank_material = IRON | ALUMINIUM
datatype stop_origin = DETECTED | DECLARED | BLOCKED
datatype stop_reason =
    TRAFFIC | VEHICLE_PROBLEM | REST_OR_PRAYER | REFUELLING | ROAD_CLOSURE | ACCIDENT | OTHER
datatype settlement_method = BANK_TRANSFER | NATIONAL_PAYMENT_SERVICE
datatype escalation_skip_reason = NO_PHONE | SEND_FAILED
datatype offer_state = OPEN | AWARDED | WITHDRAWN | CLOSED_NO_AWARD
datatype proposal_outcome = PROPOSED | PROPOSAL_DECLINED | PROPOSAL_AWARDED | NOT_SELECTED
datatype payment_gateway = SADAD | MADA
datatype payment_event_outcome =
    EV_CONFIRMED | EV_DUPLICATE | EV_OUT_OF_SEQUENCE | EV_AMOUNT_MISMATCH | EV_INVALID_SIGNATURE

datatype notification_type =
    ORDER_APPROVED_FINAL_PRICE | NO_DRIVER_AVAILABLE | PAYMENT_TIMEOUT | ORDER_ASSIGNED
  | ORDER_STATUS_CHANGED | OTP_ISSUED | PAYMENT_RECONCILIATION_REQUIRED
  | ORDER_ROUTED_TO_TRANSPORT | SUPPORT_REQUEST_RAISED | DRIVER_STOP_DETECTED
  | ORDER_DRIVER_BLOCKED | ORDER_STOP_UNRESOLVED | CREDIT_LIMIT_REQUEST_RESOLVED
  | EXCHANGE_OFFER_AVAILABLE | EXCHANGE_PROPOSAL_RECEIVED | EXCHANGE_OFFER_AWARDED
  | EXCHANGE_OFFER_CLOSED | PLATFORM_ANNOUNCEMENT

datatype session_revocation_cause =
    SIGNED_IN_ELSEWHERE | PASSWORD_RESET | ACCOUNT_DEACTIVATED | COMPANY_SUSPENDED
  | SESSION_LIMIT_EXCEEDED

datatype limit_request_state = REQUEST_PENDING | REQUEST_ACCEPTED | REQUEST_REJECTED

datatype session_event_type =
    SIGNED_IN | SIGNED_OUT | REVOKED | RECOVERY_REQUESTED | RECOVERY_VERIFY_FAILED
  | LOGIN_CODE_REQUESTED | LOGIN_CODE_VERIFY_FAILED

datatype announcement_state = QUEUED | COMPLETED
datatype announcement_failure = RECIPIENT_SUSPENDED | ADMIN_DEACTIVATED | NO_ACTIVE_ADMIN
datatype support_topic = ORDER_ISSUE | PAYMENT | ACCOUNT | OTHER_TOPIC
datatype support_state = SUBMITTED | ACKNOWLEDGED
datatype duty_state = UNKNOWN_DUTY | ON_DUTY | OFF_DUTY
datatype file_purpose = COMMERCIAL_REGISTER | PROFILE_PICTURE | PAYMENT_EVIDENCE | SUPPLIER_INVOICE_FILE

section \<open>Exceptions\<close>

datatype error_code =
    ORDER_NOT_AWAITING_CONFIRMATION | ALREADY_DEPARTED | TRUCK_UNAVAILABLE | TANK_UNAVAILABLE
  | TANK_CAPACITY_EXCEEDED | TANK_GRADE_UNSUPPORTED | ASSIGNMENT_REASON_REQUIRED
  | NO_WAREHOUSE_FOR_GRADE | ORDER_ALREADY_ASSIGNED | COMMISSION_CEILING_EXCEEDED
  | PAYMENT_EVIDENCE_REQUIRED | PAYMENT_ALREADY_CONFIRMED | CASHBACK_PAYOUT_EXCEEDS_BALANCE
  | CASHBACK_PAYOUT_DUPLICATE_REFERENCE | SUPPLIER_INVOICE_ALREADY_RECORDED
  | SUPPLIER_INVOICE_ORDER_NOT_ELIGIBLE | SUPPLIER_INVOICE_GRADE_MISMATCH
  | BALANCE_CORRECTION_REASON_REQUIRED | PRICING_NOT_CONFIGURED | QUOTE_EXPIRED | QUOTE_STALE
  | TRANSPORT_PRICE_NOT_SET | VEHICLE_MISMATCH | VEHICLE_NOT_VERIFIED | NOT_AT_WAREHOUSE
  | LOCATION_REQUIRED | STOP_NOT_IN_TRANSIT | STOP_ALREADY_OPEN | STOP_ALREADY_ANSWERED
  | STOP_ALREADY_RESOLVED | EXCHANGE_DELIVERY_IN_PAST | EXCHANGE_NO_ELIGIBLE_COMPANY
  | EXCHANGE_OFFER_NOT_OPEN | EXCHANGE_GRADE_NOT_SOLD | EXCHANGE_ALREADY_ANSWERED
  | EXCHANGE_ALREADY_RESOLVED | EXCHANGE_PARTY_INVALID | ORDER_BUCKET_STATUS_CONFLICT
  | PHONE_IN_USE | SMS_SEND_FAILED | LAST_STATION | RESET_CODE_INVALID | RESET_RATE_LIMITED
  | SESSION_REVOKED | ORDER_NOT_DELIVERED | ALREADY_RATED | CARD_ALREADY_PAIRED | TANK_CODE_IN_USE
  | DUPLICATE_PLATE | LIMIT_REQUEST_ALREADY_RESOLVED | LITRE_BALANCE_WOULD_GO_NEGATIVE
  | LOGIN_CODE_INVALID | LOGIN_RATE_LIMITED | CHALLENGE_REQUIRED | PHONE_NOT_REGISTERED
  | TRANSPORT_PRICE_AMBIGUOUS | INVALID_PARENT_FUEL_COMPANY

text \<open>The HTTP exceptions of the framework, with the machine-readable code where the thrower
  names one; \<open>SessionRevoked\<close> is the 401 whose body carries \<open>SESSION_REVOKED\<close> and a cause,
  \<open>TooManyRequests\<close> the 429 with its \<open>retryAfterSeconds\<close>, \<open>ChallengeNeeded\<close> the 400 that carries a
  fresh challenge; \<open>DuplicateKey\<close> is the driver's E11000, \<open>IsolationViolation\<close> the plain
  \<open>Error\<close> the scoping plugins throw, \<open>InvalidDocument\<close> Mongoose's validation error.\<close>

datatype exn =
    NotFound | BadRequest "error_code option" | Conflict "error_code option"
  | Forbidden "error_code option" | Unauthorized | DuplicateKey | IsolationViolation
  | InvalidDocument
  | NotFoundFor error_code | SessionRevoked "session_revocation_cause option"
  | TooManyRequests "error_code option" int | ServiceUnavailable | BadGateway error_code
  | ChallengeNeeded string nat | InternalError

section \<open>Embedded documents of an order\<close>

record price_breakdown =
  pb_fuelLineTotal :: rat
  pb_deliveryFee :: "rat option"
  pb_serviceFee :: rat
  pb_tax :: rat
  pb_total :: rat
  pb_unitPrice :: rat
  pb_serviceFeePercent :: rat
  pb_taxRatePercent :: rat

record status_history_entry =
  sh_from :: order_status
  sh_to :: order_status
  sh_actorId :: oid
  sh_actorRole :: user_role
  sh_at :: instant
  sh_manualOverride :: bool
  sh_overrideReason :: "string option"

text \<open>\<open>OtpRecordLike\<close> of the code primitives, and the record an order embeds.\<close>

record otp_record_like =
  otp_hash :: string
  otp_salt :: string
  otp_expiresAt :: instant
  otp_usedAt :: "instant option"
  otp_attempts :: nat

record otp_record = otp_record_like +
  otp_purpose :: otp_purpose
  otp_createdAt :: instant

record driver_summary =
  ds_fullName :: string
  ds_phone :: string
  ds_plateNumber :: string

record client_summary =
  cs_fullName :: string
  cs_phone :: string

record tank_summary =
  ts_code :: string
  ts_material :: tank_material

record warehouse_summary =
  ws_name :: string
  ws_addressText :: string
  ws_location :: coords

record vehicle_verification =
  vv_stage :: verification_stage
  vv_method :: verification_method
  vv_matched :: bool
  vv_presentedTruckId :: "oid option"
  vv_at :: instant
  vv_driverLocation :: "coords option"
  vv_distanceMeters :: "int option"
  vv_actorId :: oid

record stop_event =
  st_id :: oid
  st_origin :: stop_origin
  st_detectedAt :: instant
  st_location :: "coords option"
  st_reason :: "stop_reason option"
  st_reasonText :: "string option"
  st_reasonGivenAt :: "instant option"
  st_expectedDurationMinutes :: "int option"
  st_suppressedUntil :: "instant option"
  st_escalatedAt :: "instant option"
  st_resolvedAt :: "instant option"
  st_resolvedBy :: "oid option"

record confirmed_invoice_data =
  ci_quantityLitres :: rat
  ci_fuelType :: fuel_type
  ci_reference :: string
  ci_issueDate :: instant

record extracted_invoice_data =
  xi_quantityLitres :: "rat option"
  xi_fuelType :: "fuel_type option"
  xi_reference :: "string option"
  xi_issueDate :: "instant option"

record supplier_invoice =
  si_id :: oid
  si_fileId :: oid
  si_extracted :: "extracted_invoice_data option"
  si_confirmed :: "confirmed_invoice_data option"
  si_confirmedBy :: "oid option"
  si_confirmedAt :: "instant option"
  si_supersededAt :: "instant option"

record order =
  o_id :: oid
  o_fuelCompanyId :: oid
  o_transportCompanyId :: "oid option"
  o_clientId :: oid
  o_fuelType :: fuel_type
  o_quantityLiters :: rat
  o_deliveryLocation :: coords
  o_deliveryAddressText :: string
  o_stationId :: "oid option"
  o_priceBreakdown :: "price_breakdown option"
  o_status :: order_status
  o_estimatedPrice :: rat
  o_finalPrice :: "rat option"
  o_approvedBy :: "oid option"
  o_paymentMethod :: payment_method
  o_invoiceId :: "oid option"
  o_driverId :: "oid option"
  o_driverSummary :: "driver_summary option"
  o_clientSummary :: "client_summary option"
  o_paymentDeadline :: "instant option"
  o_paymentTimeoutCount :: nat
  o_paymentConfirmationId :: "oid option"
  o_statusHistory :: "status_history_entry list"
  o_otps :: "otp_record list"
  o_cancelledBy :: "oid option"
  o_cancellationReason :: "string option"
  o_rejectedBy :: "oid option"
  o_rejectionReason :: "string option"
  o_deliveredAt :: "instant option"
  o_truckId :: "oid option"
  o_tankId :: "oid option"
  o_tankSummary :: "tank_summary option"
  o_warehouseId :: "oid option"
  o_warehouseSummary :: "warehouse_summary option"
  o_verifications :: "vehicle_verification list"
  o_loadingConfirmedAt :: "instant option"
  o_assignmentAcknowledgedAt :: "instant option"
  o_assignmentEscalationSmsAt :: "instant option"
  o_assignmentEscalationSkippedReason :: "escalation_skip_reason option"
  o_assignedWhileIneligible :: bool
  o_assignedWhileIneligibleReason :: "string option"
  o_stopEvents :: "stop_event list"
  o_supplierInvoices :: "supplier_invoice list"
  o_createdAt :: instant


section \<open>The other documents\<close>

record user_station =
  us_name :: "string option"
  us_regionCode :: region_code
  us_governorateCode :: governorate_code
  us_location :: coords
  us_addressText :: string

record active_session =
  as_sid :: string
  as_createdAt :: instant

record user =
  u_id :: oid
  u_companyId :: "oid option"
  u_role :: user_role
  u_email :: string
  u_passwordHash :: string
  u_fullName :: string
  u_phone :: string
  u_profilePictureFileId :: "oid option"
  u_isActive :: bool
  u_sessionGeneration :: nat
  u_activeSessions :: "active_session list"
  u_lastRevocationCause :: "session_revocation_cause option"
  u_station :: "user_station option"
  u_creditLimit :: "rat option"
  u_isAvailable :: bool
  u_isOnline :: bool
  u_lastSeenAt :: "instant option"
  u_activeOrderId :: "oid option"
  u_location :: "coords option"
  u_locationUpdatedAt :: "instant option"
  u_lastMovedAt :: "instant option"
  u_lastMovedLocation :: "coords option"
  u_ratingAverage :: "rat option"
  u_ratingCount :: nat

record station =
  stn_id :: oid
  stn_companyId :: oid
  stn_clientId :: oid
  stn_name :: "string option"
  stn_regionCode :: region_code
  stn_governorateCode :: governorate_code
  stn_location :: coords
  stn_addressText :: string
  stn_isDefault :: bool
  stn_isFavourite :: bool
  stn_isActive :: bool

record truck =
  trk_id :: oid
  trk_companyId :: oid
  trk_plateNumber :: string
  trk_model :: "string option"
  trk_nfcCardUid :: "string option"
  trk_qrToken :: "string option"
  trk_isActive :: bool
  trk_activeOrderId :: "oid option"

record tank =
  tnk_id :: oid
  tnk_companyId :: oid
  tnk_code :: string
  tnk_material :: tank_material
  tnk_maxCapacityLiters :: rat
  tnk_fuelTypes :: "fuel_type list"
  tnk_isActive :: bool
  tnk_activeOrderId :: "oid option"

record warehouse =
  wh_id :: oid
  wh_name :: string
  wh_location :: coords
  wh_addressText :: string
  wh_region :: region_code
  wh_governorate :: governorate_code
  wh_fuelTypes :: "fuel_type list"
  wh_isActive :: bool
  wh_externalRef :: "string option"

record fuel_price =
  fp_fuelType :: fuel_type
  fp_basePricePerLiter :: rat
  fp_previousPricePerLiter :: "rat option"
  fp_priceChangedAt :: "instant option"

record pricing_config =
  pc_deliveryFee :: rat
  pc_serviceFeePercent :: rat
  pc_taxRatePercent :: rat
  pc_tankerCapacitiesLiters :: "rat list"
  pc_updatedAt :: instant

record delivery_rate =
  dr_regionCode :: region_code
  dr_governorateCode :: "governorate_code option"
  dr_pricePerKm :: rat
  dr_minPrice :: rat
  dr_updatedAt :: instant

record company =
  c_id :: oid
  c_name :: string
  c_type :: company_type
  c_parentFuelCompanyId :: "oid option"
  c_servedRegions :: "region_code list"
  c_coveredRegions :: "region_code list"
  c_commercialRegisterFileId :: "oid option"
  c_commissionCeiling :: "rat option"
  c_status :: company_status
  c_fuelPrices :: "fuel_price list"
  c_pricingConfig :: "pricing_config option"
  c_deliveryRates :: "delivery_rate list"
  c_contactEmail :: string
  c_contactPhone :: string

record invoice =
  inv_id :: oid
  inv_orderId :: oid
  inv_fuelCompanyId :: oid
  inv_clientId :: oid
  inv_transportCompanyId :: "oid option"
  inv_amount :: rat
  inv_priceBreakdown :: "price_breakdown option"
  inv_method :: payment_method
  inv_state :: invoice_state
  inv_payerRole :: user_role
  inv_settledAt :: "instant option"
  inv_paymentReference :: "string option"

record account_movement =
  am_id :: oid
  am_companyId :: oid
  am_kind :: account_movement_kind
  am_amount :: rat
  am_sourceInvoiceId :: "oid option"
  am_appliedRate :: "rat option"
  am_appliedBasis :: "commission_basis option"
  am_method :: "settlement_method option"
  am_reference :: "string option"
  am_documentFileId :: "oid option"
  am_state :: account_movement_state
  am_confirmedBy :: "oid option"
  am_confirmedAt :: "instant option"
  am_reversalOfId :: "oid option"

record commission_term =
  ct_basis :: commission_basis
  ct_rate :: rat
  ct_effectiveFrom :: instant
  ct_setBy :: oid

record cashback_programme =
  cp_basis :: commission_basis
  cp_rate :: rat
  cp_isActive :: bool
  cp_targetsAllCompanies :: bool
  cp_targetCompanyIds :: "oid list"
  cp_effectiveFrom :: instant
  cp_setBy :: oid

record litre_movement =
  lm_id :: oid
  lm_kind :: litre_movement_kind
  lm_litres :: rat
  lm_orderId :: "oid option"
  lm_reason :: "string option"
  lm_actorId :: oid
  lm_at :: instant

record litre_balance =
  lb_id :: oid
  lb_companyId :: oid
  lb_clientId :: oid
  lb_fuelType :: fuel_type
  lb_balanceLitres :: rat
  lb_movements :: "litre_movement list"
  lb_reconciledOrderIds :: "oid list"

record payment_event =
  pe_id :: oid
  pe_gatewayTransactionId :: string
  pe_gateway :: payment_gateway
  pe_orderId :: oid
  pe_companyId :: oid
  pe_clientId :: "oid option"
  pe_amount :: rat
  pe_currency :: string
  pe_outcome :: payment_event_outcome

record exchange_offer =
  off_id :: oid
  off_partyCompanyIds :: "oid list"
  off_openToMarket :: bool
  off_raisedByCompanyId :: oid
  off_raisedByUserId :: oid
  off_fuelType :: fuel_type
  off_quantityLitres :: rat
  off_deliveryAt :: instant
  off_city :: governorate_code
  off_district :: "string option"
  off_locationUrl :: "string option"
  off_notes :: "string option"
  off_state :: offer_state
  off_awardedProposalId :: "oid option"
  off_awardedCompanyId :: "oid option"
  off_agreedUnitPrice :: "rat option"
  off_agreedTotal :: "rat option"
  off_agreedQuantityLitres :: "rat option"
  off_resolvedBy :: "oid option"
  off_resolvedAt :: "instant option"

record exchange_proposal =
  prop_id :: oid
  prop_offerId :: oid
  prop_offerRaisedByCompanyId :: oid
  prop_proposingCompanyId :: oid
  prop_proposingUserId :: oid
  prop_outcome :: proposal_outcome
  prop_unitPrice :: "rat option"
  prop_respondedAt :: instant
  prop_resolvedAt :: "instant option"

record delivery_rating =
  rt_id :: oid
  rt_orderId :: oid
  rt_driverId :: oid
  rt_clientId :: oid
  rt_fuelCompanyId :: oid
  rt_transportCompanyId :: oid
  rt_score :: nat
  rt_review :: "string option"

record credit_limit_request =
  clr_id :: oid
  clr_companyId :: oid
  clr_clientId :: oid
  clr_requestedAmount :: rat
  clr_state :: limit_request_state
  clr_grantedAmount :: "rat option"
  clr_resolvedBy :: "oid option"
  clr_resolvedAt :: "instant option"

record notification =
  n_id :: oid
  n_companyId :: oid
  n_recipientUserId :: oid
  n_type :: notification_type
  n_orderId :: "oid option"
  n_readAt :: "instant option"

record session_event =
  se_userId :: oid
  se_companyId :: "oid option"
  se_role :: user_role
  se_type :: session_event_type
  se_cause :: "session_revocation_cause option"
  se_generation :: nat
  se_sid :: "string option"
  se_at :: instant

text \<open>The fields \<open>LoginCode\<close>, \<open>PhoneVerification\<close> and \<open>PasswordReset\<close> share; the last adds two.\<close>

record one_time_code =
  oc_id :: oid
  oc_userId :: oid
  oc_phone :: string
  oc_hash :: string
  oc_salt :: string
  oc_expiresAt :: instant
  oc_attempts :: nat
  oc_consumedAt :: "instant option"
  oc_createdAt :: instant

record password_reset = one_time_code +
  pr_verifiedAt :: "instant option"
  pr_resetTokenHash :: "string option"

record announcement =
  an_id :: oid
  an_title :: string
  an_body :: string
  an_sentBy :: oid
  an_targetCompanyIds :: "oid list"
  an_intendedRecipientCount :: nat
  an_deliveredCount :: nat
  an_failedCount :: nat
  an_state :: announcement_state

record announcement_delivery =
  ad_id :: oid
  ad_announcementId :: oid
  ad_recipientUserId :: "oid option"
  ad_companyAddressed :: bool
  ad_companyId :: oid
  ad_notificationId :: "oid option"
  ad_failureReason :: "announcement_failure option"

record support_request =
  sr_id :: oid
  sr_companyId :: oid
  sr_clientId :: oid
  sr_orderId :: "oid option"
  sr_topic :: support_topic
  sr_message :: string
  sr_state :: support_state
  sr_acknowledgedAt :: "instant option"
  sr_acknowledgedBy :: "oid option"

record stored_file =
  sf_id :: oid
  sf_companyId :: oid
  sf_ownerUserId :: "oid option"
  sf_purpose :: file_purpose
  sf_storagePath :: string
  sf_mimeType :: string
  sf_sizeBytes :: nat
  sf_originalName :: string

text \<open>Who acts: \<open>common/interfaces/jwt-payload.interface.ts\<close>.\<close>

record jwt_payload =
  jp_sub :: oid
  jp_role :: user_role
  jp_companyId :: "oid option"
  jp_sgen :: "nat option"
  jp_sid :: "string option"

record authenticated_user =
  au_userId :: oid
  au_role :: user_role
  au_companyId :: "oid option"
  au_parentFuelCompanyId :: "oid option"
  au_sgen :: "nat option"
  au_sid :: "string option"

section \<open>Configuration\<close>

text \<open>The settings the modelled services read through \<open>ConfigService\<close>, defaults applied.\<close>

record login_config =
  lc_maxAdminSessions :: nat
  lc_expiryMinutes :: int
  lc_maxAttempts :: nat
  lc_windowMinutes :: int
  lc_maxRequests :: nat
  lc_challengeAfter :: nat
  lc_failThreshold :: nat
  lc_blockMinutes :: int
  lc_revealUnknownPhone :: bool
  lc_powDifficultyBits :: nat
  lc_powSeedTtlSeconds :: int
  lc_resetExpiryMinutes :: int
  lc_resetMaxAttempts :: nat
  lc_resetWindowMinutes :: int
  lc_resetMaxRequests :: nat

record presence_config =
  pcf_displacementThresholdMeters :: rat
  pcf_heartbeatMinutes :: rat
  pcf_movementMeters :: rat
  pcf_offlineThresholdMinutes :: int
  pcf_leaseTtlMs :: int
  pcf_leaseEnabled :: bool

record config =
  cfg_paymentDeadlineMinutes :: int
  cfg_quoteExpiryMinutes :: int
  cfg_otpExpiryMinutes :: int
  cfg_ackWindowMinutes :: int
  cfg_stopWindowMinutes :: int
  cfg_stopResponseWindowMinutes :: int
  cfg_geofenceRadiusMeters :: int
  cfg_defaultCommissionCeiling :: rat
  cfg_login :: login_config
  cfg_presence :: presence_config

end
