(* ===== verification/World.thy ===== *)
theory World
  imports Domain
begin

text \<open>
  The state every service reads and writes, and the two ambient mechanisms the services rely
  on: MongoDB transactions (\<open>session.withTransaction\<close>) and the request scope held in
  \<open>AsyncLocalStorage\<close> (\<open>common/context/tenant-context.service.ts\<close>).

  A transaction is atomic: it runs without interleaving, and an exception discards the
  document writes made in it.  What does not go through the session stays: socket emissions,
  queue jobs, the Redis entries, room memberships, consumed ids, and notifications (\<open>NotificationsService.notify\<close>
  never receives the session).
\<close>

section \<open>Request scope\<close>

record request_scope =
  rs_userId :: "oid option"
  rs_role :: "user_role option"
  rs_companyId :: "oid option"
  rs_parentFuelCompanyId :: "oid option"

definition anonymous :: request_scope where
  "anonymous = \<lparr>rs_userId = None, rs_role = None, rs_companyId = None, rs_parentFuelCompanyId = None\<rparr>"

section \<open>Effects outside the database\<close>

datatype room = OrderRoom oid | UserRoom oid

datatype emission =
    OrderStatusEvent room oid order_status order_status instant
  | NotificationNew oid notification_type "oid option"
  | OrderOtpEvent oid oid otp_purpose string instant
  | SessionRevokedEvent oid session_revocation_cause instant
  | DisconnectUser oid
  | OrderLocationEvent oid coords string instant
  | SmsSent string string

datatype job =
    PaymentTimeoutJob oid instant
  | AssignmentEscalationJob oid instant
  | StopEscalationJob oid oid instant
  | AnnouncementFanoutJob oid

text \<open>The Redis keys outside the order code cache, one constructor per key family, and their values; each
  entry carries the instant its time-to-live runs out.\<close>

datatype redis_key =
    LoginRate string | LoginFails string | LoginBlocked string | LoginRateHits string
  | PowSeed string | ResetRate string
  | LoginCodeText oid | ResetCodeText oid | PhoneCodeText oid
  | SweepLease string

datatype redis_value = Counter nat | Text string

section \<open>The world\<close>

record world =
  w_orders :: "order list"
  w_users :: "user list"
  w_stations :: "station list"
  w_trucks :: "truck list"
  w_tanks :: "tank list"
  w_warehouses :: "warehouse list"
  w_companies :: "company list"
  w_invoices :: "invoice list"
  w_movements :: "account_movement list"
  w_terms :: "commission_term list"
  w_programmes :: "cashback_programme list"
  w_balances :: "litre_balance list"
  w_events :: "payment_event list"
  w_offers :: "exchange_offer list"
  w_proposals :: "exchange_proposal list"
  w_ratings :: "delivery_rating list"
  w_limit_requests :: "credit_limit_request list"
  w_session_events :: "session_event list"
  w_login_codes :: "one_time_code list"
  w_resets :: "password_reset list"
  w_phone_codes :: "one_time_code list"
  w_announcements :: "announcement list"
  w_deliveries :: "announcement_delivery list"
  w_support :: "support_request list"
  w_files :: "stored_file list"
  w_notifications :: "notification list"
  w_emits :: "emission list"
  w_jobs :: "job list"
  w_cache :: "(oid \<times> otp_purpose) \<rightharpoonup> (string \<times> instant)"
  w_redis :: "redis_key \<rightharpoonup> (redis_value \<times> instant option)"
  w_redis_up :: bool
  w_rooms :: "(nat \<times> room) list"
  w_blobs :: "string \<rightharpoonup> string"
  w_next_id :: oid
  w_now :: instant
  w_scope :: request_scope
  w_config :: config

type_synonym 'a service = "(world, exn, 'a) prog"

definition rollback :: "world \<Rightarrow> world \<Rightarrow> world" where
  "rollback s s' = s'\<lparr>w_orders := w_orders s, w_users := w_users s, w_stations := w_stations s,
     w_trucks := w_trucks s, w_tanks := w_tanks s, w_warehouses := w_warehouses s,
     w_companies := w_companies s, w_invoices := w_invoices s, w_movements := w_movements s,
     w_terms := w_terms s, w_programmes := w_programmes s, w_balances := w_balances s,
     w_events := w_events s, w_offers := w_offers s, w_proposals := w_proposals s,
     w_ratings := w_ratings s, w_limit_requests := w_limit_requests s,
     w_session_events := w_session_events s, w_login_codes := w_login_codes s, w_resets := w_resets s,
     w_phone_codes := w_phone_codes s, w_announcements := w_announcements s, w_deliveries := w_deliveries s,
     w_support := w_support s, w_files := w_files s\<rparr>"

definition transaction :: "'a service \<Rightarrow> 'a service" where
  "transaction m s = (case m s of
     (Inl e, s') \<Rightarrow> (Inl e, rollback s s')
   | (Inr a, s') \<Rightarrow> (Inr a, s'))"

definition run_unscoped :: "'a service \<Rightarrow> 'a service" where
  "run_unscoped m s = (case m (s\<lparr>w_scope := anonymous\<rparr>) of (r, s') \<Rightarrow> (r, s'\<lparr>w_scope := w_scope s\<rparr>))"

definition fresh_id :: "oid service" where
  "fresh_id s = (Inr (w_next_id s), s\<lparr>w_next_id := Suc (w_next_id s)\<rparr>)"

definition emit :: "emission \<Rightarrow> unit service" where
  "emit e = modify (\<lambda>s. s\<lparr>w_emits := w_emits s @ [e]\<rparr>)"

lemma transaction_inv [prog_inv]:
  "transaction m s = (Inr a, s') \<longleftrightarrow> m s = (Inr a, s')"
  "transaction m s = (Inl e, s') \<longleftrightarrow> (\<exists>s1. m s = (Inl e, s1) \<and> s' = rollback s s1)"
  by (auto simp: transaction_def split: prod.splits sum.splits)

lemma run_unscoped_inv [prog_inv]:
  "run_unscoped m s = (r, s') \<longleftrightarrow>
     (\<exists>s1. m (s\<lparr>w_scope := anonymous\<rparr>) = (r, s1) \<and> s' = s1\<lparr>w_scope := w_scope s\<rparr>)"
  by (auto simp: run_unscoped_def split: prod.splits)

lemma fresh_id_inv [prog_inv]:
  "fresh_id s = (Inr i, s') \<longleftrightarrow> i = w_next_id s \<and> s' = s\<lparr>w_next_id := Suc (w_next_id s)\<rparr>"
  "fresh_id s = (Inl e, s') \<longleftrightarrow> False"
  by (auto simp: fresh_id_def)

lemma emit_inv [prog_inv]:
  "emit x s = (Inr u, s') \<longleftrightarrow> s' = s\<lparr>w_emits := w_emits s @ [x]\<rparr>"
  "emit x s = (Inl e, s') \<longleftrightarrow> False"
  by (auto simp: emit_def prog_inv)

lemma rollback_simps [simp]:
  "w_orders (rollback s s') = w_orders s" "w_users (rollback s s') = w_users s"
  "w_stations (rollback s s') = w_stations s" "w_trucks (rollback s s') = w_trucks s"
  "w_tanks (rollback s s') = w_tanks s" "w_warehouses (rollback s s') = w_warehouses s"
  "w_companies (rollback s s') = w_companies s" "w_invoices (rollback s s') = w_invoices s"
  "w_movements (rollback s s') = w_movements s" "w_terms (rollback s s') = w_terms s"
  "w_programmes (rollback s s') = w_programmes s" "w_balances (rollback s s') = w_balances s"
  "w_events (rollback s s') = w_events s" "w_offers (rollback s s') = w_offers s"
  "w_proposals (rollback s s') = w_proposals s" "w_ratings (rollback s s') = w_ratings s"
  "w_limit_requests (rollback s s') = w_limit_requests s" "w_scope (rollback s s') = w_scope s'"
  "w_now (rollback s s') = w_now s'" "w_jobs (rollback s s') = w_jobs s'"
  "w_notifications (rollback s s') = w_notifications s'" "w_cache (rollback s s') = w_cache s'"
  "w_next_id (rollback s s') = w_next_id s'" "w_emits (rollback s s') = w_emits s'"
  "w_config (rollback s s') = w_config s'"
  "w_session_events (rollback s s') = w_session_events s" "w_login_codes (rollback s s') = w_login_codes s"
  "w_resets (rollback s s') = w_resets s" "w_phone_codes (rollback s s') = w_phone_codes s"
  "w_announcements (rollback s s') = w_announcements s" "w_deliveries (rollback s s') = w_deliveries s"
  "w_support (rollback s s') = w_support s" "w_files (rollback s s') = w_files s"
  "w_redis (rollback s s') = w_redis s'" "w_redis_up (rollback s s') = w_redis_up s'"
  "w_rooms (rollback s s') = w_rooms s'" "w_blobs (rollback s s') = w_blobs s'"
  by (simp_all add: rollback_def)

lemmas [prog_eval] = emit_def fresh_id_def

lemma transaction_eval [prog_eval]:
  "m s = (Inr a, s') \<Longrightarrow> transaction m s = (Inr a, s')"
  "m s = (Inl e, s') \<Longrightarrow> transaction m s = (Inl e, rollback s s')"
  by (simp_all add: transaction_def)

lemma run_unscoped_eval [prog_eval]:
  "m (s\<lparr>w_scope := anonymous\<rparr>) = (r, s') \<Longrightarrow> run_unscoped m s = (r, s'\<lparr>w_scope := w_scope s\<rparr>)"
  by (simp add: run_unscoped_def)

section \<open>Model operations\<close>

text \<open>
  The Mongoose operations the services use, over any collection: \<open>coll\<close> reads it,
  \<open>put\<close> rewrites it, \<open>key\<close> is \<open>_id\<close>, and \<open>vis\<close> is the scoping plugin of the
  collection, which either throws or yields the predicate it adds to the query's filter.
\<close>

type_synonym 'd scoping = "request_scope \<Rightarrow> exn + ('d \<Rightarrow> bool)"

definition find_one ::
  "(world \<Rightarrow> 'd list) \<Rightarrow> ('d \<Rightarrow> 'k) \<Rightarrow> 'd scoping \<Rightarrow> 'k \<Rightarrow> 'd option service" where
  "find_one coll key vis i s = (case vis (w_scope s) of
     Inl e \<Rightarrow> (Inl e, s)
   | Inr v \<Rightarrow> (Inr (case get_by key i (coll s) of
        None \<Rightarrow> None | Some d \<Rightarrow> if v d then Some d else None), s))"

definition find_all ::
  "(world \<Rightarrow> 'd list) \<Rightarrow> 'd scoping \<Rightarrow> ('d \<Rightarrow> bool) \<Rightarrow> 'd list service" where
  "find_all coll vis P s = (case vis (w_scope s) of
     Inl e \<Rightarrow> (Inl e, s)
   | Inr v \<Rightarrow> (Inr (filter (\<lambda>d. v d \<and> P d) (coll s)), s))"

definition find_and_update ::
  "(world \<Rightarrow> 'd list) \<Rightarrow> (('d list \<Rightarrow> 'd list) \<Rightarrow> world \<Rightarrow> world) \<Rightarrow> ('d \<Rightarrow> 'k) \<Rightarrow> 'd scoping \<Rightarrow> 'k \<Rightarrow>
     ('d \<Rightarrow> bool) \<Rightarrow> ('d \<Rightarrow> 'd) \<Rightarrow> 'd option service" where
  "find_and_update coll put key vis i P f s = (case vis (w_scope s) of
     Inl e \<Rightarrow> (Inl e, s)
   | Inr v \<Rightarrow> (case cas (\<lambda>i s. get_by key i (coll s)) (\<lambda>i f. put (upd_by key i f)) i
                   (\<lambda>d. v d \<and> P d) f s of
        (r, s') \<Rightarrow> (Inr r, s')))"

definition update_many ::
  "(('d list \<Rightarrow> 'd list) \<Rightarrow> world \<Rightarrow> world) \<Rightarrow> 'd scoping \<Rightarrow>
     ('d \<Rightarrow> bool) \<Rightarrow> ('d \<Rightarrow> 'd) \<Rightarrow> unit service" where
  "update_many put vis P f s = (case vis (w_scope s) of
     Inl e \<Rightarrow> (Inl e, s)
   | Inr v \<Rightarrow> (Inr (), put (upd_where (\<lambda>d. v d \<and> P d) f) s))"

definition insert_doc :: "(('d list \<Rightarrow> 'd list) \<Rightarrow> world \<Rightarrow> world) \<Rightarrow> 'd \<Rightarrow> unit service" where
  "insert_doc put d = modify (put (\<lambda>ds. ds @ [d]))"

text \<open>\<open>findOne\<close> by a filter, \<open>countDocuments\<close>, \<open>deleteMany\<close>; documents stand in the order of their
  \<open>createdAt\<close>, so a \<open>findOne\<close> sorted by it, newest first, is the last match.\<close>

definition find_first ::
  "(world \<Rightarrow> 'd list) \<Rightarrow> 'd scoping \<Rightarrow> ('d \<Rightarrow> bool) \<Rightarrow> 'd option service" where
  "find_first coll vis P s = (case vis (w_scope s) of
     Inl e \<Rightarrow> (Inl e, s)
   | Inr v \<Rightarrow> (Inr (find (\<lambda>d. v d \<and> P d) (coll s)), s))"

definition find_newest ::
  "(world \<Rightarrow> 'd list) \<Rightarrow> 'd scoping \<Rightarrow> ('d \<Rightarrow> bool) \<Rightarrow> 'd option service" where
  "find_newest coll vis P s = (case vis (w_scope s) of
     Inl e \<Rightarrow> (Inl e, s)
   | Inr v \<Rightarrow> (Inr (find (\<lambda>d. v d \<and> P d) (rev (coll s))), s))"

definition count_docs ::
  "(world \<Rightarrow> 'd list) \<Rightarrow> 'd scoping \<Rightarrow> ('d \<Rightarrow> bool) \<Rightarrow> nat service" where
  "count_docs coll vis P s = (case vis (w_scope s) of
     Inl e \<Rightarrow> (Inl e, s)
   | Inr v \<Rightarrow> (Inr (length (filter (\<lambda>d. v d \<and> P d) (coll s))), s))"

definition delete_many ::
  "(('d list \<Rightarrow> 'd list) \<Rightarrow> world \<Rightarrow> world) \<Rightarrow> 'd scoping \<Rightarrow> ('d \<Rightarrow> bool) \<Rightarrow> unit service" where
  "delete_many put vis P s = (case vis (w_scope s) of
     Inl e \<Rightarrow> (Inl e, s)
   | Inr v \<Rightarrow> (Inr (), put (filter (\<lambda>d. \<not> (v d \<and> P d))) s))"

text \<open>The scoping of a collection no plugin is attached to.\<close>

definition unscoped :: "'d scoping" where
  "unscoped ctx = Inr (\<lambda>_. True)"

lemma unscoped_vis [simp]: "unscoped ctx = Inr (\<lambda>_. True)"
  by (simp add: unscoped_def)

lemmas [prog_eval] = find_first_def find_newest_def count_docs_def delete_many_def find_one_def find_all_def find_and_update_def update_many_def insert_doc_def
  cas_def

lemma find_one_inv [prog_inv]:
  "find_one coll key vis i s = (Inr (Some d), s') \<longleftrightarrow>
     s' = s \<and> (\<exists>v. vis (w_scope s) = Inr v \<and> get_by key i (coll s) = Some d \<and> v d)"
  "find_one coll key vis i s = (Inr None, s') \<longleftrightarrow>
     s' = s \<and> (\<exists>v. vis (w_scope s) = Inr v \<and> (\<forall>d. get_by key i (coll s) = Some d \<longrightarrow> \<not> v d))"
  "find_one coll key vis i s = (Inl e, s') \<longleftrightarrow> s' = s \<and> vis (w_scope s) = Inl e"
  by (auto simp: find_one_def split: sum.splits option.splits)

lemma find_one_state: "find_one coll key vis i s = (Inr r, s') \<Longrightarrow> s' = s"
  by (auto simp: find_one_def split: sum.splits option.splits)

lemma find_all_inv [prog_inv]:
  "find_all coll vis P s = (Inr ds, s') \<longleftrightarrow>
     s' = s \<and> (\<exists>v. vis (w_scope s) = Inr v \<and> ds = filter (\<lambda>d. v d \<and> P d) (coll s))"
  "find_all coll vis P s = (Inl e, s') \<longleftrightarrow> s' = s \<and> vis (w_scope s) = Inl e"
  by (auto simp: find_all_def split: sum.splits)

lemma find_and_update_inv [prog_inv]:
  "find_and_update coll put key vis i P f s = (Inr (Some d'), s') \<longleftrightarrow>
     (\<exists>v d. vis (w_scope s) = Inr v \<and> get_by key i (coll s) = Some d \<and> v d \<and> P d \<and> d' = f d \<and>
        s' = put (upd_by key i f) s)"
  "find_and_update coll put key vis i P f s = (Inr None, s') \<longleftrightarrow>
     s' = s \<and> (\<exists>v. vis (w_scope s) = Inr v \<and>
        (\<forall>d. get_by key i (coll s) = Some d \<longrightarrow> \<not> (v d \<and> P d)))"
  "find_and_update coll put key vis i P f s = (Inl e, s') \<longleftrightarrow> s' = s \<and> vis (w_scope s) = Inl e"
  by (auto simp: find_and_update_def cas_def split: sum.splits option.splits if_splits)

lemma update_many_inv [prog_inv]:
  "update_many put vis P f s = (Inr u, s') \<longleftrightarrow>
     (\<exists>v. vis (w_scope s) = Inr v \<and> s' = put (upd_where (\<lambda>d. v d \<and> P d) f) s)"
  "update_many put vis P f s = (Inl e, s') \<longleftrightarrow> s' = s \<and> vis (w_scope s) = Inl e"
  by (auto simp: update_many_def split: sum.splits)

lemma insert_doc_inv [prog_inv]:
  "insert_doc put d s = (Inr u, s') \<longleftrightarrow> s' = put (\<lambda>ds. ds @ [d]) s"
  "insert_doc put d s = (Inl e, s') \<longleftrightarrow> False"
  by (auto simp: insert_doc_def prog_inv)

lemma find_first_inv [prog_inv]:
  "find_first coll vis P s = (Inr r, s') \<longleftrightarrow>
     s' = s \<and> (\<exists>v. vis (w_scope s) = Inr v \<and> r = find (\<lambda>d. v d \<and> P d) (coll s))"
  "find_first coll vis P s = (Inl e, s') \<longleftrightarrow> s' = s \<and> vis (w_scope s) = Inl e"
  by (auto simp: find_first_def split: sum.splits)

lemma find_newest_inv [prog_inv]:
  "find_newest coll vis P s = (Inr r, s') \<longleftrightarrow>
     s' = s \<and> (\<exists>v. vis (w_scope s) = Inr v \<and> r = find (\<lambda>d. v d \<and> P d) (rev (coll s)))"
  "find_newest coll vis P s = (Inl e, s') \<longleftrightarrow> s' = s \<and> vis (w_scope s) = Inl e"
  by (auto simp: find_newest_def split: sum.splits)

lemma count_docs_inv [prog_inv]:
  "count_docs coll vis P s = (Inr n, s') \<longleftrightarrow>
     s' = s \<and> (\<exists>v. vis (w_scope s) = Inr v \<and> n = length (filter (\<lambda>d. v d \<and> P d) (coll s)))"
  "count_docs coll vis P s = (Inl e, s') \<longleftrightarrow> s' = s \<and> vis (w_scope s) = Inl e"
  by (auto simp: count_docs_def split: sum.splits)

lemma delete_many_inv [prog_inv]:
  "delete_many put vis P s = (Inr u, s') \<longleftrightarrow>
     (\<exists>v. vis (w_scope s) = Inr v \<and> s' = put (filter (\<lambda>d. \<not> (v d \<and> P d))) s)"
  "delete_many put vis P s = (Inl e, s') \<longleftrightarrow> s' = s \<and> vis (w_scope s) = Inl e"
  by (auto simp: delete_many_def split: sum.splits)

text \<open>What the model operations keep.\<close>

lemma keeps_reads [intro, simp]:
  "keeps P (find_one coll key vis i)" "keeps P (find_all coll vis Q)"
  "keeps P (find_first coll vis Q)" "keeps P (find_newest coll vis Q)" "keeps P (count_docs coll vis Q)"
  by (auto simp: keeps_def find_one_def find_all_def find_first_def find_newest_def count_docs_def split: sum.splits)

lemma keeps_find_and_update:
  "(\<And>s. P s \<Longrightarrow> P (put (upd_by key i f) s)) \<Longrightarrow> keeps P (find_and_update coll put key vis i Q f)"
  by (auto simp: keeps_def find_and_update_def cas_def split: sum.splits option.splits)

lemma keeps_update_many:
  "(\<And>s g. P s \<Longrightarrow> P (put g s)) \<Longrightarrow> keeps P (update_many put vis Q f)"
  by (auto simp: keeps_def update_many_def split: sum.splits)

lemma keeps_delete_many:
  "(\<And>s g. P s \<Longrightarrow> P (put g s)) \<Longrightarrow> keeps P (delete_many put vis Q)"
  by (auto simp: keeps_def delete_many_def split: sum.splits)

lemma keeps_insert_doc: "(\<And>s. P s \<Longrightarrow> P (put (\<lambda>ds. ds @ [d]) s)) \<Longrightarrow> keeps P (insert_doc put d)"
  by (auto simp: insert_doc_def intro: keeps_modify)

lemma keeps_fresh_id: "(\<And>s. P s \<Longrightarrow> P (s\<lparr>w_next_id := Suc (w_next_id s)\<rparr>)) \<Longrightarrow> keeps P fresh_id"
  by (auto simp: keeps_def fresh_id_def)

lemma keeps_emit: "(\<And>s es. P s \<Longrightarrow> P (s\<lparr>w_emits := es\<rparr>)) \<Longrightarrow> keeps P (emit x)"
  by (auto simp: emit_def intro: keeps_modify)

lemma keeps_run_unscoped:
  assumes "keeps P m" "\<And>s c. P s \<Longrightarrow> P (s\<lparr>w_scope := c\<rparr>)"
  shows "keeps P (run_unscoped m)"
  using assms by (auto simp: keeps_def run_unscoped_def split: prod.splits) (metis snd_conv)

text \<open>
  The interface of a collection.  A client of any collection relies on three laws: reading
  after a rewrite gives the rewrite, and a rewrite moves neither the scope nor the clock.
\<close>

locale collection =
  fixes coll :: "world \<Rightarrow> 'd list"
    and put :: "('d list \<Rightarrow> 'd list) \<Rightarrow> world \<Rightarrow> world"
    and key :: "'d \<Rightarrow> oid"
  assumes coll_put: "coll (put g s) = g (coll s)"
    and scope_put: "w_scope (put g s) = w_scope s"
    and now_put: "w_now (put g s) = w_now s"
begin

lemma find_and_update_lookup:
  assumes "find_and_update coll put key vis i P f s = (Inr r, s')" and "\<And>d. key (f d) = key d"
  shows "get_by key j (coll s') =
    (if j = i \<and> r \<noteq> None then r else get_by key j (coll s))"
proof (cases r)
  case None
  with assms(1) show ?thesis by (simp add: prog_inv)
next
  case (Some d')
  with assms show ?thesis by (auto simp: prog_inv coll_put get_by_upd_by)
qed

lemma find_and_update_scope:
  assumes "find_and_update coll put key vis i P f s = (r, s')"
  shows "w_scope s' = w_scope s" "w_now s' = w_now s"
  using assms
  by (auto simp: find_and_update_def cas_def scope_put now_put split: sum.splits option.splits if_splits)

lemma insert_lookup:
  assumes "insert_doc put d s = (r, s')" and "get_by key (key d) (coll s) = None"
  shows "get_by key j (coll s') = (if j = key d then Some d else get_by key j (coll s))"
  using assms by (auto simp: insert_doc_def modify_def coll_put get_by_snoc split: option.splits)

end

sublocale collection \<subseteq>
  store: keyed_store "\<lambda>i s. get_by key i (coll s)" "\<lambda>i f. put (upd_by key i f)"
    "\<lambda>f. \<forall>d. key (f d) = key d"
  by unfold_locales (simp add: coll_put get_by_upd_by)

interpretation order_coll: collection w_orders w_orders_update o_id by unfold_locales simp_all
interpretation user_coll: collection w_users w_users_update u_id by unfold_locales simp_all
interpretation truck_coll: collection w_trucks w_trucks_update trk_id by unfold_locales simp_all
interpretation tank_coll: collection w_tanks w_tanks_update tnk_id by unfold_locales simp_all
interpretation invoice_coll: collection w_invoices w_invoices_update inv_id by unfold_locales simp_all
interpretation movement_coll: collection w_movements w_movements_update am_id by unfold_locales simp_all
interpretation offer_coll: collection w_offers w_offers_update off_id by unfold_locales simp_all
interpretation proposal_coll: collection w_proposals w_proposals_update prop_id by unfold_locales simp_all
interpretation balance_coll: collection w_balances w_balances_update lb_id by unfold_locales simp_all
interpretation notification_coll: collection w_notifications w_notifications_update n_id by unfold_locales simp_all
interpretation company_coll: collection w_companies w_companies_update c_id by unfold_locales simp_all
interpretation station_coll: collection w_stations w_stations_update stn_id by unfold_locales simp_all
interpretation limit_coll: collection w_limit_requests w_limit_requests_update clr_id by unfold_locales simp_all
interpretation login_code_coll: collection w_login_codes w_login_codes_update oc_id by unfold_locales simp_all
interpretation reset_coll: collection w_resets w_resets_update oc_id by unfold_locales simp_all
interpretation phone_code_coll: collection w_phone_codes w_phone_codes_update oc_id by unfold_locales simp_all
interpretation announcement_coll: collection w_announcements w_announcements_update an_id by unfold_locales simp_all
interpretation event_coll: collection w_events w_events_update pe_id by unfold_locales simp_all

end
