(* ===== verification/Tenancy.thy ===== *)
theory Tenancy
  imports World
begin

text \<open>
  The four global scoping plugins of \<open>common/plugins\<close>: \<open>tenant-scope\<close> (one owning
  company), \<open>multi-party-scope\<close> (orders and invoices), \<open>party-set-scope\<close> (exchange
  offers) and \<open>proposal-scope\<close> (exchange proposals).

  Each plugin reads the request scope and either throws or yields the predicate it adds to
  every query; where a caller's filter names the key the plugin injects, \<open>Query.where\<close>
  replaces the caller's value (\<open>tenant_key\<close>).  The locale \<open>scoping_plugin\<close> states what a
  query may rely on; it is interpreted for every scoped collection of the model, and the
  confinement of reads and writes is proved once inside it.
\<close>

section \<open>Multi-party scope: orders and invoices\<close>

datatype party_filter =
    ByFuelCompany oid
  | ByTransporter oid oid
  | ByClient oid oid
  | ByDriver oid oid

definition resolveFuelCompanyId :: "request_scope \<Rightarrow> exn + oid option" where
  "resolveFuelCompanyId ctx = (case rs_role ctx of
     None \<Rightarrow> Inr None
   | Some SUPER_ADMIN \<Rightarrow> Inr None
   | Some TRANSPORT_COMPANY_ADMIN \<Rightarrow>
       (case rs_parentFuelCompanyId ctx of None \<Rightarrow> Inl IsolationViolation | Some f \<Rightarrow> Inr (Some f))
   | Some _ \<Rightarrow>
       (case rs_parentFuelCompanyId ctx of
          Some f \<Rightarrow> Inr (Some f)
        | None \<Rightarrow> (case rs_companyId ctx of None \<Rightarrow> Inl IsolationViolation | Some f \<Rightarrow> Inr (Some f))))"

definition resolveFilter :: "request_scope \<Rightarrow> exn + party_filter option" where
  "resolveFilter ctx = (case resolveFuelCompanyId ctx of
     Inl e \<Rightarrow> Inl e
   | Inr None \<Rightarrow> Inr None
   | Inr (Some fuelCompanyId) \<Rightarrow>
       (case rs_userId ctx of
          None \<Rightarrow> Inl IsolationViolation
        | Some userId \<Rightarrow>
            (case rs_role ctx of
               Some FUEL_COMPANY_ADMIN \<Rightarrow> Inr (Some (ByFuelCompany fuelCompanyId))
             | Some TRANSPORT_COMPANY_ADMIN \<Rightarrow>
                 (case rs_companyId ctx of
                    None \<Rightarrow> Inl IsolationViolation
                  | Some c \<Rightarrow> Inr (Some (ByTransporter fuelCompanyId c)))
             | Some CLIENT \<Rightarrow> Inr (Some (ByClient fuelCompanyId userId))
             | Some DRIVER \<Rightarrow> Inr (Some (ByDriver fuelCompanyId userId))
             | _ \<Rightarrow> Inl IsolationViolation)))"

fun order_matches :: "party_filter \<Rightarrow> order \<Rightarrow> bool" where
  "order_matches (ByFuelCompany f) d \<longleftrightarrow> o_fuelCompanyId d = f"
| "order_matches (ByTransporter f t) d \<longleftrightarrow> o_fuelCompanyId d = f \<and> o_transportCompanyId d = Some t"
| "order_matches (ByClient f c) d \<longleftrightarrow> o_fuelCompanyId d = f \<and> o_clientId d = c"
| "order_matches (ByDriver f u) d \<longleftrightarrow> o_fuelCompanyId d = f \<and> o_driverId d = Some u"

text \<open>An invoice has no \<open>driverId\<close>, so the driver's filter matches none.\<close>

fun invoice_matches :: "party_filter \<Rightarrow> invoice \<Rightarrow> bool" where
  "invoice_matches (ByFuelCompany f) d \<longleftrightarrow> inv_fuelCompanyId d = f"
| "invoice_matches (ByTransporter f t) d \<longleftrightarrow> inv_fuelCompanyId d = f \<and> inv_transportCompanyId d = Some t"
| "invoice_matches (ByClient f c) d \<longleftrightarrow> inv_fuelCompanyId d = f \<and> inv_clientId d = c"
| "invoice_matches (ByDriver f u) d \<longleftrightarrow> False"

definition multi_party :: "(party_filter \<Rightarrow> 'd \<Rightarrow> bool) \<Rightarrow> 'd scoping" where
  "multi_party matches ctx = (case resolveFilter ctx of
     Inl e \<Rightarrow> Inl e
   | Inr None \<Rightarrow> Inr (\<lambda>_. True)
   | Inr (Some p) \<Rightarrow> Inr (matches p))"

abbreviation order_scoping :: "order scoping" where "order_scoping \<equiv> multi_party order_matches"
abbreviation invoice_scoping :: "invoice scoping" where "invoice_scoping \<equiv> multi_party invoice_matches"

text \<open>\<open>pre('save')\<close> of a new document: the acting fuel company wins over the one supplied.\<close>

definition owning_fuel_company :: "oid \<Rightarrow> oid service" where
  "owning_fuel_company supplied =
     bnd (asks w_scope) (\<lambda>ctx.
     bnd (of_sum (resolveFuelCompanyId ctx)) (\<lambda>f.
     ret (case f of None \<Rightarrow> supplied | Some c \<Rightarrow> c)))"

section \<open>Tenant scope: one owning company\<close>

definition resolveCompanyId :: "request_scope \<Rightarrow> exn + oid option" where
  "resolveCompanyId ctx = (case rs_role ctx of
     None \<Rightarrow> Inr None
   | Some SUPER_ADMIN \<Rightarrow> Inr None
   | Some _ \<Rightarrow> (case rs_companyId ctx of None \<Rightarrow> Inl IsolationViolation | Some c \<Rightarrow> Inr (Some c)))"

definition tenant_scoped :: "('d \<Rightarrow> oid option) \<Rightarrow> 'd scoping" where
  "tenant_scoped owner ctx = (case resolveCompanyId ctx of
     Inl e \<Rightarrow> Inl e
   | Inr None \<Rightarrow> Inr (\<lambda>_. True)
   | Inr (Some c) \<Rightarrow> Inr (\<lambda>d. owner d = Some c))"

abbreviation user_scoping :: "user scoping" where "user_scoping \<equiv> tenant_scoped u_companyId"
abbreviation truck_scoping :: "truck scoping" where
  "truck_scoping \<equiv> tenant_scoped (\<lambda>d. Some (trk_companyId d))"
abbreviation tank_scoping :: "tank scoping" where
  "tank_scoping \<equiv> tenant_scoped (\<lambda>d. Some (tnk_companyId d))"
abbreviation station_scoping :: "station scoping" where
  "station_scoping \<equiv> tenant_scoped (\<lambda>d. Some (stn_companyId d))"
abbreviation movement_scoping :: "account_movement scoping" where
  "movement_scoping \<equiv> tenant_scoped (\<lambda>d. Some (am_companyId d))"
abbreviation balance_scoping :: "litre_balance scoping" where
  "balance_scoping \<equiv> tenant_scoped (\<lambda>d. Some (lb_companyId d))"
abbreviation event_scoping :: "payment_event scoping" where
  "event_scoping \<equiv> tenant_scoped (\<lambda>d. Some (pe_companyId d))"
abbreviation notification_scoping :: "notification scoping" where
  "notification_scoping \<equiv> tenant_scoped (\<lambda>d. Some (n_companyId d))"

text \<open>\<open>Query.where\<close> replaces a \<open>companyId\<close> the caller's filter names, and
  \<open>pre('save')\<close> replaces one the new document names: both by the acting company.\<close>

definition tenant_key :: "oid \<Rightarrow> oid service" where
  "tenant_key supplied =
     bnd (asks w_scope) (\<lambda>ctx.
     bnd (of_sum (resolveCompanyId ctx)) (\<lambda>c.
     ret (case c of None \<Rightarrow> supplied | Some own \<Rightarrow> own)))"

section \<open>Party-set scope and proposal scope: the fuel exchange\<close>

definition resolveActingCompanyId :: "request_scope \<Rightarrow> exn + oid option" where
  "resolveActingCompanyId ctx = (case rs_role ctx of
     None \<Rightarrow> Inr None
   | Some SUPER_ADMIN \<Rightarrow> Inr None
   | Some FUEL_COMPANY_ADMIN \<Rightarrow>
       (case rs_companyId ctx of None \<Rightarrow> Inl IsolationViolation | Some c \<Rightarrow> Inr (Some c))
   | Some _ \<Rightarrow> Inl IsolationViolation)"

definition offer_scoping :: "exchange_offer scoping" where
  "offer_scoping ctx = (case resolveActingCompanyId ctx of
     Inl e \<Rightarrow> Inl e
   | Inr None \<Rightarrow> Inr (\<lambda>_. True)
   | Inr (Some c) \<Rightarrow> Inr (\<lambda>d. c \<in> set (off_partyCompanyIds d) \<or> off_openToMarket d))"

definition proposal_scoping :: "exchange_proposal scoping" where
  "proposal_scoping ctx = (case resolveActingCompanyId ctx of
     Inl e \<Rightarrow> Inl e
   | Inr None \<Rightarrow> Inr (\<lambda>_. True)
   | Inr (Some c) \<Rightarrow> Inr (\<lambda>d. prop_proposingCompanyId d = c \<or> prop_offerRaisedByCompanyId d = c))"

definition offer_save_valid :: "oid \<Rightarrow> exchange_offer \<Rightarrow> bool" where
  "offer_save_valid acting d =
     (let parties = off_partyCompanyIds d
      in if off_openToMarket d then length parties = 1 \<and> parties ! 0 = acting
         else length parties = 2 \<and> acting \<in> set parties)"

definition save_offer :: "exchange_offer \<Rightarrow> unit service" where
  "save_offer d =
     bnd (asks w_scope) (\<lambda>ctx.
     bnd (of_sum (resolveActingCompanyId ctx)) (\<lambda>acting.
     bnd (guard (case acting of None \<Rightarrow> True | Some c \<Rightarrow> offer_save_valid c d)
            (BadRequest (Some EXCHANGE_PARTY_INVALID))) (\<lambda>_.
     insert_doc w_offers_update d)))"

section \<open>What a scoped query relies on\<close>

definition bypasses :: "request_scope \<Rightarrow> bool" where
  "bypasses ctx \<longleftrightarrow> rs_role ctx = None \<or> rs_role ctx = Some SUPER_ADMIN"

locale scoping_plugin =
  fixes vis :: "'d scoping"
    and belongs :: "request_scope \<Rightarrow> 'd \<Rightarrow> bool"
  assumes bypass: "bypasses ctx \<Longrightarrow> vis ctx = Inr (\<lambda>_. True)"
    and confined: "vis ctx = Inr v \<Longrightarrow> \<not> bypasses ctx \<Longrightarrow> v d \<longleftrightarrow> belongs ctx d"
    and fails_closed: "vis ctx = Inl e \<Longrightarrow> e = IsolationViolation"
begin

lemma vis_sound: "vis ctx = Inr v \<Longrightarrow> v d \<Longrightarrow> bypasses ctx \<or> belongs ctx d"
  using confined by blast

lemma vis_complete: "vis ctx = Inr v \<Longrightarrow> bypasses ctx \<or> belongs ctx d \<Longrightarrow> v d"
  using confined bypass by (metis sum.inject(2))

lemma find_one_confined:
  assumes "find_one coll key vis i s = (Inr (Some d), s')"
  shows "bypasses (w_scope s) \<or> belongs (w_scope s) d"
  using assms by (auto simp: prog_inv dest: vis_sound)

lemma find_all_confined:
  assumes "find_all coll vis P s = (Inr ds, s')" and "d \<in> set ds"
  shows "P d \<and> (bypasses (w_scope s) \<or> belongs (w_scope s) d)"
  using assms by (auto simp: prog_inv dest: vis_sound)

lemma find_all_complete:
  assumes "find_all coll vis P s = (Inr ds, s')" and "d \<in> set (coll s)" and "P d"
    and "bypasses (w_scope s) \<or> belongs (w_scope s) d"
  shows "d \<in> set ds"
proof -
  from assms(1) obtain v where v: "vis (w_scope s) = Inr v" and ds: "ds = filter (\<lambda>d. v d \<and> P d) (coll s)"
    by (auto simp: prog_inv)
  from v assms(4) have "v d" by (rule vis_complete)
  with ds assms(2,3) show ?thesis by simp
qed

lemma update_confined:
  assumes "find_and_update coll put key vis i P f s = (Inr (Some d'), s')"
  obtains d where "get_by key i (coll s) = Some d" "d' = f d"
    and "bypasses (w_scope s) \<or> belongs (w_scope s) d"
  using assms by (auto simp: prog_inv dest: vis_sound)

end

definition order_party :: "request_scope \<Rightarrow> order \<Rightarrow> bool" where
  "order_party ctx d \<longleftrightarrow>
     (let fuel = (case rs_parentFuelCompanyId ctx of Some f \<Rightarrow> Some f | None \<Rightarrow> rs_companyId ctx)
      in fuel = Some (o_fuelCompanyId d) \<and>
         (case rs_role ctx of
            Some FUEL_COMPANY_ADMIN \<Rightarrow> True
          | Some TRANSPORT_COMPANY_ADMIN \<Rightarrow> o_transportCompanyId d \<noteq> None \<and> o_transportCompanyId d = rs_companyId ctx
          | Some CLIENT \<Rightarrow> rs_userId ctx = Some (o_clientId d)
          | Some DRIVER \<Rightarrow> o_driverId d \<noteq> None \<and> rs_userId ctx = o_driverId d
          | _ \<Rightarrow> False))"

definition invoice_party :: "request_scope \<Rightarrow> invoice \<Rightarrow> bool" where
  "invoice_party ctx d \<longleftrightarrow>
     (let fuel = (case rs_parentFuelCompanyId ctx of Some f \<Rightarrow> Some f | None \<Rightarrow> rs_companyId ctx)
      in fuel = Some (inv_fuelCompanyId d) \<and>
         (case rs_role ctx of
            Some FUEL_COMPANY_ADMIN \<Rightarrow> True
          | Some TRANSPORT_COMPANY_ADMIN \<Rightarrow> inv_transportCompanyId d \<noteq> None \<and> inv_transportCompanyId d = rs_companyId ctx
          | Some CLIENT \<Rightarrow> rs_userId ctx = Some (inv_clientId d)
          | _ \<Rightarrow> False))"

lemmas scope_defs = multi_party_def resolveFilter_def resolveFuelCompanyId_def tenant_scoped_def
  resolveCompanyId_def resolveActingCompanyId_def offer_scoping_def proposal_scoping_def bypasses_def

lemmas scope_splits = option.splits user_role.splits sum.splits if_splits

interpretation order_plugin: scoping_plugin order_scoping order_party
  by unfold_locales (auto simp: scope_defs order_party_def split: scope_splits)

interpretation invoice_plugin: scoping_plugin invoice_scoping invoice_party
  by unfold_locales (auto simp: scope_defs invoice_party_def split: scope_splits)

interpretation tenant_plugin: scoping_plugin "tenant_scoped owner"
    "\<lambda>ctx d. owner d \<noteq> None \<and> owner d = rs_companyId ctx"
  for owner :: "'d \<Rightarrow> oid option"
  by unfold_locales (auto simp: scope_defs split: scope_splits)

interpretation offer_plugin: scoping_plugin offer_scoping
    "\<lambda>ctx d. rs_companyId ctx \<in> Some ` set (off_partyCompanyIds d) \<or> off_openToMarket d"
  by unfold_locales (auto simp: scope_defs split: scope_splits)

interpretation proposal_plugin: scoping_plugin proposal_scoping
    "\<lambda>ctx d. rs_companyId ctx \<in> {Some (prop_proposingCompanyId d), Some (prop_offerRaisedByCompanyId d)}"
  by unfold_locales (auto simp: scope_defs split: scope_splits)

lemma anonymous_scope [simp]:
  "multi_party m anonymous = Inr (\<lambda>_. True)"
  "tenant_scoped own anonymous = Inr (\<lambda>_. True)"
  "offer_scoping anonymous = Inr (\<lambda>_. True)"
  "proposal_scoping anonymous = Inr (\<lambda>_. True)"
  "resolveActingCompanyId anonymous = Inr None"
  "resolveCompanyId anonymous = Inr None"
  "resolveFuelCompanyId anonymous = Inr None"
  by (simp_all add: scope_defs anonymous_def)

end
