(* ===== verification/Samples.thy ===== *)
theory Samples
  imports World
begin

text \<open>
  Concrete documents and states at which the properties of the development are instantiated:
  one document of each kind with default values, an empty world, and a small example scene.
\<close>

definition blank_order :: order where
  "blank_order = \<lparr>o_id = 10, o_fuelCompanyId = 1, o_transportCompanyId = None, o_clientId = 5,
     o_fuelType = DIESEL, o_quantityLiters = 1000, o_deliveryLocation = (46, 24),
     o_deliveryAddressText = '''', o_stationId = None, o_priceBreakdown = None,
     o_status = PENDING_APPROVAL, o_estimatedPrice = 100, o_finalPrice = None, o_approvedBy = None,
     o_paymentMethod = DIRECT, o_invoiceId = None, o_driverId = None, o_driverSummary = None,
     o_clientSummary = None, o_paymentDeadline = None, o_paymentTimeoutCount = 0,
     o_paymentConfirmationId = None, o_statusHistory = [], o_otps = [], o_cancelledBy = None,
     o_cancellationReason = None, o_rejectedBy = None, o_rejectionReason = None,
     o_deliveredAt = None, o_truckId = None, o_tankId = None, o_tankSummary = None,
     o_warehouseId = None, o_warehouseSummary = None, o_verifications = [],
     o_loadingConfirmedAt = None, o_assignmentAcknowledgedAt = None,
     o_assignmentEscalationSmsAt = None, o_assignmentEscalationSkippedReason = None,
     o_assignedWhileIneligible = False, o_assignedWhileIneligibleReason = None,
     o_stopEvents = [], o_supplierInvoices = [], o_createdAt = 0\<rparr>"

definition blank_user :: user where
  "blank_user = \<lparr>u_id = 5, u_companyId = Some 1, u_role = CLIENT, u_email = ''c@x'',
     u_passwordHash = ''h'', u_fullName = ''Client'', u_phone = ''1'', u_profilePictureFileId = None,
     u_isActive = True, u_sessionGeneration = 0, u_activeSessions = [], u_lastRevocationCause = None, u_station = None, u_creditLimit = None,
     u_isAvailable = True, u_isOnline = False, u_lastSeenAt = None, u_activeOrderId = None,
     u_location = None, u_locationUpdatedAt = None, u_lastMovedAt = None, u_lastMovedLocation = None,
     u_ratingAverage = None, u_ratingCount = 0\<rparr>"

definition blank_driver :: user where
  "blank_driver = blank_user\<lparr>u_id := 7, u_companyId := Some 2, u_role := DRIVER, u_isOnline := True\<rparr>"

definition blank_truck :: truck where
  "blank_truck = \<lparr>trk_id = 20, trk_companyId = 2, trk_plateNumber = ''ABC'', trk_model = None, trk_nfcCardUid = None,
     trk_qrToken = None, trk_isActive = True, trk_activeOrderId = None\<rparr>"

definition blank_tank :: tank where
  "blank_tank = \<lparr>tnk_id = 30, tnk_companyId = 2, tnk_code = ''T'', tnk_material = IRON,
     tnk_maxCapacityLiters = 5000, tnk_fuelTypes = [DIESEL], tnk_isActive = True,
     tnk_activeOrderId = None\<rparr>"

definition depot :: warehouse where
  "depot = \<lparr>wh_id = 40, wh_name = ''Depot'', wh_location = (46, 24), wh_addressText = '''', wh_region = ''RIYADH'',
     wh_governorate = ''RIYADH'', wh_fuelTypes = [DIESEL], wh_isActive = True, wh_externalRef = None\<rparr>"

definition fuel_company :: company where
  "fuel_company = \<lparr>c_id = 1, c_name = ''Fuel'', c_type = FUEL, c_parentFuelCompanyId = None,
     c_servedRegions = [], c_coveredRegions = [], c_commercialRegisterFileId = None, c_commissionCeiling = None, c_status = ACTIVE,
     c_fuelPrices = [\<lparr>fp_fuelType = DIESEL, fp_basePricePerLiter = 2, fp_previousPricePerLiter = None,
       fp_priceChangedAt = None\<rparr>],
     c_pricingConfig = Some \<lparr>pc_deliveryFee = 0, pc_serviceFeePercent = 5, pc_taxRatePercent = 15,
       pc_tankerCapacitiesLiters = [], pc_updatedAt = 0\<rparr>,
     c_deliveryRates = [], c_contactEmail = '''', c_contactPhone = ''''\<rparr>"

definition transport_company :: company where
  "transport_company = fuel_company\<lparr>c_id := 2, c_type := TRANSPORT, c_parentFuelCompanyId := Some 1,
     c_servedRegions := [''RIYADH''], c_fuelPrices := [], c_pricingConfig := None,
     c_deliveryRates := [\<lparr>dr_regionCode = ''RIYADH'', dr_governorateCode = None, dr_pricePerKm = 3,
       dr_minPrice = 50, dr_updatedAt = 0\<rparr>]\<rparr>"

definition default_login_config :: login_config where
  "default_login_config = \<lparr>lc_maxAdminSessions = 3, lc_expiryMinutes = 5, lc_maxAttempts = 5, lc_windowMinutes = 15,
     lc_maxRequests = 3, lc_challengeAfter = 2, lc_failThreshold = 10, lc_blockMinutes = 60,
     lc_revealUnknownPhone = False, lc_powDifficultyBits = 18, lc_powSeedTtlSeconds = 300, lc_resetExpiryMinutes = 5,
     lc_resetMaxAttempts = 5, lc_resetWindowMinutes = 15, lc_resetMaxRequests = 3\<rparr>"

definition default_presence_config :: presence_config where
  "default_presence_config = \<lparr>pcf_displacementThresholdMeters = 50, pcf_heartbeatMinutes = 3, pcf_movementMeters = 50,
     pcf_offlineThresholdMinutes = 6, pcf_leaseTtlMs = 55000, pcf_leaseEnabled = True\<rparr>"

definition default_config :: config where
  "default_config = \<lparr>cfg_paymentDeadlineMinutes = 30, cfg_quoteExpiryMinutes = 10,
     cfg_otpExpiryMinutes = 30, cfg_ackWindowMinutes = 3, cfg_stopWindowMinutes = 10,
     cfg_stopResponseWindowMinutes = 5, cfg_geofenceRadiusMeters = 500,
     cfg_defaultCommissionCeiling = 10000, cfg_login = default_login_config, cfg_presence = default_presence_config\<rparr>"

definition empty_world :: world where
  "empty_world = \<lparr>w_orders = [], w_users = [], w_stations = [], w_trucks = [], w_tanks = [],
     w_warehouses = [], w_companies = [], w_invoices = [], w_movements = [], w_terms = [],
     w_programmes = [], w_balances = [], w_events = [], w_offers = [], w_proposals = [],
     w_ratings = [], w_limit_requests = [], w_session_events = [], w_login_codes = [], w_resets = [], w_phone_codes = [],
     w_announcements = [], w_deliveries = [], w_support = [], w_files = [],
     w_notifications = [], w_emits = [], w_jobs = [], w_cache = (\<lambda>_. None), w_redis = (\<lambda>_. None),
     w_redis_up = True, w_rooms = [], w_blobs = (\<lambda>_. None), w_next_id = 100,
     w_now = 1000, w_scope = anonymous, w_config = default_config\<rparr>"

lemmas sample_defs = blank_order_def blank_user_def blank_driver_def blank_truck_def blank_tank_def depot_def
  fuel_company_def transport_company_def default_config_def default_login_config_def
  default_presence_config_def empty_world_def

end
