(* ===== verification/Order_State.thy ===== *)
theory Order_State
  imports Tenancy Samples
begin

text \<open>
  The order state machine: \<open>modules/orders/services/order-state.service.ts\<close>, with the two
  constants derived from the states, \<open>common/constants/order-status-buckets.ts\<close> and
  \<open>common/constants/force-completable-statuses.ts\<close>.

  \<open>transition\<close> is the only operation that changes an order's status.  It is shown to succeed
  exactly on the edges of the table, to append exactly one history entry and nothing else, and
  to keep the invariant \<open>order_ok\<close>: an order's history is an unbroken path of legal edges from
  \<open>PENDING_APPROVAL\<close> to its current status.  Properties of whole lives of orders (what a
  delivered order must have passed through) are then properties of paths.
\<close>

section \<open>The transition table\<close>

text \<open>A rule is the target state and \<open>requiresManualOverride\<close>.\<close>

fun TRANSITIONS :: "order_status \<Rightarrow> (order_status \<times> bool) list" where
  "TRANSITIONS PENDING_APPROVAL = [(APPROVED, False), (REJECTED, False), (CANCELLED, False)]"
| "TRANSITIONS APPROVED =
     [(PENDING_PAYMENT, False), (AWAITING_ROUTING, False), (ROUTED_TO_TRANSPORT, False), (CANCELLED, False)]"
| "TRANSITIONS AWAITING_ROUTING = [(ROUTED_TO_TRANSPORT, False), (CANCELLED, False)]"
| "TRANSITIONS ROUTED_TO_TRANSPORT =
     [(ASSIGNED_TO_DRIVER, False), (PENDING_PAYMENT, False), (CANCELLED, False)]"
| "TRANSITIONS ASSIGNED_TO_DRIVER = [(LOADING, False), (CANCELLED, False)]"
| "TRANSITIONS PENDING_PAYMENT = [(ROUTED_TO_TRANSPORT, False), (APPROVED, False), (CANCELLED, False)]"
| "TRANSITIONS LOADING = [(IN_TRANSIT, False), (CANCELLED, False), (DELIVERED, True)]"
| "TRANSITIONS IN_TRANSIT = [(UNLOADING, False), (DELIVERED, True)]"
| "TRANSITIONS UNLOADING = [(DELIVERED, False)]"
| "TRANSITIONS DELIVERED = []"
| "TRANSITIONS REJECTED = []"
| "TRANSITIONS CANCELLED = []"

record transition_actor =
  ta_actorId :: oid
  ta_actorRole :: user_role

definition SYSTEM_ACTOR :: transition_actor where
  "SYSTEM_ACTOR = \<lparr>ta_actorId = 0, ta_actorRole = SUPER_ADMIN\<rparr>"

text \<open>\<open>extraSet\<close> and \<open>extraUnset\<close> together are the function \<open>tr_extra\<close> on the document.\<close>

record transition_options =
  tr_manualOverride :: bool
  tr_overrideReason :: "string option"
  tr_extra :: "order \<Rightarrow> order"

definition no_options :: transition_options where
  "no_options = \<lparr>tr_manualOverride = False, tr_overrideReason = None, tr_extra = id\<rparr>"

definition history_entry ::
  "order_status \<Rightarrow> order_status \<Rightarrow> transition_actor \<Rightarrow> transition_options \<Rightarrow> instant \<Rightarrow> status_history_entry" where
  "history_entry src to actor opts now =
     \<lparr>sh_from = src, sh_to = to, sh_actorId = ta_actorId actor, sh_actorRole = ta_actorRole actor,
      sh_at = now, sh_manualOverride = tr_manualOverride opts,
      sh_overrideReason = (if tr_manualOverride opts then tr_overrideReason opts else None)\<rparr>"

definition apply_transition :: "transition_options \<Rightarrow> status_history_entry \<Rightarrow> order \<Rightarrow> order" where
  "apply_transition opts entry d =
     (let d1 = d\<lparr>o_status := sh_to entry\<rparr>;
          d2 = (if sh_to entry = DELIVERED then d1\<lparr>o_deliveredAt := Some (sh_at entry)\<rparr> else d1);
          d3 = tr_extra opts d2
      in d3\<lparr>o_statusHistory := o_statusHistory d3 @ [entry]\<rparr>)"

definition find_order :: "oid \<Rightarrow> order option service" where
  "find_order = find_one w_orders o_id order_scoping"

definition update_order :: "oid \<Rightarrow> (order \<Rightarrow> bool) \<Rightarrow> (order \<Rightarrow> order) \<Rightarrow> order option service" where
  "update_order = find_and_update w_orders w_orders_update o_id order_scoping"

definition emit_status :: "order \<Rightarrow> oid \<Rightarrow> order_status \<Rightarrow> order_status \<Rightarrow> instant \<Rightarrow> unit service" where
  "emit_status updated orderId src to now =
     bnd (emit (OrderStatusEvent (OrderRoom orderId) orderId src to now)) (\<lambda>_.
     bnd (case o_driverId updated of
            None \<Rightarrow> ret ()
          | Some u \<Rightarrow> emit (OrderStatusEvent (UserRoom u) orderId src to now)) (\<lambda>_.
     emit (OrderStatusEvent (UserRoom (o_clientId updated)) orderId src to now)))"

definition transition ::
  "oid \<Rightarrow> order_status \<Rightarrow> order_status \<Rightarrow> transition_actor \<Rightarrow> transition_options \<Rightarrow> order service" where
  "transition orderId src to actor opts =
     (case find (\<lambda>r. fst r = to) (TRANSITIONS src) of
        None \<Rightarrow> throw (Conflict None)
      | Some rule \<Rightarrow>
          bnd (guard (\<not> (snd rule \<and> \<not> tr_manualOverride opts)) (Conflict None)) (\<lambda>_.
          bnd (asks w_now) (\<lambda>now.
          bnd (update_order orderId (\<lambda>d. o_status d = src)
                 (apply_transition opts (history_entry src to actor opts now))) (\<lambda>updated.
          case updated of
            Some d \<Rightarrow> bnd (emit_status d orderId src to now) (\<lambda>_. ret d)
          | None \<Rightarrow> bnd (find_order orderId) (\<lambda>existing.
              case existing of None \<Rightarrow> throw NotFound | Some _ \<Rightarrow> throw (Conflict None))))))"

section \<open>Buckets and force-completable states\<close>

datatype order_status_bucket =
    BUCKET_NEW | BUCKET_IN_PROGRESS | BUCKET_COMPLETED | BUCKET_REJECTED | BUCKET_CANCELLED
  | BUCKET_NEEDS_ATTENTION

definition all_buckets :: "order_status_bucket list" where
  "all_buckets = [BUCKET_NEW, BUCKET_IN_PROGRESS, BUCKET_COMPLETED, BUCKET_REJECTED,
     BUCKET_CANCELLED, BUCKET_NEEDS_ATTENTION]"

fun ORDER_STATUS_BUCKETS :: "order_status_bucket \<Rightarrow> order_status list" where
  "ORDER_STATUS_BUCKETS BUCKET_NEW = [PENDING_APPROVAL, APPROVED, ROUTED_TO_TRANSPORT, PENDING_PAYMENT]"
| "ORDER_STATUS_BUCKETS BUCKET_IN_PROGRESS = [ASSIGNED_TO_DRIVER, LOADING, IN_TRANSIT, UNLOADING]"
| "ORDER_STATUS_BUCKETS BUCKET_COMPLETED = [DELIVERED]"
| "ORDER_STATUS_BUCKETS BUCKET_REJECTED = [REJECTED]"
| "ORDER_STATUS_BUCKETS BUCKET_CANCELLED = [CANCELLED]"
| "ORDER_STATUS_BUCKETS BUCKET_NEEDS_ATTENTION = [AWAITING_ROUTING]"

definition bucketForStatus :: "order_status \<Rightarrow> order_status_bucket option" where
  "bucketForStatus status = find (\<lambda>b. status \<in> set (ORDER_STATUS_BUCKETS b)) all_buckets"

definition statusesForBucket :: "order_status_bucket \<Rightarrow> order_status list" where
  "statusesForBucket bucket = ORDER_STATUS_BUCKETS bucket"

definition FORCE_COMPLETABLE_STATUSES :: "order_status list" where
  "FORCE_COMPLETABLE_STATUSES = [LOADING, IN_TRANSIT, UNLOADING]"

definition isForceCompletable :: "order_status \<Rightarrow> bool" where
  "isForceCompletable status \<longleftrightarrow> status \<in> set FORCE_COMPLETABLE_STATUSES"

section \<open>Paths of the state machine\<close>

text \<open>One legal edge, as an audited history entry records it.\<close>

definition legal_edge :: "order_status \<Rightarrow> order_status \<Rightarrow> bool \<Rightarrow> bool" where
  "legal_edge src to override \<longleftrightarrow> (\<exists>req. (to, req) \<in> set (TRANSITIONS src) \<and> (req \<longrightarrow> override))"

inductive lifecycle :: "order_status \<Rightarrow> status_history_entry list \<Rightarrow> order_status \<Rightarrow> bool" where
  start: "lifecycle st [] st"
| advance: "lifecycle st h mid \<Longrightarrow> sh_from e = mid \<Longrightarrow> sh_to e = st' \<Longrightarrow>
    legal_edge mid st' (sh_manualOverride e) \<Longrightarrow> lifecycle st (h @ [e]) st'"

inductive_cases lifecycle_snocE: "lifecycle st (h @ [e]) st'"
inductive_cases lifecycle_NilE: "lifecycle st [] st'"

definition order_ok :: "order \<Rightarrow> bool" where
  "order_ok d \<longleftrightarrow> lifecycle PENDING_APPROVAL (o_statusHistory d) (o_status d) \<and>
     (o_deliveredAt d \<noteq> None \<longleftrightarrow> o_status d = DELIVERED)"

definition orders_ok :: "world \<Rightarrow> bool" where
  "orders_ok s \<longleftrightarrow> distinct (map o_id (w_orders s)) \<and>
     (\<forall>d \<in> set (w_orders s). order_ok d \<and> o_id d < w_next_id s)"

text \<open>An order patch leaves alone everything the state machine owns, and the parties.\<close>

definition order_patch :: "(order \<Rightarrow> order) \<Rightarrow> bool" where
  "order_patch f \<longleftrightarrow> (\<forall>d. o_id (f d) = o_id d \<and> o_status (f d) = o_status d \<and>
     o_statusHistory (f d) = o_statusHistory d \<and> o_deliveredAt (f d) = o_deliveredAt d \<and>
     o_fuelCompanyId (f d) = o_fuelCompanyId d \<and> o_clientId (f d) = o_clientId d)"

lemma order_patch_id [simp]: "order_patch id" "order_patch (\<lambda>d. d)"
  by (simp_all add: order_patch_def)

lemma find_rule:
  "find (\<lambda>r. fst r = to) (TRANSITIONS src) = Some rule \<Longrightarrow>
     rule = (to, snd rule) \<and> (to, snd rule) \<in> set (TRANSITIONS src)"
  by (auto simp: find_Some_iff in_set_conv_nth)

lemma find_rule_None:
  "find (\<lambda>r. fst r = to) (TRANSITIONS src) = None \<longleftrightarrow> (\<forall>req. (to, req) \<notin> set (TRANSITIONS src))"
  by (force simp: find_None_iff)

lemma rule_unique:
  "(to, r1) \<in> set (TRANSITIONS src) \<Longrightarrow> (to, r2) \<in> set (TRANSITIONS src) \<Longrightarrow> r1 = r2"
  by (cases src) auto

lemma apply_transition_fields:
  assumes "order_patch (tr_extra opts)"
  shows "o_id (apply_transition opts e d) = o_id d"
    "o_status (apply_transition opts e d) = sh_to e"
    "o_statusHistory (apply_transition opts e d) = o_statusHistory d @ [e]"
    "o_deliveredAt (apply_transition opts e d) =
       (if sh_to e = DELIVERED then Some (sh_at e) else o_deliveredAt d)"
    "o_fuelCompanyId (apply_transition opts e d) = o_fuelCompanyId d"
    "o_clientId (apply_transition opts e d) = o_clientId d"
  using assms by (auto simp: apply_transition_def order_patch_def Let_def)

lemma emit_status_inv:
  "emit_status u i a b t s = (r, s') \<Longrightarrow> \<exists>es. r = Inr () \<and> s' = s\<lparr>w_emits := w_emits s @ es\<rparr>"
  by (auto simp: emit_status_def bnd_def emit_def modify_def ret_def split: option.splits)

lemma transition_okD:
  assumes "transition i src to actor opts s = (Inr d', s')"
  obtains v d es where "order_scoping (w_scope s) = Inr v"
    and "get_by o_id i (w_orders s) = Some d" and "v d" and "o_status d = src"
    and "legal_edge src to (tr_manualOverride opts)"
    and "d' = apply_transition opts (history_entry src to actor opts (w_now s)) d"
    and "s' = (w_orders_update (upd_by o_id i
           (apply_transition opts (history_entry src to actor opts (w_now s)))) s)
         \<lparr>w_emits := w_emits s @ es\<rparr>"
proof -
  from assms obtain rule where rule: "find (\<lambda>r. fst r = to) (TRANSITIONS src) = Some rule"
    by (auto simp: transition_def prog_inv split: option.splits)
  then have edge: "(to, snd rule) \<in> set (TRANSITIONS src)" by (blast dest: find_rule)
  from assms rule have ovr: "snd rule \<longrightarrow> tr_manualOverride opts"
    by (auto simp: transition_def prog_inv)
  with edge have "legal_edge src to (tr_manualOverride opts)" by (auto simp: legal_edge_def)
  with assms rule show thesis
    by (auto simp: transition_def prog_inv update_order_def dest!: emit_status_inv intro: that)
qed

lemma transition_errD:
  assumes "transition i src to actor opts s = (Inl e, s')"
  shows "s' = s"
  using assms
  by (auto simp: transition_def prog_inv update_order_def find_order_def
      dest!: emit_status_inv)

lemma transition_ok_run:
  assumes "order_scoping (w_scope s) = Inr v" "get_by o_id i (w_orders s) = Some d" "v d"
    "o_status d = src" "legal_edge src to (tr_manualOverride opts)"
  shows "\<exists>d' s'. transition i src to actor opts s = (Inr d', s')"
proof -
  from assms(5) obtain req where req: "(to, req) \<in> set (TRANSITIONS src)" "req \<longrightarrow> tr_manualOverride opts"
    by (auto simp: legal_edge_def)
  then obtain rule where rule: "find (\<lambda>r. fst r = to) (TRANSITIONS src) = Some rule"
    using find_rule_None by fastforce
  with req have "snd rule = req" using find_rule rule_unique by metis
  with req have "guard (\<not> (snd rule \<and> \<not> tr_manualOverride opts)) (Conflict None) s = (Inr (), s)"
    by (auto simp: guard_def)
  with rule assms(1-4) show ?thesis
    by (simp add: transition_def update_order_def emit_status_def bnd_def asks_def find_and_update_def
        cas_def emit_def modify_def ret_def split: option.split)
qed

text \<open>The acting scope sees order \<open>i\<close>, and it is \<open>d\<close>.\<close>

definition sees_order :: "world \<Rightarrow> oid \<Rightarrow> order \<Rightarrow> bool" where
  "sees_order s i d \<longleftrightarrow> (\<exists>v. order_scoping (w_scope s) = Inr v \<and> get_by o_id i (w_orders s) = Some d \<and> v d)"

definition same_parties :: "(order \<Rightarrow> order) \<Rightarrow> bool" where
  "same_parties f \<longleftrightarrow> (\<forall>d. o_id (f d) = o_id d \<and> o_fuelCompanyId (f d) = o_fuelCompanyId d \<and>
     o_transportCompanyId (f d) = o_transportCompanyId d \<and> o_clientId (f d) = o_clientId d \<and>
     o_driverId (f d) = o_driverId d)"

lemma find_order_run: "sees_order s i d \<Longrightarrow> find_order i s = (Inr (Some d), s)"
  by (auto simp: sees_order_def find_order_def prog_inv)

lemma find_order_inv [prog_inv]:
  "find_order i s = (Inr (Some d), s') \<longleftrightarrow> s' = s \<and> sees_order s i d"
  by (auto simp: sees_order_def find_order_def prog_inv)

lemma update_order_run:
  "sees_order s i d \<Longrightarrow> P d \<Longrightarrow>
     update_order i P f s = (Inr (Some (f d)), w_orders_update (upd_by o_id i f) s)"
  by (auto simp: sees_order_def update_order_def prog_inv)

lemma update_order_inv [prog_inv]:
  "update_order i P f s = (Inr (Some d'), s') \<longleftrightarrow>
     (\<exists>d. sees_order s i d \<and> P d \<and> d' = f d \<and> s' = w_orders_update (upd_by o_id i f) s)"
  by (auto simp: sees_order_def update_order_def prog_inv)

lemma order_matches_parties: "same_parties f \<Longrightarrow> order_matches p (f d) = order_matches p d"
  by (cases p) (auto simp: same_parties_def)

lemma order_scoping_parties:
  "order_scoping ctx = Inr v \<Longrightarrow> same_parties f \<Longrightarrow> v (f d) = v d"
  by (auto simp: multi_party_def order_matches_parties split: sum.splits option.splits)

lemma sees_order_update:
  assumes "sees_order s i d" "same_parties f" "w_scope s' = w_scope s"
    "w_orders s' = upd_by o_id i f (w_orders s)"
  shows "sees_order s' i (f d)"
proof -
  from assms(1) obtain v where v: "order_scoping (w_scope s) = Inr v" "get_by o_id i (w_orders s) = Some d" "v d"
    by (auto simp: sees_order_def)
  with order_scoping_parties [OF v(1) assms(2)] assms(2-4) show ?thesis
    by (simp add: sees_order_def get_by_upd_by same_parties_def)
qed

lemma sees_order_frame:
  "w_scope s' = w_scope s \<Longrightarrow> w_orders s' = w_orders s \<Longrightarrow> sees_order s' i d = sees_order s i d"
  by (simp add: sees_order_def)

lemma sees_order_unique: "sees_order s i d \<Longrightarrow> sees_order s i d' \<Longrightarrow> d' = d"
  by (auto simp: sees_order_def)

lemma order_ok_patch: "order_patch f \<Longrightarrow> order_ok d \<Longrightarrow> order_ok (f d)"
  by (simp add: order_ok_def order_patch_def)

lemma lifecycle_terminal:
  "legal_edge st st' b \<Longrightarrow> st \<noteq> DELIVERED \<and> st \<noteq> REJECTED \<and> st \<noteq> CANCELLED"
  by (auto simp: legal_edge_def)

lemma order_ok_transition:
  assumes "order_ok d" "order_patch (tr_extra opts)" "legal_edge (o_status d) to (tr_manualOverride opts)"
    "e = history_entry (o_status d) to actor opts now"
  shows "order_ok (apply_transition opts e d)"
proof -
  have e: "sh_from e = o_status d" "sh_to e = to" "sh_manualOverride e = tr_manualOverride opts"
    using assms(4) by (simp_all add: history_entry_def)
  with assms(1,3) have "lifecycle PENDING_APPROVAL (o_statusHistory d @ [e]) to"
    by (auto simp: order_ok_def intro: lifecycle.advance)
  moreover have "o_status d \<noteq> DELIVERED" using assms(3) lifecycle_terminal by blast
  ultimately show ?thesis
    using assms(1) e by (auto simp: order_ok_def apply_transition_fields [OF assms(2)])
qed

lemma orders_ok_lookup:
  "orders_ok s \<Longrightarrow> d \<in> set (w_orders s) \<Longrightarrow> get_by o_id (o_id d) (w_orders s) = Some d"
  by (simp add: orders_ok_def get_by_distinct)

lemma orders_ok_upd_by:
  assumes "orders_ok s" "get_by o_id i (w_orders s) = Some d" "order_ok (f d)" "\<And>x. o_id (f x) = o_id x"
    "w_orders s' = upd_by o_id i f (w_orders s)" "w_next_id s \<le> w_next_id s'"
  shows "orders_ok s'"
proof -
  have "order_ok x \<and> o_id x < w_next_id s'" if x: "x \<in> set (upd_by o_id i f (w_orders s))" for x
  proof -
    from set_upd_by [OF x] consider "x \<in> set (w_orders s)"
      | d0 where "d0 \<in> set (w_orders s)" "o_id d0 = i" "x = f d0" by blast
    then show ?thesis
    proof cases
      case 1
      with assms(1,6) show ?thesis by (auto simp: orders_ok_def)
    next
      case 2
      with orders_ok_lookup [OF assms(1)] assms(2) have "d0 = d" by auto
      with 2 assms(1,3,4,6) show ?thesis by (auto simp: orders_ok_def)
    qed
  qed
  with assms(1,4,5) show ?thesis by (simp add: orders_ok_def)
qed

lemma keeps_update_patch:
  assumes "order_patch f"
  shows "keeps orders_ok (update_order i P f)"
proof (rule keepsI)
  fix s and r :: "exn + order option" and s' assume ok: "orders_ok s" and run: "update_order i P f s = (r, s')"
  consider "s' = s" | d where "get_by o_id i (w_orders s) = Some d" "s' = w_orders_update (upd_by o_id i f) s"
  proof (cases r)
    case (Inl e)
    with run that(1) show thesis by (simp add: update_order_def prog_inv)
  next
    case (Inr x)
    with run that show thesis by (cases x) (auto simp: update_order_def find_and_update_inv)
  qed
  then show "orders_ok s'"
  proof cases
    case (2 d)
    with ok have "order_ok d" by (auto simp: orders_ok_def dest: get_by_mem)
    with assms have "order_ok (f d)" by (rule order_ok_patch)
    from ok 2(1) this show ?thesis
      by (rule orders_ok_upd_by) (use assms 2(2) in \<open>simp_all add: order_patch_def\<close>)
  qed (use ok in simp)
qed

lemma orders_ok_frame:
  "orders_ok s \<Longrightarrow> w_orders s' = w_orders s \<Longrightarrow> w_next_id s \<le> w_next_id s' \<Longrightarrow> orders_ok s'"
  by (auto simp: orders_ok_def)

lemma keeps_find_order [intro, simp]: "keeps P (find_order i)"
  by (simp add: find_order_def)

lemma orders_ok_fields [simp]:
  "orders_ok (s\<lparr>w_cache := c\<rparr>) = orders_ok s" "orders_ok (s\<lparr>w_emits := es\<rparr>) = orders_ok s"
  "orders_ok (s\<lparr>w_jobs := js\<rparr>) = orders_ok s" "orders_ok (s\<lparr>w_scope := ctx\<rparr>) = orders_ok s"
  "orders_ok (w_users_update g s) = orders_ok s" "orders_ok (w_trucks_update g1 s) = orders_ok s"
  "orders_ok (w_tanks_update g2 s) = orders_ok s" "orders_ok (w_invoices_update g3 s) = orders_ok s"
  "orders_ok (w_balances_update g4 s) = orders_ok s" "orders_ok (w_movements_update g5 s) = orders_ok s"
  "orders_ok (w_events_update g6 s) = orders_ok s" "orders_ok (w_notifications_update g7 s) = orders_ok s"
  by (simp_all add: orders_ok_def)

lemma orders_ok_next [simp]: "orders_ok s \<Longrightarrow> orders_ok (s\<lparr>w_next_id := Suc (w_next_id s)\<rparr>)"
  by (auto simp: orders_ok_def)

lemma transition_orders_ok:
  assumes "order_patch (tr_extra opts)"
  shows "keeps orders_ok (transition i src to actor opts)"
proof (rule keepsI)
  fix s r s' assume ok: "orders_ok s" and run: "transition i src to actor opts s = (r, s')"
  show "orders_ok s'"
  proof (cases r)
    case (Inl e)
    with run ok show ?thesis by (auto dest: transition_errD)
  next
    case (Inr d')
    let ?f = "apply_transition opts (history_entry src to actor opts (w_now s))"
    from run [unfolded Inr] obtain d es where d: "get_by o_id i (w_orders s) = Some d" "o_status d = src"
        "legal_edge src to (tr_manualOverride opts)"
      and s': "s' = (w_orders_update (upd_by o_id i ?f) s)\<lparr>w_emits := w_emits s @ es\<rparr>"
      by (rule transition_okD)
    have "order_ok d" using ok d(1) by (auto simp: orders_ok_def dest: get_by_mem)
    with d assms have okf: "order_ok (?f d)" by (intro order_ok_transition) simp_all
    show ?thesis
      by (rule orders_ok_upd_by [where f = ?f, OF ok d(1) okf]) (simp_all add: s' apply_transition_fields [OF assms])
  qed
qed

section \<open>Properties\<close>

text \<open>A transition succeeds exactly when the order exists, is visible to the acting scope,
  is in the expected state, and the table has the edge, with the audited override where the edge
  demands one.\<close>

theorem transition_succeeds_iff:
  "(\<exists>d' s'. transition i src to actor opts s = (Inr d', s')) \<longleftrightarrow>
     (\<exists>v d. order_scoping (w_scope s) = Inr v \<and> get_by o_id i (w_orders s) = Some d \<and> v d \<and>
        o_status d = src \<and> legal_edge src to (tr_manualOverride opts))"
  by (auto elim!: transition_okD intro: transition_ok_run)

text \<open>A successful transition moves exactly one order, to the target state, appends exactly
  one history entry that names the edge, the actor and the moment, stamps \<open>deliveredAt\<close> exactly
  on delivery, and touches no other order and no other collection.\<close>

theorem transition_effect:
  assumes "transition i src to actor opts s = (Inr d', s')" and "order_patch (tr_extra opts)"
  shows "\<exists>d. get_by o_id i (w_orders s) = Some d \<and> get_by o_id i (w_orders s') = Some d' \<and>
     o_status d' = to \<and>
     o_statusHistory d' = o_statusHistory d @ [history_entry src to actor opts (w_now s)] \<and>
     o_deliveredAt d' = (if to = DELIVERED then Some (w_now s) else o_deliveredAt d) \<and>
     (\<forall>j. j \<noteq> i \<longrightarrow> get_by o_id j (w_orders s') = get_by o_id j (w_orders s)) \<and>
     w_users s' = w_users s \<and> w_invoices s' = w_invoices s \<and> w_jobs s' = w_jobs s"
  using assms(1)
proof (rule transition_okD)
  fix v d es
  let ?f = "apply_transition opts (history_entry src to actor opts (w_now s))"
  assume d: "get_by o_id i (w_orders s) = Some d" "d' = ?f d"
    and s': "s' = (w_orders_update (upd_by o_id i ?f) s)\<lparr>w_emits := w_emits s @ es\<rparr>"
  then show ?thesis
    by (auto simp: get_by_upd_by apply_transition_fields [OF assms(2)] history_entry_def)
qed

text \<open>Every run of a transition, whether it succeeds or throws, keeps the invariant that each
  order's history is an unbroken path of legal edges from \<open>PENDING_APPROVAL\<close> to its status
  and that \<open>deliveredAt\<close> is set exactly on delivered orders; a run that throws changes
  nothing at all.\<close>

theorem transition_keeps_orders_ok:
  assumes "orders_ok s" and "order_patch (tr_extra opts)"
    and "transition i src to actor opts s = (r, s')"
  shows "orders_ok s' \<and> (\<forall>e. r = Inl e \<longrightarrow> s' = s)"
  using keepsD [OF transition_orders_ok [OF assms(2)] assms(3,1)] assms(3)
  by (auto dest: transition_errD)

text \<open>What a lifecycle has passed through.\<close>

definition visited :: "order_status \<Rightarrow> status_history_entry list \<Rightarrow> bool" where
  "visited st h \<longleftrightarrow> st \<in> sh_to ` set h"

lemma visited_snoc [simp]: "visited st (h @ [e]) \<longleftrightarrow> visited st h \<or> sh_to e = st"
  by (auto simp: visited_def)

text \<open>The states behind each state: on every path from \<open>PENDING_APPROVAL\<close>.\<close>

fun behind :: "order_status \<Rightarrow> order_status list" where
  "behind PENDING_APPROVAL = []"
| "behind APPROVED = []"
| "behind REJECTED = []"
| "behind CANCELLED = []"
| "behind AWAITING_ROUTING = [APPROVED]"
| "behind ROUTED_TO_TRANSPORT = [APPROVED]"
| "behind PENDING_PAYMENT = [APPROVED]"
| "behind ASSIGNED_TO_DRIVER = [APPROVED, ROUTED_TO_TRANSPORT]"
| "behind LOADING = [APPROVED, ROUTED_TO_TRANSPORT, ASSIGNED_TO_DRIVER]"
| "behind IN_TRANSIT = [APPROVED, ROUTED_TO_TRANSPORT, ASSIGNED_TO_DRIVER, LOADING]"
| "behind UNLOADING = [APPROVED, ROUTED_TO_TRANSPORT, ASSIGNED_TO_DRIVER, LOADING, IN_TRANSIT]"
| "behind DELIVERED = [APPROVED, ROUTED_TO_TRANSPORT, ASSIGNED_TO_DRIVER, LOADING]"

lemma behind_step:
  "legal_edge a b ov \<Longrightarrow> set (behind b) \<subseteq> insert a (set (behind a))"
  by (cases a) (auto simp: legal_edge_def)

lemma lifecycle_visits:
  "lifecycle st0 h st \<Longrightarrow> st0 = PENDING_APPROVAL \<Longrightarrow> p \<in> set (behind st) \<Longrightarrow> visited p h"
proof (induction arbitrary: p rule: lifecycle.induct)
  case (advance st h mid e st')
  from behind_step [OF advance.hyps(4)] advance.prems(2)
  have "p = mid \<or> p \<in> set (behind mid)" by blast
  moreover have "visited mid h \<or> mid = PENDING_APPROVAL"
    using advance.hyps(1) advance.prems(1) by (cases rule: lifecycle.cases) (auto simp: visited_def)
  moreover have "p \<noteq> PENDING_APPROVAL" using advance.prems(2) by (cases st') auto
  ultimately show ?case using advance.IH advance.prems(1) by auto
qed simp

lemma lifecycle_delivered_audited:
  assumes "lifecycle st0 h DELIVERED" "st0 \<noteq> DELIVERED"
  shows "sh_from (last h) = UNLOADING \<or> sh_manualOverride (last h)"
  using assms
proof (cases rule: lifecycle.cases)
  case (advance h' mid e)
  from advance(5) have "mid = UNLOADING \<or> sh_manualOverride e"
    by (cases mid) (auto simp: legal_edge_def)
  then show ?thesis using advance(1,3) by auto
qed simp

text \<open>A delivered order was approved, routed to a transporter, assigned to a driver and
  loaded, and its last step either came out of \<open>UNLOADING\<close> or is recorded as a manual override.\<close>

theorem delivered_went_through:
  assumes "order_ok d" and "o_status d = DELIVERED"
  shows "(\<forall>p \<in> {APPROVED, ROUTED_TO_TRANSPORT, ASSIGNED_TO_DRIVER, LOADING}. visited p (o_statusHistory d)) \<and>
     (sh_from (last (o_statusHistory d)) = UNLOADING \<or> sh_manualOverride (last (o_statusHistory d)))"
proof -
  from assms have path: "lifecycle PENDING_APPROVAL (o_statusHistory d) DELIVERED"
    by (simp add: order_ok_def)
  then show ?thesis
    using lifecycle_visits [OF path] lifecycle_delivered_audited [OF path] by auto
qed

text \<open>The three terminal states are final: no transition out of them ever succeeds, whatever
  the actor, target and override.\<close>

theorem terminal_states_final:
  assumes "get_by o_id i (w_orders s) = Some d" and "o_status d \<in> {DELIVERED, REJECTED, CANCELLED}"
  shows "\<exists>e. transition i src to actor opts s = (Inl e, s)"
proof (cases "transition i src to actor opts s")
  case (Pair r s')
  show ?thesis
  proof (cases r)
    case (Inl e)
    with Pair transition_errD show ?thesis by fastforce
  next
    case (Inr d')
    with Pair have "transition i src to actor opts s = (Inr d', s')" by simp
    then have "legal_edge (o_status d) to (tr_manualOverride opts)"
      by (rule transition_okD) (use assms(1) in auto)
    with assms(2) show ?thesis by (auto dest: lifecycle_terminal)
  qed
qed

text \<open>The six buckets partition the twelve states: the bucket of a state exists, is the only
  one that lists it, and force-completion is offered exactly where the table has an edge to
  \<open>DELIVERED\<close>.\<close>

theorem buckets_partition:
  "(\<exists>b. bucketForStatus st = Some b \<and> (\<forall>b'. st \<in> set (statusesForBucket b') \<longleftrightarrow> b' = b)) \<and>
   distinct (concat (map statusesForBucket all_buckets)) \<and>
   (isForceCompletable st \<longleftrightarrow> legal_edge st DELIVERED True)"
proof -
  have "\<exists>b. bucketForStatus st = Some b \<and> (\<forall>b'. st \<in> set (statusesForBucket b') \<longleftrightarrow> b' = b)"
  proof -
    obtain b where b: "bucketForStatus st = Some b" "st \<in> set (statusesForBucket b)"
      by (cases st) (simp_all add: bucketForStatus_def all_buckets_def statusesForBucket_def)
    have "st \<in> set (statusesForBucket b') \<longleftrightarrow> b' = b" for b'
      using b by (cases st; cases b; cases b') (simp_all add: statusesForBucket_def)
    with b show ?thesis by blast
  qed
  moreover have "isForceCompletable st \<longleftrightarrow> legal_edge st DELIVERED True"
    by (cases st) (auto simp: isForceCompletable_def FORCE_COMPLETABLE_STATUSES_def legal_edge_def)
  ultimately show ?thesis
    by (simp add: all_buckets_def statusesForBucket_def)
qed

section \<open>Concrete instances\<close>

definition one_order_world :: world where
  "one_order_world = empty_world\<lparr>w_orders := [blank_order]\<rparr>"

definition approve_options :: transition_options where
  "approve_options = no_options\<lparr>tr_extra := (\<lambda>d. d\<lparr>o_finalPrice := Some 90\<rparr>)\<rparr>"

lemma approve_options_patch: "order_patch (tr_extra approve_options)"
  by (simp add: order_patch_def approve_options_def no_options_def)

lemma one_order_run:
  obtains d' s' where "transition 10 PENDING_APPROVAL APPROVED SYSTEM_ACTOR approve_options one_order_world = (Inr d', s')"
  using transition_ok_run [of one_order_world "\<lambda>_. True" 10 blank_order PENDING_APPROVAL APPROVED approve_options SYSTEM_ACTOR]
  by (auto simp: one_order_world_def sample_defs legal_edge_def)

lemma one_order_world_ok: "orders_ok one_order_world"
  by (simp add: orders_ok_def one_order_world_def sample_defs order_ok_def lifecycle.start)

definition delivered_order :: order where
  "delivered_order = blank_order\<lparr>o_status := DELIVERED, o_deliveredAt := Some 9, o_statusHistory :=
     map (\<lambda>(a, b). history_entry a b SYSTEM_ACTOR no_options 9)
       [(PENDING_APPROVAL, APPROVED), (APPROVED, ROUTED_TO_TRANSPORT), (ROUTED_TO_TRANSPORT, ASSIGNED_TO_DRIVER),
        (ASSIGNED_TO_DRIVER, LOADING), (LOADING, IN_TRANSIT), (IN_TRANSIT, UNLOADING), (UNLOADING, DELIVERED)]\<rparr>"

lemma lifecycle_cons:
  "lifecycle b h c \<Longrightarrow> sh_from e = a \<Longrightarrow> sh_to e = b \<Longrightarrow> legal_edge a b (sh_manualOverride e) \<Longrightarrow>
     lifecycle a (e # h) c"
proof (induction rule: lifecycle.induct)
  case (start st)
  with lifecycle.advance [OF lifecycle.start] show ?case by fastforce
next
  case (advance st h mid e' st')
  then have "lifecycle a ((e # h) @ [e']) st'" by (intro lifecycle.advance) auto
  then show ?case by simp
qed

lemma delivered_order_ok: "order_ok delivered_order"
  by (auto simp: order_ok_def delivered_order_def blank_order_def history_entry_def no_options_def
      legal_edge_def intro!: lifecycle_cons lifecycle.start)

theorem transition_effect_witness:
  "\<exists>d' s'. transition 10 PENDING_APPROVAL APPROVED SYSTEM_ACTOR approve_options one_order_world = (Inr d', s') \<and>
     get_by o_id 10 (w_orders s') = Some d' \<and> o_status d' = APPROVED"
proof -
  obtain d' s' where run: "transition 10 PENDING_APPROVAL APPROVED SYSTEM_ACTOR approve_options one_order_world = (Inr d', s')"
    by (rule one_order_run)
  from transition_effect [OF run approve_options_patch] run show ?thesis by blast
qed

theorem transition_keeps_orders_ok_witness:
  "orders_ok (snd (transition 10 PENDING_APPROVAL APPROVED SYSTEM_ACTOR approve_options one_order_world))"
  using transition_keeps_orders_ok [OF one_order_world_ok approve_options_patch, of 10 PENDING_APPROVAL APPROVED SYSTEM_ACTOR]
  by (metis prod.collapse)

theorem delivered_went_through_witness: "visited LOADING (o_statusHistory delivered_order)"
  using delivered_went_through [OF delivered_order_ok] by (simp add: delivered_order_def)

theorem terminal_states_final_witness:
  "\<exists>e. transition 10 DELIVERED APPROVED SYSTEM_ACTOR no_options (empty_world\<lparr>w_orders := [delivered_order]\<rparr>)
     = (Inl e, empty_world\<lparr>w_orders := [delivered_order]\<rparr>)"
  by (rule terminal_states_final [of 10 _ delivered_order])
    (simp_all add: delivered_order_def blank_order_def)

end
