(* ===== verification/Fleet.thy ===== *)
theory Fleet
  imports Order_State
begin

text \<open>
  Booking drivers, trucks and tanks: the conditional \<open>findOneAndUpdate\<close> on \<open>activeOrderId\<close>
  that \<open>DispatchService.assignDriver\<close> and \<open>OrdersService.reassignVehicle\<close> book with, the
  release of \<open>OrdersService.releaseDriverIfAssigned\<close>, and the unique partial indexes on
  \<open>activeOrderId\<close> of \<open>user.schema.ts\<close>, \<open>truck.schema.ts\<close> and \<open>tank.schema.ts\<close>.

  The three resources share one contract, the locale \<open>bookable\<close>.  The consistency argument
  (a resource is booked exactly by the order in progress that names it) is proved once inside it
  and interpreted on drivers, trucks and tanks.
\<close>

section \<open>Booking and releasing one document\<close>

text \<open>The write that would give a second document the same \<open>activeOrderId\<close> violates the
  unique index and is not applied.\<close>

definition book_doc ::
  "(world \<Rightarrow> 'd list) \<Rightarrow> (('d list \<Rightarrow> 'd list) \<Rightarrow> world \<Rightarrow> world) \<Rightarrow> ('d \<Rightarrow> oid) \<Rightarrow> 'd scoping \<Rightarrow>
     ('d \<Rightarrow> oid option) \<Rightarrow> oid \<Rightarrow> ('d \<Rightarrow> bool) \<Rightarrow> (oid \<Rightarrow> 'd \<Rightarrow> 'd) \<Rightarrow> oid \<Rightarrow> 'd option service" where
  "book_doc coll put key vis active i free mark orderId s =
     (case find_and_update coll put key vis i free (mark orderId) s of
        (Inr (Some d), s') \<Rightarrow>
          if list_ex (\<lambda>x. key x \<noteq> i \<and> active x = Some orderId) (coll s) then (Inl DuplicateKey, s)
          else (Inr (Some d), s')
      | other \<Rightarrow> other)"

definition release_doc ::
  "(world \<Rightarrow> 'd list) \<Rightarrow> (('d list \<Rightarrow> 'd list) \<Rightarrow> world \<Rightarrow> world) \<Rightarrow> ('d \<Rightarrow> oid) \<Rightarrow> 'd scoping \<Rightarrow>
     ('d \<Rightarrow> oid option) \<Rightarrow> ('d \<Rightarrow> 'd) \<Rightarrow> oid \<Rightarrow> oid option \<Rightarrow> unit service" where
  "release_doc coll put key vis active unmark orderId ref = (case ref of
     None \<Rightarrow> ret ()
   | Some i \<Rightarrow> bnd (find_and_update coll put key vis i (\<lambda>d. active d = Some orderId) unmark) (\<lambda>_. ret ()))"

definition driver_free :: "user \<Rightarrow> bool" where
  "driver_free d \<longleftrightarrow> u_role d = DRIVER \<and> u_isActive d \<and> u_isAvailable d \<and> u_activeOrderId d = None"

definition mark_driver :: "oid \<Rightarrow> user \<Rightarrow> user" where
  "mark_driver orderId d = d\<lparr>u_isAvailable := False, u_activeOrderId := Some orderId\<rparr>"

definition unmark_driver :: "user \<Rightarrow> user" where
  "unmark_driver d = d\<lparr>u_isAvailable := True, u_activeOrderId := None\<rparr>"

definition truck_free :: "truck \<Rightarrow> bool" where
  "truck_free d \<longleftrightarrow> trk_isActive d \<and> trk_activeOrderId d = None"

definition mark_truck :: "oid \<Rightarrow> truck \<Rightarrow> truck" where
  "mark_truck orderId d = d\<lparr>trk_activeOrderId := Some orderId\<rparr>"

definition unmark_truck :: "truck \<Rightarrow> truck" where
  "unmark_truck d = d\<lparr>trk_activeOrderId := None\<rparr>"

definition tank_free :: "tank \<Rightarrow> bool" where
  "tank_free d \<longleftrightarrow> tnk_isActive d \<and> tnk_activeOrderId d = None"

definition mark_tank :: "oid \<Rightarrow> tank \<Rightarrow> tank" where
  "mark_tank orderId d = d\<lparr>tnk_activeOrderId := Some orderId\<rparr>"

definition unmark_tank :: "tank \<Rightarrow> tank" where
  "unmark_tank d = d\<lparr>tnk_activeOrderId := None\<rparr>"

definition book_driver :: "oid \<Rightarrow> oid \<Rightarrow> user option service" where
  "book_driver i orderId =
     book_doc w_users w_users_update u_id user_scoping u_activeOrderId i driver_free mark_driver orderId"

definition book_truck :: "oid \<Rightarrow> oid \<Rightarrow> truck option service" where
  "book_truck i orderId =
     book_doc w_trucks w_trucks_update trk_id truck_scoping trk_activeOrderId i truck_free mark_truck orderId"

definition book_tank :: "oid \<Rightarrow> oid \<Rightarrow> tank option service" where
  "book_tank i orderId =
     book_doc w_tanks w_tanks_update tnk_id tank_scoping tnk_activeOrderId i tank_free mark_tank orderId"

definition release_driver :: "oid \<Rightarrow> oid option \<Rightarrow> unit service" where
  "release_driver = release_doc w_users w_users_update u_id user_scoping u_activeOrderId unmark_driver"

definition release_truck :: "oid \<Rightarrow> oid option \<Rightarrow> unit service" where
  "release_truck = release_doc w_trucks w_trucks_update trk_id truck_scoping trk_activeOrderId unmark_truck"

definition release_tank :: "oid \<Rightarrow> oid option \<Rightarrow> unit service" where
  "release_tank = release_doc w_tanks w_tanks_update tnk_id tank_scoping tnk_activeOrderId unmark_tank"

definition releaseDriverIfAssigned :: "order \<Rightarrow> unit service" where
  "releaseDriverIfAssigned order =
     run_unscoped
       (bnd (release_driver (o_id order) (o_driverId order)) (\<lambda>_.
        bnd (release_truck (o_id order) (o_truckId order)) (\<lambda>_.
        release_tank (o_id order) (o_tankId order))))"

section \<open>Consistency of bookings and orders\<close>

fun in_progress :: "order_status \<Rightarrow> bool" where
  "in_progress ASSIGNED_TO_DRIVER = True"
| "in_progress LOADING = True"
| "in_progress IN_TRANSIT = True"
| "in_progress UNLOADING = True"
| "in_progress _ = False"

text \<open>\<open>ref\<close> is the field of the order that names the resource.\<close>

definition bookings_ok ::
  "('d \<Rightarrow> oid) \<Rightarrow> ('d \<Rightarrow> oid option) \<Rightarrow> (order \<Rightarrow> oid option) \<Rightarrow> 'd list \<Rightarrow> order list \<Rightarrow> bool" where
  "bookings_ok key active ref ds orders \<longleftrightarrow> distinct (map key ds) \<and>
     (\<forall>x \<in> set ds. \<forall>i. active x = Some i \<longrightarrow>
        (\<exists>d. get_by o_id i orders = Some d \<and> in_progress (o_status d) \<and> ref d = Some (key x))) \<and>
     (\<forall>i d. get_by o_id i orders = Some d \<longrightarrow> in_progress (o_status d) \<longrightarrow>
        (\<exists>k x. ref d = Some k \<and> get_by key k ds = Some x \<and> active x = Some i))"

definition fleet_ok :: "world \<Rightarrow> bool" where
  "fleet_ok s \<longleftrightarrow> bookings_ok u_id u_activeOrderId o_driverId (w_users s) (w_orders s) \<and>
     bookings_ok trk_id trk_activeOrderId o_truckId (w_trucks s) (w_orders s) \<and>
     bookings_ok tnk_id tnk_activeOrderId o_tankId (w_tanks s) (w_orders s)"

definition release_if :: "('d \<Rightarrow> oid option) \<Rightarrow> ('d \<Rightarrow> 'd) \<Rightarrow> oid \<Rightarrow> 'd \<Rightarrow> 'd" where
  "release_if active unmark orderId d = (if active d = Some orderId then unmark d else d)"

lemma upd_by_cong_get:
  assumes "distinct (map key ds)" "\<And>d. get_by key i ds = Some d \<Longrightarrow> f d = g d"
  shows "upd_by key i f ds = upd_by key i g ds"
  using assms get_by_distinct [OF assms(1)] by (auto simp: upd_by_def)

lemma upd_by_same:
  assumes "distinct (map key ds)" "\<And>d. get_by key i ds = Some d \<Longrightarrow> f d = d"
  shows "upd_by key i f ds = ds"
  using assms get_by_distinct [OF assms(1)] by (auto simp: upd_by_def intro!: map_idI)

locale bookable = collection coll put key
  for coll :: "world \<Rightarrow> 'd list"
    and put :: "('d list \<Rightarrow> 'd list) \<Rightarrow> world \<Rightarrow> world"
    and key :: "'d \<Rightarrow> oid" +
  fixes active :: "'d \<Rightarrow> oid option"
    and free :: "'d \<Rightarrow> bool"
    and mark :: "oid \<Rightarrow> 'd \<Rightarrow> 'd"
    and unmark :: "'d \<Rightarrow> 'd"
  assumes key_mark: "key (mark orderId d) = key d"
    and key_unmark: "key (unmark d) = key d"
    and active_mark: "active (mark orderId d) = Some orderId"
    and active_unmark: "active (unmark d) = None"
    and free_active: "free d \<Longrightarrow> active d = None"
    and put_const: "put g s = put (\<lambda>_. g (coll s)) s"
    and put_same: "put (\<lambda>_. coll s) s = s"
begin

lemma book_okD:
  assumes "book_doc coll put key vis active i free mark orderId s = (Inr (Some d'), s')"
  obtains v d where "vis (w_scope s) = Inr v" "get_by key i (coll s) = Some d" "v d" "free d"
    "d' = mark orderId d" "s' = put (upd_by key i (mark orderId)) s"
    "\<forall>x \<in> set (coll s). key x \<noteq> i \<longrightarrow> active x \<noteq> Some orderId"
  using assms that
  by (auto simp: book_doc_def prog_inv list_ex_iff split: prod.splits sum.splits option.splits if_splits)

lemma book_missD: "book_doc coll put key vis active i free mark orderId s = (Inr None, s') \<Longrightarrow> s' = s"
  by (auto simp: book_doc_def prog_inv split: prod.splits sum.splits option.splits if_splits)

lemma book_errD: "book_doc coll put key vis active i free mark orderId s = (Inl e, s') \<Longrightarrow> s' = s"
  by (auto simp: book_doc_def prog_inv split: prod.splits sum.splits option.splits if_splits)

text \<open>Two orders cannot book the same resource: the second finds nothing.\<close>

lemma book_exclusive:
  assumes "book_doc coll put key vis active i free mark orderId s = (Inr (Some d'), s')"
  shows "book_doc coll put key vis active i free mark other s' = (Inr None, s')"
  using assms
proof (rule book_okD)
  fix v d assume "vis (w_scope s) = Inr v" "get_by key i (coll s) = Some d" "s' = put (upd_by key i (mark orderId)) s"
  then have "vis (w_scope s') = Inr v" "get_by key i (coll s') = Some (mark orderId d)"
    by (simp_all add: scope_put coll_put get_by_upd_by key_mark)
  moreover have "\<not> free (mark orderId d)" using free_active active_mark by force
  ultimately show ?thesis by (simp add: book_doc_def find_and_update_def cas_def)
qed

text \<open>The collection after releasing what \<open>ref\<close> names, if this order holds it.\<close>

definition released :: "oid \<Rightarrow> oid option \<Rightarrow> 'd list \<Rightarrow> 'd list" where
  "released orderId ref ds = (case ref of None \<Rightarrow> ds | Some k \<Rightarrow> upd_by key k (release_if active unmark orderId) ds)"

lemma release_unscopedD:
  assumes "release_doc coll put key vis active unmark orderId ref s = (r, s')"
    and "vis (w_scope s) = Inr (\<lambda>_. True)" and "distinct (map key (coll s))"
  shows "r = Inr () \<and> s' = put (\<lambda>_. released orderId ref (coll s)) s"
proof (cases ref)
  case (Some k)
  show ?thesis
  proof (cases "\<exists>d. get_by key k (coll s) = Some d \<and> active d = Some orderId")
    case True
    then have eq: "upd_by key k unmark (coll s) = released orderId ref (coll s)"
      by (auto simp: Some released_def release_if_def intro!: upd_by_cong_get [OF assms(3)])
    from True assms Some have "r = Inr ()" "s' = put (upd_by key k unmark) s"
      by (auto simp: release_doc_def bnd_def ret_def find_and_update_def cas_def)
    with put_const [of "upd_by key k unmark" s] eq show ?thesis by simp
  next
    case False
    with assms Some have "r = Inr ()" "s' = s"
      by (auto simp: release_doc_def bnd_def ret_def find_and_update_def cas_def split: option.splits if_splits)
    moreover have "released orderId ref (coll s) = coll s"
      using False by (auto simp: Some released_def release_if_def intro!: upd_by_same [OF assms(3)])
    ultimately show ?thesis using put_same [of s] by simp
  qed
qed (use assms put_same [of s] in \<open>simp add: release_doc_def released_def ret_def\<close>)

text \<open>Booking on assignment: the order enters the states in progress and names the resource.\<close>

lemma bookings_book:
  assumes ok: "bookings_ok key active ref ds orders"
    and i: "get_by o_id i orders = Some d" "\<not> in_progress (o_status d)"
    and k: "get_by key k ds = Some x" "active x = None"
    and f: "\<And>y. o_id (f y) = o_id y" "ref (f d) = Some k" "in_progress (o_status (f d))"
  shows "bookings_ok key active ref (upd_by key k (mark i) ds) (upd_by o_id i f orders)"
proof -
  let ?ds = "upd_by key k (mark i) ds" and ?os = "upd_by o_id i f orders"
  have dist: "distinct (map key ds)" using ok by (simp add: bookings_ok_def)
  have held: "\<exists>d. get_by o_id j orders = Some d \<and> in_progress (o_status d) \<and> ref d = Some (key y)"
    if "y \<in> set ds" "active y = Some j" for y j using ok that by (auto simp: bookings_ok_def)
  have 1: "\<exists>d. get_by o_id j ?os = Some d \<and> in_progress (o_status d) \<and> ref d = Some (key y)"
    if y: "y \<in> set ?ds" "active y = Some j" for y j
  proof -
    from set_upd_by [OF y(1)] show ?thesis
    proof
      assume "y \<in> set ds \<and> key y \<noteq> k"
      with held y(2) have "\<exists>d. get_by o_id j orders = Some d \<and> in_progress (o_status d) \<and> ref d = Some (key y)" by blast
      with i have "j \<noteq> i" by auto
      with \<open>\<exists>d. _\<close> show ?thesis by (simp add: get_by_upd_by f(1))
    next
      assume "\<exists>y0 \<in> set ds. key y0 = k \<and> y = mark i y0"
      with y(2) have "j = i" "key y = k" by (auto simp: active_mark key_mark)
      with i f show ?thesis by (simp add: get_by_upd_by f(1))
    qed
  qed
  have 2: "\<exists>k' x. ref d' = Some k' \<and> get_by key k' ?ds = Some x \<and> active x = Some j"
    if d': "get_by o_id j ?os = Some d'" "in_progress (o_status d')" for j d'
  proof (cases "j = i")
    case True
    with d' i have "d' = f d" by (simp add: get_by_upd_by f(1))
    with True f(2) k show ?thesis by (simp add: get_by_upd_by key_mark active_mark)
  next
    case False
    with d' have "get_by o_id j orders = Some d'" by (simp add: get_by_upd_by f(1))
    with ok d'(2) obtain k' x' where "ref d' = Some k'" "get_by key k' ds = Some x'" "active x' = Some j"
      unfolding bookings_ok_def by blast
    moreover from this k have "k' \<noteq> k" by auto
    ultimately show ?thesis by (simp add: get_by_upd_by key_mark)
  qed
  from 1 2 dist show ?thesis by (simp add: bookings_ok_def key_mark)
qed

text \<open>Release when the order leaves the states in progress, or was never in them.\<close>

lemma key_release_if: "key (release_if active unmark i x) = key x"
  by (simp add: release_if_def key_unmark)

lemma released_keys: "map key (released i r ds) = map key ds"
proof (cases r)
  case (Some k)
  then have "released i r ds = upd_by key k (release_if active unmark i) ds" by (simp add: released_def)
  also have "map key \<dots> = map key ds" by (rule keys_upd_by) (rule key_release_if)
  finally show ?thesis .
qed (simp add: released_def)

lemma released_lookup:
  "get_by key k (released i ref ds) =
     (if ref = Some k then map_option (release_if active unmark i) (get_by key k ds) else get_by key k ds)"
  by (auto simp: released_def get_by_upd_by key_release_if split: option.splits)

lemma released_mem:
  assumes "y \<in> set (released i ref ds)" "active y = Some j"
  shows "y \<in> set ds \<and> (ref = Some (key y) \<longrightarrow> j \<noteq> i)"
proof (cases ref)
  case (Some k)
  with assms(1) have "y \<in> set (upd_by key k (release_if active unmark i) ds)" by (simp add: released_def)
  from set_upd_by [OF this] show ?thesis
  proof
    assume "y \<in> set ds \<and> key y \<noteq> k"
    with Some show ?thesis by simp
  next
    assume "\<exists>d0 \<in> set ds. key d0 = k \<and> y = release_if active unmark i d0"
    then obtain d0 where d0: "d0 \<in> set ds" "y = release_if active unmark i d0" by blast
    with assms(2) have "active d0 \<noteq> Some i" by (auto simp: release_if_def active_unmark)
    with d0 assms(2) show ?thesis by (simp add: release_if_def)
  qed
qed (use assms in \<open>simp add: released_def\<close>)

lemma bookings_release:
  assumes ok: "bookings_ok key active ref ds orders"
    and i: "get_by o_id i orders = Some d"
    and f: "\<And>y. o_id (f y) = o_id y" "\<not> in_progress (o_status (f d))"
  shows "bookings_ok key active ref (released i (ref d) ds) (upd_by o_id i f orders)"
proof -
  let ?ds = "released i (ref d) ds" and ?os = "upd_by o_id i f orders"
  have keys: "map key ?ds = map key ds" by (rule released_keys)
  have 1: "\<exists>d'. get_by o_id j ?os = Some d' \<and> in_progress (o_status d') \<and> ref d' = Some (key y)"
    if y: "y \<in> set ?ds" "active y = Some j" for y j
  proof -
    from released_mem [OF y] have mem: "y \<in> set ds" "ref d = Some (key y) \<longrightarrow> j \<noteq> i" by auto
    with ok y(2) obtain d' where d': "get_by o_id j orders = Some d'" "in_progress (o_status d')" "ref d' = Some (key y)"
      unfolding bookings_ok_def by blast
    with mem(2) i have "j \<noteq> i" by auto
    with d' show ?thesis by (simp add: get_by_upd_by f(1))
  qed
  have 2: "\<exists>k x. ref d' = Some k \<and> get_by key k ?ds = Some x \<and> active x = Some j"
    if d': "get_by o_id j ?os = Some d'" "in_progress (o_status d')" for j d'
  proof -
    from d' i f have "j \<noteq> i" by (auto simp: get_by_upd_by)
    with d' have "get_by o_id j orders = Some d'" by (simp add: get_by_upd_by f(1))
    with ok d'(2) obtain k x where "ref d' = Some k" "get_by key k ds = Some x" "active x = Some j"
      unfolding bookings_ok_def by blast
    with \<open>j \<noteq> i\<close> show ?thesis by (auto simp: released_lookup release_if_def)
  qed
  from ok 1 2 keys show ?thesis by (simp add: bookings_ok_def)
qed

lemma bookings_frame:
  assumes ok: "bookings_ok key active ref ds orders"
    and i: "get_by o_id i orders = Some d"
    and f: "\<And>y. o_id (f y) = o_id y" "in_progress (o_status (f d)) = in_progress (o_status d)" "ref (f d) = ref d"
  shows "bookings_ok key active ref ds (upd_by o_id i f orders)"
  unfolding bookings_ok_def
proof (intro conjI ballI allI impI)
  show "distinct (map key ds)" using ok by (simp add: bookings_ok_def)
next
  fix x j assume "x \<in> set ds" "active x = Some j"
  with ok obtain d0 where "get_by o_id j orders = Some d0" "in_progress (o_status d0)" "ref d0 = Some (key x)"
    unfolding bookings_ok_def by blast
  with i f show "\<exists>d. get_by o_id j (upd_by o_id i f orders) = Some d \<and> in_progress (o_status d) \<and> ref d = Some (key x)"
    by (cases "j = i") (simp_all add: get_by_upd_by)
next
  fix j d' assume d': "get_by o_id j (upd_by o_id i f orders) = Some d'" "in_progress (o_status d')"
  obtain d0 where "get_by o_id j orders = Some d0" "in_progress (o_status d0)" "ref d0 = ref d'"
    using d' i f that by (cases "j = i") (simp_all add: get_by_upd_by)
  with ok show "\<exists>k x. ref d' = Some k \<and> get_by key k ds = Some x \<and> active x = Some j"
    unfolding bookings_ok_def by metis
qed

lemma release_anyD:
  assumes "release_doc coll put key vis active unmark orderId ref s = (Inr u, s')" and "distinct (map key (coll s))"
  shows "s' = s \<or> s' = put (\<lambda>_. released orderId ref (coll s)) s"
proof (cases ref)
  case (Some k)
  show ?thesis
  proof (cases "s' = s")
    case False
    from assms(1) Some obtain r where r: "find_and_update coll put key vis k (\<lambda>d. active d = Some orderId) unmark s = (Inr r, s')"
      by (auto simp: release_doc_def prog_inv)
    with False obtain d where d: "get_by key k (coll s) = Some d" "active d = Some orderId" "s' = put (upd_by key k unmark) s"
      by (cases r) (auto simp: find_and_update_inv)
    then have eq: "upd_by key k unmark (coll s) = released orderId ref (coll s)"
      by (auto simp: Some released_def release_if_def intro!: upd_by_cong_get [OF assms(2)])
    with d(3) put_const [of "upd_by key k unmark" s] show ?thesis by simp
  qed simp
qed (use assms in \<open>simp add: release_doc_def ret_def\<close>)

text \<open>A booking that succeeds shows that the order's former resource was released: otherwise
  the former resource would still carry the order and the booking would be refused.\<close>

lemma book_after_release:
  assumes ok: "bookings_ok key active ref (coll s) orders" and i: "get_by o_id i orders = Some d" "in_progress (o_status d)"
    and rel: "coll s1 = coll s \<or> coll s1 = released i (ref d) (coll s)"
    and book: "book_doc coll put key vis active k free mark i s1 = (Inr (Some x), s2)"
  shows "coll s1 = released i (ref d) (coll s)"
proof (rule ccontr)
  assume "coll s1 \<noteq> released i (ref d) (coll s)"
  with rel have same: "coll s1 = coll s" by simp
  from ok i obtain k0 x0 where x0: "get_by key k0 (coll s) = Some x0" "active x0 = Some i"
    unfolding bookings_ok_def by blast
  from book show False
  proof (rule book_okD)
    fix v y assume y: "get_by key k (coll s1) = Some y" "free y"
      "\<forall>x \<in> set (coll s1). key x \<noteq> k \<longrightarrow> active x \<noteq> Some i"
    from x0 same y(3) have "key x0 = k" by (auto dest: get_by_mem)
    with get_by_key [OF x0(1)] x0(1) y(1) same have "y = x0" by simp
    with y(2) x0(2) free_active show False by simp
  qed
qed

text \<open>Exchanging one resource for another while the order stays in progress.\<close>

lemma bookings_exchange:
  assumes ok: "bookings_ok key active ref ds orders" and dist: "distinct (map o_id orders)"
    and i: "get_by o_id i orders = Some d"
    and k: "get_by key k (released i (ref d) ds) = Some x" "active x = None"
    and f: "\<And>y. o_id (f y) = o_id y" "ref (f d) = Some k" "in_progress (o_status (f d))"
  shows "bookings_ok key active ref (upd_by key k (mark i) (released i (ref d) ds)) (upd_by o_id i f orders)"
proof -
  let ?f1 = "\<lambda>y::order. y\<lparr>o_status := CANCELLED\<rparr>" and ?f2 = "\<lambda>y. f (y\<lparr>o_status := o_status d\<rparr>)"
  have off: "bookings_ok key active ref (released i (ref d) ds) (upd_by o_id i ?f1 orders)"
    by (rule bookings_release [OF ok i]) simp_all
  have "upd_by o_id i f orders = upd_by o_id i ?f2 (upd_by o_id i ?f1 orders)"
  proof -
    have "upd_by o_id i ?f2 (upd_by o_id i ?f1 orders) = upd_by o_id i (\<lambda>y. ?f2 (?f1 y)) orders"
      by (induction orders) auto
    also have "\<dots> = upd_by o_id i f orders"
      using i by (intro upd_by_cong_get [OF dist]) auto
    finally show ?thesis by simp
  qed
  moreover have "bookings_ok key active ref (upd_by key k (mark i) (released i (ref d) ds))
      (upd_by o_id i ?f2 (upd_by o_id i ?f1 orders))"
  proof (rule bookings_book [OF off _ _ k])
    show "get_by o_id i (upd_by o_id i ?f1 orders) = Some (?f1 d)" using i by (simp add: get_by_upd_by)
  qed (use f in simp_all)
  ultimately show ?thesis by simp
qed

end

interpretation drivers: bookable w_users w_users_update u_id u_activeOrderId driver_free mark_driver unmark_driver
  by unfold_locales (simp_all add: driver_free_def mark_driver_def unmark_driver_def)

interpretation trucks: bookable w_trucks w_trucks_update trk_id trk_activeOrderId truck_free mark_truck unmark_truck
  by unfold_locales (simp_all add: truck_free_def mark_truck_def unmark_truck_def)

interpretation tanks: bookable w_tanks w_tanks_update tnk_id tnk_activeOrderId tank_free mark_tank unmark_tank
  by unfold_locales (simp_all add: tank_free_def mark_tank_def unmark_tank_def)

lemma releaseDriverIfAssignedD:
  assumes "releaseDriverIfAssigned d s = (r, s')" "fleet_ok s"
  shows "r = Inr () \<and> s' = s\<lparr>w_users := drivers.released (o_id d) (o_driverId d) (w_users s),
     w_trucks := trucks.released (o_id d) (o_truckId d) (w_trucks s),
     w_tanks := tanks.released (o_id d) (o_tankId d) (w_tanks s)\<rparr>"
proof -
  from assms(2) have dist: "distinct (map u_id (w_users s))" "distinct (map trk_id (w_trucks s))" "distinct (map tnk_id (w_tanks s))"
    by (simp_all add: fleet_ok_def bookings_ok_def)
  let ?s0 = "s\<lparr>w_scope := anonymous\<rparr>"
  obtain r1 s1 where 1: "release_driver (o_id d) (o_driverId d) ?s0 = (r1, s1)" by fastforce
  obtain r2 s2 where 2: "release_truck (o_id d) (o_truckId d) s1 = (r2, s2)" by fastforce
  obtain r3 s3 where 3: "release_tank (o_id d) (o_tankId d) s2 = (r3, s3)" by fastforce
  have s1: "r1 = Inr ()" "s1 = ?s0\<lparr>w_users := drivers.released (o_id d) (o_driverId d) (w_users s)\<rparr>"
    using drivers.release_unscopedD [OF 1 [unfolded release_driver_def]] dist
    by (simp_all add: tenant_scoped_def)
  have s2: "r2 = Inr ()" "s2 = s1\<lparr>w_trucks := trucks.released (o_id d) (o_truckId d) (w_trucks s)\<rparr>"
    using trucks.release_unscopedD [OF 2 [unfolded release_truck_def]] dist s1
    by (simp_all add: tenant_scoped_def)
  have s3: "r3 = Inr ()" "s3 = s2\<lparr>w_tanks := tanks.released (o_id d) (o_tankId d) (w_tanks s)\<rparr>"
    using tanks.release_unscopedD [OF 3 [unfolded release_tank_def]] dist s1 s2
    by (simp_all add: tenant_scoped_def)
  from assms(1) 1 2 3 s1 s2 s3 show ?thesis
    by (simp add: releaseDriverIfAssigned_def run_unscoped_def bnd_def)
qed

lemma fleet_release:
  assumes "fleet_ok s" "get_by o_id i (w_orders s) = Some d" "\<And>y. o_id (f y) = o_id y" "\<not> in_progress (o_status (f d))"
    and "w_users s' = drivers.released i (o_driverId d) (w_users s)"
    "w_trucks s' = trucks.released i (o_truckId d) (w_trucks s)"
    "w_tanks s' = tanks.released i (o_tankId d) (w_tanks s)" "w_orders s' = upd_by o_id i f (w_orders s)"
  shows "fleet_ok s'"
  using assms drivers.bookings_release trucks.bookings_release tanks.bookings_release by (simp add: fleet_ok_def)

lemma fleet_frame:
  assumes "fleet_ok s" "get_by o_id i (w_orders s) = Some d" "\<And>y. o_id (f y) = o_id y"
    "in_progress (o_status (f d)) = in_progress (o_status d)"
    "o_driverId (f d) = o_driverId d" "o_truckId (f d) = o_truckId d" "o_tankId (f d) = o_tankId d"
    and "w_users s' = w_users s" "w_trucks s' = w_trucks s" "w_tanks s' = w_tanks s"
    "w_orders s' = upd_by o_id i f (w_orders s)"
  shows "fleet_ok s'"
  using assms drivers.bookings_frame trucks.bookings_frame tanks.bookings_frame by (simp add: fleet_ok_def)

text \<open>A resource held by an order is held by no other.\<close>

lemma bookings_exclusive:
  assumes "bookings_ok key active ref ds orders" "x \<in> set ds" "y \<in> set ds" "active x = Some i" "active y = Some i"
  shows "x = y"
proof -
  from assms have "key x = key y" unfolding bookings_ok_def by (metis option.inject)
  moreover have "distinct (map key ds)" using assms(1) by (simp add: bookings_ok_def)
  ultimately show ?thesis using assms(2,3) get_by_distinct [of key ds] by (metis option.inject)
qed

end
