(* ===== verification/Otp.thy ===== *)
theory Otp
  imports Order_State
begin

text \<open>
  One-time codes: \<open>common/otp/otp-primitives.service.ts\<close> and
  \<open>modules/orders/services/otp.service.ts\<close>.

  The digest of the runtime's crypto library is the parameter \<open>sha\<close>, and the random code and
  salt are arguments of \<open>issue\<close>.  The plaintext cache keeps the moment its time-to-live runs
  out.  Codes live in the order's \<open>otps\<close> array and are addressed by index, as in the source.
\<close>

section \<open>Primitives\<close>

definition MAX_ATTEMPTS :: nat where
  "MAX_ATTEMPTS = 5"

datatype otp_verify_result = MATCH | NOT_FOUND | EXPIRED | LOCKED_OUT | MISMATCH

definition hashOtp :: "(string \<Rightarrow> string) \<Rightarrow> string \<Rightarrow> string \<Rightarrow> string" where
  "hashOtp sha otp salt = sha (salt @ '':'' @ otp)"

definition cachePlaintext :: "oid \<times> otp_purpose \<Rightarrow> string \<Rightarrow> int \<Rightarrow> unit service" where
  "cachePlaintext cacheKey code ttlSeconds =
     modify (\<lambda>s. s\<lparr>w_cache := (w_cache s)(cacheKey \<mapsto> (code, w_now s + ttlSeconds * 1000))\<rparr>)"

definition getCachedPlaintext :: "oid \<times> otp_purpose \<Rightarrow> string option service" where
  "getCachedPlaintext cacheKey = asks (\<lambda>s. case w_cache s cacheKey of
     None \<Rightarrow> None | Some (code, until) \<Rightarrow> if w_now s < until then Some code else None)"

definition clearCache :: "oid \<times> otp_purpose \<Rightarrow> unit service" where
  "clearCache cacheKey = modify (\<lambda>s. s\<lparr>w_cache := (w_cache s)(cacheKey := None)\<rparr>)"

definition issueRecord ::
  "(string \<Rightarrow> string) \<Rightarrow> string \<Rightarrow> string \<Rightarrow> oid \<times> otp_purpose \<Rightarrow> int \<Rightarrow> otp_record service" where
  "issueRecord sha code salt cacheKey expiryMinutes =
     bnd (asks w_now) (\<lambda>now.
     bnd (cachePlaintext cacheKey code (expiryMinutes * 60)) (\<lambda>_.
     ret \<lparr>otp_hash = hashOtp sha code salt, otp_salt = salt,
          otp_expiresAt = now + expiryMinutes * 60000, otp_usedAt = None, otp_attempts = 0, otp_purpose = snd cacheKey,
          otp_createdAt = now\<rparr>))"

definition verifyRecord ::
  "(string \<Rightarrow> string) \<Rightarrow> instant \<Rightarrow> 'r otp_record_like_scheme option \<Rightarrow> string \<Rightarrow> nat \<Rightarrow> otp_verify_result" where
  "verifyRecord sha now record submittedCode maxAttempts = (case record of
     None \<Rightarrow> NOT_FOUND
   | Some r \<Rightarrow>
       if otp_usedAt r \<noteq> None then NOT_FOUND
       else if otp_expiresAt r \<le> now then EXPIRED
       else if maxAttempts \<le> otp_attempts r then LOCKED_OUT
       else if hashOtp sha submittedCode (otp_salt r) = otp_hash r then MATCH else MISMATCH)"

section \<open>Codes of an order\<close>

definition is_active :: "otp_purpose \<Rightarrow> instant \<Rightarrow> otp_record \<Rightarrow> bool" where
  "is_active purpose now r \<longleftrightarrow> otp_purpose r = purpose \<and> otp_usedAt r = None \<and> now < otp_expiresAt r"

definition unused_for :: "otp_purpose \<Rightarrow> otp_record \<Rightarrow> bool" where
  "unused_for purpose r \<longleftrightarrow> otp_purpose r = purpose \<and> otp_usedAt r = None"

definition pull_unused :: "otp_purpose \<Rightarrow> order \<Rightarrow> order" where
  "pull_unused purpose d = d\<lparr>o_otps := filter (\<lambda>r. \<not> unused_for purpose r) (o_otps d)\<rparr>"

definition push_otp :: "otp_record \<Rightarrow> order \<Rightarrow> order" where
  "push_otp r d = d\<lparr>o_otps := o_otps d @ [r]\<rparr>"

definition set_otp :: "nat \<Rightarrow> (otp_record \<Rightarrow> otp_record) \<Rightarrow> order \<Rightarrow> order" where
  "set_otp i f d = d\<lparr>o_otps := (o_otps d)[i := f (o_otps d ! i)]\<rparr>"

definition issue ::
  "(string \<Rightarrow> string) \<Rightarrow> string \<Rightarrow> string \<Rightarrow> oid \<Rightarrow> otp_purpose \<Rightarrow> unit service" where
  "issue sha code salt orderId purpose =
     bnd (find_order orderId) (\<lambda>found.
     bnd (demand (Conflict None) found) (\<lambda>order.
     bnd (asks w_now) (\<lambda>now.
     if find (is_active purpose now) (o_otps order) \<noteq> None then ret ()
     else
       bnd (asks (\<lambda>s. cfg_otpExpiryMinutes (w_config s))) (\<lambda>expiryMinutes.
       bnd (issueRecord sha code salt (orderId, purpose) expiryMinutes) (\<lambda>otpRecord.
       bnd (update_order orderId (\<lambda>_. True) (pull_unused purpose)) (\<lambda>_.
       bnd (update_order orderId (\<lambda>_. True) (push_otp otpRecord)) (\<lambda>_.
       emit (OrderOtpEvent (o_clientId order) orderId purpose code (otp_expiresAt otpRecord)))))))))"

primrec findIndex :: "('a \<Rightarrow> bool) \<Rightarrow> 'a list \<Rightarrow> nat option" where
  "findIndex P [] = None"
| "findIndex P (x # xs) = (if P x then Some 0 else map_option Suc (findIndex P xs))"

definition verify :: "(string \<Rightarrow> string) \<Rightarrow> oid \<Rightarrow> otp_purpose \<Rightarrow> string \<Rightarrow> unit service" where
  "verify sha orderId purpose submittedOtp =
     bnd (find_order orderId) (\<lambda>found.
     bnd (demand (Conflict None) found) (\<lambda>order.
     bnd (asks w_now) (\<lambda>now.
     case findIndex (unused_for purpose) (o_otps order) of
       None \<Rightarrow> throw Unauthorized
     | Some recordIndex \<Rightarrow>
         (case verifyRecord sha now (Some (o_otps order ! recordIndex)) submittedOtp MAX_ATTEMPTS of
            NOT_FOUND \<Rightarrow> throw Unauthorized
          | EXPIRED \<Rightarrow> throw Unauthorized
          | LOCKED_OUT \<Rightarrow> throw Unauthorized
          | MISMATCH \<Rightarrow>
              bnd (update_order orderId (\<lambda>d. recordIndex < length (o_otps d))
                     (set_otp recordIndex (\<lambda>r. r\<lparr>otp_attempts := Suc (otp_attempts r)\<rparr>))) (\<lambda>_.
              throw Unauthorized)
          | MATCH \<Rightarrow>
              bnd (update_order orderId (\<lambda>_. True)
                     (set_otp recordIndex (\<lambda>r. r\<lparr>otp_usedAt := Some now\<rparr>))) (\<lambda>_.
              clearCache (orderId, purpose))))))"

definition use_all :: "instant \<Rightarrow> order \<Rightarrow> order" where
  "use_all now d = d\<lparr>o_otps := map (\<lambda>r. if otp_usedAt r = None then r\<lparr>otp_usedAt := Some now\<rparr> else r) (o_otps d)\<rparr>"

definition invalidateActive :: "oid \<Rightarrow> unit service" where
  "invalidateActive orderId =
     bnd (asks w_now) (\<lambda>now.
     bnd (update_order orderId (\<lambda>_. True) (use_all now)) (\<lambda>_.
     bnd (clearCache (orderId, ARRIVAL)) (\<lambda>_.
     clearCache (orderId, DELIVERY))))"

definition peekCurrent :: "oid \<Rightarrow> otp_purpose \<Rightarrow> (otp_purpose \<times> string \<times> instant) option service" where
  "peekCurrent orderId purpose =
     bnd (find_order orderId) (\<lambda>found.
     bnd (asks w_now) (\<lambda>now.
     case (case found of None \<Rightarrow> None | Some order \<Rightarrow> find (is_active purpose now) (o_otps order)) of
       None \<Rightarrow> ret None
     | Some record \<Rightarrow>
         bnd (getCachedPlaintext (orderId, purpose)) (\<lambda>otp.
         ret (case otp of None \<Rightarrow> None
              | Some code \<Rightarrow> Some (otp_purpose record, code, otp_expiresAt record)))))"

section \<open>Lemmas\<close>

lemma findIndex_SomeD: "findIndex P xs = Some i \<Longrightarrow> i < length xs \<and> P (xs ! i)"
  by (induction xs arbitrary: i) (auto split: if_splits)

lemma findIndex_None: "findIndex P xs = None \<longleftrightarrow> (\<forall>x \<in> set xs. \<not> P x)"
  by (induction xs) auto

lemma findIndex_update: "findIndex P xs = Some i \<Longrightarrow> P y \<Longrightarrow> findIndex P (xs[i := y]) = Some i"
  by (induction xs arbitrary: i) (auto split: if_splits nat.splits)

lemma findIndex_snoc: "\<forall>x \<in> set xs. \<not> P x \<Longrightarrow> P y \<Longrightarrow> findIndex P (xs @ [y]) = Some (length xs)"
  by (induction xs) auto

lemma otp_patches [simp]:
  "same_parties (pull_unused p)" "same_parties (push_otp r)" "same_parties (set_otp k f)" "same_parties (use_all t)"
  "order_patch (pull_unused p)" "order_patch (push_otp r)" "order_patch (set_otp k f)" "order_patch (use_all t)"
  by (simp_all add: same_parties_def order_patch_def pull_unused_def push_otp_def set_otp_def use_all_def)

lemma issue_idle:
  assumes "sees_order s i d" "r \<in> set (o_otps d)" "is_active p (w_now s) r"
  shows "issue sha code salt i p s = (Inr (), s)"
proof -
  from assms(2,3) have "find (is_active p (w_now s)) (o_otps d) \<noteq> None" by (auto simp: find_None_iff)
  with find_order_run [OF assms(1)] show ?thesis
    by (simp add: issue_def bnd_def demand_def asks_def ret_def)
qed

lemma issue_fresh:
  assumes "sees_order s i d" "find (is_active p (w_now s)) (o_otps d) = None"
    and "r = \<lparr>otp_hash = hashOtp sha code salt, otp_salt = salt,
           otp_expiresAt = w_now s + cfg_otpExpiryMinutes (w_config s) * 60000, otp_usedAt = None,
           otp_attempts = 0, otp_purpose = p, otp_createdAt = w_now s\<rparr>"
  shows "\<exists>s'. issue sha code salt i p s = (Inr (), s') \<and> sees_order s' i (push_otp r (pull_unused p d)) \<and>
    w_now s' = w_now s \<and> w_cache s' (i, p) = Some (code, otp_expiresAt r) \<and> w_scope s' = w_scope s"
proof -
  let ?s1 = "s\<lparr>w_cache := (w_cache s)((i, p) \<mapsto> (code, otp_expiresAt r))\<rparr>"
  let ?s2 = "w_orders_update (upd_by o_id i (pull_unused p)) ?s1"
  let ?s3 = "w_orders_update (upd_by o_id i (push_otp r)) ?s2"
  have s1: "sees_order ?s1 i d" using assms(1) by (simp add: sees_order_frame [of ?s1 s])
  have s2: "sees_order ?s2 i (pull_unused p d)" by (rule sees_order_update [OF s1]) simp_all
  have s3: "sees_order ?s3 i (push_otp r (pull_unused p d))" by (rule sees_order_update [OF s2]) simp_all
  have "issue sha code salt i p s =
      emit (OrderOtpEvent (o_clientId d) i p code (otp_expiresAt r)) ?s3"
    using find_order_run [OF assms(1)] assms(2,3)
      update_order_run [OF s1, of "\<lambda>_. True" "pull_unused p"] update_order_run [OF s2, of "\<lambda>_. True" "push_otp r"]
    by (simp add: issue_def issueRecord_def cachePlaintext_def bnd_def demand_def asks_def ret_def modify_def algebra_simps)
  with s3 show ?thesis by (simp add: emit_def modify_def sees_order_def)
qed

lemma verify_unfold:
  assumes "sees_order s i d"
  shows "verify sha i p c s = (case findIndex (unused_for p) (o_otps d) of
     None \<Rightarrow> (Inl Unauthorized, s)
   | Some k \<Rightarrow>
       (case verifyRecord sha (w_now s) (Some (o_otps d ! k)) c MAX_ATTEMPTS of
          MISMATCH \<Rightarrow> (Inl Unauthorized, w_orders_update (upd_by o_id i
             (set_otp k (\<lambda>r. r\<lparr>otp_attempts := Suc (otp_attempts r)\<rparr>))) s)
        | MATCH \<Rightarrow> (Inr (), (w_orders_update (upd_by o_id i
             (set_otp k (\<lambda>r. r\<lparr>otp_usedAt := Some (w_now s)\<rparr>))) s)\<lparr>w_cache := (w_cache s)((i, p) := None)\<rparr>)
        | _ \<Rightarrow> (Inl Unauthorized, s)))"
  using find_order_run [OF assms] update_order_run [OF assms]
  by (auto simp: verify_def clearCache_def bnd_def demand_def asks_def throw_def modify_def
      split: option.splits otp_verify_result.splits dest: findIndex_SomeD)

section \<open>The guessing bound\<close>

text \<open>Submitting codes one after the other, ignoring the refusals.\<close>

definition try_codes :: "(string \<Rightarrow> string) \<Rightarrow> oid \<Rightarrow> otp_purpose \<Rightarrow> string list \<Rightarrow> unit service" where
  "try_codes sha i p guesses = for_each guesses (\<lambda>g. try_catch (verify sha i p g) (\<lambda>_. ret ()))"

text \<open>The record a verification of purpose \<open>p\<close> will meet, with \<open>a\<close> attempts spent.\<close>

definition facing :: "world \<Rightarrow> oid \<Rightarrow> otp_purpose \<Rightarrow> nat \<Rightarrow> otp_record \<Rightarrow> nat \<Rightarrow> bool" where
  "facing s i p k r a \<longleftrightarrow> (\<exists>d. sees_order s i d \<and> findIndex (unused_for p) (o_otps d) = Some k \<and>
     o_otps d ! k = r\<lparr>otp_attempts := a\<rparr> \<and> w_now s < otp_expiresAt r)"

lemma facing_unused: "facing s i p k r a \<Longrightarrow> otp_purpose r = p \<and> otp_usedAt r = None"
  by (auto simp: facing_def unused_for_def dest!: findIndex_SomeD)

lemma facing_wrong:
  assumes "facing s i p k r a" "hashOtp sha g (otp_salt r) \<noteq> otp_hash r"
  shows "\<exists>s' a'. verify sha i p g s = (Inl Unauthorized, s') \<and> facing s' i p k r a' \<and> min MAX_ATTEMPTS (Suc a) \<le> a'"
proof -
  from assms(1) obtain d where d: "sees_order s i d" "findIndex (unused_for p) (o_otps d) = Some k"
    "o_otps d ! k = r\<lparr>otp_attempts := a\<rparr>" "w_now s < otp_expiresAt r" by (auto simp: facing_def)
  note unused = facing_unused [OF assms(1)]
  show ?thesis
  proof (cases "MAX_ATTEMPTS \<le> a")
    case True
    with d unused have "verify sha i p g s = (Inl Unauthorized, s)"
      by (simp add: verify_unfold [OF d(1)] verifyRecord_def)
    with True assms(1) show ?thesis by (auto intro!: exI [of _ s] exI [of _ a])
  next
    case False
    let ?f = "set_otp k (\<lambda>r. r\<lparr>otp_attempts := Suc (otp_attempts r)\<rparr>)"
    let ?s' = "w_orders_update (upd_by o_id i ?f) s"
    from False d unused assms(2) have run: "verify sha i p g s = (Inl Unauthorized, ?s')"
      by (simp add: verify_unfold [OF d(1)] verifyRecord_def)
    have sees: "sees_order ?s' i (?f d)" by (rule sees_order_update [OF d(1)]) simp_all
    have len: "k < length (o_otps d)" using d(2) by (simp add: findIndex_SomeD)
    have "findIndex (unused_for p) ((o_otps d)[k := r\<lparr>otp_attempts := Suc a\<rparr>]) = Some k"
      using d(2) unused by (intro findIndex_update) (simp_all add: unused_for_def)
    with sees d len have "facing ?s' i p k r (Suc a)"
      by (auto simp: facing_def set_otp_def intro!: exI [of _ "?f d"])
    with run False show ?thesis by (intro exI [of _ ?s'] exI [of _ "Suc a"]) simp
  qed
qed

lemma facing_guesses:
  assumes "facing s i p k r a" "\<forall>g \<in> set gs. hashOtp sha g (otp_salt r) \<noteq> otp_hash r"
  shows "\<exists>s' a'. try_codes sha i p gs s = (Inr (), s') \<and> facing s' i p k r a' \<and> min MAX_ATTEMPTS (a + length gs) \<le> a'"
  using assms
proof (induction gs arbitrary: s a)
  case Nil
  then show ?case by (auto simp: try_codes_def ret_def)
next
  case (Cons g gs)
  obtain s1 a1 where 1: "verify sha i p g s = (Inl Unauthorized, s1)" "facing s1 i p k r a1"
    "min MAX_ATTEMPTS (Suc a) \<le> a1" using facing_wrong [OF Cons.prems(1), of sha g] Cons.prems(2) by auto
  from Cons.IH [OF 1(2)] Cons.prems(2) obtain s2 a2 where 2: "try_codes sha i p gs s1 = (Inr (), s2)"
    "facing s2 i p k r a2" "min MAX_ATTEMPTS (a1 + length gs) \<le> a2" by auto
  from 1(1) 2(1) have "try_codes sha i p (g # gs) s = (Inr (), s2)"
    by (simp add: try_codes_def bnd_def try_catch_def ret_def)
  moreover have "min MAX_ATTEMPTS (a + length (g # gs)) \<le> a2" using 1(3) 2(3) by (simp add: min_def split: if_splits)
  ultimately show ?case using 2(2) by blast
qed

section \<open>Properties\<close>


text \<open>The life of a code.  When none is active, the issued code is the one the client can
  read, it is accepted, it is accepted only once, and after that nothing can be read.\<close>

theorem otp_issue_verify_once:
  assumes "sees_order s i d" "find (is_active p (w_now s)) (o_otps d) = None"
    and "0 < cfg_otpExpiryMinutes (w_config s)"
  shows "\<exists>s1 s2. issue sha code salt i p s = (Inr (), s1) \<and>
    peekCurrent i p s1 = (Inr (Some (p, code, w_now s + cfg_otpExpiryMinutes (w_config s) * 60000)), s1) \<and>
    verify sha i p code s1 = (Inr (), s2) \<and>
    (\<forall>c. verify sha i p c s2 = (Inl Unauthorized, s2)) \<and> peekCurrent i p s2 = (Inr None, s2)"
proof -
  define r where "r = \<lparr>otp_hash = hashOtp sha code salt, otp_salt = salt,
    otp_expiresAt = w_now s + cfg_otpExpiryMinutes (w_config s) * 60000, otp_usedAt = None,
    otp_attempts = 0, otp_purpose = p, otp_createdAt = w_now s\<rparr>"
  define old where "old = filter (\<lambda>r. \<not> unused_for p r) (o_otps d)"
  let ?d1 = "push_otp r (pull_unused p d)"
  let ?n = "length old"
  let ?g = "\<lambda>r. r\<lparr>otp_usedAt := Some (w_now s)\<rparr>"
  obtain s1 where s1: "issue sha code salt i p s = (Inr (), s1)" "sees_order s1 i ?d1" "w_now s1 = w_now s"
    "w_cache s1 (i, p) = Some (code, otp_expiresAt r)"
    using issue_fresh [OF assms(1,2) r_def] by blast
  have otps: "o_otps ?d1 = old @ [r]" by (simp add: push_otp_def pull_unused_def old_def)
  have none: "\<forall>x \<in> set old. \<not> unused_for p x" by (simp add: old_def)
  have idx: "findIndex (unused_for p) (o_otps ?d1) = Some ?n"
    unfolding otps by (rule findIndex_snoc [OF none]) (simp add: unused_for_def r_def)
  have find_old: "find (is_active p t) old = None" for t
    using none by (auto simp: find_None_iff is_active_def unused_for_def)
  have app: "find Q (xs @ ys) = (case find Q xs of None \<Rightarrow> find Q ys | Some y \<Rightarrow> Some y)" for Q and xs ys :: "otp_record list"
    by (induction xs) auto
  have "is_active p (w_now s) r" using assms(3) by (simp add: is_active_def r_def)
  then have "find (is_active p (w_now s)) (o_otps ?d1) = Some r"
    by (simp add: otps app find_old)
  then have peek1: "peekCurrent i p s1 = (Inr (Some (p, code, otp_expiresAt r)), s1)"
    using find_order_run [OF s1(2)] s1(3,4) assms(3)
    by (simp add: peekCurrent_def getCachedPlaintext_def bnd_def asks_def ret_def r_def)
  let ?s2 = "(w_orders_update (upd_by o_id i (set_otp ?n ?g)) s1)\<lparr>w_cache := (w_cache s1)((i, p) := None)\<rparr>"
  have at_n: "(old @ [r]) ! ?n = r" by simp
  have run2: "verify sha i p code s1 = (Inr (), ?s2)"
    using idx assms(3) unfolding verify_unfold [OF s1(2)] otps
    by (simp add: verifyRecord_def at_n s1(3)) (simp add: r_def MAX_ATTEMPTS_def s1(3))
  have sees2: "sees_order ?s2 i (set_otp ?n ?g ?d1)" by (rule sees_order_update [OF s1(2)]) simp_all
  have otps2: "o_otps (set_otp ?n ?g ?d1) = old @ [?g r]" by (simp add: set_otp_def otps at_n)
  have used: "findIndex (unused_for p) (old @ [?g r]) = None"
    using none by (simp add: findIndex_None) (simp add: unused_for_def)
  have refuse: "verify sha i p c ?s2 = (Inl Unauthorized, ?s2)" for c
    by (simp add: verify_unfold [OF sees2] otps2 used)
  have "find (is_active p t) (old @ [?g r]) = None" for t by (simp add: app find_old is_active_def)
  then have "peekCurrent i p ?s2 = (Inr None, ?s2)"
    using find_order_run [OF sees2] by (simp add: peekCurrent_def bnd_def asks_def ret_def otps2)
  with s1(1) peek1 run2 refuse show ?thesis by (auto simp: r_def)
qed

text \<open>Witnesses: an order with one arrival code, and one with none.\<close>

definition arrival_code :: otp_record where
  "arrival_code = \<lparr>otp_hash = ''s:123456'', otp_salt = ''s'', otp_expiresAt = 5000,
     otp_usedAt = None, otp_attempts = 3, otp_purpose = ARRIVAL, otp_createdAt = 0\<rparr>"

definition otp_world :: world where
  "otp_world = empty_world\<lparr>w_orders := [blank_order\<lparr>o_otps := [arrival_code]\<rparr>]\<rparr>"

lemma otp_world_sees: "sees_order otp_world 10 (blank_order\<lparr>o_otps := [arrival_code]\<rparr>)"
  by (simp add: sees_order_def otp_world_def sample_defs)


theorem otp_issue_verify_once_witness:
  "\<exists>s1 s2. issue id ''654321'' ''t'' 10 DELIVERY otp_world = (Inr (), s1) \<and>
    peekCurrent 10 DELIVERY s1 = (Inr (Some (DELIVERY, ''654321'', 1801000)), s1) \<and>
    verify id 10 DELIVERY ''654321'' s1 = (Inr (), s2) \<and>
    (\<forall>c. verify id 10 DELIVERY c s2 = (Inl Unauthorized, s2)) \<and> peekCurrent 10 DELIVERY s2 = (Inr None, s2)"
  using otp_issue_verify_once [OF otp_world_sees, of DELIVERY id "''654321''" "''t''"]
  by (simp add: arrival_code_def is_active_def otp_world_def sample_defs)

text \<open>What the cache operations keep.\<close>

lemma keeps_cache:
  assumes "\<And>s c. P s \<Longrightarrow> P (s\<lparr>w_cache := c\<rparr>)"
  shows "keeps P (clearCache k)" "keeps P (cachePlaintext k c m)" "keeps P (issueRecord sha c salt k m)"
  using assms by (auto simp: clearCache_def cachePlaintext_def issueRecord_def intro!: keeps_modify keeps_bnd)

end
