(* ===== verification/Platform_Account.thy ===== *)
theory Platform_Account
  imports Tenancy Samples
begin

text \<open>
  The ledger between the platform and each fuel company:
  \<open>modules/platform-account/platform-account.service.ts\<close> and
  \<open>common/enums/account-movement-direction.enum.ts\<close>.

  A movement is never edited or deleted, apart from the confirmation of a recorded payment; a
  balance is the signed sum of confirmed movements, a reversal counting negatively.  The
  invariant \<open>ledger_ok\<close> says that every reversal mirrors exactly one original and that no
  original is reversed twice; from it follow that reversing an invoice's movements brings its
  net effect to zero and that doing so twice changes nothing.
\<close>

datatype account_movement_direction = INBOUND | OUTBOUND

fun directionForKind :: "account_movement_kind \<Rightarrow> account_movement_direction" where
  "directionForKind COMMISSION_CHARGED = OUTBOUND"
| "directionForKind CASHBACK_CREDITED = INBOUND"
| "directionForKind PAYMENT_RECORDED = OUTBOUND"
| "directionForKind CASHBACK_PAID_OUT = INBOUND"

record create_movement_input =
  mi_companyId :: oid
  mi_kind :: account_movement_kind
  mi_amount :: rat
  mi_state :: account_movement_state
  mi_sourceInvoiceId :: "oid option"
  mi_appliedRate :: "rat option"
  mi_appliedBasis :: "commission_basis option"
  mi_method :: "settlement_method option"
  mi_reference :: "string option"
  mi_documentFileId :: "oid option"
  mi_reversalOfId :: "oid option"
  mi_confirmedBy :: "oid option"
  mi_confirmedAt :: "instant option"

text \<open>The partial unique index on \<open>(companyId, kind, reference)\<close> of cashback payouts.\<close>

definition payout_clash :: "account_movement \<Rightarrow> account_movement list \<Rightarrow> bool" where
  "payout_clash m ms \<longleftrightarrow> am_kind m = CASHBACK_PAID_OUT \<and> am_reference m \<noteq> None \<and>
     list_ex (\<lambda>x. am_id x \<noteq> am_id m \<and> am_kind x = CASHBACK_PAID_OUT \<and>
       am_companyId x = am_companyId m \<and> am_reference x = am_reference m) ms"

definition movement_of :: "create_movement_input \<Rightarrow> oid \<Rightarrow> oid \<Rightarrow> account_movement" where
  "movement_of input companyId i =
     \<lparr>am_id = i, am_companyId = companyId, am_kind = mi_kind input, am_amount = mi_amount input,
      am_sourceInvoiceId = mi_sourceInvoiceId input, am_appliedRate = mi_appliedRate input,
      am_appliedBasis = mi_appliedBasis input, am_method = mi_method input,
      am_reference = mi_reference input, am_documentFileId = mi_documentFileId input,
      am_state = mi_state input, am_confirmedBy = mi_confirmedBy input,
      am_confirmedAt = mi_confirmedAt input, am_reversalOfId = mi_reversalOfId input\<rparr>"

definition createMovement :: "create_movement_input \<Rightarrow> account_movement service" where
  "createMovement input =
     bnd (tenant_key (mi_companyId input)) (\<lambda>forced.
     bnd fresh_id (\<lambda>i.
     bnd (asks w_movements) (\<lambda>ms.
     bnd (guard (\<not> payout_clash (movement_of input forced i) ms) DuplicateKey) (\<lambda>_.
     bnd (insert_doc w_movements_update (movement_of input forced i)) (\<lambda>_.
     bnd (guard (\<not> payout_clash (movement_of input (mi_companyId input) i) ms) DuplicateKey) (\<lambda>_.
     bnd (find_and_update w_movements w_movements_update am_id movement_scoping i (\<lambda>_. True)
            (\<lambda>m. m\<lparr>am_companyId := mi_companyId input\<rparr>)) (\<lambda>_.
     ret (movement_of input forced i))))))))"

definition plain_input :: "oid \<Rightarrow> account_movement_kind \<Rightarrow> rat \<Rightarrow> account_movement_state \<Rightarrow> create_movement_input" where
  "plain_input companyId kind amount state =
     \<lparr>mi_companyId = companyId, mi_kind = kind, mi_amount = amount, mi_state = state,
      mi_sourceInvoiceId = None, mi_appliedRate = None, mi_appliedBasis = None, mi_method = None,
      mi_reference = None, mi_documentFileId = None, mi_reversalOfId = None,
      mi_confirmedBy = None, mi_confirmedAt = None\<rparr>"

text \<open>In JavaScript the empty string is falsy, so an empty reference is no evidence.\<close>

definition recordPayment ::
  "oid \<Rightarrow> rat \<Rightarrow> settlement_method \<Rightarrow> string option \<Rightarrow> oid option \<Rightarrow> account_movement service" where
  "recordPayment companyId amount method reference documentFileId =
     bnd (guard (\<not> ((reference = None \<or> reference = Some []) \<and> documentFileId = None))
            (BadRequest (Some PAYMENT_EVIDENCE_REQUIRED))) (\<lambda>_.
     createMovement ((plain_input companyId PAYMENT_RECORDED amount RECORDED)
       \<lparr>mi_method := Some method, mi_reference := reference, mi_documentFileId := documentFileId\<rparr>))"

definition signed_amount :: "account_movement \<Rightarrow> rat" where
  "signed_amount m = (if am_reversalOfId m \<noteq> None then - am_amount m else am_amount m)"

definition getConfirmedBalance :: "oid \<Rightarrow> account_movement_kind \<Rightarrow> rat service" where
  "getConfirmedBalance companyId kind =
     bnd (tenant_key companyId) (\<lambda>c.
     bnd (find_all w_movements movement_scoping
            (\<lambda>m. am_companyId m = c \<and> am_kind m = kind \<and> am_state m = CONFIRMED)) (\<lambda>ms.
     ret (foldl (\<lambda>sum m. sum + signed_amount m) 0 ms)))"

definition getCashbackOwed :: "oid \<Rightarrow> rat service" where
  "getCashbackOwed companyId =
     bnd (getConfirmedBalance companyId CASHBACK_CREDITED) (\<lambda>credited.
     bnd (getConfirmedBalance companyId CASHBACK_PAID_OUT) (\<lambda>paidOut.
     ret (credited - paidOut)))"

definition recordCashbackPayout ::
  "oid \<Rightarrow> rat \<Rightarrow> settlement_method \<Rightarrow> string \<Rightarrow> oid option \<Rightarrow> oid \<Rightarrow> account_movement service" where
  "recordCashbackPayout companyId amount method reference documentFileId confirmedBy =
     try_catch
       (transaction
         (bnd (getCashbackOwed companyId) (\<lambda>owed.
          bnd (guard (\<not> amount > owed) (Conflict (Some CASHBACK_PAYOUT_EXCEEDS_BALANCE))) (\<lambda>_.
          bnd (asks w_now) (\<lambda>now.
          createMovement ((plain_input companyId CASHBACK_PAID_OUT amount CONFIRMED)
            \<lparr>mi_method := Some method, mi_reference := Some reference,
              mi_documentFileId := documentFileId, mi_confirmedBy := Some confirmedBy,
              mi_confirmedAt := Some now\<rparr>))))))
       (\<lambda>e. throw (if e = DuplicateKey then Conflict (Some CASHBACK_PAYOUT_DUPLICATE_REFERENCE) else e))"

definition confirmPayment :: "oid \<Rightarrow> oid \<Rightarrow> account_movement service" where
  "confirmPayment i confirmedBy =
     bnd (asks w_now) (\<lambda>now.
     bnd (find_and_update w_movements w_movements_update am_id movement_scoping i
            (\<lambda>m. am_kind m = PAYMENT_RECORDED \<and> am_state m = RECORDED)
            (\<lambda>m. m\<lparr>am_state := CONFIRMED, am_confirmedBy := Some confirmedBy, am_confirmedAt := Some now\<rparr>)) (\<lambda>result.
     demand (Conflict (Some PAYMENT_ALREADY_CONFIRMED)) result))"

definition reversal_input :: "account_movement \<Rightarrow> create_movement_input" where
  "reversal_input original = (plain_input (am_companyId original) (am_kind original) (am_amount original) CONFIRMED)
     \<lparr>mi_sourceInvoiceId := am_sourceInvoiceId original, mi_appliedRate := am_appliedRate original,
       mi_appliedBasis := am_appliedBasis original, mi_reversalOfId := Some (am_id original)\<rparr>"

definition reverseMovementsForInvoice :: "oid \<Rightarrow> unit service" where
  "reverseMovementsForInvoice invoiceId =
     bnd (find_all w_movements movement_scoping
            (\<lambda>m. am_sourceInvoiceId m = Some invoiceId \<and> am_state m = CONFIRMED \<and> am_reversalOfId m = None)) (\<lambda>originals.
     bnd (find_all w_movements movement_scoping
            (\<lambda>m. am_reversalOfId m \<in> Some ` am_id ` set originals)) (\<lambda>alreadyReversed.
     for_each originals (\<lambda>original.
       if Some (am_id original) \<in> am_reversalOfId ` set alreadyReversed then ret ()
       else bnd (createMovement (reversal_input original)) (\<lambda>_. ret ()))))"

section \<open>What creating a movement does\<close>

lemma foldl_sum: "foldl (\<lambda>sum m. sum + f m) (a::rat) ms = a + sum_list (map f ms)"
  by (induction ms arbitrary: a) (simp_all add: add.assoc)

lemma tenant_key_inv [prog_inv]:
  "tenant_key c s = (Inr r, s') \<longleftrightarrow> s' = s \<and> (\<exists>own. resolveCompanyId (w_scope s) = Inr own \<and>
     r = (case own of None \<Rightarrow> c | Some x \<Rightarrow> x))"
  "tenant_key c s = (Inl e, s') \<longleftrightarrow> s' = s \<and> resolveCompanyId (w_scope s) = Inl e"
  by (auto simp: tenant_key_def prog_inv)

lemma tenant_key_state: "tenant_key c s = (r, s') \<Longrightarrow> s' = s"
  by (cases r) (auto simp: prog_inv)

lemma tenant_key_visible:
  assumes "tenant_key c s = (Inr forced, s)" "tenant_scoped owner (w_scope s) = Inr v" "owner d = Some forced"
  shows "v d"
proof -
  from assms(1) obtain own where own: "resolveCompanyId (w_scope s) = Inr own"
      "forced = (case own of None \<Rightarrow> c | Some x \<Rightarrow> x)" by (auto simp: prog_inv)
  with assms(2,3) show ?thesis by (cases own) (auto simp: tenant_scoped_def)
qed

text \<open>The net effect: one more movement, owned by the company the caller named, whatever
  company the plugin forced on it first.\<close>

lemma createMovement_ok:
  assumes run: "createMovement input s = (Inr mv, s')"
    and fresh: "\<forall>m \<in> set (w_movements s). am_id m < w_next_id s"
  shows "s' = s\<lparr>w_next_id := Suc (w_next_id s),
      w_movements := w_movements s @ [movement_of input (mi_companyId input) (w_next_id s)]\<rparr>
    \<and> \<not> payout_clash (movement_of input (mi_companyId input) (w_next_id s)) (w_movements s)"
proof -
  have none: "get_by am_id (w_next_id s) (w_movements s) = None"
    using fresh by (auto simp: get_by_None_iff)
  then have other: "upd_by am_id (w_next_id s) f (w_movements s) = w_movements s" for f
    by (rule upd_by_None)
  obtain forced r where
    s': "find_and_update w_movements w_movements_update am_id movement_scoping (w_next_id s) (\<lambda>_. True)
       (\<lambda>m. m\<lparr>am_companyId := mi_companyId input\<rparr>)
       (w_movements_update (\<lambda>ds. ds @ [movement_of input forced (w_next_id s)])
          (s\<lparr>w_next_id := Suc (w_next_id s)\<rparr>)) = (Inr r, s')"
    and key: "tenant_key (mi_companyId input) s = (Inr forced, s)"
    and clash: "\<not> payout_clash (movement_of input (mi_companyId input) (w_next_id s)) (w_movements s)"
    using run by (auto simp: createMovement_def prog_inv)
  let ?m = "movement_of input forced (w_next_id s)"
  have get: "get_by am_id (w_next_id s) (w_movements s @ [?m]) = Some ?m"
    by (simp add: get_by_snoc none) (simp add: movement_of_def)
  have "r \<noteq> None"
  proof
    assume "r = None"
    with s' get obtain v where "movement_scoping (w_scope s) = Inr v" "\<not> v ?m" by (auto simp: prog_inv)
    moreover have "Some (am_companyId ?m) = Some forced" by (simp add: movement_of_def)
    ultimately show False
      using tenant_key_visible [OF key, of "\<lambda>d. Some (am_companyId d)" v ?m] by simp
  qed
  then obtain d where "r = Some d" by blast
  with s' have "s' = w_movements_update (upd_by am_id (w_next_id s) (\<lambda>m. m\<lparr>am_companyId := mi_companyId input\<rparr>))
      (w_movements_update (\<lambda>ds. ds @ [?m]) (s\<lparr>w_next_id := Suc (w_next_id s)\<rparr>))"
    by (auto simp: prog_inv)
  with clash other show ?thesis
    by (simp add: upd_by_def movement_of_def)
qed

lemma createMovement_err:
  assumes "createMovement input s = (Inl e, s')"
  shows "e = DuplicateKey \<or> e = IsolationViolation"
  using assms by (auto simp: createMovement_def prog_inv dest: tenant_plugin.fails_closed)
    (auto simp: scope_defs split: scope_splits)

lemma keeps_tenant_key [intro, simp]: "keeps P (tenant_key c)"
  unfolding tenant_key_def by (intro keeps_bnd keeps_basic)

lemma keeps_createMovement:
  assumes "\<And>s g. P s \<Longrightarrow> P (w_movements_update g s)" "\<And>s. P s \<Longrightarrow> P (s\<lparr>w_next_id := Suc (w_next_id s)\<rparr>)"
  shows "keeps P (createMovement input)"
  unfolding createMovement_def
  by (intro keeps_bnd keeps_basic keeps_tenant_key keeps_fresh_id keeps_insert_doc keeps_find_and_update assms)

lemma keeps_reverseMovements:
  assumes "\<And>s g. P s \<Longrightarrow> P (w_movements_update g s)" "\<And>s. P s \<Longrightarrow> P (s\<lparr>w_next_id := Suc (w_next_id s)\<rparr>)"
  shows "keeps P (reverseMovementsForInvoice iv)"
  unfolding reverseMovementsForInvoice_def
  by (intro keeps_bnd keeps_reads keeps_for_each keeps_if keeps_basic keeps_createMovement assms)

section \<open>The ledger invariant\<close>

definition mirrors :: "account_movement \<Rightarrow> account_movement \<Rightarrow> bool" where
  "mirrors r original \<longleftrightarrow> am_reversalOfId r = Some (am_id original) \<and> am_reversalOfId original = None \<and>
     am_state original = CONFIRMED \<and> am_state r = CONFIRMED \<and>
     am_companyId r = am_companyId original \<and> am_kind r = am_kind original \<and>
     am_amount r = am_amount original \<and> am_sourceInvoiceId r = am_sourceInvoiceId original"

definition ledger_ok :: "world \<Rightarrow> bool" where
  "ledger_ok s \<longleftrightarrow> distinct (map am_id (w_movements s)) \<and>
     (\<forall>m \<in> set (w_movements s). am_id m < w_next_id s) \<and>
     (\<forall>m \<in> set (w_movements s). am_reversalOfId m \<noteq> None \<longrightarrow>
        (\<exists>original \<in> set (w_movements s). mirrors m original)) \<and>
     (\<forall>m1 \<in> set (w_movements s). \<forall>m2 \<in> set (w_movements s).
        am_reversalOfId m1 \<noteq> None \<longrightarrow> am_reversalOfId m1 = am_reversalOfId m2 \<longrightarrow> m1 = m2)"

definition is_reversed :: "world \<Rightarrow> account_movement \<Rightarrow> bool" where
  "is_reversed s original \<longleftrightarrow> Some (am_id original) \<in> am_reversalOfId ` set (w_movements s)"

lemma ledger_fresh: "ledger_ok s \<Longrightarrow> \<forall>m \<in> set (w_movements s). am_id m < w_next_id s"
  by (simp add: ledger_ok_def)

lemma ledger_ok_append:
  assumes ok: "ledger_ok s" and id: "am_id m = w_next_id s"
    and s': "w_movements s' = w_movements s @ [m]" "w_next_id s' = Suc (w_next_id s)"
    and rev: "am_reversalOfId m \<noteq> None \<Longrightarrow>
      (\<exists>original \<in> set (w_movements s). mirrors m original \<and> \<not> is_reversed s original)"
  shows "ledger_ok s'"
proof -
  have "am_reversalOfId m \<noteq> am_reversalOfId x" if "x \<in> set (w_movements s)" "am_reversalOfId m \<noteq> None" for x
  proof -
    from rev that(2) obtain original where "mirrors m original" "\<not> is_reversed s original" by blast
    with that(1) show ?thesis by (force simp: mirrors_def is_reversed_def)
  qed
  then have uniq: "\<forall>m1 \<in> set (w_movements s @ [m]). \<forall>m2 \<in> set (w_movements s @ [m]).
        am_reversalOfId m1 \<noteq> None \<longrightarrow> am_reversalOfId m1 = am_reversalOfId m2 \<longrightarrow> m1 = m2"
    using ok unfolding ledger_ok_def by (metis Un_iff empty_iff insert_iff list.set(1,2) set_append)
  have "distinct (map am_id (w_movements s @ [m]))"
    using ok id by (auto simp: ledger_ok_def)
  moreover have "\<forall>x \<in> set (w_movements s @ [m]). am_id x < Suc (w_next_id s)"
    using ledger_fresh [OF ok] id by auto
  moreover have "\<forall>x \<in> set (w_movements s @ [m]). am_reversalOfId x \<noteq> None \<longrightarrow>
        (\<exists>original \<in> set (w_movements s @ [m]). mirrors x original)"
  proof (intro ballI impI)
    fix x assume "x \<in> set (w_movements s @ [m])" "am_reversalOfId x \<noteq> None"
    then have "\<exists>original \<in> set (w_movements s). mirrors x original"
      using ok rev unfolding ledger_ok_def by (cases "x = m") auto
    then show "\<exists>original \<in> set (w_movements s @ [m]). mirrors x original" unfolding set_append by blast
  qed
  ultimately show ?thesis using uniq s' unfolding ledger_ok_def by simp
qed

lemma createMovement_ledger:
  assumes ok: "ledger_ok s" and run: "createMovement input s = (Inr mv, s')"
    and rev: "mi_reversalOfId input \<noteq> None \<Longrightarrow> \<exists>original \<in> set (w_movements s).
       input = reversal_input original \<and> am_state original = CONFIRMED \<and>
       am_reversalOfId original = None \<and> \<not> is_reversed s original"
  shows "ledger_ok s'"
proof (rule ledger_ok_append [OF ok])
  let ?m = "movement_of input (mi_companyId input) (w_next_id s)"
  have s': "s' = s\<lparr>w_next_id := Suc (w_next_id s), w_movements := w_movements s @ [?m]\<rparr>"
    using createMovement_ok [OF run ledger_fresh [OF ok]] by blast
  then show "w_movements s' = w_movements s @ [?m]" "w_next_id s' = Suc (w_next_id s)" by simp_all
  show "am_id ?m = w_next_id s" by (simp add: movement_of_def)
  show "am_reversalOfId ?m \<noteq> None \<Longrightarrow> \<exists>original \<in> set (w_movements s). mirrors ?m original \<and> \<not> is_reversed s original"
    using rev by (fastforce simp: movement_of_def mirrors_def reversal_input_def plain_input_def)
qed

text \<open>The signed total an invoice has put on a company's account, by kind.\<close>

definition invoice_net :: "world \<Rightarrow> oid \<Rightarrow> oid \<Rightarrow> account_movement_kind \<Rightarrow> rat" where
  "invoice_net s iv company kind =
     (\<Sum>m \<leftarrow> filter (\<lambda>m. am_sourceInvoiceId m = Some iv \<and> am_state m = CONFIRMED \<and>
        am_companyId m = company \<and> am_kind m = kind) (w_movements s). signed_amount m)"

definition original_of :: "world \<Rightarrow> account_movement \<Rightarrow> account_movement" where
  "original_of s r = the (get_by am_id (the (am_reversalOfId r)) (w_movements s))"

lemma original_of_mirrors:
  assumes "ledger_ok s" "r \<in> set (w_movements s)" "am_reversalOfId r \<noteq> None"
  shows "original_of s r \<in> set (w_movements s)" "mirrors r (original_of s r)"
proof -
  from assms obtain m where m: "m \<in> set (w_movements s)" "mirrors r m"
    unfolding ledger_ok_def by blast
  with assms(1) have "get_by am_id (am_id m) (w_movements s) = Some m"
    by (simp add: ledger_ok_def get_by_distinct)
  with m have "original_of s r = m" by (simp add: original_of_def mirrors_def)
  with m show "original_of s r \<in> set (w_movements s)" "mirrors r (original_of s r)" by simp_all
qed

lemma original_of_eq:
  assumes "ledger_ok s" "m \<in> set (w_movements s)" "am_reversalOfId r = Some (am_id m)"
  shows "original_of s r = m"
  using assms by (simp add: original_of_def ledger_ok_def get_by_distinct)

lemma original_of_bij:
  assumes ok: "ledger_ok s" and sub: "A \<subseteq> set (w_movements s)"
    and closed: "\<And>r. r \<in> A \<Longrightarrow> am_reversalOfId r \<noteq> None \<Longrightarrow> original_of s r \<in> A"
    and rev: "\<And>m. m \<in> A \<Longrightarrow> am_reversalOfId m = None \<Longrightarrow> \<exists>r \<in> A. am_reversalOfId r = Some (am_id m)"
  shows "bij_betw (original_of s) {m \<in> A. am_reversalOfId m \<noteq> None} {m \<in> A. am_reversalOfId m = None}"
  unfolding bij_betw_def
proof (intro conjI equalityI subsetI)
  show "inj_on (original_of s) {m \<in> A. am_reversalOfId m \<noteq> None}"
  proof (rule inj_onI)
    fix x y assume "x \<in> {m \<in> A. am_reversalOfId m \<noteq> None}" "y \<in> {m \<in> A. am_reversalOfId m \<noteq> None}"
      and eq: "original_of s x = original_of s y"
    with sub have xy: "x \<in> set (w_movements s)" "y \<in> set (w_movements s)" "am_reversalOfId x \<noteq> None" "am_reversalOfId y \<noteq> None"
      by auto
    with eq have "am_reversalOfId x = am_reversalOfId y"
      using original_of_mirrors(2) [OF ok] by (metis mirrors_def)
    with ok xy show "x = y" unfolding ledger_ok_def by blast
  qed
next
  fix x assume "x \<in> original_of s ` {m \<in> A. am_reversalOfId m \<noteq> None}"
  with sub closed original_of_mirrors(2) [OF ok] show "x \<in> {m \<in> A. am_reversalOfId m = None}"
    by (auto simp: mirrors_def subset_iff)
next
  fix m assume m: "m \<in> {m \<in> A. am_reversalOfId m = None}"
  with rev obtain r where r: "r \<in> A" "am_reversalOfId r = Some (am_id m)" by blast
  moreover from m sub r(2) have "original_of s r = m" by (intro original_of_eq [OF ok]) auto
  ultimately show "m \<in> original_of s ` {m \<in> A. am_reversalOfId m \<noteq> None}" by force
qed

lemma reversed_sum_zero:
  assumes ok: "ledger_ok s" and sub: "A \<subseteq> set (w_movements s)"
    and closed: "\<And>r. r \<in> A \<Longrightarrow> am_reversalOfId r \<noteq> None \<Longrightarrow> original_of s r \<in> A"
    and rev: "\<And>m. m \<in> A \<Longrightarrow> am_reversalOfId m = None \<Longrightarrow> \<exists>r \<in> A. am_reversalOfId r = Some (am_id m)"
  shows "sum signed_amount A = 0"
proof -
  let ?O = "{m \<in> A. am_reversalOfId m = None}" and ?R = "{m \<in> A. am_reversalOfId m \<noteq> None}"
  have fin: "finite A" using sub finite_subset by blast
  have "sum am_amount ?O = (\<Sum>r\<in>?R. am_amount (original_of s r))"
    using ok sub closed rev by (intro sum.reindex_bij_betw [symmetric] original_of_bij) blast+
  also have "\<dots> = sum am_amount ?R"
  proof (rule sum.cong [OF refl])
    fix r assume "r \<in> ?R"
    then have "r \<in> set (w_movements s)" "am_reversalOfId r \<noteq> None" using sub by blast+
    then have "mirrors r (original_of s r)" by (rule original_of_mirrors(2) [OF ok])
    then show "am_amount (original_of s r) = am_amount r" by (simp add: mirrors_def)
  qed
  finally have eq: "sum am_amount ?O = sum am_amount ?R" .
  from fin have "sum signed_amount A = sum signed_amount ?O + sum signed_amount ?R"
    by (rule sum_partition)
  also have "sum signed_amount ?O = sum am_amount ?O"
    by (rule sum.cong) (simp_all add: signed_amount_def)
  also have "sum signed_amount ?R = (\<Sum>m\<in>?R. - am_amount m)"
    by (rule sum.cong) (simp_all add: signed_amount_def)
  also have "\<dots> = - sum am_amount ?R" by (rule sum_negf)
  finally show ?thesis using eq by simp
qed

lemma invoice_net_reversed:
  assumes ok: "ledger_ok s"
    and all: "\<And>m. m \<in> set (w_movements s) \<Longrightarrow> am_sourceInvoiceId m = Some iv \<Longrightarrow> am_state m = CONFIRMED \<Longrightarrow>
      am_reversalOfId m = None \<Longrightarrow> is_reversed s m"
  shows "invoice_net s iv company kind = 0"
proof -
  let ?A = "{m \<in> set (w_movements s). am_sourceInvoiceId m = Some iv \<and> am_state m = CONFIRMED \<and>
        am_companyId m = company \<and> am_kind m = kind}"
  have "sum signed_amount ?A = 0"
  proof (rule reversed_sum_zero [OF ok])
    fix r assume "r \<in> ?A" "am_reversalOfId r \<noteq> None"
    with original_of_mirrors [OF ok] show "original_of s r \<in> ?A" by (auto simp: mirrors_def)
  next
    fix m assume m: "m \<in> ?A" "am_reversalOfId m = None"
    with all have "is_reversed s m" by blast
    then obtain r where r: "r \<in> set (w_movements s)" "am_reversalOfId r = Some (am_id m)"
      unfolding is_reversed_def by (metis imageE)
    with m original_of_eq [OF ok] have "original_of s r = m" by blast
    with r original_of_mirrors(2) [OF ok] have "mirrors r m" by force
    with r m show "\<exists>r \<in> ?A. am_reversalOfId r = Some (am_id m)" by (auto simp: mirrors_def)
  qed auto
  then show ?thesis
    using ok by (simp add: invoice_net_def sum_list_distinct_conv_sum_set ledger_ok_def distinct_map)
qed

section \<open>Reversing the movements of an invoice\<close>

abbreviation reverse_step :: "oid option set \<Rightarrow> account_movement \<Rightarrow> unit service" where
  "reverse_step seen original \<equiv>
     if Some (am_id original) \<in> seen then ret ()
     else bnd (createMovement (reversal_input original)) (\<lambda>_. ret ())"

lemma reverse_step_ok:
  assumes ok: "ledger_ok s" and run: "reverse_step seen original s = (Inr (), s')"
    and orig: "original \<in> set (w_movements s)" "am_state original = CONFIRMED" "am_reversalOfId original = None"
    and dn: "Some (am_id original) \<in> seen \<longleftrightarrow> is_reversed s original"
  shows "ledger_ok s' \<and> w_scope s' = w_scope s \<and> is_reversed s' original \<and>
    (w_movements s' = w_movements s \<or>
     (\<exists>r. w_movements s' = w_movements s @ [r] \<and> mirrors r original))"
proof (cases "Some (am_id original) \<in> seen")
  case True
  with run ok dn show ?thesis by (simp add: prog_inv)
next
  case False
  with run obtain mv where mv: "createMovement (reversal_input original) s = (Inr mv, s')"
    by (auto simp: prog_inv)
  let ?r = "movement_of (reversal_input original) (am_companyId original) (w_next_id s)"
  have comp: "mi_companyId (reversal_input original) = am_companyId original"
    by (simp add: reversal_input_def plain_input_def)
  have s': "s' = s\<lparr>w_next_id := Suc (w_next_id s), w_movements := w_movements s @ [?r]\<rparr>"
    using createMovement_ok [OF mv ledger_fresh [OF ok]] comp by simp
  have "ledger_ok s'"
    by (rule createMovement_ledger [OF ok mv]) (use orig dn False in blast)
  moreover have "mirrors ?r original"
    using orig by (simp add: mirrors_def movement_of_def reversal_input_def plain_input_def)
  ultimately show ?thesis using s' by (auto simp: is_reversed_def mirrors_def)
qed

lemma is_reversed_append:
  "w_movements s' = w_movements s @ [r] \<Longrightarrow>
     is_reversed s' m \<longleftrightarrow> is_reversed s m \<or> am_reversalOfId r = Some (am_id m)"
  by (auto simp: is_reversed_def)

lemma reverse_loop:
  assumes "ledger_ok s" "for_each os (reverse_step seen) s = (Inr (), s')"
    "set os \<subseteq> set (w_movements s)" "distinct (map am_id os)"
    "\<And>m. m \<in> set os \<Longrightarrow> am_state m = CONFIRMED \<and> am_reversalOfId m = None"
    "\<And>m. m \<in> set os \<Longrightarrow> Some (am_id m) \<in> seen \<longleftrightarrow> is_reversed s m"
  shows "ledger_ok s' \<and> w_scope s' = w_scope s \<and> (\<forall>m \<in> set os. is_reversed s' m) \<and>
    set (w_movements s) \<subseteq> set (w_movements s') \<and>
    (\<forall>r \<in> set (w_movements s') - set (w_movements s). \<exists>m \<in> set os. mirrors r m)"
  using assms
proof (induction os arbitrary: s)
  case Nil
  then show ?case by (simp add: prog_inv)
next
  case (Cons x xs)
  from Cons.prems(2) obtain s1 where s1: "reverse_step seen x s = (Inr (), s1)"
      "for_each xs (reverse_step seen) s1 = (Inr (), s')"
    by (auto simp: bnd_inv(1))
  have step: "ledger_ok s1 \<and> w_scope s1 = w_scope s \<and> is_reversed s1 x \<and>
    (w_movements s1 = w_movements s \<or> (\<exists>r. w_movements s1 = w_movements s @ [r] \<and> mirrors r x))"
    by (rule reverse_step_ok [OF Cons.prems(1) s1(1)]) (use Cons.prems(3,5,6) in auto)
  have sub: "set (w_movements s) \<subseteq> set (w_movements s1)" using step by auto
  have IH: "ledger_ok s' \<and> w_scope s' = w_scope s1 \<and> (\<forall>m \<in> set xs. is_reversed s' m) \<and>
    set (w_movements s1) \<subseteq> set (w_movements s') \<and>
    (\<forall>r \<in> set (w_movements s') - set (w_movements s1). \<exists>m \<in> set xs. mirrors r m)"
  proof (rule Cons.IH [OF _ s1(2)])
    fix m assume m: "m \<in> set xs"
    with Cons.prems(4) have "am_id m \<noteq> am_id x" by (metis distinct.simps(2) imageI list.set_map list.simps(9))
    with step have "is_reversed s1 m \<longleftrightarrow> is_reversed s m"
      by (auto simp: is_reversed_append mirrors_def) (auto simp: is_reversed_def)
    with m Cons.prems(6) show "Some (am_id m) \<in> seen \<longleftrightarrow> is_reversed s1 m" by simp
  qed (use step sub Cons.prems in auto)
  moreover have "is_reversed s' x" using IH step unfolding is_reversed_def by blast
  ultimately show ?case using step by (auto simp: subset_iff)
qed

definition sees_invoice_movements :: "world \<Rightarrow> oid \<Rightarrow> bool" where
  "sees_invoice_movements s iv \<longleftrightarrow> bypasses (w_scope s) \<or>
     (\<forall>m \<in> set (w_movements s). am_sourceInvoiceId m = Some iv \<longrightarrow> rs_companyId (w_scope s) = Some (am_companyId m))"

lemma sees_visible:
  assumes "sees_invoice_movements s iv" "movement_scoping (w_scope s) = Inr v"
    "m \<in> set (w_movements s)" "am_sourceInvoiceId m = Some iv"
  shows "v m"
  using assms by (intro tenant_plugin.vis_complete [OF assms(2)]) (auto simp: sees_invoice_movements_def)

lemma reverse_decompose:
  assumes ok: "ledger_ok s" and sees: "sees_invoice_movements s iv"
    and vis: "movement_scoping (w_scope s) = Inr v"
  shows "\<exists>os seen.
    set os = {m \<in> set (w_movements s). am_sourceInvoiceId m = Some iv \<and> am_state m = CONFIRMED \<and> am_reversalOfId m = None} \<and>
    distinct (map am_id os) \<and> (\<forall>m \<in> set os. Some (am_id m) \<in> seen \<longleftrightarrow> is_reversed s m) \<and>
    reverseMovementsForInvoice iv s = for_each os (reverse_step seen) s"
proof -
  let ?os = "filter (\<lambda>m. v m \<and> am_sourceInvoiceId m = Some iv \<and> am_state m = CONFIRMED \<and> am_reversalOfId m = None) (w_movements s)"
  let ?seen = "am_reversalOfId ` set (filter (\<lambda>m. v m \<and> am_reversalOfId m \<in> Some ` am_id ` set ?os) (w_movements s))"
  have os: "set ?os = {m \<in> set (w_movements s). am_sourceInvoiceId m = Some iv \<and> am_state m = CONFIRMED \<and> am_reversalOfId m = None}"
    using sees_visible [OF sees vis] by auto
  moreover have "distinct (map am_id ?os)"
    using ok by (simp add: ledger_ok_def distinct_map_filter)
  moreover have "Some (am_id m) \<in> ?seen \<longleftrightarrow> is_reversed s m" if m: "m \<in> set ?os" for m
  proof
    assume "is_reversed s m"
    then obtain r where r: "r \<in> set (w_movements s)" "am_reversalOfId r = Some (am_id m)"
      unfolding is_reversed_def by (metis imageE)
    then have "mirrors r m"
      using original_of_mirrors(2) [OF ok, of r] original_of_eq [OF ok, of m r] m by auto
    with m os have "am_sourceInvoiceId r = Some iv" by (simp add: mirrors_def)
    with r sees_visible [OF sees vis] have "v r" by blast
    with r m show "Some (am_id m) \<in> ?seen" by (simp add: image_iff) (metis r(2))
  qed (auto simp: is_reversed_def)
  moreover have "reverseMovementsForInvoice iv s = for_each ?os (reverse_step ?seen) s"
    using vis by (simp add: reverseMovementsForInvoice_def bnd_def find_all_def)
  ultimately show ?thesis by blast
qed

lemma reverse_noop:
  "(\<And>m. m \<in> set os \<Longrightarrow> Some (am_id m) \<in> seen) \<Longrightarrow> for_each os (reverse_step seen) s = (Inr (), s)"
  by (induction os) (auto simp: ret_def bnd_def)

definition all_reversed :: "world \<Rightarrow> oid \<Rightarrow> bool" where
  "all_reversed s iv \<longleftrightarrow> (\<forall>m \<in> set (w_movements s). am_sourceInvoiceId m = Some iv \<longrightarrow> am_state m = CONFIRMED \<longrightarrow>
     am_reversalOfId m = None \<longrightarrow> is_reversed s m)"

lemma reverse_post:
  assumes "ledger_ok s" and "sees_invoice_movements s iv"
    and "reverseMovementsForInvoice iv s = (Inr (), s')"
  shows "ledger_ok s' \<and> w_scope s' = w_scope s \<and> all_reversed s' iv \<and> sees_invoice_movements s' iv"
proof -
  from assms(3) obtain v where vis: "movement_scoping (w_scope s) = Inr v"
    by (auto simp: reverseMovementsForInvoice_def prog_inv)
  obtain os seen where os: "set os = {m \<in> set (w_movements s). am_sourceInvoiceId m = Some iv \<and> am_state m = CONFIRMED \<and> am_reversalOfId m = None}"
      "distinct (map am_id os)" "\<forall>m \<in> set os. Some (am_id m) \<in> seen \<longleftrightarrow> is_reversed s m"
    and run: "reverseMovementsForInvoice iv s = for_each os (reverse_step seen) s"
    using reverse_decompose [OF assms(1,2) vis] by blast
  have post: "ledger_ok s' \<and> w_scope s' = w_scope s \<and> (\<forall>m \<in> set os. is_reversed s' m) \<and>
    set (w_movements s) \<subseteq> set (w_movements s') \<and>
    (\<forall>r \<in> set (w_movements s') - set (w_movements s). \<exists>m \<in> set os. mirrors r m)"
    by (rule reverse_loop [OF assms(1) run [unfolded assms(3), symmetric] _ os(2)]) (use os in auto)
  have origin: "m \<in> set (w_movements s) \<or> (\<exists>x \<in> set os. mirrors m x)" if "m \<in> set (w_movements s')" for m
    using that post by blast
  have "is_reversed s' m" if "m \<in> set (w_movements s')" "am_sourceInvoiceId m = Some iv" "am_state m = CONFIRMED"
    "am_reversalOfId m = None" for m
    using origin [OF that(1)] that post os(1) by (auto simp: mirrors_def)
  moreover have "rs_companyId (w_scope s) = Some (am_companyId m)"
    if "\<not> bypasses (w_scope s)" "m \<in> set (w_movements s')" "am_sourceInvoiceId m = Some iv" for m
    using origin [OF that(2)] that assms(2) os(1) by (auto simp: sees_invoice_movements_def mirrors_def)
  ultimately show ?thesis using post by (auto simp: sees_invoice_movements_def all_reversed_def)
qed

lemma reverse_idem:
  assumes "ledger_ok s" "sees_invoice_movements s iv" "all_reversed s iv" "movement_scoping (w_scope s) = Inr v"
  shows "reverseMovementsForInvoice iv s = (Inr (), s)"
proof -
  obtain os seen where os: "set os = {m \<in> set (w_movements s). am_sourceInvoiceId m = Some iv \<and> am_state m = CONFIRMED \<and> am_reversalOfId m = None}"
      "\<forall>m \<in> set os. Some (am_id m) \<in> seen \<longleftrightarrow> is_reversed s m"
      "reverseMovementsForInvoice iv s = for_each os (reverse_step seen) s"
    using reverse_decompose [OF assms(1,2,4)] by blast
  have "Some (am_id m) \<in> seen" if "m \<in> set os" for m
    using that os(1,2) assms(3) unfolding all_reversed_def by blast
  then show ?thesis unfolding os(3) by (rule reverse_noop)
qed

text \<open>Reversing an invoice's movements, run by anyone who can see them, brings the net effect
  of that invoice on every company and kind to zero, keeps the ledger invariant, and is
  idempotent: running it again writes nothing.\<close>

theorem reversal_nets_to_zero:
  assumes "ledger_ok s" and "sees_invoice_movements s iv"
    and "reverseMovementsForInvoice iv s = (Inr (), s')"
  shows "ledger_ok s' \<and> invoice_net s' iv company kind = 0 \<and>
    reverseMovementsForInvoice iv s' = (Inr (), s')"
proof -
  from assms(3) obtain v where "movement_scoping (w_scope s) = Inr v"
    by (auto simp: reverseMovementsForInvoice_def prog_inv)
  with reverse_post [OF assms] reverse_idem [of s' iv v]
  have "ledger_ok s'" "reverseMovementsForInvoice iv s' = (Inr (), s')" by simp_all
  moreover from reverse_post [OF assms] have "invoice_net s' iv company kind = 0"
    by (intro invoice_net_reversed) (auto simp: all_reversed_def)
  ultimately show ?thesis by simp
qed

section \<open>Payments and cashback payouts\<close>

definition confirmed_total :: "world \<Rightarrow> oid \<Rightarrow> account_movement_kind \<Rightarrow> rat" where
  "confirmed_total s company kind =
     (\<Sum>m \<leftarrow> filter (\<lambda>m. am_companyId m = company \<and> am_kind m = kind \<and> am_state m = CONFIRMED) (w_movements s).
        signed_amount m)"

definition cashback_owed :: "world \<Rightarrow> oid \<Rightarrow> rat" where
  "cashback_owed s company = confirmed_total s company CASHBACK_CREDITED - confirmed_total s company CASHBACK_PAID_OUT"

lemma getConfirmedBalance_own:
  assumes "bypasses (w_scope s) \<or> (rs_role (w_scope s) \<noteq> None \<and> rs_companyId (w_scope s) = Some company)"
  shows "getConfirmedBalance company kind s = (Inr (confirmed_total s company kind), s)"
proof -
  have key: "tenant_key company s = (Inr company, s)"
    using assms by (auto simp: prog_inv scope_defs split: scope_splits)
  then obtain own where "resolveCompanyId (w_scope s) = Inr own" by (auto simp: prog_inv)
  then obtain v where v: "movement_scoping (w_scope s) = Inr v"
    by (cases own) (auto simp: tenant_scoped_def)
  have "v m" if "am_companyId m = company" for m
    using assms that by (intro tenant_plugin.vis_complete [OF v]) auto
  then have "filter (\<lambda>m. v m \<and> am_companyId m = company \<and> am_kind m = kind \<and> am_state m = CONFIRMED) (w_movements s)
     = filter (\<lambda>m. am_companyId m = company \<and> am_kind m = kind \<and> am_state m = CONFIRMED) (w_movements s)"
    by (intro filter_cong) auto
  with key v show ?thesis
    by (simp add: getConfirmedBalance_def bnd_def find_all_def ret_def foldl_sum confirmed_total_def)
qed

lemma getCashbackOwed_platform:
  "bypasses (w_scope s) \<Longrightarrow> getCashbackOwed company s = (Inr (cashback_owed s company), s)"
  by (simp add: getCashbackOwed_def getConfirmedBalance_own bnd_def ret_def cashback_owed_def)

abbreviation payout_input :: "oid \<Rightarrow> rat \<Rightarrow> settlement_method \<Rightarrow> string \<Rightarrow> oid option \<Rightarrow> oid \<Rightarrow> instant \<Rightarrow> create_movement_input" where
  "payout_input company amount method reference doc admin now \<equiv>
     (plain_input company CASHBACK_PAID_OUT amount CONFIRMED)
       \<lparr>mi_method := Some method, mi_reference := Some reference, mi_documentFileId := doc,
         mi_confirmedBy := Some admin, mi_confirmedAt := Some now\<rparr>"

lemma payout_okD:
  assumes "recordCashbackPayout company amount method reference doc admin s = (Inr mv, s')"
    and "bypasses (w_scope s)"
  shows "amount \<le> cashback_owed s company \<and>
    createMovement (payout_input company amount method reference doc admin (w_now s)) s = (Inr mv, s')"
  using assms by (auto simp: recordCashbackPayout_def prog_inv getCashbackOwed_platform)

lemma payout_errD:
  assumes "recordCashbackPayout company amount method reference doc admin s = (Inl e, s')"
    and "bypasses (w_scope s)"
  shows "e \<in> {Conflict (Some CASHBACK_PAYOUT_EXCEEDS_BALANCE), Conflict (Some CASHBACK_PAYOUT_DUPLICATE_REFERENCE),
      IsolationViolation} \<and> w_movements s' = w_movements s"
  using assms by (auto simp: recordCashbackPayout_def prog_inv getCashbackOwed_platform dest: createMovement_err)

text \<open>A recorded cashback payout never exceeds what is owed, lowers what is owed by exactly its
  amount (so the balance cannot go negative), and the same payment reference can never be paid
  out to that company again.\<close>

theorem cashback_payout_safe:
  assumes "ledger_ok s" and "bypasses (w_scope s)"
    and "recordCashbackPayout company amount method reference doc admin s = (Inr mv, s')"
  shows "ledger_ok s' \<and> cashback_owed s' company = cashback_owed s company - amount \<and>
    0 \<le> cashback_owed s' company \<and>
    (\<exists>e s''. recordCashbackPayout company amount2 method2 reference doc2 admin2 s' = (Inl e, s'') \<and>
       w_movements s'' = w_movements s')"
proof -
  let ?in = "payout_input company amount method reference doc admin (w_now s)"
  let ?m = "movement_of ?in company (w_next_id s)"
  from payout_okD [OF assms(3,2)] have le: "amount \<le> cashback_owed s company"
    and run: "createMovement ?in s = (Inr mv, s')" by blast+
  have ok': "ledger_ok s'"
    by (rule createMovement_ledger [OF assms(1) run]) (simp add: plain_input_def)
  have s': "s' = s\<lparr>w_next_id := Suc (w_next_id s), w_movements := w_movements s @ [?m]\<rparr>"
    using createMovement_ok [OF run ledger_fresh [OF assms(1)]] by (simp add: plain_input_def)
  then have "cashback_owed s' company = cashback_owed s company - amount"
    by (simp add: cashback_owed_def confirmed_total_def movement_of_def plain_input_def signed_amount_def)
  moreover have no: "recordCashbackPayout company amount2 method2 reference doc2 admin2 s' \<noteq> (Inr mv2, s'')" for mv2 s''
  proof
    assume again: "recordCashbackPayout company amount2 method2 reference doc2 admin2 s' = (Inr mv2, s'')"
    have "bypasses (w_scope s')" using s' assms(2) by simp
    from payout_okD [OF again this] have
      "createMovement (payout_input company amount2 method2 reference doc2 admin2 (w_now s')) s' = (Inr mv2, s'')"
      by blast
    from createMovement_ok [OF this ledger_fresh [OF ok']] s' show False
      by (auto simp: payout_clash_def movement_of_def plain_input_def)
  qed
  from no have "\<exists>e s''. recordCashbackPayout company amount2 method2 reference doc2 admin2 s' = (Inl e, s'')"
    by (metis obj_sumE prod.collapse)
  with payout_errD have conflict: "\<exists>e s''. recordCashbackPayout company amount2 method2 reference doc2 admin2 s' = (Inl e, s'') \<and>
      w_movements s'' = w_movements s'"
    using s' assms(2) by fastforce
  ultimately show ?thesis using le ok' conflict by simp
qed

section \<open>Concrete instances\<close>

definition ledger_world :: world where
  "ledger_world = empty_world\<lparr>w_movements :=
     [movement_of ((plain_input 1 COMMISSION_CHARGED 25 CONFIRMED)\<lparr>mi_sourceInvoiceId := Some 40\<rparr>) 1 50,
      movement_of ((plain_input 1 CASHBACK_CREDITED 30 CONFIRMED)\<lparr>mi_sourceInvoiceId := Some 41\<rparr>) 1 51]\<rparr>"

lemmas ledger_world_defs = ledger_world_def empty_world_def movement_of_def plain_input_def

lemma ledger_world_ok: "ledger_ok ledger_world" "bypasses (w_scope ledger_world)" "sees_invoice_movements ledger_world iv"
  by (auto simp: ledger_ok_def ledger_world_defs bypasses_def anonymous_def sees_invoice_movements_def)

theorem reversal_nets_to_zero_witness:
  "\<exists>s'. reverseMovementsForInvoice 40 ledger_world = (Inr (), s') \<and> invoice_net s' 40 1 COMMISSION_CHARGED = 0 \<and>
     length (w_movements s') = 3"
proof -
  obtain s' where run: "reverseMovementsForInvoice 40 ledger_world = (Inr (), s')" "length (w_movements s') = 3"
    by (simp add: reverseMovementsForInvoice_def createMovement_def prog_eval bnd_def tenant_key_def
        ledger_world_defs reversal_input_def payout_clash_def)
  with reversal_nets_to_zero [OF ledger_world_ok(1,3) run(1)] show ?thesis by blast
qed

theorem cashback_payout_safe_witness:
  "\<exists>mv s'. recordCashbackPayout 1 20 BANK_TRANSFER ''R1'' None 9 ledger_world = (Inr mv, s') \<and>
     cashback_owed s' 1 = 10"
proof -
  have "\<not> isl (fst (recordCashbackPayout 1 20 BANK_TRANSFER ''R1'' None 9 ledger_world))" by code_simp
  then obtain mv s' where run: "recordCashbackPayout 1 20 BANK_TRANSFER ''R1'' None 9 ledger_world = (Inr mv, s')"
    by (blast dest: run_succeeds)
  moreover have "cashback_owed ledger_world 1 = 30"
    by (simp add: cashback_owed_def confirmed_total_def ledger_world_defs signed_amount_def)
  ultimately show ?thesis
    using cashback_payout_safe [OF ledger_world_ok(1,2) run] by auto
qed

end
