(* ===== verification/Money.thy ===== *)
theory Money
  imports Domain
begin

text \<open>
  Money arithmetic: \<open>common/constants/money.constants.ts\<close> and
  \<open>common/pricing/derive-price-breakdown.ts\<close>, with the litre rounding of
  \<open>litre-balances.service.ts\<close>, which is the same function at three decimal places.

  \<open>Math.round v\<close> is \<open>floor (v + 1/2)\<close>.  Rounding is shown to be idempotent, monotone and
  within half a unit, so that a breakdown's components, each rounded on its own, sum to its
  total exactly.
\<close>

definition math_round :: "rat \<Rightarrow> int" where
  "math_round v = \<lfloor>v + 1 / 2\<rfloor>"

definition CURRENCY_DECIMAL_PLACES :: nat where
  "CURRENCY_DECIMAL_PLACES = 2"

definition roundCurrency :: "rat \<Rightarrow> rat" where
  "roundCurrency value =
     (let factor = 10 ^ CURRENCY_DECIMAL_PLACES in of_int (math_round (value * factor)) / factor)"

definition roundLitres :: "rat \<Rightarrow> rat" where
  "roundLitres value = of_int (math_round (value * 1000)) / 1000"

definition derivePriceBreakdown ::
  "rat \<Rightarrow> rat \<Rightarrow> rat option \<Rightarrow> rat \<Rightarrow> rat \<Rightarrow> price_breakdown" where
  "derivePriceBreakdown unitPrice quantityLiters deliveryFee serviceFeePercent taxRatePercent =
     (let fuelLineTotal = roundCurrency (unitPrice * quantityLiters);
          roundedDeliveryFee = map_option roundCurrency deliveryFee;
          fee = (case roundedDeliveryFee of None \<Rightarrow> 0 | Some d \<Rightarrow> d);
          serviceFee = roundCurrency ((fuelLineTotal * serviceFeePercent) / 100);
          tax = roundCurrency (((fuelLineTotal + fee + serviceFee) * taxRatePercent) / 100);
          total = roundCurrency (fuelLineTotal + fee + serviceFee + tax)
      in \<lparr>pb_fuelLineTotal = fuelLineTotal, pb_deliveryFee = roundedDeliveryFee,
          pb_serviceFee = serviceFee, pb_tax = tax, pb_total = total, pb_unitPrice = unitPrice,
          pb_serviceFeePercent = serviceFeePercent, pb_taxRatePercent = taxRatePercent\<rparr>)"

section \<open>The interface of a rounding function\<close>

text \<open>
  Both rounding functions send a number to the nearest multiple of a grid; what clients use of
  them follows from the law that they do, for any grid.
\<close>

locale grid_rounding =
  fixes rnd :: "rat \<Rightarrow> rat" and scale :: rat
  assumes scale_pos: "0 < scale"
    and rnd_grid: "rnd v = of_int (math_round (v * scale)) / scale"
begin

definition on_grid :: "rat \<Rightarrow> bool" where
  "on_grid v \<longleftrightarrow> (\<exists>k::int. v * scale = of_int k)"

lemma rnd_fixes_grid: "on_grid v \<Longrightarrow> rnd v = v"
proof -
  assume "on_grid v"
  then obtain k :: int where k: "v * scale = of_int k" by (auto simp: on_grid_def)
  have "\<lfloor>(of_int k :: rat) + 1 / 2\<rfloor> = k" by linarith
  with k scale_pos show ?thesis by (simp add: rnd_grid math_round_def field_simps)
qed

lemma rnd_on_grid: "on_grid (rnd v)"
  using scale_pos by (auto simp: on_grid_def rnd_grid)

lemma rnd_idem: "rnd (rnd v) = rnd v"
  by (simp add: rnd_fixes_grid rnd_on_grid)

lemma on_grid_add: "on_grid a \<Longrightarrow> on_grid b \<Longrightarrow> on_grid (a + b)"
  unfolding on_grid_def by (metis distrib_right of_int_add)

lemma on_grid_uminus: "on_grid a \<Longrightarrow> on_grid (- a)"
  unfolding on_grid_def by (metis mult_minus_left of_int_minus)

lemma on_grid_diff: "on_grid a \<Longrightarrow> on_grid b \<Longrightarrow> on_grid (a - b)"
  using on_grid_add [of a "- b"] on_grid_uminus by simp

lemma on_grid_zero: "on_grid 0"
  unfolding on_grid_def by (rule exI [of _ 0]) simp

lemma rnd_mono: "a \<le> b \<Longrightarrow> rnd a \<le> rnd b"
  using scale_pos
  by (simp add: rnd_grid math_round_def divide_right_mono floor_mono mult_right_mono)

lemma rnd_nonneg: "0 \<le> v \<Longrightarrow> 0 \<le> rnd v"
  using rnd_mono [of 0 v] rnd_fixes_grid [OF on_grid_zero] by simp

lemma rnd_close: "\<bar>rnd v - v\<bar> \<le> 1 / (2 * scale)"
proof -
  have "\<bar>of_int \<lfloor>v * scale + 1 / 2\<rfloor> - v * scale\<bar> \<le> 1 / 2"
    by linarith
  then have "\<bar>(of_int \<lfloor>v * scale + 1 / 2\<rfloor> - v * scale) / scale\<bar> \<le> (1 / 2) / scale"
    using scale_pos by (simp add: field_simps)
  then show ?thesis
    using scale_pos by (simp add: rnd_grid math_round_def diff_divide_distrib)
qed

lemma rnd_add_grid: "on_grid b \<Longrightarrow> rnd (a + b) = rnd a + b"
proof -
  assume "on_grid b"
  then obtain k :: int where k: "b * scale = of_int k" by (auto simp: on_grid_def)
  have "\<lfloor>a * scale + of_int k + 1 / 2\<rfloor> = \<lfloor>a * scale + 1 / 2\<rfloor> + k" by linarith
  with k have "math_round ((a + b) * scale) = math_round (a * scale) + k"
    by (simp add: math_round_def distrib_right)
  with k scale_pos show ?thesis by (simp add: rnd_grid field_simps)
qed

lemma on_grid_sum_list: "(\<And>x. x \<in> set xs \<Longrightarrow> on_grid x) \<Longrightarrow> on_grid (sum_list xs)"
  by (induction xs) (auto simp: on_grid_zero on_grid_add)

end

interpretation currency: grid_rounding roundCurrency 100
  by unfold_locales (simp_all add: roundCurrency_def CURRENCY_DECIMAL_PLACES_def)

interpretation litres: grid_rounding roundLitres 1000
  by unfold_locales (simp_all add: roundLitres_def)

lemmas currency_grid = currency.rnd_on_grid currency.on_grid_add currency.on_grid_zero

section \<open>Properties\<close>

text \<open>The delivery leg of a breakdown as a number: absent contributes nothing.\<close>

definition fee_of :: "price_breakdown \<Rightarrow> rat" where
  "fee_of b = (case pb_deliveryFee b of None \<Rightarrow> 0 | Some d \<Rightarrow> d)"

text \<open>The total of a derived breakdown is exactly the sum of its four stated components
  (fuel line, delivery fee where there is one, service fee, tax): the outer rounding of the
  total never changes the value.\<close>

theorem breakdown_total_is_sum:
  "pb_total (derivePriceBreakdown p q fee sf tx) =
     pb_fuelLineTotal (derivePriceBreakdown p q fee sf tx) + fee_of (derivePriceBreakdown p q fee sf tx)
     + pb_serviceFee (derivePriceBreakdown p q fee sf tx) + pb_tax (derivePriceBreakdown p q fee sf tx)"
  unfolding derivePriceBreakdown_def fee_of_def Let_def
  by (simp add: currency.rnd_fixes_grid currency_grid split: option.splits)

text \<open>Adding the transporter's fee never lowers what the order costs.\<close>

lemma breakdown_fee_monotone:
  assumes "0 \<le> d" "0 \<le> tx"
  shows "pb_total (derivePriceBreakdown p q None sf tx) \<le> pb_total (derivePriceBreakdown p q (Some d) sf tx)"
proof -
  have "0 \<le> roundCurrency d" using assms(1) by (rule currency.rnd_nonneg)
  moreover from this assms(2)
  have "roundCurrency (((roundCurrency (p * q) + 0 + s) * tx) / 100)
     \<le> roundCurrency (((roundCurrency (p * q) + roundCurrency d + s) * tx) / 100)" for s
    by (intro currency.rnd_mono divide_right_mono mult_right_mono) simp_all
  ultimately show ?thesis
    unfolding derivePriceBreakdown_def Let_def
    by (simp add: currency.rnd_fixes_grid currency_grid add_mono add_increasing2)
qed

end
