(* ===== verification/Litre_Balances.thy ===== *)
theory Litre_Balances
  imports Platform_Account Money
begin

text \<open>
  Litre balances: \<open>modules/litre-balances/litre-balances.service.ts\<close>.  A client's balance with a
  fuel company, per grade, is credited when a supplier delivered less than was ordered, debited
  when it delivered more, and drawn down by new orders.

  The invariant \<open>balances_ok\<close> says that the stored balance is the sum of its movements, that all
  of them are at three decimal places, and that each order has at most one reconciliation
  movement; every operation keeps it.
\<close>

section \<open>Operations\<close>

definition lb_key :: "litre_balance \<Rightarrow> oid \<times> oid \<times> fuel_type" where
  "lb_key d = (lb_companyId d, lb_clientId d, lb_fuelType d)"

record reconciliation_result =
  rr_shortfallLitres :: rat
  rr_balanceLitres :: rat
  rr_wentNegative :: bool

record drawdown_result =
  dd_litresDrawn :: rat
  dd_balanceRemaining :: rat

definition findOrNull :: "oid \<Rightarrow> oid \<Rightarrow> fuel_type \<Rightarrow> litre_balance option service" where
  "findOrNull companyId clientId fuelType =
     bnd (tenant_key companyId) (\<lambda>c. find_one w_balances lb_key balance_scoping (c, clientId, fuelType))"

definition getBalanceLitres :: "oid \<Rightarrow> oid \<Rightarrow> fuel_type \<Rightarrow> rat service" where
  "getBalanceLitres companyId clientId fuelType =
     bnd (findOrNull companyId clientId fuelType) (\<lambda>balance.
     ret (case balance of None \<Rightarrow> 0 | Some d \<Rightarrow> lb_balanceLitres d))"

definition new_movement ::
  "litre_movement_kind \<Rightarrow> rat \<Rightarrow> oid option \<Rightarrow> string option \<Rightarrow> oid \<Rightarrow> litre_movement service" where
  "new_movement kind litres orderId reason actorId =
     bnd fresh_id (\<lambda>i.
     bnd (asks w_now) (\<lambda>now.
     ret \<lparr>lm_id = i, lm_kind = kind, lm_litres = litres, lm_orderId = orderId, lm_reason = reason,
          lm_actorId = actorId, lm_at = now\<rparr>))"

text \<open>\<open>$inc\<close> of the balance with \<open>$push\<close> of the movement that explains it.\<close>

definition push_movement :: "litre_movement \<Rightarrow> litre_balance \<Rightarrow> litre_balance" where
  "push_movement mv d = d\<lparr>lb_balanceLitres := lb_balanceLitres d + lm_litres mv, lb_movements := lb_movements d @ [mv]\<rparr>"

definition reconcile_movement :: "oid \<Rightarrow> litre_movement \<Rightarrow> litre_balance \<Rightarrow> litre_balance" where
  "reconcile_movement orderId mv d =
     (push_movement mv d)\<lparr>lb_reconciledOrderIds := lb_reconciledOrderIds d @ [orderId]\<rparr>"

definition ensure_balance :: "oid \<Rightarrow> oid \<Rightarrow> fuel_type \<Rightarrow> unit service" where
  "ensure_balance companyId clientId fuelType =
     bnd (findOrNull companyId clientId fuelType) (\<lambda>found.
     case found of
       Some _ \<Rightarrow> ret ()
     | None \<Rightarrow>
         bnd fresh_id (\<lambda>i.
         bnd (asks w_balances) (\<lambda>ds.
         bnd (guard (\<not> list_ex (\<lambda>d. lb_key d = (companyId, clientId, fuelType)) ds) DuplicateKey) (\<lambda>_.
         insert_doc w_balances_update
           \<lparr>lb_id = i, lb_companyId = companyId, lb_clientId = clientId, lb_fuelType = fuelType,
            lb_balanceLitres = 0, lb_movements = [], lb_reconciledOrderIds = []\<rparr>))))"

definition recordReconciliation ::
  "oid \<Rightarrow> oid \<Rightarrow> fuel_type \<Rightarrow> oid \<Rightarrow> rat \<Rightarrow> rat \<Rightarrow> oid \<Rightarrow> reconciliation_result service" where
  "recordReconciliation companyId clientId fuelType orderId orderedLitres suppliedLitres actorId =
     (let shortfallLitres = roundLitres (orderedLitres - suppliedLitres)
      in if shortfallLitres = 0
         then bnd (getBalanceLitres companyId clientId fuelType) (\<lambda>balanceLitres.
              ret \<lparr>rr_shortfallLitres = 0, rr_balanceLitres = balanceLitres, rr_wentNegative = False\<rparr>)
         else
           bnd (ensure_balance companyId clientId fuelType) (\<lambda>_.
           bnd (new_movement (if shortfallLitres > 0 then SHORTFALL_CREDIT else EXCESS_DEBIT)
                  shortfallLitres (Some orderId) None actorId) (\<lambda>mv.
           bnd (tenant_key companyId) (\<lambda>c.
           bnd (asks w_balances) (\<lambda>ds.
           bnd (guard (\<not> list_ex (\<lambda>d. lb_key d \<noteq> (c, clientId, fuelType) \<and> orderId \<in> set (lb_reconciledOrderIds d)) ds)
                  DuplicateKey) (\<lambda>_.
           bnd (find_and_update w_balances w_balances_update lb_key balance_scoping (c, clientId, fuelType)
                  (\<lambda>d. orderId \<notin> set (lb_reconciledOrderIds d)) (reconcile_movement orderId mv)) (\<lambda>updated.
           case updated of
             Some d \<Rightarrow> ret \<lparr>rr_shortfallLitres = shortfallLitres, rr_balanceLitres = lb_balanceLitres d,
                            rr_wentNegative = (lb_balanceLitres d < 0)\<rparr>
           | None \<Rightarrow> throw (Conflict (Some SUPPLIER_INVOICE_ALREADY_RECORDED)))))))))"

definition reconciles :: "oid \<Rightarrow> litre_movement \<Rightarrow> bool" where
  "reconciles orderId m \<longleftrightarrow> lm_orderId m = Some orderId \<and> (lm_kind m = SHORTFALL_CREDIT \<or> lm_kind m = EXCESS_DEBIT)"

definition pull_movement :: "oid \<Rightarrow> litre_movement \<Rightarrow> litre_balance \<Rightarrow> litre_balance" where
  "pull_movement orderId prior d = d\<lparr>lb_balanceLitres := lb_balanceLitres d - lm_litres prior,
     lb_movements := filter (\<lambda>m. lm_id m \<noteq> lm_id prior) (lb_movements d),
     lb_reconciledOrderIds := filter (\<lambda>x. x \<noteq> orderId) (lb_reconciledOrderIds d)\<rparr>"

definition restateReconciliation ::
  "oid \<Rightarrow> oid \<Rightarrow> fuel_type \<Rightarrow> oid \<Rightarrow> rat \<Rightarrow> rat \<Rightarrow> oid \<Rightarrow> reconciliation_result service" where
  "restateReconciliation companyId clientId fuelType orderId orderedLitres suppliedLitres actorId =
     bnd (findOrNull companyId clientId fuelType) (\<lambda>existing.
     bnd (case existing of
            None \<Rightarrow> ret ()
          | Some d \<Rightarrow> (case find (reconciles orderId) (lb_movements d) of
              None \<Rightarrow> ret ()
            | Some prior \<Rightarrow>
                bnd (find_and_update w_balances w_balances_update lb_id balance_scoping (lb_id d)
                       (\<lambda>_. True) (pull_movement orderId prior)) (\<lambda>_. ret ()))) (\<lambda>_.
     recordReconciliation companyId clientId fuelType orderId orderedLitres suppliedLitres actorId))"

definition MAX_DRAWDOWN_ATTEMPTS :: nat where
  "MAX_DRAWDOWN_ATTEMPTS = 5"

primrec drawdown_loop ::
  "nat \<Rightarrow> oid \<Rightarrow> oid \<Rightarrow> fuel_type \<Rightarrow> oid \<Rightarrow> rat \<Rightarrow> oid \<Rightarrow> drawdown_result service" where
  "drawdown_loop 0 companyId clientId fuelType orderId requestedLitres actorId = throw (Conflict None)"
| "drawdown_loop (Suc attempts) companyId clientId fuelType orderId requestedLitres actorId =
     bnd (findOrNull companyId clientId fuelType) (\<lambda>current.
     case current of
       None \<Rightarrow> ret \<lparr>dd_litresDrawn = 0, dd_balanceRemaining = 0\<rparr>
     | Some d \<Rightarrow>
         (let availableLitres = lb_balanceLitres d in
          if availableLitres \<le> 0
          then ret \<lparr>dd_litresDrawn = 0, dd_balanceRemaining = max availableLitres 0\<rparr>
          else
           (let litresDrawn = roundLitres (min availableLitres requestedLitres) in
            if litresDrawn \<le> 0
            then ret \<lparr>dd_litresDrawn = 0, dd_balanceRemaining = availableLitres\<rparr>
            else
              bnd (new_movement ORDER_DRAWDOWN (- litresDrawn) (Some orderId) None actorId) (\<lambda>mv.
              bnd (find_and_update w_balances w_balances_update lb_id balance_scoping (lb_id d)
                     (\<lambda>x. lb_balanceLitres x = availableLitres) (push_movement mv)) (\<lambda>result.
              case result of
                Some x \<Rightarrow> ret \<lparr>dd_litresDrawn = litresDrawn, dd_balanceRemaining = lb_balanceLitres x\<rparr>
              | None \<Rightarrow> drawdown_loop attempts companyId clientId fuelType orderId requestedLitres actorId)))))"

definition drawdown ::
  "oid \<Rightarrow> oid \<Rightarrow> fuel_type \<Rightarrow> oid \<Rightarrow> rat \<Rightarrow> oid \<Rightarrow> drawdown_result service" where
  "drawdown = drawdown_loop MAX_DRAWDOWN_ATTEMPTS"

definition projectDrawdown :: "oid \<Rightarrow> oid \<Rightarrow> fuel_type \<Rightarrow> rat \<Rightarrow> drawdown_result service" where
  "projectDrawdown companyId clientId fuelType requestedLitres =
     bnd (getBalanceLitres companyId clientId fuelType) (\<lambda>availableLitres.
     (let litresDrawn = roundLitres (max 0 (min availableLitres requestedLitres))
      in ret \<lparr>dd_litresDrawn = litresDrawn, dd_balanceRemaining = roundLitres (availableLitres - litresDrawn)\<rparr>))"

definition of_order :: "oid \<Rightarrow> litre_movement_kind \<Rightarrow> litre_movement \<Rightarrow> bool" where
  "of_order orderId kind m \<longleftrightarrow> lm_orderId m = Some orderId \<and> lm_kind m = kind"

definition returnDrawdown :: "oid \<Rightarrow> oid \<Rightarrow> fuel_type \<Rightarrow> oid \<Rightarrow> oid \<Rightarrow> unit service" where
  "returnDrawdown companyId clientId fuelType orderId actorId =
     bnd (findOrNull companyId clientId fuelType) (\<lambda>balance.
     case balance of
       None \<Rightarrow> ret ()
     | Some d \<Rightarrow>
         if list_ex (of_order orderId DRAWDOWN_RETURNED) (lb_movements d) then ret ()
         else (case find (of_order orderId ORDER_DRAWDOWN) (lb_movements d) of
             None \<Rightarrow> ret ()
           | Some dd \<Rightarrow>
               bnd (new_movement DRAWDOWN_RETURNED (- lm_litres dd) (Some orderId) None actorId) (\<lambda>mv.
               bnd (find_and_update w_balances w_balances_update lb_id balance_scoping (lb_id d)
                      (\<lambda>_. True) (push_movement mv)) (\<lambda>_. ret ()))))"

definition recordCorrection :: "oid \<Rightarrow> rat \<Rightarrow> string \<Rightarrow> oid \<Rightarrow> litre_balance service" where
  "recordCorrection i litres reason actorId =
     bnd (guard (trim reason \<noteq> []) (BadRequest (Some BALANCE_CORRECTION_REASON_REQUIRED))) (\<lambda>_.
     bnd (find_one w_balances lb_id balance_scoping i) (\<lambda>existing.
     bnd (demand NotFound existing) (\<lambda>_.
     bnd (new_movement CORRECTION (roundLitres litres) None (Some (trim reason)) actorId) (\<lambda>mv.
     bnd (find_and_update w_balances w_balances_update lb_id balance_scoping i (\<lambda>_. True) (push_movement mv)) (\<lambda>updated.
     demand NotFound updated)))))"

definition listBalancesForCompany :: "oid option \<Rightarrow> litre_balance list service" where
  "listBalancesForCompany clientId = find_all w_balances balance_scoping
     (\<lambda>d. case clientId of None \<Rightarrow> True | Some c \<Rightarrow> lb_clientId d = c)"

section \<open>The invariant\<close>

definition balance_ok :: "oid \<Rightarrow> litre_balance \<Rightarrow> bool" where
  "balance_ok n d \<longleftrightarrow> lb_balanceLitres d = sum_list (map lm_litres (lb_movements d)) \<and>
     distinct (map lm_id (lb_movements d)) \<and>
     (\<forall>m \<in> set (lb_movements d). lm_id m < n \<and> litres.on_grid (lm_litres m)) \<and>
     (\<forall>orderId. length (filter (reconciles orderId) (lb_movements d)) =
        (if orderId \<in> set (lb_reconciledOrderIds d) then 1 else 0))"

definition balances_ok :: "world \<Rightarrow> bool" where
  "balances_ok s \<longleftrightarrow> distinct (map lb_id (w_balances s)) \<and> distinct (map lb_key (w_balances s)) \<and>
     (\<forall>d \<in> set (w_balances s). balance_ok (w_next_id s) d \<and> lb_id d < w_next_id s)"

lemma balance_ok_mono: "balance_ok n d \<Longrightarrow> n \<le> n' \<Longrightarrow> balance_ok n' d"
  by (auto simp: balance_ok_def)

lemma balance_ok_grid: "balance_ok n d \<Longrightarrow> litres.on_grid (lb_balanceLitres d)"
  by (force simp: balance_ok_def intro!: litres.on_grid_sum_list)

lemma push_movement_ok:
  assumes "balance_ok n d" "lm_id mv = n" "litres.on_grid (lm_litres mv)" "\<And>x. \<not> reconciles x mv"
  shows "balance_ok (Suc n) (push_movement mv d)"
  using assms by (force simp: balance_ok_def push_movement_def)

lemma reconcile_movement_ok:
  assumes "balance_ok n d" "lm_id mv = n" "litres.on_grid (lm_litres mv)" "orderId \<notin> set (lb_reconciledOrderIds d)"
    "\<And>x. reconciles x mv \<longleftrightarrow> x = orderId"
  shows "balance_ok (Suc n) (reconcile_movement orderId mv d)"
  using assms by (force simp: balance_ok_def push_movement_def reconcile_movement_def)

lemma filter_length_1:
  assumes "length (filter P xs) = 1" "find P xs = Some x" "y \<in> set xs" "P y"
  shows "y = x"
proof -
  from assms(1) obtain z where z: "filter P xs = [z]" by (auto simp: length_Suc_conv)
  from assms(2) have "x \<in> set (filter P xs)" by (auto simp: find_Some_iff)
  moreover from assms(3,4) have "y \<in> set (filter P xs)" by simp
  ultimately show ?thesis using z by auto
qed

lemma sum_list_remove_id:
  assumes "distinct (map lm_id ms)" "m \<in> set ms"
  shows "sum_list (map lm_litres (filter (\<lambda>x. lm_id x \<noteq> lm_id m) ms)) = sum_list (map lm_litres ms) - lm_litres m"
  using assms
proof (induction ms)
  case (Cons a ms)
  show ?case
  proof (cases "a = m")
    case True
    with Cons.prems have "lm_id m \<notin> lm_id ` set ms" by simp
    then have "filter (\<lambda>x. lm_id x \<noteq> lm_id m) ms = ms" by (intro filter_True ballI) (metis imageI)
    with True show ?thesis by simp
  next
    case False
    with Cons.prems have "m \<in> set ms" "lm_id a \<noteq> lm_id m" by auto
    with Cons show ?thesis by simp
  qed
qed simp

lemma pull_movement_ok:
  assumes ok: "balance_ok n d" and prior: "find (reconciles orderId) (lb_movements d) = Some prior"
  shows "balance_ok n (pull_movement orderId prior d) \<and> orderId \<notin> set (lb_reconciledOrderIds (pull_movement orderId prior d))"
proof -
  from prior have p: "prior \<in> set (lb_movements d)" "reconciles orderId prior" by (auto simp: find_Some_iff)
  then have "prior \<in> set (filter (reconciles orderId) (lb_movements d))" by simp
  then have "length (filter (reconciles orderId) (lb_movements d)) \<noteq> 0" by (auto simp: filter_empty_conv)
  with ok have one: "length (filter (reconciles orderId) (lb_movements d)) = 1"
    by (auto simp: balance_ok_def split: if_splits)
  have only: "lm_id m = lm_id prior" if "m \<in> set (lb_movements d)" "reconciles orderId m" for m
    using filter_length_1 [OF one prior that] by simp
  have other: "filter (reconciles x) (filter (\<lambda>m. lm_id m \<noteq> lm_id prior) (lb_movements d)) =
      (if x = orderId then [] else filter (reconciles x) (lb_movements d))" for x
  proof -
    have "lm_id m \<noteq> lm_id prior" if "m \<in> set (lb_movements d)" "reconciles x m" "x \<noteq> orderId" for m
    proof
      assume "lm_id m = lm_id prior"
      with ok p(1) that(1) have "m = prior" by (auto simp: balance_ok_def distinct_map inj_on_def)
      with p(2) that(2,3) show False by (auto simp: reconciles_def)
    qed
    with only show ?thesis by (auto simp: filter_empty_conv intro!: filter_cong)
  qed
  have count: "length (filter (reconciles x) (filter (\<lambda>m. lm_id m \<noteq> lm_id prior) (lb_movements d))) =
      (if x \<in> set (filter (\<lambda>y. y \<noteq> orderId) (lb_reconciledOrderIds d)) then 1 else 0)" for x
  proof -
    have "length (filter (reconciles x) (lb_movements d)) = (if x \<in> set (lb_reconciledOrderIds d) then 1 else 0)"
      using ok unfolding balance_ok_def by blast
    then show ?thesis unfolding other by (cases "x = orderId") simp_all
  qed
  then show ?thesis
    using ok p(1) unfolding balance_ok_def pull_movement_def
    by (simp add: sum_list_remove_id distinct_map_filter del: filter_filter)
qed

lemma balances_ok_upd:
  assumes ok: "balances_ok s" and get: "get_by key i (w_balances s) = Some d"
    and f: "balance_ok n (f d)" "\<And>x. lb_id (f x) = lb_id x" "\<And>x. lb_key (f x) = lb_key x"
    and s': "w_balances s' = upd_by key i f (w_balances s)" "w_next_id s \<le> n" "n \<le> w_next_id s'"
    and dist: "distinct (map key (w_balances s))"
  shows "balances_ok s'"
proof -
  have "balance_ok (w_next_id s') x \<and> lb_id x < w_next_id s'" if "x \<in> set (w_balances s')" for x
    using that unfolding s'(1)
  proof (rule all_upd_by [OF dist get, rotated 2])
    show "balance_ok (w_next_id s') (f d) \<and> lb_id (f d) < w_next_id s'"
      using ok get f(1,2) s'(2,3) balance_ok_mono by (fastforce simp: balances_ok_def dest: get_by_mem)
    show "balance_ok (w_next_id s') x \<and> lb_id x < w_next_id s'" if "x \<in> set (w_balances s)" for x
      using that ok s'(2,3) balance_ok_mono by (fastforce simp: balances_ok_def)
  qed
  with ok f(2,3) s'(1) show ?thesis by (simp add: balances_ok_def)
qed

lemma balances_keys: "balances_ok s \<Longrightarrow> distinct (map lb_id (w_balances s))" "balances_ok s \<Longrightarrow> distinct (map lb_key (w_balances s))"
  by (simp_all add: balances_ok_def)

lemma balances_ok_frame:
  "balances_ok s \<Longrightarrow> w_balances s' = w_balances s \<Longrightarrow> w_next_id s \<le> w_next_id s' \<Longrightarrow> balances_ok s'"
  by (fastforce simp: balances_ok_def intro: balance_ok_mono)

lemma balances_ok_next: "balances_ok s \<Longrightarrow> balances_ok (s\<lparr>w_next_id := Suc (w_next_id s)\<rparr>)"
  by (erule balances_ok_frame) simp_all

lemma lb_key_simps [simp]:
  "lb_key (push_movement mv d) = lb_key d" "lb_id (push_movement mv d) = lb_id d"
  "lb_key (reconcile_movement x mv d) = lb_key d" "lb_id (reconcile_movement x mv d) = lb_id d"
  "lb_key (pull_movement x mv d) = lb_key d" "lb_id (pull_movement x mv d) = lb_id d"
  by (simp_all add: lb_key_def push_movement_def reconcile_movement_def pull_movement_def)

lemma findOrNull_inv [prog_inv]:
  "findOrNull c u t s = (Inr (Some d), s') \<longleftrightarrow> s' = s \<and> (\<exists>own v. resolveCompanyId (w_scope s) = Inr own \<and>
     balance_scoping (w_scope s) = Inr v \<and> v d \<and>
     get_by lb_key (case own of None \<Rightarrow> c | Some x \<Rightarrow> x, u, t) (w_balances s) = Some d)"
  "findOrNull c u t s = (Inr None, s') \<longleftrightarrow> s' = s \<and> (\<exists>own v. resolveCompanyId (w_scope s) = Inr own \<and>
     balance_scoping (w_scope s) = Inr v \<and>
     (\<forall>d. get_by lb_key (case own of None \<Rightarrow> c | Some x \<Rightarrow> x, u, t) (w_balances s) = Some d \<longrightarrow> \<not> v d))"
  "findOrNull c u t s = (Inl e, s') \<longleftrightarrow> s' = s \<and> (\<exists>own. resolveCompanyId (w_scope s) = Inl e \<or>
     resolveCompanyId (w_scope s) = Inr own \<and> balance_scoping (w_scope s) = Inl e)"
  by (auto simp: findOrNull_def prog_inv)

lemma findOrNull_state: "findOrNull c u t s = (r, s') \<Longrightarrow> s' = s"
  by (cases r) (auto simp: findOrNull_def prog_inv dest: find_one_state)

lemma findOrNull_lookup:
  assumes "balances_ok s" "findOrNull c u t s = (Inr (Some d), s')"
  shows "get_by lb_id (lb_id d) (w_balances s) = Some d" "balance_ok (w_next_id s) d"
proof -
  from assms(2) have "d \<in> set (w_balances s)" by (auto simp: prog_inv dest: get_by_mem)
  with assms(1) show "get_by lb_id (lb_id d) (w_balances s) = Some d" "balance_ok (w_next_id s) d"
    by (auto simp: balances_ok_def intro: get_by_distinct)
qed

lemma new_movement_inv [prog_inv]:
  "new_movement k l i r a s = (Inr mv, s') \<longleftrightarrow> s' = s\<lparr>w_next_id := Suc (w_next_id s)\<rparr> \<and>
     mv = \<lparr>lm_id = w_next_id s, lm_kind = k, lm_litres = l, lm_orderId = i, lm_reason = r, lm_actorId = a, lm_at = w_now s\<rparr>"
  "new_movement k l i r a s = (Inl e, s') \<longleftrightarrow> False"
  by (auto simp: new_movement_def prog_inv)

text \<open>Pushing one movement that reconciles no order, by id.\<close>

lemma balances_ok_push:
  assumes ok: "balances_ok s" and get: "get_by lb_id i (w_balances s) = Some d"
    and mv: "lm_id mv = w_next_id s" "litres.on_grid (lm_litres mv)" "\<And>x. \<not> reconciles x mv"
    and s': "w_balances s' = upd_by lb_id i (push_movement mv) (w_balances s)" "w_next_id s' = Suc (w_next_id s)"
  shows "balances_ok s'"
proof (rule balances_ok_upd [OF ok get])
  have "balance_ok (w_next_id s) d" using ok get by (auto simp: balances_ok_def dest: get_by_mem)
  then show "balance_ok (Suc (w_next_id s)) (push_movement mv d)" using mv by (rule push_movement_ok)
qed (use ok s' balances_keys in simp_all)

lemma keeps_push:
  assumes "\<And>x. \<not> reconciles x \<lparr>lm_id = 0, lm_kind = k, lm_litres = l, lm_orderId = j, lm_reason = rs, lm_actorId = a, lm_at = 0\<rparr>"
    and "litres.on_grid l"
  shows "keeps balances_ok (bnd (new_movement k l j rs a) (\<lambda>mv.
     find_and_update w_balances w_balances_update lb_id balance_scoping i P (push_movement mv)))"
proof (rule keepsI)
  fix s r s' assume ok: "balances_ok s"
    and run: "bnd (new_movement k l j rs a) (\<lambda>mv.
     find_and_update w_balances w_balances_update lb_id balance_scoping i P (push_movement mv)) s = (r, s')"
  let ?s1 = "s\<lparr>w_next_id := Suc (w_next_id s)\<rparr>"
  let ?mv = "\<lparr>lm_id = w_next_id s, lm_kind = k, lm_litres = l, lm_orderId = j, lm_reason = rs, lm_actorId = a, lm_at = w_now s\<rparr>"
  from run have run': "find_and_update w_balances w_balances_update lb_id balance_scoping i P (push_movement ?mv) ?s1 = (r, s')"
    by (simp add: bnd_def new_movement_def fresh_id_def asks_def ret_def)
  show "balances_ok s'"
  proof (cases "s' = ?s1")
    case True
    with ok show ?thesis by (simp add: balances_ok_next)
  next
    case False
    with run' obtain d where d: "get_by lb_id i (w_balances s) = Some d"
        "s' = w_balances_update (upd_by lb_id i (push_movement ?mv)) ?s1"
      by (auto simp: find_and_update_def cas_def split: sum.splits option.splits if_splits)
    with ok assms show ?thesis
      by (intro balances_ok_push [OF ok d(1), of ?mv]) (auto simp: reconciles_def)
  qed
qed

section \<open>Every operation keeps the invariant\<close>

lemma keeps_findOrNull [intro, simp]: "keeps P (findOrNull c u t)"
  unfolding findOrNull_def by (intro keeps_bnd keeps_tenant_key keeps_reads)

lemma keeps_push_then:
  assumes "\<And>x. \<not> reconciles x \<lparr>lm_id = 0, lm_kind = k, lm_litres = l, lm_orderId = j, lm_reason = rs, lm_actorId = a, lm_at = 0\<rparr>"
    and "litres.on_grid l" and "\<And>x. keeps balances_ok (h x)"
  shows "keeps balances_ok (bnd (new_movement k l j rs a) (\<lambda>mv.
     bnd (find_and_update w_balances w_balances_update lb_id balance_scoping i P (push_movement mv)) h))"
  unfolding bnd_assoc [symmetric] by (intro keeps_bnd keeps_push assms)

lemma keeps_drawdown: "keeps balances_ok (drawdown_loop n c u t orderId q a)"
proof (induction n)
  case (Suc n)
  have "litres.on_grid (- roundLitres x)" for x by (intro litres.on_grid_uminus litres.rnd_on_grid)
  with Suc show ?case
    by (auto simp: Let_def reconciles_def intro!: keeps_bnd [OF keeps_findOrNull] keeps_option keeps_if keeps_push_then)
qed simp

lemma keeps_recordCorrection: "keeps balances_ok (recordCorrection i l reason a)"
  unfolding recordCorrection_def
  by (intro keeps_bnd keeps_reads keeps_basic keeps_push_then) (auto simp: reconciles_def litres.rnd_on_grid)

lemma keeps_returnDrawdown: "keeps balances_ok (returnDrawdown c u t orderId a)"
proof (rule keepsI)
  fix s r s' assume ok: "balances_ok s" and run: "returnDrawdown c u t orderId a s = (r, s')"
  show "balances_ok s'"
  proof (cases "s' = s")
    case False
    have "\<exists>d dd. findOrNull c u t s = (Inr (Some d), s) \<and> find (of_order orderId ORDER_DRAWDOWN) (lb_movements d) = Some dd \<and>
        bnd (new_movement DRAWDOWN_RETURNED (- lm_litres dd) (Some orderId) None a) (\<lambda>mv.
               bnd (find_and_update w_balances w_balances_update lb_id balance_scoping (lb_id d)
                      (\<lambda>_. True) (push_movement mv)) (\<lambda>_. ret ())) s = (r, s')"
    proof (cases "findOrNull c u t s")
      case (Pair x s1)
      then have "s1 = s" by (rule findOrNull_state)
      with Pair False run show ?thesis
        by (auto simp: returnDrawdown_def bnd_def [of "findOrNull c u t"] ret_def split: sum.splits option.splits if_splits)
    qed
    then obtain d dd where d: "findOrNull c u t s = (Inr (Some d), s)" and dd: "find (of_order orderId ORDER_DRAWDOWN) (lb_movements d) = Some dd"
      and go: "bnd (new_movement DRAWDOWN_RETURNED (- lm_litres dd) (Some orderId) None a) (\<lambda>mv.
               bnd (find_and_update w_balances w_balances_update lb_id balance_scoping (lb_id d)
                      (\<lambda>_. True) (push_movement mv)) (\<lambda>_. ret ())) s = (r, s')" by blast
    have "dd \<in> set (lb_movements d)" using dd by (auto simp: find_Some_iff)
    with findOrNull_lookup(2) [OF ok d] have "litres.on_grid (- lm_litres dd)"
      by (auto simp: balance_ok_def intro: litres.on_grid_uminus)
    then show ?thesis
      by (intro keepsD [OF keeps_push_then go ok]) (auto simp: reconciles_def)
  qed (use ok in simp)
qed

lemma keeps_ensure_balance: "keeps balances_ok (ensure_balance c u t)"
proof (rule keepsI)
  fix s r s' assume ok: "balances_ok s" and run: "ensure_balance c u t s = (r, s')"
  let ?d = "\<lparr>lb_id = w_next_id s, lb_companyId = c, lb_clientId = u, lb_fuelType = t, lb_balanceLitres = 0,
     lb_movements = [], lb_reconciledOrderIds = []\<rparr>"
  let ?s1 = "s\<lparr>w_next_id := Suc (w_next_id s)\<rparr>"
  obtain y where y: "findOrNull c u t s = (y, s)" using findOrNull_state by (cases "findOrNull c u t s") blast
  from run have "s' = s \<or> s' = ?s1 \<or>
      s' = w_balances_update (\<lambda>ds. ds @ [?d]) ?s1 \<and> (c, u, t) \<notin> lb_key ` set (w_balances s)"
    by (auto simp: ensure_balance_def bnd_def y fresh_id_def asks_def guard_def insert_doc_def modify_def ret_def
        list_ex_iff split: sum.splits option.splits if_splits)
  then consider "s' = s" | "s' = ?s1"
    | "s' = w_balances_update (\<lambda>ds. ds @ [?d]) ?s1" "(c, u, t) \<notin> lb_key ` set (w_balances s)"
    by blast
  then show "balances_ok s'"
  proof cases
    case 3
    have "balance_ok (Suc (w_next_id s)) ?d" by (simp add: balance_ok_def)
    moreover have "w_next_id s \<notin> lb_id ` set (w_balances s)" using ok by (auto simp: balances_ok_def)
    moreover have "lb_key ?d = (c, u, t)" by (simp add: lb_key_def)
    ultimately show ?thesis
      using 3 balances_ok_next [OF ok] by (auto simp: balances_ok_def)
  qed (use ok balances_ok_next in simp_all)
qed

lemma keeps_recordReconciliation:
  "keeps balances_ok (recordReconciliation c u t orderId q x a)"
proof (rule keepsI)
  fix s r s' assume ok: "balances_ok s" and run: "recordReconciliation c u t orderId q x a s = (r, s')"
  let ?l = "roundLitres (q - x)"
  show "balances_ok s'"
  proof (cases "?l = 0")
    case True
    with run have "s' = s"
      by (cases r) (auto simp: recordReconciliation_def Let_def getBalanceLitres_def prog_inv dest: findOrNull_state)
    with ok show ?thesis by simp
  next
    case False
    obtain y s1 where ens: "ensure_balance c u t s = (y, s1)" by (cases "ensure_balance c u t s")
    then have ok1: "balances_ok s1" using keepsD [OF keeps_ensure_balance _ ok] by blast
    let ?mv = "\<lparr>lm_id = w_next_id s1, lm_kind = (if ?l > 0 then SHORTFALL_CREDIT else EXCESS_DEBIT), lm_litres = ?l,
       lm_orderId = Some orderId, lm_reason = None, lm_actorId = a, lm_at = w_now s1\<rparr>"
    let ?s2 = "s1\<lparr>w_next_id := Suc (w_next_id s1)\<rparr>"
    obtain y2 where key: "tenant_key c ?s2 = (y2, ?s2)"
      using tenant_key_state by (cases "tenant_key c ?s2") blast
    from run False have "s' = s1 \<or> s' = ?s2 \<or>
       (\<exists>K d. get_by lb_key K (w_balances s1) = Some d \<and> orderId \<notin> set (lb_reconciledOrderIds d) \<and>
          s' = w_balances_update (upd_by lb_key K (reconcile_movement orderId ?mv)) ?s2)"
      unfolding recordReconciliation_def Let_def
      by (simp add: bnd_def ens new_movement_def fresh_id_def key asks_def guard_def find_and_update_def cas_def ret_def throw_def
          split: sum.splits option.splits if_splits) auto
    then consider "s' = s1" | "s' = ?s2"
      | K d where "get_by lb_key K (w_balances s1) = Some d" "orderId \<notin> set (lb_reconciledOrderIds d)"
          "s' = w_balances_update (upd_by lb_key K (reconcile_movement orderId ?mv)) ?s2"
      by blast
    then show ?thesis
    proof cases
      case (3 K d)
      have "balance_ok (w_next_id s1) d" using ok1 3(1) by (auto simp: balances_ok_def dest: get_by_mem)
      then have "balance_ok (Suc (w_next_id s1)) (reconcile_movement orderId ?mv d)"
        using 3(2) by (intro reconcile_movement_ok) (auto simp: reconciles_def litres.rnd_on_grid)
      then show ?thesis
        by (rule balances_ok_upd [OF ok1 3(1)]) (use 3(3) balances_keys [OF ok1] in simp_all)
    qed (use ok1 balances_ok_next in simp_all)
  qed
qed

lemma keeps_restateReconciliation: "keeps balances_ok (restateReconciliation c u t orderId q x a)"
proof (rule keepsI)
  fix s r s' assume ok: "balances_ok s" and run: "restateReconciliation c u t orderId q x a s = (r, s')"
  have pull: "balances_ok (w_balances_update (upd_by lb_id (lb_id d) (pull_movement orderId prior)) s)"
    if d: "findOrNull c u t s = (Inr (Some d), s)" "find (reconciles orderId) (lb_movements d) = Some prior" for d prior
    by (rule balances_ok_upd [OF ok findOrNull_lookup(1) [OF ok d(1)]])
      (use pull_movement_ok [OF findOrNull_lookup(2) [OF ok d(1)] d(2)] balances_keys [OF ok] in auto)
  from run obtain s1 where "balances_ok s1" "s' = s1 \<or> recordReconciliation c u t orderId q x a s1 = (r, s')"
  proof (cases "findOrNull c u t s")
    case (Pair y s0)
    then have "s0 = s" by (rule findOrNull_state)
    with Pair run show thesis
      using that [OF ok] that [OF pull]
      by (auto simp: restateReconciliation_def bnd_def [of "findOrNull c u t"] find_and_update_def cas_def bnd_def ret_def
          split: sum.splits option.splits if_splits)
  qed
  then show "balances_ok s'" using keepsD [OF keeps_recordReconciliation] by blast
qed

section \<open>Properties\<close>

text \<open>Every operation on litre balances, whether it succeeds or throws, keeps the invariant:
  each balance is the sum of its movements, at three decimal places, with at most one
  reconciliation movement per order.\<close>

theorem litre_operations_keep_balances_ok:
  "keeps balances_ok (recordReconciliation c u t orderId q x a) \<and>
   keeps balances_ok (restateReconciliation c u t orderId q x a) \<and>
   keeps balances_ok (drawdown c u t orderId q a) \<and>
   keeps balances_ok (returnDrawdown c u t orderId a) \<and>
   keeps balances_ok (recordCorrection i q reason a)"
  unfolding drawdown_def
  by (intro conjI keeps_recordReconciliation keeps_restateReconciliation keeps_drawdown keeps_returnDrawdown
      keeps_recordCorrection)

definition balance_of :: "litre_balance option \<Rightarrow> rat" where
  "balance_of found = (case found of None \<Rightarrow> 0 | Some d \<Rightarrow> lb_balanceLitres d)"

lemma balance_scoping_owner:
  assumes "balance_scoping ctx = Inr v" "lb_companyId d' = lb_companyId d"
  shows "v d' \<longleftrightarrow> v d"
  using assms by (auto simp: tenant_scoped_def split: sum.splits option.splits)

text \<open>After an update of a found balance by id, the same lookup finds the updated document.\<close>

lemma findOrNull_after:
  assumes ok: "balances_ok s" and found: "findOrNull c u t s = (Inr (Some d), s)"
    and f: "\<And>x. lb_key (f x) = lb_key x"
    and s': "w_balances s' = upd_by lb_id (lb_id d) f (w_balances s)" "w_scope s' = w_scope s"
  shows "findOrNull c u t s' = (Inr (Some (f d)), s')"
proof -
  from found obtain own v where own: "resolveCompanyId (w_scope s) = Inr own" "balance_scoping (w_scope s) = Inr v" "v d"
    and get: "get_by lb_key (case own of None \<Rightarrow> c | Some x \<Rightarrow> x, u, t) (w_balances s) = Some d"
    by (auto simp: prog_inv)
  have same: "lb_id x = lb_id d \<longleftrightarrow> lb_key x = lb_key d" if "x \<in> set (w_balances s)" for x
  proof -
    have "d \<in> set (w_balances s)" using get by (rule get_by_mem)
    with that ok show ?thesis unfolding balances_ok_def by (metis distinct_map inj_onD)
  qed
  have "upd_by lb_id (lb_id d) f (w_balances s) = upd_by lb_key (lb_key d) f (w_balances s)"
    unfolding upd_by_def using same by (intro map_cong) auto
  with s'(1) get have "get_by lb_key (case own of None \<Rightarrow> c | Some x \<Rightarrow> x, u, t) (w_balances s') = Some (f d)"
    using get_by_key [OF get] by (simp add: get_by_upd_by f)
  moreover have "v (f d)"
    using own(3) balance_scoping_owner [OF own(2), of "f d" d] f [of d] by (simp add: lb_key_def)
  ultimately show ?thesis using own s'(2) by (auto simp: prog_inv)
qed

lemma push_by_id_run:
  assumes "findOrNull c u t s = (Inr (Some d), s)" "balances_ok s" "P d"
    "w_balances s1 = w_balances s" "w_scope s1 = w_scope s"
  shows "find_and_update w_balances w_balances_update lb_id balance_scoping (lb_id d) P f s1 =
    (Inr (Some (f d)), w_balances_update (upd_by lb_id (lb_id d) f) s1)"
proof -
  from assms(1) obtain v where v: "balance_scoping (w_scope s) = Inr v" "v d" by (auto simp: prog_inv)
  with assms(3-5) findOrNull_lookup(1) [OF assms(2,1)] show ?thesis
    by (simp add: find_and_update_def cas_def)
qed

abbreviation drawdown_movement :: "world \<Rightarrow> litre_movement_kind \<Rightarrow> rat \<Rightarrow> oid \<Rightarrow> oid \<Rightarrow> litre_movement" where
  "drawdown_movement s k l orderId a \<equiv> \<lparr>lm_id = w_next_id s, lm_kind = k, lm_litres = l, lm_orderId = Some orderId,
     lm_reason = None, lm_actorId = a, lm_at = w_now s\<rparr>"

lemma drawdown_unfold: "\<exists>n. drawdown = drawdown_loop (Suc n)"
  by (rule exI [of _ 4]) (simp add: drawdown_def MAX_DRAWDOWN_ATTEMPTS_def)

lemma drawdown_run:
  assumes ok: "balances_ok s" and found: "findOrNull c u t s = (Inr (Some d), s)"
    and pos: "0 < lb_balanceLitres d" "0 < roundLitres (min (lb_balanceLitres d) q)"
  shows "drawdown c u t orderId q a s =
    (Inr \<lparr>dd_litresDrawn = roundLitres (min (lb_balanceLitres d) q),
          dd_balanceRemaining = lb_balanceLitres d - roundLitres (min (lb_balanceLitres d) q)\<rparr>,
     w_balances_update (upd_by lb_id (lb_id d)
       (push_movement (drawdown_movement s ORDER_DRAWDOWN (- roundLitres (min (lb_balanceLitres d) q)) orderId a)))
       (s\<lparr>w_next_id := Suc (w_next_id s)\<rparr>))"
proof -
  let ?s1 = "s\<lparr>w_next_id := Suc (w_next_id s)\<rparr>"
  obtain n where n: "drawdown = drawdown_loop (Suc n)" using drawdown_unfold by blast
  note upd = push_by_id_run [OF found ok, of "\<lambda>x. lb_balanceLitres x = lb_balanceLitres d" ?s1]
  show ?thesis
    using pos unfolding n
    by (simp add: bnd_def found new_movement_def fresh_id_def asks_def ret_def upd Let_def push_movement_def not_le)
qed

lemma drawdown_nothing:
  assumes "findOrNull c u t s = (Inr found, s)"
    and "\<And>d. found = Some d \<Longrightarrow> lb_balanceLitres d \<le> 0 \<or> roundLitres (min (lb_balanceLitres d) q) \<le> 0"
  shows "\<exists>r. drawdown c u t orderId q a s = (Inr r, s) \<and> dd_litresDrawn r = 0 \<and> dd_balanceRemaining r = max 0 (balance_of found)"
proof -
  obtain n where n: "drawdown = drawdown_loop (Suc n)" using drawdown_unfold by blast
  from assms show ?thesis unfolding n
    by (cases found) (auto simp: bnd_def ret_def balance_of_def Let_def max_def split: if_splits)
qed

text \<open>Drawing down always returns, never retries in an atomic transaction, takes at most the
  positive balance (so it never drives a balance negative), takes exactly the smaller of balance
  and request when the request is at three decimal places, and lowers the stored balance by
  exactly what it reports.\<close>

theorem drawdown_bounded:
  assumes "balances_ok s" and "findOrNull c u t s = (Inr found, s)" and "0 \<le> q"
  shows "\<exists>r s'. drawdown c u t orderId q a s = (Inr r, s') \<and>
    0 \<le> dd_litresDrawn r \<and> dd_litresDrawn r \<le> max 0 (balance_of found) \<and>
    (litres.on_grid q \<longrightarrow> dd_litresDrawn r = max 0 (min (balance_of found) q)) \<and>
    getBalanceLitres c u t s' = (Inr (balance_of found - dd_litresDrawn r), s')"
proof (cases "\<exists>d. found = Some d \<and> 0 < lb_balanceLitres d \<and> 0 < roundLitres (min (lb_balanceLitres d) q)")
  case True
  then obtain d where d: "found = Some d" "0 < lb_balanceLitres d" "0 < roundLitres (min (lb_balanceLitres d) q)" by blast
  note run = drawdown_run [OF assms(1) assms(2) [unfolded d(1)] d(2,3), of orderId a]
  let ?f = "push_movement (drawdown_movement s ORDER_DRAWDOWN (- roundLitres (min (lb_balanceLitres d) q)) orderId a)"
  let ?s' = "w_balances_update (upd_by lb_id (lb_id d) ?f) (s\<lparr>w_next_id := Suc (w_next_id s)\<rparr>)"
  have "findOrNull c u t ?s' = (Inr (Some (?f d)), ?s')"
    by (rule findOrNull_after [OF assms(1) assms(2) [unfolded d(1)]]) simp_all
  then have "getBalanceLitres c u t ?s' = (Inr (lb_balanceLitres d - roundLitres (min (lb_balanceLitres d) q)), ?s')"
    by (simp add: getBalanceLitres_def bnd_def ret_def push_movement_def)
  moreover have grid: "litres.on_grid (lb_balanceLitres d)"
    using findOrNull_lookup(2) [OF assms(1) assms(2) [unfolded d(1)]] by (rule balance_ok_grid)
  then have "roundLitres (min (lb_balanceLitres d) q) \<le> lb_balanceLitres d"
    using litres.rnd_mono [of "min (lb_balanceLitres d) q" "lb_balanceLitres d"] by (simp add: litres.rnd_fixes_grid)
  moreover have "litres.on_grid q \<Longrightarrow> roundLitres (min (lb_balanceLitres d) q) = min (lb_balanceLitres d) q"
    using grid by (intro litres.rnd_fixes_grid) (simp add: min_def)
  ultimately show ?thesis using run d assms(3) by (auto simp: balance_of_def)
next
  case False
  then obtain r where r: "drawdown c u t orderId q a s = (Inr r, s)" "dd_litresDrawn r = 0"
    using drawdown_nothing [OF assms(2), of q orderId a] by (auto simp: not_less)
  have "max 0 (min (balance_of found) q) = 0" if "litres.on_grid q"
  proof (cases found)
    case (Some d)
    have "litres.on_grid (lb_balanceLitres d)"
      using findOrNull_lookup(2) [OF assms(1) assms(2) [unfolded Some]] by (rule balance_ok_grid)
    with that have "litres.on_grid (min (lb_balanceLitres d) q)" by (simp add: min_def)
    then have "roundLitres (min (lb_balanceLitres d) q) = min (lb_balanceLitres d) q" by (rule litres.rnd_fixes_grid)
    with False Some show ?thesis by (auto simp: balance_of_def max_def min_def split: if_splits)
  qed (use assms(3) in \<open>simp add: balance_of_def\<close>)
  with r assms(2) show ?thesis
    by (auto simp: getBalanceLitres_def bnd_def ret_def balance_of_def)
qed

text \<open>Lookups among a balance's movements after one more was pushed.\<close>

lemma find_snoc: "find P (xs @ [x]) = (case find P xs of Some y \<Rightarrow> Some y | None \<Rightarrow> if P x then Some x else None)"
  by (induction xs) auto

lemma returnDrawdown_run:
  assumes ok: "balances_ok s" and found: "findOrNull c u t s = (Inr (Some d), s)"
    and mvs: "\<not> list_ex (of_order orderId DRAWDOWN_RETURNED) (lb_movements d)"
      "find (of_order orderId ORDER_DRAWDOWN) (lb_movements d) = Some dd"
  shows "returnDrawdown c u t orderId a s = (Inr (), w_balances_update (upd_by lb_id (lb_id d)
       (push_movement (drawdown_movement s DRAWDOWN_RETURNED (- lm_litres dd) orderId a)))
       (s\<lparr>w_next_id := Suc (w_next_id s)\<rparr>))"
proof -
  note upd = push_by_id_run [OF found ok, of "\<lambda>_. True" "s\<lparr>w_next_id := Suc (w_next_id s)\<rparr>"]
  show ?thesis
    using mvs by (simp add: returnDrawdown_def bnd_def found new_movement_def fresh_id_def asks_def ret_def upd)
qed

text \<open>Cancelling gives back exactly what an order drew: after a drawdown by an order that had
  none before, returning it restores the balance it started from, and returning again changes
  nothing.\<close>

theorem return_restores_balance:
  assumes "balances_ok s" and "findOrNull c u t s = (Inr (Some d), s)"
    and "\<forall>m \<in> set (lb_movements d). lm_orderId m \<noteq> Some orderId"
    and "drawdown c u t orderId q a s = (Inr r, s1)" and "returnDrawdown c u t orderId b s1 = (Inr (), s2)"
  shows "getBalanceLitres c u t s2 = (Inr (lb_balanceLitres d), s2) \<and> returnDrawdown c u t orderId b s2 = (Inr (), s2)"
proof (cases "0 < lb_balanceLitres d \<and> 0 < roundLitres (min (lb_balanceLitres d) q)")
  case True
  let ?l = "roundLitres (min (lb_balanceLitres d) q)"
  let ?m = "drawdown_movement s ORDER_DRAWDOWN (- ?l) orderId a" and ?d1 = "push_movement (drawdown_movement s ORDER_DRAWDOWN (- roundLitres (min (lb_balanceLitres d) q)) orderId a) d"
  have s1: "s1 = w_balances_update (upd_by lb_id (lb_id d) (push_movement ?m)) (s\<lparr>w_next_id := Suc (w_next_id s)\<rparr>)"
    using drawdown_run [OF assms(1,2), of q orderId a] True assms(4) by simp
  have ok1: "balances_ok s1"
    using keepsD [OF keeps_drawdown assms(4) [unfolded drawdown_def] assms(1)] .
  have f1: "findOrNull c u t s1 = (Inr (Some ?d1), s1)"
    by (rule findOrNull_after [OF assms(1,2)]) (simp_all add: s1)
  have none: "\<not> list_ex (of_order orderId k) (lb_movements d)" for k
    using assms(3) by (auto simp: list_ex_iff of_order_def)
  then have "find (of_order orderId ORDER_DRAWDOWN) (lb_movements d) = None"
    by (simp add: find_None_iff list_ex_iff)
  then have dd: "find (of_order orderId ORDER_DRAWDOWN) (lb_movements ?d1) = Some ?m"
    "\<not> list_ex (of_order orderId DRAWDOWN_RETURNED) (lb_movements ?d1)"
    using none by (simp_all add: push_movement_def find_snoc of_order_def)
  let ?m2 = "drawdown_movement s1 DRAWDOWN_RETURNED ?l orderId b"
  have s2: "s2 = w_balances_update (upd_by lb_id (lb_id ?d1) (push_movement ?m2)) (s1\<lparr>w_next_id := Suc (w_next_id s1)\<rparr>)"
    using returnDrawdown_run [OF ok1 f1 dd(2,1), of b] assms(5) by simp
  have f2: "findOrNull c u t s2 = (Inr (Some (push_movement ?m2 ?d1)), s2)"
    by (rule findOrNull_after [OF ok1 f1]) (simp_all add: s2)
  then show ?thesis
    by (simp add: getBalanceLitres_def returnDrawdown_def bnd_def ret_def push_movement_def of_order_def)
next
  case False
  then have "s1 = s" using drawdown_nothing [OF assms(2), of q orderId a] assms(4) by (auto simp: not_less)
  moreover have "returnDrawdown c u t orderId b s = (Inr (), s)"
  proof -
    have "find (of_order orderId ORDER_DRAWDOWN) (lb_movements d) = None"
      using assms(3) by (auto simp: find_None_iff of_order_def)
    then show ?thesis by (simp add: returnDrawdown_def bnd_def assms(2) ret_def)
  qed
  ultimately show ?thesis
    using assms(2,5) by (simp add: getBalanceLitres_def bnd_def ret_def)
qed

lemma recordReconciliation_okD:
  assumes "recordReconciliation c u t orderId q x a s = (Inr r, s')" "roundLitres (q - x) \<noteq> 0"
  obtains s1 v own mv d where "ensure_balance c u t s = (Inr (), s1)" "resolveCompanyId (w_scope s1) = Inr own"
    "balance_scoping (w_scope s1) = Inr v" "v d"
    "get_by lb_key (case own of None \<Rightarrow> c | Some z \<Rightarrow> z, u, t) (w_balances s1) = Some d"
    "orderId \<notin> set (lb_reconciledOrderIds d)" "lm_litres mv = roundLitres (q - x)" "reconciles orderId mv"
    "rr_balanceLitres r = lb_balanceLitres d + roundLitres (q - x)"
    "s' = w_balances_update (upd_by lb_key (case own of None \<Rightarrow> c | Some z \<Rightarrow> z, u, t) (reconcile_movement orderId mv))
       (s1\<lparr>w_next_id := Suc (w_next_id s1)\<rparr>)"
proof -
  from assms obtain s1 where ens: "ensure_balance c u t s = (Inr (), s1)"
    by (auto simp: recordReconciliation_def Let_def elim!: bndE)
  let ?mv = "drawdown_movement s1 (if 0 < roundLitres (q - x) then SHORTFALL_CREDIT else EXCESS_DEBIT) (roundLitres (q - x)) orderId a"
  from ens assms obtain own v d where own: "resolveCompanyId (w_scope s1) = Inr own" "balance_scoping (w_scope s1) = Inr v" "v d"
    "get_by lb_key (case own of None \<Rightarrow> c | Some z \<Rightarrow> z, u, t) (w_balances s1) = Some d"
    "orderId \<notin> set (lb_reconciledOrderIds d)"
    and r: "rr_balanceLitres r = lb_balanceLitres (reconcile_movement orderId ?mv d)"
      "s' = w_balances_update (upd_by lb_key (case own of None \<Rightarrow> c | Some z \<Rightarrow> z, u, t) (reconcile_movement orderId ?mv))
       (s1\<lparr>w_next_id := Suc (w_next_id s1)\<rparr>)"
    unfolding recordReconciliation_def Let_def by (auto simp: prog_inv)
  show thesis
    by (rule that [OF ens own, of ?mv]) (use r in \<open>simp_all add: reconcile_movement_def push_movement_def reconciles_def\<close>)
qed

lemma ensure_balance_present:
  "findOrNull c u t s = (Inr (Some d), s) \<Longrightarrow> ensure_balance c u t s = (Inr (), s)"
  by (simp add: ensure_balance_def bnd_def ret_def)

text \<open>An order's supplier invoice moves the balance once: recording a second reconciliation for
  the same order is refused and changes no balance.\<close>

theorem reconciliation_once:
  assumes "recordReconciliation c u t orderId q x a s = (Inr r, s1)"
    and "roundLitres (q - x) \<noteq> 0" and "roundLitres (q2 - x2) \<noteq> 0"
  shows "\<exists>e s2. recordReconciliation c u t orderId q2 x2 a2 s1 = (Inl e, s2) \<and>
    e \<in> {Conflict (Some SUPPLIER_INVOICE_ALREADY_RECORDED), DuplicateKey} \<and> w_balances s2 = w_balances s1"
proof -
  obtain s0 v own mv d where own: "resolveCompanyId (w_scope s0) = Inr own"
    "balance_scoping (w_scope s0) = Inr v" "v d"
    and get: "get_by lb_key (case own of None \<Rightarrow> c | Some z \<Rightarrow> z, u, t) (w_balances s0) = Some d"
    and s1: "s1 = w_balances_update (upd_by lb_key (case own of None \<Rightarrow> c | Some z \<Rightarrow> z, u, t) (reconcile_movement orderId mv))
       (s0\<lparr>w_next_id := Suc (w_next_id s0)\<rparr>)"
    by (rule recordReconciliation_okD [OF assms(1,2)])
  let ?d = "reconcile_movement orderId mv d"
  have get1: "get_by lb_key (case own of None \<Rightarrow> c | Some z \<Rightarrow> z, u, t) (w_balances s1) = Some ?d"
    using get s1 by (simp add: get_by_upd_by)
  have vis: "v ?d"
    using own(3) balance_scoping_owner [OF own(2), of ?d d] by (simp add: reconcile_movement_def push_movement_def)
  have "findOrNull c u t s1 = (Inr (Some ?d), s1)"
    using own get1 vis s1 by (auto simp: prog_inv)
  then have ens: "ensure_balance c u t s1 = (Inr (), s1)" by (rule ensure_balance_present)
  have key: "tenant_key c (s1\<lparr>w_next_id := Suc (w_next_id s1)\<rparr>) =
      (Inr (case own of None \<Rightarrow> c | Some z \<Rightarrow> z), s1\<lparr>w_next_id := Suc (w_next_id s1)\<rparr>)"
    using own s1 by (auto simp: prog_inv)
  have "orderId \<in> set (lb_reconciledOrderIds ?d)" by (simp add: reconcile_movement_def)
  with assms(3) ens key get1 vis own(2) s1 show ?thesis
    by (simp add: recordReconciliation_def Let_def bnd_def new_movement_def fresh_id_def asks_def ret_def guard_def
        find_and_update_def cas_def throw_def)
qed

section \<open>Concrete instances\<close>

definition sample_balance :: litre_balance where
  "sample_balance = \<lparr>lb_id = 60, lb_companyId = 1, lb_clientId = 5, lb_fuelType = DIESEL, lb_balanceLitres = 700,
     lb_movements = [\<lparr>lm_id = 61, lm_kind = CORRECTION, lm_litres = 700, lm_orderId = None, lm_reason = None,
       lm_actorId = 9, lm_at = 0\<rparr>],
     lb_reconciledOrderIds = []\<rparr>"

definition balance_world :: world where
  "balance_world = empty_world\<lparr>w_balances := [sample_balance]\<rparr>"

lemma balance_world_ok: "balances_ok balance_world"
proof -
  have "litres.on_grid 700" unfolding litres.on_grid_def by (rule exI [of _ 700000]) simp
  then show ?thesis
    by (simp add: balances_ok_def balance_ok_def balance_world_def sample_balance_def empty_world_def reconciles_def)
qed

lemma balance_world_found: "findOrNull 1 5 DIESEL balance_world = (Inr (Some sample_balance), balance_world)"
  by (simp add: findOrNull_inv balance_world_def empty_world_def lb_key_def sample_balance_def)

theorem drawdown_bounded_witness:
  "\<exists>r s'. drawdown 1 5 DIESEL 10 1000 9 balance_world = (Inr r, s') \<and> dd_litresDrawn r = 700"
proof -
  have "litres.on_grid 1000" unfolding litres.on_grid_def by (rule exI [of _ 1000000]) simp
  with drawdown_bounded [OF balance_world_ok balance_world_found, of 1000 10 9] show ?thesis
    by (auto simp: balance_of_def sample_balance_def)
qed

theorem return_restores_balance_witness:
  "\<exists>r s1 s2. drawdown 1 5 DIESEL 10 1000 9 balance_world = (Inr r, s1) \<and>
     returnDrawdown 1 5 DIESEL 10 9 s1 = (Inr (), s2) \<and> getBalanceLitres 1 5 DIESEL s2 = (Inr 700, s2)"
proof -
  have "\<not> isl (fst (bnd (drawdown 1 5 DIESEL 10 1000 9) (\<lambda>_. returnDrawdown 1 5 DIESEL 10 9) balance_world))"
    by code_simp
  then obtain r s1 s2 where "drawdown 1 5 DIESEL 10 1000 9 balance_world = (Inr r, s1)"
      "returnDrawdown 1 5 DIESEL 10 9 s1 = (Inr (), s2)"
    by (auto dest!: run_succeeds simp: bnd_inv)
  with return_restores_balance [OF balance_world_ok balance_world_found _ this] show ?thesis
    by (auto simp: sample_balance_def)
qed

theorem reconciliation_once_witness:
  "\<exists>r s1 e s2. recordReconciliation 1 5 DIESEL 10 1000 900 9 balance_world = (Inr r, s1) \<and>
     recordReconciliation 1 5 DIESEL 10 1000 800 9 s1 = (Inl e, s2)"
proof -
  have "\<not> isl (fst (recordReconciliation 1 5 DIESEL 10 1000 900 9 balance_world))" by code_simp
  then obtain r s1 where run: "recordReconciliation 1 5 DIESEL 10 1000 900 9 balance_world = (Inr r, s1)"
    by (blast dest: run_succeeds)
  have "roundLitres (1000 - 900) \<noteq> 0" "roundLitres (1000 - 800) \<noteq> 0"
    by code_simp+
  from reconciliation_once [OF run this, of 9] run show ?thesis by blast
qed

end
