(* ===== verification/Billing.thy ===== *)
theory Billing
  imports Platform_Account Money
begin

text \<open>
  Commission and cashback: \<open>modules/billing/billing.service.ts\<close>.  Terms and programmes are
  append-only; the one in force is the latest, and an accrual copies its rate and basis.
\<close>

text \<open>\<open>findOne().sort(effectiveFrom desc, _id desc)\<close>: documents stand in insertion order, which
  is the order of their ids, so the last of the latest wins.\<close>

definition latest_by :: "('a \<Rightarrow> instant) \<Rightarrow> 'a list \<Rightarrow> 'a option" where
  "latest_by key xs = foldl (\<lambda>best x. case best of
     None \<Rightarrow> Some x | Some y \<Rightarrow> if key y \<le> key x then Some x else Some y) None xs"

definition getCurrentCommissionTerm :: "commission_term option service" where
  "getCurrentCommissionTerm = asks (\<lambda>s. latest_by ct_effectiveFrom (w_terms s))"

definition getCurrentCashbackProgramme :: "cashback_programme option service" where
  "getCurrentCashbackProgramme = asks (\<lambda>s. latest_by cp_effectiveFrom (w_programmes s))"

definition setCommissionTerm :: "commission_basis \<Rightarrow> rat \<Rightarrow> oid \<Rightarrow> unit service" where
  "setCommissionTerm basis rate setById =
     bnd (asks w_now) (\<lambda>now.
     insert_doc w_terms_update
       \<lparr>ct_basis = basis, ct_rate = rate, ct_effectiveFrom = now, ct_setBy = setById\<rparr>)"

definition setCashbackProgramme ::
  "commission_basis \<Rightarrow> rat \<Rightarrow> bool \<Rightarrow> bool \<Rightarrow> oid list \<Rightarrow> oid \<Rightarrow> unit service" where
  "setCashbackProgramme basis rate isActive targetsAllCompanies targetCompanyIds setById =
     bnd (asks w_now) (\<lambda>now.
     insert_doc w_programmes_update
       \<lparr>cp_basis = basis, cp_rate = rate, cp_isActive = isActive,
        cp_targetsAllCompanies = targetsAllCompanies,
        cp_targetCompanyIds = (if targetsAllCompanies then [] else targetCompanyIds),
        cp_effectiveFrom = now, cp_setBy = setById\<rparr>)"

definition computeAmount :: "commission_basis \<Rightarrow> rat \<Rightarrow> rat \<Rightarrow> rat" where
  "computeAmount basis rate invoiceAmount =
     roundCurrency (if basis = PERCENTAGE then (invoiceAmount * rate) / 100 else invoiceAmount * rate)"

definition resolveCeiling :: "oid \<Rightarrow> rat service" where
  "resolveCeiling companyId =
     asks (\<lambda>s. case get_by c_id companyId (w_companies s) of
       None \<Rightarrow> cfg_defaultCommissionCeiling (w_config s)
     | Some c \<Rightarrow> (case c_commissionCeiling c of
         None \<Rightarrow> cfg_defaultCommissionCeiling (w_config s) | Some x \<Rightarrow> x))"

definition getNetCommissionOwed :: "oid \<Rightarrow> rat service" where
  "getNetCommissionOwed companyId =
     bnd (getConfirmedBalance companyId COMMISSION_CHARGED) (\<lambda>charged.
     bnd (getConfirmedBalance companyId PAYMENT_RECORDED) (\<lambda>paid.
     ret (charged - paid)))"

definition assertUnderCeiling :: "oid \<Rightarrow> unit service" where
  "assertUnderCeiling companyId =
     bnd (getNetCommissionOwed companyId) (\<lambda>balance.
     bnd (resolveCeiling companyId) (\<lambda>ceiling.
     guard (\<not> balance > ceiling) (Conflict (Some COMMISSION_CEILING_EXCEEDED))))"

definition accrueCommission :: "oid \<Rightarrow> invoice \<Rightarrow> unit service" where
  "accrueCommission fuelCompanyId invoice =
     bnd getCurrentCommissionTerm (\<lambda>term.
     case term of
       None \<Rightarrow> ret ()
     | Some t \<Rightarrow>
         (let amount = computeAmount (ct_basis t) (ct_rate t) (inv_amount invoice)
          in if amount \<le> 0 then ret ()
             else bnd (createMovement ((plain_input fuelCompanyId COMMISSION_CHARGED amount CONFIRMED)
                    \<lparr>mi_sourceInvoiceId := Some (inv_id invoice), mi_appliedRate := Some (ct_rate t),
                      mi_appliedBasis := Some (ct_basis t)\<rparr>)) (\<lambda>_. ret ())))"

definition accrueCashback :: "invoice \<Rightarrow> unit service" where
  "accrueCashback invoice =
     bnd getCurrentCashbackProgramme (\<lambda>programme.
     case programme of
       None \<Rightarrow> ret ()
     | Some p \<Rightarrow>
         if \<not> cp_isActive p then ret ()
         else if \<not> (cp_targetsAllCompanies p \<or> inv_fuelCompanyId invoice \<in> set (cp_targetCompanyIds p)) then ret ()
         else
          (let amount = computeAmount (cp_basis p) (cp_rate p) (inv_amount invoice)
           in if amount \<le> 0 then ret ()
              else bnd (createMovement ((plain_input (inv_fuelCompanyId invoice) CASHBACK_CREDITED amount CONFIRMED)
                     \<lparr>mi_sourceInvoiceId := Some (inv_id invoice), mi_appliedRate := Some (cp_rate p),
                       mi_appliedBasis := Some (cp_basis p)\<rparr>)) (\<lambda>_. ret ())))"

definition reverseAccrualsForInvoice :: "oid \<Rightarrow> unit service" where
  "reverseAccrualsForInvoice invoiceId = reverseMovementsForInvoice invoiceId"

record billing_balances =
  bb_commissionAccrued :: rat
  bb_cashbackAccrued :: rat
  bb_commissionCeiling :: rat
  bb_ceilingWarning :: bool
  bb_ceilingExceeded :: bool

definition getBalancesForCompany :: "oid \<Rightarrow> billing_balances service" where
  "getBalancesForCompany companyId =
     bnd (getNetCommissionOwed companyId) (\<lambda>commissionAccrued.
     bnd (getConfirmedBalance companyId CASHBACK_CREDITED) (\<lambda>cashbackAccrued.
     bnd (resolveCeiling companyId) (\<lambda>ceiling.
     ret \<lparr>bb_commissionAccrued = roundCurrency commissionAccrued,
          bb_cashbackAccrued = roundCurrency cashbackAccrued,
          bb_commissionCeiling = ceiling,
          bb_ceilingWarning = (ceiling > 0 \<and> commissionAccrued \<ge> ceiling * (9 / 10)),
          bb_ceilingExceeded = (commissionAccrued > ceiling)\<rparr>)))"

section \<open>Lemmas\<close>

lemma latest_by_snoc_newest:
  "(\<And>y. y \<in> set xs \<Longrightarrow> key y \<le> key x) \<Longrightarrow> latest_by key (xs @ [x]) = Some x"
proof -
  assume le: "\<And>y. y \<in> set xs \<Longrightarrow> key y \<le> key x"
  have "latest_by key ys = Some y \<Longrightarrow> y \<in> set ys" for ys y
    by (induction ys arbitrary: y rule: rev_induct) (auto simp: latest_by_def split: option.splits if_splits)
  with le show ?thesis by (auto simp: latest_by_def split: option.splits)
qed

text \<open>Reads of a balance leave the state alone.\<close>

lemma getConfirmedBalance_state: "getConfirmedBalance c k s = (r, s') \<Longrightarrow> s' = s"
  by (cases r) (auto simp: getConfirmedBalance_def prog_inv)

lemma getNetCommissionOwed_state: "getNetCommissionOwed c s = (r, s') \<Longrightarrow> s' = s"
  by (cases r) (auto simp: getNetCommissionOwed_def prog_inv dest: getConfirmedBalance_state)

lemma assertUnderCeiling_state: "assertUnderCeiling c s = (r, s') \<Longrightarrow> s' = s"
  by (cases r) (auto simp: assertUnderCeiling_def resolveCeiling_def prog_inv dest: getNetCommissionOwed_state)

text \<open>What an accrual does: at most one movement is appended, sourced from the invoice,
  confirmed, owned by the invoice's company, and no original is reversed.\<close>

definition accrual_of :: "account_movement_kind \<Rightarrow> oid \<Rightarrow> oid \<Rightarrow> rat \<Rightarrow> account_movement \<Rightarrow> bool" where
  "accrual_of kind company iv amount m \<longleftrightarrow> am_kind m = kind \<and> am_companyId m = company \<and>
     am_sourceInvoiceId m = Some iv \<and> am_amount m = amount \<and> am_state m = CONFIRMED \<and>
     am_reversalOfId m = None \<and> 0 < amount"

definition accrues :: "account_movement_kind \<Rightarrow> oid \<Rightarrow> oid \<Rightarrow> world \<Rightarrow> world \<Rightarrow> bool" where
  "accrues kind company iv s s' \<longleftrightarrow> s' = s \<or>
     (\<exists>m amount. s' = s\<lparr>w_next_id := Suc (w_next_id s), w_movements := w_movements s @ [m]\<rparr> \<and>
        accrual_of kind company iv amount m)"

lemma accrues_refl [simp]: "accrues kind company iv s s"
  by (simp add: accrues_def)

lemma createMovement_accrues:
  assumes ok: "ledger_ok s"
    and run: "createMovement ((plain_input company kind amount CONFIRMED)
       \<lparr>mi_sourceInvoiceId := Some iv, mi_appliedRate := rt, mi_appliedBasis := bs\<rparr>) s = (Inr mv, s')"
    and pos: "0 < amount"
  shows "ledger_ok s' \<and> accrues kind company iv s s'"
proof -
  let ?in = "(plain_input company kind amount CONFIRMED)
       \<lparr>mi_sourceInvoiceId := Some iv, mi_appliedRate := rt, mi_appliedBasis := bs\<rparr>"
  let ?m = "movement_of ?in company (w_next_id s)"
  have "ledger_ok s'"
    by (rule createMovement_ledger [OF ok run]) (simp add: plain_input_def)
  moreover have s': "s' = s\<lparr>w_next_id := Suc (w_next_id s), w_movements := w_movements s @ [?m]\<rparr>"
    using createMovement_ok [OF run ledger_fresh [OF ok]] by (simp add: plain_input_def)
  moreover have "accrual_of kind company iv amount ?m"
    using pos by (simp add: accrual_of_def movement_of_def plain_input_def)
  ultimately show ?thesis unfolding accrues_def by blast
qed

lemma accrueCommission_ok:
  assumes "ledger_ok s" "accrueCommission company invoice s = (Inr (), s')"
  shows "ledger_ok s' \<and> accrues COMMISSION_CHARGED company (inv_id invoice) s s'"
  using assms
  by (auto simp: accrueCommission_def getCurrentCommissionTerm_def prog_inv Let_def not_le
      dest: createMovement_accrues split: if_splits)

lemma accrueCashback_ok:
  assumes "ledger_ok s" "accrueCashback invoice s = (Inr (), s')"
  shows "ledger_ok s' \<and> accrues CASHBACK_CREDITED (inv_fuelCompanyId invoice) (inv_id invoice) s s'"
  using assms
  by (auto simp: accrueCashback_def getCurrentCashbackProgramme_def prog_inv Let_def not_le
      dest: createMovement_accrues split: if_splits)

end
