(* ===== verification/Invoices.thy ===== *)
theory Invoices
  imports Billing Order_State
begin

text \<open>
  Invoices: \<open>modules/invoices/invoices.service.ts\<close>.  A client's available credit is the limit
  minus the still-issued credit invoices, computed on each request; issuing accrues commission,
  settling accrues cashback, voiding reverses both, each in one transaction.
\<close>

section \<open>Operations\<close>

definition findInvoiceByOrder :: "oid \<Rightarrow> invoice option service" where
  "findInvoiceByOrder = find_one w_invoices inv_orderId invoice_scoping"

text \<open>With a session the client is read by a \<open>findOneAndUpdate\<close> that writes
  \<open>creditLimit\<close> back to itself, so that concurrent approvals conflict; its effect is the
  plain read.\<close>

definition getAvailableCredit :: "oid \<Rightarrow> rat service" where
  "getAvailableCredit clientId =
     bnd (find_one w_users u_id user_scoping clientId) (\<lambda>found.
     bnd (demand NotFound found) (\<lambda>client.
     bnd (find_all w_invoices invoice_scoping
            (\<lambda>d. inv_clientId d = clientId \<and> inv_method d = CREDIT \<and> inv_state d = ISSUED)) (\<lambda>outstanding.
     ret (roundCurrency ((case u_creditLimit client of None \<Rightarrow> 0 | Some l \<Rightarrow> l)
            - sum_list (map inv_amount outstanding))))))"

definition invoice_amount :: "order \<Rightarrow> rat" where
  "invoice_amount order = (case o_finalPrice order of Some p \<Rightarrow> p | None \<Rightarrow> o_estimatedPrice order)"

definition new_invoice :: "order \<Rightarrow> oid \<Rightarrow> oid \<Rightarrow> invoice" where
  "new_invoice order i fuelCompanyId =
     \<lparr>inv_id = i, inv_orderId = o_id order, inv_fuelCompanyId = fuelCompanyId, inv_clientId = o_clientId order,
      inv_transportCompanyId = (if o_paymentMethod order = DEFERRED then o_transportCompanyId order else None),
      inv_amount = invoice_amount order,
      inv_priceBreakdown = (case o_priceBreakdown order of
         None \<Rightarrow> None | Some b \<Rightarrow> if pb_total b = invoice_amount order then Some b else None),
      inv_method = o_paymentMethod order, inv_state = ISSUED,
      inv_payerRole = (if o_paymentMethod order = DEFERRED then TRANSPORT_COMPANY_ADMIN else CLIENT),
      inv_settledAt = None, inv_paymentReference = None\<rparr>"

definition insert_invoice :: "order \<Rightarrow> invoice service" where
  "insert_invoice order =
     bnd (owning_fuel_company (o_fuelCompanyId order)) (\<lambda>f.
     bnd fresh_id (\<lambda>i.
     bnd (asks w_invoices) (\<lambda>ds.
     bnd (guard (\<not> list_ex (\<lambda>d. inv_orderId d = o_id order) ds) DuplicateKey) (\<lambda>_.
     bnd (insert_doc w_invoices_update (new_invoice order i f)) (\<lambda>_.
     ret (new_invoice order i f))))))"

definition issueInvoice :: "order \<Rightarrow> invoice service" where
  "issueInvoice order =
     bnd (if o_paymentMethod order = CREDIT
          then bnd (getAvailableCredit (o_clientId order)) (\<lambda>available.
               guard (\<not> invoice_amount order > available) (BadRequest None))
          else ret ()) (\<lambda>_.
     bnd (if o_paymentMethod order = DEFERRED \<or> o_paymentMethod order = CREDIT
          then assertUnderCeiling (o_fuelCompanyId order) else ret ()) (\<lambda>_.
     bnd (insert_invoice order) (\<lambda>invoice.
     bnd (update_order (o_id order) (\<lambda>_. True) (\<lambda>d. d\<lparr>o_invoiceId := Some (inv_id invoice)\<rparr>)) (\<lambda>_.
     bnd (accrueCommission (o_fuelCompanyId order) invoice) (\<lambda>_.
     ret invoice)))))"

definition setTransportCompanyId :: "oid \<Rightarrow> oid \<Rightarrow> unit service" where
  "setTransportCompanyId orderId transportCompanyId =
     bnd (find_and_update w_invoices w_invoices_update inv_orderId invoice_scoping orderId
            (\<lambda>d. inv_method d = DEFERRED) (\<lambda>d. d\<lparr>inv_transportCompanyId := Some transportCompanyId\<rparr>)) (\<lambda>_.
     ret ())"

definition settle_fields :: "instant \<Rightarrow> string option \<Rightarrow> invoice \<Rightarrow> invoice" where
  "settle_fields now paymentReference d = d\<lparr>inv_state := SETTLED, inv_settledAt := Some now,
     inv_paymentReference := (if paymentReference = None \<or> paymentReference = Some []
       then inv_paymentReference d else paymentReference)\<rparr>"

definition applySettlement :: "invoice \<Rightarrow> string option \<Rightarrow> invoice service" where
  "applySettlement invoice paymentReference =
     (if inv_state invoice \<noteq> ISSUED then ret invoice
      else bnd (asks w_now) (\<lambda>now.
           bnd (modify (w_invoices_update (upd_by inv_id (inv_id invoice) (settle_fields now paymentReference)))) (\<lambda>_.
           bnd (accrueCashback (settle_fields now paymentReference invoice)) (\<lambda>_.
           ret (settle_fields now paymentReference invoice)))))"

definition settleInvoiceForOrder :: "oid \<Rightarrow> string option \<Rightarrow> invoice service" where
  "settleInvoiceForOrder orderId paymentReference =
     bnd (findInvoiceByOrder orderId) (\<lambda>found.
     bnd (demand NotFound found) (\<lambda>invoice.
     applySettlement invoice paymentReference))"

definition settleById :: "oid \<Rightarrow> string option \<Rightarrow> invoice service" where
  "settleById i paymentReference =
     transaction
       (bnd (find_one w_invoices inv_id invoice_scoping i) (\<lambda>found.
        bnd (demand NotFound found) (\<lambda>invoice.
        applySettlement invoice paymentReference)))"

definition voidInvoice :: "oid \<Rightarrow> unit service" where
  "voidInvoice orderId =
     bnd (findInvoiceByOrder orderId) (\<lambda>found.
     case found of
       None \<Rightarrow> ret ()
     | Some invoice \<Rightarrow>
         if inv_state invoice \<noteq> ISSUED then ret ()
         else bnd (find_and_update w_invoices w_invoices_update inv_orderId invoice_scoping orderId
                     (\<lambda>d. inv_state d = ISSUED) (\<lambda>d. d\<lparr>inv_state := VOID\<rparr>)) (\<lambda>result.
              if result = None then ret ()
              else reverseAccrualsForInvoice (inv_id invoice)))"

definition findInvoicesForUser ::
  "payment_method option \<Rightarrow> invoice_state option \<Rightarrow> oid option \<Rightarrow> invoice list service" where
  "findInvoicesForUser method state fuelCompanyId =
     bnd (asks w_scope) (\<lambda>ctx.
     find_all w_invoices invoice_scoping (\<lambda>d.
       (case method of None \<Rightarrow> True | Some m \<Rightarrow> inv_method d = m) \<and>
       (case state of None \<Rightarrow> True | Some st \<Rightarrow> inv_state d = st) \<and>
       (case fuelCompanyId of None \<Rightarrow> True | Some f \<Rightarrow> \<not> bypasses ctx \<or> inv_fuelCompanyId d = f)))"

definition findInvoiceById :: "oid \<Rightarrow> invoice service" where
  "findInvoiceById i = bnd (find_one w_invoices inv_id invoice_scoping i) (demand NotFound)"

definition outstanding_summary :: "payment_method \<Rightarrow> (rat \<times> nat) service" where
  "outstanding_summary method =
     bnd (find_all w_invoices invoice_scoping (\<lambda>d. inv_method d = method \<and> inv_state d = ISSUED)) (\<lambda>outstanding.
     ret (roundCurrency (foldl (\<lambda>sum d. sum + inv_amount d) 0 outstanding), length outstanding))"

definition getOutstandingSettlementsSummary :: "(rat \<times> nat) service" where
  "getOutstandingSettlementsSummary = outstanding_summary DEFERRED"

definition getCreditOutstandingSummary :: "(rat \<times> nat) service" where
  "getCreditOutstandingSummary = outstanding_summary CREDIT"

section \<open>The invariant of the collection\<close>

definition invoices_ok :: "world \<Rightarrow> bool" where
  "invoices_ok s \<longleftrightarrow> distinct (map inv_id (w_invoices s)) \<and> distinct (map inv_orderId (w_invoices s)) \<and>
     (\<forall>d \<in> set (w_invoices s). inv_id d < w_next_id s)"

lemma owning_fuel_company_inv [prog_inv]:
  "owning_fuel_company c s = (Inr r, s') \<longleftrightarrow> s' = s \<and> (\<exists>own. resolveFuelCompanyId (w_scope s) = Inr own \<and>
     r = (case own of None \<Rightarrow> c | Some x \<Rightarrow> x))"
  "owning_fuel_company c s = (Inl e, s') \<longleftrightarrow> s' = s \<and> resolveFuelCompanyId (w_scope s) = Inl e"
  by (auto simp: owning_fuel_company_def prog_inv)

lemma getAvailableCredit_state: "getAvailableCredit c s = (r, s') \<Longrightarrow> s' = s"
  by (cases r) (auto simp: getAvailableCredit_def prog_inv dest: find_one_state)

lemma insert_invoice_ok:
  assumes "insert_invoice order s = (Inr d, s')"
  obtains f where "d = new_invoice order (w_next_id s) f"
    "s' = w_invoices_update (\<lambda>ds. ds @ [d]) (s\<lparr>w_next_id := Suc (w_next_id s)\<rparr>)"
    "\<forall>x \<in> set (w_invoices s). inv_orderId x \<noteq> o_id order"
  using assms by (auto simp: insert_invoice_def prog_inv list_ex_iff)

lemma accrues_frame:
  "accrues k c iv s s' \<Longrightarrow> w_invoices s' = w_invoices s \<and> w_orders s' = w_orders s \<and> w_users s' = w_users s \<and>
     w_scope s' = w_scope s \<and> w_now s' = w_now s \<and> w_next_id s \<le> w_next_id s' \<and> w_balances s' = w_balances s \<and>
     w_trucks s' = w_trucks s \<and> w_tanks s' = w_tanks s \<and> w_jobs s' = w_jobs s"
  by (auto simp: accrues_def)

lemma ledger_ok_frame:
  "ledger_ok s \<Longrightarrow> w_movements s' = w_movements s \<Longrightarrow> w_next_id s \<le> w_next_id s' \<Longrightarrow> ledger_ok s'"
  unfolding ledger_ok_def by auto

lemma update_order_frame:
  assumes "update_order i P f s = (r, s')"
  shows "w_invoices s' = w_invoices s" "w_movements s' = w_movements s" "w_next_id s' = w_next_id s"
    "w_scope s' = w_scope s" "w_now s' = w_now s" "w_users s' = w_users s"
  using assms
  by (auto simp: update_order_def find_and_update_def cas_def split: sum.splits option.splits if_splits)

text \<open>One successful issue: a fresh invoice for the order, and the refusals that were passed.\<close>

lemma issueInvoice_ok:
  assumes ok: "ledger_ok s" and run: "issueInvoice order s = (Inr d, s')"
  obtains f where "d = new_invoice order (w_next_id s) f" "w_invoices s' = w_invoices s @ [d]"
    "w_next_id s < w_next_id s'" "\<forall>x \<in> set (w_invoices s). inv_orderId x \<noteq> o_id order" "ledger_ok s'"
    "w_users s' = w_users s"
    "o_paymentMethod order = CREDIT \<Longrightarrow>
       \<exists>a. getAvailableCredit (o_clientId order) s = (Inr a, s) \<and> invoice_amount order \<le> a"
proof -
  from run obtain s1 s2 s3 s4 r where
    credit: "(if o_paymentMethod order = CREDIT
          then bnd (getAvailableCredit (o_clientId order)) (\<lambda>available.
               guard (\<not> invoice_amount order > available) (BadRequest None))
          else ret ()) s = (Inr (), s1)"
    and ceil: "(if o_paymentMethod order = DEFERRED \<or> o_paymentMethod order = CREDIT
          then assertUnderCeiling (o_fuelCompanyId order) else ret ()) s1 = (Inr (), s2)"
    and ins: "insert_invoice order s2 = (Inr d, s3)"
    and upd: "update_order (o_id order) (\<lambda>_. True) (\<lambda>x. x\<lparr>o_invoiceId := Some (inv_id d)\<rparr>) s3 = (Inr r, s4)"
    and acc: "accrueCommission (o_fuelCompanyId order) d s4 = (Inr (), s')"
    unfolding issueInvoice_def by (elim bndE) (simp add: ret_inv)
  have s1: "s1 = s" using credit by (auto simp: prog_inv dest: getAvailableCredit_state)
  have s2: "s2 = s" using ceil s1 by (auto simp: prog_inv dest: assertUnderCeiling_state split: if_splits)
  from ins [unfolded s2] obtain f where d: "d = new_invoice order (w_next_id s) f"
    and s3: "s3 = w_invoices_update (\<lambda>ds. ds @ [d]) (s\<lparr>w_next_id := Suc (w_next_id s)\<rparr>)"
    and fresh: "\<forall>x \<in> set (w_invoices s). inv_orderId x \<noteq> o_id order"
    by (rule insert_invoice_ok)
  note fr = update_order_frame [OF upd]
  have "ledger_ok s4" by (rule ledger_ok_frame [OF ok]) (simp_all add: fr s3)
  with accrueCommission_ok [OF this acc] have "ledger_ok s'" and frame: "w_invoices s' = w_invoices s4"
      "w_users s' = w_users s4" "w_next_id s4 \<le> w_next_id s'"
    by (auto dest: accrues_frame)
  moreover have "\<exists>a. getAvailableCredit (o_clientId order) s = (Inr a, s) \<and> invoice_amount order \<le> a"
    if "o_paymentMethod order = CREDIT"
    using credit that by (auto simp: prog_inv not_less dest: getAvailableCredit_state)
  ultimately show thesis using d fresh fr s3 by (intro that) simp_all
qed

lemma new_invoice_simps [simp]:
  "inv_id (new_invoice order i f) = i" "inv_orderId (new_invoice order i f) = o_id order"
  "inv_clientId (new_invoice order i f) = o_clientId order" "inv_amount (new_invoice order i f) = invoice_amount order"
  "inv_method (new_invoice order i f) = o_paymentMethod order" "inv_state (new_invoice order i f) = ISSUED"
  by (simp_all add: new_invoice_def)

lemma issueInvoice_invoices_ok:
  assumes "invoices_ok s" "ledger_ok s" "issueInvoice order s = (Inr d, s')"
  shows "invoices_ok s'"
proof -
  obtain f where "d = new_invoice order (w_next_id s) f" "w_invoices s' = w_invoices s @ [d]"
    "w_next_id s < w_next_id s'" "\<forall>x \<in> set (w_invoices s). inv_orderId x \<noteq> o_id order"
    by (rule issueInvoice_ok [OF assms(2,3)])
  with assms(1) show ?thesis by (force simp: invoices_ok_def)
qed

section \<open>Credit\<close>

definition credit_limit :: "user \<Rightarrow> rat" where
  "credit_limit u = (case u_creditLimit u of None \<Rightarrow> 0 | Some l \<Rightarrow> l)"

definition credit_outstanding :: "world \<Rightarrow> oid \<Rightarrow> rat" where
  "credit_outstanding s client =
     (\<Sum>d \<leftarrow> filter (\<lambda>d. inv_clientId d = client \<and> inv_method d = CREDIT \<and> inv_state d = ISSUED) (w_invoices s).
        inv_amount d)"

text \<open>The acting scope sees every invoice of the client: the operator, or the client's own fuel
  company.\<close>

definition sees_client :: "world \<Rightarrow> oid \<Rightarrow> bool" where
  "sees_client s client \<longleftrightarrow> bypasses (w_scope s) \<or>
     (\<forall>d \<in> set (w_invoices s). inv_clientId d = client \<longrightarrow> invoice_party (w_scope s) d)"

lemma getAvailableCredit_val:
  assumes "getAvailableCredit client s = (Inr a, s')" and "sees_client s client"
  shows "\<exists>u. get_by u_id client (w_users s) = Some u \<and>
    a = roundCurrency (credit_limit u - credit_outstanding s client)"
proof -
  from assms(1) obtain u v where u: "get_by u_id client (w_users s) = Some u"
    and v: "invoice_scoping (w_scope s) = Inr v"
    and a: "a = roundCurrency (credit_limit u - sum_list (map inv_amount
      (filter (\<lambda>d. v d \<and> inv_clientId d = client \<and> inv_method d = CREDIT \<and> inv_state d = ISSUED) (w_invoices s))))"
    by (auto simp: getAvailableCredit_def prog_inv credit_limit_def dest: find_one_state)
  have "v d" if "d \<in> set (w_invoices s)" "inv_clientId d = client" for d
    using that assms(2) by (intro invoice_plugin.vis_complete [OF v]) (auto simp: sees_client_def)
  then have "filter (\<lambda>d. v d \<and> inv_clientId d = client \<and> inv_method d = CREDIT \<and> inv_state d = ISSUED) (w_invoices s)
     = filter (\<lambda>d. inv_clientId d = client \<and> inv_method d = CREDIT \<and> inv_state d = ISSUED) (w_invoices s)"
    by (intro filter_cong) auto
  with a u show ?thesis by (auto simp: credit_outstanding_def)
qed

text \<open>C7: issuing a credit invoice never takes a client past their limit: with amounts at two
  decimal places, the client's outstanding credit after the issue is the outstanding before plus
  the invoice, and at most the limit.\<close>

theorem credit_limit_respected:
  assumes "issueInvoice order s = (Inr d, s')" and "o_paymentMethod order = CREDIT"
    and "ledger_ok s" and "sees_client s (o_clientId order)"
    and "get_by u_id (o_clientId order) (w_users s) = Some u" and "currency.on_grid (credit_limit u)"
    and "\<forall>x \<in> set (w_invoices s). currency.on_grid (inv_amount x)"
  shows "credit_outstanding s' (o_clientId order) = credit_outstanding s (o_clientId order) + invoice_amount order \<and>
    credit_outstanding s' (o_clientId order) \<le> credit_limit u"
proof -
  obtain f a where d: "d = new_invoice order (w_next_id s) f" "w_invoices s' = w_invoices s @ [d]"
    and a: "getAvailableCredit (o_clientId order) s = (Inr a, s)" "invoice_amount order \<le> a"
    using issueInvoice_ok [OF assms(3,1)] assms(2) by metis
  have "currency.on_grid (credit_outstanding s (o_clientId order))"
    unfolding credit_outstanding_def using assms(7) by (intro currency.on_grid_sum_list) auto
  with getAvailableCredit_val [OF a(1) assms(4)] assms(5,6)
  have "a = credit_limit u - credit_outstanding s (o_clientId order)"
    by (simp add: currency.rnd_fixes_grid currency.on_grid_diff)
  with d a(2) assms(2) show ?thesis by (simp add: credit_outstanding_def)
qed

section \<open>Settlement and voiding\<close>

lemma invoice_scoping_parties:
  assumes "invoice_scoping c = Inr v" "inv_fuelCompanyId d' = inv_fuelCompanyId d"
    "inv_clientId d' = inv_clientId d" "inv_transportCompanyId d' = inv_transportCompanyId d"
  shows "v d' \<longleftrightarrow> v d"
proof -
  from assms(1) consider "v = (\<lambda>_. True)" | p where "v = invoice_matches p"
    by (auto simp: multi_party_def split: sum.splits option.splits)
  then show ?thesis
  proof cases
    case (2 p)
    with assms show ?thesis by (cases p) auto
  qed simp
qed

lemma settle_fields_simps [simp]:
  "inv_id (settle_fields t r d) = inv_id d" "inv_orderId (settle_fields t r d) = inv_orderId d"
  "inv_state (settle_fields t r d) = SETTLED" "inv_fuelCompanyId (settle_fields t r d) = inv_fuelCompanyId d"
  "inv_clientId (settle_fields t r d) = inv_clientId d" "inv_amount (settle_fields t r d) = inv_amount d"
  "inv_method (settle_fields t r d) = inv_method d"
  "inv_transportCompanyId (settle_fields t r d) = inv_transportCompanyId d"
  by (simp_all add: settle_fields_def)

lemma applySettlement_ok:
  assumes "ledger_ok s" "get_by inv_id (inv_id d0) (w_invoices s) = Some d0"
    "applySettlement d0 ref s = (Inr d, s')"
  shows "ledger_ok s' \<and> inv_state d \<noteq> ISSUED \<and> get_by inv_id (inv_id d0) (w_invoices s') = Some d \<and>
    (d = d0 \<and> s' = s \<or>
     inv_state d0 = ISSUED \<and> d = settle_fields (w_now s) ref d0 \<and>
     (\<exists>s1. s1 = w_invoices_update (upd_by inv_id (inv_id d0) (settle_fields (w_now s) ref)) s \<and>
        accrues CASHBACK_CREDITED (inv_fuelCompanyId d0) (inv_id d0) s1 s'))"
proof (cases "inv_state d0 = ISSUED")
  case True
  let ?s1 = "w_invoices_update (upd_by inv_id (inv_id d0) (settle_fields (w_now s) ref)) s"
  from True assms(3) have d: "d = settle_fields (w_now s) ref d0"
    and acc: "accrueCashback (settle_fields (w_now s) ref d0) ?s1 = (Inr (), s')"
    by (auto simp: applySettlement_def prog_inv)
  have "ledger_ok ?s1" by (rule ledger_ok_frame [OF assms(1)]) simp_all
  with accrueCashback_ok [OF this acc] have acc': "ledger_ok s'"
      "accrues CASHBACK_CREDITED (inv_fuelCompanyId d0) (inv_id d0) ?s1 s'" by simp_all
  then have "w_invoices s' = upd_by inv_id (inv_id d0) (settle_fields (w_now s) ref) (w_invoices s)"
    by (auto dest: accrues_frame)
  with d acc' True assms(2) show ?thesis by (auto simp: get_by_upd_by)
next
  case False
  with assms show ?thesis by (simp add: applySettlement_def prog_inv)
qed

text \<open>Settling is final and happens once: afterwards the invoice is no longer issued, at most
  one cashback movement was accrued, and settling again, with any reference, returns the same
  invoice and changes nothing.\<close>

theorem settle_once:
  assumes "settleById i ref s = (Inr d, s')" and "ledger_ok s"
  shows "inv_state d \<noteq> ISSUED \<and> get_by inv_id i (w_invoices s') = Some d \<and> ledger_ok s' \<and>
    length (w_movements s') \<le> Suc (length (w_movements s)) \<and> settleById i ref2 s' = (Inr d, s')"
proof -
  from assms(1) obtain v d0 where v: "invoice_scoping (w_scope s) = Inr v" and d0: "get_by inv_id i (w_invoices s) = Some d0" "v d0"
    and run: "applySettlement d0 ref s = (Inr d, s')"
    by (auto simp: settleById_def prog_inv)
  then have i: "inv_id d0 = i" by (blast dest: get_by_key)
  note post = applySettlement_ok [OF assms(2) _ run]
  have "get_by inv_id i (w_invoices s') = Some d" "inv_state d \<noteq> ISSUED" "ledger_ok s'"
    using post d0 i by blast+
  moreover have "w_scope s' = w_scope s" "length (w_movements s') \<le> Suc (length (w_movements s))"
    using post d0 i by (auto simp: accrues_def)
  moreover have "v d"
    using post d0 i invoice_scoping_parties [OF v, of d d0] by auto
  ultimately show ?thesis
    using v by (simp add: settleById_def transaction_def bnd_def find_one_def demand_def applySettlement_def ret_def)
qed

text \<open>Voiding an issued invoice, by a scope that sees it and its movements, marks it void,
  brings its commission to a net zero, and gives the client back exactly its amount of credit
  when it was a credit invoice; an invoice that is not issued is left alone.\<close>

theorem void_restores:
  assumes "voidInvoice orderId s = (Inr (), s')" and "invoices_ok s" and "ledger_ok s"
    and "get_by inv_orderId orderId (w_invoices s) = Some d"
    and "invoice_scoping (w_scope s) = Inr v" and "v d" and "sees_invoice_movements s (inv_id d)"
  shows "(inv_state d \<noteq> ISSUED \<longrightarrow> s' = s) \<and>
    (inv_state d = ISSUED \<longrightarrow>
       get_by inv_orderId orderId (w_invoices s') = Some (d\<lparr>inv_state := VOID\<rparr>) \<and>
       invoice_net s' (inv_id d) company kind = 0 \<and>
       credit_outstanding s' (inv_clientId d) =
         credit_outstanding s (inv_clientId d) - (if inv_method d = CREDIT then inv_amount d else 0))"
proof (cases "inv_state d = ISSUED")
  case False
  with assms(1,4,5,6) show ?thesis by (auto simp: voidInvoice_def findInvoiceByOrder_def prog_inv)
next
  case True
  let ?f = "\<lambda>d. d\<lparr>inv_state := VOID\<rparr>"
  let ?s1 = "w_invoices_update (upd_by inv_orderId orderId ?f) s"
  have rev: "reverseMovementsForInvoice (inv_id d) ?s1 = (Inr (), s')"
    using assms(1,4,5,6) True
    by (auto simp: voidInvoice_def findInvoiceByOrder_def prog_inv reverseAccrualsForInvoice_def)
  have "w_invoices s' = w_invoices ?s1"
    by (rule keepsD [OF keeps_reverseMovements rev, of "\<lambda>s. w_invoices s = w_invoices ?s1"]) simp_all
  moreover have "ledger_ok ?s1" by (rule ledger_ok_frame [OF assms(3)]) simp_all
  moreover have "sees_invoice_movements ?s1 (inv_id d)" using assms(7) by (simp add: sees_invoice_movements_def)
  ultimately have inv: "w_invoices s' = upd_by inv_orderId orderId ?f (w_invoices s)"
    and net: "invoice_net s' (inv_id d) company kind = 0"
    using reverse_post [OF _ _ rev] invoice_net_reversed [of s' "inv_id d"] by (auto simp: all_reversed_def)
  let ?w = "\<lambda>x. if inv_clientId x = inv_clientId d \<and> inv_method x = CREDIT \<and> inv_state x = ISSUED then inv_amount x else 0"
  have out: "credit_outstanding t (inv_clientId d) = sum_list (map ?w (w_invoices t))" for t
    by (simp add: credit_outstanding_def sum_list_map_filter')
  have "sum_list (map ?w (upd_by inv_orderId orderId ?f (w_invoices s)))
     = sum_list (map ?w (w_invoices s)) - ?w d + ?w (?f d)"
    using assms(2,4) by (intro sum_list_map_upd_by) (auto simp: invoices_ok_def)
  with True inv net assms(4) show ?thesis by (simp add: out get_by_upd_by)
qed

section \<open>Concrete instances\<close>

definition credit_order :: order where
  "credit_order = blank_order\<lparr>o_paymentMethod := CREDIT\<rparr>"

definition credit_world :: world where
  "credit_world = empty_world\<lparr>w_orders := [credit_order],
     w_users := [blank_user\<lparr>u_creditLimit := Some 200\<rparr>], w_companies := [fuel_company]\<rparr>"

definition issued_world :: world where
  "issued_world = credit_world\<lparr>w_invoices := [new_invoice credit_order 40 1],
     w_movements := [movement_of ((plain_input 1 COMMISSION_CHARGED 25 CONFIRMED)\<lparr>mi_sourceInvoiceId := Some 40\<rparr>) 1 50]\<rparr>"

lemmas credit_defs = credit_world_def issued_world_def credit_order_def sample_defs anonymous_def bypasses_def

lemma credit_worlds_ok:
  "ledger_ok credit_world" "ledger_ok issued_world" "invoices_ok issued_world" "sees_client credit_world c"
  "sees_invoice_movements issued_world iv"
  by (simp_all add: ledger_ok_def invoices_ok_def sees_client_def sees_invoice_movements_def credit_defs
      movement_of_def plain_input_def)

theorem credit_limit_respected_witness:
  "\<exists>d s'. issueInvoice credit_order credit_world = (Inr d, s') \<and> credit_outstanding s' 5 \<le> 200"
proof -
  have "\<not> isl (fst (issueInvoice credit_order credit_world))" by code_simp
  then obtain d s' where run: "issueInvoice credit_order credit_world = (Inr d, s')"
    by (blast dest: run_succeeds)
  have grid: "currency.on_grid 200" unfolding currency.on_grid_def by (rule exI [of _ 20000]) simp
  let ?u = "blank_user\<lparr>u_creditLimit := Some 200\<rparr>"
  have lim: "credit_limit ?u = 200" by (simp add: credit_limit_def)
  have "credit_outstanding s' (o_clientId credit_order) \<le> credit_limit ?u"
    using credit_limit_respected [OF run _ credit_worlds_ok(1) credit_worlds_ok(4), of ?u] grid lim
    by (simp add: credit_defs)
  with run lim show ?thesis by (auto simp: credit_order_def blank_order_def)
qed

theorem settle_once_witness:
  "\<exists>d s'. settleById 40 (Some ''P'') issued_world = (Inr d, s') \<and> settleById 40 None s' = (Inr d, s')"
proof -
  have "\<not> isl (fst (settleById 40 (Some ''P'') issued_world))" by code_simp
  then obtain d s' where run: "settleById 40 (Some ''P'') issued_world = (Inr d, s')"
    by (blast dest: run_succeeds)
  with settle_once [OF run credit_worlds_ok(2)] show ?thesis by blast
qed

theorem void_restores_witness:
  "\<exists>s'. voidInvoice 10 issued_world = (Inr (), s') \<and> invoice_net s' 40 1 COMMISSION_CHARGED = 0"
proof -
  have "\<not> isl (fst (voidInvoice 10 issued_world))" by code_simp
  then obtain s' where run: "voidInvoice 10 issued_world = (Inr (), s')"
    by (auto dest: run_succeeds)
  have "get_by inv_orderId 10 (w_invoices issued_world) = Some (new_invoice credit_order 40 1)"
    "invoice_scoping (w_scope issued_world) = Inr (\<lambda>_. True)"
    by (simp_all add: credit_defs multi_party_def resolveFilter_def resolveFuelCompanyId_def)
  from void_restores [OF run credit_worlds_ok(3,2) this _ credit_worlds_ok(5), of 1 COMMISSION_CHARGED] run
  show ?thesis by simp
qed

end
