(* ===== verification/Queues.thy ===== *)
theory Queues
  imports Tenancy
begin

text \<open>
  The job queues: \<open>modules/payments/queues\<close>, \<open>modules/assignment-escalation/queues\<close>,
  \<open>modules/stop-detection/queues\<close> and \<open>modules/announcements/queues\<close>.  A job is identified by the id of the order, the stop
  or the announcement it is about: adding a job whose id is present is ignored by the queue, and cancelling removes it.
\<close>

datatype job_key = PaymentKey oid | AssignmentKey oid | StopKey oid | AnnouncementKey oid

fun key_of_job :: "job \<Rightarrow> job_key" where
  "key_of_job (PaymentTimeoutJob i due) = PaymentKey i"
| "key_of_job (AssignmentEscalationJob i due) = AssignmentKey i"
| "key_of_job (StopEscalationJob stop i due) = StopKey stop"
| "key_of_job (AnnouncementFanoutJob i) = AnnouncementKey i"

definition add_job :: "job \<Rightarrow> job list \<Rightarrow> job list" where
  "add_job j js = (if key_of_job j \<in> key_of_job ` set js then js else js @ [j])"

definition remove_job :: "job_key \<Rightarrow> job list \<Rightarrow> job list" where
  "remove_job k js = filter (\<lambda>j. key_of_job j \<noteq> k) js"

definition queue_add :: "job \<Rightarrow> unit service" where
  "queue_add j = modify (\<lambda>s. s\<lparr>w_jobs := add_job j (w_jobs s)\<rparr>)"

definition queue_remove :: "job_key \<Rightarrow> unit service" where
  "queue_remove k = modify (\<lambda>s. s\<lparr>w_jobs := remove_job k (w_jobs s)\<rparr>)"

definition minutes :: "int \<Rightarrow> int" where
  "minutes m = m * 60000"

definition schedulePaymentTimeout :: "oid \<Rightarrow> int \<Rightarrow> unit service" where
  "schedulePaymentTimeout orderId delayMinutes =
     bnd (asks w_now) (\<lambda>now. queue_add (PaymentTimeoutJob orderId (now + minutes delayMinutes)))"

definition cancelPaymentTimeout :: "oid \<Rightarrow> unit service" where
  "cancelPaymentTimeout orderId = queue_remove (PaymentKey orderId)"

definition scheduleAssignmentEscalation :: "oid \<Rightarrow> int \<Rightarrow> unit service" where
  "scheduleAssignmentEscalation orderId delayMinutes =
     bnd (asks w_now) (\<lambda>now. queue_add (AssignmentEscalationJob orderId (now + minutes delayMinutes)))"

definition cancelAssignmentEscalation :: "oid \<Rightarrow> unit service" where
  "cancelAssignmentEscalation orderId = queue_remove (AssignmentKey orderId)"

definition scheduleStopEscalation :: "oid \<Rightarrow> oid \<Rightarrow> int \<Rightarrow> unit service" where
  "scheduleStopEscalation stopId orderId delayMinutes =
     bnd (asks w_now) (\<lambda>now. queue_add (StopEscalationJob stopId orderId (now + minutes delayMinutes)))"

definition cancelStopEscalation :: "oid \<Rightarrow> unit service" where
  "cancelStopEscalation stopId = queue_remove (StopKey stopId)"

definition enqueueFanout :: "oid \<Rightarrow> unit service" where
  "enqueueFanout announcementId = queue_add (AnnouncementFanoutJob announcementId)"

lemmas queue_defs = schedulePaymentTimeout_def cancelPaymentTimeout_def
  scheduleAssignmentEscalation_def cancelAssignmentEscalation_def scheduleStopEscalation_def
  cancelStopEscalation_def

lemma queue_add_inv [prog_inv]:
  "queue_add j s = (Inr u, s') \<longleftrightarrow> s' = s\<lparr>w_jobs := add_job j (w_jobs s)\<rparr>"
  "queue_add j s = (Inl e, s') \<longleftrightarrow> False"
  by (auto simp: queue_add_def prog_inv)

lemma queue_remove_inv [prog_inv]:
  "queue_remove k s = (Inr u, s') \<longleftrightarrow> s' = s\<lparr>w_jobs := remove_job k (w_jobs s)\<rparr>"
  "queue_remove k s = (Inl e, s') \<longleftrightarrow> False"
  by (auto simp: queue_remove_def prog_inv)

lemma remove_job_gone: "key_of_job j = k \<Longrightarrow> j \<notin> set (remove_job k js)"
  by (simp add: remove_job_def)

lemma remove_job_other: "key_of_job j \<noteq> k \<Longrightarrow> j \<in> set (remove_job k js) \<longleftrightarrow> j \<in> set js"
  by (simp add: remove_job_def)

lemma keeps_queue:
  assumes "\<And>s js. P s \<Longrightarrow> P (s\<lparr>w_jobs := js\<rparr>)"
  shows "keeps P (schedulePaymentTimeout i m)" "keeps P (cancelPaymentTimeout i)"
    "keeps P (scheduleAssignmentEscalation i m)" "keeps P (cancelAssignmentEscalation i)"
    "keeps P (scheduleStopEscalation k i m)" "keeps P (cancelStopEscalation k)"
  unfolding queue_defs queue_add_def queue_remove_def
  by (intro keeps_bnd keeps_basic keeps_modify assms; assumption)+

end
