(* ===== verification/Notifications.thy ===== *)
theory Notifications
  imports Tenancy Samples
begin

text \<open>
  In-app notifications: \<open>modules/notifications/notifications.service.ts\<close>.  The free-form
  payload is not modelled; who is notified of what, about which order, is.

  Every operation runs unscoped: the recipient, not the acting tenant, is the boundary.
\<close>

definition notify ::
  "oid \<Rightarrow> oid \<Rightarrow> notification_type \<Rightarrow> oid option \<Rightarrow> unit service" where
  "notify companyId recipientUserId type orderId =
     bnd (run_unscoped
       (bnd fresh_id (\<lambda>i.
        bnd (tenant_key companyId) (\<lambda>c.
        insert_doc w_notifications_update
          \<lparr>n_id = i, n_companyId = c, n_recipientUserId = recipientUserId, n_type = type,
           n_orderId = orderId, n_readAt = None\<rparr>)))) (\<lambda>_.
     emit (NotificationNew recipientUserId type orderId))"

definition markRead :: "oid \<Rightarrow> oid \<Rightarrow> notification service" where
  "markRead i recipientUserId =
     bnd (asks w_now) (\<lambda>now.
     bnd (run_unscoped (find_and_update w_notifications w_notifications_update n_id notification_scoping i
            (\<lambda>n. n_recipientUserId n = recipientUserId) (\<lambda>n. n\<lparr>n_readAt := Some now\<rparr>))) (\<lambda>result.
     demand NotFound result))"

definition unread_of :: "oid \<Rightarrow> notification \<Rightarrow> bool" where
  "unread_of recipientUserId n \<longleftrightarrow> n_recipientUserId n = recipientUserId \<and> n_readAt n = None"

definition markAllRead :: "oid \<Rightarrow> nat service" where
  "markAllRead recipientUserId =
     bnd (asks w_now) (\<lambda>now.
     run_unscoped
       (bnd (find_all w_notifications notification_scoping (unread_of recipientUserId)) (\<lambda>matched.
        bnd (update_many w_notifications_update notification_scoping (unread_of recipientUserId)
               (\<lambda>n. n\<lparr>n_readAt := Some now\<rparr>)) (\<lambda>_.
        ret (length matched)))))"

text \<open>What a notification changes: the notification collection, the emissions and the id
  supply, and nothing else.\<close>

definition effects_only :: "world \<Rightarrow> world \<Rightarrow> bool" where
  "effects_only s s' \<longleftrightarrow> w_orders s' = w_orders s \<and>
     w_users s' = w_users s \<and>
     w_stations s' = w_stations s \<and>
     w_trucks s' = w_trucks s \<and>
     w_tanks s' = w_tanks s \<and>
     w_warehouses s' = w_warehouses s \<and>
     w_companies s' = w_companies s \<and>
     w_invoices s' = w_invoices s \<and>
     w_movements s' = w_movements s \<and>
     w_terms s' = w_terms s \<and>
     w_programmes s' = w_programmes s \<and>
     w_balances s' = w_balances s \<and>
     w_events s' = w_events s \<and>
     w_offers s' = w_offers s \<and>
     w_proposals s' = w_proposals s \<and>
     w_jobs s' = w_jobs s \<and>
     w_cache s' = w_cache s \<and>
     w_now s' = w_now s \<and>
     w_scope s' = w_scope s \<and>
     w_config s' = w_config s \<and>
     w_next_id s \<le> w_next_id s'"

lemma effects_onlyD:
  assumes "effects_only s s'"
  shows "w_orders s' = w_orders s" "w_users s' = w_users s" "w_stations s' = w_stations s" "w_trucks s' = w_trucks s"
    "w_tanks s' = w_tanks s" "w_warehouses s' = w_warehouses s" "w_companies s' = w_companies s" "w_invoices s' = w_invoices s"
    "w_movements s' = w_movements s" "w_terms s' = w_terms s" "w_programmes s' = w_programmes s" "w_balances s' = w_balances s"
    "w_events s' = w_events s" "w_offers s' = w_offers s" "w_proposals s' = w_proposals s" "w_jobs s' = w_jobs s"
    "w_cache s' = w_cache s" "w_now s' = w_now s" "w_scope s' = w_scope s" "w_config s' = w_config s"
    "w_next_id s \<le> w_next_id s'"
  using assms by (simp_all add: effects_only_def)

lemma effects_only_refl [simp, intro]: "effects_only s s"
  by (simp add: effects_only_def)

lemma effects_only_trans: "effects_only a b \<Longrightarrow> effects_only b c \<Longrightarrow> effects_only a c"
  by (simp add: effects_only_def)

lemma notify_run: "\<exists>s'. notify c u t i s = (Inr (), s') \<and> effects_only s s'"
  by (simp add: notify_def effects_only_def bnd_def run_unscoped_def fresh_id_def tenant_key_def asks_def of_sum_def
      ret_def insert_doc_def modify_def emit_def)

lemma notify_effects: "notify c u t i s = (r, s') \<Longrightarrow> r = Inr () \<and> effects_only s s'"
  using notify_run [of c u t i s] by auto

lemma for_each_effects:
  assumes "\<And>x s. \<exists>s'. f x s = (Inr (), s') \<and> effects_only s s'"
  shows "\<exists>s'. for_each xs f s = (Inr (), s') \<and> effects_only s s'"
proof (induction xs arbitrary: s)
  case (Cons x xs)
  from assms obtain s1 where s1: "f x s = (Inr (), s1)" "effects_only s s1" by blast
  from Cons obtain s2 where "for_each xs f s1 = (Inr (), s2)" "effects_only s1 s2" by blast
  with s1 show ?case by (auto simp: bnd_def intro: effects_only_trans)
qed (simp add: ret_def)

text \<open>\<open>markAllRead\<close> falsifies its own filter: a second call transitions nothing.\<close>

lemma markAllRead_again:
  assumes "markAllRead u s = (Inr k, s')"
  shows "\<exists>s''. markAllRead u s' = (Inr 0, s'')"
proof -
  have s': "w_notifications s' = upd_where (unread_of u) (\<lambda>n. n\<lparr>n_readAt := Some (w_now s)\<rparr>) (w_notifications s)"
    using assms by (auto simp: markAllRead_def prog_inv)
  have "filter (unread_of u) (upd_where (unread_of u) (\<lambda>n. n\<lparr>n_readAt := Some t\<rparr>) ns) = []" for t ns
    by (induction ns) (auto simp: unread_of_def)
  then show ?thesis
    using s' by (simp add: markAllRead_def bnd_def asks_def run_unscoped_def find_all_def update_many_def ret_def)
qed

end
