(* ===== verification/Frames.thy ===== *)
theory Frames
  imports Fleet Otp Litre_Balances Invoices Queues Notifications
begin

text \<open>
  What the services leave alone.  The locale \<open>service_frame\<close> is the contract of a predicate that
  looks at none of the accounting collections (invoices, movements, litre balances) and none of
  the effects outside the database; \<open>order_frame\<close> adds that it survives a patch to an order
  that touches neither its state nor its parties nor its vehicle.  Every service operation that
  only writes there keeps such a predicate, proved once, and the contracts are interpreted on the
  invariants of the development.
\<close>

definition detail_patch :: "(order \<Rightarrow> order) \<Rightarrow> bool" where
  "detail_patch f \<longleftrightarrow> order_patch f \<and> same_parties f \<and>
     (\<forall>d. o_truckId (f d) = o_truckId d \<and> o_tankId (f d) = o_tankId d)"

definition id_floor :: "oid \<Rightarrow> world \<Rightarrow> bool" where
  "id_floor n s \<longleftrightarrow> n \<le> w_next_id s"

locale service_frame =
  fixes P :: "world \<Rightarrow> bool"
  assumes fr_invoices: "P s \<Longrightarrow> P (w_invoices_update g1 s)"
    and fr_movements: "P s \<Longrightarrow> P (w_movements_update g2 s)"
    and fr_balances: "P s \<Longrightarrow> P (w_balances_update g3 s)"
    and fr_notifications: "P s \<Longrightarrow> P (w_notifications_update g4 s)"
    and fr_next: "P s \<Longrightarrow> P (s\<lparr>w_next_id := Suc (w_next_id s)\<rparr>)"
    and fr_emits: "P s \<Longrightarrow> P (s\<lparr>w_emits := es\<rparr>)"
    and fr_jobs: "P s \<Longrightarrow> P (s\<lparr>w_jobs := js\<rparr>)"
    and fr_cache: "P s \<Longrightarrow> P (s\<lparr>w_cache := c\<rparr>)"
    and fr_scope: "P s \<Longrightarrow> P (s\<lparr>w_scope := ctx\<rparr>)"
    and fr_rollback: "P s \<Longrightarrow> w_next_id s \<le> w_next_id s' \<Longrightarrow> P (rollback s s')"
begin

lemma keeps_transaction:
  assumes "keeps P m" "\<And>n. keeps (id_floor n) m"
  shows "keeps P (transaction m)"
proof (rule keepsI)
  fix s r s' assume s: "P s" and run: "transaction m s = (r, s')"
  show "P s'"
  proof (cases r)
    case (Inl e)
    with run obtain s1 where s1: "m s = (Inl e, s1)" "s' = rollback s s1" by (auto simp: prog_inv)
    have "id_floor (w_next_id s) s1" using keepsD [OF assms(2) s1(1)] by (simp add: id_floor_def)
    with s s1 fr_rollback show ?thesis by (simp add: id_floor_def)
  next
    case (Inr a)
    with run have "m s = (Inr a, s')" by (simp add: prog_inv)
    with assms(1) s show ?thesis by (auto dest: keepsD)
  qed
qed

lemma keeps_ledger: "keeps P (createMovement input)" "keeps P (reverseMovementsForInvoice iv)" "keeps P (reverseAccrualsForInvoice iv)"
proof -
  show "keeps P (createMovement input)" by (rule keeps_createMovement) (rule fr_movements fr_next, assumption)+
  show "keeps P (reverseMovementsForInvoice iv)" by (rule keeps_reverseMovements) (rule fr_movements fr_next, assumption)+
  then show "keeps P (reverseAccrualsForInvoice iv)" by (simp add: reverseAccrualsForInvoice_def)
qed

lemma keeps_reading: "keeps P (findInvoiceByOrder i)" "keeps P (getConfirmedBalance c k)" "keeps P (getNetCommissionOwed c)"
  "keeps P (assertUnderCeiling c)" "keeps P (getAvailableCredit c)"
  by (auto intro!: keepsI simp: findInvoiceByOrder_def dest!: getConfirmedBalance_state getNetCommissionOwed_state
      assertUnderCeiling_state getAvailableCredit_state keepsD [OF keeps_reads(1)])

lemma keeps_voidInvoice: "keeps P (voidInvoice i)"
  unfolding voidInvoice_def
  by (intro keeps_bnd keeps_reading keeps_option keeps_basic keeps_if keeps_find_and_update keeps_ledger fr_invoices)

lemma keeps_accruals: "keeps P (accrueCommission c d)" "keeps P (accrueCashback d)"
  unfolding accrueCommission_def accrueCashback_def getCurrentCommissionTerm_def getCurrentCashbackProgramme_def Let_def
  by (intro keeps_bnd keeps_option keeps_basic keeps_if keeps_ledger)+

lemma keeps_settle: "keeps P (applySettlement d pr)" "keeps P (settleInvoiceForOrder i pr)"
proof -
  show 1: "keeps P (applySettlement d pr)" for d
    unfolding applySettlement_def by (intro keeps_bnd keeps_basic keeps_if keeps_modify keeps_accruals fr_invoices)
  show "keeps P (settleInvoiceForOrder i pr)"
    unfolding settleInvoiceForOrder_def by (intro keeps_bnd keeps_basic keeps_reading 1)
qed

lemma keeps_new_movement: "keeps P (new_movement k l j rs a)"
  unfolding new_movement_def by (intro keeps_bnd keeps_basic keeps_fresh_id fr_next)

lemma keeps_balance_ops: "keeps P (drawdown_loop n c u t i q a)" "keeps P (drawdown c u t i q a)" "keeps P (returnDrawdown c u t i a)"
proof -
  show 1: "keeps P (drawdown_loop n c u t i q a)" for n
  proof (induction n)
    case (Suc n)
    then show ?case
      by (auto simp: Let_def intro!: keeps_bnd [OF keeps_findOrNull] keeps_option keeps_if keeps_bnd [OF keeps_new_movement]
          keeps_bnd [OF keeps_find_and_update] fr_balances)
  qed simp
  then show "keeps P (drawdown c u t i q a)" by (simp add: drawdown_def)
  show "keeps P (returnDrawdown c u t i a)" unfolding returnDrawdown_def
    by (intro keeps_bnd keeps_findOrNull keeps_option keeps_if keeps_basic keeps_new_movement keeps_find_and_update fr_balances)
qed

lemma keeps_queues: "keeps P (schedulePaymentTimeout i m)" "keeps P (cancelPaymentTimeout i)"
  "keeps P (scheduleAssignmentEscalation i m)" "keeps P (cancelAssignmentEscalation i)"
  "keeps P (scheduleStopEscalation k i m)" "keeps P (cancelStopEscalation k)"
  by (rule keeps_queue; erule fr_jobs)+

lemma keeps_emission: "keeps P (emit x)"
  by (rule keeps_emit) (rule fr_emits)

lemma keeps_notify: "keeps P (notify c u t i)"
  unfolding notify_def
  by (intro keeps_bnd keeps_run_unscoped keeps_fresh_id keeps_tenant_key keeps_insert_doc keeps_emission
      fr_next fr_notifications fr_scope)

lemma keeps_caches: "keeps P (clearCache k)" "keeps P (cachePlaintext k x m)" "keeps P (issueRecord sha x salt k m)"
  by (rule keeps_cache; erule fr_cache)+

end

locale order_frame = service_frame +
  assumes fr_patch: "detail_patch f \<Longrightarrow> P s \<Longrightarrow> P (w_orders_update (upd_by o_id i f) s)"
begin

lemma keeps_patch: "detail_patch f \<Longrightarrow> keeps P (update_order i Q f)"
  unfolding update_order_def by (intro keeps_find_and_update fr_patch)

lemma otp_detail: "detail_patch (pull_unused p)" "detail_patch (push_otp r)" "detail_patch (set_otp k g)" "detail_patch (use_all t)"
  by (simp_all add: detail_patch_def) (simp_all add: pull_unused_def push_otp_def set_otp_def use_all_def)

lemma keeps_otp: "keeps P (issue sha code salt i p)" "keeps P (verify sha i p x)" "keeps P (invalidateActive i)"
proof -
  show "keeps P (issue sha code salt i p)" unfolding issue_def
    by (intro keeps_bnd keeps_basic keeps_find_order keeps_if keeps_caches keeps_patch keeps_emission otp_detail)
  show "keeps P (invalidateActive i)" unfolding invalidateActive_def
    by (intro keeps_bnd keeps_basic keeps_caches keeps_patch otp_detail)
  have 1: "keeps P (case y of NOT_FOUND \<Rightarrow> a | EXPIRED \<Rightarrow> b | LOCKED_OUT \<Rightarrow> c | MISMATCH \<Rightarrow> d | MATCH \<Rightarrow> e)"
    if "keeps P a" "keeps P b" "keeps P c" "keeps P d" "keeps P e" for y and a b c d e :: "unit service"
    using that by (cases y) auto
  show "keeps P (verify sha i p x)" unfolding verify_def
    by (intro keeps_bnd keeps_basic keeps_find_order keeps_option 1 keeps_caches keeps_patch otp_detail)
qed

lemma keeps_issueInvoice: "keeps P (issueInvoice d)"
proof -
  have "detail_patch (\<lambda>d. d\<lparr>o_invoiceId := x\<rparr>)" for x
    by (simp add: detail_patch_def order_patch_def same_parties_def)
  moreover have "keeps P (owning_fuel_company c)" for c
    unfolding owning_fuel_company_def by (intro keeps_bnd keeps_basic)
  ultimately show ?thesis
    unfolding issueInvoice_def insert_invoice_def
    by (intro keeps_bnd keeps_basic keeps_if keeps_reading keeps_fresh_id keeps_insert_doc keeps_patch keeps_accruals
        fr_next fr_invoices)
qed

end

interpretation floor: service_frame "id_floor n"
  by unfold_locales (simp_all add: id_floor_def)

interpretation orders_inv: order_frame orders_ok
proof unfold_locales
  fix s i f assume f: "detail_patch f" and ok: "orders_ok s"
  show "orders_ok (w_orders_update (upd_by o_id i f) s)"
  proof (cases "get_by o_id i (w_orders s)")
    case None
    with ok show ?thesis by (simp add: orders_ok_def upd_by_None)
  next
    case (Some d)
    with ok have "order_ok d" by (auto simp: orders_ok_def dest: get_by_mem)
    with f have "order_ok (f d)" by (simp add: detail_patch_def order_ok_patch)
    with ok Some show ?thesis
      by (rule orders_ok_upd_by) (use f in \<open>simp_all add: detail_patch_def order_patch_def\<close>)
  qed
next
  fix s s' :: world assume "orders_ok s" "w_next_id s \<le> w_next_id s'"
  then show "orders_ok (rollback s s')" by (auto intro: orders_ok_frame)
qed simp_all

interpretation fleet_inv: order_frame fleet_ok
proof unfold_locales
  fix s i f assume f: "detail_patch f" and ok: "fleet_ok s"
  show "fleet_ok (w_orders_update (upd_by o_id i f) s)"
  proof (cases "get_by o_id i (w_orders s)")
    case None
    with ok show ?thesis by (simp add: fleet_ok_def upd_by_None)
  next
    case (Some d)
    with ok show ?thesis
      by (rule fleet_frame) (use f in \<open>simp_all add: detail_patch_def order_patch_def same_parties_def\<close>)
  qed
qed (simp_all add: fleet_ok_def)

text \<open>The fleet and the orders stand still under everything that only keeps accounts.\<close>

definition fleet_at :: "user list \<Rightarrow> truck list \<Rightarrow> tank list \<Rightarrow> order list \<Rightarrow> world \<Rightarrow> bool" where
  "fleet_at us trs tns os s \<longleftrightarrow> w_users s = us \<and> w_trucks s = trs \<and> w_tanks s = tns \<and> w_orders s = os"

interpretation still: service_frame "fleet_at us trs tns os"
  by unfold_locales (simp_all add: fleet_at_def)

lemma keeps_transition_any:
  assumes "\<And>s g. P s \<Longrightarrow> P (w_orders_update g s)" "\<And>s es. P s \<Longrightarrow> P (s\<lparr>w_emits := es\<rparr>)"
  shows "keeps P (transition i src to actor opts)"
  unfolding transition_def emit_status_def update_order_def
  by (intro keeps_option keeps_bnd keeps_basic keeps_find_and_update keeps_emit keeps_find_order assms)

lemma keeps_release:
  assumes "\<And>s g. P s \<Longrightarrow> P (w_users_update g s)" "\<And>s g. P s \<Longrightarrow> P (w_trucks_update g s)"
    "\<And>s g. P s \<Longrightarrow> P (w_tanks_update g s)" "\<And>s c. P s \<Longrightarrow> P (s\<lparr>w_scope := c\<rparr>)"
  shows "keeps P (release_driver i r)" "keeps P (release_truck i r)" "keeps P (release_tank i r)"
    "keeps P (releaseDriverIfAssigned d)"
proof -
  show 1: "keeps P (release_driver i r)" "keeps P (release_truck i r)" "keeps P (release_tank i r)" for i r
    unfolding release_driver_def release_truck_def release_tank_def release_doc_def
    by (intro keeps_option keeps_bnd keeps_basic keeps_find_and_update assms; assumption)+
  show "keeps P (releaseDriverIfAssigned d)"
    unfolding releaseDriverIfAssigned_def by (intro keeps_run_unscoped keeps_bnd 1 assms)
qed

end
