(* ===== verification/Pricing.thy ===== *)
theory Pricing
  imports Tenancy Samples Money
begin

text \<open>
  What an order costs: \<open>modules/orders/services/pricing.service.ts\<close> (quotes),
  \<open>modules/orders/services/transport-pricing.service.ts\<close> (the delivery leg), with the lookups
  they use of \<open>companies.service.ts\<close> and \<open>warehouses.service.ts\<close>.

  A quote token is base64url JSON with no authority of its own; it is represented by what it
  decodes to, \<open>None\<close> for a string that does not decode.  The distance MongoDB's \<open>$geoNear\<close>
  measures is the parameter \<open>geo\<close>, in metres.
\<close>

section \<open>Companies and warehouses\<close>

definition findCompany :: "oid \<Rightarrow> company service" where
  "findCompany i = bnd (asks (\<lambda>s. get_by c_id i (w_companies s))) (demand NotFound)"

definition isActiveCompany :: "oid \<Rightarrow> bool service" where
  "isActiveCompany i = asks (\<lambda>s. case get_by c_id i (w_companies s) of
     None \<Rightarrow> False | Some c \<Rightarrow> c_status c = ACTIVE)"

definition getBasePrice :: "oid \<Rightarrow> fuel_type \<Rightarrow> rat option service" where
  "getBasePrice companyId fuelType = asks (\<lambda>s. case get_by c_id companyId (w_companies s) of
     None \<Rightarrow> None
   | Some c \<Rightarrow> map_option fp_basePricePerLiter (find (\<lambda>p. fp_fuelType p = fuelType) (c_fuelPrices c)))"

definition getPricingConfig :: "oid \<Rightarrow> pricing_config option service" where
  "getPricingConfig companyId = asks (\<lambda>s. case get_by c_id companyId (w_companies s) of
     None \<Rightarrow> None | Some c \<Rightarrow> c_pricingConfig c)"

definition sells_grade :: "fuel_type \<Rightarrow> company \<Rightarrow> bool" where
  "sells_grade fuelType c \<longleftrightarrow> list_ex (\<lambda>p. fp_fuelType p = fuelType) (c_fuelPrices c)"

definition findActiveFuelCompaniesSellingGrade :: "fuel_type \<Rightarrow> oid option \<Rightarrow> company list service" where
  "findActiveFuelCompaniesSellingGrade fuelType excluding = asks (\<lambda>s. filter (\<lambda>c.
     c_type c = FUEL \<and> c_status c = ACTIVE \<and> sells_grade fuelType c \<and> Some (c_id c) \<noteq> excluding) (w_companies s))"

definition findSuspendedFuelCompanyIds :: "oid list service" where
  "findSuspendedFuelCompanyIds = asks (\<lambda>s. map c_id (filter (\<lambda>c.
     c_type c = FUEL \<and> c_status c = SUSPENDED) (w_companies s)))"

definition findServingTransporters :: "oid \<Rightarrow> region_code \<Rightarrow> company list service" where
  "findServingTransporters fuelCompanyId regionCode = asks (\<lambda>s. filter (\<lambda>c.
     c_type c = TRANSPORT \<and> c_parentFuelCompanyId c = Some fuelCompanyId \<and> c_status c = ACTIVE \<and>
     regionCode \<in> set (c_servedRegions c)) (w_companies s))"

definition supplies :: "fuel_type \<Rightarrow> warehouse \<Rightarrow> bool" where
  "supplies fuelType w \<longleftrightarrow> wh_isActive w \<and> fuelType \<in> set (wh_fuelTypes w)"

definition nearer :: "('w \<Rightarrow> rat) \<Rightarrow> ('w \<times> rat) option \<Rightarrow> 'w \<Rightarrow> ('w \<times> rat) option" where
  "nearer g best w = (case best of
     None \<Rightarrow> Some (w, g w)
   | Some (w0, d0) \<Rightarrow> if g w < d0 then Some (w, g w) else Some (w0, d0))"

definition findNearestSupplying ::
  "(coords \<Rightarrow> coords \<Rightarrow> rat) \<Rightarrow> coords \<Rightarrow> fuel_type \<Rightarrow> (warehouse \<times> rat) option service" where
  "findNearestSupplying geo coordinates fuelType = asks (\<lambda>s.
     foldl (nearer (\<lambda>w. geo coordinates (wh_location w))) None (filter (supplies fuelType) (w_warehouses s)))"

section \<open>The delivery leg\<close>

record delivery_target =
  dt_regionCode :: region_code
  dt_governorateCode :: "governorate_code option"
  dt_coordinates :: coords

definition rateFor :: "delivery_rate list \<Rightarrow> delivery_target \<Rightarrow> delivery_rate option" where
  "rateFor rates target =
     (case find (\<lambda>r. dr_regionCode r = dt_regionCode target \<and> dt_governorateCode target \<noteq> None \<and>
            dr_governorateCode r = dt_governorateCode target) rates of
        Some r \<Rightarrow> Some r
      | None \<Rightarrow> find (\<lambda>r. dr_regionCode r = dt_regionCode target \<and> dr_governorateCode r = None) rates)"

definition feeForCompany ::
  "(coords \<Rightarrow> coords \<Rightarrow> rat) \<Rightarrow> oid \<Rightarrow> delivery_target \<Rightarrow> fuel_type \<Rightarrow> rat service" where
  "feeForCompany geo transportCompanyId target fuelType =
     bnd (findCompany transportCompanyId) (\<lambda>company.
     bnd (demand (Conflict (Some TRANSPORT_PRICE_NOT_SET)) (rateFor (c_deliveryRates company) target)) (\<lambda>rate.
     bnd (findNearestSupplying geo (dt_coordinates target) fuelType) (\<lambda>nearest.
     bnd (demand (Conflict (Some NO_WAREHOUSE_FOR_GRADE)) nearest) (\<lambda>warehouse.
     ret (roundCurrency (max (dr_minPrice rate) (snd warehouse / 1000 * dr_pricePerKm rate)))))))"

section \<open>Quotes\<close>

record live_rates =
  lr_unitPrice :: rat
  lr_serviceFeePercent :: rat
  lr_taxRatePercent :: rat

definition currentRates :: "oid \<Rightarrow> fuel_type \<Rightarrow> live_rates service" where
  "currentRates fuelCompanyId fuelType =
     bnd (getBasePrice fuelCompanyId fuelType) (\<lambda>unitPrice.
     bnd (getPricingConfig fuelCompanyId) (\<lambda>pricingConfig.
     case (unitPrice, pricingConfig) of
       (Some p, Some c) \<Rightarrow> ret \<lparr>lr_unitPrice = p, lr_serviceFeePercent = pc_serviceFeePercent c,
                              lr_taxRatePercent = pc_taxRatePercent c\<rparr>
     | _ \<Rightarrow> throw (Conflict (Some PRICING_NOT_CONFIGURED))))"

definition priceWithTransport :: "price_breakdown \<Rightarrow> rat \<Rightarrow> rat \<Rightarrow> price_breakdown" where
  "priceWithTransport quoted quantityLiters deliveryFee =
     derivePriceBreakdown (pb_unitPrice quoted) quantityLiters (Some deliveryFee)
       (pb_serviceFeePercent quoted) (pb_taxRatePercent quoted)"

definition price_at :: "live_rates \<Rightarrow> rat \<Rightarrow> price_breakdown" where
  "price_at rates quantityLiters = derivePriceBreakdown (lr_unitPrice rates) quantityLiters None
     (lr_serviceFeePercent rates) (lr_taxRatePercent rates)"

definition priceWithoutQuote :: "oid \<Rightarrow> fuel_type \<Rightarrow> rat \<Rightarrow> price_breakdown service" where
  "priceWithoutQuote fuelCompanyId fuelType quantityLiters =
     bnd (currentRates fuelCompanyId fuelType) (\<lambda>rates. ret (price_at rates quantityLiters))"

record quote_payload =
  qp_fuelCompanyId :: oid
  qp_fuelType :: fuel_type
  qp_quantityLiters :: rat
  qp_unitPrice :: rat
  qp_serviceFeePercent :: rat
  qp_taxRatePercent :: rat
  qp_expiresAt :: instant

type_synonym quote_token = "quote_payload option"

record quote_result =
  qr_breakdown :: price_breakdown
  qr_quoteToken :: quote_token
  qr_expiresAt :: instant

definition quote :: "oid \<Rightarrow> fuel_type \<Rightarrow> rat \<Rightarrow> quote_result service" where
  "quote fuelCompanyId fuelType quantityLiters =
     bnd (currentRates fuelCompanyId fuelType) (\<lambda>rates.
     bnd (asks (\<lambda>s. w_now s + cfg_quoteExpiryMinutes (w_config s) * 60000)) (\<lambda>expiresAt.
     ret \<lparr>qr_breakdown = price_at rates quantityLiters,
          qr_quoteToken = Some \<lparr>qp_fuelCompanyId = fuelCompanyId, qp_fuelType = fuelType,
            qp_quantityLiters = quantityLiters, qp_unitPrice = lr_unitPrice rates,
            qp_serviceFeePercent = lr_serviceFeePercent rates, qp_taxRatePercent = lr_taxRatePercent rates,
            qp_expiresAt = expiresAt\<rparr>,
          qr_expiresAt = expiresAt\<rparr>))"

definition redeem :: "quote_token \<Rightarrow> oid \<Rightarrow> fuel_type \<Rightarrow> rat \<Rightarrow> price_breakdown service" where
  "redeem quoteToken fuelCompanyId fuelType quantityLiters =
     bnd (demand (Conflict (Some QUOTE_EXPIRED)) quoteToken) (\<lambda>payload.
     bnd (asks w_now) (\<lambda>now.
     bnd (guard (\<not> qp_expiresAt payload \<le> now) (Conflict (Some QUOTE_EXPIRED))) (\<lambda>_.
     bnd (if qp_fuelCompanyId payload \<noteq> fuelCompanyId \<or> qp_fuelType payload \<noteq> fuelType \<or>
             qp_quantityLiters payload \<noteq> quantityLiters
          then bnd (quote fuelCompanyId fuelType quantityLiters) (\<lambda>_. throw (Conflict (Some QUOTE_STALE)))
          else ret ()) (\<lambda>_.
     bnd (currentRates fuelCompanyId fuelType) (\<lambda>rates.
     bnd (guard (\<not> (lr_unitPrice rates \<noteq> qp_unitPrice payload \<or>
                    lr_serviceFeePercent rates \<noteq> qp_serviceFeePercent payload \<or>
                    lr_taxRatePercent rates \<noteq> qp_taxRatePercent payload)) (Conflict (Some QUOTE_STALE))) (\<lambda>_.
     ret (price_at rates quantityLiters)))))))"

section \<open>Lemmas\<close>

lemma currentRates_inv:
  "currentRates f t s = (Inr r, s') \<longleftrightarrow> s' = s \<and> (\<exists>c p cfg. get_by c_id f (w_companies s) = Some c \<and>
     find (\<lambda>p. fp_fuelType p = t) (c_fuelPrices c) = Some p \<and> c_pricingConfig c = Some cfg \<and>
     r = \<lparr>lr_unitPrice = fp_basePricePerLiter p, lr_serviceFeePercent = pc_serviceFeePercent cfg,
          lr_taxRatePercent = pc_taxRatePercent cfg\<rparr>)"
  by (auto simp: currentRates_def getBasePrice_def getPricingConfig_def prog_inv
      split: option.splits)

lemma currentRates_state: "currentRates f t s = (r, s') \<Longrightarrow> s' = s"
  by (auto simp: currentRates_def getBasePrice_def getPricingConfig_def bnd_def asks_def ret_def throw_def
      split: option.splits)

lemma redeem_okD:
  assumes "redeem tok f t q s = (Inr b, s')"
  obtains payload rates where "tok = Some payload" "w_now s < qp_expiresAt payload" "s' = s"
    "qp_fuelCompanyId payload = f" "qp_fuelType payload = t" "qp_quantityLiters payload = q"
    "currentRates f t s = (Inr rates, s)" "b = price_at rates q"
    "lr_unitPrice rates = qp_unitPrice payload" "lr_serviceFeePercent rates = qp_serviceFeePercent payload"
    "lr_taxRatePercent rates = qp_taxRatePercent payload"
proof -
  from assms obtain payload rates s1 where p: "tok = Some payload" "w_now s < qp_expiresAt payload"
    "qp_fuelCompanyId payload = f" "qp_fuelType payload = t" "qp_quantityLiters payload = q"
    and rates: "currentRates f t s = (Inr rates, s1)" "s' = s1" "b = price_at rates q"
    "lr_unitPrice rates = qp_unitPrice payload" "lr_serviceFeePercent rates = qp_serviceFeePercent payload"
    "lr_taxRatePercent rates = qp_taxRatePercent payload"
    by (auto simp: redeem_def prog_inv)
  moreover have "s1 = s" using rates(1) by (rule currentRates_state)
  ultimately show thesis by (intro that) simp_all
qed

lemma redeem_runI:
  assumes "w_now s < qp_expiresAt p" "qp_fuelCompanyId p = f" "qp_fuelType p = t" "qp_quantityLiters p = q"
    "currentRates f t s = (Inr rates, s)" "lr_unitPrice rates = qp_unitPrice p"
    "lr_serviceFeePercent rates = qp_serviceFeePercent p" "lr_taxRatePercent rates = qp_taxRatePercent p"
  shows "redeem (Some p) f t q s = (Inr (price_at rates q), s)"
  using assms by (simp add: redeem_def bnd_def demand_def asks_def guard_def ret_def)

section \<open>Properties\<close>

text \<open>A quote can be redeemed at the price it showed, at any later moment before it expires,
  as long as the fuel company's live rates are the ones quoted; and not after it has expired.\<close>

theorem quote_redeem_roundtrip:
  assumes "quote f t q s = (Inr qr, s')" and "currentRates f t s2 = (fst (currentRates f t s), s2)"
  shows "(w_now s2 < qr_expiresAt qr \<longrightarrow> redeem (qr_quoteToken qr) f t q s2 = (Inr (qr_breakdown qr), s2)) \<and>
    (qr_expiresAt qr \<le> w_now s2 \<longrightarrow> redeem (qr_quoteToken qr) f t q s2 = (Inl (Conflict (Some QUOTE_EXPIRED)), s2))"
proof -
  from assms(1) obtain rates where rates: "currentRates f t s = (Inr rates, s)"
    and qr: "qr = \<lparr>qr_breakdown = price_at rates q,
          qr_quoteToken = Some \<lparr>qp_fuelCompanyId = f, qp_fuelType = t,
            qp_quantityLiters = q, qp_unitPrice = lr_unitPrice rates,
            qp_serviceFeePercent = lr_serviceFeePercent rates, qp_taxRatePercent = lr_taxRatePercent rates,
            qp_expiresAt = w_now s + cfg_quoteExpiryMinutes (w_config s) * 60000\<rparr>,
          qr_expiresAt = w_now s + cfg_quoteExpiryMinutes (w_config s) * 60000\<rparr>"
    by (auto simp: quote_def prog_inv dest: currentRates_state)
  with assms(2) have live: "currentRates f t s2 = (Inr rates, s2)" by simp
  have expired: "qp_expiresAt p \<le> w_now s2 \<Longrightarrow> redeem (Some p) f t q s2 = (Inl (Conflict (Some QUOTE_EXPIRED)), s2)" for p
    by (simp add: redeem_def bnd_def demand_def asks_def guard_def)
  show ?thesis
    unfolding qr using redeem_runI [OF _ _ _ _ live] expired by simp
qed

text \<open>Whatever token is presented, forged or genuine, an order is priced at the live rates:
  a redeemed price is the price the same order would have without a quote, and the token was
  neither expired nor issued for other inputs.\<close>

theorem redeem_is_live_price:
  assumes "redeem tok f t q s = (Inr b, s')"
  shows "priceWithoutQuote f t q s = (Inr b, s) \<and> s' = s \<and>
    (\<exists>p. tok = Some p \<and> w_now s < qp_expiresAt p \<and> qp_fuelCompanyId p = f \<and> qp_fuelType p = t \<and> qp_quantityLiters p = q)"
  using assms by (rule redeem_okD) (auto simp: priceWithoutQuote_def bnd_def ret_def)

lemma nearest_fold_None: "foldl (nearer g) None ws = None \<Longrightarrow> ws = []"
  by (induction ws rule: rev_induct) (auto simp: nearer_def split: option.splits if_splits)

lemma nearer_Some: "nearer g (Some (w0, d0)) x = Some (if g x < d0 then (x, g x) else (w0, d0))"
  by (simp add: nearer_def)

lemma nearest_fold:
  "foldl (nearer g) None ws = Some (w, d) \<Longrightarrow> w \<in> set ws \<and> d = g w \<and> (\<forall>x \<in> set ws. d \<le> g x)"
proof (induction ws arbitrary: w d rule: rev_induct)
  case (snoc x xs)
  show ?case
  proof (cases "foldl (nearer g) None xs")
    case None
    then have "xs = []" by (rule nearest_fold_None)
    with snoc.prems show ?thesis by (auto simp: nearer_def)
  next
    case (Some p)
    obtain w0 d0 where p: "p = (w0, d0)" by (cases p)
    with Some snoc.IH have "w0 \<in> set xs" "d0 = g w0" "\<forall>x \<in> set xs. d0 \<le> g x" by blast+
    moreover from snoc.prems Some p have "(if g x < d0 then (x, g x) else (w0, d0)) = (w, d)"
      by (simp only: foldl_append foldl_Cons foldl_Nil nearer_Some option.inject)
    ultimately show ?thesis by (auto split: if_splits)
  qed
qed simp

text \<open>The fee of a haul is the chosen transporter's own rate for the area, the governorate's
  where it set one and the region's otherwise, applied to the nearest warehouse in service that
  supplies the grade, and never below that rate's minimum.\<close>

theorem fee_for_company_sound:
  assumes "feeForCompany geo tc target grade s = (Inr fee, s')"
  shows "\<exists>company r w. get_by c_id tc (w_companies s) = Some company \<and> r \<in> set (c_deliveryRates company) \<and>
    dr_regionCode r = dt_regionCode target \<and>
    (dr_governorateCode r = None \<or> dr_governorateCode r = dt_governorateCode target) \<and>
    (\<forall>r' \<in> set (c_deliveryRates company). dr_regionCode r' = dt_regionCode target \<longrightarrow>
       dt_governorateCode target \<noteq> None \<longrightarrow> dr_governorateCode r' = dt_governorateCode target \<longrightarrow>
       dr_governorateCode r = dt_governorateCode target) \<and>
    w \<in> set (w_warehouses s) \<and> supplies grade w \<and>
    (\<forall>w' \<in> set (w_warehouses s). supplies grade w' \<longrightarrow>
       geo (dt_coordinates target) (wh_location w) \<le> geo (dt_coordinates target) (wh_location w')) \<and>
    fee = roundCurrency (max (dr_minPrice r) (geo (dt_coordinates target) (wh_location w) / 1000 * dr_pricePerKm r)) \<and>
    roundCurrency (dr_minPrice r) \<le> fee"
proof -
  from assms obtain company r w d where c: "get_by c_id tc (w_companies s) = Some company"
    and r: "rateFor (c_deliveryRates company) target = Some r"
    and near: "findNearestSupplying geo (dt_coordinates target) grade s = (Inr (Some (w, d)), s)"
    and fee: "fee = roundCurrency (max (dr_minPrice r) (d / 1000 * dr_pricePerKm r))"
    by (auto simp: feeForCompany_def findCompany_def findNearestSupplying_def prog_inv)
  from r have "r \<in> set (c_deliveryRates company)" "dr_regionCode r = dt_regionCode target"
      "dr_governorateCode r = None \<or> dr_governorateCode r = dt_governorateCode target"
    and most: "\<forall>r' \<in> set (c_deliveryRates company). dr_regionCode r' = dt_regionCode target \<longrightarrow>
       dt_governorateCode target \<noteq> None \<longrightarrow> dr_governorateCode r' = dt_governorateCode target \<longrightarrow>
       dr_governorateCode r = dt_governorateCode target"
    by (auto simp: rateFor_def find_Some_iff find_None_iff split: option.splits)
  moreover from near have "w \<in> set (filter (supplies grade) (w_warehouses s)) \<and> d = geo (dt_coordinates target) (wh_location w) \<and>
     (\<forall>x \<in> set (filter (supplies grade) (w_warehouses s)). d \<le> geo (dt_coordinates target) (wh_location x))"
    unfolding findNearestSupplying_def asks_inv by (intro nearest_fold) simp
  moreover have "roundCurrency (dr_minPrice r) \<le> fee"
    unfolding fee by (rule currency.rnd_mono) simp
  ultimately show ?thesis using c fee
    by (intro exI [of _ company] exI [of _ r] exI [of _ w] conjI) (simp_all only: set_filter mem_Collect_eq, blast+)
qed

section \<open>Concrete instances\<close>

definition priced_world :: world where
  "priced_world = empty_world\<lparr>w_companies := [fuel_company, transport_company],
     w_warehouses := [depot]\<rparr>"

theorem quote_redeem_roundtrip_witness:
  "\<exists>qr. quote 1 DIESEL 100 priced_world = (Inr qr, priced_world) \<and>
     redeem (qr_quoteToken qr) 1 DIESEL 100 priced_world = (Inr (qr_breakdown qr), priced_world)"
proof -
  have rates: "currentRates 1 DIESEL priced_world = (fst (currentRates 1 DIESEL priced_world), priced_world)"
    using currentRates_state by (metis prod.collapse)
  obtain qr where run: "quote 1 DIESEL 100 priced_world = (Inr qr, priced_world)" "w_now priced_world < qr_expiresAt qr"
    by (auto simp: quote_def prog_inv currentRates_inv priced_world_def sample_defs)
  with quote_redeem_roundtrip [OF run(1) rates] show ?thesis by blast
qed

theorem redeem_is_live_price_witness:
  "\<exists>tok b. redeem tok 1 DIESEL 100 priced_world = (Inr b, priced_world) \<and>
     priceWithoutQuote 1 DIESEL 100 priced_world = (Inr b, priced_world)"
proof -
  let ?tok = "Some \<lparr>qp_fuelCompanyId = 1, qp_fuelType = DIESEL, qp_quantityLiters = 100, qp_unitPrice = 2,
     qp_serviceFeePercent = 5, qp_taxRatePercent = 15, qp_expiresAt = 5000\<rparr>"
  have "\<not> isl (fst (redeem ?tok 1 DIESEL 100 priced_world))" by code_simp
  then obtain b s' where run: "redeem ?tok 1 DIESEL 100 priced_world = (Inr b, s')" by (blast dest: run_succeeds)
  from redeem_is_live_price [OF run] run show ?thesis by blast
qed

theorem fee_for_company_sound_witness:
  "\<exists>fee s'. feeForCompany (\<lambda>_ _. 20000) 2 \<lparr>dt_regionCode = ''RIYADH'', dt_governorateCode = None, dt_coordinates = (46, 25)\<rparr>
     DIESEL priced_world = (Inr fee, s') \<and> (\<exists>r :: delivery_rate. dr_regionCode r = ''RIYADH'' \<and> roundCurrency (dr_minPrice r) \<le> fee)"
proof -
  let ?t = "\<lparr>dt_regionCode = ''RIYADH'', dt_governorateCode = None, dt_coordinates = (46, 25)\<rparr>"
  have "\<not> isl (fst (feeForCompany (\<lambda>_ _. 20000) 2 ?t DIESEL priced_world))" by code_simp
  then obtain fee s' where run: "feeForCompany (\<lambda>_ _. 20000) 2 ?t DIESEL priced_world = (Inr fee, s')"
    by (blast dest: run_succeeds)
  from fee_for_company_sound [OF run] obtain r :: delivery_rate where
    "dr_regionCode r = dt_regionCode ?t" "roundCurrency (dr_minPrice r) \<le> fee" by blast
  with run show ?thesis by (intro exI [of _ fee] exI [of _ s'] conjI exI [of _ r]) simp_all
qed

end
