(* ===== verification/Access.thy ===== *)
theory Access
  imports Tenancy
begin

text \<open>
  Who may call an endpoint and under which scope it runs: the role guard
  (\<open>common/guards/roles.guard.ts\<close>), the interceptor that sets the acting scope
  (\<open>common/interceptors/tenant-isolation.interceptor.ts\<close>), the parser of enumeration query parameters, and
  the lookup of a user every service shares.  Authentication has produced the acting user.
\<close>

definition roles_guard :: "user_role list \<Rightarrow> authenticated_user \<Rightarrow> bool" where
  "roles_guard requiredRoles user \<longleftrightarrow> requiredRoles = [] \<or> au_role user \<in> set requiredRoles"

definition scope_of :: "authenticated_user \<Rightarrow> request_scope" where
  "scope_of user = \<lparr>rs_userId = Some (au_userId user), rs_role = Some (au_role user), rs_companyId = au_companyId user,
     rs_parentFuelCompanyId = au_parentFuelCompanyId user\<rparr>"

definition intercept :: "authenticated_user \<Rightarrow> 'a service \<Rightarrow> 'a service" where
  "intercept user next_handle s = (case next_handle (s\<lparr>w_scope := scope_of user\<rparr>) of
     (r, s') \<Rightarrow> (r, s'\<lparr>w_scope := w_scope s\<rparr>))"

definition endpoint :: "user_role list \<Rightarrow> authenticated_user \<Rightarrow> 'a service \<Rightarrow> 'a service" where
  "endpoint roles user handler = bnd (guard (roles_guard roles user) (Forbidden None)) (\<lambda>_. intercept user handler)"

definition parseEnumQuery :: "(string \<times> 'a) list \<Rightarrow> string option \<Rightarrow> 'a option service" where
  "parseEnumQuery allowed value =
     (if value = None \<or> value = Some '''' then ret None
      else bnd (demand (BadRequest None) (map_of allowed (the value))) (\<lambda>x. ret (Some x)))"

definition findUserById :: "oid \<Rightarrow> user service" where
  "findUserById i = bnd (find_one w_users u_id user_scoping i) (demand NotFound)"

end
