(* ===== verification/Orders.thy ===== *)
theory Orders
  imports Frames Pricing Access
begin

text \<open>
  The order service: \<open>modules/orders/orders.service.ts\<close>, with the station lookup it prices and
  delivers by (\<open>modules/stations/stations.service.ts\<close>).

  An argument \<open>order\<close> is the document the caller has read; every write goes back to the store.
  Queue calls come after the transaction, as in the source.  Pagination of \<open>findForUser\<close> is not
  modelled: the definition gives the set of documents the pages are cut from.
\<close>

section \<open>Requests\<close>

record create_order_dto =
  cd_fuelType :: fuel_type
  cd_quantityLiters :: rat
  cd_deliveryLocation :: "coords option"
  cd_paymentMethod :: "payment_method option"
  cd_stationId :: "oid option"
  cd_quoteToken :: "quote_token option"

type_synonym create_order_result = "order \<times> drawdown_result"

section \<open>Creation\<close>

definition findOwnedByClient :: "oid \<Rightarrow> oid \<Rightarrow> station service" where
  "findOwnedByClient stationId clientId =
     bnd (find_all w_stations station_scoping
            (\<lambda>d. stn_id d = stationId \<and> stn_clientId d = clientId \<and> stn_isActive d)) (\<lambda>found.
     demand NotFound (case found of [] \<Rightarrow> None | d # _ \<Rightarrow> Some d))"

definition countForCompany :: "nat service" where
  "countForCompany = bnd (find_all w_stations station_scoping (\<lambda>_. True)) (\<lambda>ds. ret (length ds))"

record order_fields =
  of_fuelCompanyId :: oid
  of_clientId :: oid
  of_fuelType :: fuel_type
  of_quantityLiters :: rat
  of_deliveryLocation :: coords
  of_deliveryAddressText :: string
  of_stationId :: "oid option"
  of_priceBreakdown :: price_breakdown
  of_paymentMethod :: payment_method

definition new_order :: "oid \<Rightarrow> oid \<Rightarrow> instant \<Rightarrow> order_fields \<Rightarrow> order" where
  "new_order i fuelCompanyId now f =
     \<lparr>o_id = i, o_fuelCompanyId = fuelCompanyId, o_transportCompanyId = None, o_clientId = of_clientId f,
      o_fuelType = of_fuelType f, o_quantityLiters = of_quantityLiters f,
      o_deliveryLocation = of_deliveryLocation f, o_deliveryAddressText = of_deliveryAddressText f,
      o_stationId = of_stationId f, o_priceBreakdown = Some (of_priceBreakdown f),
      o_status = PENDING_APPROVAL, o_estimatedPrice = pb_total (of_priceBreakdown f),
      o_finalPrice = None, o_approvedBy = None, o_paymentMethod = of_paymentMethod f,
      o_invoiceId = None, o_driverId = None, o_driverSummary = None, o_clientSummary = None,
      o_paymentDeadline = None, o_paymentTimeoutCount = 0, o_paymentConfirmationId = None,
      o_statusHistory = [], o_otps = [], o_cancelledBy = None, o_cancellationReason = None,
      o_rejectedBy = None, o_rejectionReason = None, o_deliveredAt = None, o_truckId = None,
      o_tankId = None, o_tankSummary = None, o_warehouseId = None, o_warehouseSummary = None,
      o_verifications = [], o_loadingConfirmedAt = None, o_assignmentAcknowledgedAt = None,
      o_assignmentEscalationSmsAt = None, o_assignmentEscalationSkippedReason = None,
      o_assignedWhileIneligible = False, o_assignedWhileIneligibleReason = None,
      o_stopEvents = [], o_supplierInvoices = [], o_createdAt = now\<rparr>"

definition createWithDrawdown ::
  "authenticated_user \<Rightarrow> fuel_type \<Rightarrow> rat \<Rightarrow> order_fields \<Rightarrow> create_order_result service" where
  "createWithDrawdown clientUser fuelType quantityLiters orderFields =
     transaction
       (bnd fresh_id (\<lambda>i.
        bnd (owning_fuel_company (of_fuelCompanyId orderFields)) (\<lambda>fuelCompanyId.
        bnd (asks w_now) (\<lambda>now.
        bnd (insert_doc w_orders_update (new_order i fuelCompanyId now orderFields)) (\<lambda>_.
        bnd (drawdown fuelCompanyId (of_clientId orderFields) fuelType i quantityLiters (au_userId clientUser)) (\<lambda>litreDrawdown.
        ret (new_order i fuelCompanyId now orderFields, litreDrawdown)))))))"

definition payment_method_of :: "create_order_dto \<Rightarrow> payment_method" where
  "payment_method_of dto = (case cd_paymentMethod dto of None \<Rightarrow> DIRECT | Some m \<Rightarrow> m)"

definition createPriced ::
  "authenticated_user \<Rightarrow> oid \<Rightarrow> user \<Rightarrow> create_order_dto \<Rightarrow> quote_token \<Rightarrow> create_order_result service" where
  "createPriced clientUser companyId client dto quoteToken =
     bnd (demand (BadRequest None) (cd_stationId dto)) (\<lambda>stationId.
     bnd (findOwnedByClient stationId (au_userId clientUser)) (\<lambda>station.
     bnd (redeem quoteToken companyId (cd_fuelType dto) (cd_quantityLiters dto)) (\<lambda>priceBreakdown.
     createWithDrawdown clientUser (cd_fuelType dto) (cd_quantityLiters dto)
       \<lparr>of_fuelCompanyId = companyId, of_clientId = au_userId clientUser,
        of_fuelType = cd_fuelType dto, of_quantityLiters = cd_quantityLiters dto,
        of_deliveryLocation = (case cd_deliveryLocation dto of Some p \<Rightarrow> p | None \<Rightarrow> stn_location station),
        of_deliveryAddressText = stn_addressText station, of_stationId = Some (stn_id station),
        of_priceBreakdown = priceBreakdown, of_paymentMethod = payment_method_of dto\<rparr>)))"

text \<open>The branch of \<open>create\<close> without a quote token.\<close>

definition createUnquoted ::
  "authenticated_user \<Rightarrow> oid \<Rightarrow> user \<Rightarrow> create_order_dto \<Rightarrow> create_order_result service" where
  "createUnquoted clientUser companyId client dto =
     bnd (case cd_stationId dto of
            None \<Rightarrow> ret None
          | Some stationId \<Rightarrow> bnd (findOwnedByClient stationId (au_userId clientUser)) (\<lambda>st. ret (Some st))) (\<lambda>station.
     bnd (demand (BadRequest None)
            (case cd_deliveryLocation dto of
               Some p \<Rightarrow> Some p
             | None \<Rightarrow> (case station of
                 Some st \<Rightarrow> Some (stn_location st)
               | None \<Rightarrow> map_option us_location (u_station client)))) (\<lambda>deliveryLocation.
     bnd (priceWithoutQuote companyId (cd_fuelType dto) (cd_quantityLiters dto)) (\<lambda>priceBreakdown.
     createWithDrawdown clientUser (cd_fuelType dto) (cd_quantityLiters dto)
       \<lparr>of_fuelCompanyId = companyId, of_clientId = au_userId clientUser,
        of_fuelType = cd_fuelType dto, of_quantityLiters = cd_quantityLiters dto,
        of_deliveryLocation = deliveryLocation,
        of_deliveryAddressText = (case station of
            Some st \<Rightarrow> stn_addressText st
          | None \<Rightarrow> (case u_station client of Some st \<Rightarrow> us_addressText st | None \<Rightarrow> '''')),
        of_stationId = map_option stn_id station,
        of_priceBreakdown = priceBreakdown, of_paymentMethod = payment_method_of dto\<rparr>)))"

definition create :: "authenticated_user \<Rightarrow> create_order_dto \<Rightarrow> create_order_result service" where
  "create clientUser dto =
     bnd (demand (Forbidden None) (au_companyId clientUser)) (\<lambda>companyId.
     bnd (findUserById (au_userId clientUser)) (\<lambda>client.
     case cd_quoteToken dto of
       Some quoteToken \<Rightarrow> createPriced clientUser companyId client dto quoteToken
     | None \<Rightarrow> createUnquoted clientUser companyId client dto))"

section \<open>Reads\<close>

definition findOrderById :: "oid \<Rightarrow> order service" where
  "findOrderById i = bnd (find_order i) (demand NotFound)"

record order_filter =
  fl_status :: "order_status option"
  fl_bucket :: "order_status_bucket option"
  fl_orderId :: "oid option"

definition order_query :: "authenticated_user \<Rightarrow> order_filter \<Rightarrow> order \<Rightarrow> bool" where
  "order_query user filt d \<longleftrightarrow>
     (case fl_orderId filt of
        Some i \<Rightarrow> o_id d = i
      | None \<Rightarrow>
          (case fl_status filt of
             Some st \<Rightarrow> o_status d = st
           | None \<Rightarrow> (case fl_bucket filt of
               Some b \<Rightarrow> o_status d \<in> set (ORDER_STATUS_BUCKETS b) | None \<Rightarrow> True))) \<and>
     (au_role user = CLIENT \<longrightarrow> o_clientId d = au_userId user) \<and>
     (au_role user = DRIVER \<longrightarrow> o_driverId d = Some (au_userId user))"

definition findForUser :: "authenticated_user \<Rightarrow> order_filter \<Rightarrow> order list service" where
  "findForUser user filt = find_all w_orders order_scoping (order_query user filt)"

definition findOneForUser :: "authenticated_user \<Rightarrow> oid \<Rightarrow> order service" where
  "findOneForUser user i =
     bnd (findOrderById i) (\<lambda>order.
     bnd (guard
       ((au_role user = CLIENT \<and> o_clientId order = au_userId user) \<or>
        (au_role user = DRIVER \<and> o_driverId order = Some (au_userId user)) \<or>
        au_role user = FUEL_COMPANY_ADMIN \<or> au_role user = TRANSPORT_COMPANY_ADMIN \<or>
        au_role user = SUPER_ADMIN) NotFound) (\<lambda>_.
     ret order))"

section \<open>The life of an order\<close>

text \<open>\<open>order.save()\<close> on a loaded document writes it back by its id.\<close>

definition save_order :: "oid \<Rightarrow> (order \<Rightarrow> order) \<Rightarrow> unit service" where
  "save_order i f = modify (w_orders_update (upd_by o_id i f))"

definition acknowledgeAssignment :: "order \<Rightarrow> order service" where
  "acknowledgeAssignment order =
     (if o_assignmentAcknowledgedAt order = None
      then bnd (asks w_now) (\<lambda>now.
           bnd (save_order (o_id order) (\<lambda>d. d\<lparr>o_assignmentAcknowledgedAt := Some now\<rparr>)) (\<lambda>_.
           bnd (cancelAssignmentEscalation (o_id order)) (\<lambda>_.
           ret (order\<lparr>o_assignmentAcknowledgedAt := Some now\<rparr>))))
      else ret order)"

definition with_extra :: "(order \<Rightarrow> order) \<Rightarrow> transition_options" where
  "with_extra f = no_options\<lparr>tr_extra := f\<rparr>"

definition approve :: "order \<Rightarrow> transition_actor \<Rightarrow> rat option \<Rightarrow> order service" where
  "approve order actor finalPrice =
     (let price = (case finalPrice of Some p \<Rightarrow> p | None \<Rightarrow> o_estimatedPrice order) in
      bnd (transaction (transition (o_id order) PENDING_APPROVAL APPROVED actor
             (with_extra (\<lambda>d. d\<lparr>o_finalPrice := Some price, o_approvedBy := Some (ta_actorId actor)\<rparr>)))) (\<lambda>approved.
      findOrderById (o_id approved)))"

definition settleAndResume :: "order \<Rightarrow> transition_actor \<Rightarrow> order service" where
  "settleAndResume order actor =
     bnd (transition (o_id order) PENDING_PAYMENT ROUTED_TO_TRANSPORT actor
            (with_extra (\<lambda>d. d\<lparr>o_paymentDeadline := None\<rparr>))) (\<lambda>resumed.
     bnd (cancelPaymentTimeout (o_id order)) (\<lambda>_.
     ret resumed))"

definition acceptFinalPrice :: "order \<Rightarrow> transition_actor \<Rightarrow> order service" where
  "acceptFinalPrice order actor =
     bnd (guard (o_status order = PENDING_PAYMENT) (Conflict (Some ORDER_NOT_AWAITING_CONFIRMATION))) (\<lambda>_.
     bnd (guard (o_paymentMethod order \<noteq> DIRECT) (Conflict (Some ORDER_NOT_AWAITING_CONFIRMATION))) (\<lambda>_.
     settleAndResume order actor))"

definition enterPendingPayment :: "order \<Rightarrow> transition_actor \<Rightarrow> order service" where
  "enterPendingPayment order actor =
     bnd (asks (\<lambda>s. w_now s + minutes (cfg_paymentDeadlineMinutes (w_config s)))) (\<lambda>paymentDeadline.
     transition (o_id order) APPROVED PENDING_PAYMENT actor
       (with_extra (\<lambda>d. d\<lparr>o_paymentDeadline := Some paymentDeadline\<rparr>)))"

definition reopenPaymentWindow :: "order \<Rightarrow> transition_actor \<Rightarrow> order service" where
  "reopenPaymentWindow order actor =
     bnd (enterPendingPayment order actor) (\<lambda>updated.
     bnd (asks (\<lambda>s. cfg_paymentDeadlineMinutes (w_config s))) (\<lambda>m.
     bnd (schedulePaymentTimeout (o_id order) m) (\<lambda>_.
     ret updated)))"

definition set_vehicle :: "truck \<Rightarrow> tank \<Rightarrow> order \<Rightarrow> order" where
  "set_vehicle truck tank d = d\<lparr>o_truckId := Some (trk_id truck), o_tankId := Some (tnk_id tank),
     o_driverSummary := Some (case o_driverSummary d of
         Some ds \<Rightarrow> ds\<lparr>ds_plateNumber := trk_plateNumber truck\<rparr>
       | None \<Rightarrow> \<lparr>ds_fullName = '''', ds_phone = '''', ds_plateNumber = trk_plateNumber truck\<rparr>),
     o_tankSummary := Some \<lparr>ts_code = tnk_code tank, ts_material = tnk_material tank\<rparr>\<rparr>"

definition check_tank :: "order \<Rightarrow> tank \<Rightarrow> unit service" where
  "check_tank order tank =
     bnd (guard (\<not> tnk_maxCapacityLiters tank < o_quantityLiters order)
            (Conflict (Some TANK_CAPACITY_EXCEEDED))) (\<lambda>_.
     guard (o_fuelType order \<in> set (tnk_fuelTypes tank)) (Conflict (Some TANK_GRADE_UNSUPPORTED)))"

definition reassignVehicle :: "order \<Rightarrow> oid \<Rightarrow> oid \<Rightarrow> order option service" where
  "reassignVehicle order truckId tankId =
     bnd (guard (o_status order = ASSIGNED_TO_DRIVER) (Conflict (Some ALREADY_DEPARTED))) (\<lambda>_.
     transaction
       (bnd (release_truck (o_id order) (o_truckId order)) (\<lambda>_.
        bnd (release_tank (o_id order) (o_tankId order)) (\<lambda>_.
        bnd (book_truck truckId (o_id order)) (\<lambda>tr.
        bnd (demand (Conflict (Some TRUCK_UNAVAILABLE)) tr) (\<lambda>bookedTruck.
        bnd (book_tank tankId (o_id order)) (\<lambda>tn.
        bnd (demand (Conflict (Some TANK_UNAVAILABLE)) tn) (\<lambda>bookedTank.
        bnd (check_tank order bookedTank) (\<lambda>_.
        update_order (o_id order) (\<lambda>_. True) (set_vehicle bookedTruck bookedTank))))))))))"

definition cancelPendingStopEscalations :: "order \<Rightarrow> unit service" where
  "cancelPendingStopEscalations order =
     for_each (filter (\<lambda>stop. st_resolvedAt stop = None) (o_stopEvents order)) (\<lambda>stop. cancelStopEscalation (st_id stop))"

definition cancel :: "order \<Rightarrow> order_status \<Rightarrow> transition_actor \<Rightarrow> string option \<Rightarrow> order service" where
  "cancel order from_status actor reason =
     bnd (transaction
       (bnd (releaseDriverIfAssigned order) (\<lambda>_.
        bnd (transition (o_id order) from_status CANCELLED actor
               (with_extra (\<lambda>d. d\<lparr>o_cancelledBy := Some (ta_actorId actor), o_cancellationReason := reason\<rparr>))) (\<lambda>updated.
        bnd (if o_invoiceId order \<noteq> None then voidInvoice (o_id order) else ret ()) (\<lambda>_.
        bnd (returnDrawdown (o_fuelCompanyId order) (o_clientId order) (o_fuelType order) (o_id order) (ta_actorId actor)) (\<lambda>_.
        ret updated)))))) (\<lambda>updated.
     bnd (if from_status = ASSIGNED_TO_DRIVER \<or> from_status = PENDING_PAYMENT
          then cancelPaymentTimeout (o_id order) else ret ()) (\<lambda>_.
     bnd (if from_status = ASSIGNED_TO_DRIVER \<or> from_status = LOADING
          then cancelAssignmentEscalation (o_id order) else ret ()) (\<lambda>_.
     bnd (cancelPendingStopEscalations order) (\<lambda>_.
     ret updated))))"

definition completeDelivery :: "order \<Rightarrow> transition_actor \<Rightarrow> order service" where
  "completeDelivery order actor =
     bnd (transaction
       (bnd (releaseDriverIfAssigned order) (\<lambda>_.
        transition (o_id order) UNLOADING DELIVERED actor no_options))) (\<lambda>updated.
     bnd (cancelPendingStopEscalations order) (\<lambda>_.
     ret updated))"

definition forceComplete :: "order \<Rightarrow> order_status \<Rightarrow> transition_actor \<Rightarrow> string \<Rightarrow> order service" where
  "forceComplete order from_status actor reason =
     bnd (transaction
       (bnd (releaseDriverIfAssigned order) (\<lambda>_.
        bnd (transition (o_id order) from_status DELIVERED actor
               (no_options\<lparr>tr_manualOverride := True, tr_overrideReason := Some reason\<rparr>)) (\<lambda>updated.
        bnd (invalidateActive (o_id order)) (\<lambda>_.
        ret updated))))) (\<lambda>updated.
     bnd (if from_status = ASSIGNED_TO_DRIVER \<or> from_status = PENDING_PAYMENT
          then cancelPaymentTimeout (o_id order) else ret ()) (\<lambda>_.
     bnd (cancelPendingStopEscalations order) (\<lambda>_.
     ret updated)))"

section \<open>Summaries\<close>

definition count_orders :: "(order \<Rightarrow> bool) \<Rightarrow> nat service" where
  "count_orders P = bnd (find_all w_orders order_scoping P) (\<lambda>ds. ret (length ds))"

definition count_users :: "(user \<Rightarrow> bool) \<Rightarrow> nat service" where
  "count_users P = bnd (find_all w_users user_scoping P) (\<lambda>ds. ret (length ds))"

definition delivered_in :: "instant \<Rightarrow> instant \<Rightarrow> order \<Rightarrow> bool" where
  "delivered_in from_at until d \<longleftrightarrow> o_status d = DELIVERED \<and>
     (case o_deliveredAt d of None \<Rightarrow> False | Some t \<Rightarrow> from_at \<le> t \<and> t \<le> until)"

definition in_progress_states :: "order_status list" where
  "in_progress_states = [ASSIGNED_TO_DRIVER, LOADING, IN_TRANSIT, UNLOADING]"

record order_summary =
  os_awaitingAssignment :: nat
  os_inProgress :: nat
  os_completedInPeriod :: nat
  os_driversOnDuty :: nat
  os_outstandingSettlements :: "rat \<times> nat"

definition getSummary :: "instant \<Rightarrow> instant \<Rightarrow> order_summary service" where
  "getSummary from_at until =
     bnd (count_orders (\<lambda>d. o_status d = ROUTED_TO_TRANSPORT)) (\<lambda>awaiting.
     bnd (count_orders (\<lambda>d. o_status d \<in> set in_progress_states)) (\<lambda>inProgress.
     bnd (count_orders (delivered_in from_at until)) (\<lambda>completed.
     bnd (count_users (\<lambda>u. u_role u = DRIVER \<and> u_isOnline u)) (\<lambda>onDuty.
     bnd getOutstandingSettlementsSummary (\<lambda>outstanding.
     ret \<lparr>os_awaitingAssignment = awaiting, os_inProgress = inProgress, os_completedInPeriod = completed,
          os_driversOnDuty = onDuty, os_outstandingSettlements = outstanding\<rparr>)))))"

record fuel_company_summary =
  fs_pendingApproval :: nat
  fs_inProgress :: nat
  fs_completedInPeriod :: nat
  fs_stationOwnersCount :: nat
  fs_stationsCount :: nat
  fs_creditOutstanding :: "rat \<times> nat"

definition getFuelCompanySummary :: "instant \<Rightarrow> instant \<Rightarrow> fuel_company_summary service" where
  "getFuelCompanySummary from_at until =
     bnd (count_orders (\<lambda>d. o_status d = PENDING_APPROVAL)) (\<lambda>pending.
     bnd (count_orders (\<lambda>d. o_status d \<in> set in_progress_states)) (\<lambda>inProgress.
     bnd (count_orders (delivered_in from_at until)) (\<lambda>completed.
     bnd (count_users (\<lambda>u. u_role u = CLIENT)) (\<lambda>owners.
     bnd countForCompany (\<lambda>stations.
     bnd getCreditOutstandingSummary (\<lambda>credit.
     ret \<lparr>fs_pendingApproval = pending, fs_inProgress = inProgress, fs_completedInPeriod = completed,
          fs_stationOwnersCount = owners, fs_stationsCount = stations, fs_creditOutstanding = credit\<rparr>))))))"

definition raised_in :: "instant \<Rightarrow> instant \<Rightarrow> order \<Rightarrow> bool" where
  "raised_in from_at until d \<longleftrightarrow> from_at \<le> o_createdAt d \<and> o_createdAt d \<le> until"

primrec bucket_counts :: "instant \<Rightarrow> instant \<Rightarrow> order_status_bucket list \<Rightarrow> (order_status_bucket \<times> nat) list service" where
  "bucket_counts from_at until [] = ret []"
| "bucket_counts from_at until (b # bs) =
     bnd (count_orders (\<lambda>d. o_status d \<in> set (ORDER_STATUS_BUCKETS b) \<and> raised_in from_at until d)) (\<lambda>n.
     bnd (bucket_counts from_at until bs) (\<lambda>rest.
     ret ((b, n) # rest)))"

definition getPlatformSummary :: "instant \<Rightarrow> instant \<Rightarrow> ((order_status_bucket \<times> nat) list \<times> nat) service" where
  "getPlatformSummary from_at until =
     bnd (bucket_counts from_at until all_buckets) (\<lambda>counts.
     ret (counts, foldl (\<lambda>sum c. sum + snd c) 0 counts))"

section \<open>The order invariant\<close>

lemma with_extra_simps [simp]:
  "tr_extra (with_extra f) = f" "tr_manualOverride (with_extra f) = False" "tr_overrideReason (with_extra f) = None"
  "tr_extra no_options = id" "tr_manualOverride no_options = False"
  by (simp_all add: with_extra_def no_options_def)

lemma keeps_floor:
  "keeps (id_floor n) (transition i src to actor opts)" "keeps (id_floor n) (releaseDriverIfAssigned d)"
  "keeps (id_floor n) (invalidateActive i)" "keeps (id_floor n) (update_order i Q f)"
  "keeps (id_floor n) (release_truck i r)" "keeps (id_floor n) (release_tank i r)"
proof -
  show "keeps (id_floor n) (transition i src to actor opts)" by (rule keeps_transition_any) (simp_all add: id_floor_def)
  show "keeps (id_floor n) (releaseDriverIfAssigned d)" "keeps (id_floor n) (release_truck i r)" "keeps (id_floor n) (release_tank i r)"
    by (rule keeps_release; simp add: id_floor_def)+
  show 1: "keeps (id_floor n) (update_order i Q f)" for i Q f
    unfolding update_order_def by (rule keeps_find_and_update) (simp add: id_floor_def)
  show "keeps (id_floor n) (invalidateActive i)" unfolding invalidateActive_def
    by (intro keeps_bnd keeps_basic 1 floor.keeps_caches)
qed

lemma keeps_book:
  assumes "\<And>s g. P s \<Longrightarrow> P (put g s)"
  shows "keeps P (book_doc coll put key vis active i free mark orderId)"
  using assms by (auto simp: keeps_def book_doc_def find_and_update_def cas_def split: sum.splits option.splits)

lemma keeps_bookings:
  assumes "\<And>s g. P s \<Longrightarrow> P (w_users_update g s)" "\<And>s g. P s \<Longrightarrow> P (w_trucks_update g s)" "\<And>s g. P s \<Longrightarrow> P (w_tanks_update g s)"
  shows "keeps P (book_driver i j)" "keeps P (book_truck i j)" "keeps P (book_tank i j)"
  unfolding book_driver_def book_truck_def book_tank_def by (rule keeps_book; erule assms)+

lemma order_patches:
  "order_patch (\<lambda>d. d\<lparr>o_finalPrice := p, o_approvedBy := a\<rparr>)" "order_patch (\<lambda>d. d\<lparr>o_paymentDeadline := t\<rparr>)"
  "order_patch (\<lambda>d. d\<lparr>o_cancelledBy := a, o_cancellationReason := r\<rparr>)" "order_patch (set_vehicle tr tn)"
  by (simp_all add: order_patch_def set_vehicle_def)

lemma keeps_stop_escalations:
  "(\<And>k. keeps P (cancelStopEscalation k)) \<Longrightarrow> keeps P (cancelPendingStopEscalations order)"
  unfolding cancelPendingStopEscalations_def by (rule keeps_for_each)

lemma keeps_findOrderById [intro, simp]: "keeps P (findOrderById i)"
  unfolding findOrderById_def by (intro keeps_bnd keeps_find_order keeps_basic)

lemma keeps_check_tank [intro, simp]: "keeps P (check_tank d t)"
  unfolding check_tank_def by (intro keeps_bnd keeps_basic)

lemma keeps_owning [intro, simp]: "keeps P (owning_fuel_company c)"
  unfolding owning_fuel_company_def by (intro keeps_bnd keeps_basic)

lemma new_order_ok: "order_ok (new_order i f now fs)"
  by (simp add: order_ok_def new_order_def lifecycle.start)

lemma insert_new_orders_ok:
  assumes "orders_ok s" "i < w_next_id s" "i \<notin> o_id ` set (w_orders s)"
  shows "orders_ok (w_orders_update (\<lambda>ds. ds @ [new_order i f now fs]) s)"
  using assms new_order_ok by (auto simp: orders_ok_def) (simp_all add: new_order_def)

lemma keeps_pricing: "keeps P (currentRates f t)" "keeps P (priceWithoutQuote f t q)" "keeps P (redeem tok f t q)"
proof -
  have opt: "keeps P (case x of (Some a, Some b) \<Rightarrow> m a b | _ \<Rightarrow> n)" if "\<And>a b. keeps P (m a b)" "keeps P n"
    for x :: "'p option \<times> 'q option" and m :: "'p \<Rightarrow> 'q \<Rightarrow> 'r service" and n
    using that by (cases x; cases "fst x"; cases "snd x") simp_all
  show 1: "keeps P (currentRates f t)" for f t
    unfolding currentRates_def getBasePrice_def getPricingConfig_def by (intro keeps_bnd keeps_basic opt)
  show "keeps P (priceWithoutQuote f t q)" unfolding priceWithoutQuote_def by (intro keeps_bnd keeps_basic 1)
  show "keeps P (redeem tok f t q)" unfolding redeem_def quote_def by (intro keeps_bnd keeps_basic keeps_if 1)
qed

text \<open>The contract of a predicate on worlds that survives the life of the orders: patches that leave the
  status alone, transitions of the table, and bookings of the fleet.  Every operation of
  the order service keeps such a predicate.\<close>

locale lifecycle_frame = order_frame +
  assumes fr_users: "P s \<Longrightarrow> P (w_users_update h1 s)"
    and fr_trucks: "P s \<Longrightarrow> P (w_trucks_update h2 s)"
    and fr_tanks: "P s \<Longrightarrow> P (w_tanks_update h3 s)"
    and fr_status_patch: "order_patch f \<Longrightarrow> P s \<Longrightarrow> P (w_orders_update (upd_by o_id i f) s)"
    and fr_transition: "order_patch (tr_extra opts) \<Longrightarrow> keeps P (transition i src to actor opts)"
begin

lemma keeps_releases:
  "keeps P (releaseDriverIfAssigned d)" "keeps P (release_truck i r)" "keeps P (release_tank i r)"
  by (rule keeps_release; erule fr_users fr_trucks fr_tanks fr_scope)+

lemma keeps_booked: "keeps P (book_driver i j)" "keeps P (book_truck i j)" "keeps P (book_tank i j)"
  by (rule keeps_bookings; erule fr_users fr_trucks fr_tanks)+

lemma keeps_status_patch: "order_patch f \<Longrightarrow> keeps P (update_order i Q f)"
  unfolding update_order_def by (intro keeps_find_and_update fr_status_patch)

lemma keeps_save_order: "order_patch f \<Longrightarrow> keeps P (save_order i f)"
  unfolding save_order_def by (rule keeps_modify) (rule fr_status_patch)

lemma keeps_order_ends:
  "keeps P (cancel order from_status actor reason)" "keeps P (completeDelivery order actor)"
  "keeps P (forceComplete order from_status actor reason')"
proof -
  have t: "keeps P (transition i src to actor opts)" if "order_patch (tr_extra opts)" for i src to opts
    by (rule fr_transition [OF that])
  have st: "keeps P (cancelPendingStopEscalations order)"
    by (rule keeps_stop_escalations) (rule keeps_queues)
  show "keeps P (cancel order from_status actor reason)"
    unfolding cancel_def
    by (intro keeps_bnd keeps_if keeps_basic keeps_queues st keeps_transaction
        keeps_releases keeps_floor floor.keeps_voidInvoice keeps_voidInvoice
        floor.keeps_balance_ops keeps_balance_ops t) (simp add: order_patches)
  show "keeps P (completeDelivery order actor)"
    unfolding completeDelivery_def
    by (intro keeps_bnd keeps_basic st keeps_transaction keeps_releases keeps_floor t) simp
  show "keeps P (forceComplete order from_status actor reason')"
    unfolding forceComplete_def
    by (intro keeps_bnd keeps_if keeps_basic keeps_queues st keeps_transaction
        keeps_releases keeps_floor keeps_otp t) simp
qed

lemma keeps_order_steps:
  "keeps P (approve order actor fp)" "keeps P (settleAndResume order actor)"
  "keeps P (acceptFinalPrice order actor)" "keeps P (reopenPaymentWindow order actor)"
  "keeps P (acknowledgeAssignment order)" "keeps P (reassignVehicle order tr tn)"
proof -
  have t: "keeps P (transition i src to actor (with_extra f))" if "order_patch f" for i src to f
    by (rule fr_transition) (simp add: that)
  show 1: "keeps P (settleAndResume order actor)"
    unfolding settleAndResume_def by (intro keeps_bnd keeps_basic t keeps_queues) (simp add: order_patches)
  show "keeps P (acceptFinalPrice order actor)"
    unfolding acceptFinalPrice_def by (intro keeps_bnd keeps_basic 1)
  show "keeps P (approve order actor fp)"
    unfolding approve_def Let_def
    by (intro keeps_bnd keeps_transaction t keeps_floor keeps_findOrderById order_patches)
  show "keeps P (reopenPaymentWindow order actor)"
    unfolding reopenPaymentWindow_def enterPendingPayment_def
    by (intro keeps_bnd keeps_basic t keeps_queues order_patches)
  have "order_patch (\<lambda>d. d\<lparr>o_assignmentAcknowledgedAt := x\<rparr>)" for x
    by (simp add: order_patch_def)
  then show "keeps P (acknowledgeAssignment order)"
    unfolding acknowledgeAssignment_def
    by (intro keeps_if keeps_bnd keeps_basic keeps_save_order keeps_queues)
  have b: "keeps (id_floor n) (book_truck i j)" "keeps (id_floor n) (book_tank i j)" for i j n
    by (rule keeps_bookings; simp add: id_floor_def)+
  show "keeps P (reassignVehicle order tr tn)"
    unfolding reassignVehicle_def
    by (intro keeps_bnd keeps_basic keeps_transaction keeps_releases keeps_floor b keeps_booked keeps_check_tank
        keeps_status_patch order_patches)
qed

end

interpretation floor_life: lifecycle_frame "id_floor n"
  by unfold_locales (simp_all add: keeps_floor, simp_all add: id_floor_def)

text \<open>A predicate that also survives the creation of an order under a fresh id.\<close>

locale order_source = lifecycle_frame +
  assumes fr_fresh: "P s \<Longrightarrow> w_next_id s \<notin> o_id ` set (w_orders s)"
    and fr_insert: "P s \<Longrightarrow> i < w_next_id s \<Longrightarrow> i \<notin> o_id ` set (w_orders s) \<Longrightarrow>
       P (w_orders_update (\<lambda>ds. ds @ [new_order i owner now fs]) s)"
begin

lemma keeps_createWithDrawdown: "keeps P (createWithDrawdown u t q fs)"
  unfolding createWithDrawdown_def
proof (rule keeps_transaction)
  show "keeps (id_floor n) (bnd fresh_id (\<lambda>i. bnd (owning_fuel_company (of_fuelCompanyId fs)) (\<lambda>f. bnd (asks w_now) (\<lambda>now.
      bnd (insert_doc w_orders_update (new_order i f now fs)) (\<lambda>_. bnd (drawdown f (of_clientId fs) t i q (au_userId u)) (\<lambda>dd.
      ret (new_order i f now fs, dd)))))))" for n
    by (intro keeps_bnd keeps_fresh_id keeps_owning keeps_basic keeps_insert_doc floor.keeps_balance_ops)
      (simp_all add: id_floor_def)
  show "keeps P (bnd fresh_id (\<lambda>i. bnd (owning_fuel_company (of_fuelCompanyId fs)) (\<lambda>f. bnd (asks w_now) (\<lambda>now.
      bnd (insert_doc w_orders_update (new_order i f now fs)) (\<lambda>_. bnd (drawdown f (of_clientId fs) t i q (au_userId u)) (\<lambda>dd.
      ret (new_order i f now fs, dd)))))))"
  proof (rule keepsI)
    fix s r s' assume ok: "P s"
      and run: "bnd fresh_id (\<lambda>i. bnd (owning_fuel_company (of_fuelCompanyId fs)) (\<lambda>f. bnd (asks w_now) (\<lambda>now.
      bnd (insert_doc w_orders_update (new_order i f now fs)) (\<lambda>_. bnd (drawdown f (of_clientId fs) t i q (au_userId u)) (\<lambda>dd.
      ret (new_order i f now fs, dd)))))) s = (r, s')"
    let ?i = "w_next_id s" and ?s1 = "s\<lparr>w_next_id := Suc (w_next_id s)\<rparr>"
    have ok1: "P ?s1" using ok by (rule fr_next)
    have new: "?i \<notin> o_id ` set (w_orders ?s1)" using fr_fresh [OF ok] by simp
    show "P s'"
    proof (cases "resolveFuelCompanyId (w_scope s)")
      case (Inl e)
      with run ok1 show ?thesis
        by (simp add: bnd_def fresh_id_def owning_fuel_company_def asks_def of_sum_def)
    next
      case (Inr own)
      define f where "f = (case own of None \<Rightarrow> of_fuelCompanyId fs | Some c \<Rightarrow> c)"
      let ?s2 = "w_orders_update (\<lambda>ds. ds @ [new_order ?i f (w_now s) fs]) ?s1"
      from run Inr have go: "bnd (drawdown f (of_clientId fs) t ?i q (au_userId u)) (\<lambda>dd. ret (new_order ?i f (w_now s) fs, dd)) ?s2 = (r, s')"
        by (simp add: bnd_def fresh_id_def owning_fuel_company_def asks_def of_sum_def ret_def insert_doc_def modify_def f_def
            split: prod.splits sum.splits)
      have "P ?s2" using fr_insert [OF ok1 _ new] by simp
      moreover have "keeps P (bnd (drawdown f (of_clientId fs) t ?i q (au_userId u)) (\<lambda>dd. ret (new_order ?i f (w_now s) fs, dd)))"
        by (intro keeps_bnd keeps_basic keeps_balance_ops)
      ultimately show ?thesis using go by (auto dest: keepsD)
    qed
  qed
qed

lemma keeps_create: "keeps P (create u dto)"
proof -
  have st: "keeps P (findOwnedByClient i c)" for P i c
    unfolding findOwnedByClient_def by (intro keeps_bnd keeps_reads keeps_basic)
  show ?thesis
    unfolding create_def createPriced_def createUnquoted_def findUserById_def
    by (intro keeps_bnd keeps_basic keeps_reads keeps_option st keeps_pricing keeps_createWithDrawdown)
qed

end

lemma orders_ok_patched:
  assumes f: "order_patch f" and ok: "orders_ok s"
  shows "orders_ok (w_orders_update (upd_by o_id i f) s)"
proof (cases "get_by o_id i (w_orders s)")
  case None
  with ok show ?thesis by (simp add: orders_ok_def upd_by_None)
next
  case (Some d)
  with ok have "order_ok d" by (auto simp: orders_ok_def dest: get_by_mem)
  with f have "order_ok (f d)" by (rule order_ok_patch)
  with ok Some show ?thesis
    by (rule orders_ok_upd_by) (use f in \<open>simp_all add: order_patch_def\<close>)
qed

interpretation orders_life: order_source orders_ok
proof unfold_locales
  fix s assume "orders_ok s"
  then show "w_next_id s \<notin> o_id ` set (w_orders s)" by (auto simp: orders_ok_def)
qed (simp_all add: orders_ok_patched transition_orders_ok insert_new_orders_ok)

section \<open>Closing an order\<close>

definition closed_at :: "oid \<Rightarrow> order_status \<Rightarrow> world \<Rightarrow> bool" where
  "closed_at i st s \<longleftrightarrow> fleet_ok s \<and> (\<exists>d. get_by o_id i (w_orders s) = Some d \<and> o_status d = st)"

interpretation closing: order_frame "closed_at i st"
proof unfold_locales
  fix s j f assume f: "detail_patch f" and c: "closed_at i st s"
  then have "fleet_ok (w_orders_update (upd_by o_id j f) s)" by (simp add: closed_at_def fleet_inv.fr_patch)
  moreover have "\<exists>d. get_by o_id i (upd_by o_id j f (w_orders s)) = Some d \<and> o_status d = st"
    using c f by (auto simp: closed_at_def detail_patch_def order_patch_def get_by_upd_by)
  ultimately show "closed_at i st (w_orders_update (upd_by o_id j f) s)" by (simp add: closed_at_def)
qed (simp_all add: closed_at_def fleet_ok_def)

text \<open>Nothing carries the order any more.\<close>

definition carries :: "world \<Rightarrow> oid \<Rightarrow> bool" where
  "carries s i \<longleftrightarrow> (\<exists>u \<in> set (w_users s). u_activeOrderId u = Some i) \<or>
     (\<exists>t \<in> set (w_trucks s). trk_activeOrderId t = Some i) \<or> (\<exists>t \<in> set (w_tanks s). tnk_activeOrderId t = Some i)"

lemma closed_carries:
  assumes "closed_at i st s" "\<not> in_progress st"
  shows "\<not> carries s i"
  using assms unfolding carries_def closed_at_def fleet_ok_def bookings_ok_def by fastforce

lemma close_run:
  assumes ok: "fleet_ok s" and d: "get_by o_id i (w_orders s) = Some d"
    and run: "bnd (releaseDriverIfAssigned d) (\<lambda>_. bnd (transition i src to actor opts) k) s = (Inr a, s')"
    and opts: "order_patch (tr_extra opts)" and to: "\<not> in_progress to"
    and k: "\<And>x. keeps (closed_at i to) (k x)"
  shows "closed_at i to s'"
proof -
  have id: "o_id d = i" using d by (rule get_by_key)
  from run obtain u s1 x s2 where 1: "releaseDriverIfAssigned d s = (Inr u, s1)"
    and 2: "transition i src to actor opts s1 = (Inr x, s2)" and 3: "k x s2 = (Inr a, s')"
    by (auto simp: prog_inv)
  have s1: "s1 = s\<lparr>w_users := drivers.released i (o_driverId d) (w_users s),
     w_trucks := trucks.released i (o_truckId d) (w_trucks s), w_tanks := tanks.released i (o_tankId d) (w_tanks s)\<rparr>"
    using releaseDriverIfAssignedD [OF 1 ok] id by simp
  let ?f = "apply_transition opts (history_entry src to actor opts (w_now s1))"
  from 2 obtain es where s2: "s2 = (w_orders_update (upd_by o_id i ?f) s1)\<lparr>w_emits := w_emits s1 @ es\<rparr>"
    by (rule transition_okD)
  have f: "o_id (apply_transition opts (history_entry src to actor opts t) y) = o_id y"
    "o_status (apply_transition opts (history_entry src to actor opts t) y) = to" for y t
    by (simp_all add: apply_transition_fields [OF opts] history_entry_def)
  have "fleet_ok s2"
    by (rule fleet_release [OF ok d, where f = ?f]) (use to in \<open>simp_all add: f s1 s2\<close>)
  moreover have "get_by o_id i (w_orders s2) = Some (?f d)" using d by (simp add: s1 s2 get_by_upd_by f)
  ultimately have "closed_at i to s2" by (simp add: closed_at_def f)
  with k 3 show ?thesis by (auto dest: keepsD)
qed

lemma close_steps:
  "keeps (closed_at i st) (cancelPendingStopEscalations d)"
  by (rule keeps_stop_escalations) (rule closing.keeps_queues)

lemma stop_escalations_total: "cancelPendingStopEscalations d s = (Inl e, s') \<longleftrightarrow> False"
proof -
  have "for_each xs (\<lambda>stop. cancelStopEscalation (st_id stop)) s \<noteq> (Inl e, s')" for xs s
    by (induction xs arbitrary: s) (auto simp: ret_def bnd_def cancelStopEscalation_def queue_remove_def modify_def)
  then show ?thesis by (simp add: cancelPendingStopEscalations_def)
qed

lemma queue_total:
  "cancelPaymentTimeout i s = (Inl e, s') \<longleftrightarrow> False" "cancelAssignmentEscalation i s = (Inl e, s') \<longleftrightarrow> False"
  "schedulePaymentTimeout i m s = (Inl e, s') \<longleftrightarrow> False" "scheduleAssignmentEscalation i m s = (Inl e, s') \<longleftrightarrow> False"
  by (auto simp: queue_defs prog_inv)

definition same_collections :: "world \<Rightarrow> world \<Rightarrow> bool" where
  "same_collections s s' \<longleftrightarrow> w_orders s' = w_orders s \<and> w_users s' = w_users s \<and> w_trucks s' = w_trucks s \<and>
     w_tanks s' = w_tanks s \<and> w_invoices s' = w_invoices s \<and> w_movements s' = w_movements s \<and>
     w_balances s' = w_balances s \<and> w_events s' = w_events s"

lemma transaction_errD: "transaction m s = (Inl e, s') \<Longrightarrow> same_collections s s'"
  by (auto simp: prog_inv same_collections_def)

section \<open>Properties\<close>

text \<open>Every operation of the order service, whether it succeeds or throws, keeps the order
  invariant: distinct ids, an unbroken legal history from \<open>PENDING_APPROVAL\<close> to the current
  status, and \<open>deliveredAt\<close> exactly on delivered orders.\<close>

theorem order_service_keeps_orders_ok:
  "keeps orders_ok (create u dto) \<and> keeps orders_ok (approve order actor fp) \<and>
   keeps orders_ok (settleAndResume order actor) \<and> keeps orders_ok (acceptFinalPrice order actor) \<and>
   keeps orders_ok (reopenPaymentWindow order actor) \<and> keeps orders_ok (acknowledgeAssignment order) \<and>
   keeps orders_ok (reassignVehicle order tr tn) \<and> keeps orders_ok (cancel order st actor reason) \<and>
   keeps orders_ok (completeDelivery order actor) \<and> keeps orders_ok (forceComplete order st actor why)"
  by (intro conjI orders_life.keeps_create orders_life.keeps_order_steps orders_life.keeps_order_ends)

text \<open>C5: cancelling, completing or force-completing an order frees its fleet: when the bookings
  are consistent, they still are, the order is closed, and no driver, truck or tank carries it; and
  when the operation throws, the collections are as if it had not run.\<close>

theorem closing_an_order_frees_its_fleet:
  assumes "fleet_ok s" and "get_by o_id i (w_orders s) = Some d"
    and "(m, st) \<in> {(cancel d from_status actor reason, CANCELLED), (completeDelivery d actor, DELIVERED),
                    (forceComplete d from_status actor why, DELIVERED)}"
    and "m s = (r, s')"
  shows "(case r of Inl e \<Rightarrow> same_collections s s'
          | Inr x \<Rightarrow> fleet_ok s' \<and> \<not> carries s' i \<and> (\<exists>y. get_by o_id i (w_orders s') = Some y \<and> o_status y = st))"
proof (cases r)
  case (Inl e)
  with assms(3,4) show ?thesis
    by (auto simp: cancel_def completeDelivery_def forceComplete_def prog_inv stop_escalations_total queue_total
        simp del: transaction_inv dest: transaction_errD)
next
  case (Inr x)
  have id: "o_id d = i" using assms(2) by (rule get_by_key)
  have t: "closed_at i st0 s1" if "transaction (bnd (releaseDriverIfAssigned d) (\<lambda>_. bnd (transition i src st0 actor opts) k)) s = (Inr a, s1)"
      "order_patch (tr_extra opts)" "\<not> in_progress st0" "\<And>x. keeps (closed_at i st0) (k x)" for src st0 opts and k :: "order \<Rightarrow> order service" and a s1
    by (rule close_run [OF assms(1,2) that(1) [unfolded transaction_inv] that(2,3,4)])
  have ret_k: "bnd m ret = m" for m :: "order service"
    by (rule ext) (simp add: bnd_def ret_def split: prod.splits sum.splits)
  from assms(3) consider "m = cancel d from_status actor reason" "st = CANCELLED"
    | "m = completeDelivery d actor" "st = DELIVERED" | "m = forceComplete d from_status actor why" "st = DELIVERED" by auto
  then have "closed_at i st s'"
  proof cases
    case 1
    from assms(4) obtain a s1 where a: "transaction (bnd (releaseDriverIfAssigned d) (\<lambda>_. bnd (transition i from_status CANCELLED actor
        (with_extra (\<lambda>d. d\<lparr>o_cancelledBy := Some (ta_actorId actor), o_cancellationReason := reason\<rparr>))) (\<lambda>updated.
        bnd (if o_invoiceId d \<noteq> None then voidInvoice i else ret ()) (\<lambda>_.
        bnd (returnDrawdown (o_fuelCompanyId d) (o_clientId d) (o_fuelType d) i (ta_actorId actor)) (\<lambda>_. ret updated))))) s = (Inr a, s1)"
      and rest: "bnd (if from_status = ASSIGNED_TO_DRIVER \<or> from_status = PENDING_PAYMENT then cancelPaymentTimeout i else ret ()) (\<lambda>_.
        bnd (if from_status = ASSIGNED_TO_DRIVER \<or> from_status = LOADING then cancelAssignmentEscalation i else ret ()) (\<lambda>_.
        bnd (cancelPendingStopEscalations d) (\<lambda>_. ret a))) s1 = (Inr x, s')"
      unfolding 1 Inr cancel_def id by (rule bndE)
    have "closed_at i CANCELLED s1"
      by (rule t [OF a]) (auto simp: order_patches intro!: keeps_bnd keeps_if closing.keeps_voidInvoice closing.keeps_balance_ops)
    with rest show ?thesis
      unfolding 1 by (rule keepsD [rotated]) (intro keeps_bnd keeps_if keeps_basic closing.keeps_queues close_steps)
  next
    case 2
    from assms(4) obtain a s1 where a: "transaction (bnd (releaseDriverIfAssigned d) (\<lambda>_. bnd (transition i UNLOADING DELIVERED actor no_options) ret)) s = (Inr a, s1)"
      and rest: "bnd (cancelPendingStopEscalations d) (\<lambda>_. ret a) s1 = (Inr x, s')"
      unfolding 2 Inr completeDelivery_def id ret_k by (rule bndE)
    have "closed_at i DELIVERED s1" by (rule t [OF a]) auto
    with rest show ?thesis
      unfolding 2 by (rule keepsD [rotated]) (intro keeps_bnd keeps_basic close_steps)
  next
    case 3
    from assms(4) obtain a s1 where a: "transaction (bnd (releaseDriverIfAssigned d) (\<lambda>_. bnd (transition i from_status DELIVERED actor
        (no_options\<lparr>tr_manualOverride := True, tr_overrideReason := Some why\<rparr>)) (\<lambda>updated.
        bnd (invalidateActive i) (\<lambda>_. ret updated)))) s = (Inr a, s1)"
      and rest: "bnd (if from_status = ASSIGNED_TO_DRIVER \<or> from_status = PENDING_PAYMENT then cancelPaymentTimeout i else ret ()) (\<lambda>_.
        bnd (cancelPendingStopEscalations d) (\<lambda>_. ret a)) s1 = (Inr x, s')"
      unfolding 3 Inr forceComplete_def id by (rule bndE)
    have "closed_at i DELIVERED s1"
      by (rule t [OF a]) (auto intro!: keeps_bnd closing.keeps_otp)
    with rest show ?thesis
      unfolding 3 by (rule keepsD [rotated]) (intro keeps_bnd keeps_if keeps_basic closing.keeps_queues close_steps)
  qed
  moreover have "\<not> in_progress st" using assms(3) by auto
  ultimately show ?thesis using closed_carries Inr by (auto simp: closed_at_def)
qed

lemma reassign_body:
  assumes ok: "fleet_ok s" "orders_ok s" and d: "sees_order s i d" "in_progress (o_status d)"
    and 1: "release_truck i (o_truckId d) s = (Inr (), s1)" and 2: "release_tank i (o_tankId d) s1 = (Inr (), s2)"
    and 3: "book_truck tr i s2 = (Inr (Some bt), s3)" and 4: "book_tank tn i s3 = (Inr (Some bk), s4)"
  shows "s4 = s\<lparr>w_trucks := upd_by trk_id tr (mark_truck i) (trucks.released i (o_truckId d) (w_trucks s)),
      w_tanks := upd_by tnk_id tn (mark_tank i) (tanks.released i (o_tankId d) (w_tanks s))\<rparr> \<and>
    (\<exists>x. get_by trk_id tr (trucks.released i (o_truckId d) (w_trucks s)) = Some x \<and> trk_activeOrderId x = None \<and> bt = mark_truck i x) \<and>
    (\<exists>x. get_by tnk_id tn (tanks.released i (o_tankId d) (w_tanks s)) = Some x \<and> tnk_activeOrderId x = None \<and> bk = mark_tank i x)"
proof -
  from ok have bt: "bookings_ok trk_id trk_activeOrderId o_truckId (w_trucks s) (w_orders s)"
    and bk: "bookings_ok tnk_id tnk_activeOrderId o_tankId (w_tanks s) (w_orders s)" by (simp_all add: fleet_ok_def)
  then have dist: "distinct (map trk_id (w_trucks s))" "distinct (map tnk_id (w_tanks s))" by (simp_all add: bookings_ok_def)
  have i: "get_by o_id i (w_orders s) = Some d" using d by (auto simp: sees_order_def)
  have c1: "s1 = s \<or> s1 = s\<lparr>w_trucks := trucks.released i (o_truckId d) (w_trucks s)\<rparr>"
    using trucks.release_anyD [OF 1 [unfolded release_truck_def] dist(1)] by simp
  then have keep1: "w_tanks s1 = w_tanks s" by auto
  have c2: "s2 = s1 \<or> s2 = s1\<lparr>w_tanks := tanks.released i (o_tankId d) (w_tanks s)\<rparr>"
    using tanks.release_anyD [OF 2 [unfolded release_tank_def]] dist keep1 by simp
  then have keep2: "w_trucks s2 = w_trucks s1" by auto
  have t2: "w_trucks s2 = trucks.released i (o_truckId d) (w_trucks s)"
    by (rule trucks.book_after_release [OF bt i d(2) _ 3 [unfolded book_truck_def]]) (use c1 keep2 in auto)
  from 3 [unfolded book_truck_def] obtain x where x: "get_by trk_id tr (w_trucks s2) = Some x" "truck_free x" "bt = mark_truck i x"
    and s3: "s3 = w_trucks_update (upd_by trk_id tr (mark_truck i)) s2" by (rule trucks.book_okD)
  have k3: "w_tanks s3 = tanks.released i (o_tankId d) (w_tanks s)"
    by (rule tanks.book_after_release [OF bk i d(2) _ 4 [unfolded book_tank_def]]) (use c2 keep1 s3 in auto)
  from 4 [unfolded book_tank_def] obtain y where y: "get_by tnk_id tn (w_tanks s3) = Some y" "tank_free y" "bk = mark_tank i y"
    and s4: "s4 = w_tanks_update (upd_by tnk_id tn (mark_tank i)) s3" by (rule tanks.book_okD)
  have rest: "s2 = s\<lparr>w_trucks := w_trucks s2, w_tanks := w_tanks s2\<rparr>" using c1 c2 by auto
  have "w_tanks s2 = tanks.released i (o_tankId d) (w_tanks s)" using k3 s3 by simp
  with rest t2 have s2: "s2 = s\<lparr>w_trucks := trucks.released i (o_truckId d) (w_trucks s),
      w_tanks := tanks.released i (o_tankId d) (w_tanks s)\<rparr>" by simp
  from x y show ?thesis by (simp add: s4 s3 s2 truck_free_def tank_free_def)
qed

text \<open>Reassigning the vehicle of an order that has not departed exchanges truck and tank in
  one step: bookings stay consistent, the order names the new vehicle, and the new tank can carry
  its quantity and its grade; a refusal leaves the collections as they were.\<close>

theorem reassignment_exchanges_vehicle:
  assumes "fleet_ok s" "orders_ok s" "sees_order s i d" and run: "reassignVehicle d tr tn s = (r, s')"
  shows "(case r of Inl e \<Rightarrow> same_collections s s'
    | Inr res \<Rightarrow> fleet_ok s' \<and> (\<exists>y t. res = Some y \<and> get_by o_id i (w_orders s') = Some y \<and> o_status y = ASSIGNED_TO_DRIVER \<and>
        o_truckId y = Some tr \<and> o_tankId y = Some tn \<and> get_by tnk_id tn (w_tanks s') = Some t \<and>
        o_quantityLiters d \<le> tnk_maxCapacityLiters t \<and> o_fuelType d \<in> set (tnk_fuelTypes t)))"
proof (cases r)
  case (Inl e)
  with run show ?thesis
    by (auto simp: reassignVehicle_def prog_inv simp del: transaction_inv dest: transaction_errD) (simp add: same_collections_def)
next
  case (Inr res)
  have i: "get_by o_id i (w_orders s) = Some d" using assms(3) by (auto simp: sees_order_def)
  then have id: "o_id d = i" by (rule get_by_key)
  from run [unfolded Inr reassignVehicle_def id] obtain s1 s2 bt s3 bk s4 where st: "o_status d = ASSIGNED_TO_DRIVER"
    and b: "release_truck i (o_truckId d) s = (Inr (), s1)" "release_tank i (o_tankId d) s1 = (Inr (), s2)"
      "book_truck tr i s2 = (Inr (Some bt), s3)" "book_tank tn i s3 = (Inr (Some bk), s4)"
    and chk: "o_quantityLiters d \<le> tnk_maxCapacityLiters bk" "o_fuelType d \<in> set (tnk_fuelTypes bk)"
    and upd: "update_order i (\<lambda>_. True) (set_vehicle bt bk) s4 = (Inr res, s')"
    by (auto simp: prog_inv check_tank_def not_less)
  have prog: "in_progress (o_status d)" using st by simp
  from reassign_body [OF assms(1-3) prog b] obtain x y where
    s4: "s4 = s\<lparr>w_trucks := upd_by trk_id tr (mark_truck i) (trucks.released i (o_truckId d) (w_trucks s)),
      w_tanks := upd_by tnk_id tn (mark_tank i) (tanks.released i (o_tankId d) (w_tanks s))\<rparr>"
    and x: "get_by trk_id tr (trucks.released i (o_truckId d) (w_trucks s)) = Some x" "trk_activeOrderId x = None" "bt = mark_truck i x"
    and y: "get_by tnk_id tn (tanks.released i (o_tankId d) (w_tanks s)) = Some y" "tnk_activeOrderId y = None" "bk = mark_tank i y"
    by blast
  have sees4: "sees_order s4 i d" using assms(3) by (simp add: s4 sees_order_def)
  from upd update_order_run [OF sees4, of "\<lambda>_. True"] have res: "res = Some (set_vehicle bt bk d)"
    and s': "s' = w_orders_update (upd_by o_id i (set_vehicle bt bk)) s4" by auto
  let ?f = "set_vehicle bt bk"
  have ids: "trk_id bt = tr" "tnk_id bk = tn"
    using get_by_key [OF x(1)] get_by_key [OF y(1)] x(3) y(3) by (simp_all add: mark_truck_def mark_tank_def)
  have f: "o_id (?f z) = o_id z" "o_status (?f z) = o_status z" "o_driverId (?f z) = o_driverId z"
    "o_truckId (?f z) = Some tr" "o_tankId (?f z) = Some tn" for z by (simp_all add: set_vehicle_def ids)
  from assms(1) have parts: "bookings_ok u_id u_activeOrderId o_driverId (w_users s) (w_orders s)"
    "bookings_ok trk_id trk_activeOrderId o_truckId (w_trucks s) (w_orders s)"
    "bookings_ok tnk_id tnk_activeOrderId o_tankId (w_tanks s) (w_orders s)" by (simp_all add: fleet_ok_def)
  have dist: "distinct (map o_id (w_orders s))" using assms(2) by (simp add: orders_ok_def)
  have "bookings_ok u_id u_activeOrderId o_driverId (w_users s) (upd_by o_id i ?f (w_orders s))"
    by (rule drivers.bookings_frame [OF parts(1) i]) (simp_all add: f)
  moreover have "bookings_ok trk_id trk_activeOrderId o_truckId
      (upd_by trk_id tr (mark_truck i) (trucks.released i (o_truckId d) (w_trucks s))) (upd_by o_id i ?f (w_orders s))"
    by (rule trucks.bookings_exchange [OF parts(2) dist i x(1,2)]) (simp_all add: f prog)
  moreover have "bookings_ok tnk_id tnk_activeOrderId o_tankId
      (upd_by tnk_id tn (mark_tank i) (tanks.released i (o_tankId d) (w_tanks s))) (upd_by o_id i ?f (w_orders s))"
    by (rule tanks.bookings_exchange [OF parts(3) dist i y(1,2)]) (simp_all add: f prog)
  ultimately have "fleet_ok s'" by (simp add: fleet_ok_def s' s4)
  moreover have "get_by tnk_id tn (w_tanks s') = Some bk" using y by (simp add: s' s4 get_by_upd_by mark_tank_def)
  moreover have "get_by o_id i (w_orders s') = Some (?f d)" using i by (simp add: s' s4 get_by_upd_by f)
  ultimately show ?thesis using Inr res chk st by (auto simp: f)
qed

text \<open>A run that throws without having committed anything: readers, transactions, and a reader
  followed by such a run.\<close>

definition err_safe :: "'a service \<Rightarrow> bool" where
  "err_safe m \<longleftrightarrow> (\<forall>s e s'. m s = (Inl e, s') \<longrightarrow> same_collections s s')"

lemma same_collections_refl [simp]: "same_collections s s"
  by (simp add: same_collections_def)

lemma err_safe_transaction: "err_safe (transaction m)"
  unfolding err_safe_def by (blast dest: transaction_errD)

lemma err_safe_bnd:
  assumes "\<And>t. keeps ((=) t) m" "\<And>a. err_safe (f a)"
  shows "err_safe (bnd m f)"
  unfolding err_safe_def
proof (intro allI impI)
  fix s e s' assume run: "bnd m f s = (Inl e, s')"
  obtain r s1 where m: "m s = (r, s1)" by (cases "m s")
  then have "s1 = s" using keepsD [OF assms(1) m, of s] by simp
  with run m assms(2) show "same_collections s s'" by (auto simp: bnd_def err_safe_def split: sum.splits)
qed

lemma err_safe_option: "err_safe m \<Longrightarrow> (\<And>x. err_safe (f x)) \<Longrightarrow> err_safe (case y of None \<Rightarrow> m | Some x \<Rightarrow> f x)"
  by (cases y) auto

lemma keeps_findOwned [intro, simp]: "keeps P (findOwnedByClient i c)"
  unfolding findOwnedByClient_def by (intro keeps_bnd keeps_reads keeps_basic)

lemma err_safe_final:
  assumes "err_safe m" "\<And>a s e s'. k a s \<noteq> (Inl e, s')"
  shows "err_safe (bnd m k)"
  using assms unfolding err_safe_def by (auto simp: bnd_def split: prod.splits sum.splits)

lemma err_safe_rethrow: "err_safe (try_catch (transaction m) (\<lambda>e. if P e then throw (g e) else throw e))"
  unfolding err_safe_def by (auto simp: try_catch_inv throw_inv dest!: transaction_errD split: if_splits)

lemma notify_never_throws: "notify c u t i s \<noteq> (Inl e, s')"
  using notify_effects [of c u t i s "Inl e" s'] by auto

lemma create_err_safe: "err_safe (create u dto)"
  unfolding create_def createPriced_def createUnquoted_def findUserById_def createWithDrawdown_def
  by (intro err_safe_bnd err_safe_option err_safe_transaction keeps_bnd keeps_option keeps_basic keeps_reads keeps_findOwned keeps_pricing)

lemma createWithDrawdown_okD:
  assumes "createWithDrawdown u t q fs s = (Inr (d, dd), s')"
  shows "\<exists>f. d = new_order (w_next_id s) f (w_now s) fs \<and> w_orders s' = w_orders s @ [d]"
proof -
  from assms obtain f s2 where d: "d = new_order (w_next_id s) f (w_now s) fs"
    and s2: "s2 = w_orders_update (\<lambda>ds. ds @ [d]) (s\<lparr>w_next_id := Suc (w_next_id s)\<rparr>)"
    and run: "drawdown f (of_clientId fs) t (w_next_id s) q (au_userId u) s2 = (Inr dd, s')"
    by (auto simp: createWithDrawdown_def prog_inv)
  have "fleet_at (w_users s2) (w_trucks s2) (w_tanks s2) (w_orders s2) s'"
    by (rule keepsD [OF still.keeps_balance_ops(2) run]) (simp add: fleet_at_def)
  with d s2 show ?thesis by (auto simp: fleet_at_def)
qed

definition owns_station :: "world \<Rightarrow> oid \<Rightarrow> oid \<Rightarrow> bool" where
  "owns_station s clientId k \<longleftrightarrow> (\<exists>st \<in> set (w_stations s). stn_id st = k \<and> stn_clientId st = clientId \<and> stn_isActive st)"

lemma findOwnedByClient_okD:
  assumes "findOwnedByClient k c s = (Inr st, s')"
  shows "s' = s \<and> stn_id st = k \<and> owns_station s c k"
proof -
  from assms obtain v where st: "(case filter (\<lambda>d. v d \<and> stn_id d = k \<and> stn_clientId d = c \<and> stn_isActive d) (w_stations s) of
      [] \<Rightarrow> None | d # _ \<Rightarrow> Some d) = Some st" and s': "s' = s" by (auto simp: findOwnedByClient_def prog_inv)
  then have "st \<in> set (filter (\<lambda>d. v d \<and> stn_id d = k \<and> stn_clientId d = c \<and> stn_isActive d) (w_stations s))"
    by (cases "filter (\<lambda>d. v d \<and> stn_id d = k \<and> stn_clientId d = c \<and> stn_isActive d) (w_stations s)") (simp_all del: set_filter)
  with s' show ?thesis by (auto simp: owns_station_def)
qed

text \<open>What a completed creation had found out before it wrote.\<close>

definition priced_for :: "authenticated_user \<Rightarrow> create_order_dto \<Rightarrow> world \<Rightarrow> order_fields \<Rightarrow> bool" where
  "priced_for u dto s fs \<longleftrightarrow> of_clientId fs = au_userId u \<and>
     (\<exists>c. au_companyId u = Some c \<and>
        priceWithoutQuote c (cd_fuelType dto) (cd_quantityLiters dto) s = (Inr (of_priceBreakdown fs), s)) \<and>
     (\<forall>k. of_stationId fs = Some k \<longrightarrow> owns_station s (au_userId u) k)"

lemma createPriced_okD:
  assumes "createPriced u c client dto tok s = (Inr x, s')" "au_companyId u = Some c"
  shows "\<exists>fs. priced_for u dto s fs \<and> createWithDrawdown u (cd_fuelType dto) (cd_quantityLiters dto) fs s = (Inr x, s')"
proof -
  from assms(1) obtain k st s1 b s2 where st: "findOwnedByClient k (au_userId u) s = (Inr st, s1)"
    and b: "redeem tok c (cd_fuelType dto) (cd_quantityLiters dto) s1 = (Inr b, s2)"
    and go: "createWithDrawdown u (cd_fuelType dto) (cd_quantityLiters dto)
       \<lparr>of_fuelCompanyId = c, of_clientId = au_userId u, of_fuelType = cd_fuelType dto, of_quantityLiters = cd_quantityLiters dto,
        of_deliveryLocation = (case cd_deliveryLocation dto of Some p \<Rightarrow> p | None \<Rightarrow> stn_location st),
        of_deliveryAddressText = stn_addressText st, of_stationId = Some (stn_id st),
        of_priceBreakdown = b, of_paymentMethod = payment_method_of dto\<rparr> s2 = (Inr x, s')"
    unfolding createPriced_def by (auto simp: bnd_inv demand_inv)
  note st = findOwnedByClient_okD [OF st]
  from b have "s2 = s1 \<and> priceWithoutQuote c (cd_fuelType dto) (cd_quantityLiters dto) s1 = (Inr b, s1)"
    by (rule redeem_okD) (simp add: priceWithoutQuote_def bnd_def ret_def)
  with st go assms(2) show ?thesis by (auto simp: priced_for_def intro!: exI)
qed

lemma createUnquoted_okD:
  assumes "createUnquoted u c client dto s = (Inr x, s')" "au_companyId u = Some c"
  shows "\<exists>fs. priced_for u dto s fs \<and> createWithDrawdown u (cd_fuelType dto) (cd_quantityLiters dto) fs s = (Inr x, s')"
proof -
  from assms(1) obtain station s1 loc s2 b s3 where
    st: "(case cd_stationId dto of None \<Rightarrow> ret None
        | Some stationId \<Rightarrow> bnd (findOwnedByClient stationId (au_userId u)) (\<lambda>st. ret (Some st))) s = (Inr station, s1)"
    and loc: "demand (BadRequest None) (case cd_deliveryLocation dto of Some p \<Rightarrow> Some p
            | None \<Rightarrow> (case station of Some st \<Rightarrow> Some (stn_location st) | None \<Rightarrow> map_option us_location (u_station client))) s1 = (Inr loc, s2)"
    and b: "priceWithoutQuote c (cd_fuelType dto) (cd_quantityLiters dto) s2 = (Inr b, s3)"
    and go: "createWithDrawdown u (cd_fuelType dto) (cd_quantityLiters dto)
         \<lparr>of_fuelCompanyId = c, of_clientId = au_userId u, of_fuelType = cd_fuelType dto, of_quantityLiters = cd_quantityLiters dto,
          of_deliveryLocation = loc,
          of_deliveryAddressText = (case station of Some st \<Rightarrow> stn_addressText st
            | None \<Rightarrow> (case u_station client of Some st \<Rightarrow> us_addressText st | None \<Rightarrow> '''')),
          of_stationId = map_option stn_id station, of_priceBreakdown = b, of_paymentMethod = payment_method_of dto\<rparr> s3 = (Inr x, s')"
    unfolding createUnquoted_def by (elim bndE)
  from st have s1: "s1 = s" and own: "\<forall>k. map_option stn_id station = Some k \<longrightarrow> owns_station s (au_userId u) k"
    by (auto simp: prog_inv dest!: findOwnedByClient_okD split: option.splits)
  from loc have s2: "s2 = s1" by (simp add: demand_inv)
  from b have s3: "s3 = s2" using keepsD [OF keeps_pricing(2) b, of "(=) s2"] by simp
  show ?thesis
    by (rule exI, rule conjI [OF _ go [unfolded s3 s2 s1]]) (use assms(2) b own s1 s2 s3 in \<open>simp add: priced_for_def\<close>)
qed

lemma create_okD:
  assumes "create u dto s = (Inr x, s')"
  shows "\<exists>fs. priced_for u dto s fs \<and> createWithDrawdown u (cd_fuelType dto) (cd_quantityLiters dto) fs s = (Inr x, s')"
proof -
  from assms obtain c client where c: "au_companyId u = Some c"
    and run: "(case cd_quoteToken dto of Some tok \<Rightarrow> createPriced u c client dto tok | None \<Rightarrow> createUnquoted u c client dto) s = (Inr x, s')"
    unfolding create_def findUserById_def by (auto simp: bnd_inv demand_inv find_one_inv)
  from run c show ?thesis by (cases "cd_quoteToken dto") (auto dest: createPriced_okD createUnquoted_okD)
qed

text \<open>C9: a created order is new, is the client's own, waits for approval with an empty history, is
  delivered to a station only if that station is the client's and in service, and is priced at the
  live rates of the client's company, whether or not a quote was redeemed; a creation that throws
  leaves the collections as they were, the litre balance included.\<close>

theorem created_order_priced_live:
  assumes "create u dto s = (r, s')" and "orders_ok s"
  shows "(case r of Inl e \<Rightarrow> same_collections s s'
    | Inr (d, dd) \<Rightarrow> get_by o_id (o_id d) (w_orders s) = None \<and> w_orders s' = w_orders s @ [d] \<and>
        o_status d = PENDING_APPROVAL \<and> o_statusHistory d = [] \<and> o_clientId d = au_userId u \<and>
        (\<exists>c b. au_companyId u = Some c \<and> priceWithoutQuote c (cd_fuelType dto) (cd_quantityLiters dto) s = (Inr b, s) \<and>
           o_priceBreakdown d = Some b \<and> o_estimatedPrice d = pb_total b) \<and>
        (\<forall>k. o_stationId d = Some k \<longrightarrow> owns_station s (au_userId u) k))"
proof (cases r)
  case (Inr x)
  obtain d dd where x: "x = (d, dd)" by (cases x)
  from create_okD [OF assms(1) [unfolded Inr x]] obtain fs where fs: "priced_for u dto s fs"
    and go: "createWithDrawdown u (cd_fuelType dto) (cd_quantityLiters dto) fs s = (Inr (d, dd), s')" by blast
  from createWithDrawdown_okD [OF go] obtain f where d: "d = new_order (w_next_id s) f (w_now s) fs" "w_orders s' = w_orders s @ [d]"
    by blast
  have "get_by o_id (w_next_id s) (w_orders s) = None"
    using assms(2) by (auto simp: get_by_None_iff orders_ok_def)
  with fs d show ?thesis by (simp add: Inr x priced_for_def new_order_def)
next
  case (Inl e)
  with assms(1) create_err_safe [of u dto] show ?thesis by (simp add: err_safe_def)
qed

section \<open>The platform summary\<close>

definition bucket_size :: "(order \<Rightarrow> bool) \<Rightarrow> order_status_bucket \<Rightarrow> order list \<Rightarrow> nat" where
  "bucket_size P b ds = length (filter (\<lambda>d. P d \<and> o_status d \<in> set (ORDER_STATUS_BUCKETS b)) ds)"

lemma bucket_counts_run:
  assumes "order_scoping (w_scope s) = Inr v"
  shows "bucket_counts a z bs s = (Inr (map (\<lambda>b. (b, bucket_size (\<lambda>d. v d \<and> raised_in a z d) b (w_orders s))) bs), s)"
proof (induction bs)
  case (Cons b bs)
  have "count_orders (\<lambda>d. o_status d \<in> set (ORDER_STATUS_BUCKETS b) \<and> raised_in a z d) s =
      (Inr (bucket_size (\<lambda>d. v d \<and> raised_in a z d) b (w_orders s)), s)"
    using assms by (simp add: count_orders_def bnd_def find_all_def ret_def bucket_size_def conj_ac)
  with Cons show ?case by (simp add: bnd_def ret_def)
qed (simp add: ret_def)

lemma bucket_sizes_sum: "sum_list (map (\<lambda>b. bucket_size P b ds) all_buckets) = length (filter P ds)"
proof (induction ds)
  case (Cons d ds)
  then show ?case by (cases "o_status d") (simp_all add: bucket_size_def all_buckets_def)
qed (simp add: bucket_size_def all_buckets_def)

text \<open>The six bucket counts of the platform summary add up to its total, and the total is
  exactly the number of orders raised in the period that the caller may see: no order is counted
  twice or left out.\<close>

theorem platform_summary_total:
  assumes "getPlatformSummary a z s = (Inr (counts, n_total), s')"
  shows "\<exists>v. order_scoping (w_scope s) = Inr v \<and> s' = s \<and> map fst counts = all_buckets \<and>
    n_total = sum_list (map snd counts) \<and> n_total = length (filter (\<lambda>d. v d \<and> raised_in a z d) (w_orders s))"
proof (cases "order_scoping (w_scope s)")
  case (Inl e)
  with assms show ?thesis
    by (simp add: getPlatformSummary_def all_buckets_def count_orders_def bnd_def find_all_def)
next
  case (Inr v)
  let ?c = "map (\<lambda>b. (b, bucket_size (\<lambda>d. v d \<and> raised_in a z d) b (w_orders s))) all_buckets"
  have fold: "foldl (\<lambda>sum c. sum + snd c) n cs = n + sum_list (map snd cs)" for n :: nat and cs :: "(order_status_bucket \<times> nat) list"
    by (induction cs arbitrary: n) auto
  from assms bucket_counts_run [OF Inr, of a z all_buckets] have "counts = ?c" "n_total = sum_list (map snd ?c)" "s' = s"
    by (auto simp: getPlatformSummary_def bnd_def ret_def fold)
  moreover have "sum_list (map snd ?c) = length (filter (\<lambda>d. v d \<and> raised_in a z d) (w_orders s))"
    using bucket_sizes_sum [of "\<lambda>d. v d \<and> raised_in a z d" "w_orders s"] by (simp add: comp_def)
  ultimately show ?thesis using Inr by (simp add: comp_def)
qed

section \<open>Witnesses\<close>

text \<open>One order on its way with driver 7, truck 20 and tank 30; truck 21 and tank 31 are free.\<close>

definition step :: "order_status \<Rightarrow> order_status \<Rightarrow> status_history_entry" where
  "step a b = \<lparr>sh_from = a, sh_to = b, sh_actorId = 0, sh_actorRole = SUPER_ADMIN, sh_at = 0,
     sh_manualOverride = False, sh_overrideReason = None\<rparr>"

definition assigned_order :: order where
  "assigned_order = blank_order\<lparr>o_status := ASSIGNED_TO_DRIVER, o_transportCompanyId := Some 2, o_driverId := Some 7,
     o_truckId := Some 20, o_tankId := Some 30,
     o_statusHistory := [step PENDING_APPROVAL APPROVED, step APPROVED ROUTED_TO_TRANSPORT, step ROUTED_TO_TRANSPORT ASSIGNED_TO_DRIVER]\<rparr>"

definition fleet_world :: world where
  "fleet_world = empty_world\<lparr>w_orders := [assigned_order],
     w_users := [blank_user, mark_driver 10 blank_driver],
     w_trucks := [mark_truck 10 blank_truck, blank_truck\<lparr>trk_id := 21\<rparr>],
     w_tanks := [mark_tank 10 blank_tank, blank_tank\<lparr>tnk_id := 31\<rparr>],
     w_companies := [fuel_company, transport_company]\<rparr>"

lemmas fleet_defs = fleet_world_def assigned_order_def sample_defs mark_driver_def mark_truck_def mark_tank_def step_def

lemma fleet_world_ok: "fleet_ok fleet_world" "orders_ok fleet_world" "sees_order fleet_world 10 assigned_order"
  "get_by o_id 10 (w_orders fleet_world) = Some assigned_order"
proof -
  show "fleet_ok fleet_world" by (simp add: fleet_ok_def bookings_ok_def fleet_defs)
  show "sees_order fleet_world 10 assigned_order" "get_by o_id 10 (w_orders fleet_world) = Some assigned_order"
    by (simp_all add: sees_order_def fleet_defs)
  have "lifecycle PENDING_APPROVAL ((([] @ [step PENDING_APPROVAL APPROVED]) @ [step APPROVED ROUTED_TO_TRANSPORT])
      @ [step ROUTED_TO_TRANSPORT ASSIGNED_TO_DRIVER]) ASSIGNED_TO_DRIVER"
    by (intro lifecycle.advance) (auto simp: step_def legal_edge_def intro: lifecycle.start)
  then have "order_ok assigned_order" by (simp add: order_ok_def assigned_order_def blank_order_def)
  then show "orders_ok fleet_world" by (simp add: orders_ok_def fleet_world_def empty_world_def)
    (simp add: assigned_order_def blank_order_def)
qed

theorem closing_an_order_frees_its_fleet_witness:
  "\<exists>x s'. cancel assigned_order ASSIGNED_TO_DRIVER SYSTEM_ACTOR None fleet_world = (Inr x, s') \<and>
     fleet_ok s' \<and> \<not> carries s' 10"
proof -
  have "\<not> isl (fst (cancel assigned_order ASSIGNED_TO_DRIVER SYSTEM_ACTOR None fleet_world))" by code_simp
  then obtain x s' where run: "cancel assigned_order ASSIGNED_TO_DRIVER SYSTEM_ACTOR None fleet_world = (Inr x, s')"
    by (auto dest: run_succeeds)
  from closing_an_order_frees_its_fleet [where m = "cancel assigned_order ASSIGNED_TO_DRIVER SYSTEM_ACTOR None"
      and st = CANCELLED and from_status = ASSIGNED_TO_DRIVER and actor = SYSTEM_ACTOR and reason = None,
      OF fleet_world_ok(1,4) _ run] run
  show ?thesis by auto
qed

theorem reassignment_exchanges_vehicle_witness:
  "\<exists>x s'. reassignVehicle assigned_order 21 31 fleet_world = (Inr x, s') \<and> fleet_ok s' \<and>
     (\<exists>y. get_by o_id 10 (w_orders s') = Some y \<and> o_truckId y = Some 21)"
proof -
  have "\<not> isl (fst (reassignVehicle assigned_order 21 31 fleet_world))" by code_simp
  then obtain x s' where run: "reassignVehicle assigned_order 21 31 fleet_world = (Inr x, s')"
    by (auto dest: run_succeeds)
  from reassignment_exchanges_vehicle [OF fleet_world_ok(1-3) run] run show ?thesis by auto
qed

definition sample_client :: authenticated_user where
  "sample_client = \<lparr>au_userId = 5, au_role = CLIENT, au_companyId = Some 1, au_parentFuelCompanyId = None,
     au_sgen = None, au_sid = None\<rparr>"

definition sample_dto :: create_order_dto where
  "sample_dto = \<lparr>cd_fuelType = DIESEL, cd_quantityLiters = 100, cd_deliveryLocation = Some (46, 24),
     cd_paymentMethod = None, cd_stationId = None, cd_quoteToken = None\<rparr>"

theorem created_order_priced_live_witness:
  "\<exists>d dd s'. create sample_client sample_dto fleet_world = (Inr (d, dd), s') \<and> o_status d = PENDING_APPROVAL"
proof -
  have "\<not> isl (fst (create sample_client sample_dto fleet_world))" by code_simp
  then obtain d dd s' where run: "create sample_client sample_dto fleet_world = (Inr (d, dd), s')"
    by (auto dest: run_succeeds)
  from created_order_priced_live [OF run fleet_world_ok(2)] run show ?thesis by auto
qed

theorem platform_summary_total_witness:
  "\<exists>counts s'. getPlatformSummary 0 10 fleet_world = (Inr (counts, 1), s')"
proof -
  have "\<not> isl (fst (getPlatformSummary 0 10 fleet_world))" by code_simp
  then obtain counts n_total s' where run: "getPlatformSummary 0 10 fleet_world = (Inr (counts, n_total), s')"
    by (auto dest: run_succeeds)
  from platform_summary_total [OF run] have "n_total = 1" by (auto simp: raised_in_def fleet_defs)
  with run show ?thesis by auto
qed

end
