(* ===== verification/Dispatch.thy ===== *)
theory Dispatch
  imports Orders "HOL-Library.Multiset"
begin

text \<open>
  Driver assignment: \<open>modules/dispatch/services/dispatch.service.ts\<close>.

  The distance of the database's \<open>$geoNear\<close> is the parameter \<open>geo\<close>.  The refusals that the
  source carries out of the transaction as \<open>ResourceUnavailableError\<close> and maps afterwards are
  thrown with their final code inside it; in both the transaction rolls back.
\<close>

section \<open>Candidates\<close>

definition classifyEligibility :: "user \<Rightarrow> driver_eligibility" where
  "classifyEligibility driver =
     (if \<not> u_isActive driver then INACTIVE
      else if \<not> u_isAvailable driver \<or> u_activeOrderId driver \<noteq> None then BUSY
      else if \<not> u_isOnline driver then OFFLINE
      else ELIGIBLE)"

definition getSuggestedTruck :: "oid \<Rightarrow> truck option service" where
  "getSuggestedTruck driverId =
     bnd (find_all w_orders order_scoping (\<lambda>d. o_driverId d = Some driverId \<and> o_truckId d \<noteq> None)) (\<lambda>past.
     case (case latest_by o_createdAt past of None \<Rightarrow> None | Some d \<Rightarrow> o_truckId d) of
       None \<Rightarrow> ret None
     | Some truckId \<Rightarrow>
         bnd (find_one w_trucks trk_id truck_scoping truckId) (\<lambda>t.
         ret (case t of None \<Rightarrow> None | Some x \<Rightarrow> if truck_free x then Some x else None)))"

definition findCandidates :: "(coords \<Rightarrow> coords \<Rightarrow> rat) \<Rightarrow> coords \<Rightarrow> user list service" where
  "findCandidates geo deliveryCoordinates =
     bnd (find_all w_users user_scoping (\<lambda>u. u_role u = DRIVER \<and> u_location u \<noteq> None)) (\<lambda>located.
     bnd (find_all w_users user_scoping (\<lambda>u. u_role u = DRIVER \<and> u_location u = None)) (\<lambda>neverLocated.
     ret (sort_key (\<lambda>u. case u_location u of None \<Rightarrow> 0 | Some p \<Rightarrow> geo deliveryCoordinates p) located @ neverLocated)))"

record candidate =
  cand_driver :: user
  cand_eligibility :: driver_eligibility
  cand_suggestedTruck :: "truck option"

definition rank :: "driver_eligibility \<Rightarrow> nat" where
  "rank e = (if e = ELIGIBLE then 0 else 1)"

primrec annotate :: "user list \<Rightarrow> candidate list service" where
  "annotate [] = ret []"
| "annotate (u # us) =
     bnd (getSuggestedTruck (u_id u)) (\<lambda>t.
     bnd (annotate us) (\<lambda>rest.
     ret (\<lparr>cand_driver = u, cand_eligibility = classifyEligibility u, cand_suggestedTruck = t\<rparr> # rest)))"

definition getCandidates :: "(coords \<Rightarrow> coords \<Rightarrow> rat) \<Rightarrow> oid \<Rightarrow> candidate list service" where
  "getCandidates geo orderId =
     bnd (find_order orderId) (\<lambda>found.
     bnd (demand NotFound found) (\<lambda>order.
     bnd (guard (o_status order = ROUTED_TO_TRANSPORT) (Conflict None)) (\<lambda>_.
     bnd (findCandidates geo (o_deliveryLocation order)) (\<lambda>candidates.
     bnd (annotate candidates) (\<lambda>annotated.
     ret (sort_key (\<lambda>c. rank (cand_eligibility c)) annotated))))))"

section \<open>Assignment\<close>

definition set_assignment ::
  "user \<Rightarrow> truck \<Rightarrow> tank \<Rightarrow> warehouse \<Rightarrow> user option \<Rightarrow> bool \<Rightarrow> string option \<Rightarrow> order \<Rightarrow> order" where
  "set_assignment driver truck tank warehouse client ineligible reason d =
     (let d1 = d\<lparr>o_driverId := Some (u_id driver), o_truckId := Some (trk_id truck), o_tankId := Some (tnk_id tank),
            o_driverSummary := Some \<lparr>ds_fullName = u_fullName driver, ds_phone = u_phone driver,
              ds_plateNumber = trk_plateNumber truck\<rparr>,
            o_tankSummary := Some \<lparr>ts_code = tnk_code tank, ts_material = tnk_material tank\<rparr>,
            o_warehouseId := Some (wh_id warehouse),
            o_warehouseSummary := Some \<lparr>ws_name = wh_name warehouse, ws_addressText = wh_addressText warehouse,
              ws_location = wh_location warehouse\<rparr>\<rparr>;
          d2 = (case client of
              None \<Rightarrow> d1
            | Some c \<Rightarrow> d1\<lparr>o_clientSummary := Some \<lparr>cs_fullName = u_fullName c, cs_phone = u_phone c\<rparr>\<rparr>)
      in if ineligible then d2\<lparr>o_assignedWhileIneligible := True, o_assignedWhileIneligibleReason := reason\<rparr> else d2)"

definition blank_reason :: "string option \<Rightarrow> bool" where
  "blank_reason reason \<longleftrightarrow> (case reason of None \<Rightarrow> True | Some r \<Rightarrow> trim r = [])"

definition book_all :: "order \<Rightarrow> oid \<Rightarrow> oid \<Rightarrow> oid \<Rightarrow> warehouse \<Rightarrow> bool \<Rightarrow> string option \<Rightarrow> oid service" where
  "book_all order driverId truckId tankId warehouse ineligible reason =
     bnd (book_driver driverId (o_id order)) (\<lambda>dr.
     bnd (demand (Conflict None) dr) (\<lambda>bookedDriver.
     bnd (book_truck truckId (o_id order)) (\<lambda>tr.
     bnd (demand (Conflict (Some TRUCK_UNAVAILABLE)) tr) (\<lambda>bookedTruck.
     bnd (book_tank tankId (o_id order)) (\<lambda>tn.
     bnd (demand (Conflict (Some TANK_UNAVAILABLE)) tn) (\<lambda>bookedTank.
     bnd (check_tank order bookedTank) (\<lambda>_.
     bnd (run_unscoped (find_one w_users u_id user_scoping (o_clientId order))) (\<lambda>client.
     bnd (transition (o_id order) ROUTED_TO_TRANSPORT ASSIGNED_TO_DRIVER SYSTEM_ACTOR
            (with_extra (set_assignment bookedDriver bookedTruck bookedTank warehouse client ineligible reason))) (\<lambda>_.
     ret (u_id bookedDriver))))))))))"

text \<open>What follows the transaction: the driver's notification and the escalation timer.\<close>

definition announce_assignment :: "order \<Rightarrow> oid \<Rightarrow> oid service" where
  "announce_assignment order driverId =
     bnd (notify (o_fuelCompanyId order) driverId ORDER_ASSIGNED (Some (o_id order))) (\<lambda>_.
     bnd (asks (\<lambda>s. cfg_ackWindowMinutes (w_config s))) (\<lambda>window.
     bnd (scheduleAssignmentEscalation (o_id order) window) (\<lambda>_.
     ret driverId)))"

definition assignDriver ::
  "(coords \<Rightarrow> coords \<Rightarrow> rat) \<Rightarrow> oid \<Rightarrow> oid \<Rightarrow> oid \<Rightarrow> oid \<Rightarrow> string option \<Rightarrow> oid service" where
  "assignDriver geo orderId driverId truckId tankId reason =
     bnd (find_order orderId) (\<lambda>found.
     bnd (demand NotFound found) (\<lambda>order.
     bnd (guard (o_status order = ROUTED_TO_TRANSPORT) (Conflict None)) (\<lambda>_.
     bnd (find_one w_users u_id user_scoping driverId) (\<lambda>driver.
     let requestedEligibility = map_option classifyEligibility driver in
     bnd (guard (\<not> (requestedEligibility = Some OFFLINE \<and> blank_reason reason))
            (BadRequest (Some ASSIGNMENT_REASON_REQUIRED))) (\<lambda>_.
     bnd (findNearestSupplying geo (o_deliveryLocation order) (o_fuelType order)) (\<lambda>nearest.
     bnd (demand (Conflict (Some NO_WAREHOUSE_FOR_GRADE)) nearest) (\<lambda>warehouse.
     bnd (try_catch
            (transaction (book_all order driverId truckId tankId (fst warehouse)
               (requestedEligibility = Some OFFLINE) reason))
            (\<lambda>err. if err = DuplicateKey then throw (Conflict (Some ORDER_ALREADY_ASSIGNED)) else throw err)) (\<lambda>result.
     announce_assignment order result))))))))"

section \<open>Lemmas\<close>

lemma set_assignment_fields [simp]:
  "o_driverId (set_assignment dr tr tk w c b rs d) = Some (u_id dr)"
  "o_truckId (set_assignment dr tr tk w c b rs d) = Some (trk_id tr)"
  "o_tankId (set_assignment dr tr tk w c b rs d) = Some (tnk_id tk)"
  "order_patch (set_assignment dr tr tk w c b rs)"
  "b \<Longrightarrow> o_assignedWhileIneligible (set_assignment dr tr tk w c b rs d) \<and>
     o_assignedWhileIneligibleReason (set_assignment dr tr tk w c b rs d) = rs"
  by (simp_all add: set_assignment_def order_patch_def Let_def split: option.split)

lemma apply_extra:
  assumes "sh_to e \<noteq> DELIVERED"
  shows "apply_transition (with_extra f) e d = (f (d\<lparr>o_status := sh_to e\<rparr>))
    \<lparr>o_statusHistory := o_statusHistory (f (d\<lparr>o_status := sh_to e\<rparr>)) @ [e]\<rparr>"
  using assms by (simp add: apply_transition_def Let_def)

lemma assignDriver_err_safe: "err_safe (assignDriver geo i di ti ki reason)"
  unfolding assignDriver_def findNearestSupplying_def Let_def
  by (intro err_safe_bnd keeps_find_order keeps_basic keeps_reads err_safe_final [OF err_safe_rethrow])
    (auto simp: announce_assignment_def bnd_inv asks_inv ret_inv queue_total notify_never_throws)

lemma book_all_okD:
  assumes ok: "fleet_ok s" and d: "get_by o_id i (w_orders s) = Some d"
    and run: "book_all d di ti ki w b rs s = (Inr x, s')"
  shows "x = di \<and> fleet_ok s' \<and> (\<exists>y dr tr tk. get_by o_id i (w_orders s') = Some y \<and> o_status y = ASSIGNED_TO_DRIVER \<and>
     o_driverId y = Some di \<and> o_truckId y = Some ti \<and> o_tankId y = Some ki \<and>
     get_by u_id di (w_users s) = Some dr \<and> driver_free dr \<and> get_by trk_id ti (w_trucks s) = Some tr \<and> truck_free tr \<and>
     get_by tnk_id ki (w_tanks s) = Some tk \<and> tank_free tk \<and> o_quantityLiters d \<le> tnk_maxCapacityLiters tk \<and>
     o_fuelType d \<in> set (tnk_fuelTypes tk) \<and>
     (b \<longrightarrow> o_assignedWhileIneligible y \<and> o_assignedWhileIneligibleReason y = rs))"
proof -
  have id: "o_id d = i" using d by (rule get_by_key)
  from run [unfolded book_all_def id] obtain bd s1 bt s2 bk s3 c s4 y s5 where
    1: "book_driver di i s = (Inr (Some bd), s1)" and 2: "book_truck ti i s1 = (Inr (Some bt), s2)"
    and 3: "book_tank ki i s2 = (Inr (Some bk), s3)" and chk: "o_quantityLiters d \<le> tnk_maxCapacityLiters bk" "o_fuelType d \<in> set (tnk_fuelTypes bk)"
    and 4: "run_unscoped (find_one w_users u_id user_scoping (o_clientId d)) s3 = (Inr c, s4)"
    and 5: "transition i ROUTED_TO_TRANSPORT ASSIGNED_TO_DRIVER SYSTEM_ACTOR (with_extra (set_assignment bd bt bk w c b rs)) s4 = (Inr y, s')"
    and x: "x = u_id bd"
    by (auto simp: bnd_inv demand_inv check_tank_def guard_inv ret_inv not_less)
  from 1 [unfolded book_driver_def] obtain dr where dr: "get_by u_id di (w_users s) = Some dr" "driver_free dr" "bd = mark_driver i dr"
    and s1: "s1 = w_users_update (upd_by u_id di (mark_driver i)) s" by (rule drivers.book_okD)
  from 2 [unfolded book_truck_def] obtain tr where tr: "get_by trk_id ti (w_trucks s) = Some tr" "truck_free tr" "bt = mark_truck i tr"
    and s2: "s2 = w_trucks_update (upd_by trk_id ti (mark_truck i)) s1" using s1 by (auto elim: trucks.book_okD)
  from 3 [unfolded book_tank_def] obtain tk where tk: "get_by tnk_id ki (w_tanks s) = Some tk" "tank_free tk" "bk = mark_tank i tk"
    and s3: "s3 = w_tanks_update (upd_by tnk_id ki (mark_tank i)) s2" using s1 s2 by (auto elim: tanks.book_okD)
  have s4: "s4 = s3" using 4 by (auto simp: run_unscoped_inv dest!: find_one_state)
  let ?o = "with_extra (set_assignment bd bt bk w c b rs)"
  let ?f = "\<lambda>t. apply_transition ?o (history_entry ROUTED_TO_TRANSPORT ASSIGNED_TO_DRIVER SYSTEM_ACTOR ?o t)"
  from 5 obtain d0 es where d0: "get_by o_id i (w_orders s4) = Some d0" "o_status d0 = ROUTED_TO_TRANSPORT" "y = ?f (w_now s4) d0"
    and s': "s' = (w_orders_update (upd_by o_id i (?f (w_now s4))) s4)\<lparr>w_emits := w_emits s4 @ es\<rparr>" by (rule transition_okD)
  have d0d: "d0 = d" using d d0(1) by (simp add: s1 s2 s3 s4)
  have ids: "u_id bd = di" "trk_id bt = ti" "tnk_id bk = ki"
    using get_by_key [OF dr(1)] get_by_key [OF tr(1)] get_by_key [OF tk(1)] dr(3) tr(3) tk(3)
    by (simp_all add: mark_driver_def mark_truck_def mark_tank_def)
  have patch: "order_patch (tr_extra ?o)" by simp
  have f: "o_id (?f t z) = o_id z" "o_status (?f t z) = ASSIGNED_TO_DRIVER" "o_driverId (?f t z) = Some di"
    "o_truckId (?f t z) = Some ti" "o_tankId (?f t z) = Some ki"
    "b \<Longrightarrow> o_assignedWhileIneligible (?f t z) \<and> o_assignedWhileIneligibleReason (?f t z) = rs" for z t
    by (simp_all add: apply_transition_fields [OF patch] apply_extra ids) (simp_all add: history_entry_def apply_extra ids)
  have free: "\<not> in_progress (o_status d)" "u_activeOrderId dr = None" "trk_activeOrderId tr = None" "tnk_activeOrderId tk = None"
    using d0(2) d0d dr(2) tr(2) tk(2) by (simp_all add: driver_free_def truck_free_def tank_free_def)
  from ok have parts: "bookings_ok u_id u_activeOrderId o_driverId (w_users s) (w_orders s)"
    "bookings_ok trk_id trk_activeOrderId o_truckId (w_trucks s) (w_orders s)"
    "bookings_ok tnk_id tnk_activeOrderId o_tankId (w_tanks s) (w_orders s)" by (simp_all add: fleet_ok_def)
  have "fleet_ok s'"
    using drivers.bookings_book [OF parts(1) d free(1) dr(1) free(2), of "?f (w_now s)"] trucks.bookings_book [OF parts(2) d free(1) tr(1) free(3), of "?f (w_now s)"]
      tanks.bookings_book [OF parts(3) d free(1) tk(1) free(4), of "?f (w_now s)"]
    by (simp add: fleet_ok_def s' s4 s3 s2 s1 f)
  moreover have "get_by o_id i (w_orders s') = Some (?f (w_now s) d)" using d by (simp add: s' s4 s3 s2 s1 get_by_upd_by f)
  moreover have "o_quantityLiters d \<le> tnk_maxCapacityLiters tk" "o_fuelType d \<in> set (tnk_fuelTypes tk)"
    using chk tk(3) by (simp_all add: mark_tank_def)
  ultimately show ?thesis using x ids(1) dr tr tk f by blast
qed

section \<open>Properties\<close>

text \<open>C6: assignment is all or nothing.  When it succeeds, driver, truck and tank were all free and
  in service, the order was awaiting assignment, it now names the three, bookings are consistent, the
  tank can carry the quantity and the grade, and an offline driver was assigned only with a reason,
  which the order records; when it throws, the collections are as they were.\<close>

theorem assign_driver_all_or_nothing:
  assumes "fleet_ok s" and run: "assignDriver geo i di ti ki reason s = (r, s')"
  shows "(case r of Inl e \<Rightarrow> same_collections s s'
    | Inr x \<Rightarrow> x = di \<and> fleet_ok s' \<and> (\<exists>d y dr tr tk. sees_order s i d \<and> o_status d = ROUTED_TO_TRANSPORT \<and>
        get_by o_id i (w_orders s') = Some y \<and> o_status y = ASSIGNED_TO_DRIVER \<and>
        o_driverId y = Some di \<and> o_truckId y = Some ti \<and> o_tankId y = Some ki \<and>
        get_by u_id di (w_users s) = Some dr \<and> driver_free dr \<and> get_by trk_id ti (w_trucks s) = Some tr \<and> truck_free tr \<and>
        get_by tnk_id ki (w_tanks s) = Some tk \<and> tank_free tk \<and> o_quantityLiters d \<le> tnk_maxCapacityLiters tk \<and>
        o_fuelType d \<in> set (tnk_fuelTypes tk) \<and>
        (\<not> u_isOnline dr \<longrightarrow> \<not> blank_reason reason \<and> o_assignedWhileIneligible y \<and> o_assignedWhileIneligibleReason y = reason)))"
proof (cases r)
  case (Inl e)
  with run assignDriver_err_safe show ?thesis by (auto simp: err_safe_def)
next
  case (Inr x)
  from run [unfolded Inr assignDriver_def Let_def] obtain found s0 d s1 u1 s2 driver s3 u2 s4 nearest s5 w s6 res s7 where
    "find_order i s = (Inr found, s0)" "demand NotFound found s0 = (Inr d, s1)"
    "guard (o_status d = ROUTED_TO_TRANSPORT) (Conflict None) s1 = (Inr u1, s2)"
    and dr: "find_one w_users u_id user_scoping di s2 = (Inr driver, s3)"
    and rsn: "guard (\<not> (map_option classifyEligibility driver = Some OFFLINE \<and> blank_reason reason))
      (BadRequest (Some ASSIGNMENT_REASON_REQUIRED)) s3 = (Inr u2, s4)"
    and near: "findNearestSupplying geo (o_deliveryLocation d) (o_fuelType d) s4 = (Inr nearest, s5)"
      "demand (Conflict (Some NO_WAREHOUSE_FOR_GRADE)) nearest s5 = (Inr w, s6)"
    and tx: "try_catch (transaction (book_all d di ti ki (fst w) (map_option classifyEligibility driver = Some OFFLINE) reason))
      (\<lambda>err. if err = DuplicateKey then throw (Conflict (Some ORDER_ALREADY_ASSIGNED)) else throw err) s6 = (Inr res, s7)"
    and rest: "announce_assignment d res s7 = (Inr x, s')"
    by (elim bndE)
  then have d: "sees_order s i d" "o_status d = ROUTED_TO_TRANSPORT" and s6: "s6 = s" "s2 = s"
    by (auto simp: find_order_def [symmetric] demand_inv guard_inv findNearestSupplying_def asks_inv find_order_inv dest!: find_one_state)
  have i: "get_by o_id i (w_orders s) = Some d" using d by (auto simp: sees_order_def)
  from tx have body: "book_all d di ti ki (fst w) (map_option classifyEligibility driver = Some OFFLINE) reason s = (Inr res, s7)"
    by (auto simp: try_catch_inv transaction_inv throw_inv s6 split: if_splits)
  note booked = book_all_okD [OF assms(1) i body]
  have x: "x = res" using rest by (auto simp: announce_assignment_def bnd_inv ret_inv)
  have "keeps (fleet_at us trs tns os) (announce_assignment d res)" for us trs tns os
    unfolding announce_assignment_def by (intro keeps_bnd keeps_basic still.keeps_notify still.keeps_queues)
  from keepsD [OF this rest, of "w_users s7" "w_trucks s7" "w_tanks s7" "w_orders s7"]
  have "fleet_at (w_users s7) (w_trucks s7) (w_tanks s7) (w_orders s7) s'" by (simp add: fleet_at_def)
  then have same: "w_users s' = w_users s7" "w_trucks s' = w_trucks s7" "w_tanks s' = w_tanks s7" "w_orders s' = w_orders s7"
    by (simp_all add: fleet_at_def)
  then have fleet: "fleet_ok s'" using booked by (simp add: fleet_ok_def)
  have offline: "map_option classifyEligibility driver = Some OFFLINE \<and> \<not> blank_reason reason"
    if "get_by u_id di (w_users s) = Some u" "driver_free u" "\<not> u_isOnline u" for u
  proof -
    from body [unfolded book_all_def] obtain bd s1 where "book_driver di (o_id d) s = (Inr (Some bd), s1)"
      by (auto simp: bnd_inv demand_inv)
    then obtain v u' where "user_scoping (w_scope s) = Inr v" "get_by u_id di (w_users s) = Some u'" "v u'"
      unfolding book_driver_def by (rule drivers.book_okD)
    with that(1) dr s6 have "driver = Some u" by (cases driver) (auto simp: find_one_inv)
    with that rsn show ?thesis by (simp add: classifyEligibility_def driver_free_def guard_inv)
  qed
  from booked fleet x d same offline show ?thesis by (simp add: Inr) blast
qed

lemma mset_filter_split:
  "mset (filter (\<lambda>x. P x \<and> \<not> Q x) xs) + mset (filter (\<lambda>x. P x \<and> Q x) xs) = mset (filter P xs)"
  by (induction xs) auto

lemma annotate_okD:
  assumes "annotate us s = (Inr cs, s')"
  shows "s' = s \<and> map cand_driver cs = us \<and> (\<forall>c \<in> set cs. cand_eligibility c = classifyEligibility (cand_driver c))"
  using assms
proof (induction us arbitrary: cs s')
  case (Cons u us)
  then obtain t s1 rest s2 where 1: "getSuggestedTruck (u_id u) s = (Inr t, s1)" "annotate us s1 = (Inr rest, s2)" "s' = s2"
    "cs = \<lparr>cand_driver = u, cand_eligibility = classifyEligibility u, cand_suggestedTruck = t\<rparr> # rest"
    by (auto simp: bnd_inv ret_inv)
  have "keeps P (getSuggestedTruck k)" for P k
    unfolding getSuggestedTruck_def by (intro keeps_bnd keeps_option keeps_reads keeps_basic)
  from keepsD [OF this 1(1), of "(=) s"] have "s1 = s" by simp
  with 1 Cons.IH show ?case by auto
qed (simp add: ret_inv)

text \<open>The candidate list is the whole roster: it holds every driver of the acting company
  exactly as often as the company has them, each classified, with all eligible drivers first, and
  whoever is listed as eligible can be booked.\<close>

theorem candidates_are_the_roster:
  assumes "getCandidates geo i s = (Inr cs, s')"
  shows "\<exists>v. user_scoping (w_scope s) = Inr v \<and>
    mset (map cand_driver cs) = mset (filter (\<lambda>u. v u \<and> u_role u = DRIVER) (w_users s)) \<and>
    sorted (map (\<lambda>c. rank (cand_eligibility c)) cs) \<and>
    (\<forall>c \<in> set cs. cand_eligibility c = ELIGIBLE \<longleftrightarrow> driver_free (cand_driver c) \<and> u_isOnline (cand_driver c))"
proof -
  from assms [unfolded getCandidates_def] obtain found s0 d s1 u1 s2 us s3 ann s4 where
    r: "find_order i s = (Inr found, s0)" "demand NotFound found s0 = (Inr d, s1)"
      "guard (o_status d = ROUTED_TO_TRANSPORT) (Conflict None) s1 = (Inr u1, s2)"
    and us2: "findCandidates geo (o_deliveryLocation d) s2 = (Inr us, s3)" and ann: "annotate us s3 = (Inr ann, s4)"
    and fin: "(ret (sort_key (\<lambda>c. rank (cand_eligibility c)) ann) :: candidate list service) s4 = (Inr cs, s')"
    by (elim bndE) blast
  from r have "s2 = s" by (auto simp: demand_inv guard_inv find_order_inv)
  with us2 have us: "findCandidates geo (o_deliveryLocation d) s = (Inr us, s3)" by simp
  from fin have cs: "cs = sort_key (\<lambda>c. rank (cand_eligibility c)) ann" by (simp add: ret_inv)
  note a = annotate_okD [OF ann]
  from us obtain v where v: "user_scoping (w_scope s) = Inr v"
    and m: "mset us = mset (filter (\<lambda>u. v u \<and> u_role u = DRIVER \<and> u_location u \<noteq> None) (w_users s)) +
      mset (filter (\<lambda>u. v u \<and> u_role u = DRIVER \<and> u_location u = None) (w_users s))"
    by (auto simp: findCandidates_def prog_inv)
  have "mset us = mset (filter (\<lambda>u. v u \<and> u_role u = DRIVER) (w_users s))"
    using mset_filter_split [of "\<lambda>u. v u \<and> u_role u = DRIVER" "\<lambda>u. u_location u = None" "w_users s"]
    unfolding m by (simp only: conj_assoc)
  moreover have "mset (map cand_driver cs) = mset (map cand_driver ann)" by (simp add: cs)
  moreover have "map cand_driver ann = us" using a by simp
  moreover have "cand_eligibility c = ELIGIBLE \<longleftrightarrow> driver_free (cand_driver c) \<and> u_isOnline (cand_driver c)" if "c \<in> set cs" for c
  proof -
    from that a have "cand_driver c \<in> set us" "cand_eligibility c = classifyEligibility (cand_driver c)" by (auto simp: cs)
    moreover from this(1) have "u_role (cand_driver c) = DRIVER"
      using m by (metis (mono_tags, lifting) Un_iff mem_Collect_eq set_filter set_mset_mset set_mset_union)
    ultimately show ?thesis by (simp add: classifyEligibility_def driver_free_def)
  qed
  ultimately show ?thesis using v by (auto simp: cs)
qed

text \<open>Witnesses: the order awaits assignment, everything is free.\<close>

definition dispatch_world :: world where
  "dispatch_world = empty_world\<lparr>w_orders := [blank_order\<lparr>o_status := ROUTED_TO_TRANSPORT\<rparr>],
     w_users := [blank_user, blank_driver\<lparr>u_isOnline := False\<rparr>], w_trucks := [blank_truck], w_tanks := [blank_tank],
     w_warehouses := [depot]\<rparr>"

lemma dispatch_world_ok: "fleet_ok dispatch_world"
  by (simp add: fleet_ok_def bookings_ok_def dispatch_world_def sample_defs)

theorem assign_driver_all_or_nothing_witness:
  "\<exists>s'. assignDriver (\<lambda>_ _. 0) 10 7 20 30 (Some ''asked by phone'') dispatch_world = (Inr 7, s') \<and> fleet_ok s'"
proof -
  have "\<not> isl (fst (assignDriver (\<lambda>_ _. 0) 10 7 20 30 (Some ''asked by phone'') dispatch_world))" by code_simp
  then obtain x s' where run: "assignDriver (\<lambda>_ _. 0) 10 7 20 30 (Some ''asked by phone'') dispatch_world = (Inr x, s')"
    by (auto dest: run_succeeds)
  from assign_driver_all_or_nothing [OF dispatch_world_ok run] run show ?thesis by auto
qed

theorem candidates_are_the_roster_witness:
  "\<exists>cs s'. getCandidates (\<lambda>_ _. 0) 10 dispatch_world = (Inr cs, s') \<and> size (mset (map cand_driver cs)) = 1"
proof -
  have "\<not> isl (fst (getCandidates (\<lambda>_ _. 0) 10 dispatch_world))" by code_simp
  then obtain cs s' where run: "getCandidates (\<lambda>_ _. 0) 10 dispatch_world = (Inr cs, s')"
    by (auto dest: run_succeeds)
  from candidates_are_the_roster [OF run] obtain v where v: "user_scoping (w_scope dispatch_world) = Inr v"
    "mset (map cand_driver cs) = mset (filter (\<lambda>u. v u \<and> u_role u = DRIVER) (w_users dispatch_world))" by blast
  then have "size (mset (map cand_driver cs)) = 1"
    by (auto simp: dispatch_world_def sample_defs)
  with run show ?thesis by auto
qed

end
