(* ===== verification/Routing.thy ===== *)
theory Routing
  imports Dispatch
begin

text \<open>
  Routing an approved order to a transport company: \<open>modules/dispatch/services/routing.service.ts\<close>.
  Routing prices the haul, moves the order on to payment and issues its invoice, in one
  transaction.  The distance of the database's \<open>$geoNear\<close> is the parameter \<open>geo\<close>.
\<close>

section \<open>Administrators of a company\<close>

text \<open>\<open>userModel.find({companyId, role, isActive: true})\<close> under the tenant plugin: the acting
  company replaces the one the filter names.\<close>

definition company_admins :: "oid \<Rightarrow> user_role \<Rightarrow> user list service" where
  "company_admins companyId role =
     bnd (tenant_key companyId) (\<lambda>c.
     find_all w_users user_scoping (\<lambda>u. u_companyId u = Some c \<and> u_role u = role \<and> u_isActive u))"

definition notify_each :: "oid \<Rightarrow> user list \<Rightarrow> notification_type \<Rightarrow> oid \<Rightarrow> unit service" where
  "notify_each companyId admins type orderId =
     for_each admins (\<lambda>admin. notify companyId (u_id admin) type (Some orderId))"

definition notifyClientPriceReady :: "order \<Rightarrow> unit service" where
  "notifyClientPriceReady order =
     notify (o_fuelCompanyId order) (o_clientId order) ORDER_APPROVED_FINAL_PRICE (Some (o_id order))"

definition notifyRouted :: "order \<Rightarrow> oid \<Rightarrow> unit service" where
  "notifyRouted order transportCompanyId =
     bnd (company_admins transportCompanyId TRANSPORT_COMPANY_ADMIN) (\<lambda>admins.
     notify_each transportCompanyId admins ORDER_ROUTED_TO_TRANSPORT (o_id order))"

definition notifyUnroutable :: "order \<Rightarrow> unit service" where
  "notifyUnroutable order =
     bnd (company_admins (o_fuelCompanyId order) FUEL_COMPANY_ADMIN) (\<lambda>admins.
     notify_each (o_fuelCompanyId order) admins NO_DRIVER_AVAILABLE (o_id order))"

section \<open>Routing\<close>

text \<open>The total once the haul is priced, and the fields the order takes with it.\<close>

definition routed_breakdown :: "order \<Rightarrow> rat \<Rightarrow> price_breakdown option" where
  "routed_breakdown order deliveryFee = map_option (\<lambda>quoted.
     derivePriceBreakdown (pb_unitPrice quoted) (o_quantityLiters order) (Some deliveryFee)
       (pb_serviceFeePercent quoted) (pb_taxRatePercent quoted)) (o_priceBreakdown order)"

definition routed_price :: "order \<Rightarrow> rat \<Rightarrow> rat" where
  "routed_price order deliveryFee = (case routed_breakdown order deliveryFee of
     Some priced \<Rightarrow> pb_total priced
   | None \<Rightarrow> roundCurrency
       ((case o_finalPrice order of Some p \<Rightarrow> p | None \<Rightarrow> o_estimatedPrice order) + deliveryFee))"

definition set_routed_price :: "order \<Rightarrow> rat \<Rightarrow> instant \<Rightarrow> order \<Rightarrow> order" where
  "set_routed_price order deliveryFee deadline d =
     d\<lparr>o_priceBreakdown := (case routed_breakdown order deliveryFee of
          Some priced \<Rightarrow> Some priced | None \<Rightarrow> o_priceBreakdown d),
       o_finalPrice := Some (routed_price order deliveryFee),
       o_paymentDeadline := (if o_paymentMethod order = DIRECT then Some deadline else o_paymentDeadline d)\<rparr>"

definition awaitClientSettlement :: "order \<Rightarrow> rat \<Rightarrow> transition_actor \<Rightarrow> order service" where
  "awaitClientSettlement order deliveryFee actor =
     bnd (asks (\<lambda>s. w_now s + minutes (cfg_paymentDeadlineMinutes (w_config s)))) (\<lambda>deadline.
     bnd (transition (o_id order) ROUTED_TO_TRANSPORT PENDING_PAYMENT actor
            (with_extra (set_routed_price order deliveryFee deadline))) (\<lambda>awaiting.
     bnd (issueInvoice awaiting) (\<lambda>_.
     ret awaiting)))"

definition set_transporter :: "oid \<Rightarrow> order \<Rightarrow> order" where
  "set_transporter t d = d\<lparr>o_transportCompanyId := Some t\<rparr>"

definition resolve_transporter :: "company list \<Rightarrow> oid option \<Rightarrow> oid option service" where
  "resolve_transporter candidates chosen = (case chosen of
     Some t \<Rightarrow> bnd (guard (list_ex (\<lambda>c. c_id c = t) candidates) (BadRequest None)) (\<lambda>_. ret (Some t))
   | None \<Rightarrow> ret (case candidates of [c] \<Rightarrow> Some (c_id c) | _ \<Rightarrow> None))"

definition hold_unrouted ::
  "order \<Rightarrow> transition_actor \<Rightarrow> order_status \<Rightarrow> company list \<Rightarrow> (order \<times> company list) service" where
  "hold_unrouted order actor from_status candidates =
     bnd (if from_status = AWAITING_ROUTING then ret order
          else transition (o_id order) from_status AWAITING_ROUTING actor no_options) (\<lambda>updated.
     bnd (notifyUnroutable updated) (\<lambda>_.
     ret (updated, candidates)))"

definition announce_routed :: "order \<Rightarrow> oid \<Rightarrow> (order \<times> company list) service" where
  "announce_routed awaiting t =
     bnd (notifyRouted awaiting t) (\<lambda>_.
     bnd (asks (\<lambda>s. cfg_paymentDeadlineMinutes (w_config s))) (\<lambda>deadlineMinutes.
     bnd (if o_paymentMethod awaiting = DIRECT then schedulePaymentTimeout (o_id awaiting) deadlineMinutes
          else ret ()) (\<lambda>_.
     bnd (notifyClientPriceReady awaiting) (\<lambda>_.
     bnd (find_order (o_id awaiting)) (\<lambda>fresh.
     ret (case fresh of Some d \<Rightarrow> d | None \<Rightarrow> awaiting, []))))))"

definition route_to ::
  "(coords \<Rightarrow> coords \<Rightarrow> rat) \<Rightarrow> order \<Rightarrow> transition_actor \<Rightarrow> order_status \<Rightarrow> user_station \<Rightarrow> oid \<Rightarrow>
     (order \<times> company list) service" where
  "route_to geo order actor from_status station t =
     bnd (feeForCompany geo t
            \<lparr>dt_regionCode = us_regionCode station, dt_governorateCode = Some (us_governorateCode station),
             dt_coordinates = o_deliveryLocation order\<rparr> (o_fuelType order)) (\<lambda>deliveryFee.
     bnd (transaction
            (bnd (transition (o_id order) from_status ROUTED_TO_TRANSPORT actor
                    (with_extra (set_transporter t))) (\<lambda>routed.
             awaitClientSettlement routed deliveryFee actor))) (\<lambda>awaiting.
     announce_routed awaiting t))"

definition routeOrder ::
  "(coords \<Rightarrow> coords \<Rightarrow> rat) \<Rightarrow> order \<Rightarrow> transition_actor \<Rightarrow> order_status \<Rightarrow> oid option \<Rightarrow>
     (order \<times> company list) service" where
  "routeOrder geo order actor from_status chosenTransportCompanyId =
     bnd (find_one w_users u_id user_scoping (o_clientId order)) (\<lambda>client.
     bnd (demand (BadRequest None) (case client of None \<Rightarrow> None | Some c \<Rightarrow> u_station c)) (\<lambda>station.
     bnd (findServingTransporters (o_fuelCompanyId order) (us_regionCode station)) (\<lambda>candidates.
     bnd (resolve_transporter candidates chosenTransportCompanyId) (\<lambda>resolved.
     case resolved of
       None \<Rightarrow> hold_unrouted order actor from_status candidates
     | Some t \<Rightarrow> route_to geo order actor from_status station t))))"

section \<open>Lemmas\<close>

lemma company_admins_run:
  assumes "user_scoping (w_scope s) = Inr v"
  shows "\<exists>us. company_admins c r s = (Inr us, s)"
  using assms
  by (auto simp: company_admins_def tenant_key_def bnd_def asks_def of_sum_def ret_def find_all_def tenant_scoped_def
      split: sum.splits)

lemma notify_each_run: "\<exists>s'. notify_each c us t i s = (Inr (), s') \<and> effects_only s s'"
  unfolding notify_each_def by (rule for_each_effects) (rule notify_run)

lemma notices_run:
  assumes "user_scoping (w_scope s) = Inr v"
  shows "\<exists>s'. notifyRouted d t s = (Inr (), s') \<and> effects_only s s'"
    and "\<exists>s'. notifyUnroutable d s = (Inr (), s') \<and> effects_only s s'"
proof -
  obtain us where "company_admins t TRANSPORT_COMPANY_ADMIN s = (Inr us, s)" using company_admins_run [OF assms] by blast
  with notify_each_run [of t us ORDER_ROUTED_TO_TRANSPORT "o_id d" s]
  show "\<exists>s'. notifyRouted d t s = (Inr (), s') \<and> effects_only s s'" by (simp add: notifyRouted_def bnd_def)
  obtain us where "company_admins (o_fuelCompanyId d) FUEL_COMPANY_ADMIN s = (Inr us, s)"
    using company_admins_run [OF assms] by blast
  with notify_each_run [of "o_fuelCompanyId d" us NO_DRIVER_AVAILABLE "o_id d" s]
  show "\<exists>s'. notifyUnroutable d s = (Inr (), s') \<and> effects_only s s'" by (simp add: notifyUnroutable_def bnd_def)
qed

lemma issueInvoice_orders:
  assumes ok: "ledger_ok s" and run: "issueInvoice order s = (Inr d, s')" and y: "sees_order s (o_id order) y"
  shows "w_orders s' = upd_by o_id (o_id order) (\<lambda>x. x\<lparr>o_invoiceId := Some (inv_id d)\<rparr>) (w_orders s) \<and>
    w_scope s' = w_scope s \<and> w_jobs s' = w_jobs s"
proof -
  from run obtain s1 s2 s3 s4 r where
    credit: "(if o_paymentMethod order = CREDIT
          then bnd (getAvailableCredit (o_clientId order)) (\<lambda>available.
               guard (\<not> invoice_amount order > available) (BadRequest None))
          else ret ()) s = (Inr (), s1)"
    and ceil: "(if o_paymentMethod order = DEFERRED \<or> o_paymentMethod order = CREDIT
          then assertUnderCeiling (o_fuelCompanyId order) else ret ()) s1 = (Inr (), s2)"
    and ins: "insert_invoice order s2 = (Inr d, s3)"
    and upd: "update_order (o_id order) (\<lambda>_. True) (\<lambda>x. x\<lparr>o_invoiceId := Some (inv_id d)\<rparr>) s3 = (Inr r, s4)"
    and acc: "accrueCommission (o_fuelCompanyId order) d s4 = (Inr (), s')"
    unfolding issueInvoice_def by (elim bndE) (simp add: ret_inv)
  have s1: "s1 = s" using credit by (auto simp: prog_inv dest: getAvailableCredit_state)
  have s2: "s2 = s" using ceil s1 by (auto simp: prog_inv dest: assertUnderCeiling_state split: if_splits)
  from ins [unfolded s2] have s3: "s3 = w_invoices_update (\<lambda>ds. ds @ [d]) (s\<lparr>w_next_id := Suc (w_next_id s)\<rparr>)"
    by (rule insert_invoice_ok)
  from y s3 have "sees_order s3 (o_id order) y" by (simp add: sees_order_def)
  from update_order_run [OF this, of "\<lambda>_. True"] upd
  have s4: "s4 = w_orders_update (upd_by o_id (o_id order) (\<lambda>x. x\<lparr>o_invoiceId := Some (inv_id d)\<rparr>)) s3" by simp
  have "ledger_ok s4" by (rule ledger_ok_frame [OF ok]) (simp_all add: s3 s4)
  from accrueCommission_ok [OF this acc] have "w_orders s' = w_orders s4" "w_scope s' = w_scope s4" "w_jobs s' = w_jobs s4"
    by (auto dest: accrues_frame)
  then show ?thesis by (simp add: s4 s3)
qed

text \<open>What the transaction of a routing leaves behind.\<close>

definition priced_and_invoiced :: "order \<Rightarrow> oid \<Rightarrow> rat \<Rightarrow> world \<Rightarrow> world \<Rightarrow> order \<Rightarrow> bool" where
  "priced_and_invoiced d t fee s s' y \<longleftrightarrow>
     get_by o_id (o_id d) (w_orders s') = Some y \<and> o_status y = PENDING_PAYMENT \<and> o_transportCompanyId y = Some t \<and>
     o_finalPrice y = Some (routed_price d fee) \<and> o_priceBreakdown y = routed_breakdown d fee \<and>
     (o_paymentMethod d = DIRECT \<longrightarrow>
        o_paymentDeadline y = Some (w_now s + minutes (cfg_paymentDeadlineMinutes (w_config s)))) \<and>
     (\<exists>inv. w_invoices s' = w_invoices s @ [inv] \<and> inv_orderId inv = o_id d \<and> inv_state inv = ISSUED \<and>
        inv_amount inv = routed_price d fee \<and> inv_method inv = o_paymentMethod d \<and> o_invoiceId y = Some (inv_id inv))"

lemma routing_patches [simp]:
  "order_patch (set_routed_price d fee t)" "same_parties (set_routed_price d fee t)" "order_patch (set_transporter c)"
  by (simp_all add: set_routed_price_def set_transporter_def order_patch_def same_parties_def)

lemma same_parties_apply:
  assumes "same_parties (tr_extra opts)"
  shows "same_parties (apply_transition opts e)"
  using assms by (simp add: same_parties_def apply_transition_def Let_def)

text \<open>The fields of the order after the two transitions of a routing.\<close>

lemma routed_fields:
  assumes "a = apply_transition (with_extra (set_routed_price x fee dl)) (history_entry ROUTED_TO_TRANSPORT PENDING_PAYMENT actor o2 t2) x"
    and "x = apply_transition (with_extra (set_transporter c)) (history_entry st ROUTED_TO_TRANSPORT actor o1 t1) d"
  shows "o_id a = o_id d \<and> o_status a = PENDING_PAYMENT \<and> o_transportCompanyId a = Some c \<and>
    o_finalPrice a = Some (routed_price d fee) \<and> o_priceBreakdown a = routed_breakdown d fee \<and>
    o_paymentMethod a = o_paymentMethod d \<and> (o_paymentMethod d = DIRECT \<longrightarrow> o_paymentDeadline a = Some dl)"
proof -
  have x: "o_id x = o_id d" "o_paymentMethod x = o_paymentMethod d" "o_transportCompanyId x = Some c"
    "o_priceBreakdown x = o_priceBreakdown d" "o_quantityLiters x = o_quantityLiters d"
    "o_finalPrice x = o_finalPrice d" "o_estimatedPrice x = o_estimatedPrice d"
    by (simp_all add: assms(2) apply_extra history_entry_def set_transporter_def)
  then have b: "routed_breakdown x fee = routed_breakdown d fee" by (simp add: routed_breakdown_def)
  with x have "routed_price x fee = routed_price d fee" by (simp add: routed_price_def split: option.splits)
  moreover have "routed_breakdown d fee = None \<longleftrightarrow> o_priceBreakdown d = None" by (simp add: routed_breakdown_def)
  ultimately show ?thesis
    using x b by (auto simp: assms(1) apply_extra history_entry_def set_routed_price_def split: option.splits)
qed

lemma route_body:
  assumes ok: "ledger_ok s" and d: "get_by o_id (o_id d) (w_orders s) = Some d"
    and run: "bnd (transition (o_id d) st ROUTED_TO_TRANSPORT actor (with_extra (set_transporter t)))
      (\<lambda>routed. awaitClientSettlement routed fee actor) s = (Inr a, s')"
  shows "o_id a = o_id d \<and> o_paymentMethod a = o_paymentMethod d \<and> w_scope s' = w_scope s \<and>
    (\<exists>y. priced_and_invoiced d t fee s s' y \<and> sees_order s' (o_id d) y)"
proof -
  let ?o1 = "with_extra (set_transporter t)"
  from run obtain x s1 where 1: "transition (o_id d) st ROUTED_TO_TRANSPORT actor ?o1 s = (Inr x, s1)"
    and 2: "awaitClientSettlement x fee actor s1 = (Inr a, s')" by (rule bndE)
  from 1 obtain d0 es where "get_by o_id (o_id d) (w_orders s) = Some d0"
    and "x = apply_transition ?o1 (history_entry st ROUTED_TO_TRANSPORT actor ?o1 (w_now s)) d0"
    and s1: "s1 = (w_orders_update (upd_by o_id (o_id d) (apply_transition ?o1 (history_entry st ROUTED_TO_TRANSPORT actor ?o1 (w_now s)))) s)
      \<lparr>w_emits := w_emits s @ es\<rparr>" by (rule transition_okD)
  with d have x: "x = apply_transition ?o1 (history_entry st ROUTED_TO_TRANSPORT actor ?o1 (w_now s)) d" by simp
  have idx: "o_id x = o_id d" by (simp add: x apply_transition_fields)
  have gx: "get_by o_id (o_id d) (w_orders s1) = Some x"
    using d by (simp add: s1 get_by_upd_by apply_transition_fields x)
  have same: "w_now s1 = w_now s" "w_config s1 = w_config s" "w_scope s1 = w_scope s" "w_invoices s1 = w_invoices s"
    "w_movements s1 = w_movements s" "w_next_id s1 = w_next_id s" by (simp_all add: s1)
  let ?dl = "w_now s + minutes (cfg_paymentDeadlineMinutes (w_config s))"
  let ?o2 = "with_extra (set_routed_price x fee ?dl)"
  let ?f = "apply_transition ?o2 (history_entry ROUTED_TO_TRANSPORT PENDING_PAYMENT actor ?o2 (w_now s1))"
  from 2 obtain dl sa a' s2 inv sb where "(asks (\<lambda>s. w_now s + minutes (cfg_paymentDeadlineMinutes (w_config s))) :: instant service) s1 = (Inr dl, sa)"
    and "transition (o_id x) ROUTED_TO_TRANSPORT PENDING_PAYMENT actor (with_extra (set_routed_price x fee dl)) sa = (Inr a', s2)"
    and "issueInvoice a' s2 = (Inr inv, sb)" and "(ret a' :: order service) sb = (Inr a, s')"
    unfolding awaitClientSettlement_def by (elim bndE)
  then have 3: "transition (o_id d) ROUTED_TO_TRANSPORT PENDING_PAYMENT actor ?o2 s1 = (Inr a, s2)"
    and 4: "issueInvoice a s2 = (Inr inv, s')" by (simp_all add: asks_def ret_inv same idx)
  from 3 obtain v x0 es2 where v: "order_scoping (w_scope s1) = Inr v" and "get_by o_id (o_id d) (w_orders s1) = Some x0"
    and "v x0" "a = ?f x0"
    and s2: "s2 = (w_orders_update (upd_by o_id (o_id d) ?f) s1)\<lparr>w_emits := w_emits s1 @ es2\<rparr>" by (rule transition_okD)
  with gx have vx: "v x" and a: "a = ?f x" by simp_all
  note fa = routed_fields [OF a x]
  have "sees_order s1 (o_id d) x" using v vx gx by (simp add: sees_order_def)
  then have sa: "sees_order s2 (o_id d) a"
    unfolding a by (rule sees_order_update) (simp_all add: s2 same_parties_apply)
  have ok2: "ledger_ok s2" by (rule ledger_ok_frame [OF ok]) (simp_all add: s2 same)
  have ida: "o_id a = o_id d" using fa by simp
  from issueInvoice_orders [OF ok2 4] sa ida
  have os: "w_orders s' = upd_by o_id (o_id d) (\<lambda>x. x\<lparr>o_invoiceId := Some (inv_id inv)\<rparr>) (w_orders s2)" and sc: "w_scope s' = w_scope s2" by auto
  have sy: "sees_order s' (o_id d) (a\<lparr>o_invoiceId := Some (inv_id inv)\<rparr>)"
    by (rule sees_order_update [OF sa _ sc os]) (simp add: same_parties_def)
  obtain f where "inv = new_invoice a (w_next_id s2) f" "w_invoices s' = w_invoices s2 @ [inv]"
    by (rule issueInvoice_ok [OF ok2 4])
  then have "priced_and_invoiced d t fee s s' (a\<lparr>o_invoiceId := Some (inv_id inv)\<rparr>)"
    using fa sy by (auto simp: priced_and_invoiced_def sees_order_def s2 same invoice_amount_def)
  with sy fa sc show ?thesis by (auto simp: s2 same)
qed

lemma announce_routed_run:
  assumes "user_scoping (w_scope s) = Inr v" "order_scoping (w_scope s) = Inr v'"
  shows "\<exists>x s'. announce_routed a t s = (Inr (x, []), s') \<and> same_collections s s' \<and>
    (\<forall>y. sees_order s (o_id a) y \<longrightarrow> x = y) \<and>
    (o_paymentMethod a = DIRECT \<longrightarrow> PaymentKey (o_id a) \<in> key_of_job ` set (w_jobs s'))"
proof -
  obtain s1 where 1: "notifyRouted a t s = (Inr (), s1)" "effects_only s s1" using notices_run(1) [OF assms(1)] by blast
  let ?m = "cfg_paymentDeadlineMinutes (w_config s1)"
  let ?js = "add_job (PaymentTimeoutJob (o_id a) (w_now s1 + minutes ?m)) (w_jobs s1)"
  let ?s2 = "if o_paymentMethod a = DIRECT then s1\<lparr>w_jobs := ?js\<rparr> else s1\<lparr>w_jobs := w_jobs s1\<rparr>"
  define s2 where "s2 = ?s2"
  have 2: "(if o_paymentMethod a = DIRECT then schedulePaymentTimeout (o_id a) ?m else ret ()) s1 = (Inr (), s2)"
    by (simp add: s2_def schedulePaymentTimeout_def bnd_def asks_def queue_add_def modify_def ret_def)
  have s2: "w_scope s2 = w_scope s1" "same_collections s1 s2"
      "o_paymentMethod a = DIRECT \<longrightarrow> PaymentKey (o_id a) \<in> key_of_job ` set (w_jobs s2)"
    by (auto simp: s2_def same_collections_def add_job_def)
  obtain s3 where 3: "notifyClientPriceReady a s2 = (Inr (), s3)" "effects_only s2 s3"
    unfolding notifyClientPriceReady_def using notify_run by blast
  have sc: "w_scope s3 = w_scope s" "w_orders s3 = w_orders s" "w_config s1 = w_config s" "w_now s1 = w_now s" "w_jobs s3 = w_jobs s2"
    using effects_onlyD [OF 1(2)] effects_onlyD [OF 3(2)] s2(1,2) by (auto simp: same_collections_def)
  obtain x where 4: "find_order (o_id a) s3 = (Inr x, s3)"
    using assms(2) sc(1) by (auto simp: find_order_def find_one_def)
  have "announce_routed a t s = (Inr (case x of Some d \<Rightarrow> d | None \<Rightarrow> a, []), s3)"
    unfolding announce_routed_def
    by (simp add: bnd_def asks_def ret_def 1(1) 2 3(1) 4 sc split del: if_split)
  moreover have "same_collections s s3"
    using effects_onlyD [OF 1(2)] effects_onlyD [OF 3(2)] s2(2) by (simp add: same_collections_def)
  moreover have "(case x of Some d \<Rightarrow> d | None \<Rightarrow> a) = y" if "sees_order s (o_id a) y" for y
    using that 4 find_order_run [of s3 "o_id a" y] sees_order_frame [OF sc(1,2)] by auto
  ultimately show ?thesis using s2(3) sc by auto
qed

section \<open>Properties\<close>

text \<open>The transporter a routing settles on, and the fee it charges.\<close>

definition serves :: "world \<Rightarrow> order \<Rightarrow> user_station \<Rightarrow> company \<Rightarrow> bool" where
  "serves s d st c \<longleftrightarrow> c \<in> set (w_companies s) \<and> c_type c = TRANSPORT \<and> c_status c = ACTIVE \<and>
     c_parentFuelCompanyId c = Some (o_fuelCompanyId d) \<and> us_regionCode st \<in> set (c_servedRegions c)"

definition haul_fee :: "(coords \<Rightarrow> coords \<Rightarrow> rat) \<Rightarrow> world \<Rightarrow> order \<Rightarrow> user_station \<Rightarrow> oid \<Rightarrow> rat \<Rightarrow> bool" where
  "haul_fee geo s d st t fee \<longleftrightarrow>
     feeForCompany geo t \<lparr>dt_regionCode = us_regionCode st, dt_governorateCode = Some (us_governorateCode st),
       dt_coordinates = o_deliveryLocation d\<rparr> (o_fuelType d) s = (Inr fee, s)"

lemma feeForCompany_state: "keeps P (feeForCompany geo t tg ft)"
  unfolding feeForCompany_def findCompany_def findNearestSupplying_def by (intro keeps_bnd keeps_basic)

lemma resolve_transporter_okD:
  assumes "resolve_transporter cs chosen s = (Inr r, s')"
  shows "s' = s \<and> (\<forall>t. r = Some t \<longrightarrow> (\<exists>c \<in> set cs. c_id c = t)) \<and> (\<forall>t. chosen = Some t \<longrightarrow> r = Some t)"
  using assms by (auto simp: resolve_transporter_def prog_inv list_ex_iff split: option.splits list.splits)

lemma hold_unrouted_run:
  assumes run: "hold_unrouted d actor st cs s = (r, s')" and u: "user_scoping (w_scope s) = Inr v"
    and d: "sees_order s (o_id d) d" "o_status d = st"
  shows "(case r of Inl e \<Rightarrow> same_collections s s'
    | Inr (x, cs') \<Rightarrow> cs' = cs \<and> o_status x = AWAITING_ROUTING \<and> get_by o_id (o_id d) (w_orders s') = Some x \<and>
        w_invoices s' = w_invoices s \<and> w_movements s' = w_movements s)"
proof (cases "st = AWAITING_ROUTING")
  case True
  obtain s1 where s1: "notifyUnroutable d s = (Inr (), s1)" "effects_only s s1" using notices_run(2) [OF u] by blast
  with True run have "r = Inr (d, cs)" "s' = s1" by (simp_all add: hold_unrouted_def bnd_def ret_def)
  with effects_onlyD [OF s1(2)] d True show ?thesis by (auto simp: sees_order_def)
next
  case False
  obtain t s1 where t: "transition (o_id d) st AWAITING_ROUTING actor no_options s = (t, s1)" by fastforce
  show ?thesis
  proof (cases t)
    case (Inl e)
    with t transition_errD have "s1 = s" by blast
    with Inl False run t show ?thesis by (auto simp: hold_unrouted_def bnd_def)
  next
    case (Inr x)
    from t [unfolded Inr] obtain d0 es where d0: "get_by o_id (o_id d) (w_orders s) = Some d0"
      and x: "x = apply_transition no_options (history_entry st AWAITING_ROUTING actor no_options (w_now s)) d0"
      and s1: "s1 = (w_orders_update (upd_by o_id (o_id d) (apply_transition no_options (history_entry st AWAITING_ROUTING actor no_options (w_now s)))) s)
        \<lparr>w_emits := w_emits s @ es\<rparr>" by (rule transition_okD)
    have "user_scoping (w_scope s1) = Inr v" using u by (simp add: s1)
    then obtain s2 where s2: "notifyUnroutable x s1 = (Inr (), s2)" "effects_only s1 s2" using notices_run(2) by blast
    with False run t Inr have "r = Inr (x, cs)" "s' = s2" by (simp_all add: hold_unrouted_def bnd_def ret_def)
    with effects_onlyD [OF s2(2)] d0 show ?thesis
      by (simp add: s1 x get_by_upd_by apply_transition_fields history_entry_def)
  qed
qed

lemma route_to_run:
  assumes run: "route_to geo d actor st station t s = (r, s')" and u: "user_scoping (w_scope s) = Inr v"
    and o: "order_scoping (w_scope s) = Inr v'" and d: "sees_order s (o_id d) d" and ok: "ledger_ok s"
  shows "(case r of Inl e \<Rightarrow> same_collections s s'
    | Inr (x, cs) \<Rightarrow> \<exists>fee. haul_fee geo s d station t fee \<and> priced_and_invoiced d t fee s s' x \<and>
        (o_paymentMethod d = DIRECT \<longrightarrow> PaymentKey (o_id d) \<in> key_of_job ` set (w_jobs s')))"
proof -
  let ?tg = "\<lparr>dt_regionCode = us_regionCode station, dt_governorateCode = Some (us_governorateCode station),
             dt_coordinates = o_deliveryLocation d\<rparr>"
  obtain f s1 where f: "feeForCompany geo t ?tg (o_fuelType d) s = (f, s1)" by fastforce
  have s1: "s1 = s" using keepsD [OF feeForCompany_state f, of "(=) s"] by simp
  show ?thesis
  proof (cases f)
    case (Inl e)
    with run f s1 show ?thesis by (auto simp: route_to_def bnd_def)
  next
    case (Inr fee)
    let ?body = "bnd (transition (o_id d) st ROUTED_TO_TRANSPORT actor (with_extra (set_transporter t))) (\<lambda>routed.
             awaitClientSettlement routed fee actor)"
    obtain b s2 where b: "transaction ?body s = (b, s2)" by fastforce
    show ?thesis
    proof (cases b)
      case (Inl e)
      with run f s1 Inr b transaction_errD [OF b [unfolded Inl]] show ?thesis by (auto simp: route_to_def bnd_def)
    next
      case b': (Inr a)
      from d have gd: "get_by o_id (o_id d) (w_orders s) = Some d" by (auto simp: sees_order_def)
      from b b' have "?body s = (Inr a, s2)" by (simp only: transaction_inv)
      from route_body [OF ok gd this] obtain y where y: "priced_and_invoiced d t fee s s2 y" "sees_order s2 (o_id d) y"
        and a: "o_id a = o_id d" "o_paymentMethod a = o_paymentMethod d" and sc: "w_scope s2 = w_scope s" by blast
      from announce_routed_run [of s2 v v' a t] u o sc obtain x s3 where x: "announce_routed a t s2 = (Inr (x, []), s3)"
        and same: "same_collections s2 s3" and xy: "\<forall>y. sees_order s2 (o_id a) y \<longrightarrow> x = y"
        and job: "o_paymentMethod a = DIRECT \<longrightarrow> PaymentKey (o_id a) \<in> key_of_job ` set (w_jobs s3)" by auto
      from run f s1 Inr b b' x have "r = Inr (x, [])" "s' = s3" by (auto simp: route_to_def bnd_def)
      moreover have "priced_and_invoiced d t fee s s3 x" using y xy a same by (simp add: priced_and_invoiced_def same_collections_def)
      ultimately show ?thesis using f s1 Inr job a by (auto simp: haul_fee_def)
    qed
  qed
qed

text \<open>C11: routing either commits everything or nothing.  When it settles on a transporter, that
  company serves the client's region for this fuel company, the order has moved on to payment at the
  price with that company's fee included, one new invoice of exactly that amount is issued and named
  by the order, and a direct payment has its deadline and its timeout job; when it settles on none, the
  order waits for a choice and nothing is invoiced; a choice that does not serve is refused; and when it
  throws, a refused credit or commission ceiling included, the collections are as they were.\<close>

theorem routing_prices_and_invoices:
  assumes "routeOrder geo d actor (o_status d) chosen s = (r, s')"
    and "sees_order s (o_id d) d" and "ledger_ok s"
  shows "(case r of Inl e \<Rightarrow> same_collections s s'
    | Inr (x, cs) \<Rightarrow>
        (o_status x = AWAITING_ROUTING \<and> chosen = None \<and> get_by o_id (o_id d) (w_orders s') = Some x \<and>
           w_invoices s' = w_invoices s \<and> w_movements s' = w_movements s) \<or>
        (\<exists>u st c fee. get_by u_id (o_clientId d) (w_users s) = Some u \<and> u_station u = Some st \<and> serves s d st c \<and>
           chosen \<in> {None, Some (c_id c)} \<and> haul_fee geo s d st (c_id c) fee \<and>
           priced_and_invoiced d (c_id c) fee s s' x \<and>
           (o_paymentMethod d = DIRECT \<longrightarrow> PaymentKey (o_id d) \<in> key_of_job ` set (w_jobs s'))))"
proof -
  have keep: "keeps P (resolve_transporter cs chosen)" for P cs
    unfolding resolve_transporter_def by (intro keeps_option keeps_bnd keeps_basic)
  obtain v where v: "order_scoping (w_scope s) = Inr v" using assms(2) by (auto simp: sees_order_def)
  obtain c0 s0 where c0: "find_one w_users u_id user_scoping (o_clientId d) s = (c0, s0)" by fastforce
  show ?thesis
  proof (cases c0)
    case (Inl e)
    with c0 have "s0 = s" by (simp add: find_one_inv)
    with Inl c0 assms(1) show ?thesis by (auto simp: routeOrder_def bnd_def)
  next
    case (Inr client)
    from c0 [unfolded Inr] obtain v' where v': "user_scoping (w_scope s) = Inr v'" and s0: "s0 = s"
      by (cases client) (auto simp: find_one_inv)
    show ?thesis
    proof (cases "case client of None \<Rightarrow> None | Some c \<Rightarrow> u_station c")
      case None
      with c0 Inr s0 assms(1) show ?thesis by (auto simp: routeOrder_def bnd_def demand_def)
    next
      case (Some st)
      then obtain u where u: "client = Some u" "u_station u = Some st" by (cases client) auto
      with c0 Inr have gu: "get_by u_id (o_clientId d) (w_users s) = Some u" by (auto simp: find_one_inv)
      let ?cs = "filter (\<lambda>c. c_type c = TRANSPORT \<and> c_parentFuelCompanyId c = Some (o_fuelCompanyId d) \<and> c_status c = ACTIVE \<and>
         us_regionCode st \<in> set (c_servedRegions c)) (w_companies s)"
      obtain rt s1 where rt: "resolve_transporter ?cs chosen s = (rt, s1)" by fastforce
      have s1: "s1 = s" using keepsD [OF keep rt, of "(=) s"] by simp
      note run = assms(1) [unfolded routeOrder_def findServingTransporters_def, simplified bnd_def [of "find_one _ _ _ _"]
          c0 Inr s0 Some prod.case sum.case]
      show ?thesis
      proof (cases rt)
        case (Inl e)
        with run rt s1 show ?thesis by (auto simp: bnd_def demand_def asks_def)
      next
        case (Inr res)
        note res = resolve_transporter_okD [OF rt [unfolded Inr]]
        show ?thesis
        proof (cases res)
          case None
          with run rt s1 Inr have "hold_unrouted d actor (o_status d) ?cs s = (r, s')" by (simp add: bnd_def demand_def asks_def)
          from hold_unrouted_run [OF this v' assms(2)] None res show ?thesis by (auto split: sum.splits)
        next
          case (Some t)
          with res obtain c where c: "c \<in> set ?cs" "c_id c = t" by auto
          from run rt s1 Inr Some have "route_to geo d actor (o_status d) st t s = (r, s')" by (simp add: bnd_def demand_def asks_def)
          from route_to_run [OF this v' v assms(2,3)] c gu u Some res show ?thesis
            by (fastforce simp: serves_def split: sum.splits)
        qed
      qed
    qed
  qed
qed

definition sample_station :: user_station where
  "sample_station = \<lparr>us_name = None, us_regionCode = ''RIYADH'', us_governorateCode = ''RIYADH'', us_location = (46, 24),
     us_addressText = ''''\<rparr>"

definition fuel_admin_scope :: request_scope where
  "fuel_admin_scope = \<lparr>rs_userId = Some 3, rs_role = Some FUEL_COMPANY_ADMIN, rs_companyId = Some 1,
     rs_parentFuelCompanyId = None\<rparr>"

definition transport_admin :: user where
  "transport_admin = blank_user\<lparr>u_id := 4, u_companyId := Some 2, u_role := TRANSPORT_COMPANY_ADMIN\<rparr>"

definition approved_order :: order where
  "approved_order = blank_order\<lparr>o_status := APPROVED, o_statusHistory := [step PENDING_APPROVAL APPROVED]\<rparr>"

definition routing_world :: world where
  "routing_world = empty_world\<lparr>w_scope := fuel_admin_scope, w_orders := [approved_order], w_warehouses := [depot],
     w_companies := [fuel_company, transport_company],
     w_users := [blank_user\<lparr>u_station := Some sample_station\<rparr>, transport_admin]\<rparr>"

lemmas routing_defs = routing_world_def approved_order_def transport_admin_def fuel_admin_scope_def sample_station_def sample_defs

theorem routing_prices_and_invoices_witness:
  "\<exists>x s' fee. routeOrder (\<lambda>_ _. 20000) approved_order SYSTEM_ACTOR APPROVED None routing_world = (Inr (x, []), s') \<and>
     priced_and_invoiced approved_order 2 fee routing_world s' x"
proof -
  let ?m = "routeOrder (\<lambda>_ _. 20000) approved_order SYSTEM_ACTOR (o_status approved_order) None"
  have "(case fst (?m routing_world) of Inl e \<Rightarrow> False | Inr (x, cs) \<Rightarrow> cs = [] \<and> o_status x = PENDING_PAYMENT)" by code_simp
  then obtain x s' where run: "?m routing_world = (Inr (x, []), s')" and st: "o_status x = PENDING_PAYMENT"
    by (cases "?m routing_world") (auto split: sum.splits)
  have sees: "sees_order routing_world (o_id approved_order) approved_order"
    by (simp add: sees_order_def multi_party_def resolveFilter_def resolveFuelCompanyId_def routing_defs)
  have "ledger_ok routing_world" by (simp add: ledger_ok_def routing_defs)
  from routing_prices_and_invoices [OF run sees this] st obtain c st fee where "serves routing_world approved_order st c"
    "priced_and_invoiced approved_order (c_id c) fee routing_world s' x" by auto
  moreover from this(1) have "c_id c = 2" by (auto simp: serves_def routing_defs)
  ultimately show ?thesis using run by (auto simp: approved_order_def blank_order_def)
qed

section \<open>What routing does not do\<close>

text \<open>An administrator's override of the fuel-side price has no effect on an order with a breakdown
  (every order has one): the total is derived again from the quoted rates.\<close>

lemma approved_price_superseded:
  assumes "o_priceBreakdown d \<noteq> None"
  shows "routed_price (d\<lparr>o_finalPrice := p\<rparr>) fee = routed_price d fee"
  using assms by (auto simp: routed_price_def routed_breakdown_def)

text \<open>The transporter's administrators are looked up in the fuel company's scope, where none of them
  is visible: whoever is found belongs to the fuel company, so a transporter is never told.\<close>

lemma routed_notice_stays_in_fuel_company:
  assumes "rs_role (w_scope s) = Some FUEL_COMPANY_ADMIN" "rs_companyId (w_scope s) = Some f"
    and "company_admins t TRANSPORT_COMPANY_ADMIN s = (Inr admins, s')"
  shows "\<forall>u \<in> set admins. u_companyId u = Some f"
  using assms by (auto simp: company_admins_def tenant_key_def resolveCompanyId_def tenant_scoped_def prog_inv)

lemma routed_notice_reaches_nobody:
  assumes "rs_role (w_scope s) = Some FUEL_COMPANY_ADMIN" "rs_companyId (w_scope s) = Some f"
    and "\<forall>u \<in> set (w_users s). u_role u = TRANSPORT_COMPANY_ADMIN \<longrightarrow> u_companyId u \<noteq> Some f"
  shows "notifyRouted d t s = (Inr (), s)"
proof -
  have "filter (\<lambda>u. u_companyId u = Some f \<and> u_companyId u = Some f \<and> u_role u = TRANSPORT_COMPANY_ADMIN \<and> u_isActive u) (w_users s) = []"
    using assms(3) by (auto simp: filter_empty_conv)
  with assms(1,2) show ?thesis
    by (simp add: notifyRouted_def company_admins_def tenant_key_def resolveCompanyId_def tenant_scoped_def bnd_def asks_def
        of_sum_def ret_def find_all_def notify_each_def)
qed

end
