(* ===== verification/Payments.thy ===== *)
theory Payments
  imports Routing
begin

text \<open>
  Payments: the gateway webhook of \<open>modules/payments/payments.service.ts\<close> and the payment-window
  job of \<open>modules/payments/queues/payment-timeout.processor.ts\<close>, which race for the same order.

  The keyed hash of the crypto library is the parameter \<open>hmac\<close>, from the secret and the raw body
  to the digest bytes; \<open>secret\<close> is the configuration.  The order id of a webhook is taken to be a
  well-formed object id.
\<close>

section \<open>Signatures\<close>

text \<open>\<open>Buffer.from(text, 'hex')\<close>: whole pairs of hex digits up to the first that is none.\<close>

definition hex_val :: "char \<Rightarrow> nat option" where
  "hex_val c = (let n = of_char c :: nat in
     if 48 \<le> n \<and> n \<le> 57 then Some (n - 48)
     else if 97 \<le> n \<and> n \<le> 102 then Some (n - 87)
     else if 65 \<le> n \<and> n \<le> 70 then Some (n - 55)
     else None)"

fun from_hex :: "string \<Rightarrow> nat list" where
  "from_hex (a # b # cs) = (case (hex_val a, hex_val b) of
     (Some x, Some y) \<Rightarrow> (16 * x + y) # from_hex cs | _ \<Rightarrow> [])"
| "from_hex _ = []"

definition verifySignature ::
  "(string \<Rightarrow> string \<Rightarrow> nat list) \<Rightarrow> (payment_gateway \<Rightarrow> string option) \<Rightarrow> payment_gateway \<Rightarrow> string \<Rightarrow>
     string option \<Rightarrow> bool" where
  "verifySignature hmac secret gateway rawBody signatureHeader =
     (case signatureHeader of
        None \<Rightarrow> False
      | Some signature \<Rightarrow>
          if signature = [] then False
          else (case secret gateway of
            None \<Rightarrow> False
          | Some k \<Rightarrow>
              if k = [] then False
              else (let expectedBuf = hmac k rawBody; providedBuf = from_hex signature in
                if length expectedBuf \<noteq> length providedBuf then False else expectedBuf = providedBuf)))"

section \<open>Events\<close>

record payment_webhook_dto =
  wd_transactionId :: string
  wd_orderId :: oid
  wd_amount :: rat
  wd_currency :: string
  wd_status :: string

record webhook_result =
  wr_duplicate :: bool
  wr_accepted :: bool

definition event_of ::
  "payment_gateway \<Rightarrow> payment_webhook_dto \<Rightarrow> oid \<Rightarrow> oid \<Rightarrow> oid option \<Rightarrow> payment_event_outcome \<Rightarrow> payment_event" where
  "event_of gateway dto i companyId clientId outcome =
     \<lparr>pe_id = i, pe_gatewayTransactionId = wd_transactionId dto, pe_gateway = gateway, pe_orderId = wd_orderId dto,
      pe_companyId = companyId, pe_clientId = clientId, pe_amount = wd_amount dto, pe_currency = wd_currency dto,
      pe_outcome = outcome\<rparr>"

text \<open>\<open>paymentEventModel.create\<close>, with the unique index on \<open>gatewayTransactionId\<close>.\<close>

definition create_event ::
  "payment_gateway \<Rightarrow> payment_webhook_dto \<Rightarrow> oid \<Rightarrow> oid option \<Rightarrow> payment_event_outcome \<Rightarrow> payment_event service" where
  "create_event gateway dto companyId clientId outcome =
     bnd (tenant_key companyId) (\<lambda>c.
     bnd fresh_id (\<lambda>i.
     bnd (asks w_events) (\<lambda>evs.
     bnd (guard (\<not> list_ex (\<lambda>e. pe_gatewayTransactionId e = wd_transactionId dto) evs) DuplicateKey) (\<lambda>_.
     bnd (insert_doc w_events_update (event_of gateway dto i c clientId outcome)) (\<lambda>_.
     ret (event_of gateway dto i c clientId outcome))))))"

definition markOutcome :: "payment_event \<Rightarrow> payment_event_outcome \<Rightarrow> unit service" where
  "markOutcome event outcome =
     bnd (find_and_update w_events w_events_update pe_id event_scoping (pe_id event) (\<lambda>_. True)
            (\<lambda>e. e\<lparr>pe_outcome := outcome\<rparr>)) (\<lambda>_. ret ())"

definition recordEvent :: "payment_gateway \<Rightarrow> payment_webhook_dto \<Rightarrow> payment_event_outcome \<Rightarrow> oid option \<Rightarrow> unit service" where
  "recordEvent gateway dto outcome companyId =
     try_catch
       (bnd (case companyId of Some c \<Rightarrow> ret c | None \<Rightarrow> fresh_id) (\<lambda>c.
        bnd (create_event gateway dto c None outcome) (\<lambda>_. ret ())))
       (\<lambda>_. ret ())"

definition notifyAdmins :: "order \<Rightarrow> notification_type \<Rightarrow> unit service" where
  "notifyAdmins order type =
     bnd (company_admins (o_fuelCompanyId order) FUEL_COMPANY_ADMIN) (\<lambda>admins.
     notify_each (o_fuelCompanyId order) admins type (o_id order))"

definition findPaymentsForClient :: "oid \<Rightarrow> payment_event list service" where
  "findPaymentsForClient clientId =
     find_all w_events event_scoping (\<lambda>e. pe_clientId e = Some clientId \<and> pe_outcome e = EV_CONFIRMED)"

section \<open>The webhook\<close>

definition set_confirmation :: "oid \<Rightarrow> order \<Rightarrow> order" where
  "set_confirmation ev d = d\<lparr>o_paymentConfirmationId := Some ev, o_paymentDeadline := None\<rparr>"

definition confirm_payment :: "order \<Rightarrow> payment_webhook_dto \<Rightarrow> payment_event \<Rightarrow> webhook_result service" where
  "confirm_payment order dto eventDoc =
     try_catch
       (bnd (transaction
          (bnd (settleInvoiceForOrder (o_id order) (Some (wd_transactionId dto))) (\<lambda>_.
           transition (o_id order) PENDING_PAYMENT ROUTED_TO_TRANSPORT SYSTEM_ACTOR
             (with_extra (set_confirmation (pe_id eventDoc)))))) (\<lambda>_.
        bnd (cancelPaymentTimeout (o_id order)) (\<lambda>_.
        bnd (notify (o_fuelCompanyId order) (o_clientId order) ORDER_STATUS_CHANGED (Some (o_id order))) (\<lambda>_.
        ret \<lparr>wr_duplicate = False, wr_accepted = True\<rparr>))))
       (\<lambda>_.
        bnd (markOutcome eventDoc EV_OUT_OF_SEQUENCE) (\<lambda>_.
        bnd (notifyAdmins order PAYMENT_RECONCILIATION_REQUIRED) (\<lambda>_.
        ret \<lparr>wr_duplicate = False, wr_accepted = False\<rparr>)))"

definition apply_event :: "order \<Rightarrow> payment_webhook_dto \<Rightarrow> payment_event \<Rightarrow> webhook_result service" where
  "apply_event order dto eventDoc =
     (if wd_status dto \<noteq> ''PAID''
      then bnd (markOutcome eventDoc EV_OUT_OF_SEQUENCE) (\<lambda>_. ret \<lparr>wr_duplicate = False, wr_accepted = False\<rparr>)
      else if Some (wd_amount dto) \<noteq> o_finalPrice order \<or> wd_currency dto \<noteq> ''SAR''
      then bnd (markOutcome eventDoc EV_AMOUNT_MISMATCH) (\<lambda>_.
           bnd (notifyAdmins order PAYMENT_RECONCILIATION_REQUIRED) (\<lambda>_.
           ret \<lparr>wr_duplicate = False, wr_accepted = False\<rparr>))
      else confirm_payment order dto eventDoc)"

definition handleWebhook ::
  "(string \<Rightarrow> string \<Rightarrow> nat list) \<Rightarrow> (payment_gateway \<Rightarrow> string option) \<Rightarrow> payment_gateway \<Rightarrow> payment_webhook_dto \<Rightarrow>
     string \<Rightarrow> string option \<Rightarrow> webhook_result service" where
  "handleWebhook hmac secret gateway dto rawBody signatureHeader =
     (if \<not> verifySignature hmac secret gateway rawBody signatureHeader
      then bnd (recordEvent gateway dto EV_INVALID_SIGNATURE None) (\<lambda>_. throw Unauthorized)
      else
        bnd (find_order (wd_orderId dto)) (\<lambda>found.
        bnd (demand (BadRequest None) found) (\<lambda>order.
        bnd (try_catch
               (bnd (create_event gateway dto (o_fuelCompanyId order) (Some (o_clientId order)) EV_CONFIRMED)
                  (\<lambda>e. ret (Some e)))
               (\<lambda>err. if err = DuplicateKey then ret None else throw err)) (\<lambda>eventDoc.
        case eventDoc of
          None \<Rightarrow> ret \<lparr>wr_duplicate = True, wr_accepted = False\<rparr>
        | Some e \<Rightarrow> apply_event order dto e))))"

section \<open>The payment window\<close>

definition set_timed_out :: "order \<Rightarrow> order \<Rightarrow> order" where
  "set_timed_out order d = d\<lparr>o_paymentTimeoutCount := o_paymentTimeoutCount order + 1, o_driverId := None,
     o_paymentDeadline := None\<rparr>"

definition notifyTimeout :: "order \<Rightarrow> unit service" where
  "notifyTimeout order =
     bnd (company_admins (o_fuelCompanyId order) FUEL_COMPANY_ADMIN) (\<lambda>admins.
     bnd (notify (o_fuelCompanyId order) (o_clientId order) PAYMENT_TIMEOUT (Some (o_id order))) (\<lambda>_.
     notify_each (o_fuelCompanyId order) admins PAYMENT_TIMEOUT (o_id order)))"

definition timeOut :: "oid \<Rightarrow> unit service" where
  "timeOut orderId =
     bnd (find_order orderId) (\<lambda>found.
     case found of
       None \<Rightarrow> ret ()
     | Some order \<Rightarrow>
         if o_status order \<noteq> PENDING_PAYMENT then ret ()
         else try_catch
           (bnd (transaction
              (bnd (release_driver (o_id order) (o_driverId order)) (\<lambda>_.
               transition (o_id order) PENDING_PAYMENT APPROVED SYSTEM_ACTOR (with_extra (set_timed_out order))))) (\<lambda>_.
            notifyTimeout order))
           (\<lambda>_. ret ()))"

section \<open>Lemmas\<close>

text \<open>The books and the fleet are as they were.\<close>

definition books_as :: "world \<Rightarrow> world \<Rightarrow> bool" where
  "books_as s0 s \<longleftrightarrow> w_orders s = w_orders s0 \<and> w_users s = w_users s0 \<and> w_trucks s = w_trucks s0 \<and>
     w_tanks s = w_tanks s0 \<and> w_invoices s = w_invoices s0 \<and> w_movements s = w_movements s0 \<and>
     w_balances s = w_balances s0 \<and> w_scope s = w_scope s0 \<and> w_jobs s = w_jobs s0 \<and>
     w_next_id s0 \<le> w_next_id s"

lemma books_as_refl [simp]: "books_as s s"
  by (simp add: books_as_def)

lemma keeps_books:
  "keeps (books_as s0) (create_event g dto c cl oc)" "keeps (books_as s0) (markOutcome e oc)"
  "keeps (books_as s0) (recordEvent g dto oc c')" "keeps (books_as s0) (notifyAdmins d ty)"
  "keeps (books_as s0) (notifyTimeout d)"
proof -
  show 1: "keeps (books_as s0) (create_event g dto c cl oc)" for c cl oc
    unfolding create_event_def
    by (intro keeps_bnd keeps_tenant_key keeps_fresh_id keeps_basic keeps_insert_doc) (simp_all add: books_as_def)
  show "keeps (books_as s0) (markOutcome e oc)"
    unfolding markOutcome_def by (intro keeps_bnd keeps_basic keeps_find_and_update) (simp add: books_as_def)
  show "keeps (books_as s0) (recordEvent g dto oc c')"
    unfolding recordEvent_def
    by (intro keeps_try_catch keeps_bnd keeps_option keeps_basic keeps_fresh_id 1) (simp add: books_as_def)
  have n: "keeps (books_as s0) (notify c u t i)" for c u t i
    by (auto intro!: keepsI dest!: notify_effects simp: books_as_def effects_only_def)
  have e: "keeps (books_as s0) (notify_each c us t i)" for c us t i
    unfolding notify_each_def by (intro keeps_for_each n)
  have a: "keeps (books_as s0) (company_admins c r)" for c r
    unfolding company_admins_def by (intro keeps_bnd keeps_tenant_key keeps_reads)
  show "keeps (books_as s0) (notifyAdmins d ty)" unfolding notifyAdmins_def by (intro keeps_bnd a e)
  show "keeps (books_as s0) (notifyTimeout d)" unfolding notifyTimeout_def by (intro keeps_bnd a e n)
qed

text \<open>In the scope of a public route and of a background job every lookup resolves.\<close>

lemma anonymous_notices_run:
  assumes "w_scope s = anonymous"
  shows "\<exists>s'. notifyAdmins d ty s = (Inr (), s')" "\<exists>s'. notifyTimeout d s = (Inr (), s')"
proof -
  have v: "user_scoping (w_scope s) = Inr (\<lambda>_. True)" using assms by simp
  obtain us where us: "company_admins (o_fuelCompanyId d) FUEL_COMPANY_ADMIN s = (Inr us, s)" using company_admins_run [OF v] by blast
  with notify_each_run [of "o_fuelCompanyId d" us ty "o_id d" s]
  show "\<exists>s'. notifyAdmins d ty s = (Inr (), s')" by (auto simp: notifyAdmins_def bnd_def)
  obtain s1 where "notify (o_fuelCompanyId d) (o_clientId d) PAYMENT_TIMEOUT (Some (o_id d)) s = (Inr (), s1)"
    using notify_run by blast
  with us notify_each_run [of "o_fuelCompanyId d" us PAYMENT_TIMEOUT "o_id d" s1]
  show "\<exists>s'. notifyTimeout d s = (Inr (), s')" by (auto simp: notifyTimeout_def bnd_def)
qed

lemma markOutcome_run:
  assumes "w_scope s = anonymous"
  shows "\<exists>s'. markOutcome e oc s = (Inr (), s')"
  using assms by (auto simp: markOutcome_def bnd_def find_and_update_def cas_def ret_def split: option.splits)

lemma create_event_run:
  assumes "w_scope s = anonymous"
  shows "create_event g dto c cl oc s =
    (let s1 = s\<lparr>w_next_id := Suc (w_next_id s)\<rparr>; e = event_of g dto (w_next_id s) c cl oc in
     if \<exists>x \<in> set (w_events s). pe_gatewayTransactionId x = wd_transactionId dto then (Inl DuplicateKey, s1)
     else (Inr e, w_events_update (\<lambda>es. es @ [e]) s1))"
  using assms
  by (auto simp: create_event_def tenant_key_def bnd_def asks_def of_sum_def ret_def fresh_id_def guard_def
      insert_doc_def modify_def list_ex_iff Let_def)

lemma settle_order_ok:
  assumes ok: "ledger_ok s" "invoices_ok s" and run: "settleInvoiceForOrder i pr s = (Inr iv, s')"
  shows "ledger_ok s' \<and> get_by inv_orderId i (w_invoices s') = Some iv \<and> inv_state iv \<noteq> ISSUED \<and>
    w_orders s' = w_orders s \<and> w_scope s' = w_scope s \<and> w_now s' = w_now s \<and> w_jobs s' = w_jobs s \<and>
    w_events s' = w_events s \<and> w_users s' = w_users s"
proof -
  from run obtain d0 where d0: "get_by inv_orderId i (w_invoices s) = Some d0" and go: "applySettlement d0 pr s = (Inr iv, s')"
    by (auto simp: settleInvoiceForOrder_def findInvoiceByOrder_def prog_inv dest: find_one_state)
  then have i: "inv_orderId d0 = i" and mem: "d0 \<in> set (w_invoices s)" by (auto dest: get_by_key get_by_mem)
  from ok(2) have dist: "distinct (map inv_id (w_invoices s))" "distinct (map inv_orderId (w_invoices s))"
    by (simp_all add: invoices_ok_def)
  note post = applySettlement_ok [OF ok(1) get_by_distinct [OF dist(1) mem] go]
  then consider "iv = d0" "s' = s" | s1 where "iv = settle_fields (w_now s) pr d0"
      "s1 = w_invoices_update (upd_by inv_id (inv_id d0) (settle_fields (w_now s) pr)) s"
      "accrues CASHBACK_CREDITED (inv_fuelCompanyId d0) (inv_id d0) s1 s'" by auto
  then show ?thesis
  proof cases
    case 1
    with post d0 show ?thesis by auto
  next
    case (2 s1)
    then have inv: "w_invoices s' = upd_by inv_id (inv_id d0) (settle_fields (w_now s) pr) (w_invoices s)"
      by (auto simp: accrues_def)
    then have "distinct (map inv_orderId (w_invoices s'))" using dist by simp
    moreover have "iv \<in> set (w_invoices s')" "inv_orderId iv = i" using post 2(1) i by (auto dest: get_by_mem)
    ultimately have "get_by inv_orderId i (w_invoices s') = Some iv" using get_by_distinct [of inv_orderId "w_invoices s'" iv] by simp
    with post 2 show ?thesis by (auto simp: accrues_def)
  qed
qed

text \<open>What an accepted confirmation has done, and a refused one has left alone.\<close>

lemma confirm_payment_run:
  assumes sc: "w_scope s = anonymous" and ok: "ledger_ok s" "invoices_ok s" and id: "o_id d = i"
    and run: "confirm_payment d dto e s = (r, s')"
  shows "(\<exists>x. r = Inr \<lparr>wr_duplicate = False, wr_accepted = True\<rparr> \<and> get_by o_id i (w_orders s) = Some x \<and> o_status x = PENDING_PAYMENT \<and>
      w_events s' = w_events s \<and> PaymentKey i \<notin> key_of_job ` set (w_jobs s') \<and> w_scope s' = w_scope s \<and>
      (\<exists>y. get_by o_id i (w_orders s') = Some y \<and> o_status y = ROUTED_TO_TRANSPORT \<and>
         o_paymentConfirmationId y = Some (pe_id e) \<and> o_paymentDeadline y = None) \<and>
      (\<exists>iv. get_by inv_orderId i (w_invoices s') = Some iv \<and> inv_state iv \<noteq> ISSUED)) \<or>
    (r = Inr \<lparr>wr_duplicate = False, wr_accepted = False\<rparr> \<and> books_as s s')"
proof -
  let ?tr = "transition i PENDING_PAYMENT ROUTED_TO_TRANSPORT SYSTEM_ACTOR (with_extra (set_confirmation (pe_id e)))"
  let ?body = "bnd (settleInvoiceForOrder i (Some (wd_transactionId dto))) (\<lambda>_. ?tr)"
  obtain b s1 where b: "transaction ?body s = (b, s1)" by fastforce
  show ?thesis
  proof (cases b)
    case (Inl err)
    have s1: "books_as s s1" using b [unfolded Inl] sc
    proof -
      from b Inl obtain sx where sx: "?body s = (Inl err, sx)" "s1 = rollback s sx" by (auto simp only: transaction_inv)
      have "keeps (\<lambda>t. w_scope t = w_scope s \<and> w_jobs t = w_jobs s \<and> w_next_id s \<le> w_next_id t) ?body"
        unfolding settleInvoiceForOrder_def findInvoiceByOrder_def applySettlement_def accrueCashback_def
          getCurrentCashbackProgramme_def Let_def
        by (intro keeps_bnd keeps_reads keeps_basic keeps_if keeps_modify keeps_option keeps_createMovement
            keeps_transition_any) simp_all
      from keepsD [OF this sx(1)] sx(2) show ?thesis by (simp add: books_as_def)
    qed
    then have sc1: "w_scope s1 = anonymous" using sc by (simp add: books_as_def)
    obtain s2 where s2: "markOutcome e EV_OUT_OF_SEQUENCE s1 = (Inr (), s2)" using markOutcome_run [OF sc1] by blast
    have b2: "books_as s s2" using keepsD [OF keeps_books(2) s2] s1 by blast
    then have sc2: "w_scope s2 = anonymous" using sc by (simp add: books_as_def)
    obtain s3 where s3: "notifyAdmins d PAYMENT_RECONCILIATION_REQUIRED s2 = (Inr (), s3)" using anonymous_notices_run(1) [OF sc2] by blast
    have "books_as s s3" using keepsD [OF keeps_books(4) s3] b2 by blast
    with run b Inl s2 s3 id show ?thesis by (auto simp: confirm_payment_def try_catch_def bnd_def ret_def)
  next
    case (Inr y)
    from b Inr have "?body s = (Inr y, s1)" by (simp only: transaction_inv)
    then obtain iv sx where 1: "settleInvoiceForOrder i (Some (wd_transactionId dto)) s = (Inr iv, sx)"
      and 2: "?tr sx = (Inr y, s1)" by (rule bndE)
    note settled = settle_order_ok [OF ok 1]
    from 2 obtain x es where x: "get_by o_id i (w_orders sx) = Some x" "o_status x = PENDING_PAYMENT"
      and s1: "s1 = (w_orders_update (upd_by o_id i (apply_transition (with_extra (set_confirmation (pe_id e)))
         (history_entry PENDING_PAYMENT ROUTED_TO_TRANSPORT SYSTEM_ACTOR (with_extra (set_confirmation (pe_id e))) (w_now sx)))) sx)
         \<lparr>w_emits := w_emits sx @ es\<rparr>" by (rule transition_okD)
    let ?s2 = "s1\<lparr>w_jobs := remove_job (PaymentKey i) (w_jobs s1)\<rparr>"
    obtain s3 where s3: "notify (o_fuelCompanyId d) (o_clientId d) ORDER_STATUS_CHANGED (Some i) ?s2 = (Inr (), s3)"
      and eff: "effects_only ?s2 s3" using notify_run by blast
    have "r = Inr \<lparr>wr_duplicate = False, wr_accepted = True\<rparr>" "s' = s3"
      using run b Inr s3 id
      by (auto simp: confirm_payment_def try_catch_def bnd_def ret_def cancelPaymentTimeout_def queue_remove_def modify_def)
    moreover have "PaymentKey i \<notin> key_of_job ` set (remove_job (PaymentKey i) js)" for js
      by (auto simp: remove_job_def)
    ultimately show ?thesis using settled x effects_onlyD [OF eff]
      by (auto simp: s1 get_by_upd_by apply_transition_fields apply_extra history_entry_def set_confirmation_def order_patch_def)
  qed
qed

lemma handleWebhook_valid:
  assumes "w_scope s = anonymous" "verifySignature h k g body sig"
  shows "handleWebhook h k g dto body sig s = (case get_by o_id (wd_orderId dto) (w_orders s) of
     None \<Rightarrow> (Inl (BadRequest None), s)
   | Some d \<Rightarrow>
       (let s1 = s\<lparr>w_next_id := Suc (w_next_id s)\<rparr>;
            e = event_of g dto (w_next_id s) (o_fuelCompanyId d) (Some (o_clientId d)) EV_CONFIRMED in
        if \<exists>x \<in> set (w_events s). pe_gatewayTransactionId x = wd_transactionId dto
        then (Inr \<lparr>wr_duplicate = True, wr_accepted = False\<rparr>, s1)
        else apply_event d dto e (w_events_update (\<lambda>es. es @ [e]) s1)))"
proof (cases "get_by o_id (wd_orderId dto) (w_orders s)")
  case None
  then have "find_order (wd_orderId dto) s = (Inr None, s)" using assms(1) by (simp add: find_order_def find_one_def)
  with None assms(2) show ?thesis by (simp add: handleWebhook_def bnd_def demand_def)
next
  case (Some d)
  then have "find_order (wd_orderId dto) s = (Inr (Some d), s)" using assms(1) by (simp add: find_order_def find_one_def)
  with Some assms(2) show ?thesis
    by (simp add: handleWebhook_def bnd_def demand_def try_catch_def create_event_run [OF assms(1)] ret_def Let_def)
qed

lemma handleWebhook_invalid:
  assumes "\<not> verifySignature h k g body sig"
  shows "\<exists>s'. handleWebhook h k g dto body sig s = (Inl Unauthorized, s') \<and> books_as s s'"
proof -
  obtain r s1 where r: "recordEvent g dto EV_INVALID_SIGNATURE None s = (r, s1)" by fastforce
  have "r = Inr ()" using r by (auto simp: recordEvent_def try_catch_def ret_def split: prod.splits sum.splits)
  moreover have "books_as s s1" using keepsD [OF keeps_books(3) r] by simp
  ultimately show ?thesis using assms r by (simp add: handleWebhook_def bnd_def throw_def)
qed

definition confirmed_by :: "payment_webhook_dto \<Rightarrow> world \<Rightarrow> world \<Rightarrow> bool" where
  "confirmed_by dto s s' \<longleftrightarrow>
     (\<exists>d y iv e. get_by o_id (wd_orderId dto) (w_orders s) = Some d \<and> o_status d = PENDING_PAYMENT \<and>
        o_finalPrice d = Some (wd_amount dto) \<and> wd_currency dto = ''SAR'' \<and> wd_status dto = ''PAID'' \<and>
        get_by o_id (wd_orderId dto) (w_orders s') = Some y \<and> o_status y = ROUTED_TO_TRANSPORT \<and>
        o_paymentConfirmationId y = Some (pe_id e) \<and> o_paymentDeadline y = None \<and>
        get_by inv_orderId (wd_orderId dto) (w_invoices s') = Some iv \<and> inv_state iv \<noteq> ISSUED \<and>
        w_events s' = w_events s @ [e] \<and> pe_outcome e = EV_CONFIRMED \<and>
        pe_gatewayTransactionId e = wd_transactionId dto \<and> pe_orderId e = wd_orderId dto) \<and>
     PaymentKey (wd_orderId dto) \<notin> key_of_job ` set (w_jobs s') \<and>
     (\<forall>x \<in> set (w_events s). pe_gatewayTransactionId x \<noteq> wd_transactionId dto)"

lemma repeated_webhook:
  assumes "w_scope s = anonymous" "x \<in> set (w_events s)" "pe_gatewayTransactionId x = wd_transactionId dto"
    and "handleWebhook h k g dto body sig s = (r, s')"
  shows "books_as s s'"
proof (cases "verifySignature h k g body sig")
  case True
  with assms show ?thesis
    by (auto simp: handleWebhook_valid [OF assms(1) True] Let_def books_as_def split: option.splits if_splits)
next
  case False
  from handleWebhook_invalid [OF this, of dto s] assms(4) show ?thesis by auto
qed

lemma apply_event_run:
  assumes sc: "w_scope s = anonymous" and ok: "ledger_ok s" "invoices_ok s" and id: "o_id d = i"
    and d: "get_by o_id i (w_orders s) = Some d" and run: "apply_event d dto e s = (r, s')"
  shows "(r = Inr \<lparr>wr_duplicate = False, wr_accepted = True\<rparr> \<and> o_status d = PENDING_PAYMENT \<and>
      o_finalPrice d = Some (wd_amount dto) \<and> wd_currency dto = ''SAR'' \<and> wd_status dto = ''PAID'' \<and>
      w_events s' = w_events s \<and> PaymentKey i \<notin> key_of_job ` set (w_jobs s') \<and> w_scope s' = w_scope s \<and>
      (\<exists>y. get_by o_id i (w_orders s') = Some y \<and> o_status y = ROUTED_TO_TRANSPORT \<and>
         o_paymentConfirmationId y = Some (pe_id e) \<and> o_paymentDeadline y = None) \<and>
      (\<exists>iv. get_by inv_orderId i (w_invoices s') = Some iv \<and> inv_state iv \<noteq> ISSUED)) \<or>
    (r = Inr \<lparr>wr_duplicate = False, wr_accepted = False\<rparr> \<and> books_as s s')"
proof -
  consider (unpaid) "wd_status dto \<noteq> ''PAID''" | (mismatch) "wd_status dto = ''PAID''" "Some (wd_amount dto) \<noteq> o_finalPrice d \<or> wd_currency dto \<noteq> ''SAR''"
    | (fits) "wd_status dto = ''PAID''" "o_finalPrice d = Some (wd_amount dto)" "wd_currency dto = ''SAR''" by fastforce
  then show ?thesis
  proof cases
    case unpaid
    obtain s1 where s1: "markOutcome e EV_OUT_OF_SEQUENCE s = (Inr (), s1)" using markOutcome_run [OF sc] by blast
    with unpaid run keepsD [OF keeps_books(2) s1, of s] show ?thesis by (simp add: apply_event_def bnd_def ret_def)
  next
    case mismatch
    obtain s1 where s1: "markOutcome e EV_AMOUNT_MISMATCH s = (Inr (), s1)" using markOutcome_run [OF sc] by blast
    have b: "books_as s s1" using keepsD [OF keeps_books(2) s1, of s] by simp
    then have "w_scope s1 = anonymous" using sc by (simp add: books_as_def)
    then obtain s2 where s2: "notifyAdmins d PAYMENT_RECONCILIATION_REQUIRED s1 = (Inr (), s2)" using anonymous_notices_run by blast
    have "books_as s s2" using keepsD [OF keeps_books(4) s2 b] .
    with mismatch s1 s2 run show ?thesis by (auto simp: apply_event_def bnd_def ret_def)
  next
    case fits
    then have "confirm_payment d dto e s = (r, s')" using run by (simp add: apply_event_def)
    from confirm_payment_run [OF sc ok id this] fits d show ?thesis by auto
  qed
qed

lemma webhook_outcome:
  assumes "w_scope s = anonymous" and "ledger_ok s" and "invoices_ok s"
    and "handleWebhook h k g dto body sig s = (r, s')"
  shows "(case r of Inl e \<Rightarrow> books_as s s'
     | Inr res \<Rightarrow> verifySignature h k g body sig \<and>
         (if wr_accepted res then confirmed_by dto s s' \<and> w_scope s' = anonymous else books_as s s'))"
proof (cases "verifySignature h k g body sig")
  case False
  from handleWebhook_invalid [OF this, of dto s] assms(4) show ?thesis by auto
next
  case sig: True
  show ?thesis
  proof (cases "get_by o_id (wd_orderId dto) (w_orders s)")
    case None
    with assms(4) handleWebhook_valid [OF assms(1) sig, of dto] show ?thesis by auto
  next
    case (Some d)
    define s1 where "s1 = s\<lparr>w_next_id := Suc (w_next_id s)\<rparr>"
    define e where "e = event_of g dto (w_next_id s) (o_fuelCompanyId d) (Some (o_clientId d)) EV_CONFIRMED"
    define s2 where "s2 = w_events_update (\<lambda>es. es @ [e]) s1"
    note run = assms(4) [unfolded handleWebhook_valid [OF assms(1) sig] Some option.case Let_def, folded s1_def e_def, folded s2_def]
    show ?thesis
    proof (cases "\<exists>x \<in> set (w_events s). pe_gatewayTransactionId x = wd_transactionId dto")
      case True
      with run sig show ?thesis by (auto simp: s1_def books_as_def)
    next
      case False
      with run have go: "apply_event d dto e s2 = (r, s')" by simp
      have ok2: "ledger_ok s2" "invoices_ok s2" "w_scope s2 = anonymous" "get_by o_id (wd_orderId dto) (w_orders s2) = Some d"
        using assms(1-3) Some by (auto simp: s2_def s1_def invoices_ok_def intro: ledger_ok_frame)
      have "books_as s2 s' \<Longrightarrow> books_as s s'" by (simp add: books_as_def s2_def s1_def)
      moreover have e: "w_events s2 = w_events s @ [e]" "pe_gatewayTransactionId e = wd_transactionId dto" "pe_orderId e = wd_orderId dto"
        "pe_outcome e = EV_CONFIRMED" by (simp_all add: s2_def s1_def e_def event_of_def)
      moreover note out = apply_event_run [OF ok2(3,1,2) get_by_key [OF Some] ok2(4) go]
      ultimately show ?thesis using sig Some False ok2(3) by (auto simp: confirmed_by_def)
    qed
  qed
qed

section \<open>Properties\<close>

text \<open>C10: the webhook confirms a payment exactly once.  An accepted webhook was signed, names an order
  that awaits payment of exactly its final price, and in one step settles the order's invoice, moves the
  order on, records the confirmation and removes the timeout job; anything else (a forged or repeated
  webhook, another amount, an order that has moved on) leaves orders, invoices, ledger, balances, users
  and jobs as they were; and after an accepted webhook no webhook with that transaction id changes them.\<close>

theorem webhook_confirms_exactly_once:
  assumes "w_scope s = anonymous" and "ledger_ok s" and "invoices_ok s"
    and "handleWebhook h k g dto body sig s = (r, s')"
  shows "(case r of Inl e \<Rightarrow> books_as s s'
     | Inr res \<Rightarrow> verifySignature h k g body sig \<and>
         (if wr_accepted res then confirmed_by dto s s' else books_as s s')) \<and>
    (r = Inr \<lparr>wr_duplicate = False, wr_accepted = True\<rparr> \<longrightarrow>
       (\<forall>g2 dto2 body2 sig2 r2 s2. wd_transactionId dto2 = wd_transactionId dto \<longrightarrow>
          handleWebhook h k g2 dto2 body2 sig2 s' = (r2, s2) \<longrightarrow> books_as s' s2))"
proof -
  note out = webhook_outcome [OF assms]
  have "books_as s' s2" if "r = Inr \<lparr>wr_duplicate = False, wr_accepted = True\<rparr>" "wd_transactionId dto2 = wd_transactionId dto"
      "handleWebhook h k g2 dto2 body2 sig2 s' = (r2, s2)" for g2 dto2 body2 sig2 r2 s2
  proof -
    from out that(1) have c: "confirmed_by dto s s'" and sc: "w_scope s' = anonymous" by simp_all
    from c obtain e where e: "w_events s' = w_events s @ [e]" "pe_gatewayTransactionId e = wd_transactionId dto"
      by (auto simp: confirmed_by_def)
    show ?thesis by (rule repeated_webhook [OF sc _ _ that(3), where x = e]) (use e that(2) in simp_all)
  qed
  with out show ?thesis by (auto split: sum.splits if_splits)
qed

lemma timeOut_run:
  assumes sc: "w_scope s = anonymous" and d: "get_by o_id i (w_orders s) = Some d" "o_status d = PENDING_PAYMENT"
  shows "\<exists>s' y. timeOut i s = (Inr (), s') \<and> get_by o_id i (w_orders s') = Some y \<and> o_status y = APPROVED \<and>
    o_paymentTimeoutCount y = o_paymentTimeoutCount d + 1 \<and> o_paymentDeadline y = None \<and> o_driverId y = None \<and>
    w_invoices s' = w_invoices s \<and> w_movements s' = w_movements s \<and> w_scope s' = anonymous \<and> w_next_id s \<le> w_next_id s'"
proof -
  have id: "o_id d = i" using d(1) by (rule get_by_key)
  have find: "find_order i s = (Inr (Some d), s)" using sc d(1) by (simp add: find_order_def find_one_def)
  let ?opts = "with_extra (set_timed_out d)"
  have "\<exists>s1. release_driver i (o_driverId d) s = (Inr (), s1)"
    using sc by (auto simp: release_driver_def release_doc_def bnd_def ret_def find_and_update_def cas_def split: option.splits)
  then obtain s1 where r: "release_driver i (o_driverId d) s = (Inr (), s1)" by blast
  have s1: "w_orders s1 = w_orders s" "w_scope s1 = w_scope s" "w_invoices s1 = w_invoices s" "w_movements s1 = w_movements s" "w_next_id s1 = w_next_id s"
    using r by (auto simp: release_driver_def release_doc_def prog_inv split: option.splits)
      (auto simp: find_and_update_def cas_def split: sum.splits option.splits if_splits)
  have v1: "order_scoping (w_scope s1) = Inr (\<lambda>_. True)" using s1 sc by simp
  have g1: "get_by o_id i (w_orders s1) = Some d" using s1 d by simp
  have edge: "legal_edge PENDING_PAYMENT APPROVED (tr_manualOverride ?opts)" by (auto simp: legal_edge_def)
  obtain y s2 where t: "transition i PENDING_PAYMENT APPROVED SYSTEM_ACTOR ?opts s1 = (Inr y, s2)"
    using transition_ok_run [OF v1 g1 TrueI d(2) edge] by blast
  then obtain d0 es where d0: "get_by o_id i (w_orders s1) = Some d0"
    and y: "y = apply_transition ?opts (history_entry PENDING_PAYMENT APPROVED SYSTEM_ACTOR ?opts (w_now s1)) d0"
    and s2: "s2 = (w_orders_update (upd_by o_id i (apply_transition ?opts (history_entry PENDING_PAYMENT APPROVED SYSTEM_ACTOR ?opts (w_now s1)))) s1)
      \<lparr>w_emits := w_emits s1 @ es\<rparr>" by (rule transition_okD)
  have patch: "order_patch (set_timed_out d)" by (simp add: order_patch_def set_timed_out_def)
  have gy: "get_by o_id i (w_orders s2) = Some y"
    using d0 by (simp add: s2 y get_by_upd_by apply_transition_fields patch)
  have "w_scope s2 = anonymous" by (simp add: s2 s1 sc)
  then obtain s3 where n: "notifyTimeout d s2 = (Inr (), s3)" using anonymous_notices_run(2) by blast
  have b: "books_as s2 s3" using keepsD [OF keeps_books(5) n, of s2] by simp
  have "timeOut i s = (Inr (), s3)"
    using find d(2) id r t n by (simp add: timeOut_def bnd_def try_catch_def transaction_def)
  moreover have "o_status y = APPROVED" "o_paymentTimeoutCount y = o_paymentTimeoutCount d + 1" "o_paymentDeadline y = None" "o_driverId y = None"
    by (simp_all add: y apply_extra history_entry_def set_timed_out_def)
  ultimately show ?thesis using gy b sc by (auto simp: books_as_def s2 s1)
qed

text \<open>The payment window always closes.  Whenever the timeout job of an unpaid order fires, it
  completes, the order is back at \<open>APPROVED\<close> with its timeout counted and without a deadline or a driver, its
  invoice is untouched, and delivering the same job again changes nothing.\<close>

theorem payment_window_closes:
  assumes "w_scope s = anonymous" and "get_by o_id i (w_orders s) = Some d" and "o_status d = PENDING_PAYMENT"
  shows "\<exists>s' y. timeOut i s = (Inr (), s') \<and> get_by o_id i (w_orders s') = Some y \<and> o_status y = APPROVED \<and>
    o_paymentTimeoutCount y = o_paymentTimeoutCount d + 1 \<and> o_paymentDeadline y = None \<and> o_driverId y = None \<and>
    w_invoices s' = w_invoices s \<and> timeOut i s' = (Inr (), s')"
proof -
  from timeOut_run [OF assms] obtain s' y where run: "timeOut i s = (Inr (), s')" "get_by o_id i (w_orders s') = Some y" "o_status y = APPROVED"
    "o_paymentTimeoutCount y = o_paymentTimeoutCount d + 1" "o_paymentDeadline y = None" "o_driverId y = None"
    "w_invoices s' = w_invoices s" "w_scope s' = anonymous" by blast
  then have "find_order i s' = (Inr (Some y), s')" by (simp add: find_order_def find_one_def)
  with run(3) have "timeOut i s' = (Inr (), s')" by (simp add: timeOut_def bnd_def ret_def)
  with run show ?thesis by blast
qed

text \<open>The webhook and the timeout of one order have exactly one winner, in either order of arrival.
  After an accepted webhook the timeout job does nothing; after the timeout no webhook for that order is
  accepted, and the late payment changes no order and no invoice.\<close>

theorem payment_race_one_winner:
  assumes "w_scope s = anonymous" and "ledger_ok s" and "invoices_ok s"
    and "get_by o_id (wd_orderId dto) (w_orders s) = Some d" and "o_status d = PENDING_PAYMENT"
  shows "(\<forall>s1. handleWebhook h k g dto body sig s = (Inr \<lparr>wr_duplicate = False, wr_accepted = True\<rparr>, s1) \<longrightarrow>
       timeOut (wd_orderId dto) s1 = (Inr (), s1)) \<and>
    (\<forall>s1 r s2. timeOut (wd_orderId dto) s = (Inr (), s1) \<longrightarrow> handleWebhook h k g dto body sig s1 = (r, s2) \<longrightarrow>
       w_orders s2 = w_orders s1 \<and> w_invoices s2 = w_invoices s1 \<and> r \<noteq> Inr \<lparr>wr_duplicate = False, wr_accepted = True\<rparr>)"
proof (intro conjI allI impI)
  fix s1 assume run: "handleWebhook h k g dto body sig s = (Inr \<lparr>wr_duplicate = False, wr_accepted = True\<rparr>, s1)"
  from webhook_outcome [OF assms(1-3) run] obtain y where "get_by o_id (wd_orderId dto) (w_orders s1) = Some y" "o_status y = ROUTED_TO_TRANSPORT"
    "w_scope s1 = anonymous" by (auto simp: confirmed_by_def)
  then show "timeOut (wd_orderId dto) s1 = (Inr (), s1)"
    by (simp add: timeOut_def find_order_def find_one_def bnd_def ret_def)
next
  fix s1 r s2 assume t: "timeOut (wd_orderId dto) s = (Inr (), s1)" and run: "handleWebhook h k g dto body sig s1 = (r, s2)"
  from timeOut_run [OF assms(1,4,5)] t obtain y where y: "get_by o_id (wd_orderId dto) (w_orders s1) = Some y" "o_status y = APPROVED"
    and fr: "w_invoices s1 = w_invoices s" "w_movements s1 = w_movements s" "w_scope s1 = anonymous" "w_next_id s \<le> w_next_id s1" by auto
  have ok: "ledger_ok s1" "invoices_ok s1" using assms(2,3) fr by (auto simp: invoices_ok_def intro: ledger_ok_frame)
  have no: "\<not> confirmed_by dto s1 s2" using y by (simp add: confirmed_by_def)
  with webhook_outcome [OF fr(3) ok run] have "books_as s1 s2" by (auto split: sum.splits if_splits)
  then show "w_orders s2 = w_orders s1" "w_invoices s2 = w_invoices s1" by (simp_all add: books_as_def)
  show "r \<noteq> Inr \<lparr>wr_duplicate = False, wr_accepted = True\<rparr>" using no webhook_outcome [OF fr(3) ok run] by auto
qed

text \<open>C40: a webhook with a bad signature is refused and touches no order and no invoice, but the event it
  leaves behind reserves the transaction id it named: the genuine webhook of that transaction is then
  answered as a duplicate, and the order is never paid by it.\<close>

theorem forged_webhook_reserves_transaction:
  assumes "w_scope s = anonymous" and "\<not> verifySignature h k g body sig"
    and "verifySignature h k g2 body2 sig2" and "wd_transactionId dto2 = wd_transactionId dto"
    and "get_by o_id (wd_orderId dto2) (w_orders s) = Some d"
  shows "\<exists>s1 s2. handleWebhook h k g dto body sig s = (Inl Unauthorized, s1) \<and> books_as s s1 \<and>
    handleWebhook h k g2 dto2 body2 sig2 s1 = (Inr \<lparr>wr_duplicate = True, wr_accepted = False\<rparr>, s2) \<and> books_as s s2"
proof -
  define s0 where "s0 = s\<lparr>w_next_id := Suc (w_next_id s)\<rparr>"
  have sc0: "w_scope s0 = anonymous" using assms(1) by (simp add: s0_def)
  have "recordEvent g dto EV_INVALID_SIGNATURE None s = (Inr (), snd (create_event g dto (w_next_id s) None EV_INVALID_SIGNATURE s0))"
    by (simp add: recordEvent_def try_catch_def bnd_def fresh_id_def ret_def s0_def create_event_run [OF sc0 [unfolded s0_def]] Let_def)
  moreover define s1 where "s1 = snd (create_event g dto (w_next_id s) None EV_INVALID_SIGNATURE s0)"
  ultimately have run: "handleWebhook h k g dto body sig s = (Inl Unauthorized, s1)"
    using assms(2) by (simp add: handleWebhook_def bnd_def throw_def)
  have s1: "\<exists>x \<in> set (w_events s1). pe_gatewayTransactionId x = wd_transactionId dto2" "w_scope s1 = anonymous" "books_as s s1"
    unfolding s1_def create_event_run [OF sc0] Let_def using assms(1,4) by (auto simp: s0_def event_of_def books_as_def)
  let ?s2 = "s1\<lparr>w_next_id := Suc (w_next_id s1)\<rparr>"
  have "get_by o_id (wd_orderId dto2) (w_orders s1) = Some d" using s1(3) assms(5) by (simp add: books_as_def)
  with s1 have "handleWebhook h k g2 dto2 body2 sig2 s1 = (Inr \<lparr>wr_duplicate = True, wr_accepted = False\<rparr>, ?s2)"
    by (simp add: handleWebhook_valid [OF s1(2) assms(3)] Let_def)
  moreover have "books_as s ?s2" using s1(3) by (simp add: books_as_def)
  ultimately show ?thesis using run s1(3) by blast
qed

section \<open>Witnesses\<close>

definition pending_order :: order where
  "pending_order = blank_order\<lparr>o_status := PENDING_PAYMENT, o_finalPrice := Some 150, o_transportCompanyId := Some 2,
     o_invoiceId := Some 40, o_paymentDeadline := Some 5000\<rparr>"

definition payment_world :: world where
  "payment_world = empty_world\<lparr>w_orders := [pending_order], w_companies := [fuel_company, transport_company],
     w_users := [blank_user], w_invoices := [new_invoice pending_order 40 1], w_jobs := [PaymentTimeoutJob 10 5000]\<rparr>"

text \<open>A keyed hash for the witnesses: one byte, the length of the body.\<close>

definition toy_hmac :: "string \<Rightarrow> string \<Rightarrow> nat list" where
  "toy_hmac key text = [length text]"

definition toy_secret :: "payment_gateway \<Rightarrow> string option" where
  "toy_secret g = Some ''k''"

definition paid_dto :: payment_webhook_dto where
  "paid_dto = \<lparr>wd_transactionId = ''T1'', wd_orderId = 10, wd_amount = 150, wd_currency = ''SAR'', wd_status = ''PAID''\<rparr>"

lemmas payment_defs = payment_world_def pending_order_def paid_dto_def toy_hmac_def toy_secret_def sample_defs

lemma payment_world_ok: "w_scope payment_world = anonymous" "ledger_ok payment_world" "invoices_ok payment_world"
  "get_by o_id (wd_orderId paid_dto) (w_orders payment_world) = Some pending_order" "o_status pending_order = PENDING_PAYMENT"
  by (simp_all add: ledger_ok_def invoices_ok_def payment_defs)

lemma paid_run: "\<exists>s'. handleWebhook toy_hmac toy_secret SADAD paid_dto ''body'' (Some ''04'') payment_world =
    (Inr \<lparr>wr_duplicate = False, wr_accepted = True\<rparr>, s')"
proof -
  let ?m = "handleWebhook toy_hmac toy_secret SADAD paid_dto ''body'' (Some ''04'') payment_world"
  have "fst ?m = Inr \<lparr>wr_duplicate = False, wr_accepted = True\<rparr>" by code_simp
  then show ?thesis by (metis prod.collapse)
qed

theorem webhook_confirms_exactly_once_witness:
  "\<exists>s'. handleWebhook toy_hmac toy_secret SADAD paid_dto ''body'' (Some ''04'') payment_world =
     (Inr \<lparr>wr_duplicate = False, wr_accepted = True\<rparr>, s') \<and> confirmed_by paid_dto payment_world s'"
  using paid_run webhook_confirms_exactly_once [OF payment_world_ok(1-3)] by fastforce

theorem payment_window_closes_witness:
  "\<exists>s' y. timeOut 10 payment_world = (Inr (), s') \<and> get_by o_id 10 (w_orders s') = Some y \<and> o_status y = APPROVED"
  using payment_window_closes [OF payment_world_ok(1,4,5)] by (auto simp: paid_dto_def)

theorem payment_race_one_winner_witness:
  "\<exists>s'. handleWebhook toy_hmac toy_secret SADAD paid_dto ''body'' (Some ''04'') payment_world =
     (Inr \<lparr>wr_duplicate = False, wr_accepted = True\<rparr>, s') \<and> timeOut 10 s' = (Inr (), s')"
proof -
  from paid_run obtain s' where run: "handleWebhook toy_hmac toy_secret SADAD paid_dto ''body'' (Some ''04'') payment_world =
    (Inr \<lparr>wr_duplicate = False, wr_accepted = True\<rparr>, s')" by blast
  with payment_race_one_winner [OF payment_world_ok, of toy_hmac toy_secret SADAD "''body''" "Some ''04''"]
  have "timeOut (wd_orderId paid_dto) s' = (Inr (), s')" by blast
  with run show ?thesis by (simp add: paid_dto_def)
qed

theorem forged_webhook_reserves_transaction_witness:
  "\<exists>s1 s2. handleWebhook toy_hmac toy_secret SADAD paid_dto ''body'' (Some ''ff'') payment_world = (Inl Unauthorized, s1) \<and>
     handleWebhook toy_hmac toy_secret SADAD paid_dto ''body'' (Some ''04'') s1 =
       (Inr \<lparr>wr_duplicate = True, wr_accepted = False\<rparr>, s2)"
proof -
  have "\<not> verifySignature toy_hmac toy_secret SADAD ''body'' (Some ''ff'')"
    "verifySignature toy_hmac toy_secret SADAD ''body'' (Some ''04'')" by code_simp+
  from forged_webhook_reserves_transaction [OF payment_world_ok(1) this refl payment_world_ok(4)] show ?thesis by blast
qed

end
