(* ===== verification/Card_Uid.thy ===== *)
theory Card_Uid
  imports Prelude
begin

text \<open>
  Canonical card identifiers: \<open>common/utils/card-uid.util.ts\<close>.  The desk reader that pairs a card
  and the phone that presents it render the same identifier differently (case, separators, decimal
  for hex, byte order); the theorem at the end says that each of these renderings is recognised.
\<close>

section \<open>Digits\<close>

definition is_digit :: "char \<Rightarrow> bool" where
  "is_digit c \<longleftrightarrow> 48 \<le> (of_char c :: nat) \<and> (of_char c :: nat) \<le> 57"

definition is_upper :: "char \<Rightarrow> bool" where
  "is_upper c \<longleftrightarrow> 65 \<le> (of_char c :: nat) \<and> (of_char c :: nat) \<le> 90"

definition is_lower :: "char \<Rightarrow> bool" where
  "is_lower c \<longleftrightarrow> 97 \<le> (of_char c :: nat) \<and> (of_char c :: nat) \<le> 122"

definition to_upper :: "char \<Rightarrow> char" where
  "to_upper c = (if is_lower c then char_of ((of_char c :: nat) - 32) else c)"

definition is_hex :: "char \<Rightarrow> bool" where
  "is_hex c \<longleftrightarrow> is_digit c \<or> (65 \<le> (of_char c :: nat) \<and> (of_char c :: nat) \<le> 70)"

definition digit :: "nat \<Rightarrow> char" where
  "digit n = char_of (if n < 10 then 48 + n else 55 + n)"

definition digit_val :: "char \<Rightarrow> nat" where
  "digit_val c = (of_char c :: nat) - 48"

text \<open>\<open>Number\<close> of a string of decimal digits, and \<open>toString(radix)\<close> in upper case.\<close>

definition decimal :: "string \<Rightarrow> nat" where
  "decimal t = foldl (\<lambda>a c. 10 * a + digit_val c) 0 t"

function radix :: "nat \<Rightarrow> nat \<Rightarrow> string" where
  "radix b n = (if n < b \<or> b < 2 then [digit n] else radix b (n div b) @ [digit (n mod b)])"
  by pat_completeness auto
termination by (relation "measure snd") auto

declare radix.simps [simp del]

definition padStart :: "nat \<Rightarrow> string \<Rightarrow> string" where
  "padStart k t = replicate (k - length t) (CHR ''0'') @ t"

section \<open>The canonical form\<close>

definition DECIMAL_UID_LENGTH :: nat where
  "DECIMAL_UID_LENGTH = 10"

definition MAX_UINT32 :: nat where
  "MAX_UINT32 = 4294967295"

text \<open>Separators removed and letters in upper case.\<close>

definition strip_uid :: "string \<Rightarrow> string" where
  "strip_uid raw = map to_upper (filter (\<lambda>c. is_digit c \<or> is_upper c \<or> is_lower c) raw)"

definition normalizeCardUid :: "string \<Rightarrow> string" where
  "normalizeCardUid raw =
     (let stripped = strip_uid raw in
      if stripped = [] then []
      else if length stripped = DECIMAL_UID_LENGTH \<and> list_all is_digit stripped
      then (let value = decimal stripped in
            if value \<le> MAX_UINT32 then padStart 8 (radix 16 value) else stripped)
      else stripped)"

fun byte_pairs :: "string \<Rightarrow> string list" where
  "byte_pairs (a # b # cs) = [a, b] # byte_pairs cs"
| "byte_pairs _ = []"

definition reverseCardUidBytes :: "string \<Rightarrow> string option" where
  "reverseCardUidBytes uid =
     (if length uid < 2 \<or> odd (length uid) \<or> \<not> list_all is_hex uid then None
      else Some (concat (rev (byte_pairs uid))))"

definition cardUidLookupCandidates :: "string \<Rightarrow> string list" where
  "cardUidLookupCandidates raw =
     (let canonical = normalizeCardUid raw in
      if canonical = [] then []
      else
       (let rawTrimmed = trim raw;
            candidates = (if rawTrimmed \<noteq> [] \<and> rawTrimmed \<noteq> canonical then [canonical, rawTrimmed] else [canonical])
        in (case reverseCardUidBytes canonical of
              Some reversed \<Rightarrow> if reversed \<notin> set candidates then candidates @ [reversed] else candidates
            | None \<Rightarrow> candidates)))"

section \<open>Lemmas\<close>

lemma of_char_digit: "n < 16 \<Longrightarrow> of_char (digit n) = (if n < 10 then 48 + n else 55 + n)"
  by (simp add: digit_def)

lemma digit_kinds:
  assumes "n < 16"
  shows "is_hex (digit n)" "is_digit (digit n) \<longleftrightarrow> n < 10" "n < 10 \<Longrightarrow> digit_val (digit n) = n"
    "is_digit (digit n) \<or> is_upper (digit n)"
  using assms by (auto simp: is_hex_def is_digit_def is_upper_def digit_val_def of_char_digit)

lemma radix_digits: "2 \<le> b \<Longrightarrow> c \<in> set (radix b n) \<Longrightarrow> \<exists>k < b. c = digit k"
proof (induction n rule: less_induct)
  case (less n)
  show ?case
  proof (cases "n < b")
    case True
    with less.prems show ?thesis by (subst (asm) radix.simps) auto
  next
    case False
    with less.prems have "c \<in> set (radix b (n div b)) \<or> c = digit (n mod b)" by (subst (asm) radix.simps) auto
    moreover have "n div b < n" "n mod b < b" using False less.prems(1) by auto
    ultimately show ?thesis using less by blast
  qed
qed

lemma radix_length: "2 \<le> b \<Longrightarrow> n < b ^ Suc k \<Longrightarrow> length (radix b n) \<le> Suc k"
proof (induction k arbitrary: n)
  case 0
  then show ?case by (subst radix.simps) simp
next
  case (Suc k)
  then have "n div b < b ^ Suc k" by (simp add: div_less_iff_less_mult mult.commute)
  with Suc have "length (radix b (n div b)) \<le> Suc k" by blast
  then show ?case by (subst radix.simps) simp
qed

lemma radix_nonempty: "radix b n \<noteq> []"
  by (subst radix.simps) simp

lemma decimal_radix: "decimal (replicate k (CHR ''0'') @ radix 10 n) = n"
proof -
  have fold0: "foldl (\<lambda>a c. 10 * a + digit_val c) 0 (replicate k (CHR ''0'')) = 0"
    by (induction k) (simp_all add: digit_val_def)
  have "foldl (\<lambda>a c. 10 * a + digit_val c) 0 (radix 10 n) = n"
  proof (induction n rule: less_induct)
    case (less n)
    show ?case
    proof (cases "n < 10")
      case True
      then show ?thesis by (subst radix.simps) (simp add: digit_kinds)
    next
      case False
      with less [of "n div 10"] have "foldl (\<lambda>a c. 10 * a + digit_val c) 0 (radix 10 (n div 10)) = n div 10" by simp
      with False show ?thesis by (subst radix.simps) (simp add: digit_kinds)
    qed
  qed
  with fold0 show ?thesis by (simp add: decimal_def)
qed

lemma strip_id:
  assumes "list_all (\<lambda>c. is_digit c \<or> is_upper c) t"
  shows "strip_uid t = t"
proof -
  have "to_upper c = c" if "is_digit c \<or> is_upper c" for c
    using that by (auto simp: to_upper_def is_digit_def is_upper_def is_lower_def)
  with assms show ?thesis by (induction t) (auto simp: strip_uid_def)
qed

lemma strip_upper: "list_all (\<lambda>c. is_digit c \<or> is_upper c) (strip_uid raw)"
proof -
  have "is_digit (to_upper c) \<or> is_upper (to_upper c)" if "is_digit c \<or> is_upper c \<or> is_lower c" for c
    using that by (auto simp: to_upper_def is_digit_def is_upper_def is_lower_def)
  then show ?thesis by (auto simp: list_all_iff strip_uid_def)
qed

lemma hex8:
  assumes "n \<le> MAX_UINT32"
  shows "length (padStart 8 (radix 16 n)) = 8" "list_all (\<lambda>c. is_digit c \<or> is_upper c) (padStart 8 (radix 16 n))"
    "list_all is_hex (padStart 8 (radix 16 n))"
proof -
  have "length (radix 16 n) \<le> Suc 7" by (rule radix_length) (use assms in \<open>simp_all add: MAX_UINT32_def\<close>)
  then show "length (padStart 8 (radix 16 n)) = 8" by (simp add: padStart_def)
  have "(is_digit c \<or> is_upper c) \<and> is_hex c" if c: "c \<in> set (padStart 8 (radix 16 n))" for c
  proof (cases "c = CHR ''0''")
    case True
    then show ?thesis by (simp add: is_digit_def is_hex_def)
  next
    case False
    with c have "c \<in> set (radix 16 n)" by (auto simp: padStart_def)
    then obtain k where "k < 16" "c = digit k" using radix_digits [of 16 c n] by auto
    then show ?thesis using digit_kinds(1,4) by simp
  qed
  then show "list_all (\<lambda>c. is_digit c \<or> is_upper c) (padStart 8 (radix 16 n))" "list_all is_hex (padStart 8 (radix 16 n))"
    by (simp_all add: list_all_iff)
qed

lemma byte_pairs_concat: "even (length t) \<Longrightarrow> concat (byte_pairs t) = t"
  by (induction t rule: byte_pairs.induct) auto

lemma byte_pairs_two: "p \<in> set (byte_pairs t) \<Longrightarrow> length p = 2"
  by (induction t rule: byte_pairs.induct) auto

lemma pairs_of_concat: "(\<And>p. p \<in> set ps \<Longrightarrow> length p = 2) \<Longrightarrow> byte_pairs (concat ps) = ps"
proof (induction ps)
  case (Cons p ps)
  then obtain a b where "p = [a, b]" by (metis length_0_conv length_Suc_conv list.set_intros(1) numeral_2_eq_2)
  with Cons show ?case by simp
qed simp

lemma length_concat_twos: "(\<And>p. p \<in> set ps \<Longrightarrow> length p = 2) \<Longrightarrow> length (concat ps) = 2 * length ps"
  by (induction ps) auto

lemma reverse_bytes:
  assumes "reverseCardUidBytes uid = Some r"
  shows "reverseCardUidBytes r = Some uid" "length r = length uid" "set r = set uid"
proof -
  from assms have u: "2 \<le> length uid" "even (length uid)" "list_all is_hex uid" and r: "r = concat (rev (byte_pairs uid))"
    by (auto simp: reverseCardUidBytes_def split: if_splits)
  have two: "length p = 2" if "p \<in> set (rev (byte_pairs uid))" for p using that byte_pairs_two by simp
  have whole: "concat (byte_pairs uid) = uid" using u(2) by (rule byte_pairs_concat)
  have "length (concat (byte_pairs uid)) = length r"
    using length_concat_twos [OF two] length_concat_twos [OF byte_pairs_two [of _ uid]] by (simp add: r)
  with whole show len: "length r = length uid" by simp
  have "set r = set (concat (byte_pairs uid))" by (simp add: r)
  with whole show st: "set r = set uid" by simp
  have "byte_pairs r = rev (byte_pairs uid)" unfolding r by (rule pairs_of_concat [OF two])
  with whole u len st show "reverseCardUidBytes r = Some uid" by (simp add: reverseCardUidBytes_def list_all_iff)
qed

lemma normal_fixed:
  assumes "list_all (\<lambda>c. is_digit c \<or> is_upper c) t" "length t \<noteq> DECIMAL_UID_LENGTH \<or> \<not> list_all is_digit t"
  shows "normalizeCardUid t = t"
  using strip_id [OF assms(1)] assms(2) by (auto simp: normalizeCardUid_def Let_def)

lemma normalize_cases:
  "(\<exists>n \<le> MAX_UINT32. normalizeCardUid raw = padStart 8 (radix 16 n)) \<or> normalizeCardUid raw = strip_uid raw"
  by (simp add: normalizeCardUid_def Let_def) blast

lemma normalize_idem: "normalizeCardUid (normalizeCardUid raw) = normalizeCardUid raw"
  using normalize_cases [of raw]
proof
  assume "\<exists>n \<le> MAX_UINT32. normalizeCardUid raw = padStart 8 (radix 16 n)"
  then obtain n where "n \<le> MAX_UINT32" "normalizeCardUid raw = padStart 8 (radix 16 n)" by blast
  with hex8 show ?thesis using normal_fixed [of "padStart 8 (radix 16 n)"] by (simp add: DECIMAL_UID_LENGTH_def)
next
  assume st: "normalizeCardUid raw = strip_uid raw"
  have "strip_uid (strip_uid raw) = strip_uid raw" by (rule strip_id [OF strip_upper])
  then have "normalizeCardUid (strip_uid raw) = normalizeCardUid raw" by (simp add: normalizeCardUid_def)
  with st show ?thesis by simp
qed

lemma decimal10:
  assumes "n \<le> MAX_UINT32"
  shows "length (padStart 10 (radix 10 n)) = 10" "list_all is_digit (padStart 10 (radix 10 n))"
    "decimal (padStart 10 (radix 10 n)) = n"
proof -
  have "length (radix 10 n) \<le> Suc 9" by (rule radix_length) (use assms in \<open>simp_all add: MAX_UINT32_def\<close>)
  then show "length (padStart 10 (radix 10 n)) = 10" by (simp add: padStart_def)
  have "is_digit c" if "c \<in> set (radix 10 n)" for c using radix_digits [OF _ that] digit_kinds(2) by force
  then show "list_all is_digit (padStart 10 (radix 10 n))" by (auto simp: padStart_def list_all_iff is_digit_def)
  show "decimal (padStart 10 (radix 10 n)) = n" by (simp add: padStart_def decimal_radix)
qed

lemma normalize_decimal:
  assumes "n \<le> MAX_UINT32" "strip_uid raw = padStart 10 (radix 10 n)"
  shows "normalizeCardUid raw = padStart 8 (radix 16 n)"
  using decimal10 [OF assms(1)] assms by (auto simp: normalizeCardUid_def Let_def DECIMAL_UID_LENGTH_def)

lemma candidates_canonical:
  assumes "normalizeCardUid raw \<noteq> []"
  shows "hd (cardUidLookupCandidates raw) = normalizeCardUid raw"
    "normalizeCardUid raw \<in> set (cardUidLookupCandidates raw)"
    "reverseCardUidBytes (normalizeCardUid raw) = Some r \<Longrightarrow> r \<in> set (cardUidLookupCandidates raw)"
  using assms by (auto simp: cardUidLookupCandidates_def Let_def split: option.splits)

text \<open>C39: one card is one identifier, however a device renders it.  For every four-byte card, the canonical
  form is stable; its hex rendering in any case and with any separators, its ten-digit decimal rendering and
  its byte-reversed rendering all lead the lookup to the canonical form, which is tried first except for the
  reversed one; and reversing the bytes twice gives the identifier back.\<close>

theorem card_renderings_recognised:
  assumes "n \<le> MAX_UINT32" and "uid = padStart 8 (radix 16 n)"
    and "reverseCardUidBytes uid = Some r"
    and "strip_uid raw \<in> {uid, padStart 10 (radix 10 n), r}"
  shows "normalizeCardUid uid = uid \<and> uid \<in> set (cardUidLookupCandidates raw) \<and>
    (strip_uid raw \<noteq> r \<longrightarrow> hd (cardUidLookupCandidates raw) = uid) \<and> reverseCardUidBytes r = Some uid"
proof -
  note u = hex8 [OF assms(1), folded assms(2)] and rv = reverse_bytes [OF assms(3)]
  have nu: "normalizeCardUid raw = t" if "strip_uid raw = t" "length t = 8" for t
    using that by (auto simp: normalizeCardUid_def Let_def DECIMAL_UID_LENGTH_def)
  have uu: "normalizeCardUid uid = uid" by (rule normal_fixed) (use u in \<open>simp_all add: DECIMAL_UID_LENGTH_def\<close>)
  have ne: "uid \<noteq> []" "r \<noteq> []" using u(1) rv(2) by auto
  from assms(4) consider "normalizeCardUid raw = uid" | "strip_uid raw = r" "normalizeCardUid raw = r"
    using nu u(1) rv(2) normalize_decimal [OF assms(1)] assms(2) by auto
  then show ?thesis
  proof cases
    case 1
    with uu rv(1) ne candidates_canonical [of raw] show ?thesis by auto
  next
    case 2
    with uu rv(1) ne candidates_canonical(3) [of raw uid] show ?thesis by auto
  qed
qed

theorem card_renderings_recognised_witness:
  "''0000001A'' \<in> set (cardUidLookupCandidates ''00:00:00:1a'') \<and> ''0000001A'' \<in> set (cardUidLookupCandidates ''0000000026'') \<and>
   ''0000001A'' \<in> set (cardUidLookupCandidates ''1a-00-00-00'')"
proof -
  have n: "26 \<le> MAX_UINT32" by (simp add: MAX_UINT32_def)
  have u: "''0000001A'' = padStart 8 (radix 16 26)" and r: "reverseCardUidBytes ''0000001A'' = Some ''1A000000''" by code_simp+
  have "strip_uid ''00:00:00:1a'' = ''0000001A''" "strip_uid ''1a-00-00-00'' = ''1A000000''"
    "strip_uid ''0000000026'' = padStart 10 (radix 10 26)" by code_simp+
  with card_renderings_recognised [OF n u r] show ?thesis by simp
qed

end
