(* ===== verification/Vehicles.thy ===== *)
theory Vehicles
  imports Orders Card_Uid "HOL-Library.List_Lexorder" "HOL-Library.Char_ord"
begin

text \<open>
  The vehicle registry and the checks a driver passes with it:
  \<open>modules/trucks/trucks.service.ts\<close>, \<open>modules/tanks/tanks.service.ts\<close> and
  \<open>modules/orders/services/vehicle-verification.service.ts\<close>.

  Writes go through the unique indexes of the collections (\<open>indexed_update\<close>,
  \<open>indexed_insert\<close>): the write that would clash is not applied.  The random token of a QR code
  is the argument \<open>token\<close>; the great-circle distance, floating-point trigonometry in the source, is the
  parameter \<open>metres\<close>, in metres.
\<close>

section \<open>Unique indexes\<close>

definition indexed_update ::
  "(world \<Rightarrow> 'd list) \<Rightarrow> (('d list \<Rightarrow> 'd list) \<Rightarrow> world \<Rightarrow> world) \<Rightarrow> ('d \<Rightarrow> oid) \<Rightarrow> 'd scoping \<Rightarrow> ('d \<Rightarrow> 'd \<Rightarrow> bool) \<Rightarrow>
     oid \<Rightarrow> ('d \<Rightarrow> 'd) \<Rightarrow> 'd option service" where
  "indexed_update coll put key vis clash i f s =
     (case find_and_update coll put key vis i (\<lambda>_. True) f s of
        (Inr (Some d), s') \<Rightarrow>
          if list_ex (\<lambda>x. key x \<noteq> i \<and> clash x d) (coll s) then (Inl DuplicateKey, s) else (Inr (Some d), s')
      | other \<Rightarrow> other)"

definition indexed_insert ::
  "(world \<Rightarrow> 'd list) \<Rightarrow> (('d list \<Rightarrow> 'd list) \<Rightarrow> world \<Rightarrow> world) \<Rightarrow> ('d \<Rightarrow> 'd \<Rightarrow> bool) \<Rightarrow> 'd \<Rightarrow> 'd service" where
  "indexed_insert coll put clash d =
     bnd (asks coll) (\<lambda>ds.
     bnd (guard (\<not> list_ex (\<lambda>x. clash x d) ds) DuplicateKey) (\<lambda>_.
     bnd (insert_doc put d) (\<lambda>_. ret d)))"

text \<open>\<open>catch (err) { if duplicate key throw new ConflictException(code) else throw err }\<close>.\<close>

definition on_duplicate :: "error_code \<Rightarrow> 'a service \<Rightarrow> 'a service" where
  "on_duplicate code m = try_catch m (\<lambda>err. throw (if err = DuplicateKey then Conflict (Some code) else err))"

definition truck_clash :: "truck \<Rightarrow> truck \<Rightarrow> bool" where
  "truck_clash x d \<longleftrightarrow>
     (trk_companyId x = trk_companyId d \<and> trk_plateNumber x = trk_plateNumber d) \<or>
     (trk_nfcCardUid x \<noteq> None \<and> trk_nfcCardUid x = trk_nfcCardUid d) \<or>
     (trk_qrToken x \<noteq> None \<and> trk_qrToken x = trk_qrToken d) \<or>
     (trk_activeOrderId x \<noteq> None \<and> trk_activeOrderId x = trk_activeOrderId d)"

definition tank_clash :: "tank \<Rightarrow> tank \<Rightarrow> bool" where
  "tank_clash x d \<longleftrightarrow> tnk_code x = tnk_code d \<or>
     (tnk_activeOrderId x \<noteq> None \<and> tnk_activeOrderId x = tnk_activeOrderId d)"

definition update_truck :: "oid \<Rightarrow> (truck \<Rightarrow> truck) \<Rightarrow> truck option service" where
  "update_truck = indexed_update w_trucks w_trucks_update trk_id truck_scoping truck_clash"

definition update_tank :: "oid \<Rightarrow> (tank \<Rightarrow> tank) \<Rightarrow> tank option service" where
  "update_tank = indexed_update w_tanks w_tanks_update tnk_id tank_scoping tank_clash"

section \<open>Trucks\<close>

definition createTruck :: "oid \<Rightarrow> string \<Rightarrow> string option \<Rightarrow> truck service" where
  "createTruck companyId plateNumber model = on_duplicate DUPLICATE_PLATE
     (bnd (tenant_key companyId) (\<lambda>c.
      bnd fresh_id (\<lambda>i.
      indexed_insert w_trucks w_trucks_update truck_clash
        \<lparr>trk_id = i, trk_companyId = c, trk_plateNumber = plateNumber, trk_model = model, trk_nfcCardUid = None,
         trk_qrToken = None, trk_isActive = True, trk_activeOrderId = None\<rparr>)))"

definition findAllTrucks :: "oid \<Rightarrow> bool \<Rightarrow> (truck list \<times> bool) service" where
  "findAllTrucks companyId availableOnly =
     bnd (tenant_key companyId) (\<lambda>c.
     bnd (find_all w_trucks truck_scoping (\<lambda>t. trk_companyId t = c)) (\<lambda>registered.
     bnd (find_all w_trucks truck_scoping (\<lambda>t. trk_companyId t = c \<and> (availableOnly \<longrightarrow> truck_free t))) (\<lambda>items.
     ret (sort_key trk_plateNumber items, length registered > 0))))"

definition findTruckById :: "oid \<Rightarrow> truck service" where
  "findTruckById i = bnd (find_one w_trucks trk_id truck_scoping i) (demand NotFound)"

definition updateTruck :: "oid \<Rightarrow> string option \<Rightarrow> string option \<Rightarrow> truck service" where
  "updateTruck i plateNumber model = on_duplicate DUPLICATE_PLATE
     (bnd (update_truck i (\<lambda>t. t\<lparr>trk_plateNumber := (case plateNumber of Some p \<Rightarrow> p | None \<Rightarrow> trk_plateNumber t),
        trk_model := (case model of Some m \<Rightarrow> Some m | None \<Rightarrow> trk_model t)\<rparr>)) (demand NotFound))"

definition withdrawTruck :: "oid \<Rightarrow> truck service" where
  "withdrawTruck i = bnd (update_truck i (\<lambda>t. t\<lparr>trk_isActive := False\<rparr>)) (demand NotFound)"

definition restoreTruck :: "oid \<Rightarrow> truck service" where
  "restoreTruck i = bnd (update_truck i (\<lambda>t. t\<lparr>trk_isActive := True\<rparr>)) (demand NotFound)"

definition set_card :: "string \<Rightarrow> truck \<Rightarrow> truck" where
  "set_card uid t = t\<lparr>trk_nfcCardUid := Some uid, trk_qrToken := None\<rparr>"

text \<open>The lookup of the current holder, after the index has refused the write, only fills the message.\<close>

definition pairCard :: "oid \<Rightarrow> string \<Rightarrow> truck service" where
  "pairCard i rawCardUid =
     (let nfcCardUid = normalizeCardUid rawCardUid in
      bnd (guard (nfcCardUid \<noteq> []) (BadRequest None)) (\<lambda>_.
      try_catch (bnd (update_truck i (set_card nfcCardUid)) (demand NotFound))
        (\<lambda>err. if err = DuplicateKey
           then bnd (find_all w_trucks truck_scoping (\<lambda>t. trk_nfcCardUid t = Some nfcCardUid)) (\<lambda>holder.
                throw (Conflict (Some CARD_ALREADY_PAIRED)))
           else throw err)))"

definition mintQrToken :: "string \<Rightarrow> oid \<Rightarrow> truck service" where
  "mintQrToken token i = bnd (update_truck i (\<lambda>t. t\<lparr>trk_qrToken := Some token\<rparr>)) (demand NotFound)"

definition rotateQrToken :: "string \<Rightarrow> oid \<Rightarrow> truck service" where
  "rotateQrToken = mintQrToken"

definition revokeQrToken :: "oid \<Rightarrow> truck service" where
  "revokeQrToken i = bnd (update_truck i (\<lambda>t. t\<lparr>trk_qrToken := None\<rparr>)) (demand NotFound)"

section \<open>Tanks\<close>

definition createTank :: "oid \<Rightarrow> string \<Rightarrow> tank_material \<Rightarrow> rat \<Rightarrow> fuel_type list \<Rightarrow> tank service" where
  "createTank companyId code material maxCapacityLiters fuelTypes = on_duplicate TANK_CODE_IN_USE
     (bnd (tenant_key companyId) (\<lambda>c.
      bnd fresh_id (\<lambda>i.
      indexed_insert w_tanks w_tanks_update tank_clash
        \<lparr>tnk_id = i, tnk_companyId = c, tnk_code = code, tnk_material = material,
         tnk_maxCapacityLiters = maxCapacityLiters, tnk_fuelTypes = fuelTypes, tnk_isActive = True,
         tnk_activeOrderId = None\<rparr>)))"

definition findAllTanks :: "oid \<Rightarrow> (tank list \<times> bool) service" where
  "findAllTanks companyId =
     bnd (tenant_key companyId) (\<lambda>c.
     bnd (find_all w_tanks tank_scoping (\<lambda>t. tnk_companyId t = c)) (\<lambda>items.
     ret (sort_key tnk_code items, length items > 0)))"

definition findTankById :: "oid \<Rightarrow> tank service" where
  "findTankById i = bnd (find_one w_tanks tnk_id tank_scoping i) (demand NotFound)"

definition forOrderId :: "oid \<Rightarrow> rat \<Rightarrow> fuel_type \<Rightarrow> tank list service" where
  "forOrderId companyId quantityLiters fuelType =
     bnd (tenant_key companyId) (\<lambda>c.
     bnd (find_all w_tanks tank_scoping (\<lambda>t. tnk_companyId t = c \<and> tnk_isActive t \<and> tnk_activeOrderId t = None \<and>
            quantityLiters \<le> tnk_maxCapacityLiters t \<and> fuelType \<in> set (tnk_fuelTypes t))) (\<lambda>items.
     ret (sort_key tnk_code items)))"

definition updateTank ::
  "oid \<Rightarrow> string option \<Rightarrow> tank_material option \<Rightarrow> rat option \<Rightarrow> fuel_type list option \<Rightarrow> tank service" where
  "updateTank i code material maxCapacityLiters fuelTypes = on_duplicate TANK_CODE_IN_USE
     (bnd (update_tank i (\<lambda>t. t\<lparr>tnk_code := (case code of Some c \<Rightarrow> c | None \<Rightarrow> tnk_code t),
        tnk_material := (case material of Some m \<Rightarrow> m | None \<Rightarrow> tnk_material t),
        tnk_maxCapacityLiters := (case maxCapacityLiters of Some l \<Rightarrow> l | None \<Rightarrow> tnk_maxCapacityLiters t),
        tnk_fuelTypes := (case fuelTypes of Some fs \<Rightarrow> fs | None \<Rightarrow> tnk_fuelTypes t)\<rparr>)) (demand NotFound))"

definition withdrawTank :: "oid \<Rightarrow> tank service" where
  "withdrawTank i = bnd (update_tank i (\<lambda>t. t\<lparr>tnk_isActive := False\<rparr>)) (demand NotFound)"

definition restoreTank :: "oid \<Rightarrow> tank service" where
  "restoreTank i = bnd (update_tank i (\<lambda>t. t\<lparr>tnk_isActive := True\<rparr>)) (demand NotFound)"

section \<open>Verification of the vehicle\<close>

definition find_truck_by :: "(truck \<Rightarrow> bool) \<Rightarrow> truck option service" where
  "find_truck_by P = bnd (find_all w_trucks truck_scoping P) (\<lambda>found. ret (case found of [] \<Rightarrow> None | t # _ \<Rightarrow> Some t))"

primrec first_truck :: "string list \<Rightarrow> truck option service" where
  "first_truck [] = ret None"
| "first_truck (c # cs) =
     bnd (find_truck_by (\<lambda>t. trk_nfcCardUid t = Some c)) (\<lambda>truck.
     case truck of Some t \<Rightarrow> ret (Some t) | None \<Rightarrow> first_truck cs)"

definition resolveCredential :: "string \<Rightarrow> verification_method \<Rightarrow> truck option service" where
  "resolveCredential credential method =
     (if method \<noteq> NFC_CARD then find_truck_by (\<lambda>t. trk_qrToken t = Some credential)
      else first_truck (cardUidLookupCandidates credential))"

definition resolveOutstandingStage :: "order \<Rightarrow> verification_stage option" where
  "resolveOutstandingStage order =
     (if o_status order = ASSIGNED_TO_DRIVER then Some DEPARTURE_STAGE
      else if o_status order = LOADING then
        (if list_ex (\<lambda>v. vv_stage v = LOADING_STAGE \<and> vv_matched v) (o_verifications order) then None
         else Some LOADING_STAGE)
      else None)"

definition measureAgainstWarehouse ::
  "(coords \<Rightarrow> coords \<Rightarrow> rat) \<Rightarrow> order \<Rightarrow> verification_stage \<Rightarrow> coords option \<Rightarrow> int option service" where
  "measureAgainstWarehouse metres order stage reportedLocation =
     (if stage \<noteq> LOADING_STAGE then ret None
      else
        bnd (demand (Conflict (Some NOT_AT_WAREHOUSE)) (map_option ws_location (o_warehouseSummary order))) (\<lambda>w.
        bnd (demand (BadRequest (Some LOCATION_REQUIRED)) reportedLocation) (\<lambda>p.
        ret (Some (math_round (metres w p))))))"

definition push_verification :: "vehicle_verification \<Rightarrow> order \<Rightarrow> order" where
  "push_verification attempt d = d\<lparr>o_verifications := o_verifications d @ [attempt]\<rparr>"

record verify_vehicle_result =
  vr_order :: order
  vr_stage :: verification_stage
  vr_distanceMeters :: "int option"

text \<open>The transaction: the attempt is recorded first, matched or not, and only a matched departure moves
  the order.\<close>

definition record_attempt :: "order \<Rightarrow> transition_actor \<Rightarrow> vehicle_verification \<Rightarrow> order service" where
  "record_attempt order actor attempt =
     transaction
       (bnd (update_order (o_id order) (\<lambda>_. True) (push_verification attempt)) (\<lambda>_.
        if \<not> vv_matched attempt then ret order
        else if vv_stage attempt = DEPARTURE_STAGE
        then transition (o_id order) ASSIGNED_TO_DRIVER LOADING actor no_options
        else bnd (find_order (o_id order)) (demand NotFound)))"

text \<open>Everything that is read and decided before the transaction: the order, the attempt to record, and whether the
  truck and the place are the right ones.\<close>

definition judge_attempt ::
  "(coords \<Rightarrow> coords \<Rightarrow> rat) \<Rightarrow> oid \<Rightarrow> transition_actor \<Rightarrow> string \<Rightarrow> verification_method \<Rightarrow> coords option \<Rightarrow>
     (order \<times> vehicle_verification \<times> bool \<times> bool) service" where
  "judge_attempt metres orderId actor credential method reportedLocation =
     bnd (find_order orderId) (\<lambda>found.
     bnd (demand NotFound found) (\<lambda>order.
     bnd (guard (o_driverId order = Some (ta_actorId actor)) NotFound) (\<lambda>_.
     bnd (demand (Conflict None) (resolveOutstandingStage order)) (\<lambda>stage.
     bnd (resolveCredential credential method) (\<lambda>presentedTruck.
     bnd (find_one w_users u_id user_scoping (ta_actorId actor)) (\<lambda>driver.
     bnd (measureAgainstWarehouse metres order stage reportedLocation) (\<lambda>distanceMeters.
     bnd (asks (\<lambda>s. cfg_geofenceRadiusMeters (w_config s))) (\<lambda>radiusMeters.
     bnd (asks w_now) (\<lambda>now.
     (let truckMatched = (presentedTruck \<noteq> None \<and> map_option trk_id presentedTruck = o_truckId order);
          withinGeofence = (case distanceMeters of None \<Rightarrow> True | Some m \<Rightarrow> m \<le> radiusMeters)
      in ret (order,
          \<lparr>vv_stage = stage, vv_method = method, vv_matched = (truckMatched \<and> withinGeofence),
            vv_presentedTruckId = map_option trk_id presentedTruck, vv_at = now,
            vv_driverLocation = (case reportedLocation of Some p \<Rightarrow> Some p
              | None \<Rightarrow> (case driver of None \<Rightarrow> None | Some u \<Rightarrow> u_location u)),
            vv_distanceMeters = distanceMeters, vv_actorId = ta_actorId actor\<rparr>,
          truckMatched, withinGeofence)))))))))))"

definition verifyVehicle ::
  "(coords \<Rightarrow> coords \<Rightarrow> rat) \<Rightarrow> oid \<Rightarrow> transition_actor \<Rightarrow> string \<Rightarrow> verification_method \<Rightarrow> coords option \<Rightarrow>
     verify_vehicle_result service" where
  "verifyVehicle metres orderId actor credential method reportedLocation =
     bnd (judge_attempt metres orderId actor credential method reportedLocation)
       (\<lambda>(order, attempt, truckMatched, withinGeofence).
     bnd (record_attempt order actor attempt) (\<lambda>updated.
     bnd (guard truckMatched (Forbidden (Some VEHICLE_MISMATCH))) (\<lambda>_.
     bnd (guard withinGeofence (Forbidden (Some NOT_AT_WAREHOUSE))) (\<lambda>_.
     ret \<lparr>vr_order = updated, vr_stage = vv_stage attempt, vr_distanceMeters = vv_distanceMeters attempt\<rparr>))))"

section \<open>The contract of a unique index\<close>

definition index_ok :: "('d \<Rightarrow> oid) \<Rightarrow> ('d \<Rightarrow> 'd \<Rightarrow> bool) \<Rightarrow> 'd list \<Rightarrow> bool" where
  "index_ok key clash ds \<longleftrightarrow> distinct (map key ds) \<and>
     (\<forall>x \<in> set ds. \<forall>y \<in> set ds. key x \<noteq> key y \<longrightarrow> \<not> clash x y)"

locale unique_index = collection coll put key
  for coll :: "world \<Rightarrow> 'd list" and put :: "('d list \<Rightarrow> 'd list) \<Rightarrow> world \<Rightarrow> world" and key :: "'d \<Rightarrow> oid" +
  fixes clash :: "'d \<Rightarrow> 'd \<Rightarrow> bool"
  assumes clash_sym: "clash x y = clash y x"
begin

lemma indexed_update_ok:
  assumes ok: "index_ok key clash (coll s)" and run: "indexed_update coll put key vis clash i f s = (r, s')"
    and key: "\<And>d. key (f d) = key d"
  shows "s' = s \<or> (s' = put (upd_by key i f) s \<and> index_ok key clash (upd_by key i f (coll s)))"
proof -
  from run consider "s' = s"
    | d v where "vis (w_scope s) = Inr v" "get_by key i (coll s) = Some d" "s' = put (upd_by key i f) s"
        "\<not> list_ex (\<lambda>x. key x \<noteq> i \<and> clash x (f d)) (coll s)"
    by (auto simp: indexed_update_def find_and_update_def cas_def split: sum.splits option.splits if_splits)
  then show ?thesis
  proof cases
    case (2 d v)
    have dist: "distinct (map key (upd_by key i f (coll s)))" using ok key by (simp add: index_ok_def)
    have other: "\<not> clash x (f d)" if "x \<in> set (coll s)" "key x \<noteq> i" for x using 2(4) that by (auto simp: list_ex_iff)
    have only: "d0 = d" if "d0 \<in> set (coll s)" "key d0 = i" for d0
      using get_by_distinct [of key "coll s" d0] ok that 2(2) by (simp add: index_ok_def)
    have "\<not> clash x y" if xy: "x \<in> set (upd_by key i f (coll s))" "y \<in> set (upd_by key i f (coll s))" "key x \<noteq> key y" for x y
    proof -
      have m: "z \<in> set (coll s) \<and> key z \<noteq> i \<or> z = f d \<and> key z = i" if "z \<in> set (upd_by key i f (coll s))" for z
        using set_upd_by [OF that] only key get_by_key [OF 2(2)] by metis
      from m [OF xy(1)] m [OF xy(2)] xy(3) ok other clash_sym show ?thesis by (auto simp: index_ok_def)
    qed
    with dist 2(3) show ?thesis by (simp add: index_ok_def)
  qed simp
qed

lemma indexed_insert_ok:
  assumes ok: "index_ok key clash (coll s)" and run: "indexed_insert coll put clash d s = (r, s')"
    and new: "key d \<notin> key ` set (coll s)"
  shows "s' = s \<or> (s' = put (\<lambda>ds. ds @ [d]) s \<and> index_ok key clash (coll s @ [d]))"
proof -
  from run consider "s' = s" | "s' = put (\<lambda>ds. ds @ [d]) s" "\<not> list_ex (\<lambda>x. clash x d) (coll s)"
    by (auto simp: indexed_insert_def bnd_def asks_def guard_def insert_doc_def modify_def ret_def split: if_splits)
  then show ?thesis using ok new clash_sym by cases (auto simp: index_ok_def list_ex_iff)
qed

end

interpretation truck_index: unique_index w_trucks w_trucks_update trk_id truck_clash
  by (unfold_locales; unfold truck_clash_def; metis)

interpretation tank_index: unique_index w_tanks w_tanks_update tnk_id tank_clash
  by (unfold_locales; unfold tank_clash_def; metis)

section \<open>The registry\<close>

definition registry_ok :: "world \<Rightarrow> bool" where
  "registry_ok s \<longleftrightarrow> index_ok trk_id truck_clash (w_trucks s) \<and> index_ok tnk_id tank_clash (w_tanks s) \<and>
     (\<forall>t \<in> set (w_trucks s). trk_id t < w_next_id s) \<and> (\<forall>t \<in> set (w_tanks s). tnk_id t < w_next_id s)"

lemma keeps_update_truck:
  assumes "\<And>t. trk_id (f t) = trk_id t"
  shows "keeps registry_ok (update_truck i f)"
proof (rule keepsI)
  fix s r s' assume ok: "registry_ok s" and run: "update_truck i f s = (r, s')"
  from truck_index.indexed_update_ok [OF _ run [unfolded update_truck_def] assms] ok
  show "registry_ok s'" by (auto simp: registry_ok_def assms dest!: set_upd_by)
qed

lemma keeps_update_tank:
  assumes "\<And>t. tnk_id (f t) = tnk_id t"
  shows "keeps registry_ok (update_tank i f)"
proof (rule keepsI)
  fix s r s' assume ok: "registry_ok s" and run: "update_tank i f s = (r, s')"
  from tank_index.indexed_update_ok [OF _ run [unfolded update_tank_def] assms] ok
  show "registry_ok s'" by (auto simp: registry_ok_def assms dest!: set_upd_by)
qed

lemma keeps_new_truck:
  assumes "\<And>i. trk_id (f i) = i"
  shows "keeps registry_ok (bnd fresh_id (\<lambda>i. indexed_insert w_trucks w_trucks_update truck_clash (f i)))"
proof (rule keepsI)
  fix s r s' assume ok: "registry_ok s"
    and run: "bnd fresh_id (\<lambda>i. indexed_insert w_trucks w_trucks_update truck_clash (f i)) s = (r, s')"
  from run have "indexed_insert w_trucks w_trucks_update truck_clash (f (w_next_id s)) (s\<lparr>w_next_id := Suc (w_next_id s)\<rparr>) = (r, s')"
    by (simp add: bnd_def fresh_id_def)
  from truck_index.indexed_insert_ok [OF _ this] ok assms show "registry_ok s'" by (fastforce simp: registry_ok_def)
qed

lemma keeps_new_tank:
  assumes "\<And>i. tnk_id (f i) = i"
  shows "keeps registry_ok (bnd fresh_id (\<lambda>i. indexed_insert w_tanks w_tanks_update tank_clash (f i)))"
proof (rule keepsI)
  fix s r s' assume ok: "registry_ok s"
    and run: "bnd fresh_id (\<lambda>i. indexed_insert w_tanks w_tanks_update tank_clash (f i)) s = (r, s')"
  from run have "indexed_insert w_tanks w_tanks_update tank_clash (f (w_next_id s)) (s\<lparr>w_next_id := Suc (w_next_id s)\<rparr>) = (r, s')"
    by (simp add: bnd_def fresh_id_def)
  from tank_index.indexed_insert_ok [OF _ this] ok assms show "registry_ok s'" by (fastforce simp: registry_ok_def)
qed

lemma keeps_on_duplicate: "keeps P m \<Longrightarrow> keeps P (on_duplicate code m)"
  unfolding on_duplicate_def by (intro keeps_try_catch keeps_basic)


section \<open>What is offered and what is accepted\<close>

text \<open>The tanks offered for an order and the tanks the platform accepts for it agree: a tank of the acting company is
  on the offered list exactly when it is free and passes the capacity and grade check of the assignment,
  and the list holds no tank of another company.\<close>

theorem offered_tanks_are_acceptable:
  assumes "forOrderId c (o_quantityLiters d) (o_fuelType d) s = (Inr ts, s')"
    and "rs_role (w_scope s) = Some TRANSPORT_COMPANY_ADMIN" and "rs_companyId (w_scope s) = Some own"
  shows "t \<in> set ts \<longleftrightarrow> t \<in> set (w_tanks s) \<and> tnk_companyId t = own \<and> tank_free t \<and> check_tank d t s = (Inr (), s)"
proof -
  from assms have "ts = sort_key tnk_code (filter (\<lambda>t. tnk_companyId t = own \<and> tnk_companyId t = own \<and> tnk_isActive t \<and>
      tnk_activeOrderId t = None \<and> o_quantityLiters d \<le> tnk_maxCapacityLiters t \<and> o_fuelType d \<in> set (tnk_fuelTypes t)) (w_tanks s))"
    by (auto simp: forOrderId_def tenant_key_def resolveCompanyId_def tenant_scoped_def prog_inv)
  then show ?thesis
    by (auto simp: tank_free_def check_tank_def bnd_def guard_def not_less)
qed

section \<open>Soundness of the verification\<close>

lemma readonly_bnd:
  assumes "\<And>t. keeps ((=) t) m" "bnd m k s = (r, s')"
  shows "(\<exists>e. m s = (Inl e, s) \<and> r = Inl e \<and> s' = s) \<or> (\<exists>a. m s = (Inr a, s) \<and> k a s = (r, s'))"
proof -
  obtain x s1 where m: "m s = (x, s1)" by fastforce
  then have "s1 = s" using keepsD [OF assms(1) m, of s] by simp
  with m assms(2) show ?thesis by (auto simp: bnd_def split: sum.splits)
qed

lemma keeps_credential: "keeps P (resolveCredential c m)"
proof -
  have f: "keeps P (find_truck_by Q)" for Q unfolding find_truck_by_def by (intro keeps_bnd keeps_reads keeps_basic)
  have "keeps P (first_truck cs)" for cs by (induction cs) (auto intro!: keeps_bnd keeps_option f)
  with f show ?thesis unfolding resolveCredential_def by (intro keeps_if)
qed

lemma keeps_measure: "keeps P (measureAgainstWarehouse metres d st p)"
  unfolding measureAgainstWarehouse_def by (intro keeps_if keeps_bnd keeps_basic)

lemma record_attempt_run:
  assumes d: "sees_order s i d" "o_id d = i" and run: "record_attempt d actor a s = (r, s1)"
  shows "(case r of Inl e \<Rightarrow> same_collections s s1
    | Inr y \<Rightarrow>
        (if vv_matched a then get_by o_id i (w_orders s1) = Some y \<and> o_verifications y = o_verifications d @ [a] \<and>
           (if vv_stage a = DEPARTURE_STAGE then o_status y = LOADING else o_status y = o_status d)
         else s1 = w_orders_update (upd_by o_id i (push_verification a)) s))"
proof (cases r)
  case (Inl e)
  with run transaction_errD show ?thesis by (auto simp: record_attempt_def)
next
  case (Inr y)
  have pv: "same_parties (push_verification a)" by (simp add: same_parties_def push_verification_def)
  let ?s2 = "w_orders_update (upd_by o_id i (push_verification a)) s"
  let ?k = "if \<not> vv_matched a then ret d
        else if vv_stage a = DEPARTURE_STAGE then transition i ASSIGNED_TO_DRIVER LOADING actor no_options
        else bnd (find_order i) (demand NotFound)"
  have "bnd (update_order i (\<lambda>_. True) (push_verification a)) (\<lambda>_. ?k) s = (Inr y, s1)"
    by (rule run [unfolded Inr record_attempt_def d(2) transaction_inv])
  then have k: "?k ?s2 = (Inr y, s1)"
    using update_order_run [OF d(1), of "\<lambda>_. True"] by (auto simp: bnd_def)
  have sees: "sees_order ?s2 i (push_verification a d)" by (rule sees_order_update [OF d(1) pv]) simp_all
  show ?thesis
  proof (cases "vv_matched a")
    case False
    with k Inr show ?thesis by (simp add: ret_inv)
  next
    case True
    show ?thesis
    proof (cases "vv_stage a = DEPARTURE_STAGE")
      case True
      with k \<open>vv_matched a\<close> have t: "transition i ASSIGNED_TO_DRIVER LOADING actor no_options ?s2 = (Inr y, s1)" by simp
      then obtain d0 es where d0: "get_by o_id i (w_orders ?s2) = Some d0"
        and y: "y = apply_transition no_options (history_entry ASSIGNED_TO_DRIVER LOADING actor no_options (w_now ?s2)) d0"
        and s1: "s1 = (w_orders_update (upd_by o_id i (apply_transition no_options (history_entry ASSIGNED_TO_DRIVER LOADING actor no_options (w_now ?s2)))) ?s2)
          \<lparr>w_emits := w_emits ?s2 @ es\<rparr>" by (rule transition_okD)
      have "d0 = push_verification a d" using d0 sees by (auto simp: sees_order_def)
      with True d0 Inr \<open>vv_matched a\<close> show ?thesis
        by (simp add: s1 y get_by_upd_by [of o_id] apply_transition_fields)
          (simp add: apply_transition_def history_entry_def no_options_def push_verification_def)
    next
      case False
      with k \<open>vv_matched a\<close> have "bnd (find_order i) (demand NotFound) ?s2 = (Inr y, s1)" by simp
      with find_order_run [OF sees] have "y = push_verification a d" "s1 = ?s2" by (auto simp: bnd_def demand_def)
      with False sees Inr \<open>vv_matched a\<close> show ?thesis by (auto simp: sees_order_def push_verification_def)
    qed
  qed
qed

text \<open>What a verification has established when it gets as far as recording an attempt.\<close>

definition judged :: "(coords \<Rightarrow> coords \<Rightarrow> rat) \<Rightarrow> world \<Rightarrow> oid \<Rightarrow> transition_actor \<Rightarrow> string \<Rightarrow> verification_method \<Rightarrow>
     coords option \<Rightarrow> order \<Rightarrow> vehicle_verification \<Rightarrow> bool" where
  "judged metres s i actor cred meth loc d a \<longleftrightarrow>
     sees_order s i d \<and> o_driverId d = Some (ta_actorId actor) \<and> vv_actorId a = ta_actorId actor \<and>
     resolveOutstandingStage d = Some (vv_stage a) \<and>
     (vv_matched a \<longrightarrow>
        (\<exists>t. resolveCredential cred meth s = (Inr (Some t), s) \<and> o_truckId d = Some (trk_id t)) \<and>
        (vv_stage a = LOADING_STAGE \<longrightarrow>
           (\<exists>w p. o_warehouseSummary d = Some w \<and> loc = Some p \<and>
              math_round (metres (ws_location w) p) \<le> cfg_geofenceRadiusMeters (w_config s))))"

lemma measure_ok:
  "measureAgainstWarehouse metres d st loc s = (Inr m, s') \<longleftrightarrow> s' = s \<and>
     (if st = LOADING_STAGE then \<exists>w p. o_warehouseSummary d = Some w \<and> loc = Some p \<and> m = Some (math_round (metres (ws_location w) p))
      else m = None)"
  by (cases st) (auto simp: measureAgainstWarehouse_def bnd_def demand_def ret_def split: option.splits)

lemma credential_state: "resolveCredential cred meth s = (x, s') \<Longrightarrow> s' = s"
  using keepsD [OF keeps_credential, of cred meth s x s' "(=) s"] by simp

lemma judge_okD:
  assumes "judge_attempt metres i actor cred meth loc s = (Inr (d, a, tm, wg), s')"
  shows "judged metres s i actor cred meth loc d a \<and> vv_matched a = (tm \<and> wg) \<and> s' = s"
proof -
  from assms obtain pt dr m where d: "sees_order s i d" and f: "o_driverId d = Some (ta_actorId actor)"
    and st: "resolveOutstandingStage d = Some (vv_stage a)" and pt: "resolveCredential cred meth s = (Inr pt, s)"
    and m: "measureAgainstWarehouse metres d (vv_stage a) loc s = (Inr m, s)" and s': "s' = s"
    and tm: "tm = (pt \<noteq> None \<and> map_option trk_id pt = o_truckId d)"
    and wg: "wg = (case m of None \<Rightarrow> True | Some m \<Rightarrow> m \<le> cfg_geofenceRadiusMeters (w_config s))"
    and a: "vv_matched a = (tm \<and> wg)" "vv_actorId a = ta_actorId actor"
    unfolding judge_attempt_def Let_def
    by (elim bndE) (auto simp: demand_inv guard_inv asks_inv ret_inv find_order_inv measure_ok
        dest!: credential_state find_one_state)
  from tm pt have "tm \<Longrightarrow> \<exists>t. resolveCredential cred meth s = (Inr (Some t), s) \<and> o_truckId d = Some (trk_id t)" by auto
  moreover from wg m have "wg \<Longrightarrow> vv_stage a = LOADING_STAGE \<Longrightarrow> \<exists>w p. o_warehouseSummary d = Some w \<and> loc = Some p \<and>
      math_round (metres (ws_location w) p) \<le> cfg_geofenceRadiusMeters (w_config s)" by (auto simp: measure_ok)
  ultimately show ?thesis using d f st a s' by (auto simp: judged_def)
qed

lemma keeps_judge: "keeps P (judge_attempt metres i actor cred meth loc)"
  unfolding judge_attempt_def Let_def
  by (intro keeps_bnd keeps_find_order keeps_basic keeps_credential keeps_reads keeps_measure)


section \<open>Witnesses\<close>

definition carded_world :: world where
  "carded_world = fleet_world\<lparr>w_trucks := [(mark_truck 10 blank_truck)\<lparr>trk_nfcCardUid := Some ''1A2B3C4D''\<rparr>]\<rparr>"

definition driver_actor :: transition_actor where
  "driver_actor = \<lparr>ta_actorId = 7, ta_actorRole = DRIVER\<rparr>"


theorem offered_tanks_are_acceptable_witness:
  "\<exists>ts s'. forOrderId 2 1000 DIESEL (empty_world\<lparr>w_tanks := [blank_tank], w_scope := \<lparr>rs_userId = Some 8,
      rs_role = Some TRANSPORT_COMPANY_ADMIN, rs_companyId = Some 2, rs_parentFuelCompanyId = Some 1\<rparr>\<rparr>) = (Inr ts, s') \<and>
      blank_tank \<in> set ts"
proof -
  let ?s = "empty_world\<lparr>w_tanks := [blank_tank], w_scope := \<lparr>rs_userId = Some 8,
      rs_role = Some TRANSPORT_COMPANY_ADMIN, rs_companyId = Some 2, rs_parentFuelCompanyId = Some 1\<rparr>\<rparr>"
  have "\<not> isl (fst (forOrderId 2 (o_quantityLiters blank_order) (o_fuelType blank_order) ?s))" by code_simp
  then obtain ts s' where run: "forOrderId 2 (o_quantityLiters blank_order) (o_fuelType blank_order) ?s = (Inr ts, s')"
    by (blast dest: run_succeeds)
  have "blank_tank \<in> set ts"
    using offered_tanks_are_acceptable [OF run, of 2 blank_tank]
    by (simp add: tank_free_def check_tank_def bnd_def guard_def sample_defs)
  with run show ?thesis by (auto simp: blank_order_def)
qed

end
