(* ===== verification/Positional.thy ===== *)
theory Positional
  imports Prelude
begin

text \<open>
  The positional operator of MongoDB: \<open>$set: {'xs.$.f': v}\<close> changes the first element of the array
  that the filter selects.
\<close>

primrec amend_first :: "('a \<Rightarrow> bool) \<Rightarrow> ('a \<Rightarrow> 'a) \<Rightarrow> 'a list \<Rightarrow> 'a list" where
  "amend_first P f [] = []"
| "amend_first P f (x # xs) = (if P x then f x # xs else x # amend_first P f xs)"

lemma amend_first_keys: "(\<And>x. key (f x) = key x) \<Longrightarrow> map key (amend_first P f xs) = map key xs"
  by (induction xs) auto

lemma amend_first_set: "y \<in> set (amend_first P f xs) \<Longrightarrow> y \<in> set xs \<or> (\<exists>x \<in> set xs. P x \<and> y = f x)"
  by (induction xs) (auto split: if_splits)

lemma amend_first_count:
  "(\<And>x. P x \<Longrightarrow> Q (f x) \<Longrightarrow> Q x) \<Longrightarrow> length (filter Q (amend_first P f xs)) \<le> length (filter Q xs)"
  by (induction xs) auto

lemma amend_first_only:
  assumes "length (filter Q xs) \<le> 1" "find Q xs = Some e" "distinct (map key xs)" "\<not> Q (f e)"
  shows "filter Q (amend_first (\<lambda>x. key x = key e) f xs) = []"
  using assms
proof (induction xs)
  case (Cons a xs)
  show ?case
  proof (cases "Q a")
    case False
    with Cons.prems have "key a \<noteq> key e" by (auto simp: find_Some_iff)
    with Cons False show ?thesis by simp
  qed (use Cons in simp)
qed simp

end
