(* ===== verification/Stop_Detection.thy ===== *)
theory Stop_Detection
  imports Routing Positional
begin

text \<open>
  Stops on the road: \<open>modules/stop-detection/stop-detection.service.ts\<close> and
  \<open>modules/stop-detection/queues/stop-escalation.processor.ts\<close>.

  A sweep finds drivers who have not moved and raises a stop on their delivery; the driver answers it, or
  announces one, or reports a blocked road; an administrator marks it handled; a stop nobody answered is
  escalated once.  The sweep runs in the background, without a request scope; the Redis lease that lets one
  replica run it is not modelled, and the proofs do not need it.
\<close>

section \<open>Stop events of an order\<close>

definition open_stop :: "stop_event \<Rightarrow> bool" where
  "open_stop e \<longleftrightarrow> st_resolvedAt e = None"

definition unblockedStopFilter :: "instant \<Rightarrow> stop_event \<Rightarrow> bool" where
  "unblockedStopFilter now e \<longleftrightarrow>
     st_resolvedAt e = None \<or> (case st_suppressedUntil e of None \<Rightarrow> False | Some t \<Rightarrow> now < t)"

definition clear_of_stops :: "instant \<Rightarrow> order \<Rightarrow> bool" where
  "clear_of_stops now d \<longleftrightarrow> \<not> list_ex (unblockedStopFilter now) (o_stopEvents d)"

definition push_stop :: "stop_event \<Rightarrow> order \<Rightarrow> order" where
  "push_stop e d = d\<lparr>o_stopEvents := o_stopEvents d @ [e]\<rparr>"

definition amend_stop :: "(stop_event \<Rightarrow> bool) \<Rightarrow> (stop_event \<Rightarrow> stop_event) \<Rightarrow> order \<Rightarrow> order" where
  "amend_stop P f d = d\<lparr>o_stopEvents := amend_first P f (o_stopEvents d)\<rparr>"

definition blank_stop :: "oid \<Rightarrow> stop_origin \<Rightarrow> instant \<Rightarrow> stop_event" where
  "blank_stop i origin now = \<lparr>st_id = i, st_origin = origin, st_detectedAt = now, st_location = None,
     st_reason = None, st_reasonText = None, st_reasonGivenAt = None, st_expectedDurationMinutes = None,
     st_suppressedUntil = None, st_escalatedAt = None, st_resolvedAt = None, st_resolvedBy = None\<rparr>"

section \<open>The sweep\<close>

definition raiseStopFor :: "user \<Rightarrow> oid \<Rightarrow> unit service" where
  "raiseStopFor driver activeOrderId =
     bnd fresh_id (\<lambda>stopId.
     bnd (asks w_now) (\<lambda>now.
     bnd (update_order activeOrderId (\<lambda>d. o_status d = IN_TRANSIT \<and> clear_of_stops now d)
            (push_stop ((blank_stop stopId DETECTED now)\<lparr>st_location := u_location driver\<rparr>))) (\<lambda>result.
     case result of
       None \<Rightarrow> ret ()
     | Some _ \<Rightarrow>
         bnd (find_order activeOrderId) (\<lambda>found.
         case found of
           None \<Rightarrow> ret ()
         | Some order \<Rightarrow>
             bnd (notify (o_fuelCompanyId order) (u_id driver) DRIVER_STOP_DETECTED (Some (o_id order))) (\<lambda>_.
             bnd (asks (\<lambda>s. cfg_stopResponseWindowMinutes (w_config s))) (\<lambda>responseWindow.
             scheduleStopEscalation stopId (o_id order) responseWindow))))))"

definition stalled :: "instant \<Rightarrow> user \<Rightarrow> bool" where
  "stalled cutoff u \<longleftrightarrow> u_role u = DRIVER \<and> u_activeOrderId u \<noteq> None \<and>
     (case u_lastMovedAt u of None \<Rightarrow> False | Some t \<Rightarrow> t < cutoff)"

definition detectStalledDeliveries :: "unit service" where
  "detectStalledDeliveries =
     bnd (asks (\<lambda>s. w_now s - minutes (cfg_stopWindowMinutes (w_config s)))) (\<lambda>cutoff.
     bnd (find_all w_users user_scoping (stalled cutoff)) (\<lambda>stalledDrivers.
     for_each stalledDrivers (\<lambda>driver.
       case u_activeOrderId driver of None \<Rightarrow> ret () | Some i \<Rightarrow> raiseStopFor driver i)))"

section \<open>What the driver and the administrator do\<close>

definition requireOrder :: "oid \<Rightarrow> order service" where
  "requireOrder orderId = bnd (find_order orderId) (demand NotFound)"

definition explainDeclineRefusal :: "oid \<Rightarrow> oid \<Rightarrow> unit service" where
  "explainDeclineRefusal orderId driverId =
     bnd (find_order orderId) (\<lambda>found.
     bnd (demand NotFound found) (\<lambda>order.
     bnd (guard (o_driverId order = Some driverId) NotFound) (\<lambda>_.
     bnd (guard (o_status order = IN_TRANSIT) (Conflict (Some STOP_NOT_IN_TRANSIT))) (\<lambda>_.
     throw (Conflict (Some STOP_ALREADY_OPEN))))))"

definition explainReasonRefusal :: "oid \<Rightarrow> oid \<Rightarrow> oid \<Rightarrow> unit service" where
  "explainReasonRefusal orderId driverId stopId =
     bnd (find_order orderId) (\<lambda>found.
     bnd (demand NotFound found) (\<lambda>order.
     bnd (guard (o_driverId order = Some driverId) NotFound) (\<lambda>_.
     bnd (guard (list_ex (\<lambda>e. st_id e = stopId) (o_stopEvents order)) NotFound) (\<lambda>_.
     throw (Conflict (Some STOP_ALREADY_ANSWERED))))))"

record stop_input =
  si_reason :: stop_reason
  si_reasonText :: "string option"

text \<open>\<open>...(input.reasonText ? {...} : {})\<close>: an empty text is not stored.\<close>

definition given_text :: "stop_input \<Rightarrow> string option" where
  "given_text input = (if si_reasonText input = Some '''' then None else si_reasonText input)"

definition drives_clear :: "oid \<Rightarrow> instant \<Rightarrow> order \<Rightarrow> bool" where
  "drives_clear driverId now d \<longleftrightarrow> o_driverId d = Some driverId \<and> o_status d = IN_TRANSIT \<and> clear_of_stops now d"

definition declareStop :: "oid \<Rightarrow> oid \<Rightarrow> stop_input \<Rightarrow> int \<Rightarrow> order service" where
  "declareStop orderId driverId input expectedDurationMinutes =
     bnd (asks w_now) (\<lambda>now.
     bnd fresh_id (\<lambda>stopId.
     bnd (update_order orderId (drives_clear driverId now)
            (push_stop ((blank_stop stopId DECLARED now)\<lparr>st_reason := Some (si_reason input),
               st_reasonText := given_text input, st_reasonGivenAt := Some now,
               st_expectedDurationMinutes := Some expectedDurationMinutes,
               st_suppressedUntil := Some (now + minutes expectedDurationMinutes),
               st_resolvedAt := Some now\<rparr>))) (\<lambda>result.
     bnd (if result = None then explainDeclineRefusal orderId driverId else ret ()) (\<lambda>_.
     requireOrder orderId))))"

definition transporter_admins :: "order \<Rightarrow> user list service" where
  "transporter_admins order =
     bnd (asks w_scope) (\<lambda>ctx.
     bnd (of_sum (resolveCompanyId ctx)) (\<lambda>own.
     find_all w_users user_scoping (\<lambda>u.
       u_companyId u = (case own of Some c \<Rightarrow> Some c | None \<Rightarrow> o_transportCompanyId order) \<and>
       u_role u = TRANSPORT_COMPANY_ADMIN \<and> u_isActive u)))"

definition reportBlocked :: "oid \<Rightarrow> oid \<Rightarrow> stop_input \<Rightarrow> order service" where
  "reportBlocked orderId driverId input =
     bnd (asks w_now) (\<lambda>now.
     bnd fresh_id (\<lambda>stopId.
     bnd (find_one w_users u_id user_scoping driverId) (\<lambda>driver.
     bnd (update_order orderId (drives_clear driverId now)
            (push_stop ((blank_stop stopId BLOCKED now)\<lparr>
               st_location := (case driver of None \<Rightarrow> None | Some u \<Rightarrow> u_location u),
               st_reason := Some (si_reason input), st_reasonText := given_text input,
               st_reasonGivenAt := Some now, st_escalatedAt := Some now\<rparr>))) (\<lambda>result.
     bnd (if result = None then explainDeclineRefusal orderId driverId else ret ()) (\<lambda>_.
     bnd (requireOrder orderId) (\<lambda>order.
     bnd (transporter_admins order) (\<lambda>admins.
     bnd (notify_each (o_fuelCompanyId order) admins ORDER_DRIVER_BLOCKED (o_id order)) (\<lambda>_.
     ret order))))))))"

definition unanswered :: "oid \<Rightarrow> stop_event \<Rightarrow> bool" where
  "unanswered stopId e \<longleftrightarrow> st_id e = stopId \<and> st_reasonGivenAt e = None"

definition answer_stop :: "stop_input \<Rightarrow> instant \<Rightarrow> stop_event \<Rightarrow> stop_event" where
  "answer_stop input now e = e\<lparr>st_reason := Some (si_reason input),
     st_reasonText := (case given_text input of None \<Rightarrow> st_reasonText e | Some t \<Rightarrow> Some t),
     st_reasonGivenAt := Some now, st_resolvedAt := Some now\<rparr>"

definition submitReason :: "oid \<Rightarrow> oid \<Rightarrow> oid \<Rightarrow> stop_input \<Rightarrow> order service" where
  "submitReason orderId driverId stopId input =
     bnd (asks w_now) (\<lambda>now.
     bnd (update_order orderId (\<lambda>d. o_driverId d = Some driverId \<and> list_ex (unanswered stopId) (o_stopEvents d))
            (amend_stop (unanswered stopId) (answer_stop input now))) (\<lambda>result.
     bnd (if result = None then explainReasonRefusal orderId driverId stopId else ret ()) (\<lambda>_.
     bnd (cancelStopEscalation stopId) (\<lambda>_.
     requireOrder orderId))))"

definition still_open :: "oid \<Rightarrow> stop_event \<Rightarrow> bool" where
  "still_open stopId e \<longleftrightarrow> st_id e = stopId \<and> st_resolvedAt e = None"

definition resolveByAdmin :: "oid \<Rightarrow> oid \<Rightarrow> oid \<Rightarrow> order service" where
  "resolveByAdmin orderId stopId adminUserId =
     bnd (asks w_now) (\<lambda>now.
     bnd (update_order orderId (\<lambda>d. list_ex (still_open stopId) (o_stopEvents d))
            (amend_stop (still_open stopId) (\<lambda>e. e\<lparr>st_resolvedAt := Some now, st_resolvedBy := Some adminUserId\<rparr>))) (\<lambda>result.
     bnd (if result = None
          then bnd (find_order orderId) (\<lambda>found.
               bnd (guard (case found of None \<Rightarrow> False
                      | Some order \<Rightarrow> list_ex (\<lambda>e. st_id e = stopId) (o_stopEvents order)) NotFound) (\<lambda>_.
               throw (Conflict (Some STOP_ALREADY_RESOLVED))))
          else ret ()) (\<lambda>_.
     bnd (cancelStopEscalation stopId) (\<lambda>_.
     requireOrder orderId))))"

section \<open>The escalation job\<close>

definition FINAL_STATUSES :: "order_status list" where
  "FINAL_STATUSES = [DELIVERED, CANCELLED, REJECTED]"

definition silent :: "oid \<Rightarrow> stop_event \<Rightarrow> bool" where
  "silent stopId e \<longleftrightarrow> st_id e = stopId \<and> st_escalatedAt e = None \<and> st_reasonGivenAt e = None \<and> st_resolvedAt e = None"

definition escalateStop :: "oid \<Rightarrow> oid \<Rightarrow> unit service" where
  "escalateStop stopId orderId =
     bnd (find_order orderId) (\<lambda>found.
     case found of
       None \<Rightarrow> ret ()
     | Some order \<Rightarrow>
         if o_status order \<in> set FINAL_STATUSES then ret ()
         else if \<not> list_ex (\<lambda>e. st_id e = stopId) (o_stopEvents order) then ret ()
         else bnd (asks w_now) (\<lambda>now.
              bnd (update_order (o_id order) (\<lambda>d. list_ex (silent stopId) (o_stopEvents d))
                     (amend_stop (silent stopId) (\<lambda>e. e\<lparr>st_escalatedAt := Some now\<rparr>))) (\<lambda>claimed.
              if claimed = None then ret ()
              else bnd (transporter_admins order) (\<lambda>admins.
                   notify_each (o_fuelCompanyId order) admins ORDER_STOP_UNRESOLVED (o_id order)))))"


section \<open>The trail of stops stays well formed\<close>

text \<open>Ids below \<open>n\<close> and distinct, at most one open stop, a declared stop resolved and never escalated, an answered
  stop closed unless it reports a blocked road.\<close>

definition stop_ok :: "stop_event \<Rightarrow> bool" where
  "stop_ok e \<longleftrightarrow> (st_origin e = DECLARED \<longrightarrow> \<not> open_stop e \<and> st_escalatedAt e = None) \<and>
     (st_reasonGivenAt e \<noteq> None \<longrightarrow> st_origin e = BLOCKED \<or> \<not> open_stop e) \<and>
     (st_origin e = BLOCKED \<longrightarrow> st_escalatedAt e \<noteq> None \<and> st_reasonGivenAt e \<noteq> None)"

definition trail_ok :: "oid \<Rightarrow> order \<Rightarrow> bool" where
  "trail_ok n d \<longleftrightarrow> distinct (map st_id (o_stopEvents d)) \<and> length (filter open_stop (o_stopEvents d)) \<le> 1 \<and>
     (\<forall>e \<in> set (o_stopEvents d). st_id e < n \<and> stop_ok e)"

definition stops_ok :: "world \<Rightarrow> bool" where
  "stops_ok s \<longleftrightarrow> orders_ok s \<and> (\<forall>d \<in> set (w_orders s). trail_ok (w_next_id s) d)"

lemma stop_patches [simp]: "order_patch (push_stop e)" "order_patch (amend_stop P f)"
  "same_parties (push_stop e)" "same_parties (amend_stop P f)"
  by (simp_all add: order_patch_def same_parties_def push_stop_def amend_stop_def)

lemma amend_trail:
  assumes "trail_ok n d" and "\<And>x. st_id (f x) = st_id x" and "\<And>x. P x \<Longrightarrow> open_stop (f x) \<Longrightarrow> open_stop x"
    and "\<And>x. stop_ok x \<Longrightarrow> P x \<Longrightarrow> stop_ok (f x)"
  shows "trail_ok n (amend_stop P f d)"
  using assms amend_first_keys [of st_id f P "o_stopEvents d"] amend_first_count [of P open_stop f "o_stopEvents d"]
  by (auto simp: trail_ok_def amend_stop_def dest!: amend_first_set)

lemma push_trail:
  assumes "trail_ok n d" "clear_of_stops now d" "st_id e = n" "stop_ok e"
  shows "trail_ok (Suc n) (push_stop e d)"
proof -
  have "filter open_stop (o_stopEvents d) = []"
    using assms(2) by (auto simp: clear_of_stops_def list_ex_iff unblockedStopFilter_def open_stop_def filter_empty_conv)
  then show ?thesis using assms(1,3,4) by (auto simp: trail_ok_def push_stop_def intro: less_SucI)
qed

lemma trail_mono: "trail_ok n d \<Longrightarrow> n \<le> m \<Longrightarrow> trail_ok m d"
  by (auto simp: trail_ok_def)

lemma stops_ok_frame:
  "stops_ok s \<Longrightarrow> w_orders s' = w_orders s \<Longrightarrow> w_next_id s \<le> w_next_id s' \<Longrightarrow> stops_ok s'"
  by (auto simp: stops_ok_def orders_ok_def intro: trail_mono less_le_trans)

lemma update_order_cases:
  assumes "update_order i P f s = (r, s')"
  obtains "s' = s" | d where "get_by o_id i (w_orders s) = Some d" "P d" "s' = w_orders_update (upd_by o_id i f) s"
proof (cases "\<exists>d. r = Inr (Some d)")
  case True
  with assms that(2) show ?thesis by (auto simp: prog_inv sees_order_def)
next
  case False
  then have "s' = s" using assms by (cases r) (auto simp: update_order_def prog_inv not_None_eq [symmetric] simp del: not_None_eq)
  with that(1) show ?thesis by simp
qed

lemma stops_ok_update:
  assumes ok: "orders_ok s" "\<forall>d \<in> set (w_orders s). trail_ok n d" "n \<le> w_next_id s"
    and run: "update_order i P f s = (r, s')" and f: "order_patch f"
    and step: "\<And>d. trail_ok n d \<Longrightarrow> P d \<Longrightarrow> trail_ok (w_next_id s) (f d)"
  shows "stops_ok s'"
  using run
proof (cases rule: update_order_cases)
  case 1
  with ok show ?thesis by (auto simp: stops_ok_def intro: trail_mono)
next
  case (2 d)
  have "orders_ok s'" using keepsD [OF keeps_update_patch [OF f] run ok(1)] .
  moreover have only: "x = d" if "x \<in> set (w_orders s)" "o_id x = i" for x
    using get_by_distinct [of o_id "w_orders s" x] that 2(1) ok(1) by (simp add: orders_ok_def)
  have "trail_ok (w_next_id s) y" if "y \<in> set (w_orders s')" for y
    using that 2 ok(2,3) step only by (auto simp: upd_by_def intro: trail_mono)
  ultimately show ?thesis using 2(3) by (simp add: stops_ok_def)
qed


lemma push_step:
  assumes ok: "stops_ok s" and run: "update_order i P (push_stop e) (s\<lparr>w_next_id := Suc (w_next_id s)\<rparr>) = (r, s')"
    and e: "st_id e = w_next_id s" "stop_ok e" and P: "\<And>d. P d \<Longrightarrow> clear_of_stops now d"
  shows "stops_ok s'"
  using stops_ok_update [of "s\<lparr>w_next_id := Suc (w_next_id s)\<rparr>" "w_next_id s", OF _ _ _ run] ok P
    push_trail [OF _ _ e] by (auto simp: stops_ok_def)

lemma keeps_amend:
  assumes "\<And>x. st_id (f x) = st_id x" "\<And>x. P x \<Longrightarrow> open_stop (f x) \<Longrightarrow> open_stop x"
    "\<And>x. stop_ok x \<Longrightarrow> P x \<Longrightarrow> stop_ok (f x)"
  shows "keeps stops_ok (update_order i Q (amend_stop P f))"
proof (rule keepsI)
  fix s s' and r :: "exn + order option" assume "stops_ok s" "update_order i Q (amend_stop P f) s = (r, s')"
  then show "stops_ok s'"
    using stops_ok_update [of s "w_next_id s" i Q "amend_stop P f" r s'] amend_trail [OF _ assms] by (auto simp: stops_ok_def)
qed

lemma keeps_effects:
  assumes "\<And>s. \<exists>r s'. m s = (r, s') \<and> effects_only s s'"
  shows "keeps stops_ok m"
proof (rule keepsI)
  fix s r s' assume s: "stops_ok s" "m s = (r, s')"
  with assms [of s] have "effects_only s s'" by auto
  with s(1) show "stops_ok s'" by (auto simp: effects_only_def intro: stops_ok_frame)
qed

lemma keeps_stop_notices [simp]: "keeps stops_ok (notify c u t i)" "keeps stops_ok (notify_each c us t j)"
proof -
  show "keeps stops_ok (notify c u t i)" using notify_run [of c u t i] by (intro keeps_effects) blast
  show "keeps stops_ok (notify_each c us t j)" using notify_each_run [of c us t j] by (intro keeps_effects) blast
qed

lemma keeps_stop_tail [simp]:
  "keeps stops_ok (transporter_admins d)" "keeps stops_ok (requireOrder i)" "keeps stops_ok (explainDeclineRefusal i u)"
  "keeps stops_ok (explainReasonRefusal i u k)" "keeps stops_ok (scheduleStopEscalation k i m)" "keeps stops_ok (cancelStopEscalation k)"
  unfolding transporter_admins_def requireOrder_def explainDeclineRefusal_def explainReasonRefusal_def
  by (intro keeps_bnd keeps_basic keeps_find_order keeps_reads keeps_queue; simp add: stops_ok_def)+

text \<open>A run that starts with a fresh id and a push, and then only does things that keep the trail.\<close>

lemma push_then:
  assumes ok: "stops_ok s" and e: "st_id e = w_next_id s" "stop_ok e" and P: "\<And>d. P d \<Longrightarrow> clear_of_stops now d"
    and run: "bnd (update_order i P (push_stop e)) f (s\<lparr>w_next_id := Suc (w_next_id s)\<rparr>) = (r, s')"
    and f: "\<And>x. keeps stops_ok (f x)"
  shows "stops_ok s'"
proof -
  obtain x s1 where u: "update_order i P (push_stop e) (s\<lparr>w_next_id := Suc (w_next_id s)\<rparr>) = (x, s1)" by fastforce
  have "stops_ok s1" by (rule push_step [OF ok u e P])
  with u run f show ?thesis by (cases x) (auto simp: bnd_def dest: keepsD)
qed

lemma keeps_raise: "keeps stops_ok (raiseStopFor driver i)"
proof (rule keepsI)
  fix s r s' assume ok: "stops_ok s" and run: "raiseStopFor driver i s = (r, s')"
  from run have "bnd (update_order i (\<lambda>d. o_status d = IN_TRANSIT \<and> clear_of_stops (w_now s) d)
        (push_stop ((blank_stop (w_next_id s) DETECTED (w_now s))\<lparr>st_location := u_location driver\<rparr>))) (\<lambda>result.
     case result of None \<Rightarrow> ret () | Some _ \<Rightarrow>
         bnd (find_order i) (\<lambda>found. case found of None \<Rightarrow> ret () | Some order \<Rightarrow>
             bnd (notify (o_fuelCompanyId order) (u_id driver) DRIVER_STOP_DETECTED (Some (o_id order))) (\<lambda>_.
             bnd (asks (\<lambda>s. cfg_stopResponseWindowMinutes (w_config s))) (\<lambda>responseWindow.
             scheduleStopEscalation (w_next_id s) (o_id order) responseWindow))))
     (s\<lparr>w_next_id := Suc (w_next_id s)\<rparr>) = (r, s')"
    by (simp add: raiseStopFor_def bnd_def fresh_id_def asks_def)
  then show "stops_ok s'"
    by (rule push_then [OF ok, rotated 3]) (auto simp: blank_stop_def stop_ok_def open_stop_def intro!: keeps_bnd keeps_option)
qed


lemma keeps_sweep: "keeps stops_ok detectStalledDeliveries"
  unfolding detectStalledDeliveries_def by (intro keeps_bnd keeps_basic keeps_reads keeps_for_each keeps_option keeps_raise)

lemma keeps_declare: "keeps stops_ok (declareStop i u input m)"
proof (rule keepsI)
  fix s r s' assume ok: "stops_ok s" and run: "declareStop i u input m s = (r, s')"
  from run have "bnd (update_order i (drives_clear u (w_now s))
            (push_stop ((blank_stop (w_next_id s) DECLARED (w_now s))\<lparr>st_reason := Some (si_reason input),
               st_reasonText := given_text input, st_reasonGivenAt := Some (w_now s),
               st_expectedDurationMinutes := Some m, st_suppressedUntil := Some (w_now s + minutes m),
               st_resolvedAt := Some (w_now s)\<rparr>))) (\<lambda>result.
     bnd (if result = None then explainDeclineRefusal i u else ret ()) (\<lambda>_. requireOrder i))
     (s\<lparr>w_next_id := Suc (w_next_id s)\<rparr>) = (r, s')"
    by (simp add: declareStop_def bnd_def fresh_id_def asks_def)
  then show "stops_ok s'"
    by (rule push_then [OF ok, where now = "w_now s", rotated 3])
      (auto simp: blank_stop_def stop_ok_def open_stop_def drives_clear_def intro!: keeps_bnd keeps_if)
qed

lemma keeps_report: "keeps stops_ok (reportBlocked i u input)"
proof (rule keepsI)
  fix s r s' assume ok: "stops_ok s" and run: "reportBlocked i u input s = (r, s')"
  define loc where "loc driver = (case driver of None \<Rightarrow> None | Some u \<Rightarrow> u_location u)" for driver :: "user option"
  define e where "e driver = (blank_stop (w_next_id s) BLOCKED (w_now s))\<lparr>st_location := loc driver,
      st_reason := Some (si_reason input), st_reasonText := given_text input,
      st_reasonGivenAt := Some (w_now s), st_escalatedAt := Some (w_now s)\<rparr>" for driver
  define k where "k result = bnd (if result = None then explainDeclineRefusal i u else ret ()) (\<lambda>_.
     bnd (requireOrder i) (\<lambda>order. bnd (transporter_admins order) (\<lambda>admins.
     bnd (notify_each (o_fuelCompanyId order) admins ORDER_DRIVER_BLOCKED (o_id order)) (\<lambda>_. ret order))))"
    for result :: "order option"
  let ?s = "s\<lparr>w_next_id := Suc (w_next_id s)\<rparr>"
  have unfold: "reportBlocked i u input s = bnd (find_one w_users u_id user_scoping u) (\<lambda>driver.
      bnd (update_order i (drives_clear u (w_now s)) (push_stop (e driver))) k) ?s"
    by (simp add: reportBlocked_def bnd_def fresh_id_def asks_def e_def loc_def k_def [abs_def])
  have keep: "keeps stops_ok (k x)" for x unfolding k_def by (intro keeps_bnd keeps_if) auto
  have e: "st_id (e d) = w_next_id s" "stop_ok (e d)" for d by (simp_all add: e_def blank_stop_def stop_ok_def open_stop_def)
  obtain x s1 where f: "find_one w_users u_id user_scoping u ?s = (x, s1)" by fastforce
  then have s1: "s1 = ?s" by (auto simp: find_one_def split: sum.splits)
  show "stops_ok s'"
  proof (cases x)
    case (Inl err)
    with f s1 run unfold have "s' = ?s" by (simp add: bnd_def)
    with ok show ?thesis by (auto intro: stops_ok_frame)
  next
    case (Inr driver)
    with f s1 run unfold have "bnd (update_order i (drives_clear u (w_now s)) (push_stop (e driver))) k ?s = (r, s')"
      by (simp add: bnd_def [of "find_one w_users u_id user_scoping u"])
    then show ?thesis by (rule push_then [OF ok e, where now = "w_now s", rotated]) (simp_all add: drives_clear_def keep)
  qed
qed

text \<open>C34: the sweep, a driver's declaration, a report of a blocked road, an answer, an administrator's resolution
  and the escalation job keep every order's trail of stops well formed, whichever way they end: stop ids are
  distinct, at most one stop is open, a declared stop is never open and never escalated, an answered stop is closed
  unless it reports a blocked road, and the order itself stays a legal run of the state machine.\<close>

theorem stop_trail_well_formed:
  "keeps stops_ok detectStalledDeliveries \<and> keeps stops_ok (declareStop i u input m) \<and>
   keeps stops_ok (reportBlocked i u input) \<and> keeps stops_ok (submitReason i u k input) \<and>
   keeps stops_ok (resolveByAdmin i k admin) \<and> keeps stops_ok (escalateStop k i)"
proof (intro conjI keeps_sweep keeps_declare keeps_report)
  show "keeps stops_ok (submitReason i u k input)" unfolding submitReason_def
    by (intro keeps_bnd keeps_basic keeps_if keeps_stop_tail keeps_amend)
      (auto simp: answer_stop_def stop_ok_def open_stop_def unanswered_def)
  show "keeps stops_ok (resolveByAdmin i k admin)" unfolding resolveByAdmin_def
    by (intro keeps_bnd keeps_basic keeps_if keeps_stop_tail keeps_amend keeps_find_order)
      (auto simp: stop_ok_def open_stop_def)
  show "keeps stops_ok (escalateStop k i)" unfolding escalateStop_def
    by (intro keeps_bnd keeps_basic keeps_if keeps_option keeps_stop_tail keeps_stop_notices keeps_amend keeps_find_order)
      (auto simp: stop_ok_def open_stop_def silent_def)
qed


section \<open>Escalation\<close>

definition alerted :: "world \<Rightarrow> order \<Rightarrow> user list" where
  "alerted s d = filter (\<lambda>u. u_companyId u = o_transportCompanyId d \<and> u_role u = TRANSPORT_COMPANY_ADMIN \<and> u_isActive u) (w_users s)"

definition awaits_escalation :: "oid \<Rightarrow> order \<Rightarrow> bool" where
  "awaits_escalation k d \<longleftrightarrow> o_status d \<notin> set FINAL_STATUSES \<and> list_ex (silent k) (o_stopEvents d)"

lemma notify_each_emits:
  assumes "notify_each c us t i s = (Inr (), s')"
  shows "w_emits s' = w_emits s @ map (\<lambda>u. NotificationNew (u_id u) t (Some i)) us \<and> w_orders s' = w_orders s"
  using assms
proof (induction us arbitrary: s)
  case (Cons u us)
  from Cons.prems obtain s1 where 1: "notify c (u_id u) t (Some i) s = (Inr (), s1)" and 2: "notify_each c us t i s1 = (Inr (), s')"
    by (auto simp: notify_each_def prog_inv)
  have "w_emits s1 = w_emits s @ [NotificationNew (u_id u) t (Some i)] \<and> w_orders s1 = w_orders s"
    using 1 by (auto simp: notify_def tenant_key_def prog_inv)
  with Cons.IH [OF 2] show ?case by simp
qed (simp add: notify_each_def ret_def)

lemma transporter_admins_run: "w_scope s = anonymous \<Longrightarrow> transporter_admins d s = (Inr (alerted s d), s)"
  by (simp add: transporter_admins_def bnd_def asks_def of_sum_def find_all_def alerted_def)

lemma anonymous_sees: "w_scope s = anonymous \<Longrightarrow> sees_order s i d \<longleftrightarrow> get_by o_id i (w_orders s) = Some d"
  by (simp add: sees_order_def)

lemma escalate_quiet:
  assumes "w_scope s = anonymous" "\<And>d. get_by o_id i (w_orders s) = Some d \<Longrightarrow> \<not> awaits_escalation k d"
  shows "escalateStop k i s = (Inr (), s)"
proof (cases "get_by o_id i (w_orders s)")
  case None
  with assms(1) show ?thesis by (simp add: escalateStop_def bnd_def find_order_def find_one_def ret_def)
next
  case (Some d)
  have "update_order i (\<lambda>d. list_ex (silent k) (o_stopEvents d)) f s = (Inr None, s)" if "o_status d \<notin> set FINAL_STATUSES" for f
    using Some assms that by (simp add: update_order_def find_and_update_def cas_def awaits_escalation_def)
  with Some assms(1) get_by_key [OF Some] show ?thesis
    by (simp add: escalateStop_def bnd_def find_order_run anonymous_sees ret_def asks_def)
qed

lemma escalate_alerts:
  assumes "w_scope s = anonymous" "get_by o_id i (w_orders s) = Some d" "awaits_escalation k d"
  shows "\<exists>s'. escalateStop k i s = (Inr (), s') \<and>
     w_emits s' = w_emits s @ map (\<lambda>u. NotificationNew (u_id u) ORDER_STOP_UNRESOLVED (Some i)) (alerted s d) \<and>
     w_orders s' = upd_by o_id i (amend_stop (silent k) (\<lambda>e. e\<lparr>st_escalatedAt := Some (w_now s)\<rparr>)) (w_orders s) \<and>
     w_scope s' = w_scope s"
proof -
  define f where "f = amend_stop (silent k) (\<lambda>e. e\<lparr>st_escalatedAt := Some (w_now s)\<rparr>)"
  define s1 where "s1 = w_orders_update (upd_by o_id i f) s"
  have sees: "sees_order s i d" using assms(1,2) by (simp add: anonymous_sees)
  have upd: "update_order i (\<lambda>d. list_ex (silent k) (o_stopEvents d)) f s = (Inr (Some (f d)), s1)"
    using update_order_run [OF sees] assms(3) by (simp add: awaits_escalation_def s1_def)
  have adm: "transporter_admins d s1 = (Inr (alerted s d), s1)"
    using transporter_admins_run [of s1 d] assms(1) by (simp add: s1_def alerted_def)
  obtain s2 where s2: "notify_each (o_fuelCompanyId d) (alerted s d) ORDER_STOP_UNRESOLVED i s1 = (Inr (), s2)" "effects_only s1 s2"
    using notify_each_run by blast
  have "list_ex (\<lambda>e. st_id e = k) (o_stopEvents d)" using assms(3) by (auto simp: awaits_escalation_def list_ex_iff silent_def)
  with upd adm s2(1) assms(3) get_by_key [OF assms(2)] find_order_run [OF sees]
  have "escalateStop k i s = (Inr (), s2)"
    by (simp add: escalateStop_def bnd_def asks_def f_def awaits_escalation_def)
  moreover have "w_scope s2 = w_scope s" using s2(2) by (simp add: effects_only_def s1_def)
  ultimately show ?thesis using notify_each_emits [OF s2(1)] by (simp add: s1_def f_def)
qed

lemma stamped_not_silent:
  assumes "distinct (map st_id es)"
  shows "\<not> list_ex (silent k) (amend_first (silent k) (\<lambda>e. e\<lparr>st_escalatedAt := Some t\<rparr>) es)"
  using assms by (induction es) (auto simp: silent_def list_ex_iff image_iff)

text \<open>The escalation job never fails, and its alerts are exact and happen once. It alerts every active
  administrator of the transporter of the order if the stop was neither answered, nor resolved, nor escalated and the
  delivery is not over, and nobody otherwise; delivered again at any later time, the job changes no order and alerts
  nobody.\<close>

theorem stop_escalates_once:
  assumes "stops_ok s" and "w_scope s = anonymous"
  shows "\<exists>s'. escalateStop k i s = (Inr (), s') \<and>
     w_emits s' = w_emits s @ (case get_by o_id i (w_orders s) of None \<Rightarrow> []
       | Some d \<Rightarrow> if awaits_escalation k d
           then map (\<lambda>u. NotificationNew (u_id u) ORDER_STOP_UNRESOLVED (Some i)) (alerted s d) else []) \<and>
     (\<forall>t. escalateStop k i (s'\<lparr>w_now := t\<rparr>) = (Inr (), s'\<lparr>w_now := t\<rparr>))"
proof (cases "\<exists>d. get_by o_id i (w_orders s) = Some d \<and> awaits_escalation k d")
  case False
  then have quiet: "escalateStop k i (s\<lparr>w_now := t\<rparr>) = (Inr (), s\<lparr>w_now := t\<rparr>)" for t
    using assms(2) by (intro escalate_quiet) auto
  from quiet [of "w_now s"] have "escalateStop k i s = (Inr (), s)" by simp
  with False quiet show ?thesis by (auto split: option.splits)
next
  case True
  then obtain d where d: "get_by o_id i (w_orders s) = Some d" "awaits_escalation k d" by blast
  define f where "f = amend_stop (silent k) (\<lambda>e. e\<lparr>st_escalatedAt := Some (w_now s)\<rparr>)"
  from escalate_alerts [OF assms(2) d] obtain s' where s': "escalateStop k i s = (Inr (), s')"
    "w_emits s' = w_emits s @ map (\<lambda>u. NotificationNew (u_id u) ORDER_STOP_UNRESOLVED (Some i)) (alerted s d)"
    "w_orders s' = upd_by o_id i f (w_orders s)" "w_scope s' = w_scope s" by (auto simp: f_def)
  have "distinct (map st_id (o_stopEvents d))" using assms(1) get_by_mem [OF d(1)] by (auto simp: stops_ok_def trail_ok_def)
  then have "\<not> awaits_escalation k (f d)" using stamped_not_silent by (simp add: f_def amend_stop_def awaits_escalation_def)
  moreover have "get_by o_id i (w_orders s') = Some (f d)"
    using d(1) s'(3) by (simp add: get_by_upd_by f_def amend_stop_def)
  ultimately have "escalateStop k i (s'\<lparr>w_now := t\<rparr>) = (Inr (), s'\<lparr>w_now := t\<rparr>)" for t
    using s'(4) assms(2) by (intro escalate_quiet) auto
  with s'(1,2) d show ?thesis by auto
qed


section \<open>The sweep notices\<close>

definition raisable :: "world \<Rightarrow> oid \<Rightarrow> order \<Rightarrow> bool" where
  "raisable s i d \<longleftrightarrow> get_by o_id i (w_orders s) = Some d \<and> o_status d = IN_TRANSIT \<and> clear_of_stops (w_now s) d"

definition raised_stop :: "user \<Rightarrow> world \<Rightarrow> stop_event" where
  "raised_stop u s = (blank_stop (w_next_id s) DETECTED (w_now s))\<lparr>st_location := u_location u\<rparr>"

definition same_clock :: "world \<Rightarrow> world \<Rightarrow> bool" where
  "same_clock s s' \<longleftrightarrow> w_scope s' = w_scope s \<and> w_now s' = w_now s \<and> w_config s' = w_config s \<and> w_next_id s < w_next_id s'"

lemma raise_skips:
  assumes "w_scope s = anonymous" "\<And>d. \<not> raisable s j d"
  shows "raiseStopFor u j s = (Inr (), s\<lparr>w_next_id := Suc (w_next_id s)\<rparr>)"
proof -
  have "update_order j (\<lambda>d. o_status d = IN_TRANSIT \<and> clear_of_stops (w_now s) d) f (s\<lparr>w_next_id := Suc (w_next_id s)\<rparr>) =
      (Inr None, s\<lparr>w_next_id := Suc (w_next_id s)\<rparr>)" for f
    using assms by (auto simp: update_order_def find_and_update_def cas_def raisable_def split: option.splits)
  then show ?thesis by (simp add: raiseStopFor_def bnd_def fresh_id_def asks_def ret_def)
qed

lemma raise_raises:
  assumes "w_scope s = anonymous" "raisable s j d"
  shows "\<exists>s'. raiseStopFor u j s = (Inr (), s') \<and> same_clock s s' \<and>
     w_orders s' = upd_by o_id j (push_stop (raised_stop u s)) (w_orders s) \<and>
     w_emits s' = w_emits s @ [NotificationNew (u_id u) DRIVER_STOP_DETECTED (Some j)] \<and>
     w_jobs s' = add_job (StopEscalationJob (w_next_id s) j
        (w_now s + minutes (cfg_stopResponseWindowMinutes (w_config s)))) (w_jobs s)"
proof -
  define e where "e = raised_stop u s"
  have e: "(blank_stop (w_next_id s) DETECTED (w_now s))\<lparr>st_location := u_location u\<rparr> = e" by (simp add: e_def raised_stop_def)
  define s0 where "s0 = s\<lparr>w_next_id := Suc (w_next_id s)\<rparr>"
  define s1 where "s1 = w_orders_update (upd_by o_id j (push_stop e)) s0"
  have sees: "sees_order s0 j d" using assms by (simp add: anonymous_sees s0_def raisable_def)
  have upd: "update_order j (\<lambda>d. o_status d = IN_TRANSIT \<and> clear_of_stops (w_now s) d) (push_stop e) s0 = (Inr (Some (push_stop e d)), s1)"
    using update_order_run [OF sees, of "\<lambda>d. o_status d = IN_TRANSIT \<and> clear_of_stops (w_now s) d" "push_stop e"] assms(2)
    by (simp add: raisable_def s1_def)
  have "sees_order s1 j (push_stop e d)" by (rule sees_order_update [OF sees]) (simp_all add: s1_def)
  then have found: "find_order j s1 = (Inr (Some (push_stop e d)), s1)" by (rule find_order_run)
  define c where "c = o_fuelCompanyId (push_stop e d)"
  define s2 where "s2 = s1\<lparr>w_notifications := w_notifications s1 @ [\<lparr>n_id = w_next_id s1, n_companyId = c,
       n_recipientUserId = u_id u, n_type = DRIVER_STOP_DETECTED, n_orderId = Some j, n_readAt = None\<rparr>],
     w_next_id := Suc (w_next_id s1), w_emits := w_emits s1 @ [NotificationNew (u_id u) DRIVER_STOP_DETECTED (Some j)]\<rparr>"
  have told: "notify c (u_id u) DRIVER_STOP_DETECTED (Some j) s1 = (Inr (), s2)"
    by (simp add: notify_def bnd_def run_unscoped_def fresh_id_def tenant_key_def asks_def of_sum_def ret_def insert_doc_def
        modify_def emit_def s2_def)
  have id: "o_id (push_stop e d) = j" using assms(2) by (auto simp: raisable_def push_stop_def dest: get_by_key)
  have "raiseStopFor u j s = bnd (update_order j (\<lambda>d. o_status d = IN_TRANSIT \<and> clear_of_stops (w_now s) d) (push_stop e)) (\<lambda>result.
      case result of None \<Rightarrow> ret () | Some _ \<Rightarrow> bnd (find_order j) (\<lambda>found. case found of None \<Rightarrow> ret () | Some order \<Rightarrow>
        bnd (notify (o_fuelCompanyId order) (u_id u) DRIVER_STOP_DETECTED (Some (o_id order))) (\<lambda>_.
        bnd (asks (\<lambda>s. cfg_stopResponseWindowMinutes (w_config s))) (\<lambda>m.
        scheduleStopEscalation (w_next_id s) (o_id order) m)))) s0"
    by (simp add: raiseStopFor_def bnd_def [of fresh_id] bnd_def [of "asks w_now"] fresh_id_def asks_def s0_def e)
  also have "\<dots> = scheduleStopEscalation (w_next_id s) j (cfg_stopResponseWindowMinutes (w_config s2)) s2"
    using told by (simp add: bnd_def upd found id c_def asks_def)
  also have "\<dots> = (Inr (), s2\<lparr>w_jobs := add_job (StopEscalationJob (w_next_id s) j
        (w_now s2 + minutes (cfg_stopResponseWindowMinutes (w_config s2)))) (w_jobs s2)\<rparr>)"
    by (simp add: scheduleStopEscalation_def bnd_def asks_def queue_add_def modify_def)
  finally have "raiseStopFor u j s = (Inr (), s2\<lparr>w_jobs := add_job (StopEscalationJob (w_next_id s) j
        (w_now s + minutes (cfg_stopResponseWindowMinutes (w_config s)))) (w_jobs s)\<rparr>)"
    by (simp add: s2_def s1_def s0_def)
  then show ?thesis by (simp add: same_clock_def s2_def s1_def s0_def e_def)
qed


definition noticed :: "oid \<Rightarrow> order \<Rightarrow> instant \<Rightarrow> world \<Rightarrow> bool" where
  "noticed i d due s \<longleftrightarrow> (\<exists>e (u :: user). get_by o_id i (w_orders s) = Some (push_stop e d) \<and> st_origin e = DETECTED \<and> open_stop e \<and>
     u_activeOrderId u = Some i \<and> StopEscalationJob (st_id e) i due \<in> set (w_jobs s) \<and>
     NotificationNew (u_id u) DRIVER_STOP_DETECTED (Some i) \<in> set (w_emits s))"

definition stop_jobs_known :: "world \<Rightarrow> bool" where
  "stop_jobs_known s \<longleftrightarrow> (\<forall>k i t. StopEscalationJob k i t \<in> set (w_jobs s) \<longrightarrow> k < w_next_id s)"

lemma noticed_not_raisable: "noticed i d due s \<Longrightarrow> \<not> raisable s i d'"
  by (auto simp: noticed_def raisable_def clear_of_stops_def push_stop_def unblockedStopFilter_def open_stop_def)

lemma add_job_set: "j \<in> set (add_job x js) \<longleftrightarrow> j \<in> set js \<or> (j = x \<and> key_of_job x \<notin> key_of_job ` set js)"
  by (auto simp: add_job_def)

lemma stop_job_fresh:
  assumes "stop_jobs_known s"
  shows "StopKey (w_next_id s) \<notin> key_of_job ` set (w_jobs s)"
proof
  assume "StopKey (w_next_id s) \<in> key_of_job ` set (w_jobs s)"
  then obtain j where "j \<in> set (w_jobs s)" "key_of_job j = StopKey (w_next_id s)" by auto
  then obtain i t where "StopEscalationJob (w_next_id s) i t \<in> set (w_jobs s)" by (cases j rule: job.exhaust) simp_all
  with assms show False by (auto simp: stop_jobs_known_def)
qed

lemma raise_step:
  assumes sc: "w_scope s = anonymous" and jobs: "stop_jobs_known s" and u: "u_activeOrderId u = Some j"
    and due: "due = w_now s + minutes (cfg_stopResponseWindowMinutes (w_config s))" and st: "raisable s i d \<or> noticed i d due s"
  shows "\<exists>s'. raiseStopFor u j s = (Inr (), s') \<and> same_clock s s' \<and> stop_jobs_known s' \<and>
     (if j = i then noticed i d due s' else raisable s' i d \<and> raisable s i d \<or> noticed i d due s')"
proof (cases "\<exists>x. raisable s j x")
  case False
  define s' where "s' = s\<lparr>w_next_id := Suc (w_next_id s)\<rparr>"
  have "raiseStopFor u j s = (Inr (), s')" using raise_skips [OF sc] False by (simp add: s'_def)
  moreover have "same_clock s s'" by (simp add: same_clock_def s'_def)
  moreover have "stop_jobs_known s'" using jobs by (simp add: stop_jobs_known_def s'_def) (metis less_SucI)
  moreover have "raisable s' i d = raisable s i d" "noticed i d due s' = noticed i d due s"
    by (simp_all add: raisable_def noticed_def s'_def)
  ultimately show ?thesis using st False by auto
next
  case True
  then obtain x where x: "raisable s j x" by blast
  from raise_raises [OF sc x, of u] obtain s' where run: "raiseStopFor u j s = (Inr (), s')" and clock: "same_clock s s'"
    and orders: "w_orders s' = upd_by o_id j (push_stop (raised_stop u s)) (w_orders s)"
    and emits: "w_emits s' = w_emits s @ [NotificationNew (u_id u) DRIVER_STOP_DETECTED (Some j)]"
    and jobs': "w_jobs s' = add_job (StopEscalationJob (w_next_id s) j due) (w_jobs s)" by (auto simp: due)
  have known: "stop_jobs_known s'"
    using jobs clock jobs' by (auto simp: stop_jobs_known_def add_job_set same_clock_def intro: less_trans)
  have get: "get_by o_id k (w_orders s') = (if k = j then map_option (push_stop (raised_stop u s)) (get_by o_id j (w_orders s))
      else get_by o_id k (w_orders s))" for k
    unfolding orders by (rule get_by_upd_by) (simp add: push_stop_def)
  show ?thesis
  proof (cases "j = i")
    case True
    with x st noticed_not_raisable have "x = d" by (auto simp: raisable_def)
    with True x have "get_by o_id i (w_orders s') = Some (push_stop (raised_stop u s) d)" by (simp add: get raisable_def)
    moreover have "StopEscalationJob (w_next_id s) i due \<in> set (w_jobs s')"
      using stop_job_fresh [OF jobs] True by (simp add: jobs' add_job_set)
    moreover have "st_id (raised_stop u s) = w_next_id s" "st_origin (raised_stop u s) = DETECTED" "open_stop (raised_stop u s)"
      by (simp_all add: raised_stop_def blank_stop_def open_stop_def)
    moreover have "NotificationNew (u_id u) DRIVER_STOP_DETECTED (Some i) \<in> set (w_emits s')" by (simp add: emits True)
    ultimately have "noticed i d due s'" unfolding noticed_def using u True by metis
    with run clock known True show ?thesis by auto
  next
    case False
    have "raisable s' i d" if "raisable s i d" using that False clock by (simp add: raisable_def get same_clock_def)
    moreover have "noticed i d due s'" if "noticed i d due s"
      using that False unfolding noticed_def by (fastforce simp: get jobs' add_job_set emits)
    ultimately show ?thesis using run clock known False st by auto
  qed
qed


lemma sweep_loop:
  assumes "w_scope s = anonymous" "stop_jobs_known s" "due = w_now s + minutes (cfg_stopResponseWindowMinutes (w_config s))"
    and "raisable s i d \<and> (\<exists>u \<in> set us. u_activeOrderId u = Some i) \<or> noticed i d due s"
  shows "\<exists>s'. for_each us (\<lambda>driver. case u_activeOrderId driver of None \<Rightarrow> ret () | Some j \<Rightarrow> raiseStopFor driver j) s = (Inr (), s') \<and>
     noticed i d due s'"
  using assms
proof (induction us arbitrary: s)
  case (Cons u us)
  show ?case
  proof (cases "u_activeOrderId u")
    case None
    with Cons.IH [OF Cons.prems(1,2,3)] Cons.prems(4) show ?thesis by (simp add: bnd_def ret_def)
  next
    case (Some j)
    have "raisable s i d \<or> noticed i d due s" using Cons.prems(4) by blast
    from raise_step [OF Cons.prems(1,2) Some Cons.prems(3) this] obtain s1 where
      run: "raiseStopFor u j s = (Inr (), s1)" and clock: "same_clock s s1" and known: "stop_jobs_known s1"
      and st: "if j = i then noticed i d due s1 else raisable s1 i d \<and> raisable s i d \<or> noticed i d due s1" by blast
    have "raisable s1 i d \<and> (\<exists>u \<in> set us. u_activeOrderId u = Some i) \<or> noticed i d due s1"
      using st Cons.prems(4) Some noticed_not_raisable by (auto split: if_splits)
    with Cons.IH [of s1] clock known Cons.prems(1,3) show ?thesis by (simp add: Some run bnd_def same_clock_def)
  qed
qed (simp add: ret_def)

text \<open>A stalled delivery is noticed. If a driver on a delivery has not moved for the configured window and the
  order is in transit with no open and no still-suppressing stop, the next sweep ends without an error with one new
  open stop on that order, a notice to its driver, and an escalation job due when the response window closes.\<close>

theorem stalled_delivery_is_noticed:
  assumes "w_scope s = anonymous" and "stop_jobs_known s"
    and "u \<in> set (w_users s)" and "stalled (w_now s - minutes (cfg_stopWindowMinutes (w_config s))) u"
    and "u_activeOrderId u = Some i" and "get_by o_id i (w_orders s) = Some d"
    and "o_status d = IN_TRANSIT" and "clear_of_stops (w_now s) d"
  shows "\<exists>s'. detectStalledDeliveries s = (Inr (), s') \<and>
     noticed i d (w_now s + minutes (cfg_stopResponseWindowMinutes (w_config s))) s'"
proof -
  let ?us = "filter (stalled (w_now s - minutes (cfg_stopWindowMinutes (w_config s)))) (w_users s)"
  have "raisable s i d \<and> (\<exists>u \<in> set ?us. u_activeOrderId u = Some i)" using assms(3-8) by (auto simp: raisable_def)
  with sweep_loop [OF assms(1,2) refl, of i d ?us] show ?thesis
    by (simp add: detectStalledDeliveries_def bnd_def asks_def find_all_def assms(1))
qed

definition road_world :: world where
  "road_world = empty_world\<lparr>w_now := 700000,
     w_users := [blank_driver\<lparr>u_activeOrderId := Some 10, u_isAvailable := False, u_lastMovedAt := Some 0\<rparr>,
       blank_user\<lparr>u_id := 8, u_role := TRANSPORT_COMPANY_ADMIN, u_companyId := Some 2\<rparr>],
     w_orders := [blank_order\<lparr>o_status := IN_TRANSIT, o_driverId := Some 7, o_transportCompanyId := Some 2,
       o_statusHistory := [step PENDING_APPROVAL APPROVED, step APPROVED ROUTED_TO_TRANSPORT,
         step ROUTED_TO_TRANSPORT PENDING_PAYMENT, step PENDING_PAYMENT ROUTED_TO_TRANSPORT,
         step ROUTED_TO_TRANSPORT ASSIGNED_TO_DRIVER, step ASSIGNED_TO_DRIVER LOADING, step LOADING IN_TRANSIT],
       o_stopEvents := [blank_stop 60 DETECTED 1]\<rparr>]\<rparr>"

theorem stalled_delivery_is_noticed_witness:
  "let s = road_world\<lparr>w_orders := map (\<lambda>d. d\<lparr>o_stopEvents := []\<rparr>) (w_orders road_world)\<rparr> in
   \<exists>s' d. detectStalledDeliveries s = (Inr (), s') \<and> noticed 10 d 1000000 s'"
proof -
  define s where "s = road_world\<lparr>w_orders := map (\<lambda>d. d\<lparr>o_stopEvents := []\<rparr>) (w_orders road_world)\<rparr>"
  define u where "u = blank_driver\<lparr>u_activeOrderId := Some 10, u_isAvailable := False, u_lastMovedAt := Some 0\<rparr>"
  obtain d where d: "w_orders s = [d]" "o_id d = 10" "o_status d = IN_TRANSIT" "o_stopEvents d = []"
    by (simp add: s_def road_world_def blank_order_def)
  have s: "w_scope s = anonymous" "stop_jobs_known s" "u \<in> set (w_users s)" "u_activeOrderId u = Some 10"
    "w_now s = 700000" "w_config s = default_config" "stalled 100000 u"
    by (simp_all add: s_def u_def road_world_def empty_world_def stop_jobs_known_def stalled_def blank_driver_def)
  have "\<exists>s'. detectStalledDeliveries s = (Inr (), s') \<and>
     noticed 10 d (w_now s + minutes (cfg_stopResponseWindowMinutes (w_config s))) s'"
    using s d by (intro stalled_delivery_is_noticed [of s u]) (auto simp: clear_of_stops_def default_config_def minutes_def)
  then show ?thesis unfolding Let_def s_def [symmetric] by (auto simp: s default_config_def minutes_def)
qed

lemma road_world_ok: "stops_ok road_world"
  by (auto simp: stops_ok_def orders_ok_def order_ok_def road_world_def empty_world_def blank_order_def trail_ok_def
      blank_stop_def stop_ok_def open_stop_def step_def legal_edge_def intro!: lifecycle_cons lifecycle.start)

theorem stop_escalates_once_witness:
  "\<exists>s'. escalateStop 60 10 road_world = (Inr (), s') \<and>
     w_emits s' = [NotificationNew 8 ORDER_STOP_UNRESOLVED (Some 10)] \<and>
     escalateStop 60 10 (s'\<lparr>w_now := 800000\<rparr>) = (Inr (), s'\<lparr>w_now := 800000\<rparr>)"
proof -
  have "w_scope road_world = anonymous" "w_emits road_world = []" by (simp_all add: road_world_def empty_world_def)
  moreover have "\<exists>d. get_by o_id 10 (w_orders road_world) = Some d \<and> awaits_escalation 60 d \<and> map u_id (alerted road_world d) = [8]"
    by (simp add: road_world_def blank_order_def awaits_escalation_def FINAL_STATUSES_def blank_stop_def silent_def alerted_def
        blank_driver_def blank_user_def)
  moreover have "map (\<lambda>u. NotificationNew (u_id u) t o') us = map (\<lambda>i. NotificationNew i t o') (map u_id us)" for t o' and us :: "user list"
    by simp
  ultimately show ?thesis using stop_escalates_once [OF road_world_ok, of 60 10] by (auto simp del: map_map)
qed

end
