(* ===== verification/Supplier_Invoices.thy ===== *)
theory Supplier_Invoices
  imports Orders Positional
begin

text \<open>
  Supplier invoices: \<open>modules/orders/services/supplier-invoices.service.ts\<close>.

  The administrator of a fuel company confirms how many litres the supplier actually delivered for an
  order; the difference to the ordered quantity moves the client's litre balance in the same
  transaction.  A replacement restates that movement.  Storing the uploaded file and reading figures
  out of it (\<open>upload\<close>) are I/O and write nothing of the order, so they are not modelled.
\<close>

section \<open>The operations\<close>

record confirm_dto =
  cd_fileId :: oid
  cd_confirmed :: confirmed_invoice_data

definition INELIGIBLE_STATUSES :: "order_status list" where
  "INELIGIBLE_STATUSES = [CANCELLED, REJECTED]"

definition assertEligible :: "order \<Rightarrow> unit service" where
  "assertEligible order = guard (o_status order \<notin> set INELIGIBLE_STATUSES) (Conflict (Some SUPPLIER_INVOICE_ORDER_NOT_ELIGIBLE))"

definition assertGradeMatches :: "order \<Rightarrow> confirmed_invoice_data \<Rightarrow> unit service" where
  "assertGradeMatches order confirmed =
     guard (ci_fuelType confirmed = o_fuelType order) (BadRequest (Some SUPPLIER_INVOICE_GRADE_MISMATCH))"

definition is_current :: "supplier_invoice \<Rightarrow> bool" where
  "is_current e \<longleftrightarrow> si_supersededAt e = None \<and> si_confirmed e \<noteq> None"

definition currentEntry :: "order \<Rightarrow> supplier_invoice option" where
  "currentEntry order = find is_current (o_supplierInvoices order)"

definition new_entry :: "oid \<Rightarrow> confirm_dto \<Rightarrow> oid \<Rightarrow> instant \<Rightarrow> supplier_invoice" where
  "new_entry i dto actorId now = \<lparr>si_id = i, si_fileId = cd_fileId dto, si_extracted = None,
     si_confirmed = Some (cd_confirmed dto), si_confirmedBy = Some actorId, si_confirmedAt = Some now,
     si_supersededAt = None\<rparr>"

definition push_entry :: "supplier_invoice \<Rightarrow> order \<Rightarrow> order" where
  "push_entry e d = d\<lparr>o_supplierInvoices := o_supplierInvoices d @ [e]\<rparr>"

record reconciled_result =
  rc_order :: "order option"
  rc_shortfallLitres :: rat
  rc_wentNegative :: bool

definition record_entry :: "order \<Rightarrow> confirm_dto \<Rightarrow> oid \<Rightarrow> reconciliation_result \<Rightarrow> reconciled_result service" where
  "record_entry order dto actorId reconciliation =
     bnd fresh_id (\<lambda>i.
     bnd (asks w_now) (\<lambda>now.
     bnd (update_order (o_id order) (\<lambda>_. True) (push_entry (new_entry i dto actorId now))) (\<lambda>updated.
     ret \<lparr>rc_order = updated, rc_shortfallLitres = rr_shortfallLitres reconciliation,
          rc_wentNegative = rr_wentNegative reconciliation\<rparr>)))"

definition confirmInvoice :: "order \<Rightarrow> confirm_dto \<Rightarrow> oid \<Rightarrow> reconciled_result service" where
  "confirmInvoice order dto actorId =
     bnd (assertEligible order) (\<lambda>_.
     bnd (assertGradeMatches order (cd_confirmed dto)) (\<lambda>_.
     bnd (guard (currentEntry order = None) (Conflict (Some SUPPLIER_INVOICE_ALREADY_RECORDED))) (\<lambda>_.
     transaction
       (bnd (recordReconciliation (o_fuelCompanyId order) (o_clientId order) (ci_fuelType (cd_confirmed dto)) (o_id order)
               (o_quantityLiters order) (ci_quantityLitres (cd_confirmed dto)) actorId)
          (record_entry order dto actorId)))))"

definition supersede :: "oid \<Rightarrow> instant \<Rightarrow> order \<Rightarrow> order" where
  "supersede entryId now d = d\<lparr>o_supplierInvoices :=
     amend_first (\<lambda>e. si_id e = entryId) (\<lambda>e. e\<lparr>si_supersededAt := Some now\<rparr>) (o_supplierInvoices d)\<rparr>"

definition replaceInvoice :: "order \<Rightarrow> confirm_dto \<Rightarrow> oid \<Rightarrow> reconciled_result service" where
  "replaceInvoice order dto actorId =
     bnd (assertEligible order) (\<lambda>_.
     bnd (assertGradeMatches order (cd_confirmed dto)) (\<lambda>_.
     transaction
       (bnd (case currentEntry order of
               None \<Rightarrow> ret ()
             | Some existing \<Rightarrow> bnd (asks w_now) (\<lambda>now.
                 bnd (update_order (o_id order) (\<lambda>d. list_ex (\<lambda>e. si_id e = si_id existing) (o_supplierInvoices d))
                        (supersede (si_id existing) now)) (\<lambda>_. ret ()))) (\<lambda>_.
        bnd (restateReconciliation (o_fuelCompanyId order) (o_clientId order) (ci_fuelType (cd_confirmed dto)) (o_id order)
               (o_quantityLiters order) (ci_quantityLitres (cd_confirmed dto)) actorId)
          (record_entry order dto actorId)))))"

section \<open>What a reconciliation does to the balance\<close>

definition owed :: "oid \<Rightarrow> oid \<Rightarrow> fuel_type \<Rightarrow> world \<Rightarrow> rat" where
  "owed c u t s = (case get_by lb_key (c, u, t) (w_balances s) of None \<Rightarrow> 0 | Some b \<Rightarrow> lb_balanceLitres b)"

definition reconciled :: "oid \<Rightarrow> oid \<Rightarrow> oid \<Rightarrow> fuel_type \<Rightarrow> world \<Rightarrow> rat" where
  "reconciled i c u t s = (case get_by lb_key (c, u, t) (w_balances s) of
     None \<Rightarrow> 0 | Some b \<Rightarrow> sum_list (map lm_litres (filter (reconciles i) (lb_movements b))))"

lemma own_scoping:
  assumes "resolveCompanyId (w_scope s) = Inr (Some c)"
  shows "balance_scoping (w_scope s) = Inr (\<lambda>d. lb_companyId d = c)" and "tenant_key x s = (Inr c, s)"
  using assms by (simp_all add: tenant_scoped_def tenant_key_def bnd_def asks_def of_sum_def ret_def)

lemma own_find:
  assumes "resolveCompanyId (w_scope s) = Inr (Some c)"
  shows "findOrNull c u t s = (Inr (get_by lb_key (c, u, t) (w_balances s)), s)"
proof -
  have "lb_companyId b = c" if "get_by lb_key (c, u, t) (w_balances s) = Some b" for b
    using get_by_key [OF that] by (simp add: lb_key_def)
  then show ?thesis by (auto simp: findOrNull_def bnd_def own_scoping [OF assms] find_one_def split: option.splits)
qed

lemma not_reconciled:
  assumes "balance_ok n b" "i \<notin> set (lb_reconciledOrderIds b)"
  shows "filter (reconciles i) (lb_movements b) = []"
proof -
  have "length (filter (reconciles i) (lb_movements b)) = 0" using assms by (simp add: balance_ok_def)
  then show ?thesis by simp
qed

lemma ensure_effect:
  assumes scope: "resolveCompanyId (w_scope s) = Inr (Some c)" and run: "ensure_balance c u t s = (Inr (), s')"
  shows "owed c u t s' = owed c u t s \<and> reconciled i c u t s' = reconciled i c u t s \<and>
     w_scope s' = w_scope s \<and> w_orders s' = w_orders s \<and> w_next_id s \<le> w_next_id s'"
proof (cases "get_by lb_key (c, u, t) (w_balances s)")
  case (Some b)
  with run own_find [OF scope, of u t] have "s' = s" by (simp add: ensure_balance_def bnd_def ret_def)
  with Some show ?thesis by simp
next
  case None
  with run own_find [OF scope, of u t] show ?thesis
    by (auto simp: ensure_balance_def prog_inv owed_def reconciled_def get_by_snoc lb_key_def split: if_splits)
qed


lemma record_effect:
  assumes scope: "resolveCompanyId (w_scope s) = Inr (Some c)" and ok: "balances_ok s"
    and run: "recordReconciliation c u t i q x a s = (Inr r, s')"
  shows "owed c u t s' = owed c u t s + roundLitres (q - x) \<and>
     (roundLitres (q - x) = 0 \<or> reconciled i c u t s = 0) \<and>
     reconciled i c u t s' = reconciled i c u t s + roundLitres (q - x) \<and>
     rr_shortfallLitres r = roundLitres (q - x) \<and> w_scope s' = w_scope s \<and> w_orders s' = w_orders s \<and>
     w_next_id s \<le> w_next_id s'"
proof (cases "roundLitres (q - x) = 0")
  case True
  with run own_find [OF scope, of u t] show ?thesis
    by (auto simp: recordReconciliation_def Let_def getBalanceLitres_def bnd_def ret_def)
next
  case False
  have r: "rr_shortfallLitres r = roundLitres (q - x)"
    using run False by (auto simp: recordReconciliation_def Let_def prog_inv)
  obtain s1 v own mv d where ens: "ensure_balance c u t s = (Inr (), s1)" and own: "resolveCompanyId (w_scope s1) = Inr own"
    and get: "get_by lb_key (case own of None \<Rightarrow> c | Some z \<Rightarrow> z, u, t) (w_balances s1) = Some d"
    and new: "i \<notin> set (lb_reconciledOrderIds d)" and mv: "lm_litres mv = roundLitres (q - x)" "reconciles i mv"
    and s': "s' = w_balances_update (upd_by lb_key (case own of None \<Rightarrow> c | Some z \<Rightarrow> z, u, t) (reconcile_movement i mv))
       (s1\<lparr>w_next_id := Suc (w_next_id s1)\<rparr>)"
    by (rule recordReconciliation_okD [OF run False])
  note e = ensure_effect [OF scope ens]
  have own': "own = Some c" using own e scope by simp
  note get' = get [unfolded own' option.case] and s'' = s' [unfolded own' option.case]
  have "balances_ok s1" using keepsD [OF keeps_ensure_balance ens ok] .
  then have "balance_ok (w_next_id s1) d" using get_by_mem [OF get'] by (auto simp: balances_ok_def)
  from not_reconciled [OF this new] have none: "filter (reconciles i) (lb_movements d) = []" .
  have after: "get_by lb_key (c, u, t) (w_balances s') = Some (reconcile_movement i mv d)"
    using get' by (simp add: s'' get_by_upd_by reconcile_movement_def push_movement_def lb_key_def)
  have "owed c u t s' = owed c u t s1 + roundLitres (q - x)" "reconciled i c u t s1 = 0"
    "reconciled i c u t s' = roundLitres (q - x)"
    using after get' none mv by (simp_all add: owed_def reconciled_def reconcile_movement_def push_movement_def)
  with e [of i] r show ?thesis by (simp add: s'')
qed

lemma filter_of_find: "length (filter P xs) = 1 \<Longrightarrow> find P xs = Some x \<Longrightarrow> filter P xs = [x]"
  by (induction xs) (auto split: if_splits)

lemma pull_effect:
  assumes ok: "balance_ok n d" and prior: "find (reconciles i) (lb_movements d) = Some m"
  shows "filter (reconciles i) (lb_movements d) = [m] \<and> filter (reconciles i) (lb_movements (pull_movement i m d)) = []"
proof
  have "m \<in> set (filter (reconciles i) (lb_movements d))" using prior by (auto simp: find_Some_iff)
  then have "length (filter (reconciles i) (lb_movements d)) \<noteq> 0" by (auto simp: filter_empty_conv)
  with ok have "length (filter (reconciles i) (lb_movements d)) = 1" by (auto simp: balance_ok_def split: if_splits)
  then show "filter (reconciles i) (lb_movements d) = [m]" using prior by (rule filter_of_find)
  show "filter (reconciles i) (lb_movements (pull_movement i m d)) = []"
    using pull_movement_ok [OF ok prior] by (intro not_reconciled) auto
qed

text \<open>The first half of a restatement: the earlier movement of the order, if any, is taken back.\<close>

lemma restate_pulls:
  assumes scope: "resolveCompanyId (w_scope s) = Inr (Some c)" and ok: "balances_ok s"
    and run: "restateReconciliation c u t i q x a s = (Inr r, s')"
  obtains s1 where "recordReconciliation c u t i q x a s1 = (Inr r, s')" "balances_ok s1" "reconciled i c u t s1 = 0"
    "owed c u t s1 = owed c u t s - reconciled i c u t s" "w_scope s1 = w_scope s" "w_orders s1 = w_orders s"
    "w_next_id s1 = w_next_id s"
proof (cases "\<exists>d m. get_by lb_key (c, u, t) (w_balances s) = Some d \<and> find (reconciles i) (lb_movements d) = Some m")
  case True
  then obtain d m where d: "get_by lb_key (c, u, t) (w_balances s) = Some d"
    and m: "find (reconciles i) (lb_movements d) = Some m" by blast
  let ?s1 = "s\<lparr>w_balances := upd_by lb_id (lb_id d) (pull_movement i m) (w_balances s)\<rparr>"
  have found: "findOrNull c u t s = (Inr (Some d), s)" using own_find [OF scope] d by simp
  note look = findOrNull_lookup [OF ok found]
  have vis: "lb_companyId d = c" using get_by_key [OF d] by (simp add: lb_key_def)
  have put: "?s1 = w_balances_update (upd_by lb_id (lb_id d) (pull_movement i m)) s" by simp
  have run1: "recordReconciliation c u t i q x a ?s1 = (Inr r, s')"
    using run found m look vis unfolding put
    by (simp add: restateReconciliation_def bnd_def find_and_update_def cas_def own_scoping [OF scope] ret_def)
  have ok1: "balances_ok ?s1"
    by (rule balances_ok_upd [OF ok look(1)]) (use pull_movement_ok [OF look(2) m] balances_keys [OF ok] in auto)
  have "findOrNull c u t ?s1 = (Inr (Some (pull_movement i m d)), ?s1)"
  proof (rule findOrNull_after [OF ok found])
    show "w_balances ?s1 = upd_by lb_id (lb_id d) (pull_movement i m) (w_balances s)" by simp
  qed (simp_all add: pull_movement_def lb_key_def)
  moreover have "resolveCompanyId (w_scope ?s1) = Inr (Some c)" using scope by simp
  ultimately have "get_by lb_key (c, u, t) (w_balances ?s1) = Some (pull_movement i m d)"
    using own_find [of ?s1 c u t] by simp
  then show thesis
    using d pull_effect [OF look(2) m]
    by (intro that [OF run1 ok1]) (simp_all add: owed_def reconciled_def pull_movement_def)
next
  case False
  then have none: "reconciled i c u t s = 0"
    by (auto simp: reconciled_def find_None_iff filter_empty_conv split: option.splits)
  have "recordReconciliation c u t i q x a s = (Inr r, s')"
    using run False by (auto simp: restateReconciliation_def bnd_def own_find [OF scope] ret_def split: option.splits)
  then show thesis using none by (intro that [of s]) (simp_all add: ok)
qed

lemma restate_effect:
  assumes scope: "resolveCompanyId (w_scope s) = Inr (Some c)" and ok: "balances_ok s"
    and run: "restateReconciliation c u t i q x a s = (Inr r, s')"
  shows "owed c u t s' = owed c u t s - reconciled i c u t s + roundLitres (q - x) \<and>
     reconciled i c u t s' = roundLitres (q - x) \<and> rr_shortfallLitres r = roundLitres (q - x) \<and>
     w_scope s' = w_scope s \<and> w_orders s' = w_orders s \<and> w_next_id s \<le> w_next_id s'"
proof (rule restate_pulls [OF assms])
  fix s1 assume s1: "recordReconciliation c u t i q x a s1 = (Inr r, s')" "balances_ok s1" "reconciled i c u t s1 = 0"
    "owed c u t s1 = owed c u t s - reconciled i c u t s" "w_scope s1 = w_scope s" "w_orders s1 = w_orders s"
    "w_next_id s1 = w_next_id s"
  have "resolveCompanyId (w_scope s1) = Inr (Some c)" using scope s1 by simp
  from record_effect [OF this s1(2,1)] s1 show ?thesis by simp
qed

section \<open>Invoices and balance in step\<close>

text \<open>The shortfall that the current invoice of an order claims.\<close>

definition invoiced :: "order \<Rightarrow> rat" where
  "invoiced d = (case currentEntry d of
     Some e \<Rightarrow> roundLitres (o_quantityLiters d - ci_quantityLitres (the (si_confirmed e))) | None \<Rightarrow> 0)"

definition entries_ok :: "nat \<Rightarrow> order \<Rightarrow> bool" where
  "entries_ok n d \<longleftrightarrow> distinct (map si_id (o_supplierInvoices d)) \<and> (\<forall>e \<in> set (o_supplierInvoices d). si_id e < n) \<and>
     length (filter is_current (o_supplierInvoices d)) \<le> 1"

definition in_step :: "order \<Rightarrow> world \<Rightarrow> bool" where
  "in_step d s \<longleftrightarrow> sees_order s (o_id d) d \<and> entries_ok (w_next_id s) d \<and>
     reconciled (o_id d) (o_fuelCompanyId d) (o_clientId d) (o_fuelType d) s = invoiced d"

lemma in_step_cong:
  "in_step d s \<Longrightarrow> w_orders s' = w_orders s \<Longrightarrow> w_scope s' = w_scope s \<Longrightarrow> w_balances s' = w_balances s \<Longrightarrow>
     w_next_id s \<le> w_next_id s' \<Longrightarrow> in_step d s'"
  by (auto simp: in_step_def sees_order_def entries_ok_def reconciled_def)

lemma no_current: "currentEntry d = None \<longleftrightarrow> filter is_current (o_supplierInvoices d) = []"
  by (auto simp: currentEntry_def find_None_iff filter_empty_conv)

lemma entry_pushed:
  assumes "entries_ok n d" "currentEntry d = None"
  shows "entries_ok (Suc n) (push_entry (new_entry n dto a now) d) \<and>
     invoiced (push_entry (new_entry n dto a now) d) = roundLitres (o_quantityLiters d - ci_quantityLitres (cd_confirmed dto))"
proof -
  have "find P (xs @ [y]) = (if P y then Some y else None)" if "filter P xs = []" for P xs and y :: supplier_invoice
    using that by (induction xs) auto
  note last = this
  have none: "filter is_current (o_supplierInvoices d) = []" using assms(2) by (simp add: no_current)
  show ?thesis using assms(1) none last [OF none]
    by (auto simp: entries_ok_def push_entry_def new_entry_def invoiced_def currentEntry_def is_current_def)
qed

lemma superseded:
  assumes "entries_ok n d" "currentEntry d = Some e"
  shows "entries_ok n (supersede (si_id e) now d) \<and> currentEntry (supersede (si_id e) now d) = None"
proof -
  let ?f = "\<lambda>e. e\<lparr>si_supersededAt := Some now\<rparr>" let ?es = "o_supplierInvoices d"
  have drop: "filter is_current (amend_first (\<lambda>x. si_id x = si_id e) ?f ?es) = []"
    using assms by (intro amend_first_only) (simp_all add: entries_ok_def currentEntry_def is_current_def)
  have keys: "map si_id (amend_first (\<lambda>x. si_id x = si_id e) ?f ?es) = map si_id ?es"
    by (rule amend_first_keys) simp
  have "si_id x < n" if "x \<in> set (amend_first (\<lambda>x. si_id x = si_id e) ?f ?es)" for x
    using amend_first_set [OF that] assms(1) by (auto simp: entries_ok_def)
  moreover have "currentEntry (supersede (si_id e) now d) = None"
    using drop by (simp add: no_current supersede_def)
  ultimately show ?thesis using assms(1) keys drop by (simp add: entries_ok_def supersede_def)
qed

lemma patched_sees:
  assumes "sees_order s i d" "same_parties f"
  shows "sees_order (w_orders_update (upd_by o_id i f) s) i (f d)"
proof -
  from assms(1) obtain v where v: "order_scoping (w_scope s) = Inr v" "get_by o_id i (w_orders s) = Some d" "v d"
    by (auto simp: sees_order_def)
  have "v (f d)" using v order_scoping_parties [OF v(1) assms(2)] by simp
  with v assms(2) show ?thesis by (simp add: sees_order_def get_by_upd_by same_parties_def)
qed

lemma invoice_patches: "same_parties (push_entry e)" "same_parties (supersede j now)"
  by (simp_all add: same_parties_def push_entry_def supersede_def)

lemma record_entry_effect:
  assumes run: "record_entry order dto a rc s = (Inr out, s')" and sees: "sees_order s (o_id order) d"
    and trail: "entries_ok (w_next_id s) d" "currentEntry d = None"
    and bal: "reconciled (o_id d) (o_fuelCompanyId d) (o_clientId d) (o_fuelType d) s =
       roundLitres (o_quantityLiters d - ci_quantityLitres (cd_confirmed dto))"
  shows "\<exists>d'. rc_order out = Some d' \<and> in_step d' s' \<and> o_id d' = o_id order \<and> rc_shortfallLitres out = rr_shortfallLitres rc \<and>
     invoiced d' = roundLitres (o_quantityLiters d - ci_quantityLitres (cd_confirmed dto)) \<and> w_balances s' = w_balances s"
proof -
  let ?e = "new_entry (w_next_id s) dto a (w_now s)" let ?s = "s\<lparr>w_next_id := Suc (w_next_id s)\<rparr>"
  have id: "o_id d = o_id order" using sees by (auto simp: sees_order_def dest: get_by_key)
  have sees1: "sees_order ?s (o_id order) d" using sees by (simp add: sees_order_def)
  from run update_order_run [OF sees1, of "\<lambda>_. True" "push_entry ?e"]
  have out: "out = \<lparr>rc_order = Some (push_entry ?e d), rc_shortfallLitres = rr_shortfallLitres rc,
      rc_wentNegative = rr_wentNegative rc\<rparr>" and s': "s' = w_orders_update (upd_by o_id (o_id order) (push_entry ?e)) ?s"
    by (auto simp: record_entry_def bnd_def fresh_id_def asks_def ret_def)
  have "in_step (push_entry ?e d) s'"
    using entry_pushed [OF trail] patched_sees [OF sees1 invoice_patches(1)] bal id
    unfolding in_step_def s' by (simp add: push_entry_def reconciled_def)
  with entry_pushed [OF trail] out id show ?thesis by (simp add: s' push_entry_def)
qed

lemma in_step_sees: "in_step d s \<Longrightarrow> sees_order s (o_id d) d \<and> entries_ok (w_next_id s) d"
  by (simp add: in_step_def)

text \<open>What both operations do when they succeed.\<close>

definition restated :: "order \<Rightarrow> confirm_dto \<Rightarrow> reconciled_result \<Rightarrow> world \<Rightarrow> world \<Rightarrow> bool" where
  "restated order dto out s s' \<longleftrightarrow> (\<exists>d. rc_order out = Some d \<and> o_id d = o_id order \<and> in_step d s' \<and>
     rc_shortfallLitres out = roundLitres (o_quantityLiters order - ci_quantityLitres (cd_confirmed dto)) \<and>
     invoiced d = rc_shortfallLitres out \<and>
     owed (o_fuelCompanyId order) (o_clientId order) (o_fuelType order) s' =
       owed (o_fuelCompanyId order) (o_clientId order) (o_fuelType order) s - invoiced order + invoiced d)"

lemma confirm_restates:
  assumes ok: "balances_ok s" and scope: "resolveCompanyId (w_scope s) = Inr (Some (o_fuelCompanyId order))"
    and step: "in_step order s" and run: "confirmInvoice order dto a s = (Inr out, s')"
  shows "restated order dto out s s'"
proof -
  from run obtain rc s1 where none: "currentEntry order = None" and grade: "ci_fuelType (cd_confirmed dto) = o_fuelType order"
    and rec: "recordReconciliation (o_fuelCompanyId order) (o_clientId order) (ci_fuelType (cd_confirmed dto)) (o_id order)
       (o_quantityLiters order) (ci_quantityLitres (cd_confirmed dto)) a s = (Inr rc, s1)"
    and entry: "record_entry order dto a rc s1 = (Inr out, s')"
    by (auto simp: confirmInvoice_def assertEligible_def assertGradeMatches_def prog_inv)
  note eff = record_effect [OF scope ok rec [unfolded grade]]
  have zero: "invoiced order = 0" using none by (simp add: invoiced_def)
  have sees: "sees_order s1 (o_id order) order" "entries_ok (w_next_id s1) order"
    using step eff by (auto simp: in_step_def sees_order_def entries_ok_def)
  from record_entry_effect [OF entry sees none] eff step zero show ?thesis
    by (auto simp: restated_def in_step_def owed_def)
qed

lemma replace_restates:
  assumes ok: "balances_ok s" and scope: "resolveCompanyId (w_scope s) = Inr (Some (o_fuelCompanyId order))"
    and step: "in_step order s" and run: "replaceInvoice order dto a s = (Inr out, s')"
  shows "restated order dto out s s'"
proof -
  define f where "f = (case currentEntry order of None \<Rightarrow> (\<lambda>d. d) | Some e \<Rightarrow> supersede (si_id e) (w_now s))"
  let ?s = "w_orders_update (upd_by o_id (o_id order) f) s"
  have same: "same_parties f" by (simp add: f_def invoice_patches split: option.split) (simp add: same_parties_def)
  have sees0: "sees_order s (o_id order) order" and trail0: "entries_ok (w_next_id s) order"
    using in_step_sees [OF step] by auto
  have trail: "entries_ok (w_next_id s) (f order)" "currentEntry (f order) = None"
    using trail0 superseded [OF trail0] by (auto simp: f_def split: option.split)
  have upd: "upd_by o_id i (\<lambda>d. d) = (\<lambda>ds. ds)" for i by (simp add: upd_by_def fun_eq_iff)
  from run have grade: "ci_fuelType (cd_confirmed dto) = o_fuelType order"
    by (auto simp: replaceInvoice_def assertGradeMatches_def prog_inv)
  obtain rc s1 where rec: "restateReconciliation (o_fuelCompanyId order) (o_clientId order) (ci_fuelType (cd_confirmed dto))
       (o_id order) (o_quantityLiters order) (ci_quantityLitres (cd_confirmed dto)) a ?s = (Inr rc, s1)"
    and entry: "record_entry order dto a rc s1 = (Inr out, s')"
  proof (cases "currentEntry order")
    case None
    then have "?s = s" by (simp add: f_def upd)
    with run None grade show thesis
      by (auto simp: replaceInvoice_def assertEligible_def assertGradeMatches_def prog_inv intro: that)
  next
    case (Some e)
    then have mem: "list_ex (\<lambda>x. si_id x = si_id e) (o_supplierInvoices order)"
      by (auto simp: currentEntry_def find_Some_iff list_ex_iff)
    have "update_order (o_id order) (\<lambda>d. list_ex (\<lambda>x. si_id x = si_id e) (o_supplierInvoices d)) f s = (Inr (Some (f order)), ?s)"
      using mem by (intro update_order_run [OF sees0])
    with run Some show thesis
      by (auto simp: replaceInvoice_def f_def bnd_def asks_def ret_def transaction_def assertEligible_def assertGradeMatches_def
          guard_def throw_def split: if_splits prod.splits sum.splits intro: that)
  qed
  have ok1: "balances_ok ?s" using ok by (simp add: balances_ok_def)
  have scope1: "resolveCompanyId (w_scope ?s) = Inr (Some (o_fuelCompanyId order))" using scope by simp
  note eff = restate_effect [OF scope1 ok1 rec [unfolded grade]]
  have f: "o_quantityLiters (f order) = o_quantityLiters order" "o_id (f order) = o_id order" "o_clientId (f order) = o_clientId order"
    "o_fuelCompanyId (f order) = o_fuelCompanyId order" "o_fuelType (f order) = o_fuelType order"
    by (simp_all add: f_def supersede_def split: option.split)
  have "sees_order s1 (o_id order) (f order)" "entries_ok (w_next_id s1) (f order)"
    using patched_sees [OF sees0 same] trail(1) eff by (auto simp: sees_order_def entries_ok_def)
  from record_entry_effect [OF entry this trail(2)] eff step f show ?thesis
    by (auto simp: restated_def in_step_def owed_def reconciled_def)
qed

section \<open>Properties\<close>

text \<open>C13: invoices and balance stay in step.  When an order has at most one current supplier invoice and
  the movements on the client's balance that carry the order's id add up to the shortfall that invoice
  claims, the same holds after confirming or replacing an invoice; on success the recorded invoice is the
  current one and the balance has changed by the new shortfall less the old one, and on any error no
  order and no balance has changed.\<close>

theorem invoice_and_balance_in_step:
  assumes "balances_ok s" and "resolveCompanyId (w_scope s) = Inr (Some (o_fuelCompanyId order))"
    and "in_step order s"
    and "confirmInvoice order dto a s = (r, s') \<or> replaceInvoice order dto a s = (r, s')"
  shows "case r of
      Inl e \<Rightarrow> w_orders s' = w_orders s \<and> w_balances s' = w_balances s
    | Inr out \<Rightarrow> restated order dto out s s'"
proof (cases r)
  case (Inl e)
  with assms(4) show ?thesis
    by (auto simp: confirmInvoice_def replaceInvoice_def assertEligible_def assertGradeMatches_def prog_inv)
next
  case (Inr out)
  with assms show ?thesis using confirm_restates replace_restates by auto
qed

section \<open>A concrete instance\<close>

definition invoice_world :: world where
  "invoice_world = balance_world\<lparr>w_orders := [blank_order],
     w_scope := \<lparr>rs_userId = Some 9, rs_role = Some FUEL_COMPANY_ADMIN, rs_companyId = Some 1, rs_parentFuelCompanyId = None\<rparr>\<rparr>"

definition short_delivery :: confirm_dto where
  "short_delivery = \<lparr>cd_fileId = 77,
     cd_confirmed = \<lparr>ci_quantityLitres = 900, ci_fuelType = DIESEL, ci_reference = ''R1'', ci_issueDate = 0\<rparr>\<rparr>"

theorem invoice_and_balance_in_step_witness:
  "\<exists>out s'. confirmInvoice blank_order short_delivery 9 invoice_world = (Inr out, s') \<and>
     restated blank_order short_delivery out invoice_world s' \<and> rc_shortfallLitres out = 100"
proof -
  have ok: "balances_ok invoice_world"
    using balance_world_ok by (simp add: balances_ok_def invoice_world_def balance_world_def empty_world_def)
  have scope: "resolveCompanyId (w_scope invoice_world) = Inr (Some (o_fuelCompanyId blank_order))"
    by (simp add: invoice_world_def blank_order_def scope_defs)
  have step: "in_step blank_order invoice_world"
    by (simp add: in_step_def sees_order_def entries_ok_def reconciled_def invoiced_def currentEntry_def invoice_world_def
        balance_world_def sample_balance_def blank_order_def empty_world_def scope_defs lb_key_def reconciles_def)
  have "\<not> isl (fst (confirmInvoice blank_order short_delivery 9 invoice_world))" by code_simp
  then obtain out s' where run: "confirmInvoice blank_order short_delivery 9 invoice_world = (Inr out, s')"
    by (blast dest: run_succeeds)
  have "roundLitres (1000 - 900) = 100" by code_simp
  with run invoice_and_balance_in_step [OF ok scope step disjI1, OF run] show ?thesis
    by (auto simp: restated_def short_delivery_def blank_order_def)
qed

end
