(* ===== verification/Ratings.thy ===== *)
theory Ratings
  imports Orders
begin

text \<open>
  Delivery ratings: \<open>modules/ratings/ratings.service.ts\<close> and the unique index of its schema.  A rating and the
  standing of the rated driver are written in one transaction.
\<close>

section \<open>The service\<close>

record submit_rating_input =
  sri_score :: nat
  sri_review :: "string option"

fun rating_matches :: "party_filter \<Rightarrow> delivery_rating \<Rightarrow> bool" where
  "rating_matches (ByFuelCompany f) d \<longleftrightarrow> rt_fuelCompanyId d = f"
| "rating_matches (ByTransporter f t) d \<longleftrightarrow> rt_fuelCompanyId d = f \<and> rt_transportCompanyId d = t"
| "rating_matches (ByClient f c) d \<longleftrightarrow> rt_fuelCompanyId d = f \<and> rt_clientId d = c"
| "rating_matches (ByDriver f u) d \<longleftrightarrow> rt_fuelCompanyId d = f \<and> rt_driverId d = u"

text \<open>\<open>ratingModel.create\<close>: the required fields and the bounds of the schema, the acting fuel company, and
  the unique index on \<open>orderId\<close>.\<close>

definition insert_rating :: "order \<Rightarrow> submit_rating_input \<Rightarrow> delivery_rating service" where
  "insert_rating order input =
     bnd (demand InvalidDocument (o_driverId order)) (\<lambda>driverId.
     bnd (demand InvalidDocument (o_transportCompanyId order)) (\<lambda>transporterId.
     bnd (guard (1 \<le> sri_score input \<and> sri_score input \<le> 5) InvalidDocument) (\<lambda>_.
     bnd (owning_fuel_company (o_fuelCompanyId order)) (\<lambda>f.
     bnd fresh_id (\<lambda>i.
     bnd (asks w_ratings) (\<lambda>ds.
     bnd (guard (\<not> list_ex (\<lambda>d. rt_orderId d = o_id order) ds) DuplicateKey) (\<lambda>_.
     (let rating = \<lparr>rt_id = i, rt_orderId = o_id order, rt_driverId = driverId, rt_clientId = o_clientId order,
            rt_fuelCompanyId = f, rt_transportCompanyId = transporterId, rt_score = sri_score input,
            rt_review = map_option trim (sri_review input)\<rparr>
      in bnd (insert_doc w_ratings_update rating) (\<lambda>_. ret rating)))))))))"

definition bumped_average :: "user \<Rightarrow> nat \<Rightarrow> rat" where
  "bumped_average driver score =
     ((case u_ratingAverage driver of Some a \<Rightarrow> a | None \<Rightarrow> 0) * of_nat (u_ratingCount driver) + of_nat score) /
     of_nat (u_ratingCount driver + 1)"

definition set_standing :: "rat \<Rightarrow> nat \<Rightarrow> user \<Rightarrow> user" where
  "set_standing average n u = u\<lparr>u_ratingAverage := Some average, u_ratingCount := n\<rparr>"

definition bump_standing :: "oid option \<Rightarrow> nat \<Rightarrow> unit service" where
  "bump_standing driverId score =
     bnd (case driverId of None \<Rightarrow> ret None | Some i \<Rightarrow> run_unscoped (find_one w_users u_id user_scoping i)) (\<lambda>found.
     case found of
       None \<Rightarrow> ret ()
     | Some driver \<Rightarrow>
         bnd (run_unscoped (find_and_update w_users w_users_update u_id user_scoping (u_id driver) (\<lambda>_. True)
                (set_standing (bumped_average driver score) (u_ratingCount driver + 1)))) (\<lambda>_. ret ()))"

definition submitRating :: "order \<Rightarrow> submit_rating_input \<Rightarrow> delivery_rating service" where
  "submitRating order input =
     bnd (guard (o_status order = DELIVERED) (Conflict (Some ORDER_NOT_DELIVERED))) (\<lambda>_.
     transaction
       (bnd (try_catch (insert_rating order input)
              (\<lambda>err. if err = DuplicateKey then throw (Conflict (Some ALREADY_RATED)) else throw err)) (\<lambda>rating.
        bnd (bump_standing (o_driverId order) (sri_score input)) (\<lambda>_.
        ret rating))))"

definition findByOrderId :: "oid \<Rightarrow> delivery_rating option service" where
  "findByOrderId orderId = find_one w_ratings rt_orderId (multi_party rating_matches) orderId"

section \<open>The standing of a driver\<close>

definition scores :: "oid \<Rightarrow> delivery_rating list \<Rightarrow> nat list" where
  "scores driverId ds = map rt_score (filter (\<lambda>d. rt_driverId d = driverId) ds)"

definition standing_ok :: "delivery_rating list \<Rightarrow> user \<Rightarrow> bool" where
  "standing_ok ds u \<longleftrightarrow> u_ratingCount u = length (scores (u_id u) ds) \<and>
     (case u_ratingAverage u of
        None \<Rightarrow> u_ratingCount u = 0
      | Some a \<Rightarrow> a * of_nat (u_ratingCount u) = of_nat (sum_list (scores (u_id u) ds)))"

definition ratings_ok :: "world \<Rightarrow> bool" where
  "ratings_ok s \<longleftrightarrow> distinct (map rt_orderId (w_ratings s)) \<and> distinct (map u_id (w_users s)) \<and>
     (\<forall>u \<in> set (w_users s). standing_ok (w_ratings s) u) \<and>
     (\<forall>d \<in> set (w_ratings s). 1 \<le> rt_score d \<and> rt_score d \<le> 5)"

lemma unscoped_user [simp]:
  "run_unscoped (find_one w_users u_id user_scoping i) s = (Inr (get_by u_id i (w_users s)), s)"
  by (auto simp: run_unscoped_def find_one_def scope_defs anonymous_def split: option.splits)

lemma unscoped_update:
  assumes "get_by u_id i (w_users s) = Some u"
  shows "run_unscoped (find_and_update w_users w_users_update u_id user_scoping i (\<lambda>_. True) f) s =
     (Inr (Some (f u)), w_users_update (upd_by u_id i f) s)"
  using assms by (simp add: run_unscoped_def find_and_update_def cas_def scope_defs anonymous_def)

lemma standing_bumped:
  assumes "standing_ok ds u" "rt_driverId d = u_id u"
  shows "standing_ok (ds @ [d]) (set_standing (bumped_average u (rt_score d)) (u_ratingCount u + 1) u)"
proof -
  have "(case u_ratingAverage u of Some a \<Rightarrow> a | None \<Rightarrow> 0) * of_nat (u_ratingCount u) = of_nat (sum_list (scores (u_id u) ds))"
    using assms(1) by (auto simp: standing_ok_def split: option.splits)
  then show ?thesis using assms
    by (simp add: standing_ok_def set_standing_def bumped_average_def scores_def add_eq_0_iff)
qed

lemma standing_other: "standing_ok ds u \<Longrightarrow> rt_driverId d \<noteq> u_id u \<Longrightarrow> standing_ok (ds @ [d]) u"
proof -
  assume "standing_ok ds u" "rt_driverId d \<noteq> u_id u"
  moreover from this(2) have sc: "scores (u_id u) (ds @ [d]) = scores (u_id u) ds" by (simp add: scores_def)
  ultimately show ?thesis unfolding standing_ok_def sc by simp
qed

lemma bump_run:
  assumes "distinct (map u_id (w_users s))" "\<forall>u \<in> set (w_users s). standing_ok ds u" "rt_driverId d = i"
  shows "\<exists>s'. bump_standing (Some i) (rt_score d) s = (Inr (), s') \<and> distinct (map u_id (w_users s')) \<and>
     (\<forall>u \<in> set (w_users s'). standing_ok (ds @ [d]) u) \<and> w_ratings s' = w_ratings s"
proof (cases "get_by u_id i (w_users s)")
  case None
  then have "rt_driverId d \<noteq> u_id u" if "u \<in> set (w_users s)" for u
    using that assms(3) by (auto simp: get_by_None_iff)
  then show ?thesis using None assms by (auto simp: bump_standing_def bnd_def ret_def intro: standing_other)
next
  case (Some u)
  let ?f = "set_standing (bumped_average u (rt_score d)) (u_ratingCount u + 1)"
  let ?s = "w_users_update (upd_by u_id i ?f) s"
  have u: "u_id u = i" "u \<in> set (w_users s)" using Some by (auto dest: get_by_key get_by_mem)
  have run: "bump_standing (Some i) (rt_score d) s = (Inr (), ?s)"
    using Some u unscoped_update [OF Some] by (simp add: bump_standing_def bnd_def ret_def)
  have "standing_ok (ds @ [d]) x" if "x \<in> set (upd_by u_id i ?f (w_users s))" for x
  proof -
    from that obtain y where y: "y \<in> set (w_users s)" "x = (if u_id y = i then ?f y else y)" by (auto simp: upd_by_def)
    show ?thesis
    proof (cases "u_id y = i")
      case True
      then have "y = u" using get_by_distinct [OF assms(1) y(1)] Some by simp
      then show ?thesis using y standing_bumped assms u by simp
    next
      case False
      then show ?thesis using y assms standing_other by simp
    qed
  qed
  moreover have "distinct (map u_id (upd_by u_id i ?f (w_users s)))"
    using assms(1) by (simp add: upd_by_def comp_def set_standing_def if_distrib cong: if_cong)
  ultimately show ?thesis using run by auto
qed

lemma insert_rating_okD:
  assumes "insert_rating order input s = (Inr x, s')"
  shows "o_driverId order = Some (rt_driverId x) \<and> rt_orderId x = o_id order \<and> rt_score x = sri_score input \<and>
    1 \<le> sri_score input \<and> sri_score input \<le> 5 \<and> (\<forall>d \<in> set (w_ratings s). rt_orderId d \<noteq> o_id order) \<and>
    w_ratings s' = w_ratings s @ [x] \<and> w_users s' = w_users s"
  using assms by (auto simp: insert_rating_def prog_inv Let_def owning_fuel_company_def list_ex_iff)

lemma rated_once:
  assumes "list_ex (\<lambda>d. rt_orderId d = o_id order) (w_ratings s)" "submitRating order input s = (r, s')"
  shows "isl r \<and> w_ratings s' = w_ratings s"
proof (cases r)
  case (Inl e)
  with assms(2) show ?thesis by (auto simp: submitRating_def prog_inv)
next
  case (Inr x)
  with assms(2) obtain s1 where "insert_rating order input s = (Inr x, s1)"
    by (auto simp: submitRating_def prog_inv split: if_splits)
  from insert_rating_okD [OF this] assms(1) show ?thesis by (auto simp: list_ex_iff)
qed

section \<open>Properties\<close>

text \<open>C23: a rating is worth exactly its score.  When every driver's average and count are those of the ratings
  written for them, submitting a rating, whether it is accepted or refused, keeps them so; an accepted one was for
  a delivered order that had no rating, and a second one for that order is refused.\<close>

theorem rating_keeps_standing:
  assumes "ratings_ok s" and "submitRating order input s = (r, s')"
  shows "ratings_ok s' \<and>
     (\<forall>x. r = Inr x \<longrightarrow> o_status order = DELIVERED \<and> rt_orderId x = o_id order \<and> w_ratings s' = w_ratings s @ [x] \<and>
        (\<forall>d \<in> set (w_ratings s). rt_orderId d \<noteq> o_id order) \<and>
        (\<forall>input2 r2 s2. submitRating order input2 s' = (r2, s2) \<longrightarrow> isl r2 \<and> w_ratings s2 = w_ratings s'))"
proof (cases r)
  case (Inl e)
  with assms(2) have "w_ratings s' = w_ratings s" "w_users s' = w_users s" by (auto simp: submitRating_def prog_inv)
  with assms(1) Inl show ?thesis by (simp add: ratings_ok_def)
next
  case (Inr x)
  with assms(2) obtain dr s1 where status: "o_status order = DELIVERED"
    and new: "insert_rating order input s = (Inr x, s1)" and dr: "o_driverId order = Some dr"
    and bump: "bump_standing (Some dr) (sri_score input) s1 = (Inr (), s')"
    by (auto simp: submitRating_def prog_inv insert_rating_def split: if_splits)
  note x = insert_rating_okD [OF new]
  have users: "distinct (map u_id (w_users s1))" "\<forall>u \<in> set (w_users s1). standing_ok (w_ratings s) u"
    using assms(1) x by (auto simp: ratings_ok_def)
  have "rt_driverId x = dr" "rt_score x = sri_score input" using x dr by auto
  with bump_run [OF users, of x dr] bump
  have s': "distinct (map u_id (w_users s'))" "\<forall>u \<in> set (w_users s'). standing_ok (w_ratings s @ [x]) u" "w_ratings s' = w_ratings s1"
    by auto
  have "ratings_ok s'" using assms(1) x s' by (auto simp: ratings_ok_def)
  moreover have "isl r2 \<and> w_ratings s2 = w_ratings s'" if "submitRating order input2 s' = (r2, s2)" for input2 r2 s2
  proof -
    have "list_ex (\<lambda>d. rt_orderId d = o_id order) (w_ratings s')" using x s' by simp
    then show ?thesis using that rated_once [of order s' input2 r2 s2] by simp
  qed
  ultimately show ?thesis using Inr status x s' by auto
qed

section \<open>A concrete instance\<close>

definition delivered_order :: order where
  "delivered_order = blank_order\<lparr>o_status := DELIVERED, o_driverId := Some 7, o_transportCompanyId := Some 2\<rparr>"

definition rating_world :: world where
  "rating_world = empty_world\<lparr>w_orders := [delivered_order], w_users := [blank_user, blank_driver]\<rparr>"

theorem rating_keeps_standing_witness:
  "\<exists>x s'. submitRating delivered_order \<lparr>sri_score = 4, sri_review = None\<rparr> rating_world = (Inr x, s') \<and> ratings_ok s' \<and>
     w_ratings s' = [x]"
proof -
  have ok: "ratings_ok rating_world"
    by (simp add: ratings_ok_def rating_world_def standing_ok_def scores_def blank_driver_def blank_user_def empty_world_def)
  have "\<not> isl (fst (submitRating delivered_order \<lparr>sri_score = 4, sri_review = None\<rparr> rating_world))" by code_simp
  then obtain x s' where run: "submitRating delivered_order \<lparr>sri_score = 4, sri_review = None\<rparr> rating_world = (Inr x, s')"
    by (blast dest: run_succeeds)
  from rating_keeps_standing [OF ok run] run show ?thesis by (auto simp: rating_world_def empty_world_def)
qed

end
