(* ===== verification/Assignment_Escalation.thy ===== *)
theory Assignment_Escalation
  imports Orders
begin

text \<open>
  The escalation of an unacknowledged assignment by text message:
  \<open>modules/assignment-escalation/queues/assignment-escalation.processor.ts\<close>.  The job runs without a request scope.
  The SMS provider is the parameter \<open>accepts\<close>: whether it takes a message for a number; the run returns the messages
  handed to it.  \<open>hex\<close> renders an object id.
\<close>

section \<open>The job\<close>

definition is_digit :: "char \<Rightarrow> bool" where
  "is_digit c \<longleftrightarrow> (let n = of_char c :: nat in 48 \<le> n \<and> n \<le> 57)"

text \<open>\<open>/^\+[1-9]\d{7,14}$/\<close>\<close>

fun E164_PATTERN :: "string \<Rightarrow> bool" where
  "E164_PATTERN (p # d # rest) \<longleftrightarrow> p = CHR ''+'' \<and> is_digit d \<and> d \<noteq> CHR ''0'' \<and>
     7 \<le> length rest \<and> length rest \<le> 14 \<and> list_all is_digit rest"
| "E164_PATTERN _ \<longleftrightarrow> False"

definition upper :: "char \<Rightarrow> char" where
  "upper c = (let n = of_char c :: nat in if 97 \<le> n \<and> n \<le> 122 then char_of (n - 32) else c)"

definition reference_of :: "string \<Rightarrow> string" where
  "reference_of i = map upper (drop (length i - 6) i)"

definition escalation_text :: "string \<Rightarrow> string" where
  "escalation_text reference = ''Ciro: You have a new delivery assignment (ref '' @ reference @ ''). Open the app to view it.''"

definition not_applicable :: "order \<Rightarrow> bool" where
  "not_applicable order \<longleftrightarrow> o_assignmentAcknowledgedAt order \<noteq> None \<or> o_driverId order = None \<or> o_status order = CANCELLED"

definition set_skipped :: "escalation_skip_reason \<Rightarrow> order \<Rightarrow> order" where
  "set_skipped reason d = d\<lparr>o_assignmentEscalationSkippedReason := Some reason\<rparr>"

definition set_sms_sent :: "instant \<Rightarrow> order \<Rightarrow> order" where
  "set_sms_sent now d = d\<lparr>o_assignmentEscalationSmsAt := Some now\<rparr>"

definition send_escalation :: "(string \<Rightarrow> string \<Rightarrow> bool) \<Rightarrow> (oid \<Rightarrow> string) \<Rightarrow> order \<Rightarrow> string \<Rightarrow> (string \<times> string) list service" where
  "send_escalation accepts hex order phone =
     (let message = escalation_text (reference_of (hex (o_id order))) in
      if accepts phone message
      then bnd (asks w_now) (\<lambda>now.
           bnd (update_order (o_id order) (\<lambda>_. True) (set_sms_sent now)) (\<lambda>_. ret [(phone, message)]))
      else bnd (update_order (o_id order) (\<lambda>_. True) (set_skipped SEND_FAILED)) (\<lambda>_. ret [(phone, message)]))"

definition escalateAssignment ::
  "(string \<Rightarrow> string \<Rightarrow> bool) \<Rightarrow> (oid \<Rightarrow> string) \<Rightarrow> oid \<Rightarrow> (string \<times> string) list service" where
  "escalateAssignment accepts hex orderId =
     bnd (find_order orderId) (\<lambda>found.
     case found of
       None \<Rightarrow> ret []
     | Some order \<Rightarrow>
         if not_applicable order then ret []
         else
           bnd (case o_driverId order of None \<Rightarrow> ret None | Some i \<Rightarrow> find_one w_users u_id user_scoping i) (\<lambda>driver.
           case (case driver of None \<Rightarrow> None | Some u \<Rightarrow> if E164_PATTERN (u_phone u) then Some (u_phone u) else None) of
             None \<Rightarrow> bnd (update_order (o_id order) (\<lambda>_. True) (set_skipped NO_PHONE)) (\<lambda>_. ret [])
           | Some phone \<Rightarrow> send_escalation accepts hex order phone))"

section \<open>Who is texted\<close>

text \<open>The order awaits an acknowledgment of a driver who can be texted at \<open>phone\<close>.\<close>

definition awaits_text :: "oid \<Rightarrow> order \<Rightarrow> string \<Rightarrow> world \<Rightarrow> bool" where
  "awaits_text i d phone s \<longleftrightarrow> get_by o_id i (w_orders s) = Some d \<and> \<not> not_applicable d \<and>
     (\<exists>u. get_by u_id (the (o_driverId d)) (w_users s) = Some u \<and> u_phone u = phone \<and> E164_PATTERN phone)"

lemma unscoped_reads:
  assumes "rs_role (w_scope s) = None"
  shows "find_order i s = (Inr (get_by o_id i (w_orders s)), s)"
    "find_one w_users u_id user_scoping j s = (Inr (get_by u_id j (w_users s)), s)"
    "update_order i (\<lambda>_. True) f s = (Inr (map_option f (get_by o_id i (w_orders s))),
       if get_by o_id i (w_orders s) = None then s else w_orders_update (upd_by o_id i f) s)"
  using assms by (auto simp: find_order_def find_one_def update_order_def find_and_update_def cas_def scope_defs
      split: option.splits)

lemma escalation_texts:
  assumes "rs_role (w_scope s) = None" "awaits_text i d phone s"
  shows "escalateAssignment accepts hex i s =
    (let message = escalation_text (reference_of (hex i));
         f = (if accepts phone message then set_sms_sent (w_now s) else set_skipped SEND_FAILED)
     in (Inr [(phone, message)], w_orders_update (upd_by o_id i f) s))"
proof -
  have id: "o_id d = i" using assms(2) by (auto simp: awaits_text_def dest: get_by_key)
  from assms(2) obtain k u where u: "o_driverId d = Some k" "get_by u_id k (w_users s) = Some u" "u_phone u = phone" "E164_PATTERN phone"
    and d: "get_by o_id i (w_orders s) = Some d" "\<not> not_applicable d"
    by (auto simp: awaits_text_def not_applicable_def)
  then show ?thesis using id
    by (simp add: escalateAssignment_def send_escalation_def bnd_def unscoped_reads [OF assms(1)] asks_def ret_def Let_def)
qed

lemma escalation_silent:
  assumes "rs_role (w_scope s) = None" "\<And>d phone. \<not> awaits_text i d phone s"
  shows "\<exists>s'. escalateAssignment accepts hex i s = (Inr [], s') \<and>
    (s' = s \<or> s' = w_orders_update (upd_by o_id i (set_skipped NO_PHONE)) s)"
proof (cases "get_by o_id i (w_orders s)")
  case (Some d)
  show ?thesis
  proof (cases "not_applicable d")
    case False
    then obtain k where k: "o_driverId d = Some k" by (auto simp: not_applicable_def)
    have "(case get_by u_id k (w_users s) of None \<Rightarrow> None
        | Some u \<Rightarrow> if E164_PATTERN (u_phone u) then Some (u_phone u) else None) = None"
      using assms(2) [of d] Some False k by (auto simp: awaits_text_def split: option.splits)
    moreover have "o_id d = i" using Some by (rule get_by_key)
    ultimately show ?thesis using Some False k
      by (simp add: escalateAssignment_def bnd_def unscoped_reads [OF assms(1)] ret_def)
  qed (simp add: escalateAssignment_def bnd_def unscoped_reads [OF assms(1)] ret_def Some)
qed (simp add: escalateAssignment_def bnd_def unscoped_reads [OF assms(1)] ret_def)

section \<open>Properties\<close>

text \<open>The escalation texts exactly the driver who has yet to acknowledge: one message, to the number on file now,
  when the order exists, is not acknowledged, has a driver, is not cancelled and the number is valid; nothing otherwise.
  But a job that is delivered again texts again, since what the first delivery recorded is not looked at.\<close>

theorem escalation_texts_every_delivery:
  assumes "rs_role (w_scope s) = None" and "escalateAssignment accepts hex i s = (r, s')"
  shows "(\<exists>messages. r = Inr messages \<and>
       (messages \<noteq> [] \<longleftrightarrow> (\<exists>d phone. awaits_text i d phone s)) \<and>
       (\<forall>d phone. awaits_text i d phone s \<longrightarrow> messages = [(phone, escalation_text (reference_of (hex i)))])) \<and>
     fst (escalateAssignment accepts hex i s') = r"
proof (cases "\<exists>d phone. awaits_text i d phone s")
  case True
  then obtain d phone where w: "awaits_text i d phone s" by blast
  let ?m = "escalation_text (reference_of (hex i))"
  define f where "f = (if accepts phone ?m then set_sms_sent (w_now s) else set_skipped SEND_FAILED)"
  have run: "r = Inr [(phone, ?m)]" "s' = w_orders_update (upd_by o_id i f) s"
    using assms(2) escalation_texts [OF assms(1) w, of accepts hex] by (simp_all add: Let_def f_def)
  have f: "o_id (f x) = o_id x" "not_applicable (f x) = not_applicable x" "o_driverId (f x) = o_driverId x" for x
    by (simp_all add: f_def set_sms_sent_def set_skipped_def not_applicable_def)
  have "awaits_text i (f d) phone s'" using w by (simp add: awaits_text_def run get_by_upd_by f)
  moreover have "rs_role (w_scope s') = None" using assms(1) run by simp
  ultimately have "fst (escalateAssignment accepts hex i s') = r"
    using escalation_texts [of s' i "f d" phone accepts hex] run by (simp add: Let_def)
  moreover have same: "\<forall>d' phone'. awaits_text i d' phone' s \<longrightarrow> [(phone, ?m)] = [(phone', ?m)]"
    using w by (auto simp: awaits_text_def)
  have "\<exists>messages. r = Inr messages \<and> (messages \<noteq> [] \<longleftrightarrow> (\<exists>d phone. awaits_text i d phone s)) \<and>
      (\<forall>d phone. awaits_text i d phone s \<longrightarrow> messages = [(phone, ?m)])"
    by (rule exI [of _ "[(phone, ?m)]"], intro conjI) (use run True same in blast)+
  ultimately show ?thesis by blast
next
  case False
  then have none: "\<not> awaits_text i d phone s" for d phone by blast
  from escalation_silent [OF assms(1) none, of accepts hex] assms(2)
  have run: "r = Inr []" "s' = s \<or> s' = w_orders_update (upd_by o_id i (set_skipped NO_PHONE)) s" by auto
  have "\<not> awaits_text i d phone s'" for d phone
  proof
    assume d: "awaits_text i d phone s'"
    show False
    proof (cases "s' = s")
      case False
      with run d obtain y where "get_by o_id i (w_orders s) = Some y" "d = set_skipped NO_PHONE y"
        by (auto simp: awaits_text_def get_by_upd_by set_skipped_def)
      with d False run have "awaits_text i y phone s" by (auto simp: awaits_text_def set_skipped_def not_applicable_def)
      with none show False by blast
    qed (use d none in blast)
  qed
  moreover have "rs_role (w_scope s') = None" using run assms(1) by auto
  ultimately have "fst (escalateAssignment accepts hex i s') = r"
    using escalation_silent [of s' i accepts hex] run by auto
  with none run show ?thesis by simp
qed

section \<open>A concrete instance\<close>

definition texting_world :: world where
  "texting_world = empty_world\<lparr>w_orders := [blank_order\<lparr>o_status := ASSIGNED_TO_DRIVER, o_driverId := Some 7\<rparr>],
     w_users := [blank_driver\<lparr>u_phone := ''+966500000000''\<rparr>]\<rparr>"

theorem escalation_texts_every_delivery_witness:
  "\<exists>m s' s''. escalateAssignment (\<lambda>_ _. True) (\<lambda>_. ''65f0c0ffee'') 10 texting_world = (Inr [(''+966500000000'', m)], s') \<and>
     escalateAssignment (\<lambda>_ _. True) (\<lambda>_. ''65f0c0ffee'') 10 s' = (Inr [(''+966500000000'', m)], s'')"
proof -
  obtain r s' where run: "escalateAssignment (\<lambda>_ _. True) (\<lambda>_. ''65f0c0ffee'') 10 texting_world = (r, s')"
    by (cases "escalateAssignment (\<lambda>_ _. True) (\<lambda>_. ''65f0c0ffee'') 10 texting_world")
  have scope: "rs_role (w_scope texting_world) = None" by (simp add: texting_world_def empty_world_def anonymous_def)
  have "\<exists>d. awaits_text 10 d ''+966500000000'' texting_world"
    by (simp add: awaits_text_def texting_world_def empty_world_def blank_order_def blank_driver_def not_applicable_def
        is_digit_def Let_def)
  with escalation_texts_every_delivery [OF scope run] run show ?thesis
    by (cases "escalateAssignment (\<lambda>_ _. True) (\<lambda>_. ''65f0c0ffee'') 10 s'") auto
qed

end
