(* ===== verification/Lifecycle.thy ===== *)
theory Lifecycle
  imports Payments Vehicles Stop_Detection Supplier_Invoices Ratings Assignment_Escalation
begin

text \<open>
  The life of an order across the services.  \<open>lifecycle_frame\<close> is the contract of a predicate that survives the
  transitions of the table and the patches that leave a status alone; here every service that writes orders is shown
  to keep such a predicate.  The abstract machine below knows orders only by their status; the services simulate it.
\<close>

section \<open>Bodies of the transactions\<close>

context lifecycle_frame
begin

lemma keeps_move: "order_patch f \<Longrightarrow> keeps P (transition i src to actor (with_extra f))"
  by (rule fr_transition) simp

lemma keeps_plain_move: "keeps P (transition i src to actor no_options)"
  by (rule fr_transition) simp

lemma keeps_book_all: "keeps P (book_all d dr tr tn w b rs)"
  unfolding book_all_def
  by (intro keeps_bnd keeps_basic keeps_booked keeps_check_tank keeps_run_unscoped keeps_reads keeps_move fr_scope)
    (simp_all add: set_assignment_fields)

lemma keeps_route_body: "keeps P (bnd (transition i st ROUTED_TO_TRANSPORT actor (with_extra (set_transporter t)))
    (\<lambda>routed. awaitClientSettlement routed fee actor))"
  unfolding awaitClientSettlement_def
  by (intro keeps_bnd keeps_basic keeps_move keeps_issueInvoice) simp_all

lemma keeps_pay_body: "keeps P (bnd (settleInvoiceForOrder i ref) (\<lambda>_. transition i PENDING_PAYMENT ROUTED_TO_TRANSPORT
    SYSTEM_ACTOR (with_extra (set_confirmation e))))"
  by (intro keeps_bnd keeps_settle keeps_move) (simp add: order_patch_def set_confirmation_def)

lemma keeps_expiry_body: "keeps P (bnd (release_driver i r) (\<lambda>_. transition i PENDING_PAYMENT APPROVED
    SYSTEM_ACTOR (with_extra (set_timed_out d))))"
proof -
  have "keeps P (release_driver i r)" by (rule keeps_release; erule fr_users fr_trucks fr_tanks fr_scope)
  then show ?thesis by (intro keeps_bnd keeps_move) (simp_all add: order_patch_def set_timed_out_def)
qed

lemma keeps_attempt_body: "keeps P (bnd (update_order i Q (push_verification v)) (\<lambda>_.
    if \<not> b then ret d else if c then transition i ASSIGNED_TO_DRIVER LOADING actor no_options
    else bnd (find_order i) (demand NotFound)))"
  by (intro keeps_bnd keeps_if keeps_basic keeps_status_patch keeps_plain_move keeps_find_order)
    (simp add: order_patch_def push_verification_def)

lemma keeps_reconciliation:
  "keeps P (recordReconciliation c u t i q x a)" "keeps P (restateReconciliation c u t i q x a)"
proof -
  have ens: "keeps P (ensure_balance c u t)" unfolding ensure_balance_def
    by (intro keeps_bnd keeps_findOrNull keeps_option keeps_basic keeps_if keeps_tenant_key keeps_fresh_id keeps_insert_doc fr_next fr_balances)
  show 1: "keeps P (recordReconciliation c u t i q x a)" unfolding recordReconciliation_def getBalanceLitres_def Let_def
    by (intro keeps_bnd ens keeps_findOrNull keeps_option keeps_basic keeps_if keeps_tenant_key keeps_new_movement
        keeps_find_and_update fr_balances)
  show "keeps P (restateReconciliation c u t i q x a)" unfolding restateReconciliation_def
    by (intro keeps_bnd 1 keeps_findOrNull keeps_option keeps_basic keeps_find_and_update fr_balances)
qed

lemma keeps_record_entry: "keeps P (record_entry d dto a rc)"
proof -
  have "order_patch (push_entry e)" for e by (simp add: order_patch_def push_entry_def)
  then show ?thesis unfolding record_entry_def
    by (intro keeps_bnd keeps_basic keeps_fresh_id keeps_status_patch fr_next)
qed

lemma keeps_supersede_step: "keeps P (case y of None \<Rightarrow> ret () | Some e \<Rightarrow> bnd (asks w_now) (\<lambda>now.
    bnd (update_order i (\<lambda>d. list_ex (\<lambda>z. si_id z = si_id e) (o_supplierInvoices d)) (supersede (si_id e) now)) (\<lambda>_. ret ())))"
  by (intro keeps_option keeps_bnd keeps_basic keeps_status_patch) (simp add: order_patch_def supersede_def)

end

section \<open>The services\<close>

context lifecycle_frame
begin

lemma keeps_company_admins: "keeps P (company_admins c r)"
  unfolding company_admins_def by (intro keeps_bnd keeps_tenant_key keeps_reads)

lemma keeps_notify_each: "keeps P (notify_each c us t i)"
  unfolding notify_each_def by (intro keeps_for_each keeps_notify)

lemma keeps_assignDriver: "keeps P (assignDriver geo i dr tr tn rs)"
proof -
  have near: "keeps P (findNearestSupplying geo p t)" for p t
    unfolding findNearestSupplying_def by (intro keeps_bnd keeps_reads keeps_basic keeps_option keeps_if)
  have tx: "keeps P (transaction (book_all d dr tr tn w b rs))" for d w b
    by (intro keeps_transaction keeps_book_all floor_life.keeps_book_all)
  have ann: "keeps P (announce_assignment d x)" for d x
    unfolding announce_assignment_def by (intro keeps_bnd keeps_notify keeps_basic keeps_queues)
  show ?thesis unfolding assignDriver_def Let_def
    by (intro keeps_bnd keeps_find_order keeps_basic keeps_reads near keeps_try_catch tx keeps_if ann)
qed

lemma keeps_routeOrder: "keeps P (routeOrder geo d actor st ch)"
proof -
  have hold: "keeps P (hold_unrouted d actor st cs)" for cs
    unfolding hold_unrouted_def notifyUnroutable_def
    by (intro keeps_bnd keeps_if keeps_basic keeps_plain_move keeps_company_admins keeps_notify_each)
  have ann: "keeps P (announce_routed y t)" for y t
    unfolding announce_routed_def notifyRouted_def notifyClientPriceReady_def
    by (intro keeps_bnd keeps_if keeps_basic keeps_company_admins keeps_notify_each keeps_notify keeps_queues keeps_find_order)
  have fee: "keeps P (feeForCompany geo t target ft)" for t target ft
    by (rule feeForCompany_state)
  have go: "keeps P (route_to geo d actor st station t)" for station t
    unfolding route_to_def
    by (intro keeps_bnd fee ann keeps_transaction keeps_route_body floor_life.keeps_route_body)
  have serving: "keeps P (findServingTransporters c r)" for c r
    unfolding findServingTransporters_def by (intro keeps_bnd keeps_reads keeps_basic)
  show ?thesis unfolding routeOrder_def resolve_transporter_def
    by (intro keeps_bnd keeps_reads keeps_basic serving keeps_option hold go)
qed

lemma keeps_timeOut: "keeps P (timeOut i)"
proof -
  have "keeps P (notifyTimeout d)" for d
    unfolding notifyTimeout_def by (intro keeps_bnd keeps_company_admins keeps_notify keeps_notify_each)
  then show ?thesis unfolding timeOut_def
    by (intro keeps_bnd keeps_find_order keeps_option keeps_basic keeps_if keeps_try_catch keeps_transaction
        keeps_expiry_body floor_life.keeps_expiry_body)
qed

lemma keeps_verifyVehicle: "keeps P (verifyVehicle metres i actor cr me loc)"
proof -
  have cred: "keeps P (first_truck cs)" for cs
    by (induction cs) (auto intro!: keeps_bnd keeps_option simp: find_truck_by_def)
  have "keeps P (judge_attempt metres i actor cr me loc)"
    unfolding judge_attempt_def Let_def resolveCredential_def measureAgainstWarehouse_def find_truck_by_def
    by (intro keeps_bnd keeps_find_order keeps_basic keeps_reads keeps_if cred)
  moreover have "keeps P (record_attempt d actor v)" for d v
    unfolding record_attempt_def
    by (intro keeps_transaction keeps_attempt_body floor_life.keeps_attempt_body)
  ultimately show ?thesis unfolding verifyVehicle_def by (auto intro!: keeps_bnd split: prod.split)
qed

lemma keeps_supplier_invoices: "keeps P (confirmInvoice d dto a)" "keeps P (replaceInvoice d dto a)"
proof -
  have "keeps P (assertEligible d)" "keeps P (assertGradeMatches d c)" for c
    by (simp_all add: assertEligible_def assertGradeMatches_def)
  note step = this keeps_bnd keeps_basic keeps_transaction keeps_reconciliation keeps_record_entry keeps_supersede_step
    floor_life.keeps_reconciliation floor_life.keeps_record_entry floor_life.keeps_supersede_step
  show "keeps P (confirmInvoice d dto a)" unfolding confirmInvoice_def by (intro step)
  show "keeps P (replaceInvoice d dto a)" unfolding replaceInvoice_def by (intro step)
qed

lemma keeps_escalateAssignment: "keeps P (escalateAssignment accepts hex i)"
proof -
  have patch: "keeps P (update_order i Q (set_skipped r))" "keeps P (update_order i Q (set_sms_sent t))" for i Q r t
    by (rule keeps_status_patch, simp add: order_patch_def set_skipped_def set_sms_sent_def)+
  show ?thesis unfolding escalateAssignment_def send_escalation_def Let_def
    by (intro keeps_bnd keeps_find_order keeps_option keeps_if keeps_basic keeps_reads patch)
qed

lemma keeps_stops:
  "keeps P detectStalledDeliveries" "keeps P (declareStop i u inp n)" "keeps P (reportBlocked i u inp)"
  "keeps P (submitReason i u k inp)" "keeps P (resolveByAdmin i k u)" "keeps P (escalateStop k i)"
proof -
  have patch: "keeps P (update_order i Q (push_stop e))" "keeps P (update_order i Q (amend_stop R f))" for i Q e R f
    by (rule keeps_status_patch, simp add: order_patch_def push_stop_def amend_stop_def)+
  have ad: "keeps P (transporter_admins d)" for d
    unfolding transporter_admins_def by (intro keeps_bnd keeps_basic keeps_reads)
  have rq: "keeps P (requireOrder i)" for i
    unfolding requireOrder_def by (intro keeps_bnd keeps_find_order keeps_basic)
  have ex: "keeps P (explainDeclineRefusal i u)" "keeps P (explainReasonRefusal i u k)" for i
    unfolding explainDeclineRefusal_def explainReasonRefusal_def by (intro keeps_bnd keeps_find_order keeps_basic)+
  note step = keeps_bnd keeps_basic keeps_reads keeps_fresh_id fr_next patch keeps_option keeps_if keeps_find_order
    keeps_notify keeps_queues keeps_notify_each ad rq ex
  have "keeps P (raiseStopFor d j)" for d j unfolding raiseStopFor_def by (intro step)
  then show "keeps P detectStalledDeliveries" unfolding detectStalledDeliveries_def by (intro step keeps_for_each)
  show "keeps P (declareStop i u inp n)" unfolding declareStop_def by (intro step)
  show "keeps P (reportBlocked i u inp)" unfolding reportBlocked_def by (intro step)
  show "keeps P (submitReason i u k inp)" unfolding submitReason_def by (intro step)
  show "keeps P (resolveByAdmin i k u)" unfolding resolveByAdmin_def by (intro step)
  show "keeps P (escalateStop k i)" unfolding escalateStop_def by (intro step)
qed

end

text \<open>The webhook also writes payment events, a rating the collection of ratings.\<close>

locale record_frame = lifecycle_frame +
  assumes fr_events: "P s \<Longrightarrow> P (w_events_update g s)"
    and fr_ratings: "P s \<Longrightarrow> P (w_ratings_update g' s)"
begin

lemma keeps_rating_body:
  "keeps P (bnd (try_catch (insert_rating d inp) h) (\<lambda>r. bnd (bump_standing dr n) (\<lambda>_. ret r)))" if "\<And>e. keeps P (h e)"
proof -
  have ins: "keeps P (insert_rating d inp)" unfolding insert_rating_def Let_def
    by (intro keeps_bnd keeps_basic keeps_owning keeps_fresh_id keeps_insert_doc fr_next fr_ratings)
  have "keeps P (bump_standing dr n)" unfolding bump_standing_def
    by (intro keeps_bnd keeps_option keeps_basic keeps_run_unscoped keeps_reads keeps_find_and_update fr_scope fr_users)
  then show ?thesis by (intro keeps_bnd keeps_try_catch ins that keeps_basic)
qed

end

interpretation floor_records: record_frame "id_floor n"
  by unfold_locales (simp_all add: id_floor_def)

context record_frame
begin

lemma keeps_submitRating: "keeps P (submitRating d inp)"
  unfolding submitRating_def
  by (intro keeps_bnd keeps_basic keeps_transaction keeps_rating_body floor_records.keeps_rating_body keeps_if)

lemma keeps_event: "keeps P (create_event gw dto c cl oc)" "keeps P (markOutcome e oc)"
proof -
  show "keeps P (create_event gw dto c cl oc)" unfolding create_event_def
    by (intro keeps_bnd keeps_basic keeps_tenant_key keeps_fresh_id keeps_insert_doc fr_next fr_events)
  show "keeps P (markOutcome e oc)" unfolding markOutcome_def
    by (intro keeps_bnd keeps_basic keeps_find_and_update fr_events)
qed

lemma keeps_handleWebhook: "keeps P (handleWebhook hmac secret gw dto body sig)"
proof -
  have rec: "keeps P (recordEvent gw dto oc c)" for oc c
    unfolding recordEvent_def by (auto intro!: keeps_try_catch keeps_bnd keeps_event keeps_fresh_id fr_next split: option.split)
  have adm: "keeps P (notifyAdmins d ty)" for d ty
    unfolding notifyAdmins_def by (intro keeps_bnd keeps_company_admins keeps_notify_each)
  have "keeps P (apply_event d dto e)" for d e
    unfolding apply_event_def confirm_payment_def
    by (intro keeps_if keeps_bnd keeps_basic keeps_event adm keeps_try_catch keeps_transaction keeps_pay_body
        floor_life.keeps_pay_body keeps_queues keeps_notify)
  then show ?thesis unfolding handleWebhook_def
    by (intro keeps_if keeps_bnd rec keeps_basic keeps_find_order keeps_try_catch keeps_event keeps_option)
qed

end

section \<open>The abstract machine\<close>

text \<open>An order is known by its status alone: it is opened pending approval, and it moves along an edge of the
  table, the overriding edges included.\<close>

inductive lc_step :: "(oid \<rightharpoonup> order_status) \<Rightarrow> (oid \<rightharpoonup> order_status) \<Rightarrow> bool" where
  opened: "m i = None \<Longrightarrow> lc_step m (m(i \<mapsto> PENDING_APPROVAL))"
| moved: "m i = Some st \<Longrightarrow> legal_edge st st' ov \<Longrightarrow> lc_step m (m(i \<mapsto> st'))"

inductive_cases lc_stepE: "lc_step m m'"

definition statuses :: "world \<Rightarrow> oid \<rightharpoonup> order_status" where
  "statuses s i = map_option o_status (get_by o_id i (w_orders s))"

definition simulated_from :: "(oid \<rightharpoonup> order_status) \<Rightarrow> world \<Rightarrow> bool" where
  "simulated_from m s \<longleftrightarrow> orders_ok s \<and> lc_step\<^sup>*\<^sup>* m (statuses s)"

lemma simulated_same: "simulated_from m s \<Longrightarrow> orders_ok s' \<Longrightarrow> statuses s' = statuses s \<Longrightarrow> simulated_from m s'"
  by (simp add: simulated_from_def)

lemma simulated_frame:
  assumes "simulated_from m s" "w_orders s' = w_orders s" "w_next_id s \<le> w_next_id s'"
  shows "simulated_from m s'"
proof (rule simulated_same [OF assms(1)])
  show "orders_ok s'" using assms by (simp add: simulated_from_def orders_ok_frame [of s])
  show "statuses s' = statuses s" using assms(2) by (simp add: statuses_def [abs_def])
qed

lemma statuses_patch: "order_patch f \<Longrightarrow> statuses (w_orders_update (upd_by o_id i f) s) = statuses s"
  by (rule ext) (auto simp: statuses_def get_by_upd_by order_patch_def option.map_comp comp_def)

lemma simulated_patch:
  "order_patch f \<Longrightarrow> simulated_from m s \<Longrightarrow> simulated_from m (w_orders_update (upd_by o_id i f) s)"
  by (rule simulated_same) (simp_all add: statuses_patch orders_ok_patched simulated_from_def)

lemma statuses_new:
  "i \<notin> o_id ` set (w_orders s) \<Longrightarrow>
     statuses (w_orders_update (\<lambda>ds. ds @ [new_order i f now fs]) s) = (statuses s)(i \<mapsto> PENDING_APPROVAL)"
  by (rule ext) (auto simp: statuses_def get_by_snoc new_order_def get_by_None_iff [symmetric] split: option.split)

lemma simulated_transition:
  assumes extra: "order_patch (tr_extra opts)"
  shows "keeps (simulated_from m) (transition i src to actor opts)"
proof (rule keepsI)
  fix s r s' assume sim: "simulated_from m s" and run: "transition i src to actor opts s = (r, s')"
  have ok: "orders_ok s'" using keepsD [OF transition_orders_ok [OF extra] run] sim by (simp add: simulated_from_def)
  show "simulated_from m s'"
  proof (cases r)
    case (Inl e)
    with run sim show ?thesis by (auto dest: transition_errD)
  next
    case (Inr d')
    let ?f = "apply_transition opts (history_entry src to actor opts (w_now s))"
    from run [unfolded Inr] obtain d es where d: "get_by o_id i (w_orders s) = Some d" "o_status d = src"
        "legal_edge src to (tr_manualOverride opts)"
      and s': "s' = (w_orders_update (upd_by o_id i ?f) s)\<lparr>w_emits := w_emits s @ es\<rparr>"
      by (rule transition_okD)
    have fields: "o_id (?f x) = o_id x" "o_status (?f x) = to" for x
      by (simp_all add: apply_transition_fields [OF extra] history_entry_def)
    have "statuses s' = (statuses s)(i \<mapsto> to)"
      by (rule ext) (simp add: statuses_def s' get_by_upd_by fields d(1))
    moreover have "lc_step (statuses s) ((statuses s)(i \<mapsto> to))"
      by (rule lc_step.moved [OF _ d(3)]) (simp add: statuses_def d(1,2))
    ultimately show ?thesis using sim ok by (auto simp: simulated_from_def intro: rtranclp.rtrancl_into_rtrancl)
  qed
qed

interpretation sim: order_source "simulated_from m"
proof unfold_locales
  fix s i f assume "order_patch f" "simulated_from m s"
  then show "simulated_from m (w_orders_update (upd_by o_id i f) s)" by (rule simulated_patch)
next
  fix s i f assume "detail_patch f" and s: "simulated_from m s"
  then have "order_patch f" unfolding detail_patch_def by blast
  then show "simulated_from m (w_orders_update (upd_by o_id i f) s)" using s by (rule simulated_patch)
next
  fix s i owner now fs assume s: "simulated_from m s" "i < w_next_id s" "i \<notin> o_id ` set (w_orders s)"
  then have "orders_ok (w_orders_update (\<lambda>ds. ds @ [new_order i owner now fs]) s)"
    by (simp add: insert_new_orders_ok simulated_from_def)
  moreover have "statuses s i = None" using s(3) by (simp add: statuses_def get_by_None_iff)
  then have "lc_step (statuses s) ((statuses s)(i \<mapsto> PENDING_APPROVAL))" by (rule lc_step.opened)
  ultimately show "simulated_from m (w_orders_update (\<lambda>ds. ds @ [new_order i owner now fs]) s)"
    using s by (auto simp: simulated_from_def statuses_new intro: rtranclp.rtrancl_into_rtrancl)
next
  fix s :: world assume "simulated_from m s"
  then show "w_next_id s \<notin> o_id ` set (w_orders s)" by (simp add: simulated_from_def orders_life.fr_fresh)
qed (erule simulated_frame; simp | rule simulated_transition, assumption)+

interpretation sim_records: record_frame "simulated_from m"
  by unfold_locales (erule simulated_frame; simp)+

end
