(* ===== verification/Orders_Controller.thy ===== *)
theory Orders_Controller
  imports Lifecycle Ratings
begin

text \<open>
  The HTTP layer of orders: \<open>modules/orders/orders.controller.ts\<close>, with the role guard, the interceptor that sets the
  acting scope, and the arrival estimate of \<open>modules/orders/eta.service.ts\<close>.  Authentication has produced the
  acting user.  Rate limits, the upload of a document and the road route of the map provider are not modelled.
\<close>

definition actor_of :: "authenticated_user \<Rightarrow> transition_actor" where
  "actor_of user = \<lparr>ta_actorId = au_userId user, ta_actorRole = au_role user\<rparr>"

section \<open>The shape of an order for a role\<close>

record supplier_invoice_view =
  sv_fileId :: oid
  sv_extracted :: "extracted_invoice_data option"
  sv_confirmed :: confirmed_invoice_data
  sv_confirmedBy :: "oid option"
  sv_confirmedAt :: "instant option"
  sv_orderedQuantityLitres :: rat
  sv_suppliedQuantityLitres :: rat
  sv_proportionFulfilled :: rat
  sv_shortfallLitres :: rat

definition buildSupplierInvoiceView :: "order \<Rightarrow> authenticated_user \<Rightarrow> supplier_invoice_view option" where
  "buildSupplierInvoiceView order user =
     (if au_role user \<noteq> FUEL_COMPANY_ADMIN \<and> au_role user \<noteq> SUPER_ADMIN then None
      else (case find is_current (o_supplierInvoices order) of
          None \<Rightarrow> None
        | Some current \<Rightarrow> (case si_confirmed current of
            None \<Rightarrow> None
          | Some confirmed \<Rightarrow>
              (let ordered = o_quantityLiters order; supplied = ci_quantityLitres confirmed
               in Some \<lparr>sv_fileId = si_fileId current, sv_extracted = si_extracted current, sv_confirmed = confirmed,
                    sv_confirmedBy = si_confirmedBy current, sv_confirmedAt = si_confirmedAt current,
                    sv_orderedQuantityLitres = ordered, sv_suppliedQuantityLitres = supplied,
                    sv_proportionFulfilled = (if ordered > 0 then supplied / ordered else 0),
                    sv_shortfallLitres = ordered - supplied\<rparr>))))"

text \<open>A reply is an object with keys deleted: \<open>osh_deleted\<close> names them, and their slots in \<open>osh_base\<close> hold fixed
  values that carry nothing.\<close>

record order_shape =
  osh_base :: order
  osh_deleted :: "string list"
  osh_supplierInvoice :: "supplier_invoice_view option"

definition redact_entry :: "status_history_entry \<Rightarrow> status_history_entry" where
  "redact_entry entry = entry\<lparr>sh_overrideReason := None, sh_actorId := 0, sh_actorRole := CLIENT\<rparr>"

definition delete_internals :: "order \<Rightarrow> order" where
  "delete_internals base = base\<lparr>o_verifications := [], o_tankSummary := None, o_assignmentAcknowledgedAt := None,
     o_assignmentEscalationSmsAt := None, o_assignmentEscalationSkippedReason := None,
     o_assignedWhileIneligible := False, o_assignedWhileIneligibleReason := None, o_stopEvents := [],
     o_statusHistory := map redact_entry (o_statusHistory base)\<rparr>"

definition INTERNAL_KEYS :: "string list" where
  "INTERNAL_KEYS = [''verifications'', ''tankSummary'', ''assignmentAcknowledgedAt'', ''assignmentEscalationSmsAt'',
     ''assignmentEscalationSkippedReason'', ''assignedWhileIneligible'', ''assignedWhileIneligibleReason'', ''stopEvents'',
     ''statusHistory.overrideReason'', ''statusHistory.actorId'', ''statusHistory.actorRole'']"

definition is_operator_or_driver :: "authenticated_user \<Rightarrow> bool" where
  "is_operator_or_driver user \<longleftrightarrow> au_role user = DRIVER \<or> au_role user = FUEL_COMPANY_ADMIN \<or>
     au_role user = TRANSPORT_COMPANY_ADMIN \<or> au_role user = SUPER_ADMIN"

definition toRoleScopedShape :: "order \<Rightarrow> authenticated_user \<Rightarrow> order_shape" where
  "toRoleScopedShape order user =
     (let base = (if is_operator_or_driver user then order else delete_internals order)
      in \<lparr>osh_base = base\<lparr>o_supplierInvoices := []\<rparr>,
          osh_deleted = (if is_operator_or_driver user then [] else INTERNAL_KEYS) @ [''supplierInvoices''],
          osh_supplierInvoice = buildSupplierInvoiceView order user\<rparr>)"

section \<open>Where the driver is\<close>

record telemetry =
  tl_etaMinutes :: "int option"
  tl_driverLocation :: "coords option"
  tl_driverLocationAt :: "instant option"

definition driverTelemetry :: "(coords \<Rightarrow> coords \<Rightarrow> rat) \<Rightarrow> rat \<Rightarrow> order \<Rightarrow> telemetry service" where
  "driverTelemetry metres averageSpeedKmh order =
     bnd (case o_driverId order of None \<Rightarrow> ret None | Some i \<Rightarrow> run_unscoped (find_one w_users u_id user_scoping i)) (\<lambda>driver.
     ret (case (case driver of None \<Rightarrow> None | Some u \<Rightarrow> map_option (Pair u) (u_location u)) of
         None \<Rightarrow> \<lparr>tl_etaMinutes = None, tl_driverLocation = None, tl_driverLocationAt = None\<rparr>
       | Some (u, p) \<Rightarrow> \<lparr>tl_etaMinutes = Some (math_round (metres p (o_deliveryLocation order) / 1000 / averageSpeedKmh * 60)),
           tl_driverLocation = Some p, tl_driverLocationAt = u_locationUpdatedAt u\<rparr>))"

definition computeEtaMinutes :: "(coords \<Rightarrow> coords \<Rightarrow> rat) \<Rightarrow> rat \<Rightarrow> order \<Rightarrow> int option service" where
  "computeEtaMinutes metres averageSpeedKmh order =
     bnd (driverTelemetry metres averageSpeedKmh order) (\<lambda>t. ret (tl_etaMinutes t))"

definition findByIdIncludingInactive :: "oid option \<Rightarrow> station option service" where
  "findByIdIncludingInactive stationId =
     (case stationId of None \<Rightarrow> ret None | Some i \<Rightarrow> find_one w_stations stn_id station_scoping i)"

definition findManyIncludingInactive :: "oid option list \<Rightarrow> (oid \<times> station) list service" where
  "findManyIncludingInactive stationIds =
     (let ids = remdups (List.map_filter id stationIds)
      in if ids = [] then ret []
         else bnd (find_all w_stations station_scoping (\<lambda>d. stn_id d \<in> set ids)) (\<lambda>ds. ret (map (\<lambda>d. (stn_id d, d)) ds)))"

section \<open>Reading\<close>

definition quote_order :: "authenticated_user \<Rightarrow> oid \<Rightarrow> fuel_type \<Rightarrow> rat \<Rightarrow> (quote_result \<times> drawdown_result) service" where
  "quote_order user stationId fuelType quantityLiters = endpoint [CLIENT] user (
     bnd (findOwnedByClient stationId (au_userId user)) (\<lambda>station.
     bnd (demand NotFound (au_companyId user)) (\<lambda>companyId.
     bnd (quote companyId fuelType quantityLiters) (\<lambda>q.
     bnd (projectDrawdown companyId (au_userId user) fuelType quantityLiters) (\<lambda>litreDrawdown.
     ret (q, litreDrawdown))))))"

datatype summary_view =
    TransporterSummary order_summary
  | FuelCompanySummary fuel_company_summary
  | PlatformSummary "(order_status_bucket \<times> nat) list \<times> nat"

definition summary :: "authenticated_user \<Rightarrow> instant \<Rightarrow> instant \<Rightarrow> summary_view service" where
  "summary user start until = endpoint [TRANSPORT_COMPANY_ADMIN, SUPER_ADMIN, FUEL_COMPANY_ADMIN] user (
     if au_role user = FUEL_COMPANY_ADMIN then bnd (getFuelCompanySummary start until) (\<lambda>x. ret (FuelCompanySummary x))
     else if au_role user = SUPER_ADMIN then bnd (getPlatformSummary start until) (\<lambda>x. ret (PlatformSummary x))
     else bnd (getSummary start until) (\<lambda>x. ret (TransporterSummary x)))"

definition bucket_names :: "(string \<times> order_status_bucket) list" where
  "bucket_names = [(''NEW'', BUCKET_NEW), (''IN_PROGRESS'', BUCKET_IN_PROGRESS), (''COMPLETED'', BUCKET_COMPLETED),
     (''REJECTED'', BUCKET_REJECTED), (''CANCELLED'', BUCKET_CANCELLED), (''NEEDS_ATTENTION'', BUCKET_NEEDS_ATTENTION)]"

record order_row =
  row_order :: order_shape
  row_etaMinutes :: "int option"
  row_station :: "station option"

primrec order_rows ::
  "(coords \<Rightarrow> coords \<Rightarrow> rat) \<Rightarrow> rat \<Rightarrow> authenticated_user \<Rightarrow> (oid \<times> station) list \<Rightarrow> order list \<Rightarrow> order_row list service" where
  "order_rows metres speed user stations [] = ret []"
| "order_rows metres speed user stations (d # ds) =
     bnd (computeEtaMinutes metres speed d) (\<lambda>eta.
     bnd (order_rows metres speed user stations ds) (\<lambda>rows.
     ret (\<lparr>row_order = toRoleScopedShape d user, row_etaMinutes = eta,
           row_station = (case o_stationId d of None \<Rightarrow> None | Some i \<Rightarrow> map_of stations i)\<rparr> # rows)))"

definition findMine ::
  "(coords \<Rightarrow> coords \<Rightarrow> rat) \<Rightarrow> rat \<Rightarrow> authenticated_user \<Rightarrow> order_status option \<Rightarrow> string option \<Rightarrow> oid option \<Rightarrow>
     order_row list service" where
  "findMine metres speed user status bucket orderId = endpoint [] user (
     bnd (parseEnumQuery bucket_names bucket) (\<lambda>parsedBucket.
     bnd (guard (case (parsedBucket, status) of
            (Some b, Some st) \<Rightarrow> st \<in> set (ORDER_STATUS_BUCKETS b) | _ \<Rightarrow> True)
          (BadRequest (Some ORDER_BUCKET_STATUS_CONFLICT))) (\<lambda>_.
     bnd (findForUser user \<lparr>fl_status = status, fl_bucket = parsedBucket, fl_orderId = orderId\<rparr>) (\<lambda>items.
     bnd (findManyIncludingInactive (map o_stationId items)) (\<lambda>stations.
     order_rows metres speed user stations items)))))"

record order_detail =
  od_order :: order_shape
  od_telemetry :: telemetry
  od_station :: "station option"
  od_vehicleVerified :: bool
  od_rating :: "(nat \<times> string option) option"

definition findOneOrder ::
  "(coords \<Rightarrow> coords \<Rightarrow> rat) \<Rightarrow> rat \<Rightarrow> authenticated_user \<Rightarrow> oid \<Rightarrow> order_detail service" where
  "findOneOrder metres speed user i = endpoint [] user (
     bnd (findOneForUser user i) (\<lambda>order.
     bnd (findByIdIncludingInactive (o_stationId order)) (\<lambda>station.
     bnd (driverTelemetry metres speed order) (\<lambda>t.
     bnd (findByOrderId (o_id order)) (\<lambda>rating.
     ret \<lparr>od_order = toRoleScopedShape order user, od_telemetry = t, od_station = station,
          od_vehicleVerified = list_ex (\<lambda>v. vv_stage v = DEPARTURE_STAGE \<and> vv_matched v) (o_verifications order),
          od_rating = map_option (\<lambda>x. (rt_score x, rt_review x)) rating\<rparr>)))))"

definition currentOtp :: "authenticated_user \<Rightarrow> oid \<Rightarrow> (otp_purpose \<times> string \<times> instant) service" where
  "currentOtp user i = endpoint [CLIENT] user (
     bnd (findOneForUser user i) (\<lambda>order.
     bnd (guard (o_clientId order = au_userId user) NotFound) (\<lambda>_.
     (let purpose = (if o_status order = UNLOADING then DELIVERY else ARRIVAL)
      in bnd (peekCurrent (o_id order) purpose) (demand NotFound)))))"

section \<open>The fuel company and the client\<close>

definition create_order :: "authenticated_user \<Rightarrow> create_order_dto \<Rightarrow> create_order_result service" where
  "create_order user dto = endpoint [CLIENT] user (create user dto)"

definition approve_order ::
  "(coords \<Rightarrow> coords \<Rightarrow> rat) \<Rightarrow> authenticated_user \<Rightarrow> oid \<Rightarrow> rat option \<Rightarrow> oid option \<Rightarrow> (order \<times> (oid \<times> string) list) service" where
  "approve_order geo user i finalPrice transportCompanyId = endpoint [FUEL_COMPANY_ADMIN] user (
     bnd (findOrderById i) (\<lambda>order.
     bnd (approve order (actor_of user) finalPrice) (\<lambda>approved.
     bnd (routeOrder geo approved (actor_of user) APPROVED transportCompanyId) (\<lambda>(routed, candidates).
     ret (routed, if 1 < length candidates then map (\<lambda>c. (c_id c, c_name c)) candidates else [])))))"

definition route_order :: "(coords \<Rightarrow> coords \<Rightarrow> rat) \<Rightarrow> authenticated_user \<Rightarrow> oid \<Rightarrow> oid \<Rightarrow> order service" where
  "route_order geo user i transportCompanyId = endpoint [FUEL_COMPANY_ADMIN] user (
     bnd (findOrderById i) (\<lambda>order.
     bnd (guard (o_status order = AWAITING_ROUTING \<or> o_status order = APPROVED) (Conflict None)) (\<lambda>_.
     bnd (routeOrder geo order (actor_of user) (o_status order) (Some transportCompanyId)) (\<lambda>(routed, _).
     bnd (guard (o_status routed \<noteq> AWAITING_ROUTING) (BadRequest None)) (\<lambda>_.
     ret routed)))))"

definition reject :: "authenticated_user \<Rightarrow> oid \<Rightarrow> string \<Rightarrow> order service" where
  "reject user i reason = endpoint [FUEL_COMPANY_ADMIN] user (
     transition i PENDING_APPROVAL REJECTED (actor_of user)
       (with_extra (\<lambda>d. d\<lparr>o_rejectedBy := Some (au_userId user), o_rejectionReason := Some reason\<rparr>)))"

definition accept_final_price :: "authenticated_user \<Rightarrow> oid \<Rightarrow> order_shape service" where
  "accept_final_price user i = endpoint [CLIENT] user (
     bnd (findOneForUser user i) (\<lambda>order.
     bnd (guard (o_clientId order = au_userId user) NotFound) (\<lambda>_.
     bnd (acceptFinalPrice order (actor_of user)) (\<lambda>accepted.
     ret (toRoleScopedShape accepted user)))))"

definition CLIENT_CANCELLABLE :: "order_status list" where
  "CLIENT_CANCELLABLE = [PENDING_APPROVAL, APPROVED, AWAITING_ROUTING, ROUTED_TO_TRANSPORT, PENDING_PAYMENT]"

definition ADMIN_CANCELLABLE :: "order_status list" where
  "ADMIN_CANCELLABLE = CLIENT_CANCELLABLE @ [ASSIGNED_TO_DRIVER, LOADING]"

definition cancel_order :: "authenticated_user \<Rightarrow> oid \<Rightarrow> string option \<Rightarrow> order service" where
  "cancel_order user i reason = endpoint [] user (
     bnd (findOneForUser user i) (\<lambda>order.
     (let isClient = (au_role user = CLIENT \<and> o_clientId order = au_userId user);
          isAdmin = (au_role user = FUEL_COMPANY_ADMIN)
      in
     bnd (guard (isClient \<or> isAdmin) (Forbidden None)) (\<lambda>_.
     bnd (guard (o_status order \<in> set (if isClient then CLIENT_CANCELLABLE else ADMIN_CANCELLABLE)) (Forbidden None)) (\<lambda>_.
     cancel order (o_status order) (actor_of user) reason)))))"

definition redispatch :: "authenticated_user \<Rightarrow> oid \<Rightarrow> order service" where
  "redispatch user i = endpoint [FUEL_COMPANY_ADMIN, CLIENT] user (
     bnd (findOneForUser user i) (\<lambda>order.
     bnd (guard (o_status order = APPROVED) (Conflict None)) (\<lambda>_.
     bnd (guard (\<not> (au_role user = CLIENT \<and> 2 \<le> o_paymentTimeoutCount order)) (Forbidden None)) (\<lambda>_.
     reopenPaymentWindow order (actor_of user)))))"

definition submit_rating :: "authenticated_user \<Rightarrow> oid \<Rightarrow> submit_rating_input \<Rightarrow> (nat \<times> string option) service" where
  "submit_rating user i input = endpoint [CLIENT] user (
     bnd (findOneForUser user i) (\<lambda>order.
     bnd (submitRating order input) (\<lambda>rating.
     ret (rt_score rating, rt_review rating))))"

definition force_complete :: "authenticated_user \<Rightarrow> oid \<Rightarrow> string \<Rightarrow> order service" where
  "force_complete user i reason = endpoint [FUEL_COMPANY_ADMIN, SUPER_ADMIN] user (
     bnd (findOrderById i) (\<lambda>order.
     bnd (guard (isForceCompletable (o_status order)) (Conflict None)) (\<lambda>_.
     forceComplete order (o_status order) (actor_of user) reason)))"

record supplier_invoice_reply =
  sr_order :: "order_shape option"
  sr_shortfallLitres :: rat
  sr_balanceWarning :: "error_code option"

definition supplier_reply :: "authenticated_user \<Rightarrow> reconciled_result \<Rightarrow> supplier_invoice_reply" where
  "supplier_reply user result = \<lparr>sr_order = map_option (\<lambda>updated. toRoleScopedShape updated user) (rc_order result),
     sr_shortfallLitres = rc_shortfallLitres result,
     sr_balanceWarning = (if rc_wentNegative result then Some LITRE_BALANCE_WOULD_GO_NEGATIVE else None)\<rparr>"

definition confirmSupplierInvoice :: "authenticated_user \<Rightarrow> oid \<Rightarrow> confirm_dto \<Rightarrow> supplier_invoice_reply service" where
  "confirmSupplierInvoice user i dto = endpoint [FUEL_COMPANY_ADMIN] user (
     bnd (findOrderById i) (\<lambda>order.
     bnd (confirmInvoice order dto (au_userId user)) (\<lambda>result.
     ret (supplier_reply user result))))"

definition replaceSupplierInvoice :: "authenticated_user \<Rightarrow> oid \<Rightarrow> confirm_dto \<Rightarrow> supplier_invoice_reply service" where
  "replaceSupplierInvoice user i dto = endpoint [FUEL_COMPANY_ADMIN] user (
     bnd (findOrderById i) (\<lambda>order.
     bnd (replaceInvoice order dto (au_userId user)) (\<lambda>result.
     ret (supplier_reply user result))))"

section \<open>The driver and the transporter\<close>

definition assertDriverAssigned :: "authenticated_user \<Rightarrow> oid \<Rightarrow> order_status \<Rightarrow> order service" where
  "assertDriverAssigned user i expectedStatus =
     bnd (findOrderById i) (\<lambda>order.
     bnd (guard (o_driverId order = Some (au_userId user)) NotFound) (\<lambda>_.
     bnd (guard (o_status order = expectedStatus) (BadRequest None)) (\<lambda>_.
     ret order)))"

record verify_vehicle_reply =
  vy_status :: verification_stage
  vy_order :: order
  vy_warehouseSummary :: "warehouse_summary option"
  vy_distanceMeters :: "int option"

definition verify_vehicle ::
  "(coords \<Rightarrow> coords \<Rightarrow> rat) \<Rightarrow> authenticated_user \<Rightarrow> oid \<Rightarrow> string \<Rightarrow> verification_method \<Rightarrow> coords option \<Rightarrow>
     verify_vehicle_reply service" where
  "verify_vehicle metres user i credential method driverLocation = endpoint [DRIVER] user (
     bnd (verifyVehicle metres i (actor_of user) credential method driverLocation) (\<lambda>result.
     ret \<lparr>vy_status = vr_stage result, vy_order = vr_order result,
          vy_warehouseSummary = (if vr_stage result = DEPARTURE_STAGE then o_warehouseSummary (vr_order result) else None),
          vy_distanceMeters = (if vr_stage result = DEPARTURE_STAGE then None else vr_distanceMeters result)\<rparr>))"

definition confirmLoading :: "authenticated_user \<Rightarrow> oid \<Rightarrow> order service" where
  "confirmLoading user i = endpoint [DRIVER] user (
     bnd (assertDriverAssigned user i LOADING) (\<lambda>order.
     bnd (guard (list_ex (\<lambda>v. vv_stage v = LOADING_STAGE \<and> vv_matched v) (o_verifications order))
            (Conflict (Some VEHICLE_NOT_VERIFIED))) (\<lambda>_.
     bnd (asks w_now) (\<lambda>loadedAt.
     transition i LOADING IN_TRANSIT (actor_of user) (with_extra (\<lambda>d. d\<lparr>o_loadingConfirmedAt := Some loadedAt\<rparr>))))))"

definition overriding :: "string \<Rightarrow> (order \<Rightarrow> order) \<Rightarrow> transition_options" where
  "overriding reason f = (with_extra f)\<lparr>tr_manualOverride := True, tr_overrideReason := Some reason\<rparr>"

definition overrideVerification :: "authenticated_user \<Rightarrow> oid \<Rightarrow> string \<Rightarrow> order service" where
  "overrideVerification user i reason = endpoint [TRANSPORT_COMPANY_ADMIN] user (
     bnd (findOrderById i) (\<lambda>order.
     if o_status order = ASSIGNED_TO_DRIVER
     then transition i ASSIGNED_TO_DRIVER LOADING (actor_of user) (overriding reason id)
     else if o_status order = LOADING
     then bnd (asks w_now) (\<lambda>now.
          transition i LOADING IN_TRANSIT (actor_of user) (overriding reason (\<lambda>d. d\<lparr>o_loadingConfirmedAt := Some now\<rparr>)))
     else throw (Conflict None)))"

definition reassign_vehicle :: "authenticated_user \<Rightarrow> oid \<Rightarrow> oid \<Rightarrow> oid \<Rightarrow> order option service" where
  "reassign_vehicle user i truckId tankId = endpoint [TRANSPORT_COMPANY_ADMIN] user (
     bnd (findOrderById i) (\<lambda>order. reassignVehicle order truckId tankId))"

definition issue_code ::
  "(string \<Rightarrow> string) \<Rightarrow> string \<Rightarrow> string \<Rightarrow> order \<Rightarrow> otp_purpose \<Rightarrow> unit service" where
  "issue_code sha code salt order purpose =
     bnd (issue sha code salt (o_id order) purpose) (\<lambda>_.
     notify (o_fuelCompanyId order) (o_clientId order) OTP_ISSUED (Some (o_id order)))"

definition arrive :: "(string \<Rightarrow> string) \<Rightarrow> string \<Rightarrow> string \<Rightarrow> authenticated_user \<Rightarrow> oid \<Rightarrow> unit service" where
  "arrive sha code salt user i = endpoint [DRIVER] user (
     bnd (assertDriverAssigned user i IN_TRANSIT) (\<lambda>order. issue_code sha code salt order ARRIVAL))"

definition requestDeliveryOtp :: "(string \<Rightarrow> string) \<Rightarrow> string \<Rightarrow> string \<Rightarrow> authenticated_user \<Rightarrow> oid \<Rightarrow> unit service" where
  "requestDeliveryOtp sha code salt user i = endpoint [DRIVER] user (
     bnd (assertDriverAssigned user i UNLOADING) (\<lambda>order. issue_code sha code salt order DELIVERY))"

definition verifyArrival :: "(string \<Rightarrow> string) \<Rightarrow> authenticated_user \<Rightarrow> oid \<Rightarrow> string \<Rightarrow> order service" where
  "verifyArrival sha user i otp = endpoint [DRIVER] user (
     bnd (assertDriverAssigned user i IN_TRANSIT) (\<lambda>order.
     bnd (verify sha (o_id order) ARRIVAL otp) (\<lambda>_.
     transition i IN_TRANSIT UNLOADING (actor_of user) no_options)))"

definition verifyDelivery :: "(string \<Rightarrow> string) \<Rightarrow> authenticated_user \<Rightarrow> oid \<Rightarrow> string \<Rightarrow> order service" where
  "verifyDelivery sha user i otp = endpoint [DRIVER] user (
     bnd (assertDriverAssigned user i UNLOADING) (\<lambda>order.
     bnd (verify sha (o_id order) DELIVERY otp) (\<lambda>_.
     completeDelivery order (actor_of user))))"

definition acknowledge_assignment :: "authenticated_user \<Rightarrow> oid \<Rightarrow> order_shape service" where
  "acknowledge_assignment user i = endpoint [DRIVER] user (
     bnd (findOrderById i) (\<lambda>order.
     bnd (guard (o_driverId order = Some (au_userId user)) NotFound) (\<lambda>_.
     bnd (acknowledgeAssignment order) (\<lambda>updated.
     ret (toRoleScopedShape updated user)))))"

definition declare_stop :: "authenticated_user \<Rightarrow> oid \<Rightarrow> stop_input \<Rightarrow> int \<Rightarrow> order_shape service" where
  "declare_stop user i input expectedDurationMinutes = endpoint [DRIVER] user (
     bnd (declareStop i (au_userId user) input expectedDurationMinutes) (\<lambda>order. ret (toRoleScopedShape order user)))"

definition report_blocked :: "authenticated_user \<Rightarrow> oid \<Rightarrow> stop_input \<Rightarrow> order_shape service" where
  "report_blocked user i input = endpoint [DRIVER] user (
     bnd (reportBlocked i (au_userId user) input) (\<lambda>order. ret (toRoleScopedShape order user)))"

definition submitStopReason :: "authenticated_user \<Rightarrow> oid \<Rightarrow> oid \<Rightarrow> stop_input \<Rightarrow> order_shape service" where
  "submitStopReason user i stopId input = endpoint [DRIVER] user (
     bnd (submitReason i (au_userId user) stopId input) (\<lambda>order. ret (toRoleScopedShape order user)))"

definition resolveStop :: "authenticated_user \<Rightarrow> oid \<Rightarrow> oid \<Rightarrow> order_shape service" where
  "resolveStop user i stopId = endpoint [TRANSPORT_COMPANY_ADMIN] user (
     bnd (findOneForUser user i) (\<lambda>order.
     bnd (resolveByAdmin (o_id order) stopId (au_userId user)) (\<lambda>resolved.
     ret (toRoleScopedShape resolved user))))"

section \<open>Every endpoint keeps what the services keep\<close>

context lifecycle_frame
begin

lemma keeps_endpoint: "keeps P m \<Longrightarrow> keeps P (endpoint roles user m)"
proof -
  assume m: "keeps P m"
  have "keeps P (intercept user m)"
  proof (rule keepsI)
    fix s r s' assume "P s" and run: "intercept user m s = (r, s')"
    then obtain s1 where s1: "m (s\<lparr>w_scope := scope_of user\<rparr>) = (r, s1)" "s' = s1\<lparr>w_scope := w_scope s\<rparr>"
      by (auto simp: intercept_def split: prod.splits)
    have "P (s\<lparr>w_scope := scope_of user\<rparr>)" using \<open>P s\<close> by (rule fr_scope)
    with s1 m show "P s'" by (auto dest: keepsD intro: fr_scope)
  qed
  then show ?thesis unfolding endpoint_def by (intro keeps_bnd keeps_basic)
qed

lemma keeps_found: "keeps P (findOneForUser user i)" "keeps P (assertDriverAssigned user i st)"
  unfolding findOneForUser_def assertDriverAssigned_def by (intro keeps_bnd keeps_basic keeps_findOrderById)+

lemma keeps_pair: "(\<And>a b. keeps P (f a b)) \<Longrightarrow> keeps P (case x of (a, b) \<Rightarrow> f a b)"
  by (cases x) simp

lemmas keeps_handler = keeps_endpoint keeps_bnd keeps_basic keeps_found keeps_findOrderById keeps_pair keeps_if
  keeps_order_steps keeps_order_ends keeps_routeOrder keeps_verifyVehicle keeps_supplier_invoices keeps_stops keeps_otp
  keeps_notify keeps_plain_move

lemma keeps_office_endpoints:
  "keeps P (approve_order geo user i fp t)" "keeps P (route_order geo user i t')" "keeps P (reject user i why)"
  "keeps P (accept_final_price user i)" "keeps P (cancel_order user i reason)" "keeps P (redispatch user i)"
  "keeps P (force_complete user i why)" "keeps P (confirmSupplierInvoice user i dto)"
  "keeps P (replaceSupplierInvoice user i dto)" "keeps P (overrideVerification user i why)"
  "keeps P (reassign_vehicle user i tr tn)" "keeps P (resolveStop user i k)"
proof -
  have rej: "keeps P (transition i PENDING_APPROVAL REJECTED a (with_extra (\<lambda>d. d\<lparr>o_rejectedBy := x, o_rejectionReason := y\<rparr>)))" for a x y
    by (rule keeps_move) (simp add: order_patch_def)
  have ovr: "keeps P (transition i src to a (overriding why f))" if "order_patch f" for src to a f
    by (rule fr_transition) (simp add: overriding_def that)
  have patches: "order_patch id" "order_patch (\<lambda>d. d\<lparr>o_loadingConfirmedAt := x\<rparr>)" for x by (simp_all add: order_patch_def)
  show "keeps P (approve_order geo user i fp t)" unfolding approve_order_def by (intro keeps_handler)
  show "keeps P (route_order geo user i t')" unfolding route_order_def by (intro keeps_handler)
  show "keeps P (reject user i why)" unfolding reject_def by (intro keeps_handler rej)
  show "keeps P (accept_final_price user i)" unfolding accept_final_price_def by (intro keeps_handler)
  show "keeps P (cancel_order user i reason)" unfolding cancel_order_def Let_def by (intro keeps_handler)
  show "keeps P (redispatch user i)" unfolding redispatch_def by (intro keeps_handler)
  show "keeps P (force_complete user i why)" unfolding force_complete_def by (intro keeps_handler)
  show "keeps P (confirmSupplierInvoice user i dto)" unfolding confirmSupplierInvoice_def by (intro keeps_handler)
  show "keeps P (replaceSupplierInvoice user i dto)" unfolding replaceSupplierInvoice_def by (intro keeps_handler)
  show "keeps P (overrideVerification user i why)" unfolding overrideVerification_def by (intro keeps_handler ovr patches)
  show "keeps P (reassign_vehicle user i tr tn)" unfolding reassign_vehicle_def by (intro keeps_handler)
  show "keeps P (resolveStop user i k)" unfolding resolveStop_def by (intro keeps_handler)
qed

lemma keeps_road_endpoints:
  "keeps P (verify_vehicle metres user i cr me loc)" "keeps P (confirmLoading user i)" "keeps P (arrive sha code salt user i)"
  "keeps P (requestDeliveryOtp sha code salt user i)" "keeps P (verifyArrival sha user i otp)"
  "keeps P (verifyDelivery sha user i otp)" "keeps P (acknowledge_assignment user i)"
  "keeps P (declare_stop user i inp n)" "keeps P (report_blocked user i inp)" "keeps P (submitStopReason user i k inp)"
proof -
  have load: "keeps P (transition i LOADING IN_TRANSIT a (with_extra (\<lambda>d. d\<lparr>o_loadingConfirmedAt := x\<rparr>)))" for a x
    by (rule keeps_move) (simp add: order_patch_def)
  show "keeps P (verify_vehicle metres user i cr me loc)" unfolding verify_vehicle_def by (intro keeps_handler)
  show "keeps P (confirmLoading user i)" unfolding confirmLoading_def by (intro keeps_handler load)
  show "keeps P (arrive sha code salt user i)" unfolding arrive_def issue_code_def by (intro keeps_handler)
  show "keeps P (requestDeliveryOtp sha code salt user i)" unfolding requestDeliveryOtp_def issue_code_def by (intro keeps_handler)
  show "keeps P (verifyArrival sha user i otp)" unfolding verifyArrival_def by (intro keeps_handler)
  show "keeps P (verifyDelivery sha user i otp)" unfolding verifyDelivery_def by (intro keeps_handler)
  show "keeps P (acknowledge_assignment user i)" unfolding acknowledge_assignment_def by (intro keeps_handler)
  show "keeps P (declare_stop user i inp n)" unfolding declare_stop_def by (intro keeps_handler)
  show "keeps P (report_blocked user i inp)" unfolding report_blocked_def by (intro keeps_handler)
  show "keeps P (submitStopReason user i k inp)" unfolding submitStopReason_def by (intro keeps_handler)
qed

end

section \<open>What the endpoints guarantee\<close>

lemma endpoint_okD:
  assumes "endpoint roles user m s = (Inr x, s')"
  shows "roles_guard roles user \<and> (\<exists>s1. m (s\<lparr>w_scope := scope_of user\<rparr>) = (Inr x, s1) \<and> s' = s1\<lparr>w_scope := w_scope s\<rparr>)"
  using assms by (auto simp: endpoint_def intercept_def prog_inv split: prod.splits)

lemma statuses_cong: "w_orders s' = w_orders s \<Longrightarrow> statuses s' = statuses s"
  by (simp add: statuses_def [abs_def])

lemma transition_statuses:
  assumes "transition i src to actor opts s = (Inr d', s')" "order_patch (tr_extra opts)"
  shows "statuses s' i = Some to \<and> o_status d' = to \<and> statuses s i = Some src"
  using assms(1)
proof (rule transition_okD)
  fix d es assume d: "get_by o_id i (w_orders s) = Some d" "o_status d = src"
    and d': "d' = apply_transition opts (history_entry src to actor opts (w_now s)) d"
    and s': "s' = (w_orders_update (upd_by o_id i (apply_transition opts (history_entry src to actor opts (w_now s)))) s)
         \<lparr>w_emits := w_emits s @ es\<rparr>"
  have "o_id (apply_transition opts (history_entry src to actor opts (w_now s)) x) = o_id x"
    "o_status (apply_transition opts (history_entry src to actor opts (w_now s)) x) = to" for x
    by (simp_all add: apply_transition_fields [OF assms(2)] history_entry_def)
  with d d' s' show ?thesis by (simp add: statuses_def get_by_upd_by)
qed

lemma keeps_orders_queues: "keeps (\<lambda>x. statuses x = m) (cancelPendingStopEscalations d)"
  by (rule keeps_stop_escalations) (auto simp: cancelStopEscalation_def queue_remove_def statuses_def [abs_def] intro!: keeps_modify)

lemma completeDelivery_okD:
  assumes "completeDelivery d actor s = (Inr x, s')"
  shows "statuses s' (o_id d) = Some DELIVERED \<and> o_status x = DELIVERED"
proof -
  from assms obtain s1 s2 where t: "transition (o_id d) UNLOADING DELIVERED actor no_options s1 = (Inr x, s2)"
    and e: "cancelPendingStopEscalations d s2 = (Inr (), s')"
    by (auto simp: completeDelivery_def prog_inv)
  have "statuses s' = statuses s2" using keepsD [OF keeps_orders_queues e] by simp
  with transition_statuses [OF t] show ?thesis by simp
qed

lemma verify_okD:
  assumes "verify sha i p c s = (Inr (), s')"
  shows "\<exists>d k. sees_order s i d \<and> findIndex (unused_for p) (o_otps d) = Some k \<and>
    verifyRecord sha (w_now s) (Some (o_otps d ! k)) c MAX_ATTEMPTS = MATCH"
proof -
  from assms obtain d where d: "sees_order s i d" by (auto simp: verify_def prog_inv)
  with assms verify_unfold [OF d, of sha p c] show ?thesis
    by (auto split: option.splits otp_verify_result.splits)
qed

end
