(* ===== verification/Fuel_Exchange.thy ===== *)
theory Fuel_Exchange
  imports Vehicles Money
begin

text \<open>
  The market on which fuel companies buy fuel from each other:
  \<open>modules/fuel-exchange/fuel-exchange.service.ts\<close>.

  A company raises an offer, every other company that sells the grade may answer it once, with a
  price or a refusal, and the raiser awards one answer or withdraws the offer.  Offers are read
  under the party-set plugin and proposals under the proposal plugin (\<open>Tenancy\<close>).  The
  boundaries of the current month, which the source takes from the server's calendar, are arguments
  of \<open>exchange_summary\<close>.
\<close>

section \<open>Fan-out across companies\<close>

definition resolveRecipientAdmins :: "oid list \<Rightarrow> user list service" where
  "resolveRecipientAdmins companyIds =
     (if companyIds = [] then ret []
      else run_unscoped (find_all w_users user_scoping (\<lambda>u.
        list_ex (\<lambda>c. u_companyId u = Some c) companyIds \<and> u_role u = FUEL_COMPANY_ADMIN \<and> u_isActive u)))"

text \<open>\<open>the\<close> is the non-null assertion of the source: the lookup above selects on the company.\<close>

definition notifyMany :: "user list \<Rightarrow> notification_type \<Rightarrow> unit service" where
  "notifyMany admins type = for_each admins (\<lambda>admin. notify (the (u_companyId admin)) (u_id admin) type None)"

section \<open>Raising an offer\<close>

record create_offer_dto =
  od_fuelType :: fuel_type
  od_quantityLitres :: rat
  od_deliveryAt :: instant
  od_city :: governorate_code
  od_district :: "string option"
  od_locationUrl :: "string option"
  od_notes :: "string option"

definition new_offer :: "oid \<Rightarrow> oid \<Rightarrow> oid \<Rightarrow> create_offer_dto \<Rightarrow> exchange_offer" where
  "new_offer i actingCompanyId actingUserId dto =
     \<lparr>off_id = i, off_partyCompanyIds = [actingCompanyId], off_openToMarket = True,
      off_raisedByCompanyId = actingCompanyId, off_raisedByUserId = actingUserId,
      off_fuelType = od_fuelType dto, off_quantityLitres = od_quantityLitres dto,
      off_deliveryAt = od_deliveryAt dto, off_city = od_city dto, off_district = od_district dto,
      off_locationUrl = od_locationUrl dto, off_notes = od_notes dto, off_state = OPEN,
      off_awardedProposalId = None, off_awardedCompanyId = None, off_agreedUnitPrice = None,
      off_agreedTotal = None, off_agreedQuantityLitres = None, off_resolvedBy = None,
      off_resolvedAt = None\<rparr>"

definition createOffer :: "oid \<Rightarrow> oid \<Rightarrow> create_offer_dto \<Rightarrow> exchange_offer service" where
  "createOffer actingCompanyId actingUserId dto =
     bnd (asks w_now) (\<lambda>now.
     bnd (guard (\<not> od_deliveryAt dto \<le> now) (BadRequest (Some EXCHANGE_DELIVERY_IN_PAST))) (\<lambda>_.
     bnd (findActiveFuelCompaniesSellingGrade (od_fuelType dto) (Some actingCompanyId)) (\<lambda>eligible.
     bnd (guard (eligible \<noteq> []) (BadRequest (Some EXCHANGE_NO_ELIGIBLE_COMPANY))) (\<lambda>_.
     bnd fresh_id (\<lambda>i.
     bnd (save_offer (new_offer i actingCompanyId actingUserId dto)) (\<lambda>_.
     bnd (resolveRecipientAdmins (map c_id eligible)) (\<lambda>admins.
     bnd (notifyMany admins EXCHANGE_OFFER_AVAILABLE) (\<lambda>_.
     ret (new_offer i actingCompanyId actingUserId dto)))))))))"

section \<open>What a viewer is shown\<close>

record company_contact =
  cc_name :: string
  cc_contactEmail :: string
  cc_contactPhone :: string

definition contact_of :: "company \<Rightarrow> company_contact" where
  "contact_of c = \<lparr>cc_name = c_name c, cc_contactEmail = c_contactEmail c, cc_contactPhone = c_contactPhone c\<rparr>"

record proposal_shape =
  ps_id :: oid
  ps_outcome :: proposal_outcome
  ps_respondedAt :: instant
  ps_proposingCompanyId :: "oid option"
  ps_unitPrice :: "rat option"
  ps_total :: "rat option"
  ps_company :: "company_contact option"

definition toProposalShape ::
  "exchange_proposal \<Rightarrow> rat \<Rightarrow> bool \<Rightarrow> company_contact option \<Rightarrow> proposal_shape" where
  "toProposalShape proposal offerQuantityLitres revealIdentity company =
     \<lparr>ps_id = prop_id proposal, ps_outcome = prop_outcome proposal,
      ps_respondedAt = prop_respondedAt proposal,
      ps_proposingCompanyId = (if revealIdentity then Some (prop_proposingCompanyId proposal) else None),
      ps_unitPrice = prop_unitPrice proposal,
      ps_total = map_option (\<lambda>p. roundCurrency (p * offerQuantityLitres)) (prop_unitPrice proposal),
      ps_company = company\<rparr>"

text \<open>The offer's own fields; the agreed figures only under \<open>includeAgreed\<close>.\<close>

record offer_view =
  ov_id :: oid
  ov_openToMarket :: bool
  ov_raisedByCompanyId :: oid
  ov_fuelType :: fuel_type
  ov_quantityLitres :: rat
  ov_deliveryAt :: instant
  ov_city :: governorate_code
  ov_district :: "string option"
  ov_locationUrl :: "string option"
  ov_notes :: "string option"
  ov_state :: offer_state
  ov_awardedCompanyId :: "oid option"
  ov_agreedUnitPrice :: "rat option"
  ov_agreedTotal :: "rat option"
  ov_agreedQuantityLitres :: "rat option"
  ov_raisedByCompanyName :: "string option"
  ov_proposalCount :: "nat option"
  ov_declineCount :: "nat option"
  ov_proposals :: "proposal_shape list option"
  ov_myProposal :: "proposal_shape option"
  ov_raiserContact :: "company_contact option"

definition toOfferSummary :: "exchange_offer \<Rightarrow> bool \<Rightarrow> offer_view" where
  "toOfferSummary offer includeAgreed =
     \<lparr>ov_id = off_id offer, ov_openToMarket = off_openToMarket offer,
      ov_raisedByCompanyId = off_raisedByCompanyId offer, ov_fuelType = off_fuelType offer,
      ov_quantityLitres = off_quantityLitres offer, ov_deliveryAt = off_deliveryAt offer,
      ov_city = off_city offer, ov_district = off_district offer,
      ov_locationUrl = off_locationUrl offer, ov_notes = off_notes offer, ov_state = off_state offer,
      ov_awardedCompanyId = (if includeAgreed then off_awardedCompanyId offer else None),
      ov_agreedUnitPrice = (if includeAgreed then off_agreedUnitPrice offer else None),
      ov_agreedTotal = (if includeAgreed then off_agreedTotal offer else None),
      ov_agreedQuantityLitres = (if includeAgreed then off_agreedQuantityLitres offer else None),
      ov_raisedByCompanyName = None, ov_proposalCount = None, ov_declineCount = None,
      ov_proposals = None, ov_myProposal = None, ov_raiserContact = None\<rparr>"

section \<open>Listing\<close>

text \<open>\<open>Promise.all\<close> over a list, in order.\<close>

primrec traverse :: "('x \<Rightarrow> 'y service) \<Rightarrow> 'x list \<Rightarrow> 'y list service" where
  "traverse f [] = ret []"
| "traverse f (x # xs) = bnd (f x) (\<lambda>y. bnd (traverse f xs) (\<lambda>ys. ret (y # ys)))"

definition buildIncomingFilter :: "oid \<Rightarrow> (exchange_offer \<Rightarrow> bool) service" where
  "buildIncomingFilter actingCompanyId =
     bnd findSuspendedFuelCompanyIds (\<lambda>suspendedIds.
     bnd (findCompany actingCompanyId) (\<lambda>company.
     (let soldGrades = map fp_fuelType (c_fuelPrices company)
      in ret (\<lambda>d. off_raisedByCompanyId d \<notin> set (suspendedIds @ [actingCompanyId]) \<and>
            (\<not> off_openToMarket d \<or> off_openToMarket d \<and> off_fuelType d \<in> set soldGrades)))))"

datatype exchange_direction = Incoming | Outgoing | AllOffers

definition answers :: "exchange_offer \<Rightarrow> exchange_proposal \<Rightarrow> bool" where
  "answers offer p \<longleftrightarrow> prop_offerId p = off_id offer"

definition declined :: "exchange_proposal \<Rightarrow> bool" where
  "declined p \<longleftrightarrow> prop_outcome p = PROPOSAL_DECLINED"

definition count_proposals :: "(exchange_proposal \<Rightarrow> bool) \<Rightarrow> nat service" where
  "count_proposals P = bnd (find_all w_proposals proposal_scoping P) (\<lambda>ps. ret (length ps))"

definition shape_item :: "oid \<Rightarrow> (oid \<times> string) list \<Rightarrow> exchange_offer \<Rightarrow> offer_view service" where
  "shape_item actingCompanyId names offer =
     (let isRaiser = (off_raisedByCompanyId offer = actingCompanyId);
          includeAgreed = (isRaiser \<or> off_state offer = AWARDED \<and> off_awardedCompanyId offer = Some actingCompanyId);
          item = (toOfferSummary offer includeAgreed)
            \<lparr>ov_raisedByCompanyName := map_of names (off_raisedByCompanyId offer)\<rparr>
      in if isRaiser
         then bnd (count_proposals (\<lambda>p. answers offer p \<and> \<not> declined p)) (\<lambda>proposalCount.
              bnd (count_proposals (\<lambda>p. answers offer p \<and> declined p)) (\<lambda>declineCount.
              ret (item\<lparr>ov_proposalCount := Some proposalCount, ov_declineCount := Some declineCount\<rparr>)))
         else ret item)"

definition shapeListItems :: "exchange_offer list \<Rightarrow> oid \<Rightarrow> offer_view list service" where
  "shapeListItems offers actingCompanyId =
     (if offers = [] then ret []
      else bnd (traverse (\<lambda>i. bnd (findCompany i) (\<lambda>c. ret (i, c_name c)))
                  (remdups (map off_raisedByCompanyId offers))) (\<lambda>names.
           traverse (shape_item actingCompanyId names) offers))"

definition findAllOffers :: "oid \<Rightarrow> exchange_direction \<Rightarrow> offer_state option \<Rightarrow> offer_view list service" where
  "findAllOffers actingCompanyId direction state =
     (let outgoing = (\<lambda>d. off_raisedByCompanyId d = actingCompanyId)
      in bnd (case direction of
                Outgoing \<Rightarrow> ret (outgoing, state)
              | Incoming \<Rightarrow> bnd (buildIncomingFilter actingCompanyId) (\<lambda>incoming.
                  ret (incoming, case state of None \<Rightarrow> Some OPEN | Some st \<Rightarrow> Some st))
              | AllOffers \<Rightarrow> bnd (buildIncomingFilter actingCompanyId) (\<lambda>incoming.
                  ret (\<lambda>d. outgoing d \<or> incoming d, state))) (\<lambda>(filt, effectiveState).
         bnd (find_all w_offers offer_scoping (\<lambda>d. filt d \<and>
                (case effectiveState of None \<Rightarrow> True | Some st \<Rightarrow> off_state d = st))) (\<lambda>offers.
         shapeListItems offers actingCompanyId)))"

definition findAllForOperator :: "exchange_offer list service" where
  "findAllForOperator = find_all w_offers offer_scoping (\<lambda>_. True)"


section \<open>Detail\<close>

definition shape_proposal :: "exchange_offer \<Rightarrow> exchange_proposal \<Rightarrow> proposal_shape service" where
  "shape_proposal offer p =
     (if declined p then ret (toProposalShape p (off_quantityLitres offer) False None)
      else bnd (findCompany (prop_proposingCompanyId p)) (\<lambda>company.
           ret (toProposalShape p (off_quantityLitres offer) True (Some (contact_of company)))))"

definition buildDetail :: "exchange_offer \<Rightarrow> oid option \<Rightarrow> user_role \<Rightarrow> offer_view service" where
  "buildDetail offer actingCompanyId role =
     (let isSuperAdmin = (role = SUPER_ADMIN);
          isRaiser = (\<not> isSuperAdmin \<and> actingCompanyId = Some (off_raisedByCompanyId offer));
          isAwardedCompany = (\<not> isSuperAdmin \<and> \<not> isRaiser \<and> off_state offer = AWARDED \<and>
            actingCompanyId \<noteq> None \<and> actingCompanyId = off_awardedCompanyId offer)
      in bnd (findCompany (off_raisedByCompanyId offer)) (\<lambda>raiserCompany.
         (let result = (toOfferSummary offer (isRaiser \<or> isSuperAdmin \<or> isAwardedCompany))
                \<lparr>ov_raisedByCompanyName := Some (c_name raiserCompany)\<rparr>
          in if isRaiser \<or> isSuperAdmin
             then bnd (find_all w_proposals proposal_scoping (answers offer)) (\<lambda>proposals.
                  bnd (traverse (shape_proposal offer) proposals) (\<lambda>shapes.
                  ret (result\<lparr>ov_proposals := Some shapes,
                    ov_proposalCount := Some (length (filter (\<lambda>p. \<not> declined p) proposals)),
                    ov_declineCount := Some (length (filter declined proposals))\<rparr>)))
             else bnd (case actingCompanyId of
                    None \<Rightarrow> ret None
                  | Some c \<Rightarrow> bnd (find_all w_proposals proposal_scoping
                      (\<lambda>p. answers offer p \<and> prop_proposingCompanyId p = c)) (\<lambda>own.
                      ret (case own of [] \<Rightarrow> None
                           | p # _ \<Rightarrow> Some (toProposalShape p (off_quantityLitres offer) True None)))) (\<lambda>myProposal.
                  ret (result\<lparr>ov_myProposal := myProposal,
                    ov_raiserContact := (if isAwardedCompany then Some (contact_of raiserCompany) else None)\<rparr>)))))"

definition findOneOffer :: "oid \<Rightarrow> oid option \<Rightarrow> user_role \<Rightarrow> offer_view service" where
  "findOneOffer i actingCompanyId role =
     bnd (find_one w_offers off_id offer_scoping i) (\<lambda>found.
     bnd (demand NotFound found) (\<lambda>offer.
     buildDetail offer actingCompanyId role))"

section \<open>Answering an offer\<close>

record create_proposal_dto =
  pd_unitPrice :: "rat option"
  pd_decline :: bool

definition proposal_clash :: "exchange_proposal \<Rightarrow> exchange_proposal \<Rightarrow> bool" where
  "proposal_clash x d \<longleftrightarrow> prop_offerId x = prop_offerId d \<and> prop_proposingCompanyId x = prop_proposingCompanyId d"

definition new_proposal :: "oid \<Rightarrow> exchange_offer \<Rightarrow> oid \<Rightarrow> oid \<Rightarrow> create_proposal_dto \<Rightarrow> instant \<Rightarrow> exchange_proposal" where
  "new_proposal i offer actingCompanyId actingUserId dto now =
     \<lparr>prop_id = i, prop_offerId = off_id offer, prop_offerRaisedByCompanyId = off_raisedByCompanyId offer,
      prop_proposingCompanyId = actingCompanyId, prop_proposingUserId = actingUserId,
      prop_outcome = (if pd_decline dto then PROPOSAL_DECLINED else PROPOSED),
      prop_unitPrice = (if pd_decline dto then None else pd_unitPrice dto),
      prop_respondedAt = now, prop_resolvedAt = None\<rparr>"

definition propose :: "oid \<Rightarrow> oid \<Rightarrow> oid \<Rightarrow> create_proposal_dto \<Rightarrow> exchange_proposal service" where
  "propose offerId actingCompanyId actingUserId dto =
     bnd (find_one w_offers off_id offer_scoping offerId) (\<lambda>found.
     bnd (demand NotFound found) (\<lambda>offer.
     bnd (guard (off_raisedByCompanyId offer \<noteq> actingCompanyId) (Forbidden None)) (\<lambda>_.
     bnd (guard (off_state offer = OPEN) (Conflict (Some EXCHANGE_OFFER_NOT_OPEN))) (\<lambda>_.
     bnd (isActiveCompany (off_raisedByCompanyId offer)) (\<lambda>raiserActive.
     bnd (guard raiserActive (Conflict (Some EXCHANGE_OFFER_NOT_OPEN))) (\<lambda>_.
     bnd (guard (pd_decline dto \<noteq> (pd_unitPrice dto \<noteq> None)) (BadRequest None)) (\<lambda>_.
     bnd (if pd_decline dto then ret ()
          else bnd (getBasePrice actingCompanyId (off_fuelType offer)) (\<lambda>sellsGrade.
               guard (sellsGrade \<noteq> None) (BadRequest (Some EXCHANGE_GRADE_NOT_SOLD)))) (\<lambda>_.
     bnd (asks w_now) (\<lambda>now.
     bnd (on_duplicate EXCHANGE_ALREADY_ANSWERED
            (bnd fresh_id (\<lambda>i.
             indexed_insert w_proposals w_proposals_update proposal_clash
               (new_proposal i offer actingCompanyId actingUserId dto now)))) (\<lambda>proposal.
     bnd (resolveRecipientAdmins [off_raisedByCompanyId offer]) (\<lambda>admins.
     bnd (notifyMany admins EXCHANGE_PROPOSAL_RECEIVED) (\<lambda>_.
     ret proposal))))))))))))"

section \<open>Awarding and withdrawing\<close>

definition notifyAward :: "exchange_offer \<Rightarrow> oid \<Rightarrow> unit service" where
  "notifyAward offer winnerCompanyId =
     bnd (resolveRecipientAdmins [winnerCompanyId]) (\<lambda>winnerAdmins.
     bnd (find_all w_proposals proposal_scoping (\<lambda>p. answers offer p \<and> prop_outcome p = NOT_SELECTED)) (\<lambda>losers.
     bnd (resolveRecipientAdmins (remdups (map prop_proposingCompanyId losers))) (\<lambda>loserAdmins.
     bnd (notifyMany winnerAdmins EXCHANGE_OFFER_AWARDED) (\<lambda>_.
     notifyMany loserAdmins EXCHANGE_OFFER_CLOSED))))"

definition set_awarded :: "exchange_offer \<Rightarrow> exchange_proposal \<Rightarrow> oid \<Rightarrow> instant \<Rightarrow> exchange_offer \<Rightarrow> exchange_offer" where
  "set_awarded offer proposal actingUserId now d =
     d\<lparr>off_state := AWARDED, off_awardedProposalId := Some (prop_id proposal),
       off_awardedCompanyId := Some (prop_proposingCompanyId proposal),
       off_agreedUnitPrice := prop_unitPrice proposal,
       off_agreedTotal := map_option (\<lambda>p. roundCurrency (p * off_quantityLitres offer)) (prop_unitPrice proposal),
       off_agreedQuantityLitres := Some (off_quantityLitres offer),
       off_resolvedBy := Some actingUserId, off_resolvedAt := Some now\<rparr>"

definition set_outcome :: "proposal_outcome \<Rightarrow> instant \<Rightarrow> exchange_proposal \<Rightarrow> exchange_proposal" where
  "set_outcome outcome now p = p\<lparr>prop_outcome := outcome, prop_resolvedAt := Some now\<rparr>"

definition resolve_offer :: "exchange_offer \<Rightarrow> exchange_proposal \<Rightarrow> oid \<Rightarrow> instant \<Rightarrow> exchange_offer service" where
  "resolve_offer offer proposal actingUserId now =
     bnd (find_and_update w_offers w_offers_update off_id offer_scoping (off_id offer) (\<lambda>d. off_state d = OPEN)
            (set_awarded offer proposal actingUserId now)) (\<lambda>result.
     bnd (demand (Conflict (Some EXCHANGE_ALREADY_RESOLVED)) result) (\<lambda>updatedOffer.
     bnd (find_and_update w_proposals w_proposals_update prop_id proposal_scoping (prop_id proposal) (\<lambda>_. True)
            (set_outcome PROPOSAL_AWARDED now)) (\<lambda>_.
     bnd (update_many w_proposals_update proposal_scoping
            (\<lambda>p. answers offer p \<and> prop_id p \<noteq> prop_id proposal) (set_outcome NOT_SELECTED now)) (\<lambda>_.
     ret updatedOffer))))"

definition award :: "oid \<Rightarrow> oid \<Rightarrow> oid \<Rightarrow> oid \<Rightarrow> exchange_offer service" where
  "award offerId actingCompanyId actingUserId proposalId =
     bnd (find_one w_offers off_id offer_scoping offerId) (\<lambda>found.
     bnd (demand NotFound found) (\<lambda>offer.
     bnd (guard (off_raisedByCompanyId offer = actingCompanyId) NotFound) (\<lambda>_.
     bnd (find_one w_proposals prop_id proposal_scoping proposalId) (\<lambda>answer.
     bnd (demand NotFound answer) (\<lambda>proposal.
     bnd (guard (answers offer proposal \<and> \<not> declined proposal) NotFound) (\<lambda>_.
     bnd (asks w_now) (\<lambda>now.
     bnd (transaction (resolve_offer offer proposal actingUserId now)) (\<lambda>updatedOffer.
     bnd (notifyAward updatedOffer (prop_proposingCompanyId proposal)) (\<lambda>_.
     ret updatedOffer)))))))))"

definition set_withdrawn :: "oid \<Rightarrow> instant \<Rightarrow> exchange_offer \<Rightarrow> exchange_offer" where
  "set_withdrawn actingUserId now d =
     d\<lparr>off_state := WITHDRAWN, off_resolvedBy := Some actingUserId, off_resolvedAt := Some now\<rparr>"

definition withdraw :: "oid \<Rightarrow> oid \<Rightarrow> oid \<Rightarrow> exchange_offer service" where
  "withdraw offerId actingCompanyId actingUserId =
     bnd (find_one w_offers off_id offer_scoping offerId) (\<lambda>found.
     bnd (demand NotFound found) (\<lambda>offer.
     bnd (guard (off_raisedByCompanyId offer = actingCompanyId) NotFound) (\<lambda>_.
     bnd (asks w_now) (\<lambda>now.
     bnd (find_and_update w_offers w_offers_update off_id offer_scoping (off_id offer) (\<lambda>d. off_state d = OPEN)
            (set_withdrawn actingUserId now)) (\<lambda>updated.
     bnd (demand (Conflict (Some EXCHANGE_ALREADY_RESOLVED)) updated) (\<lambda>result.
     bnd (find_all w_proposals proposal_scoping (\<lambda>p. answers offer p \<and> prop_outcome p = PROPOSED)) (\<lambda>proposers.
     bnd (resolveRecipientAdmins (remdups (map prop_proposingCompanyId proposers))) (\<lambda>admins.
     bnd (notifyMany admins EXCHANGE_OFFER_CLOSED) (\<lambda>_.
     ret result)))))))))"

section \<open>Summary\<close>

record exchange_summary_result =
  es_incomingAwaitingAnswer :: nat
  es_outgoingOpen :: nat
  es_awardedThisMonth :: nat

definition count_offers :: "(exchange_offer \<Rightarrow> bool) \<Rightarrow> nat service" where
  "count_offers P = bnd (find_all w_offers offer_scoping P) (\<lambda>ds. ret (length ds))"

definition exchange_summary :: "instant \<Rightarrow> instant \<Rightarrow> oid \<Rightarrow> exchange_summary_result service" where
  "exchange_summary monthStart monthEnd acting =
     bnd (buildIncomingFilter acting) (\<lambda>incoming.
     bnd (find_all w_proposals proposal_scoping (\<lambda>p. prop_proposingCompanyId p = acting)) (\<lambda>answered.
     bnd (count_offers (\<lambda>d. incoming d \<and> off_state d = OPEN \<and> off_id d \<notin> set (map prop_offerId answered))) (\<lambda>awaiting.
     bnd (count_offers (\<lambda>d. off_raisedByCompanyId d = acting \<and> off_state d = OPEN)) (\<lambda>outgoingOpen.
     bnd (count_offers (\<lambda>d. (off_raisedByCompanyId d = acting \<or> off_awardedCompanyId d = Some acting) \<and>
            off_state d = AWARDED \<and>
            (case off_resolvedAt d of None \<Rightarrow> False | Some t \<Rightarrow> monthStart \<le> t \<and> t < monthEnd))) (\<lambda>awardedThisMonth.
     ret \<lparr>es_incomingAwaitingAnswer = awaiting, es_outgoingOpen = outgoingOpen,
          es_awardedThisMonth = awardedThisMonth\<rparr>)))))"


section \<open>The invariant of the market\<close>

definition proposal_ok :: "exchange_offer list \<Rightarrow> exchange_proposal \<Rightarrow> bool" where
  "proposal_ok offers p \<longleftrightarrow> (\<exists>d \<in> set offers. off_id d = prop_offerId p \<and>
     prop_offerRaisedByCompanyId p = off_raisedByCompanyId d \<and>
     prop_proposingCompanyId p \<noteq> off_raisedByCompanyId d \<and>
     (prop_outcome p = PROPOSED \<longrightarrow> prop_unitPrice p \<noteq> None) \<and>
     (off_state d = OPEN \<longrightarrow> prop_outcome p \<in> {PROPOSED, PROPOSAL_DECLINED}) \<and>
     (prop_outcome p = PROPOSAL_AWARDED \<longleftrightarrow> off_awardedProposalId d = Some (prop_id p)))"

definition offer_ok :: "exchange_proposal list \<Rightarrow> exchange_offer \<Rightarrow> bool" where
  "offer_ok proposals d \<longleftrightarrow>
     (if off_state d = AWARDED
      then (\<exists>p \<in> set proposals. off_awardedProposalId d = Some (prop_id p) \<and> prop_offerId p = off_id d \<and>
              prop_outcome p = PROPOSAL_AWARDED \<and> off_awardedCompanyId d = Some (prop_proposingCompanyId p) \<and>
              off_agreedUnitPrice d = prop_unitPrice p \<and> prop_unitPrice p \<noteq> None \<and>
              off_agreedTotal d = map_option (\<lambda>u. roundCurrency (u * off_quantityLitres d)) (prop_unitPrice p) \<and>
              off_agreedQuantityLitres d = Some (off_quantityLitres d))
      else off_awardedProposalId d = None \<and> off_awardedCompanyId d = None \<and> off_agreedTotal d = None)"

definition exchange_ok :: "world \<Rightarrow> bool" where
  "exchange_ok s \<longleftrightarrow> distinct (map off_id (w_offers s)) \<and> index_ok prop_id proposal_clash (w_proposals s) \<and>
     (\<forall>d \<in> set (w_offers s). off_id d < w_next_id s \<and> offer_ok (w_proposals s) d) \<and>
     (\<forall>p \<in> set (w_proposals s). prop_id p < w_next_id s \<and> proposal_ok (w_offers s) p)"

text \<open>A request of an administrator of the fuel company \<open>c\<close>.\<close>

definition acts_for :: "oid \<Rightarrow> world \<Rightarrow> bool" where
  "acts_for c s \<longleftrightarrow> rs_role (w_scope s) = Some FUEL_COMPANY_ADMIN \<and> rs_companyId (w_scope s) = Some c"

lemma acts_for_scoping:
  assumes "acts_for c s"
  shows "offer_scoping (w_scope s) = Inr (\<lambda>d. c \<in> set (off_partyCompanyIds d) \<or> off_openToMarket d)"
    and "proposal_scoping (w_scope s) = Inr (\<lambda>d. prop_proposingCompanyId d = c \<or> prop_offerRaisedByCompanyId d = c)"
    and "resolveActingCompanyId (w_scope s) = Inr (Some c)"
  using assms by (simp_all add: acts_for_def scope_defs)

interpretation proposal_index: unique_index w_proposals w_proposals_update prop_id proposal_clash
  by unfold_locales (auto simp: proposal_clash_def)

lemma recipients_run: "\<exists>us. resolveRecipientAdmins cs s = (Inr us, s)"
  by (simp add: resolveRecipientAdmins_def run_unscoped_def find_all_def ret_def)

lemma notifyMany_run: "\<exists>s'. notifyMany us t s = (Inr (), s') \<and> effects_only s s'"
  unfolding notifyMany_def by (rule for_each_effects) (rule notify_run)

lemma fanout_run:
  "\<exists>s'. bnd (resolveRecipientAdmins cs) (\<lambda>us. bnd (notifyMany us t) (\<lambda>_. ret x)) s = (Inr x, s') \<and> effects_only s s'"
proof -
  obtain us where us: "resolveRecipientAdmins cs s = (Inr us, s)" using recipients_run by blast
  obtain s' where "notifyMany us t s = (Inr (), s')" "effects_only s s'" using notifyMany_run by blast
  with us show ?thesis by (simp add: bnd_def ret_def)
qed

lemma notifyAward_run:
  assumes "acts_for c s"
  shows "\<exists>s'. notifyAward d w s = (Inr (), s') \<and> effects_only s s'"
proof -
  let ?losers = "filter (\<lambda>p. (prop_proposingCompanyId p = c \<or> prop_offerRaisedByCompanyId p = c) \<and>
    answers d p \<and> prop_outcome p = NOT_SELECTED) (w_proposals s)"
  obtain us where us: "resolveRecipientAdmins [w] s = (Inr us, s)" using recipients_run by blast
  obtain vs where vs: "resolveRecipientAdmins (remdups (map prop_proposingCompanyId ?losers)) s = (Inr vs, s)"
    using recipients_run by blast
  obtain s1 where s1: "notifyMany us EXCHANGE_OFFER_AWARDED s = (Inr (), s1)" "effects_only s s1"
    using notifyMany_run by blast
  obtain s2 where "notifyMany vs EXCHANGE_OFFER_CLOSED s1 = (Inr (), s2)" "effects_only s1 s2"
    using notifyMany_run by blast
  with us vs s1 show ?thesis
    by (auto simp: notifyAward_def bnd_def find_all_def acts_for_scoping [OF assms] intro: effects_only_trans)
qed

lemma exchange_ok_frame:
  assumes "exchange_ok s" "w_offers s' = w_offers s" "w_proposals s' = w_proposals s" "w_next_id s \<le> w_next_id s'"
  shows "exchange_ok s'"
  using assms by (auto simp: exchange_ok_def intro: less_le_trans)

lemma exchange_ok_effects: "exchange_ok s \<Longrightarrow> effects_only s s' \<Longrightarrow> exchange_ok s'"
  by (rule exchange_ok_frame) (auto simp: effects_only_def)

lemma acts_for_effects: "acts_for c s \<Longrightarrow> effects_only s s' \<Longrightarrow> acts_for c s'"
  by (simp add: acts_for_def effects_onlyD)


lemma createOffer_run:
  assumes "acts_for c s" and "createOffer c u dto s = (r, s')"
  shows "(\<exists>e. r = Inl e) \<and> s' = s \<or>
     r = Inr (new_offer (w_next_id s) c u dto) \<and>
     effects_only (w_offers_update (\<lambda>ds. ds @ [new_offer (w_next_id s) c u dto]) (s\<lparr>w_next_id := Suc (w_next_id s)\<rparr>)) s'"
proof -
  define rest where "rest cs d = bnd (resolveRecipientAdmins (map c_id cs)) (\<lambda>us.
    bnd (notifyMany us EXCHANGE_OFFER_AVAILABLE) (\<lambda>_. ret d))" for cs :: "company list" and d :: exchange_offer
  have rest: "r' = Inr d \<and> effects_only t t'" if "rest cs d t = (r', t')" for cs d t r' t'
    using fanout_run [of "map c_id cs" EXCHANGE_OFFER_AVAILABLE d t] that by (auto simp: rest_def)
  have valid: "offer_save_valid c (new_offer i c u dto)" for i by (simp add: offer_save_valid_def new_offer_def)
  from assms(2) valid show ?thesis
    unfolding createOffer_def rest_def [symmetric]
    by (cases r) (auto simp: prog_inv findActiveFuelCompaniesSellingGrade_def save_offer_def acts_for_scoping(3) [OF assms(1)]
        dest!: rest)
qed

lemma new_offer_ok:
  assumes "exchange_ok s"
  shows "exchange_ok (w_offers_update (\<lambda>ds. ds @ [new_offer (w_next_id s) c u dto]) (s\<lparr>w_next_id := Suc (w_next_id s)\<rparr>))"
proof -
  have fresh: "w_next_id s \<notin> off_id ` set (w_offers s)" using assms by (auto simp: exchange_ok_def)
  have "proposal_ok (w_offers s @ [d]) p" if "proposal_ok (w_offers s) p" for d p
    using that by (auto simp: proposal_ok_def)
  with assms fresh show ?thesis
    by (auto simp: exchange_ok_def offer_ok_def new_offer_def intro: less_SucI)
qed

lemma propose_run:
  assumes "propose i c u dto s = (r, s')"
  shows "(\<exists>e. r = Inl e) \<and> w_offers s' = w_offers s \<and> w_proposals s' = w_proposals s \<and> w_next_id s \<le> w_next_id s' \<and>
        w_scope s' = w_scope s \<or>
     (\<exists>d. get_by off_id i (w_offers s) = Some d \<and> off_raisedByCompanyId d \<noteq> c \<and> off_state d = OPEN \<and>
        pd_decline dto \<noteq> (pd_unitPrice dto \<noteq> None) \<and>
        (let p = new_proposal (w_next_id s) d c u dto (w_now s) in
         r = Inr p \<and> \<not> list_ex (\<lambda>x. proposal_clash x p) (w_proposals s) \<and>
         effects_only (w_proposals_update (\<lambda>ps. ps @ [p]) (s\<lparr>w_next_id := Suc (w_next_id s)\<rparr>)) s'))"
proof -
  define rest where "rest d p = bnd (resolveRecipientAdmins [off_raisedByCompanyId d]) (\<lambda>us.
    bnd (notifyMany us EXCHANGE_PROPOSAL_RECEIVED) (\<lambda>_. ret p))" for d :: exchange_offer and p :: exchange_proposal
  have rest: "r' = Inr p \<and> effects_only t t'" if "rest d p t = (r', t')" for d p t r' t'
    using fanout_run [of "[off_raisedByCompanyId d]" EXCHANGE_PROPOSAL_RECEIVED p t] that by (auto simp: rest_def)
  from assms show ?thesis
    unfolding propose_def rest_def [symmetric]
    by (cases r) (auto simp: prog_inv on_duplicate_def indexed_insert_def isActiveCompany_def getBasePrice_def Let_def
        dest!: rest split: if_splits)
qed


lemma new_proposal_ok:
  assumes ok: "exchange_ok s" and d: "get_by off_id i (w_offers s) = Some d" "off_raisedByCompanyId d \<noteq> c" "off_state d = OPEN"
    and dto: "pd_decline dto \<noteq> (pd_unitPrice dto \<noteq> None)"
    and free: "\<not> list_ex (\<lambda>x. proposal_clash x p) (w_proposals s)" and p: "p = new_proposal (w_next_id s) d c u dto t"
  shows "exchange_ok (w_proposals_update (\<lambda>ps. ps @ [p]) (s\<lparr>w_next_id := Suc (w_next_id s)\<rparr>))"
proof -
  have mem: "d \<in> set (w_offers s)" using d(1) by (rule get_by_mem)
  have key: "prop_id p = w_next_id s" by (simp add: p new_proposal_def)
  have fresh: "prop_id p \<notin> prop_id ` set (w_proposals s)" using ok by (auto simp: exchange_ok_def key)
  have "off_awardedProposalId d = None" using ok mem d(3) by (auto simp: exchange_ok_def offer_ok_def)
  then have "proposal_ok (w_offers s) p"
    using mem d(2,3) dto unfolding proposal_ok_def by (intro bexI [of _ d]) (auto simp: p new_proposal_def)
  moreover have "index_ok prop_id proposal_clash (w_proposals s @ [p])"
    using ok fresh free by (auto simp: exchange_ok_def index_ok_def list_ex_iff proposal_clash_def)
  moreover have "offer_ok (w_proposals s @ [p]) x" if "offer_ok (w_proposals s) x" for x
    using that by (auto simp: offer_ok_def split: if_splits)
  ultimately show ?thesis using ok by (auto simp: exchange_ok_def key intro: less_SucI)
qed

text \<open>What an award makes of a proposal, and the state it leaves.\<close>

definition resolved_by :: "exchange_offer \<Rightarrow> exchange_proposal \<Rightarrow> instant \<Rightarrow> exchange_proposal \<Rightarrow> exchange_proposal" where
  "resolved_by d p t x = (if answers d x
     then set_outcome (if prop_id x = prop_id p then PROPOSAL_AWARDED else NOT_SELECTED) t x else x)"

definition awards :: "exchange_offer \<Rightarrow> exchange_proposal \<Rightarrow> oid \<Rightarrow> world \<Rightarrow> world \<Rightarrow> bool" where
  "awards d p u s s' \<longleftrightarrow> w_offers s' = upd_by off_id (off_id d) (set_awarded d p u (w_now s)) (w_offers s) \<and>
     w_proposals s' = map (resolved_by d p (w_now s)) (w_proposals s) \<and>
     w_scope s' = w_scope s \<and> w_next_id s \<le> w_next_id s'"

lemma set_outcome_simps [simp]:
  "prop_id (set_outcome o' t p) = prop_id p" "prop_offerId (set_outcome o' t p) = prop_offerId p"
  "prop_proposingCompanyId (set_outcome o' t p) = prop_proposingCompanyId p"
  "prop_offerRaisedByCompanyId (set_outcome o' t p) = prop_offerRaisedByCompanyId p"
  "prop_outcome (set_outcome o' t p) = o'" "prop_unitPrice (set_outcome o' t p) = prop_unitPrice p"
  by (simp_all add: set_outcome_def)

lemma offer_patch_simps [simp]:
  "off_id (set_awarded d p u t x) = off_id x" "off_id (set_withdrawn u t x) = off_id x"
  "off_raisedByCompanyId (set_awarded d p u t x) = off_raisedByCompanyId x"
  "off_raisedByCompanyId (set_withdrawn u t x) = off_raisedByCompanyId x"
  "off_state (set_awarded d p u t x) = AWARDED" "off_state (set_withdrawn u t x) = WITHDRAWN"
  "off_openToMarket (set_awarded d p u t x) = off_openToMarket x"
  "off_partyCompanyIds (set_awarded d p u t x) = off_partyCompanyIds x"
  "off_openToMarket (set_withdrawn u t x) = off_openToMarket x"
  "off_partyCompanyIds (set_withdrawn u t x) = off_partyCompanyIds x"
  "off_awardedProposalId (set_awarded d p u t x) = Some (prop_id p)"
  "off_awardedCompanyId (set_awarded d p u t x) = Some (prop_proposingCompanyId p)"
  by (simp_all add: set_awarded_def set_withdrawn_def)

lemma offer_of_proposal:
  assumes "exchange_ok s" "p \<in> set (w_proposals s)" "get_by off_id (prop_offerId p) (w_offers s) = Some d"
  shows "prop_offerRaisedByCompanyId p = off_raisedByCompanyId d \<and>
     prop_proposingCompanyId p \<noteq> off_raisedByCompanyId d \<and>
     (prop_outcome p = PROPOSED \<longrightarrow> prop_unitPrice p \<noteq> None) \<and>
     (off_state d = OPEN \<longrightarrow> prop_outcome p \<in> {PROPOSED, PROPOSAL_DECLINED})"
proof -
  from assms(1,2) obtain d' where d': "d' \<in> set (w_offers s)" "off_id d' = prop_offerId p"
    and facts: "prop_offerRaisedByCompanyId p = off_raisedByCompanyId d' \<and>
     prop_proposingCompanyId p \<noteq> off_raisedByCompanyId d' \<and>
     (prop_outcome p = PROPOSED \<longrightarrow> prop_unitPrice p \<noteq> None) \<and>
     (off_state d' = OPEN \<longrightarrow> prop_outcome p \<in> {PROPOSED, PROPOSAL_DECLINED})"
    by (auto simp: exchange_ok_def proposal_ok_def)
  have "get_by off_id (prop_offerId p) (w_offers s) = Some d'"
    using get_by_distinct [of off_id "w_offers s" d'] d' assms(1) by (simp add: exchange_ok_def)
  with assms(3) facts show ?thesis by simp
qed


lemma resolve_offer_run:
  assumes ok: "exchange_ok s" and acts: "acts_for c s"
    and d: "get_by off_id i (w_offers s) = Some d" "off_raisedByCompanyId d = c" "c \<in> set (off_partyCompanyIds d) \<or> off_openToMarket d"
    and p: "get_by prop_id pid (w_proposals s) = Some p" "answers d p" "\<not> declined p"
  shows "if off_state d = OPEN
     then \<exists>s'. resolve_offer d p u (w_now s) s = (Inr (set_awarded d p u (w_now s) d), s') \<and> awards d p u s s'
     else resolve_offer d p u (w_now s) s = (Inl (Conflict (Some EXCHANGE_ALREADY_RESOLVED)), s)"
proof (cases "off_state d = OPEN")
  case False
  then show ?thesis using d acts_for_scoping(1) [OF acts] get_by_key [OF d(1)]
    by (simp add: resolve_offer_def bnd_def find_and_update_def cas_def demand_def)
next
  case True
  define t where "t = w_now s"
  have id: "off_id d = i" "prop_id p = pid" using get_by_key [OF d(1)] get_by_key [OF p(1)] by auto
  have raiser: "prop_offerRaisedByCompanyId x = c" if "x \<in> set (w_proposals s)" "answers d x" for x
    using offer_of_proposal [OF ok that(1)] d(1,2) id that(2) by (simp add: answers_def)
  have only: "x = p" if "x \<in> set (w_proposals s)" "prop_id x = pid" for x
    using get_by_distinct [of prop_id "w_proposals s" x] that p(1) ok by (simp add: exchange_ok_def index_ok_def)
  define s1 where "s1 = w_offers_update (upd_by off_id i (set_awarded d p u t)) s"
  define s2 where "s2 = w_proposals_update (upd_by prop_id pid (set_outcome PROPOSAL_AWARDED t)) s1"
  define vis where "vis x \<longleftrightarrow> prop_proposingCompanyId x = c \<or> prop_offerRaisedByCompanyId x = c" for x :: exchange_proposal
  define s3 where "s3 = w_proposals_update (upd_where (\<lambda>x. vis x \<and> answers d x \<and> prop_id x \<noteq> pid) (set_outcome NOT_SELECTED t)) s2"
  have acts12: "acts_for c s1" "acts_for c s2" using acts by (simp_all add: acts_for_def s1_def s2_def)
  have "vis p" using raiser [OF get_by_mem [OF p(1)] p(2)] by (simp add: vis_def)
  have "resolve_offer d p u t s = (Inr (set_awarded d p u t d), s3)"
    using True d(1,3) p(1) id \<open>vis p\<close> acts_for_scoping [OF acts] acts_for_scoping [OF acts12(1)] acts_for_scoping [OF acts12(2)]
    by (simp add: resolve_offer_def bnd_def find_and_update_def cas_def demand_def update_many_def ret_def
        s1_def s2_def s3_def vis_def cong: if_cong)
  moreover have "w_proposals s3 = map (resolved_by d p t) (w_proposals s)"
    using raiser only p(2) id
    by (auto simp: s3_def s2_def s1_def upd_by_def upd_where_def resolved_by_def vis_def answers_def)
  ultimately show ?thesis using True id by (simp add: awards_def s1_def s2_def s3_def t_def)
qed

lemma resolved_by_simps [simp]:
  "prop_id (resolved_by d p t x) = prop_id x" "prop_offerId (resolved_by d p t x) = prop_offerId x"
  "prop_proposingCompanyId (resolved_by d p t x) = prop_proposingCompanyId x"
  "prop_offerRaisedByCompanyId (resolved_by d p t x) = prop_offerRaisedByCompanyId x"
  "prop_unitPrice (resolved_by d p t x) = prop_unitPrice x"
  "prop_outcome (resolved_by d p t x) = (if answers d x
     then if prop_id x = prop_id p then PROPOSAL_AWARDED else NOT_SELECTED else prop_outcome x)"
  by (simp_all add: resolved_by_def)

lemma awards_offer_ok:
  assumes ok: "exchange_ok s" and d: "d \<in> set (w_offers s)" "off_state d = OPEN"
    and p: "p \<in> set (w_proposals s)" "answers d p" "prop_unitPrice p \<noteq> None" and a: "awards d p u s s'"
    and y: "y \<in> set (w_offers s')"
  shows "offer_ok (w_proposals s') y"
proof -
  have only: "x = d" if "x \<in> set (w_offers s)" "off_id x = off_id d" for x
    using that d(1) ok by (auto simp: exchange_ok_def distinct_map inj_on_def)
  have props: "w_proposals s' = map (resolved_by d p (w_now s)) (w_proposals s)" using a by (simp add: awards_def)
  from y consider "y \<in> set (w_offers s)" "off_id y \<noteq> off_id d" | "y = set_awarded d p u (w_now s) d"
    using only a by (auto simp: awards_def upd_by_def split: if_splits)
  then show ?thesis
  proof cases
    case 1
    then have "offer_ok (w_proposals s) y" using ok by (simp add: exchange_ok_def)
    with 1 show ?thesis by (force simp: offer_ok_def props answers_def split: if_splits)
  next
    case 2
    have "resolved_by d p (w_now s) p \<in> set (w_proposals s')" using p(1) by (simp add: props)
    with 2 p show ?thesis
      by (auto simp: offer_ok_def set_awarded_def answers_def intro!: bexI [of _ "resolved_by d p (w_now s) p"])
  qed
qed

lemma awards_proposal_ok:
  assumes ok: "exchange_ok s" and d: "d \<in> set (w_offers s)" and a: "awards d p u s s'"
    and q: "q \<in> set (w_proposals s')"
  shows "proposal_ok (w_offers s') q"
proof -
  have only: "x = d" if "x \<in> set (w_offers s)" "off_id x = off_id d" for x
    using that d ok by (auto simp: exchange_ok_def distinct_map inj_on_def)
  from q a obtain x where x: "x \<in> set (w_proposals s)" "q = resolved_by d p (w_now s) x" by (auto simp: awards_def)
  then obtain e where e: "e \<in> set (w_offers s)" "off_id e = prop_offerId x" and ok': "proposal_ok [e] x"
    using ok by (auto simp: exchange_ok_def proposal_ok_def)
  define e' where "e' = (if off_id e = off_id d then set_awarded d p u (w_now s) e else e)"
  have "e' \<in> set (w_offers s')" using e(1) a by (auto simp: awards_def e'_def upd_by_def)
  moreover have "proposal_ok [e'] q"
    using ok' x(2) e only by (cases "off_id e = off_id d") (auto simp: proposal_ok_def e'_def answers_def)
  ultimately show ?thesis by (auto simp: proposal_ok_def)
qed

lemma awards_ok:
  assumes ok: "exchange_ok s" and d: "get_by off_id i (w_offers s) = Some d" "off_state d = OPEN"
    and p: "p \<in> set (w_proposals s)" "answers d p" "\<not> declined p" and a: "awards d p u s s'"
  shows "exchange_ok s'"
proof -
  have mem: "d \<in> set (w_offers s)" using d(1) by (rule get_by_mem)
  have price: "prop_unitPrice p \<noteq> None"
    using offer_of_proposal [OF ok p(1), of d] d get_by_key [OF d(1)] p(2,3) by (auto simp: answers_def declined_def)
  have "prop_id \<circ> resolved_by d p (w_now s) = prop_id" by (rule ext) simp
  then have "index_ok prop_id proposal_clash (w_proposals s')"
    using ok a by (auto simp: exchange_ok_def index_ok_def awards_def proposal_clash_def)
  moreover have "distinct (map off_id (w_offers s'))" using ok a by (simp add: exchange_ok_def awards_def)
  moreover have "\<forall>y \<in> set (w_offers s'). off_id y < w_next_id s'" "\<forall>q \<in> set (w_proposals s'). prop_id q < w_next_id s'"
    using ok a by (auto simp: exchange_ok_def awards_def upd_by_def split: if_splits intro: less_le_trans)
  ultimately show ?thesis
    using awards_offer_ok [OF ok mem d(2) p(1,2) price a] awards_proposal_ok [OF ok mem a] by (simp add: exchange_ok_def)
qed

lemma award_run:
  assumes ok: "exchange_ok s" and acts: "acts_for c s" and run: "award i c u pid s = (r, s')"
  shows "(\<exists>e \<in> {NotFound, Conflict (Some EXCHANGE_ALREADY_RESOLVED)}. r = Inl e \<and> s' = s) \<or>
     (\<exists>d p. get_by off_id i (w_offers s) = Some d \<and> off_raisedByCompanyId d = c \<and> off_state d = OPEN \<and>
        get_by prop_id pid (w_proposals s) = Some p \<and> answers d p \<and> \<not> declined p \<and>
        r = Inr (set_awarded d p u (w_now s) d) \<and> awards d p u s s')"
proof (cases "\<exists>d p. get_by off_id i (w_offers s) = Some d \<and> off_raisedByCompanyId d = c \<and>
    (c \<in> set (off_partyCompanyIds d) \<or> off_openToMarket d) \<and>
    get_by prop_id pid (w_proposals s) = Some p \<and> (prop_proposingCompanyId p = c \<or> prop_offerRaisedByCompanyId p = c) \<and>
    answers d p \<and> \<not> declined p")
  case False
  then have "award i c u pid s = (Inl NotFound, s)"
    using acts_for_scoping(1,2) [OF acts]
    by (auto simp: award_def bnd_def find_one_def demand_def guard_def split: option.splits)
  with run show ?thesis by simp
next
  case True
  then obtain d p where d: "get_by off_id i (w_offers s) = Some d" "off_raisedByCompanyId d = c"
      "c \<in> set (off_partyCompanyIds d) \<or> off_openToMarket d"
    and p: "get_by prop_id pid (w_proposals s) = Some p" "answers d p" "\<not> declined p"
    and vis: "prop_proposingCompanyId p = c \<or> prop_offerRaisedByCompanyId p = c" by auto
  have unfold: "award i c u pid s = bnd (transaction (resolve_offer d p u (w_now s))) (\<lambda>x.
      bnd (notifyAward x (prop_proposingCompanyId p)) (\<lambda>_. ret x)) s"
    using d p vis acts_for_scoping(1,2) [OF acts] by (simp add: award_def bnd_def find_one_def demand_def guard_def asks_def)
  show ?thesis
  proof (cases "off_state d = OPEN")
    case False
    with resolve_offer_run [OF ok acts d p, of u] run show ?thesis
      by (auto simp: unfold bnd_def transaction_def rollback_def)
  next
    case True
    with resolve_offer_run [OF ok acts d p, of u] obtain s1 where
      s1: "resolve_offer d p u (w_now s) s = (Inr (set_awarded d p u (w_now s) d), s1)" "awards d p u s s1" by auto
    have "acts_for c s1" using acts s1(2) by (simp add: acts_for_def awards_def)
    from notifyAward_run [OF this] obtain s2 where
      "notifyAward (set_awarded d p u (w_now s) d) (prop_proposingCompanyId p) s1 = (Inr (), s2)" "effects_only s1 s2" by blast
    with s1 run True d p show ?thesis
      by (auto simp: unfold bnd_def transaction_def ret_def awards_def effects_only_def)
  qed
qed

lemma withdraw_run:
  assumes acts: "acts_for c s" and run: "withdraw i c u s = (r, s')"
  shows "(\<exists>e \<in> {NotFound, Conflict (Some EXCHANGE_ALREADY_RESOLVED)}. r = Inl e \<and> s' = s) \<or>
     (\<exists>d. get_by off_id i (w_offers s) = Some d \<and> off_raisedByCompanyId d = c \<and> off_state d = OPEN \<and>
        r = Inr (set_withdrawn u (w_now s) d) \<and>
        effects_only (w_offers_update (upd_by off_id i (set_withdrawn u (w_now s))) s) s')"
proof -
  define rest where "rest ps x = bnd (resolveRecipientAdmins (remdups (map prop_proposingCompanyId ps))) (\<lambda>us.
    bnd (notifyMany us EXCHANGE_OFFER_CLOSED) (\<lambda>_. ret x))" for ps :: "exchange_proposal list" and x :: exchange_offer
  have rest: "r' = Inr x \<and> effects_only t t'" if "rest ps x t = (r', t')" for ps x t r' t'
    using fanout_run [of "remdups (map prop_proposingCompanyId ps)" EXCHANGE_OFFER_CLOSED x t] that by (auto simp: rest_def)
  have key: "off_id x = i" if "get_by off_id i (w_offers s) = Some x" for x using that by (rule get_by_key)
  from run show ?thesis
    unfolding withdraw_def rest_def [symmetric]
    by (cases r) (auto simp: prog_inv acts_for_scoping [OF acts] key dest!: rest split: if_splits)
qed


lemma withdrawn_ok:
  assumes ok: "exchange_ok s" and d: "get_by off_id i (w_offers s) = Some d" "off_state d = OPEN"
  shows "exchange_ok (w_offers_update (upd_by off_id i (set_withdrawn u t)) s)"
proof -
  have only: "x = d" if "x \<in> set (w_offers s)" "off_id x = i" for x
    using get_by_distinct [of off_id "w_offers s" x] that d(1) ok by (simp add: exchange_ok_def)
  have withdrawn: "offer_ok ps (set_withdrawn u t d)" if "offer_ok ps d" for ps
    using that d(2) by (simp add: offer_ok_def set_withdrawn_def)
  have "off_id y < w_next_id s \<and> offer_ok (w_proposals s) y" if "y \<in> set (upd_by off_id i (set_withdrawn u t) (w_offers s))" for y
    using that ok only withdrawn by (auto simp: exchange_ok_def upd_by_def)
  moreover have "proposal_ok (upd_by off_id i (set_withdrawn u t) (w_offers s)) p" if p: "proposal_ok (w_offers s) p" for p
  proof -
    from p obtain e where e: "e \<in> set (w_offers s)" and ok': "proposal_ok [e] p" by (auto simp: proposal_ok_def)
    define e' where "e' = (if off_id e = i then set_withdrawn u t e else e)"
    have "e' \<in> set (upd_by off_id i (set_withdrawn u t) (w_offers s))" using e by (auto simp: e'_def upd_by_def)
    moreover have "proposal_ok [e'] p"
      using ok' by (cases "off_id e = i") (simp_all add: proposal_ok_def e'_def set_withdrawn_def)
    ultimately show ?thesis by (auto simp: proposal_ok_def)
  qed
  ultimately show ?thesis using ok by (simp add: exchange_ok_def)
qed

definition exchange_inv :: "oid \<Rightarrow> world \<Rightarrow> bool" where
  "exchange_inv c s \<longleftrightarrow> exchange_ok s \<and> acts_for c s"

lemma exchange_inv_effects:
  "effects_only s s' \<Longrightarrow> exchange_ok s \<Longrightarrow> acts_for c s \<Longrightarrow> exchange_inv c s'"
  unfolding exchange_inv_def by (blast intro: exchange_ok_effects acts_for_effects)

lemma propose_keeps:
  assumes ok: "exchange_ok s" and acts: "acts_for c s" and run: "propose i c u dto s = (r, s')"
  shows "exchange_inv c s'"
  using propose_run [OF run]
proof (elim disjE exE conjE)
  assume "w_offers s' = w_offers s" "w_proposals s' = w_proposals s" "w_next_id s \<le> w_next_id s'" "w_scope s' = w_scope s"
  with exchange_ok_frame [OF ok] acts show ?thesis by (simp add: exchange_inv_def acts_for_def)
next
  fix d
  define p where "p = new_proposal (w_next_id s) d c u dto (w_now s)"
  assume d: "get_by off_id i (w_offers s) = Some d" "off_raisedByCompanyId d \<noteq> c" "off_state d = OPEN"
    and dto: "pd_decline dto \<noteq> (pd_unitPrice dto \<noteq> None)"
    and post: "let p = new_proposal (w_next_id s) d c u dto (w_now s) in
         r = Inr p \<and> \<not> list_ex (\<lambda>x. proposal_clash x p) (w_proposals s) \<and>
         effects_only (w_proposals_update (\<lambda>ps. ps @ [p]) (s\<lparr>w_next_id := Suc (w_next_id s)\<rparr>)) s'"
  from post have "\<not> list_ex (\<lambda>x. proposal_clash x p) (w_proposals s)"
    and eff: "effects_only (w_proposals_update (\<lambda>ps. ps @ [p]) (s\<lparr>w_next_id := Suc (w_next_id s)\<rparr>)) s'"
    by (simp_all add: p_def Let_def)
  from new_proposal_ok [OF ok d dto this(1) p_def] eff acts show ?thesis
    by (auto simp: acts_for_def intro: exchange_inv_effects)
qed

text \<open>C14: in the requests of a fuel company, raising, answering, awarding and withdrawing offers keep the market well
  formed, whether they succeed or throw: every proposal answers an existing offer of another company, a company answers
  an offer at most once, an awarded offer names the one awarded proposal, its company, its unit price and the rounded
  total, and an offer that is not awarded carries no agreed figures.\<close>

theorem exchange_stays_well_formed:
  "keeps (exchange_inv c) (createOffer c u odto) \<and> keeps (exchange_inv c) (propose i c u pdto) \<and>
   keeps (exchange_inv c) (award i c u pid) \<and> keeps (exchange_inv c) (withdraw i c u)"
proof (intro conjI; rule keepsI)
  fix s r s' assume s: "exchange_inv c s"
  then have ok: "exchange_ok s" and acts: "acts_for c s" by (simp_all add: exchange_inv_def)
  {
    assume "createOffer c u odto s = (r, s')"
    from createOffer_run [OF acts this] show "exchange_inv c s'"
      using s new_offer_ok [OF ok] acts by (auto simp: acts_for_def intro: exchange_inv_effects)
  next
    assume "propose i c u pdto s = (r, s')"
    then show "exchange_inv c s'" by (rule propose_keeps [OF ok acts])
  next
    assume "award i c u pid s = (r, s')"
    from award_run [OF ok acts this] show "exchange_inv c s'"
      using s awards_ok [OF ok] acts by (auto simp: exchange_inv_def acts_for_def awards_def dest: get_by_mem)
  next
    assume "withdraw i c u s = (r, s')"
    from withdraw_run [OF acts this] show "exchange_inv c s'"
      using s withdrawn_ok [OF ok] acts by (auto simp: acts_for_def intro: exchange_inv_effects)
  }
qed


lemma offers_closed:
  assumes "exchange_inv c s" and "get_by off_id i (w_offers s) = Some d" and "off_state d \<noteq> OPEN"
  shows "\<exists>e \<in> {NotFound, Conflict (Some EXCHANGE_ALREADY_RESOLVED)}. award i c u pid s = (Inl e, s)"
    and "\<exists>e \<in> {NotFound, Conflict (Some EXCHANGE_ALREADY_RESOLVED)}. withdraw i c u s = (Inl e, s)"
proof -
  from assms(1) have ok: "exchange_ok s" and acts: "acts_for c s" by (simp_all add: exchange_inv_def)
  obtain r s1 where "award i c u pid s = (r, s1)" by fastforce
  with award_run [OF ok acts this] assms(2,3) show "\<exists>e \<in> {NotFound, Conflict (Some EXCHANGE_ALREADY_RESOLVED)}. award i c u pid s = (Inl e, s)" by auto
  obtain r s1 where "withdraw i c u s = (r, s1)" by fastforce
  with withdraw_run [OF acts this] assms(2,3) show "\<exists>e \<in> {NotFound, Conflict (Some EXCHANGE_ALREADY_RESOLVED)}. withdraw i c u s = (Inl e, s)" by auto
qed

lemma propose_closed:
  assumes "get_by off_id i (w_offers s) = Some d" and "off_state d \<noteq> OPEN"
  shows "\<exists>e s'. propose i c u dto s = (Inl e, s') \<and> w_proposals s' = w_proposals s"
proof -
  obtain r s1 where run: "propose i c u dto s = (r, s1)" by fastforce
  with propose_run [OF run] assms show ?thesis by auto
qed

text \<open>C33: an award stands and is the last word on its offer: the offer returned is the one stored, it names the
  company of the awarded proposal and the rounded total of its price, every other proposal on the offer, a declined one
  included, is marked as not selected, any further award or withdrawal is refused without a change, and no company can
  answer the offer any more.\<close>

theorem award_resolves_once:
  assumes "exchange_inv c s" and "award i c u pid s = (Inr d, s')"
  shows "get_by off_id i (w_offers s') = Some d \<and> off_state d = AWARDED \<and>
    (\<exists>p price. get_by prop_id pid (w_proposals s) = Some p \<and> prop_outcome p = PROPOSED \<and> prop_unitPrice p = Some price \<and>
       off_awardedCompanyId d = Some (prop_proposingCompanyId p) \<and>
       off_agreedTotal d = Some (roundCurrency (price * off_quantityLitres d))) \<and>
    (\<forall>p \<in> set (w_proposals s'). prop_offerId p = i \<longrightarrow>
       prop_outcome p = (if prop_id p = pid then PROPOSAL_AWARDED else NOT_SELECTED)) \<and>
    (\<forall>u' pid'. \<exists>e \<in> {NotFound, Conflict (Some EXCHANGE_ALREADY_RESOLVED)}. award i c u' pid' s' = (Inl e, s')) \<and>
    (\<forall>u'. \<exists>e \<in> {NotFound, Conflict (Some EXCHANGE_ALREADY_RESOLVED)}. withdraw i c u' s' = (Inl e, s')) \<and>
    (\<forall>sc c' u' dto. \<exists>e s2. propose i c' u' dto (s'\<lparr>w_scope := sc\<rparr>) = (Inl e, s2) \<and> w_proposals s2 = w_proposals s')"
proof -
  from assms(1) have ok: "exchange_ok s" and acts: "acts_for c s" by (simp_all add: exchange_inv_def)
  from award_run [OF ok acts assms(2)] obtain x p where x: "get_by off_id i (w_offers s) = Some x" "off_state x = OPEN"
    and p: "get_by prop_id pid (w_proposals s) = Some p" "answers x p" "\<not> declined p"
    and d: "d = set_awarded x p u (w_now s) x" and a: "awards x p u s s'" by auto
  have id: "off_id x = i" "prop_id p = pid" using get_by_key [OF x(1)] get_by_key [OF p(1)] by auto
  have stored: "get_by off_id i (w_offers s') = Some d" using a x(1) id by (simp add: awards_def get_by_upd_by d)
  have kind: "prop_outcome p = PROPOSED \<and> prop_unitPrice p \<noteq> None"
    using offer_of_proposal [OF ok get_by_mem [OF p(1)], of x] x p id by (auto simp: answers_def declined_def)
  have inv': "exchange_inv c s'"
    using awards_ok [OF ok x get_by_mem [OF p(1)] p(2,3) a] acts a by (simp add: exchange_inv_def acts_for_def awards_def)
  have closed: "off_state d \<noteq> OPEN" by (simp add: d)
  have "prop_outcome q = (if prop_id q = pid then PROPOSAL_AWARDED else NOT_SELECTED)"
    if "q \<in> set (w_proposals s')" "prop_offerId q = i" for q
    using that a id by (auto simp: awards_def answers_def)
  moreover have "off_awardedCompanyId d = Some (prop_proposingCompanyId p)" "off_quantityLitres d = off_quantityLitres x"
    "off_agreedTotal d = map_option (\<lambda>u. roundCurrency (u * off_quantityLitres x)) (prop_unitPrice p)" "off_state d = AWARDED"
    by (simp_all add: d set_awarded_def)
  moreover have "\<exists>e s2. propose i c' u' dto (s'\<lparr>w_scope := sc\<rparr>) = (Inl e, s2) \<and> w_proposals s2 = w_proposals s'" for sc c' u' dto
    using propose_closed [of i "s'\<lparr>w_scope := sc\<rparr>" d c' u' dto] stored closed by simp
  ultimately show ?thesis using stored kind p(1) offers_closed [OF inv' stored closed] by auto
qed


section \<open>What a company can learn\<close>

text \<open>Two states are alike for a company when they differ only in what it may not see: the answers of
  other companies to offers it did not raise, and the outcome of awards in which it is neither the
  raiser nor the winner.\<close>

definition masked :: "oid \<Rightarrow> exchange_offer \<Rightarrow> exchange_offer" where
  "masked c d = (if off_raisedByCompanyId d = c \<or> off_state d = AWARDED \<and> off_awardedCompanyId d = Some c then d
     else d\<lparr>off_awardedProposalId := None, off_awardedCompanyId := None, off_agreedUnitPrice := None,
            off_agreedTotal := None, off_agreedQuantityLitres := None\<rparr>)"

definition visible_to :: "oid \<Rightarrow> exchange_proposal \<Rightarrow> bool" where
  "visible_to c p \<longleftrightarrow> prop_proposingCompanyId p = c \<or> prop_offerRaisedByCompanyId p = c"

definition alike :: "oid \<Rightarrow> world \<Rightarrow> world \<Rightarrow> bool" where
  "alike c s s' \<longleftrightarrow> acts_for c s \<and> w_scope s' = w_scope s \<and> w_companies s' = w_companies s \<and>
     map (masked c) (w_offers s') = map (masked c) (w_offers s) \<and>
     filter (visible_to c) (w_proposals s') = filter (visible_to c) (w_proposals s)"

definition blind :: "oid \<Rightarrow> 'a service \<Rightarrow> bool" where
  "blind c m \<longleftrightarrow> (\<forall>s s'. alike c s s' \<longrightarrow> fst (m s) = fst (m s') \<and> snd (m s) = s \<and> snd (m s') = s')"

lemma blindD: "blind c m \<Longrightarrow> alike c s s' \<Longrightarrow> fst (m s) = fst (m s')"
  by (simp add: blind_def)

lemma blind_basic [intro, simp]: "blind c (ret a)" "blind c (guard b e)" "blind c (demand e x)" "blind c (throw e)"
  by (simp_all add: blind_def ret_def guard_def demand_def throw_def split: option.splits)

lemma blind_asks: "(\<And>s s'. alike c s s' \<Longrightarrow> f s = f s') \<Longrightarrow> blind c (asks f)"
  by (simp add: blind_def asks_def)

lemma blind_bnd:
  assumes "blind c m" and "\<And>a s. fst (m s) = Inr a \<Longrightarrow> blind c (f a)"
  shows "blind c (bnd m f)"
  unfolding blind_def
proof (intro allI impI)
  fix s s' assume al: "alike c s s'"
  from assms(1) al have m: "fst (m s) = fst (m s')" "snd (m s) = s" "snd (m s') = s'" by (simp_all add: blind_def)
  show "fst (bnd m f s) = fst (bnd m f s') \<and> snd (bnd m f s) = s \<and> snd (bnd m f s') = s'"
  proof (cases "fst (m s)")
    case (Inl e)
    with m have "m s = (Inl e, s)" "m s' = (Inl e, s')" by (simp_all add: prod_eq_iff)
    then show ?thesis by (simp add: bnd_def)
  next
    case (Inr a)
    with m have "m s = (Inr a, s)" "m s' = (Inr a, s')" by (simp_all add: prod_eq_iff)
    with assms(2) [OF Inr] al show ?thesis by (simp add: bnd_def blind_def)
  qed
qed

lemma blind_traverse: "(\<And>x. blind c (f x)) \<Longrightarrow> blind c (traverse f xs)"
  by (induction xs) (auto intro!: blind_bnd)

lemma blind_companies [intro, simp]: "blind c (findCompany i)" "blind c findSuspendedFuelCompanyIds"
  by (auto simp: findCompany_def findSuspendedFuelCompanyIds_def alike_def intro!: blind_bnd blind_asks)

lemma blind_proposals [intro, simp]: "blind c (find_all w_proposals proposal_scoping P)"
  unfolding blind_def
proof (intro allI impI)
  fix s s' assume al: "alike c s s'"
  define Q where "Q = (\<lambda>p. (prop_proposingCompanyId p = c \<or> prop_offerRaisedByCompanyId p = c) \<and> P p)"
  have "filter Q ps = filter P (filter (visible_to c) ps)" for ps
    unfolding filter_filter by (rule filter_cong) (auto simp: Q_def visible_to_def)
  then have "filter Q (w_proposals s') = filter Q (w_proposals s)" using al by (simp only: alike_def)
  moreover have "acts_for c s" "acts_for c s'" using al by (simp_all add: alike_def acts_for_def)
  then have "find_all w_proposals proposal_scoping P t = (Inr (filter Q (w_proposals t)), t)" if "t \<in> {s, s'}" for t
    using that by (auto simp: find_all_def acts_for_scoping(2) Q_def)
  ultimately show "fst (find_all w_proposals proposal_scoping P s) = fst (find_all w_proposals proposal_scoping P s') \<and>
      snd (find_all w_proposals proposal_scoping P s) = s \<and> snd (find_all w_proposals proposal_scoping P s') = s'"
    by simp
qed

lemma blind_count [intro, simp]: "blind c (count_proposals P)"
  by (auto simp: count_proposals_def intro!: blind_bnd)

lemma masked_simps [simp]:
  "off_id (masked c d) = off_id d" "off_raisedByCompanyId (masked c d) = off_raisedByCompanyId d"
  "off_openToMarket (masked c d) = off_openToMarket d" "off_partyCompanyIds (masked c d) = off_partyCompanyIds d"
  "off_fuelType (masked c d) = off_fuelType d" "off_state (masked c d) = off_state d"
  "off_quantityLitres (masked c d) = off_quantityLitres d" "off_resolvedAt (masked c d) = off_resolvedAt d"
  by (simp_all add: masked_def)

lemma mask_entitled:
  "off_state d = AWARDED \<and> off_awardedCompanyId (masked c d) = Some c \<longleftrightarrow> off_state d = AWARDED \<and> off_awardedCompanyId d = Some c"
  "off_raisedByCompanyId d = c \<or> off_state d = AWARDED \<and> off_awardedCompanyId d = Some c \<Longrightarrow> masked c d = d"
  by (auto simp: masked_def)

lemma filter_masked:
  assumes "map (masked c) ds' = map (masked c) ds" "\<And>d. P (masked c d) = P d"
  shows "map (masked c) (filter P ds') = map (masked c) (filter P ds)"
proof -
  have "map (masked c) (filter P xs) = filter P (map (masked c) xs)" for xs
    by (simp add: filter_map comp_def assms(2))
  with assms(1) show ?thesis by simp
qed

lemma blind_offers:
  assumes "\<And>d. P (masked c d) = P d" and "\<And>ds. f (map (masked c) ds) = f ds" and "\<And>ds. blind c (f ds)"
  shows "blind c (bnd (find_all w_offers offer_scoping P) f)"
  unfolding blind_def
proof (intro allI impI)
  fix s s' assume al: "alike c s s'"
  define Q where "Q = (\<lambda>d. (c \<in> set (off_partyCompanyIds d) \<or> off_openToMarket d) \<and> P d)"
  have scope: "acts_for c s" "acts_for c s'" using al by (simp_all add: alike_def acts_for_def)
  have "bnd (find_all w_offers offer_scoping P) f t = f (filter Q (w_offers t)) t" if "acts_for c t" for t
    by (simp add: bnd_def find_all_def acts_for_scoping(1) [OF that] Q_def)
  moreover have "map (masked c) (filter Q (w_offers s')) = map (masked c) (filter Q (w_offers s))"
    using al by (intro filter_masked) (simp_all add: alike_def Q_def assms(1))
  then have "f (filter Q (w_offers s')) = f (filter Q (w_offers s))" by (metis assms(2))
  ultimately show "fst (bnd (find_all w_offers offer_scoping P) f s) = fst (bnd (find_all w_offers offer_scoping P) f s') \<and>
      snd (bnd (find_all w_offers offer_scoping P) f s) = s \<and> snd (bnd (find_all w_offers offer_scoping P) f s') = s'"
    using assms(3) al scope by (simp add: blind_def)
qed


lemma incoming_masked:
  assumes "fst (buildIncomingFilter c s) = Inr P"
  shows "P (masked c d) = P d"
  using assms
  by (auto simp: buildIncomingFilter_def findSuspendedFuelCompanyIds_def findCompany_def bnd_def asks_def demand_def ret_def
      Let_def split: option.splits)

lemma blind_incoming [intro, simp]: "blind c (buildIncomingFilter c)"
  by (auto simp: buildIncomingFilter_def Let_def intro!: blind_bnd)

lemma shape_item_masked: "shape_item c names (masked c d) = shape_item c names d"
proof (cases "off_raisedByCompanyId d = c \<or> off_state d = AWARDED \<and> off_awardedCompanyId d = Some c")
  case True
  then show ?thesis by (simp only: mask_entitled(2))
next
  case False
  then show ?thesis by (auto simp: shape_item_def masked_def toOfferSummary_def)
qed

lemma blind_shape [intro, simp]: "blind c (shape_item c names d)"
  by (auto simp: shape_item_def Let_def intro!: blind_bnd)

lemma traverse_cong: "(\<And>x. x \<in> set xs \<Longrightarrow> f x = g x) \<Longrightarrow> traverse f xs = traverse g xs"
  by (induction xs) auto

lemma traverse_map: "traverse f (map g xs) = traverse (\<lambda>x. f (g x)) xs"
  by (induction xs) simp_all

lemma shapeListItems_masked: "shapeListItems (map (masked c) ds) c = shapeListItems ds c"
  by (simp add: shapeListItems_def comp_def traverse_map shape_item_masked)

lemma blind_shapeListItems [intro, simp]: "blind c (shapeListItems ds c)"
  by (auto simp: shapeListItems_def intro!: blind_bnd blind_traverse)

lemma count_offers_blind:
  assumes "\<And>d. P (masked c d) = P d"
  shows "blind c (count_offers P)"
  unfolding count_offers_def by (rule blind_offers) (simp_all add: assms)

lemma blind_findAllOffers: "blind c (findAllOffers c dir st)"
proof -
  define sel :: "((exchange_offer \<Rightarrow> bool) \<times> offer_state option) service" where "sel = (case dir of
      Outgoing \<Rightarrow> ret (\<lambda>d. off_raisedByCompanyId d = c, st)
    | Incoming \<Rightarrow> bnd (buildIncomingFilter c) (\<lambda>incoming.
        ret (incoming, case st of None \<Rightarrow> Some OPEN | Some st \<Rightarrow> Some st))
    | AllOffers \<Rightarrow> bnd (buildIncomingFilter c) (\<lambda>incoming.
        ret (\<lambda>d. off_raisedByCompanyId d = c \<or> incoming d, st)))"
  have sel: "blind c sel" by (cases dir) (auto simp: sel_def intro!: blind_bnd)
  have resp: "P (masked c d) = P d" if "fst (sel s) = Inr (P, st')" for P st' s d
  proof -
    obtain r s1 where b: "buildIncomingFilter c s = (r, s1)" by fastforce
    from that b show ?thesis
      by (cases dir; cases r) (auto simp: sel_def ret_def bnd_def incoming_masked [of c s, simplified b fst_conv])
  qed
  show ?thesis
    unfolding findAllOffers_def Let_def sel_def [symmetric]
  proof (rule blind_bnd [OF sel])
    fix a s assume run: "fst (sel s) = Inr a"
    obtain P st' where a: "a = (P, st')" by (cases a)
    have P: "P (masked c d) = P d" for d using resp run a by blast
    have "blind c (bnd (find_all w_offers offer_scoping (\<lambda>d. P d \<and> (case st' of None \<Rightarrow> True | Some x \<Rightarrow> off_state d = x)))
        (\<lambda>offers. shapeListItems offers c))"
      by (rule blind_offers) (cases st', simp_all add: P shapeListItems_masked)
    then show "blind c (case a of (filt, effectiveState) \<Rightarrow> bnd (find_all w_offers offer_scoping (\<lambda>d. filt d \<and>
        (case effectiveState of None \<Rightarrow> True | Some st \<Rightarrow> off_state d = st))) (\<lambda>offers. shapeListItems offers c))"
      by (simp add: a)
  qed
qed


lemma blind_offer:
  assumes "\<And>d. f (Some (masked c d)) = f (Some d)" and "\<And>x. blind c (f x)"
  shows "blind c (bnd (find_one w_offers off_id offer_scoping i) f)"
  unfolding blind_def
proof (intro allI impI)
  fix s s' assume al: "alike c s s'"
  define sees where "sees = (\<lambda>d :: exchange_offer. c \<in> set (off_partyCompanyIds d) \<or> off_openToMarket d)"
  define pick where "pick = (\<lambda>ds. case get_by off_id i ds of None \<Rightarrow> None | Some d \<Rightarrow> if sees d then Some d else None)"
  have get: "get_by off_id i (map (masked c) ds) = map_option (masked c) (get_by off_id i ds)" for ds
    by (induction ds) auto
  have pick: "f (pick ds) = f (pick (map (masked c) ds))" for ds
    by (auto simp: pick_def get sees_def assms(1) split: option.splits)
  have "acts_for c s" "acts_for c s'" using al by (simp_all add: alike_def acts_for_def)
  then have run: "bnd (find_one w_offers off_id offer_scoping i) f t = f (pick (w_offers t)) t" if "t \<in> {s, s'}" for t
    unfolding pick_def sees_def using that by (auto simp: bnd_def find_one_def acts_for_scoping(1))
  have "f (pick (w_offers s')) = f (pick (w_offers s))" using al pick by (metis alike_def)
  with run assms(2) al
  show "fst (bnd (find_one w_offers off_id offer_scoping i) f s) = fst (bnd (find_one w_offers off_id offer_scoping i) f s') \<and>
      snd (bnd (find_one w_offers off_id offer_scoping i) f s) = s \<and> snd (bnd (find_one w_offers off_id offer_scoping i) f s') = s'"
    by (simp add: blind_def)
qed

lemma buildDetail_masked: "buildDetail (masked c d) (Some c) FUEL_COMPANY_ADMIN = buildDetail d (Some c) FUEL_COMPANY_ADMIN"
proof (cases "off_raisedByCompanyId d = c \<or> off_state d = AWARDED \<and> off_awardedCompanyId d = Some c")
  case True
  then show ?thesis by (simp only: mask_entitled(2))
next
  case False
  moreover have "answers (masked c d) = answers d" by (rule ext) (simp add: answers_def)
  moreover have "toOfferSummary (masked c d) False = toOfferSummary d False" by (simp add: toOfferSummary_def masked_def)
  moreover have "off_awardedCompanyId (masked c d) = None" using False by (simp add: masked_def)
  ultimately show ?thesis by (auto simp: buildDetail_def Let_def cong: list.case_cong)
qed

lemma blind_detail: "blind c (findOneOffer i (Some c) FUEL_COMPANY_ADMIN)"
proof -
  have "blind c (buildDetail d (Some c) FUEL_COMPANY_ADMIN)" for d
    by (auto simp: buildDetail_def shape_proposal_def Let_def intro!: blind_bnd blind_traverse)
  moreover have "bnd (demand NotFound (Some (masked c d))) (\<lambda>offer. buildDetail offer (Some c) FUEL_COMPANY_ADMIN) =
      bnd (demand NotFound (Some d)) (\<lambda>offer. buildDetail offer (Some c) FUEL_COMPANY_ADMIN)" for d
    by (rule ext) (simp add: bnd_def demand_def buildDetail_masked)
  ultimately show ?thesis unfolding findOneOffer_def by (intro blind_offer blind_bnd) auto
qed

lemma blind_summary: "blind c (exchange_summary a b c)"
  unfolding exchange_summary_def
proof (intro blind_bnd)
  fix inc s assume "fst (buildIncomingFilter c s) = Inr inc"
  then show "blind c (count_offers (\<lambda>d. inc d \<and> off_state d = OPEN \<and> off_id d \<notin> set (map prop_offerId ans)))" for ans
    by (intro count_offers_blind) (simp add: incoming_masked)
  show "blind c (count_offers (\<lambda>d. off_raisedByCompanyId d = c \<and> off_state d = OPEN))" by (intro count_offers_blind) simp
  show "blind c (count_offers (\<lambda>d. (off_raisedByCompanyId d = c \<or> off_awardedCompanyId d = Some c) \<and> off_state d = AWARDED \<and>
      (case off_resolvedAt d of None \<Rightarrow> False | Some t \<Rightarrow> a \<le> t \<and> t < b)))"
    by (intro count_offers_blind) (auto simp: masked_def)
qed simp_all

text \<open>C15: bidding is blind. Whatever other companies answered to offers the acting company did not raise, and however
  an award between two other companies ended, the acting company gets the same detail of any offer, the same listing in
  every direction and the same summary: two states that differ only in such facts cannot be told apart.\<close>

theorem bidding_is_blind:
  assumes "alike c s s'"
  shows "fst (findOneOffer i (Some c) FUEL_COMPANY_ADMIN s) = fst (findOneOffer i (Some c) FUEL_COMPANY_ADMIN s') \<and>
     fst (findAllOffers c dir st s) = fst (findAllOffers c dir st s') \<and>
     fst (exchange_summary from_t to_t c s) = fst (exchange_summary from_t to_t c s')"
  using assms by (intro conjI) (rule blindD [OF blind_detail] blindD [OF blind_findAllOffers] blindD [OF blind_summary], assumption)+


section \<open>A small market\<close>

definition company_scope :: "oid \<Rightarrow> request_scope" where
  "company_scope c = \<lparr>rs_userId = Some 9, rs_role = Some FUEL_COMPANY_ADMIN, rs_companyId = Some c, rs_parentFuelCompanyId = None\<rparr>"

definition market_offer :: exchange_offer where
  "market_offer = new_offer 50 1 9 \<lparr>od_fuelType = DIESEL, od_quantityLitres = 10, od_deliveryAt = 2000, od_city = ''RIYADH'',
     od_district = None, od_locationUrl = None, od_notes = None\<rparr>"

definition answer_of :: "oid \<Rightarrow> oid \<Rightarrow> rat option \<Rightarrow> exchange_proposal" where
  "answer_of i c price = new_proposal i market_offer c 9 \<lparr>pd_unitPrice = price, pd_decline = (price = None)\<rparr> 900"

definition market_world :: "oid \<Rightarrow> rat \<Rightarrow> world" where
  "market_world acting price = empty_world\<lparr>w_scope := company_scope acting,
     w_companies := [fuel_company, fuel_company\<lparr>c_id := 3\<rparr>, fuel_company\<lparr>c_id := 4\<rparr>],
     w_offers := [market_offer], w_proposals := [answer_of 60 3 (Some price), answer_of 61 4 None]\<rparr>"

lemmas market_defs = market_world_def market_offer_def answer_of_def company_scope_def new_offer_def new_proposal_def

lemma market_inv: "exchange_inv 1 (market_world 1 price)"
  by (simp add: exchange_inv_def exchange_ok_def acts_for_def market_defs empty_world_def index_ok_def proposal_clash_def
      offer_ok_def proposal_ok_def)

lemma market_award:
  "\<exists>d s'. award 50 1 9 60 (market_world 1 2) = (Inr d, s') \<and> off_agreedTotal d = Some (roundCurrency 20)"
  by (simp add: award_def bnd_def find_one_def demand_def guard_def asks_def transaction_def resolve_offer_def
      find_and_update_def cas_def update_many_def ret_def notifyAward_def resolveRecipientAdmins_def run_unscoped_def
      find_all_def notifyMany_def market_defs scope_defs anonymous_def answers_def declined_def empty_world_def set_awarded_def set_outcome_def)

theorem award_resolves_once_witness:
  "\<exists>d s'. award 50 1 9 60 (market_world 1 2) = (Inr d, s') \<and> off_agreedTotal d = Some 20 \<and>
     (\<exists>e \<in> {NotFound, Conflict (Some EXCHANGE_ALREADY_RESOLVED)}. withdraw 50 1 9 s' = (Inl e, s'))"
proof -
  obtain d s' where run: "award 50 1 9 60 (market_world 1 2) = (Inr d, s')" and agreed: "off_agreedTotal d = Some (roundCurrency 20)"
    using market_award by blast
  have "roundCurrency 20 = 20" by code_simp
  with run agreed award_resolves_once [OF market_inv run] show ?thesis by auto
qed

theorem bidding_is_blind_witness:
  "w_proposals (market_world 4 2) \<noteq> w_proposals (market_world 4 3) \<and>
   fst (findOneOffer 50 (Some 4) FUEL_COMPANY_ADMIN (market_world 4 2)) =
     fst (findOneOffer 50 (Some 4) FUEL_COMPANY_ADMIN (market_world 4 3)) \<and>
   \<not> isl (fst (findOneOffer 50 (Some 4) FUEL_COMPANY_ADMIN (market_world 4 2)))"
proof -
  have "alike 4 (market_world 4 2) (market_world 4 3)"
    by (simp add: alike_def acts_for_def market_defs visible_to_def)
  moreover have "\<not> isl (fst (findOneOffer 50 (Some 4) FUEL_COMPANY_ADMIN (market_world 4 2)))"
    by (simp add: findOneOffer_def buildDetail_def Let_def bnd_def find_one_def demand_def find_all_def ret_def findCompany_def
        asks_def market_defs scope_defs answers_def fuel_company_def)
  moreover have "w_proposals (market_world 4 2) \<noteq> w_proposals (market_world 4 3)" by (simp add: market_defs)
  ultimately show ?thesis using bidding_is_blind [of 4 "market_world 4 2" "market_world 4 3" 50] by blast
qed

end
