(* ===== verification/Endpoints.thy ===== *)
theory Endpoints
  imports Orders_Controller Dispatch Fuel_Exchange Card_Uid
begin

text \<open>
  The HTTP layer over dispatch, payments, trucks, tanks, invoices, the platform account, billing, litre balances,
  notifications and the fuel exchange: the controllers of those modules, each method as the handler behind its role
  guard.  Listings are the whole filtered list.  A company identifier the code takes with \<open>!\<close> is \<open>the\<close> of it.
\<close>

section \<open>Trucks, tanks and dispatch\<close>

record safe_truck =
  st_id :: oid
  st_companyId :: oid
  st_plateNumber :: string
  st_model :: "string option"
  st_hasCard :: bool
  st_hasCode :: bool
  st_isActive :: bool
  st_activeOrderId :: "oid option"

definition toSafeTruckShape :: "truck \<Rightarrow> safe_truck" where
  "toSafeTruckShape truck = \<lparr>st_id = trk_id truck, st_companyId = trk_companyId truck,
     st_plateNumber = trk_plateNumber truck, st_model = trk_model truck,
     st_hasCard = (trk_nfcCardUid truck \<noteq> None \<and> trk_nfcCardUid truck \<noteq> Some []),
     st_hasCode = (trk_qrToken truck \<noteq> None \<and> trk_qrToken truck \<noteq> Some []),
     st_isActive = trk_isActive truck, st_activeOrderId = trk_activeOrderId truck\<rparr>"

definition requireCompanyId :: "authenticated_user \<Rightarrow> oid service" where
  "requireCompanyId user = demand Unauthorized (au_companyId user)"

definition safely :: "truck service \<Rightarrow> safe_truck service" where
  "safely m = bnd m (\<lambda>truck. ret (toSafeTruckShape truck))"

definition trucks_create :: "authenticated_user \<Rightarrow> string \<Rightarrow> string option \<Rightarrow> safe_truck service" where
  "trucks_create user plateNumber model = endpoint [TRANSPORT_COMPANY_ADMIN] user (
     bnd (requireCompanyId user) (\<lambda>c. safely (createTruck c plateNumber model)))"

definition trucks_findAll :: "authenticated_user \<Rightarrow> string option \<Rightarrow> (safe_truck list \<times> bool) service" where
  "trucks_findAll user available = endpoint [TRANSPORT_COMPANY_ADMIN] user (
     bnd (requireCompanyId user) (\<lambda>c.
     bnd (findAllTrucks c (available = Some ''true'')) (\<lambda>(items, fleetRegistered).
     ret (map toSafeTruckShape items, fleetRegistered))))"

definition trucks_findOne :: "authenticated_user \<Rightarrow> oid \<Rightarrow> safe_truck service" where
  "trucks_findOne user i = endpoint [TRANSPORT_COMPANY_ADMIN] user (safely (findTruckById i))"

definition trucks_update :: "authenticated_user \<Rightarrow> oid \<Rightarrow> string option \<Rightarrow> string option \<Rightarrow> safe_truck service" where
  "trucks_update user i plateNumber model = endpoint [TRANSPORT_COMPANY_ADMIN] user (safely (updateTruck i plateNumber model))"

definition trucks_withdraw :: "authenticated_user \<Rightarrow> oid \<Rightarrow> safe_truck service" where
  "trucks_withdraw user i = endpoint [TRANSPORT_COMPANY_ADMIN] user (safely (withdrawTruck i))"

definition trucks_restore :: "authenticated_user \<Rightarrow> oid \<Rightarrow> safe_truck service" where
  "trucks_restore user i = endpoint [TRANSPORT_COMPANY_ADMIN] user (safely (restoreTruck i))"

definition trucks_pairCard :: "authenticated_user \<Rightarrow> oid \<Rightarrow> string \<Rightarrow> safe_truck service" where
  "trucks_pairCard user i nfcCardUid = endpoint [TRANSPORT_COMPANY_ADMIN] user (safely (pairCard i nfcCardUid))"

text \<open>The token is random; minting and rotating are the replies that carry it.\<close>

definition trucks_mintQrToken :: "string \<Rightarrow> authenticated_user \<Rightarrow> oid \<Rightarrow> (safe_truck \<times> string) service" where
  "trucks_mintQrToken token user i = endpoint [TRANSPORT_COMPANY_ADMIN] user (
     bnd (mintQrToken token i) (\<lambda>truck. ret (toSafeTruckShape truck, token)))"

definition trucks_rotateQrToken :: "string \<Rightarrow> authenticated_user \<Rightarrow> oid \<Rightarrow> (safe_truck \<times> string) service" where
  "trucks_rotateQrToken token user i = endpoint [TRANSPORT_COMPANY_ADMIN] user (
     bnd (rotateQrToken token i) (\<lambda>truck. ret (toSafeTruckShape truck, token)))"

definition trucks_revokeQrToken :: "authenticated_user \<Rightarrow> oid \<Rightarrow> safe_truck service" where
  "trucks_revokeQrToken user i = endpoint [TRANSPORT_COMPANY_ADMIN] user (safely (revokeQrToken i))"

definition tanks_create ::
  "authenticated_user \<Rightarrow> string \<Rightarrow> tank_material \<Rightarrow> rat \<Rightarrow> fuel_type list \<Rightarrow> tank service" where
  "tanks_create user code material maxCapacityLiters fuelTypes = endpoint [TRANSPORT_COMPANY_ADMIN] user (
     bnd (requireCompanyId user) (\<lambda>c. createTank c code material maxCapacityLiters fuelTypes))"

definition tanks_findAll :: "authenticated_user \<Rightarrow> (tank list \<times> bool) service" where
  "tanks_findAll user = endpoint [TRANSPORT_COMPANY_ADMIN] user (bnd (requireCompanyId user) findAllTanks)"

definition tanks_findOne :: "authenticated_user \<Rightarrow> oid \<Rightarrow> tank service" where
  "tanks_findOne user i = endpoint [TRANSPORT_COMPANY_ADMIN] user (findTankById i)"

definition tanks_update ::
  "authenticated_user \<Rightarrow> oid \<Rightarrow> string option \<Rightarrow> tank_material option \<Rightarrow> rat option \<Rightarrow> fuel_type list option \<Rightarrow> tank service" where
  "tanks_update user i code material maxCapacityLiters fuelTypes = endpoint [TRANSPORT_COMPANY_ADMIN] user (
     updateTank i code material maxCapacityLiters fuelTypes)"

definition tanks_withdraw :: "authenticated_user \<Rightarrow> oid \<Rightarrow> tank service" where
  "tanks_withdraw user i = endpoint [TRANSPORT_COMPANY_ADMIN] user (withdrawTank i)"

definition tanks_restore :: "authenticated_user \<Rightarrow> oid \<Rightarrow> tank service" where
  "tanks_restore user i = endpoint [TRANSPORT_COMPANY_ADMIN] user (restoreTank i)"

definition dispatch_candidates ::
  "(coords \<Rightarrow> coords \<Rightarrow> rat) \<Rightarrow> authenticated_user \<Rightarrow> oid \<Rightarrow> (user \<times> driver_eligibility \<times> safe_truck option) list service" where
  "dispatch_candidates geo user i = endpoint [TRANSPORT_COMPANY_ADMIN] user (
     bnd (getCandidates geo i) (\<lambda>candidates.
     ret (map (\<lambda>c. (cand_driver c, cand_eligibility c, map_option toSafeTruckShape (cand_suggestedTruck c))) candidates)))"

definition dispatch_assign ::
  "(coords \<Rightarrow> coords \<Rightarrow> rat) \<Rightarrow> authenticated_user \<Rightarrow> oid \<Rightarrow> oid \<Rightarrow> oid \<Rightarrow> oid \<Rightarrow> string option \<Rightarrow> oid service" where
  "dispatch_assign geo user i driverId truckId tankId reason = endpoint [TRANSPORT_COMPANY_ADMIN] user (
     assignDriver geo i driverId truckId tankId reason)"

section \<open>Payments and invoices\<close>

definition payments_findMine :: "authenticated_user \<Rightarrow> payment_event list service" where
  "payments_findMine user = endpoint [CLIENT] user (findPaymentsForClient (au_userId user))"

definition gateway_named :: "string \<Rightarrow> payment_gateway option" where
  "gateway_named p = (let normalized = map to_upper p in
     if normalized = ''SADAD'' then Some SADAD else if normalized = ''MADA'' then Some MADA else None)"

definition payments_webhook ::
  "(string \<Rightarrow> string \<Rightarrow> nat list) \<Rightarrow> (payment_gateway \<Rightarrow> string option) \<Rightarrow> string \<Rightarrow> payment_webhook_dto \<Rightarrow> string option \<Rightarrow>
     string option \<Rightarrow> webhook_result service" where
  "payments_webhook hmac secret gatewayParam dto rawBody signature =
     bnd (demand (BadRequest None) (gateway_named gatewayParam)) (\<lambda>gateway.
     bnd (demand (BadRequest None) rawBody) (\<lambda>body.
     handleWebhook hmac secret gateway dto body signature))"

definition invoices_findMine ::
  "authenticated_user \<Rightarrow> payment_method option \<Rightarrow> invoice_state option \<Rightarrow> oid option \<Rightarrow> invoice list service" where
  "invoices_findMine user method state fuelCompanyId =
     endpoint [FUEL_COMPANY_ADMIN, TRANSPORT_COMPANY_ADMIN, CLIENT, SUPER_ADMIN] user
       (findInvoicesForUser method state fuelCompanyId)"

definition invoices_findOne :: "authenticated_user \<Rightarrow> oid \<Rightarrow> invoice service" where
  "invoices_findOne user i = endpoint [FUEL_COMPANY_ADMIN, TRANSPORT_COMPANY_ADMIN, CLIENT] user (findInvoiceById i)"

definition invoices_settle :: "authenticated_user \<Rightarrow> oid \<Rightarrow> string option \<Rightarrow> invoice service" where
  "invoices_settle user i paymentReference = endpoint [TRANSPORT_COMPANY_ADMIN, FUEL_COMPANY_ADMIN] user (
     bnd (findInvoiceById i) (\<lambda>invoice.
     bnd (guard (inv_method invoice \<noteq> DIRECT) (Forbidden None)) (\<lambda>_.
     bnd (guard (\<not> (inv_method invoice = DEFERRED \<and> au_role user \<noteq> TRANSPORT_COMPANY_ADMIN)) (Forbidden None)) (\<lambda>_.
     bnd (guard (\<not> (inv_method invoice = CREDIT \<and> au_role user \<noteq> FUEL_COMPANY_ADMIN)) (Forbidden None)) (\<lambda>_.
     settleById i paymentReference)))))"

section \<open>The platform account, billing and litre balances\<close>

definition toMovementView :: "account_movement \<Rightarrow> account_movement \<times> account_movement_direction" where
  "toMovementView movement = (movement, directionForKind (am_kind movement))"

definition listMovements ::
  "account_movement_kind option \<Rightarrow> account_movement_state option \<Rightarrow> oid option \<Rightarrow>
     (account_movement \<times> account_movement_direction) list service" where
  "listMovements kind state companyId =
     bnd (asks w_scope) (\<lambda>ctx.
     bnd (find_all w_movements movement_scoping (\<lambda>m.
            (case kind of None \<Rightarrow> True | Some k \<Rightarrow> am_kind m = k) \<and>
            (case state of None \<Rightarrow> True | Some st \<Rightarrow> am_state m = st) \<and>
            (case companyId of None \<Rightarrow> True | Some c \<Rightarrow> \<not> bypasses ctx \<or> am_companyId m = c))) (\<lambda>items.
     ret (map toMovementView items)))"

definition account_findMovements ::
  "authenticated_user \<Rightarrow> account_movement_kind option \<Rightarrow> account_movement_state option \<Rightarrow> oid option \<Rightarrow>
     (account_movement \<times> account_movement_direction) list service" where
  "account_findMovements user kind state companyId =
     endpoint [FUEL_COMPANY_ADMIN, SUPER_ADMIN] user (listMovements kind state companyId)"

definition account_recordPayment ::
  "authenticated_user \<Rightarrow> rat \<Rightarrow> settlement_method \<Rightarrow> string option \<Rightarrow> oid option \<Rightarrow> account_movement service" where
  "account_recordPayment user amount method reference documentFileId = endpoint [FUEL_COMPANY_ADMIN] user (
     recordPayment (the (au_companyId user)) amount method reference documentFileId)"

definition account_confirmPayment ::
  "authenticated_user \<Rightarrow> oid \<Rightarrow> (account_movement \<times> account_movement_direction) service" where
  "account_confirmPayment user i = endpoint [SUPER_ADMIN] user (
     bnd (confirmPayment i (au_userId user)) (\<lambda>movement. ret (toMovementView movement)))"

definition account_getCashbackOwed :: "authenticated_user \<Rightarrow> oid \<Rightarrow> (oid \<times> rat) service" where
  "account_getCashbackOwed user companyId = endpoint [SUPER_ADMIN] user (
     bnd (getCashbackOwed companyId) (\<lambda>owed. ret (companyId, owed)))"

text \<open>\<open>evidence\<close> is the identifier under which the uploaded document was stored, when one was uploaded.\<close>

definition account_recordCashbackPayout ::
  "authenticated_user \<Rightarrow> oid \<Rightarrow> oid option \<Rightarrow> rat \<Rightarrow> settlement_method \<Rightarrow> string \<Rightarrow> oid option \<Rightarrow>
     (account_movement \<times> account_movement_direction) service" where
  "account_recordCashbackPayout user companyId evidence amount method reference documentFileId = endpoint [SUPER_ADMIN] user (
     bnd (recordCashbackPayout companyId amount method reference
            (case evidence of Some f \<Rightarrow> Some f | None \<Rightarrow> documentFileId) (au_userId user)) (\<lambda>movement.
     ret (toMovementView movement)))"

definition billing_currentTerm :: "authenticated_user \<Rightarrow> commission_term option service" where
  "billing_currentTerm user = endpoint [FUEL_COMPANY_ADMIN, SUPER_ADMIN] user getCurrentCommissionTerm"

definition billing_setTerm :: "authenticated_user \<Rightarrow> commission_basis \<Rightarrow> rat \<Rightarrow> unit service" where
  "billing_setTerm user basis rate = endpoint [SUPER_ADMIN] user (setCommissionTerm basis rate (au_userId user))"

definition billing_currentProgramme :: "authenticated_user \<Rightarrow> cashback_programme option service" where
  "billing_currentProgramme user = endpoint [FUEL_COMPANY_ADMIN, SUPER_ADMIN] user getCurrentCashbackProgramme"

definition billing_setProgramme ::
  "authenticated_user \<Rightarrow> commission_basis \<Rightarrow> rat \<Rightarrow> bool \<Rightarrow> bool \<Rightarrow> oid list \<Rightarrow> unit service" where
  "billing_setProgramme user basis rate isActive targetsAll targets = endpoint [SUPER_ADMIN] user (
     setCashbackProgramme basis rate isActive targetsAll targets (au_userId user))"

definition billing_myBalances :: "authenticated_user \<Rightarrow> billing_balances service" where
  "billing_myBalances user = endpoint [FUEL_COMPANY_ADMIN] user (getBalancesForCompany (the (au_companyId user)))"

definition billing_companyBalances :: "authenticated_user \<Rightarrow> oid \<Rightarrow> billing_balances service" where
  "billing_companyBalances user companyId = endpoint [SUPER_ADMIN] user (getBalancesForCompany companyId)"

definition listBalancesForClient :: "oid \<Rightarrow> litre_balance list service" where
  "listBalancesForClient clientId = find_all w_balances balance_scoping (\<lambda>d. lb_clientId d = clientId)"

definition balances_findForCompany :: "authenticated_user \<Rightarrow> oid option \<Rightarrow> litre_balance list service" where
  "balances_findForCompany user clientId = endpoint [FUEL_COMPANY_ADMIN] user (listBalancesForCompany clientId)"

definition balances_correct :: "authenticated_user \<Rightarrow> oid \<Rightarrow> rat \<Rightarrow> string \<Rightarrow> litre_balance service" where
  "balances_correct user i litres reason = endpoint [FUEL_COMPANY_ADMIN] user (
     recordCorrection i litres reason (au_userId user))"

section \<open>Notifications\<close>

definition findNotificationsForUser :: "oid \<Rightarrow> bool \<Rightarrow> (notification list \<times> nat) service" where
  "findNotificationsForUser recipientUserId unreadOnly = run_unscoped
     (bnd (find_all w_notifications notification_scoping (\<lambda>n. n_recipientUserId n = recipientUserId \<and>
             (unreadOnly \<longrightarrow> n_readAt n = None))) (\<lambda>items.
      bnd (find_all w_notifications notification_scoping (unread_of recipientUserId)) (\<lambda>unread.
      ret (items, length unread))))"

definition notifications_findMine :: "authenticated_user \<Rightarrow> string option \<Rightarrow> (notification list \<times> nat) service" where
  "notifications_findMine user unread = endpoint [] user (findNotificationsForUser (au_userId user) (unread = Some ''true''))"

definition notifications_markAllRead :: "authenticated_user \<Rightarrow> nat service" where
  "notifications_markAllRead user = endpoint [] user (markAllRead (au_userId user))"

definition notifications_markRead :: "authenticated_user \<Rightarrow> oid \<Rightarrow> notification service" where
  "notifications_markRead user i = endpoint [] user (markRead i (au_userId user))"

section \<open>The fuel exchange\<close>

definition exchange_create :: "authenticated_user \<Rightarrow> create_offer_dto \<Rightarrow> exchange_offer service" where
  "exchange_create user dto = endpoint [FUEL_COMPANY_ADMIN] user (createOffer (the (au_companyId user)) (au_userId user) dto)"

definition exchange_getSummary :: "instant \<Rightarrow> instant \<Rightarrow> authenticated_user \<Rightarrow> exchange_summary_result service" where
  "exchange_getSummary start until user = endpoint [FUEL_COMPANY_ADMIN] user (
     exchange_summary start until (the (au_companyId user)))"

definition direction_names :: "(string \<times> exchange_direction) list" where
  "direction_names = [(''incoming'', Incoming), (''outgoing'', Outgoing), (''all'', AllOffers)]"

definition offer_state_names :: "(string \<times> offer_state) list" where
  "offer_state_names = [(''OPEN'', OPEN), (''AWARDED'', AWARDED), (''WITHDRAWN'', WITHDRAWN), (''CLOSED_NO_AWARD'', CLOSED_NO_AWARD)]"

definition exchange_findAll ::
  "authenticated_user \<Rightarrow> string option \<Rightarrow> string option \<Rightarrow> (exchange_offer list + offer_view list) service" where
  "exchange_findAll user directionParam state = endpoint [FUEL_COMPANY_ADMIN, SUPER_ADMIN] user (
     bnd (demand (BadRequest None)
            (map_of direction_names (case directionParam of None \<Rightarrow> ''all'' | Some d \<Rightarrow> d))) (\<lambda>direction.
     bnd (parseEnumQuery offer_state_names state) (\<lambda>parsed.
     if au_role user = SUPER_ADMIN then bnd findAllForOperator (\<lambda>x. ret (Inl x))
     else bnd (findAllOffers (the (au_companyId user)) direction parsed) (\<lambda>x. ret (Inr x)))))"

definition exchange_findOne :: "authenticated_user \<Rightarrow> oid \<Rightarrow> offer_view service" where
  "exchange_findOne user i = endpoint [FUEL_COMPANY_ADMIN, SUPER_ADMIN] user (
     findOneOffer i (au_companyId user) (au_role user))"

definition exchange_propose :: "authenticated_user \<Rightarrow> oid \<Rightarrow> create_proposal_dto \<Rightarrow> exchange_proposal service" where
  "exchange_propose user i dto = endpoint [FUEL_COMPANY_ADMIN] user (
     propose i (the (au_companyId user)) (au_userId user) dto)"

definition exchange_award :: "authenticated_user \<Rightarrow> oid \<Rightarrow> oid \<Rightarrow> exchange_offer service" where
  "exchange_award user i proposalId = endpoint [FUEL_COMPANY_ADMIN] user (
     award i (the (au_companyId user)) (au_userId user) proposalId)"

definition exchange_withdraw :: "authenticated_user \<Rightarrow> oid \<Rightarrow> exchange_offer service" where
  "exchange_withdraw user i = endpoint [FUEL_COMPANY_ADMIN] user (
     withdraw i (the (au_companyId user)) (au_userId user))"

section \<open>Properties\<close>

text \<open>An invoice is settled by hand only by the side it is payable to: the transport company settles a deferred
  invoice, the fuel company a credit one, nobody a direct one, and the invoice is within the scope of the user's company;
  an invoice no longer open is returned as it is.\<close>

theorem settlement_rights:
  assumes "invoices_settle user i ref s = (Inr x, s')"
  shows "\<exists>d. get_by inv_id i (w_invoices s) = Some d \<and> invoice_party (scope_of user) d \<and>
     ((inv_method d = DEFERRED \<and> au_role user = TRANSPORT_COMPANY_ADMIN) \<or>
      (inv_method d = CREDIT \<and> au_role user = FUEL_COMPANY_ADMIN)) \<and> (inv_state d \<noteq> ISSUED \<longrightarrow> x = d \<and> s' = s)"
proof -
  let ?s = "s\<lparr>w_scope := scope_of user\<rparr>"
  from endpoint_okD [OF assms [unfolded invoices_settle_def]] obtain s1 where
    role: "roles_guard [TRANSPORT_COMPANY_ADMIN, FUEL_COMPANY_ADMIN] user" and s': "s' = s1\<lparr>w_scope := w_scope s\<rparr>"
    and run: "bnd (findInvoiceById i) (\<lambda>invoice.
     bnd (guard (inv_method invoice \<noteq> DIRECT) (Forbidden None)) (\<lambda>_.
     bnd (guard (\<not> (inv_method invoice = DEFERRED \<and> au_role user \<noteq> TRANSPORT_COMPANY_ADMIN)) (Forbidden None)) (\<lambda>_.
     bnd (guard (\<not> (inv_method invoice = CREDIT \<and> au_role user \<noteq> FUEL_COMPANY_ADMIN)) (Forbidden None)) (\<lambda>_.
     settleById i ref)))) ?s = (Inr x, s1)" by blast
  then obtain d v where d: "invoice_scoping (scope_of user) = Inr v" "get_by inv_id i (w_invoices s) = Some d" "v d"
    and settle: "applySettlement d ref ?s = (Inr x, s1)"
    and rights: "inv_method d \<noteq> DIRECT" "inv_method d = DEFERRED \<longrightarrow> au_role user = TRANSPORT_COMPANY_ADMIN"
      "inv_method d = CREDIT \<longrightarrow> au_role user = FUEL_COMPANY_ADMIN"
    by (auto simp: findInvoiceById_def settleById_def prog_inv)
  have "inv_method d = DEFERRED \<or> inv_method d = CREDIT" using rights(1) by (cases "inv_method d") auto
  moreover have "inv_state d \<noteq> ISSUED \<longrightarrow> x = d \<and> s' = s" using settle s' by (auto simp: applySettlement_def prog_inv)
  moreover have "\<not> bypasses (scope_of user)" using role by (auto simp: roles_guard_def scope_of_def bypasses_def)
  ultimately show ?thesis using d rights invoice_plugin.vis_sound [OF d(1,3)] by blast
qed

definition haulier_admin :: authenticated_user where
  "haulier_admin = \<lparr>au_userId = 9, au_role = TRANSPORT_COMPANY_ADMIN, au_companyId = Some 2, au_parentFuelCompanyId = Some 1,
     au_sgen = None, au_sid = None\<rparr>"

definition deferred_world :: world where
  "deferred_world = empty_world\<lparr>w_invoices := [(new_invoice (blank_order\<lparr>o_paymentMethod := DEFERRED\<rparr>) 40 1)
     \<lparr>inv_transportCompanyId := Some 2\<rparr>]\<rparr>"

theorem settlement_rights_witness:
  "\<exists>x s' d. invoices_settle haulier_admin 40 None deferred_world = (Inr x, s') \<and> inv_method d = DEFERRED \<and>
     invoice_party (scope_of haulier_admin) d"
proof -
  have "\<not> isl (fst (invoices_settle haulier_admin 40 None deferred_world))" by code_simp
  then obtain x s' where run: "invoices_settle haulier_admin 40 None deferred_world = (Inr x, s')" by (auto dest: run_succeeds)
  from settlement_rights [OF run] run show ?thesis by (auto simp: haulier_admin_def)
qed

end
