(* ===== verification/Order_Access.thy ===== *)
theory Order_Access
  imports Orders_Controller
begin

text \<open>
  Who may do what to an order through the endpoints of \<open>modules/orders/orders.controller.ts\<close>: the delivery code, the
  rights of cancellation, and what the reply to a driver gives away.
\<close>

section \<open>The statuses survive what writes no order\<close>

definition statuses_are :: "(oid \<rightharpoonup> order_status) \<Rightarrow> world \<Rightarrow> bool" where
  "statuses_are m s \<longleftrightarrow> statuses s = m"

lemma statuses_are_cong: "statuses_are m s \<Longrightarrow> w_orders s' = w_orders s \<Longrightarrow> statuses_are m s'"
  by (simp add: statuses_are_def statuses_def [abs_def])

interpretation status_frame: order_frame "statuses_are m"
proof unfold_locales
  fix f :: "order \<Rightarrow> order" and s i assume "detail_patch f" "statuses_are m s"
  then show "statuses_are m (w_orders_update (upd_by o_id i f) s)"
    by (simp add: statuses_are_def statuses_patch detail_patch_def)
qed (erule statuses_are_cong; simp)+

lemma statuses_kept: "keeps (statuses_are (statuses s)) c \<Longrightarrow> c s = (r, s') \<Longrightarrow> statuses s' = statuses s"
  by (drule (1) keepsD) (simp_all add: statuses_are_def)

lemma cancel_okD:
  assumes "cancel d src actor reason s = (Inr x, s')"
  shows "statuses s' (o_id d) = Some CANCELLED"
proof -
  from assms obtain s1 s2 y where t: "transition (o_id d) src CANCELLED actor
      (with_extra (\<lambda>z. z\<lparr>o_cancelledBy := Some (ta_actorId actor), o_cancellationReason := reason\<rparr>)) s1 = (Inr y, s2)"
    and rest: "bnd (if o_invoiceId d \<noteq> None then voidInvoice (o_id d) else ret ()) (\<lambda>_.
        bnd (returnDrawdown (o_fuelCompanyId d) (o_clientId d) (o_fuelType d) (o_id d) (ta_actorId actor)) (\<lambda>_.
        bnd (if src = ASSIGNED_TO_DRIVER \<or> src = PENDING_PAYMENT then cancelPaymentTimeout (o_id d) else ret ()) (\<lambda>_.
        bnd (if src = ASSIGNED_TO_DRIVER \<or> src = LOADING then cancelAssignmentEscalation (o_id d) else ret ()) (\<lambda>_.
        bnd (cancelPendingStopEscalations d) (\<lambda>_. ret x))))) s2 = (Inr x, s')"
    unfolding cancel_def by (auto simp: prog_inv)
  have "keeps (statuses_are m) (bnd (if o_invoiceId d \<noteq> None then voidInvoice (o_id d) else ret ()) (\<lambda>_.
        bnd (returnDrawdown (o_fuelCompanyId d) (o_clientId d) (o_fuelType d) (o_id d) (ta_actorId actor)) (\<lambda>_.
        bnd (if src = ASSIGNED_TO_DRIVER \<or> src = PENDING_PAYMENT then cancelPaymentTimeout (o_id d) else ret ()) (\<lambda>_.
        bnd (if src = ASSIGNED_TO_DRIVER \<or> src = LOADING then cancelAssignmentEscalation (o_id d) else ret ()) (\<lambda>_.
        bnd (cancelPendingStopEscalations d) (\<lambda>_. ret x))))))" for m
    by (intro keeps_bnd keeps_if keeps_basic status_frame.keeps_voidInvoice status_frame.keeps_balance_ops status_frame.keeps_queues
        keeps_stop_escalations)
  from statuses_kept [OF this rest] have "statuses s' = statuses s2" .
  with transition_statuses [OF t] show ?thesis by (simp add: order_patch_def)
qed

section \<open>Properties\<close>

text \<open>C2: the delivery code gates the delivery: a driver's request completes an order only when it is the order's own
  driver, the order is being unloaded, and the code submitted is the one whose hash the order holds, unexpired, unused
  and not locked out by earlier guesses; then the order is delivered.\<close>

theorem delivery_needs_code:
  assumes "verifyDelivery sha user i otp s = (Inr x, s')"
  shows "au_role user = DRIVER \<and> statuses s' i = Some DELIVERED \<and>
    (\<exists>d k. get_by o_id i (w_orders s) = Some d \<and> o_driverId d = Some (au_userId user) \<and> o_status d = UNLOADING \<and>
       findIndex (unused_for DELIVERY) (o_otps d) = Some k \<and>
       (let r = o_otps d ! k in hashOtp sha otp (otp_salt r) = otp_hash r \<and> w_now s < otp_expiresAt r \<and>
          otp_attempts r < MAX_ATTEMPTS))"
proof -
  let ?s = "s\<lparr>w_scope := scope_of user\<rparr>"
  from endpoint_okD [OF assms [unfolded verifyDelivery_def]] obtain s1 where role: "roles_guard [DRIVER] user"
    and run: "bnd (assertDriverAssigned user i UNLOADING) (\<lambda>order. bnd (verify sha (o_id order) DELIVERY otp) (\<lambda>_.
       completeDelivery order (actor_of user))) ?s = (Inr x, s1)" and s': "s' = s1\<lparr>w_scope := w_scope s\<rparr>" by blast
  from run obtain d s2 where d: "sees_order ?s i d" "o_driverId d = Some (au_userId user)" "o_status d = UNLOADING"
    and v: "verify sha (o_id d) DELIVERY otp ?s = (Inr (), s2)" and c: "completeDelivery d (actor_of user) s2 = (Inr x, s1)"
    by (auto simp: assertDriverAssigned_def findOrderById_def prog_inv)
  have get: "get_by o_id i (w_orders s) = Some d" "o_id d = i" using d(1) by (auto simp: sees_order_def dest: get_by_key)
  from verify_okD [OF v] get d(1) obtain k where k: "findIndex (unused_for DELIVERY) (o_otps d) = Some k"
    "verifyRecord sha (w_now s) (Some (o_otps d ! k)) otp MAX_ATTEMPTS = MATCH" by (auto simp: sees_order_def)
  have "statuses s' i = Some DELIVERED"
    using completeDelivery_okD [OF c] get statuses_cong [of s' s1] s' by simp
  with role get d k show ?thesis by (auto simp: roles_guard_def verifyRecord_def Let_def split: if_splits)
qed

lemma findOneForUser_run:
  "(\<exists>e. findOneForUser user i s = (Inl e, s)) \<or> (\<exists>d. findOneForUser user i s = (Inr d, s) \<and> sees_order s i d)"
proof (cases "\<exists>d. findOneForUser user i s = (Inr d, s)")
  case True
  then show ?thesis by (auto simp: findOneForUser_def findOrderById_def prog_inv)
next
  case False
  have "keeps (\<lambda>t. t = s) (findOneForUser user i)"
    unfolding findOneForUser_def findOrderById_def find_order_def by (intro keeps_bnd keeps_basic keeps_reads)
  then have "snd (findOneForUser user i s) = s" by (cases "findOneForUser user i s") (auto dest: keepsD)
  with False show ?thesis by (cases "findOneForUser user i s"; cases "fst (findOneForUser user i s)") auto
qed

definition may_cancel :: "authenticated_user \<Rightarrow> order \<Rightarrow> bool" where
  "may_cancel user d \<longleftrightarrow>
     (au_role user = CLIENT \<and> o_clientId d = au_userId user \<and>
        o_status d \<in> {PENDING_APPROVAL, APPROVED, AWAITING_ROUTING, ROUTED_TO_TRANSPORT, PENDING_PAYMENT}) \<or>
     (au_role user = FUEL_COMPANY_ADMIN \<and>
        o_status d \<notin> {IN_TRANSIT, UNLOADING, DELIVERED, REJECTED, CANCELLED})"

lemma may_cancel_guards:
  "may_cancel user d \<longleftrightarrow> (let isClient = (au_role user = CLIENT \<and> o_clientId d = au_userId user) in
     (isClient \<or> au_role user = FUEL_COMPANY_ADMIN) \<and>
     o_status d \<in> set (if isClient then CLIENT_CANCELLABLE else ADMIN_CANCELLABLE))"
  by (cases "o_status d") (auto simp: may_cancel_def CLIENT_CANCELLABLE_def ADMIN_CANCELLABLE_def Let_def)

text \<open>Cancelling is for the order's client before a driver is booked, and for the fuel company until the truck
  leaves the depot: a request by anyone else, or later, is refused and changes nothing, and a request that succeeds leaves
  the order cancelled.\<close>

theorem cancel_rights:
  assumes "cancel_order user i reason s = (r, s')"
  shows "(case r of Inr x \<Rightarrow> statuses s' i = Some CANCELLED | Inl e \<Rightarrow> True) \<and>
     ((\<exists>d. get_by o_id i (w_orders s) = Some d \<and> may_cancel user d) \<or> (isl r \<and> s' = s))"
proof -
  let ?s = "s\<lparr>w_scope := scope_of user\<rparr>"
  define rest where "rest d = (let isClient = (au_role user = CLIENT \<and> o_clientId d = au_userId user);
      isAdmin = (au_role user = FUEL_COMPANY_ADMIN)
    in bnd (guard (isClient \<or> isAdmin) (Forbidden None)) (\<lambda>_.
       bnd (guard (o_status d \<in> set (if isClient then CLIENT_CANCELLABLE else ADMIN_CANCELLABLE)) (Forbidden None)) (\<lambda>_.
       cancel d (o_status d) (actor_of user) reason)))" for d
  have run: "cancel_order user i reason s =
      (let (q, t) = bnd (findOneForUser user i) rest ?s in (q, t\<lparr>w_scope := w_scope s\<rparr>))"
    by (simp add: cancel_order_def endpoint_def intercept_def roles_guard_def bnd_def guard_def ret_def rest_def [abs_def] Let_def)
  from findOneForUser_run [of user i ?s] show ?thesis
  proof (elim disjE exE conjE)
    fix e assume "findOneForUser user i ?s = (Inl e, ?s)"
    with run assms show ?thesis by (auto simp: bnd_def)
  next
    fix d assume found: "findOneForUser user i ?s = (Inr d, ?s)" and sees: "sees_order ?s i d"
    have get: "get_by o_id i (w_orders s) = Some d" "o_id d = i" using sees by (auto simp: sees_order_def dest: get_by_key)
    show ?thesis
    proof (cases "may_cancel user d")
      case True
      then have "rest d = cancel d (o_status d) (actor_of user) reason"
        by (auto simp: may_cancel_guards rest_def Let_def bnd_def guard_def ret_def)
      with run found assms obtain t where t: "cancel d (o_status d) (actor_of user) reason ?s = (r, t)"
        "s' = t\<lparr>w_scope := w_scope s\<rparr>" by (auto simp: bnd_def split: prod.splits)
      have "statuses s' = statuses t" using t(2) by (simp add: statuses_def [abs_def])
      with t(1) cancel_okD [of d _ _ _ ?s] get True show ?thesis by (cases r) auto
    next
      case False
      then have "\<exists>e. rest d ?s = (Inl e, ?s)"
        by (auto simp: may_cancel_guards rest_def Let_def bnd_def guard_def ret_def throw_def)
      with run found assms show ?thesis by (auto simp: bnd_def)
    qed
  qed
qed

section \<open>What a driver can compute from a reply\<close>

text \<open>\<open>generateCode\<close> renders a random number below a million in six digits; the number is the argument.\<close>

definition generateCode :: "nat \<Rightarrow> string" where
  "generateCode n = map (\<lambda>k. char_of (48 + n div 10 ^ k mod 10)) [5, 4, 3, 2, 1, 0 :: nat]"

definition first_code :: "(string \<Rightarrow> string) \<Rightarrow> otp_purpose \<Rightarrow> order_shape \<Rightarrow> string option" where
  "first_code sha purpose shape = (let codes = o_otps (osh_base shape) in
     case findIndex (unused_for purpose) codes of
       None \<Rightarrow> None
     | Some k \<Rightarrow> find (\<lambda>c. hashOtp sha c (otp_salt (codes ! k)) = otp_hash (codes ! k)) (map generateCode [0..<1000000]))"

text \<open>C24: the reply an order's driver reads holds the digest and the salt of the delivery code, and the codes are a
  million: trying them against the reply alone, without asking the client and without a guess that the server counts,
  yields a code that the check of the server accepts.\<close>

theorem driver_reply_gives_code:
  assumes "fst (findOneOrder metres speed user i s) = Inr reply" and "au_role user = DRIVER"
    and "get_by o_id i (w_orders s) = Some d" and "findIndex (unused_for DELIVERY) (o_otps d) = Some k"
    and "n < 1000000" and "otp_hash (o_otps d ! k) = hashOtp sha (generateCode n) (otp_salt (o_otps d ! k))"
    and "w_now s < otp_expiresAt (o_otps d ! k)" and "otp_attempts (o_otps d ! k) < MAX_ATTEMPTS"
  shows "\<exists>c. first_code sha DELIVERY (od_order reply) = Some c \<and>
     verifyRecord sha (w_now s) (Some (o_otps d ! k)) c MAX_ATTEMPTS = MATCH"
proof -
  let ?s = "s\<lparr>w_scope := scope_of user\<rparr>"
  from assms(1) obtain s' where "findOneOrder metres speed user i s = (Inr reply, s')" by (metis prod.collapse)
  from endpoint_okD [OF this [unfolded findOneOrder_def]] obtain d' where d': "sees_order ?s i d'"
    and reply: "od_order reply = toRoleScopedShape d' user"
    by (auto simp: findOneForUser_def findOrderById_def prog_inv)
  have codes: "o_otps (osh_base (od_order reply)) = o_otps d"
    using d' assms(2,3) by (auto simp: reply toRoleScopedShape_def is_operator_or_driver_def sees_order_def Let_def)
  let ?ok = "\<lambda>c. hashOtp sha c (otp_salt (o_otps d ! k)) = otp_hash (o_otps d ! k)"
  have "\<exists>c \<in> set (map generateCode [0..<1000000]). ?ok c" using assms(5,6) by auto
  then obtain c where c: "find ?ok (map generateCode [0..<1000000]) = Some c"
    by (metis (mono_tags, lifting) find_None_iff option.exhaust)
  then have "?ok c" by (auto simp: find_Some_iff)
  moreover have "otp_usedAt (o_otps d ! k) = None" using findIndex_SomeD [OF assms(4)] by (simp add: unused_for_def)
  ultimately show ?thesis using c assms(4,7,8) by (simp add: first_code_def codes Let_def verifyRecord_def)
qed

section \<open>Concrete instances\<close>

definition road_driver :: authenticated_user where
  "road_driver = \<lparr>au_userId = 7, au_role = DRIVER, au_companyId = Some 2, au_parentFuelCompanyId = Some 1,
     au_sgen = None, au_sid = None\<rparr>"

definition handover_code :: otp_record where
  "handover_code = \<lparr>otp_hash = ''s:000042'', otp_salt = ''s'', otp_expiresAt = 5000,
     otp_usedAt = None, otp_attempts = 0, otp_purpose = DELIVERY, otp_createdAt = 0\<rparr>"

definition unloading :: order where
  "unloading = blank_order\<lparr>o_status := UNLOADING, o_transportCompanyId := Some 2, o_driverId := Some 7, o_otps := [handover_code]\<rparr>"

definition handover_world :: world where
  "handover_world = empty_world\<lparr>w_orders := [unloading], w_users := [blank_driver]\<rparr>"

theorem delivery_needs_code_witness:
  "\<exists>x s'. verifyDelivery id road_driver 10 ''000042'' handover_world = (Inr x, s') \<and> statuses s' 10 = Some DELIVERED"
proof -
  have "\<not> isl (fst (verifyDelivery id road_driver 10 ''000042'' handover_world))" by code_simp
  then obtain x s' where run: "verifyDelivery id road_driver 10 ''000042'' handover_world = (Inr x, s')"
    by (auto dest: run_succeeds)
  from delivery_needs_code [OF run] run show ?thesis by blast
qed

theorem cancel_rights_witness:
  "isl (fst (cancel_order sample_client 10 None handover_world)) \<and>
     snd (cancel_order sample_client 10 None handover_world) = handover_world"
proof -
  obtain r s' where run: "cancel_order sample_client 10 None handover_world = (r, s')" by fastforce
  have "get_by o_id 10 (w_orders handover_world) = Some d \<Longrightarrow> \<not> may_cancel sample_client d" for d
    by (auto simp: handover_world_def unloading_def sample_defs may_cancel_def sample_client_def)
  with cancel_rights [OF run] run show ?thesis by auto
qed

theorem driver_reply_gives_code_witness:
  "\<exists>reply c. fst (findOneOrder (\<lambda>_ _. 0) 60 road_driver 10 handover_world) = Inr reply \<and>
     first_code id DELIVERY (od_order reply) = Some c \<and>
     verifyRecord id 1000 (Some handover_code) c MAX_ATTEMPTS = MATCH"
proof -
  have "\<not> isl (fst (findOneOrder (\<lambda>_ _. 0) 60 road_driver 10 handover_world))" by code_simp
  then obtain reply where reply: "fst (findOneOrder (\<lambda>_ _. 0) 60 road_driver 10 handover_world) = Inr reply"
    by (metis sum.collapse(2))
  have get: "get_by o_id 10 (w_orders handover_world) = Some unloading"
    by (simp add: handover_world_def unloading_def sample_defs)
  have role: "au_role road_driver = DRIVER" by (simp add: road_driver_def)
  have first: "findIndex (unused_for DELIVERY) (o_otps unloading) = Some 0"
    by (simp add: unloading_def handover_code_def unused_for_def)
  have code: "otp_hash (o_otps unloading ! 0) = hashOtp id (generateCode 42) (otp_salt (o_otps unloading ! 0))"
    by (simp add: generateCode_def hashOtp_def handover_code_def unloading_def char_of_def bit_0)
  have now: "w_now handover_world < otp_expiresAt (o_otps unloading ! 0)" "w_now handover_world = 1000"
    "otp_attempts (o_otps unloading ! 0) < MAX_ATTEMPTS" "o_otps unloading ! 0 = handover_code" "(42 :: nat) < 1000000"
    by (simp_all add: handover_world_def unloading_def handover_code_def MAX_ATTEMPTS_def sample_defs)
  from driver_reply_gives_code [OF reply role get first now(5) code now(1,3), unfolded now(2,4)] reply show ?thesis
    by blast
qed

end
