(* ===== verification/System.thy ===== *)
theory System
  imports Endpoints Order_Access
begin

text \<open>
  The system as it runs: every request and every background job that the development models is a step from one state of
  the database to the next, in any order, by any user, with any parameters of the outside world.  The abstract machine of
  \<open>Lifecycle\<close> knows an order by its status only; the system refines it.
\<close>

section \<open>The steps\<close>

text \<open>The clock, the requests on orders, the payment webhook, and the jobs.\<close>

inductive order_step :: "world \<Rightarrow> world \<Rightarrow> bool" where
  clock: "w_now s \<le> t \<Longrightarrow> order_step s (s\<lparr>w_now := t\<rparr>)"
| create: "create_order user dto s = (r, s') \<Longrightarrow> order_step s s'"
| approve: "approve_order geo user i fp t s = (r', s') \<Longrightarrow> order_step s s'"
| route: "route_order geo user i t' s = (r'', s') \<Longrightarrow> order_step s s'"
| reject: "reject user i why s = (r'', s') \<Longrightarrow> order_step s s'"
| accept: "accept_final_price user i s = (rs, s') \<Longrightarrow> order_step s s'"
| cancel: "cancel_order user i reason s = (r'', s') \<Longrightarrow> order_step s s'"
| redispatch: "redispatch user i s = (r'', s') \<Longrightarrow> order_step s s'"
| rate: "submit_rating user i rating s = (rr, s') \<Longrightarrow> order_step s s'"
| force: "force_complete user i why s = (r'', s') \<Longrightarrow> order_step s s'"
| confirm_invoice: "confirmSupplierInvoice user i figures s = (ri, s') \<Longrightarrow> order_step s s'"
| replace_invoice: "replaceSupplierInvoice user i figures s = (ri, s') \<Longrightarrow> order_step s s'"
| override: "overrideVerification user i why s = (r'', s') \<Longrightarrow> order_step s s'"
| reassign: "reassign_vehicle user i tr tn s = (ro, s') \<Longrightarrow> order_step s s'"
| resolve: "resolveStop user i k s = (rs, s') \<Longrightarrow> order_step s s'"
| assign: "dispatch_assign geo user i dr tr tn reason s = (ra, s') \<Longrightarrow> order_step s s'"
| verify_truck: "verify_vehicle geo user i cred meth loc s = (rv, s') \<Longrightarrow> order_step s s'"
| loaded: "confirmLoading user i s = (r'', s') \<Longrightarrow> order_step s s'"
| arrived: "arrive sha code salt user i s = (ru, s') \<Longrightarrow> order_step s s'"
| ask_code: "requestDeliveryOtp sha code salt user i s = (ru, s') \<Longrightarrow> order_step s s'"
| verify_arrival: "verifyArrival sha user i code s = (r'', s') \<Longrightarrow> order_step s s'"
| verify_delivery: "verifyDelivery sha user i code s = (r'', s') \<Longrightarrow> order_step s s'"
| acknowledge: "acknowledge_assignment user i s = (rs, s') \<Longrightarrow> order_step s s'"
| stop_declared: "declare_stop user i stop duration s = (rs, s') \<Longrightarrow> order_step s s'"
| stop_blocked: "report_blocked user i stop s = (rs, s') \<Longrightarrow> order_step s s'"
| stop_reason: "submitStopReason user i k stop s = (rs, s') \<Longrightarrow> order_step s s'"
| webhook: "payments_webhook hmac secret gateway event body sig s = (rw, s') \<Longrightarrow> order_step s s'"
| payment_timeout: "timeOut i s = (ru, s') \<Longrightarrow> order_step s s'"
| stalled: "detectStalledDeliveries s = (ru, s') \<Longrightarrow> order_step s s'"
| stop_escalation: "escalateStop k i s = (ru, s') \<Longrightarrow> order_step s s'"
| assignment_escalation: "escalateAssignment accepts hex i s = (rt, s') \<Longrightarrow> order_step s s'"

text \<open>The requests that concern no order: the money, the fleet, the exchange, the notices.\<close>

inductive side_step :: "world \<Rightarrow> world \<Rightarrow> bool" where
  settle: "invoices_settle user i ref s = (ri, s') \<Longrightarrow> side_step s s'"
| pay: "account_recordPayment user amount method reference doc s = (rm, s') \<Longrightarrow> side_step s s'"
| confirm: "account_confirmPayment user i s = (rv, s') \<Longrightarrow> side_step s s'"
| payout: "account_recordCashbackPayout user c doc amount method ref' doc' s = (rv, s') \<Longrightarrow> side_step s s'"
| term_set: "billing_setTerm user basis amount s = (ru, s') \<Longrightarrow> side_step s s'"
| programme_set: "billing_setProgramme user basis amount active everyone targets s = (ru, s') \<Longrightarrow> side_step s s'"
| correct: "balances_correct user i amount why s = (rl, s') \<Longrightarrow> side_step s s'"
| read_all: "notifications_markAllRead user s = (rn, s') \<Longrightarrow> side_step s s'"
| read_one: "notifications_markRead user i s = (ro, s') \<Longrightarrow> side_step s s'"
| truck_new: "trucks_create user plate model s = (rt, s') \<Longrightarrow> side_step s s'"
| truck_edit: "trucks_update user i plate' model s = (rt, s') \<Longrightarrow> side_step s s'"
| truck_withdrawn: "trucks_withdraw user i s = (rt, s') \<Longrightarrow> side_step s s'"
| truck_restored: "trucks_restore user i s = (rt, s') \<Longrightarrow> side_step s s'"
| truck_card: "trucks_pairCard user i plate s = (rt, s') \<Longrightarrow> side_step s s'"
| truck_code: "trucks_mintQrToken plate user i s = (rtt, s') \<Longrightarrow> side_step s s'"
| truck_recoded: "trucks_rotateQrToken plate user i s = (rtt, s') \<Longrightarrow> side_step s s'"
| truck_uncoded: "trucks_revokeQrToken user i s = (rt, s') \<Longrightarrow> side_step s s'"
| tank_new: "tanks_create user plate material amount fuels s = (rk, s') \<Longrightarrow> side_step s s'"
| tank_edit: "tanks_update user i plate' material' amount' fuels' s = (rk, s') \<Longrightarrow> side_step s s'"
| tank_withdrawn: "tanks_withdraw user i s = (rk, s') \<Longrightarrow> side_step s s'"
| tank_restored: "tanks_restore user i s = (rk, s') \<Longrightarrow> side_step s s'"
| offer: "exchange_create user offered s = (re, s') \<Longrightarrow> side_step s s'"
| answer: "exchange_propose user i answered s = (rp, s') \<Longrightarrow> side_step s s'"
| awarded: "exchange_award user i k s = (re, s') \<Longrightarrow> side_step s s'"
| withdrawn: "exchange_withdraw user i s = (re, s') \<Longrightarrow> side_step s s'"

definition system_step :: "world \<Rightarrow> world \<Rightarrow> bool" where
  "system_step s s' \<longleftrightarrow> order_step s s' \<or> side_step s s'"

section \<open>What concerns no order leaves the orders\<close>

definition orders_fixed :: "order list \<Rightarrow> oid \<Rightarrow> world \<Rightarrow> bool" where
  "orders_fixed os n s \<longleftrightarrow> w_orders s = os \<and> n \<le> w_next_id s"

interpretation fixed: service_frame "orders_fixed os n"
  by unfold_locales (simp_all add: orders_fixed_def)

lemma fixed_frame:
  "w_orders s' = w_orders s \<Longrightarrow> w_next_id s \<le> w_next_id s' \<Longrightarrow> orders_fixed os n s \<Longrightarrow> orders_fixed os n s'"
  by (simp add: orders_fixed_def)

lemma fixed_endpoint: "keeps (orders_fixed os n) m \<Longrightarrow> keeps (orders_fixed os n) (endpoint roles user m)"
proof -
  assume m: "keeps (orders_fixed os n) m"
  have "keeps (orders_fixed os n) (intercept user m)"
  proof (rule keepsI)
    fix s r s' assume "orders_fixed os n s" and run: "intercept user m s = (r, s')"
    then obtain s1 where s1: "m (s\<lparr>w_scope := scope_of user\<rparr>) = (r, s1)" "s' = s1\<lparr>w_scope := w_scope s\<rparr>"
      by (auto simp: intercept_def split: prod.splits)
    have "orders_fixed os n (s\<lparr>w_scope := scope_of user\<rparr>)" using \<open>orders_fixed os n s\<close> by (rule fixed.fr_scope)
    with s1 m show "orders_fixed os n s'" by (auto dest: keepsD intro: fixed.fr_scope)
  qed
  then show ?thesis unfolding endpoint_def by (intro keeps_bnd keeps_basic)
qed

lemma fixed_writes:
  "keeps (orders_fixed os n) fresh_id"
  "keeps (orders_fixed os n) (insert_doc w_movements_update mv)"
  "keeps (orders_fixed os n) (insert_doc w_terms_update ct)"
  "keeps (orders_fixed os n) (insert_doc w_programmes_update cp)"
  "keeps (orders_fixed os n) (insert_doc w_offers_update off)"
  "keeps (orders_fixed os n) (insert_doc w_proposals_update prp)"
  "keeps (orders_fixed os n) (find_and_update w_movements w_movements_update am_id vm i Qm fm)"
  "keeps (orders_fixed os n) (find_and_update w_balances w_balances_update lb_id vb i Qb fb)"
  "keeps (orders_fixed os n) (find_and_update w_notifications w_notifications_update n_id vn i Qn fn)"
  "keeps (orders_fixed os n) (update_many w_notifications_update vn Qn fn)"
  "keeps (orders_fixed os n) (find_and_update w_offers w_offers_update off_id vo i Qo fo)"
  "keeps (orders_fixed os n) (find_and_update w_proposals w_proposals_update prop_id vp i Qp fp)"
  "keeps (orders_fixed os n) (update_many w_proposals_update vp Qp fp)"
  by (intro keeps_fresh_id keeps_insert_doc keeps_find_and_update keeps_update_many; simp add: orders_fixed_def)+

lemma fixed_unscoped: "keeps (orders_fixed os n) m \<Longrightarrow> keeps (orders_fixed os n) (run_unscoped m)"
  by (rule keeps_run_unscoped) (auto intro: fixed.fr_scope)

lemma fixed_transaction: "(\<And>k. keeps (orders_fixed os k) m) \<Longrightarrow> keeps (orders_fixed os n) (transaction m)"
proof (rule keepsI)
  fix s r s' assume m: "\<And>k. keeps (orders_fixed os k) m" and s: "orders_fixed os n s" and run: "transaction m s = (r, s')"
  obtain q t where t: "m s = (q, t)" by (cases "m s")
  have "orders_fixed os (w_next_id s) t" by (rule keepsD [OF m t]) (use s in \<open>simp add: orders_fixed_def\<close>)
  with s t run show "orders_fixed os n s'"
    by (auto simp: transaction_def orders_fixed_def rollback_def split: sum.splits)
qed

lemmas fixed_step = keeps_bnd keeps_basic keeps_reads keeps_if keeps_option keeps_try_catch keeps_tenant_key keeps_for_each
  fixed_writes fixed_unscoped fixed_transaction fixed.keeps_ledger fixed.keeps_settle fixed.keeps_notify
  fixed.keeps_new_movement fixed_endpoint

lemma keeps_indexed_insert: "(\<And>s. P s \<Longrightarrow> P (put (\<lambda>ds. ds @ [d]) s)) \<Longrightarrow> keeps P (indexed_insert coll put clash d)"
  unfolding indexed_insert_def by (intro keeps_bnd keeps_basic keeps_insert_doc)

lemma keeps_indexed_update:
  assumes "\<And>s f. P s \<Longrightarrow> P (put (upd_by key i f) s)"
  shows "keeps P (indexed_update coll put key vis clash i f)"
proof (rule keepsI)
  fix s r s' assume s: "P s" and run: "indexed_update coll put key vis clash i f s = (r, s')"
  have "keeps P (find_and_update coll put key vis i (\<lambda>_. True) f)" by (rule keeps_find_and_update) (rule assms)
  then have "P t" if "find_and_update coll put key vis i (\<lambda>_. True) f s = (q, t)" for q t using that s by (rule keepsD)
  with s run show "P s'" by (auto simp: indexed_update_def split: prod.splits sum.splits option.splits if_splits)
qed

lemma fixed_indexed:
  "keeps (orders_fixed os n) (indexed_insert w_trucks w_trucks_update ct t)"
  "keeps (orders_fixed os n) (indexed_insert w_tanks w_tanks_update cn k)"
  "keeps (orders_fixed os n) (indexed_insert w_proposals w_proposals_update cp p)"
  "keeps (orders_fixed os n) (update_truck i f)" "keeps (orders_fixed os n) (update_tank i g)"
  unfolding update_truck_def update_tank_def
  by (intro keeps_indexed_insert keeps_indexed_update; simp add: orders_fixed_def)+

lemma fixed_fleet:
  "keeps (orders_fixed os n) (createTruck c p m)" "keeps (orders_fixed os n) (updateTruck i p' m)"
  "keeps (orders_fixed os n) (withdrawTruck i)" "keeps (orders_fixed os n) (restoreTruck i)"
  "keeps (orders_fixed os n) (pairCard i raw)" "keeps (orders_fixed os n) (mintQrToken tok i)"
  "keeps (orders_fixed os n) (rotateQrToken tok i)" "keeps (orders_fixed os n) (revokeQrToken i)"
  "keeps (orders_fixed os n) (createTank c code mat l fs)" "keeps (orders_fixed os n) (updateTank i code' mat' l' fs')"
  "keeps (orders_fixed os n) (withdrawTank i)" "keeps (orders_fixed os n) (restoreTank i)"
  unfolding createTruck_def updateTruck_def withdrawTruck_def restoreTruck_def pairCard_def mintQrToken_def rotateQrToken_def
    revokeQrToken_def createTank_def updateTank_def withdrawTank_def restoreTank_def Let_def
  by (intro keeps_on_duplicate fixed_step fixed_indexed)+

lemma fixed_money:
  "keeps (orders_fixed os n) (settleById i ref)" "keeps (orders_fixed os n) (recordPayment c q meth rf doc)"
  "keeps (orders_fixed os n) (confirmPayment i u)" "keeps (orders_fixed os n) (recordCashbackPayout c q meth rf' doc u)"
  "keeps (orders_fixed os n) (setCommissionTerm b q u)" "keeps (orders_fixed os n) (setCashbackProgramme b q x y ts u)"
  "keeps (orders_fixed os n) (recordCorrection i q why u)"
  unfolding settleById_def recordPayment_def confirmPayment_def recordCashbackPayout_def setCommissionTerm_def
    setCashbackProgramme_def recordCorrection_def getCashbackOwed_def
  by (intro fixed_step fixed.keeps_reading)+

lemma fixed_notices: "keeps (orders_fixed os n) (markRead i u)" "keeps (orders_fixed os n) (markAllRead u)"
  unfolding markRead_def markAllRead_def by (intro fixed_step)+

lemma fixed_exchange:
  "keeps (orders_fixed os n) (createOffer c u odto)" "keeps (orders_fixed os n) (propose i c u pdto)"
  "keeps (orders_fixed os n) (award i c u k)" "keeps (orders_fixed os n) (withdraw i c u)"
proof -
  have notice: "keeps (orders_fixed os n) (notifyMany us ty)" "keeps (orders_fixed os n) (resolveRecipientAdmins cs)" for us ty cs
    unfolding notifyMany_def resolveRecipientAdmins_def by (intro fixed_step)+
  have resolve: "keeps (orders_fixed os k) (resolve_offer d p u t)" for k d p t
    unfolding resolve_offer_def by (intro fixed_step)
  have save: "keeps (orders_fixed os n) (save_offer d)" for d
    unfolding save_offer_def by (intro fixed_step)
  show "keeps (orders_fixed os n) (createOffer c u odto)"
    unfolding createOffer_def findActiveFuelCompaniesSellingGrade_def by (intro fixed_step notice save)
  show "keeps (orders_fixed os n) (propose i c u pdto)"
    unfolding propose_def isActiveCompany_def getBasePrice_def findCompany_def
    by (intro fixed_step notice keeps_on_duplicate fixed_indexed)
  show "keeps (orders_fixed os n) (award i c u k)"
    unfolding award_def notifyAward_def by (intro fixed_step notice resolve)
  show "keeps (orders_fixed os n) (withdraw i c u)"
    unfolding withdraw_def by (intro fixed_step notice)
qed

lemma fixed_run:
  "m s = (r, s') \<Longrightarrow> (\<And>os n. keeps (orders_fixed os n) m) \<Longrightarrow> w_orders s' = w_orders s \<and> w_next_id s \<le> w_next_id s'"
proof -
  assume run: "m s = (r, s')" and m: "\<And>os n. keeps (orders_fixed os n) m"
  have "orders_fixed (w_orders s) (w_next_id s) s'" by (rule keepsD [OF m run]) (simp add: orders_fixed_def)
  then show ?thesis by (simp add: orders_fixed_def)
qed

lemmas side_endpoint_defs = invoices_settle_def account_recordPayment_def account_confirmPayment_def
  account_recordCashbackPayout_def billing_setTerm_def billing_setProgramme_def balances_correct_def
  notifications_markAllRead_def notifications_markRead_def trucks_create_def trucks_update_def trucks_withdraw_def
  trucks_restore_def trucks_pairCard_def trucks_mintQrToken_def trucks_rotateQrToken_def trucks_revokeQrToken_def
  tanks_create_def tanks_update_def tanks_withdraw_def tanks_restore_def exchange_create_def exchange_propose_def
  exchange_award_def exchange_withdraw_def findInvoiceById_def requireCompanyId_def safely_def

lemma side_step_fixed: "side_step s s' \<Longrightarrow> w_orders s' = w_orders s \<and> w_next_id s \<le> w_next_id s'"
  by (induction rule: side_step.induct; erule fixed_run; unfold side_endpoint_defs;
    intro fixed_step fixed_money fixed_fleet fixed_notices fixed_exchange)

section \<open>A contract the whole system keeps\<close>

locale system_frame = order_source + record_frame +
  assumes fr_clock: "P s \<Longrightarrow> w_now s \<le> t \<Longrightarrow> P (s\<lparr>w_now := t\<rparr>)"
    and fr_side: "P s \<Longrightarrow> w_orders s' = w_orders s \<Longrightarrow> w_next_id s \<le> w_next_id s' \<Longrightarrow> P s'"
begin

lemma keeps_entries:
  "keeps P (create_order user dto)" "keeps P (submit_rating user i rating)"
  "keeps P (dispatch_assign geo user i dr tr tn reason)" "keeps P (payments_webhook hmac secret gw event body sig)"
  unfolding create_order_def submit_rating_def dispatch_assign_def payments_webhook_def
  by (intro keeps_handler keeps_create keeps_submitRating keeps_assignDriver keeps_handleWebhook)+

lemma order_step_keeps: "order_step s s' \<Longrightarrow> P s \<Longrightarrow> P s'"
proof (induction rule: order_step.induct)
  case (clock s t)
  then show ?case by (blast intro: fr_clock)
qed (drule keepsD [rotated]; (assumption | rule keeps_entries keeps_office_endpoints keeps_road_endpoints keeps_timeOut
    keeps_stops keeps_escalateAssignment)+)+

lemma system_keeps: "system_step\<^sup>*\<^sup>* s s' \<Longrightarrow> P s \<Longrightarrow> P s'"
proof (induction rule: rtranclp_induct)
  case (step t u)
  then show ?case using order_step_keeps [of t u] side_step_fixed [of t u] fr_side by (auto simp: system_step_def)
qed

end

interpretation sim_system: system_frame "simulated_from m"
proof unfold_locales
  fix s :: world and t assume "simulated_from m s"
  then show "simulated_from m (s\<lparr>w_now := t\<rparr>)" by (rule simulated_frame) simp_all
qed (rule simulated_frame)

section \<open>The trail of an order\<close>

definition trails_from :: "world \<Rightarrow> world \<Rightarrow> bool" where
  "trails_from s0 s \<longleftrightarrow> orders_ok s \<and> (\<forall>i d. get_by o_id i (w_orders s0) = Some d \<longrightarrow>
     (\<exists>d' h. get_by o_id i (w_orders s) = Some d' \<and> o_statusHistory d' = o_statusHistory d @ h \<and>
        o_clientId d' = o_clientId d \<and> o_fuelCompanyId d' = o_fuelCompanyId d))"

lemma trails_frame:
  assumes "trails_from s0 s" "w_orders s' = w_orders s" "w_next_id s \<le> w_next_id s'"
  shows "trails_from s0 s'"
  using assms by (simp add: trails_from_def orders_ok_frame [of s])

lemma trails_update:
  assumes t: "trails_from s0 s" and ok: "orders_ok s'" and s': "w_orders s' = upd_by o_id j f (w_orders s)"
    and f: "\<And>d. o_id (f d) = o_id d" "\<And>d. \<exists>h. o_statusHistory (f d) = o_statusHistory d @ h"
      "\<And>d. o_clientId (f d) = o_clientId d" "\<And>d. o_fuelCompanyId (f d) = o_fuelCompanyId d"
  shows "trails_from s0 s'"
proof -
  have "\<exists>d' h. get_by o_id i (w_orders s') = Some d' \<and> o_statusHistory d' = o_statusHistory d @ h \<and>
      o_clientId d' = o_clientId d \<and> o_fuelCompanyId d' = o_fuelCompanyId d"
    if "get_by o_id i (w_orders s0) = Some d" for i d
  proof -
    from t that obtain d1 h1 where d1: "get_by o_id i (w_orders s) = Some d1" "o_statusHistory d1 = o_statusHistory d @ h1"
      "o_clientId d1 = o_clientId d" "o_fuelCompanyId d1 = o_fuelCompanyId d"
      unfolding trails_from_def by blast
    obtain h2 where "o_statusHistory (f d1) = o_statusHistory d1 @ h2" using f(2) by blast
    with d1 show ?thesis by (cases "i = j") (simp_all add: s' get_by_upd_by f(1,3,4))
  qed
  with ok show ?thesis by (simp add: trails_from_def)
qed

lemma trails_patch:
  assumes "trails_from s0 s" "order_patch f"
  shows "trails_from s0 (w_orders_update (upd_by o_id i f) s)"
proof (rule trails_update [OF assms(1)])
  show "orders_ok (w_orders_update (upd_by o_id i f) s)" using assms by (simp add: orders_ok_patched trails_from_def)
  show "w_orders (w_orders_update (upd_by o_id i f) s) = upd_by o_id i f (w_orders s)" by simp
qed (use assms(2) in \<open>simp_all add: order_patch_def\<close>)

interpretation trail: system_frame "trails_from s0"
proof unfold_locales
  fix s i f assume f: "order_patch f" and s: "trails_from s0 s"
  show "trails_from s0 (w_orders_update (upd_by o_id i f) s)"
    using s f by (intro trails_patch)
next
  fix s i f assume "detail_patch f" and s: "trails_from s0 s"
  then have f: "order_patch f" unfolding detail_patch_def by blast
  show "trails_from s0 (w_orders_update (upd_by o_id i f) s)"
    using s f by (intro trails_patch)
next
  fix s i owner now fs assume s: "trails_from s0 s" "i < w_next_id s" "i \<notin> o_id ` set (w_orders s)"
  then have "orders_ok (w_orders_update (\<lambda>ds. ds @ [new_order i owner now fs]) s)"
    by (simp add: insert_new_orders_ok trails_from_def)
  with s(1) show "trails_from s0 (w_orders_update (\<lambda>ds. ds @ [new_order i owner now fs]) s)"
    by (fastforce simp: trails_from_def get_by_snoc)
next
  fix s :: world assume "trails_from s0 s"
  then show "w_next_id s \<notin> o_id ` set (w_orders s)" by (simp add: trails_from_def orders_life.fr_fresh)
next
  fix opts :: transition_options and i src to actor assume extra: "order_patch (tr_extra opts)"
  show "keeps (trails_from s0) (transition i src to actor opts)"
  proof (rule keepsI)
    fix s r s' assume s: "trails_from s0 s" and run: "transition i src to actor opts s = (r, s')"
    have ok: "orders_ok s'" using keepsD [OF transition_orders_ok [OF extra] run] s by (simp add: trails_from_def)
    show "trails_from s0 s'"
    proof (cases r)
      case (Inl e)
      with run s show ?thesis by (auto dest: transition_errD)
    next
      case (Inr d')
      let ?f = "apply_transition opts (history_entry src to actor opts (w_now s))"
      from run [unfolded Inr] obtain es where s': "s' = (w_orders_update (upd_by o_id i ?f) s)\<lparr>w_emits := w_emits s @ es\<rparr>"
        by (rule transition_okD)
      show ?thesis by (rule trails_update [OF s ok, of i ?f]) (simp_all add: s' apply_transition_fields [OF extra])
    qed
  qed
qed (erule trails_frame; simp)+

section \<open>Properties\<close>

text \<open>C1: the system refines the abstract machine: whatever requests and jobs run, in whatever order, by whomever, the
  statuses of the orders have moved only along the edges of the table, from an order opened pending approval, and every
  order still matches its own history.\<close>

theorem system_refines_lifecycle:
  assumes "system_step\<^sup>*\<^sup>* s s'" and "orders_ok s"
  shows "orders_ok s' \<and> lc_step\<^sup>*\<^sup>* (statuses s) (statuses s')"
  using sim_system.system_keeps [OF assms(1), of "statuses s"] assms(2) by (simp add: simulated_from_def)

text \<open>C4: a closed order stays closed: once an order is delivered, rejected or cancelled, no sequence of requests and jobs
  moves it again.\<close>

theorem closed_orders_stay_closed:
  assumes "system_step\<^sup>*\<^sup>* s s'" and "orders_ok s" and "statuses s i = Some st" and "st \<in> {DELIVERED, REJECTED, CANCELLED}"
  shows "statuses s' i = Some st"
proof -
  have no: "\<not> legal_edge st st' ov" for st' ov using assms(4) lifecycle_terminal by blast
  have "m' i = Some st" if "lc_step\<^sup>*\<^sup>* (statuses s) m'" for m'
    using that
  proof (induction rule: rtranclp_induct)
    case (step m m')
    from step(2) show ?case
      using step(3) no by (cases rule: lc_stepE) auto
  qed (rule assms(3))
  with sim_system.system_keeps [OF assms(1), of "statuses s"] assms(2) show ?thesis by (simp add: simulated_from_def)
qed

text \<open>C3: the audit trail of an order only grows: no sequence of requests and jobs removes an order, rewrites an entry of
  its history, or hands it to another client or fuel company.\<close>

theorem audit_trail_only_grows:
  assumes "system_step\<^sup>*\<^sup>* s s'" and "orders_ok s" and "get_by o_id i (w_orders s) = Some d"
  shows "\<exists>d' h. get_by o_id i (w_orders s') = Some d' \<and> o_statusHistory d' = o_statusHistory d @ h \<and>
     o_clientId d' = o_clientId d \<and> o_fuelCompanyId d' = o_fuelCompanyId d"
proof -
  have "trails_from s s" using assms(2) by (simp add: trails_from_def)
  from trail.system_keeps [OF assms(1) this] assms(3) show ?thesis by (simp add: trails_from_def)
qed

section \<open>A concrete run\<close>

text \<open>The driver hands over with the code; then the client tries to cancel.\<close>

definition opened_world :: world where
  "opened_world = handover_world\<lparr>w_orders := [unloading\<lparr>o_status := PENDING_APPROVAL\<rparr>]\<rparr>"

lemma opened_ok: "orders_ok opened_world"
  by (auto simp: orders_ok_def order_ok_def opened_world_def handover_world_def unloading_def sample_defs intro: lifecycle.start)

lemma opened_cancelled: "\<exists>s'. system_step\<^sup>*\<^sup>* opened_world s' \<and> statuses s' 10 = Some CANCELLED \<and> w_now s' = 1000"
proof -
  obtain x s' where run: "cancel_order sample_client 10 None opened_world = (x, s')" by fastforce
  have "statuses (snd (cancel_order sample_client 10 None opened_world)) 10 = Some CANCELLED \<and>
      w_now (snd (cancel_order sample_client 10 None opened_world)) = 1000"
    by code_simp
  moreover have "system_step opened_world s'" using run by (auto simp: system_step_def intro: order_step.cancel)
  ultimately show ?thesis using run by auto
qed

lemma opened_status: "statuses opened_world 10 = Some PENDING_APPROVAL"
  by (simp add: statuses_def opened_world_def unloading_def sample_defs)

theorem system_refines_lifecycle_witness:
  "\<exists>s'. statuses s' 10 = Some CANCELLED \<and> orders_ok s' \<and> lc_step\<^sup>*\<^sup>* (statuses opened_world) (statuses s')"
  using opened_cancelled system_refines_lifecycle [OF _ opened_ok] by blast

theorem closed_orders_stay_closed_witness:
  "\<exists>s. statuses s 10 = Some CANCELLED \<and> statuses (snd (redispatch sample_client 10 s)) 10 = Some CANCELLED"
proof -
  from opened_cancelled obtain s where s: "system_step\<^sup>*\<^sup>* opened_world s" "statuses s 10 = Some CANCELLED" by blast
  have ok: "orders_ok s" using sim_system.system_keeps [OF s(1), of "statuses opened_world"] opened_ok
    by (simp add: simulated_from_def)
  have "system_step s (snd (redispatch sample_client 10 s))"
    unfolding system_step_def by (rule disjI1, rule order_step.redispatch, rule prod.collapse [symmetric])
  then have "system_step\<^sup>*\<^sup>* s (snd (redispatch sample_client 10 s))" by (rule r_into_rtranclp)
  from closed_orders_stay_closed [OF this ok s(2)] s(2) show ?thesis by auto
qed

theorem audit_trail_only_grows_witness:
  "\<exists>s' d' h. system_step\<^sup>*\<^sup>* opened_world s' \<and> statuses s' 10 = Some CANCELLED \<and>
     get_by o_id 10 (w_orders s') = Some d' \<and> o_statusHistory d' = o_statusHistory unloading @ h"
proof -
  from opened_cancelled obtain s where s: "system_step\<^sup>*\<^sup>* opened_world s" "statuses s 10 = Some CANCELLED" by blast
  have "get_by o_id 10 (w_orders opened_world) = Some (unloading\<lparr>o_status := PENDING_APPROVAL\<rparr>)"
    by (simp add: opened_world_def unloading_def sample_defs)
  from audit_trail_only_grows [OF s(1) opened_ok this] s show ?thesis by auto
qed

end
