(* ===== verification/Client_View.thy ===== *)
theory Client_View
  imports Orders_Controller
begin

text \<open>
  What a client learns from reading orders.  Two worlds whose orders differ only in what is internal to the companies
  (verifications, tank, stops, escalation, who acted and why, supplier invoices) answer a client's reads alike.
\<close>

section \<open>What a client's replies depend on\<close>

text \<open>Two orders that differ in what is internal to the companies only.\<close>

definition departure_verified :: "order \<Rightarrow> bool" where
  "departure_verified d \<longleftrightarrow> list_ex (\<lambda>v. vv_stage v = DEPARTURE_STAGE \<and> vv_matched v) (o_verifications d)"

definition same_for_client :: "order \<Rightarrow> order \<Rightarrow> bool" where
  "same_for_client d d' \<longleftrightarrow> (delete_internals d)\<lparr>o_supplierInvoices := []\<rparr> = (delete_internals d')\<lparr>o_supplierInvoices := []\<rparr> \<and>
     departure_verified d = departure_verified d'"

lemma same_for_client_fields:
  assumes "same_for_client d d'"
  shows "o_id d' = o_id d" "o_fuelCompanyId d' = o_fuelCompanyId d" "o_transportCompanyId d' = o_transportCompanyId d"
    "o_clientId d' = o_clientId d" "o_driverId d' = o_driverId d" "o_status d' = o_status d" "o_stationId d' = o_stationId d"
    "o_deliveryLocation d' = o_deliveryLocation d"
  using assms by (auto simp: same_for_client_def delete_internals_def intro: order.equality dest: arg_cong [where f = o_id]
      arg_cong [where f = o_fuelCompanyId] arg_cong [where f = o_transportCompanyId] arg_cong [where f = o_clientId]
      arg_cong [where f = o_driverId] arg_cong [where f = o_status] arg_cong [where f = o_stationId]
      arg_cong [where f = o_deliveryLocation])

lemma same_shape:
  assumes "au_role user = CLIENT" "same_for_client d d'"
  shows "toRoleScopedShape d' user = toRoleScopedShape d user"
  using assms by (simp add: toRoleScopedShape_def is_operator_or_driver_def buildSupplierInvoiceView_def same_for_client_def Let_def)

lemma same_parties_seen:
  assumes "same_for_client d d'" "order_scoping ctx = Inr v"
  shows "v d' = v d"
proof -
  have "order_matches p d' = order_matches p d" for p
    using same_for_client_fields [OF assms(1)] by (cases p) simp_all
  with assms(2) show ?thesis by (auto simp: multi_party_def split: sum.splits option.splits)
qed

lemma same_found:
  assumes "list_all2 same_for_client ds ds'"
  shows "rel_option same_for_client (get_by o_id i ds) (get_by o_id i ds')"
  using assms by (induction rule: list_all2_induct) (auto dest: same_for_client_fields)

lemma same_filter:
  assumes "list_all2 same_for_client ds ds'" "\<And>d d'. same_for_client d d' \<Longrightarrow> Q d' = Q d"
  shows "list_all2 same_for_client (filter Q ds) (filter Q ds')"
  using assms by (induction rule: list_all2_induct) auto

text \<open>The two worlds are alike outside the orders.\<close>

definition alike :: "world \<Rightarrow> world \<Rightarrow> bool" where
  "alike s t \<longleftrightarrow> (\<exists>os. list_all2 same_for_client (w_orders s) os \<and> t = s\<lparr>w_orders := os\<rparr>)"

lemma alikeD:
  "alike s t \<Longrightarrow> w_users t = w_users s \<and> w_stations t = w_stations s \<and> w_ratings t = w_ratings s \<and> w_scope t = w_scope s \<and>
     list_all2 same_for_client (w_orders s) (w_orders t)"
  by (auto simp: alike_def)

lemma alike_scope: "alike s t \<Longrightarrow> alike (s\<lparr>w_scope := c\<rparr>) (t\<lparr>w_scope := c\<rparr>)"
  by (auto simp: alike_def)

text \<open>Two reads that answer alike in alike worlds, and write nothing.\<close>

definition agree :: "'a service \<Rightarrow> 'b service \<Rightarrow> ('a \<Rightarrow> 'b \<Rightarrow> bool) \<Rightarrow> bool" where
  "agree m m' R \<longleftrightarrow> (\<forall>s t. alike s t \<longrightarrow> (\<exists>e. m s = (Inl e, s) \<and> m' t = (Inl e, t)) \<or>
     (\<exists>x y. R x y \<and> m s = (Inr x, s) \<and> m' t = (Inr y, t)))"

lemma agreeI:
  "(\<And>s t. alike s t \<Longrightarrow> (\<exists>e. m s = (Inl e, s) \<and> m' t = (Inl e, t)) \<or>
     (\<exists>x y. R x y \<and> m s = (Inr x, s) \<and> m' t = (Inr y, t))) \<Longrightarrow> agree m m' R"
  by (simp add: agree_def)

lemma agreeE:
  assumes "agree m m' R" "alike s t"
  obtains e where "m s = (Inl e, s)" "m' t = (Inl e, t)" | x y where "R x y" "m s = (Inr x, s)" "m' t = (Inr y, t)"
  using assms unfolding agree_def by blast

lemma agree_bnd:
  assumes "agree m m' R" "\<And>x y. R x y \<Longrightarrow> agree (f x) (f' y) R'"
  shows "agree (bnd m f) (bnd m' f') R'"
proof (rule agreeI)
  fix s t assume st: "alike s t"
  show "(\<exists>e. bnd m f s = (Inl e, s) \<and> bnd m' f' t = (Inl e, t)) \<or>
     (\<exists>x y. R' x y \<and> bnd m f s = (Inr x, s) \<and> bnd m' f' t = (Inr y, t))"
    using assms(1) st
  proof (cases rule: agreeE)
    case (2 x y)
    then have "bnd m f s = f x s" "bnd m' f' t = f' y t" by (simp_all add: bnd_def)
    with assms(2) [OF 2(1)] st show ?thesis by (auto elim: agreeE)
  qed (auto simp: bnd_def)
qed

lemma agree_basic:
  "R a b \<Longrightarrow> agree (ret a) (ret b) R" "agree (guard p e) (guard p e) (=)"
  "rel_option R x y \<Longrightarrow> agree (demand e x) (demand e y) R" "agree (of_sum z) (of_sum z) (=)"
  by (cases x; cases y; cases z; auto simp: agree_def ret_def guard_def throw_def demand_def of_sum_def)+

lemma agree_unscoped: "agree m m' R \<Longrightarrow> agree (run_unscoped m) (run_unscoped m') R"
proof (rule agreeI)
  fix s t assume m: "agree m m' R" and st: "alike s t"
  from m alike_scope [OF st] show "(\<exists>e. run_unscoped m s = (Inl e, s) \<and> run_unscoped m' t = (Inl e, t)) \<or>
     (\<exists>x y. R x y \<and> run_unscoped m s = (Inr x, s) \<and> run_unscoped m' t = (Inr y, t))"
    by (cases rule: agreeE [where s = "s\<lparr>w_scope := anonymous\<rparr>" and t = "t\<lparr>w_scope := anonymous\<rparr>"])
      (auto simp: run_unscoped_def)
qed

lemma agree_intercept: "agree m m' R \<Longrightarrow> agree (intercept user m) (intercept user m') R"
proof (rule agreeI)
  fix s t assume m: "agree m m' R" and st: "alike s t"
  from m alike_scope [OF st] show "(\<exists>e. intercept user m s = (Inl e, s) \<and> intercept user m' t = (Inl e, t)) \<or>
     (\<exists>x y. R x y \<and> intercept user m s = (Inr x, s) \<and> intercept user m' t = (Inr y, t))"
    by (cases rule: agreeE [where s = "s\<lparr>w_scope := scope_of user\<rparr>" and t = "t\<lparr>w_scope := scope_of user\<rparr>"])
      (auto simp: intercept_def)
qed

lemma agree_find_order: "agree (find_order i) (find_order i) (rel_option same_for_client)"
proof (rule agreeI)
  fix s t assume st: "alike s t"
  note st' = alikeD [OF st]
  have "rel_option same_for_client (get_by o_id i (w_orders s)) (get_by o_id i (w_orders t))"
    using st' same_found by blast
  then show "(\<exists>e. find_order i s = (Inl e, s) \<and> find_order i t = (Inl e, t)) \<or>
     (\<exists>x y. rel_option same_for_client x y \<and> find_order i s = (Inr x, s) \<and> find_order i t = (Inr y, t))"
    using st' by (auto simp: find_order_def find_one_def same_parties_seen split: sum.split option.split)
qed

lemma agree_find_orders:
  assumes "\<And>d d'. same_for_client d d' \<Longrightarrow> Q d' = Q d"
  shows "agree (find_all w_orders order_scoping Q) (find_all w_orders order_scoping Q) (list_all2 same_for_client)"
proof (rule agreeI)
  fix s t assume st: "alike s t"
  note st' = alikeD [OF st]
  have "list_all2 same_for_client (filter (\<lambda>d. v d \<and> Q d) (w_orders s)) (filter (\<lambda>d. v d \<and> Q d) (w_orders t))"
    if "order_scoping (w_scope s) = Inr v" for v
    using st' assms same_parties_seen [OF _ that] by (intro same_filter) auto
  then show "(\<exists>e. find_all w_orders order_scoping Q s = (Inl e, s) \<and> find_all w_orders order_scoping Q t = (Inl e, t)) \<or>
     (\<exists>x y. list_all2 same_for_client x y \<and> find_all w_orders order_scoping Q s = (Inr x, s) \<and>
        find_all w_orders order_scoping Q t = (Inr y, t))"
    using st' by (simp add: find_all_def split: sum.split)
qed

lemma agree_others:
  "agree (find_one w_users u_id user_scoping i) (find_one w_users u_id user_scoping i) (=)"
  "agree (find_one w_stations stn_id station_scoping j) (find_one w_stations stn_id station_scoping j) (=)"
  "agree (find_all w_stations station_scoping Q) (find_all w_stations station_scoping Q) (=)"
  "agree (find_one w_ratings rt_orderId (multi_party rating_matches) k) (find_one w_ratings rt_orderId (multi_party rating_matches) k) (=)"
  by (rule agreeI; drule alikeD; simp add: find_one_def find_all_def split: sum.split)+

lemma agree_findOneForUser: "agree (findOneForUser user i) (findOneForUser user i) same_for_client"
  unfolding findOneForUser_def findOrderById_def
proof (rule agree_bnd [where R = same_for_client])
  show "agree (bnd (find_order i) (demand NotFound)) (bnd (find_order i) (demand NotFound)) same_for_client"
    by (intro agree_bnd [OF agree_find_order] agree_basic(3))
next
  fix d d' assume d: "same_for_client d d'"
  show "agree (bnd (guard ((au_role user = CLIENT \<and> o_clientId d = au_userId user) \<or>
        (au_role user = DRIVER \<and> o_driverId d = Some (au_userId user)) \<or>
        au_role user = FUEL_COMPANY_ADMIN \<or> au_role user = TRANSPORT_COMPANY_ADMIN \<or> au_role user = SUPER_ADMIN) NotFound) (\<lambda>_. ret d))
     (bnd (guard ((au_role user = CLIENT \<and> o_clientId d' = au_userId user) \<or>
        (au_role user = DRIVER \<and> o_driverId d' = Some (au_userId user)) \<or>
        au_role user = FUEL_COMPANY_ADMIN \<or> au_role user = TRANSPORT_COMPANY_ADMIN \<or> au_role user = SUPER_ADMIN) NotFound) (\<lambda>_. ret d'))
     same_for_client"
    unfolding same_for_client_fields [OF d] using d by (intro agree_bnd [OF agree_basic(2)] agree_basic(1))
qed

lemma agree_telemetry:
  assumes "same_for_client d d'"
  shows "agree (driverTelemetry metres speed d) (driverTelemetry metres speed d') (=)"
proof -
  have "agree (case x of None \<Rightarrow> ret None | Some i \<Rightarrow> run_unscoped (find_one w_users u_id user_scoping i))
      (case x of None \<Rightarrow> ret None | Some i \<Rightarrow> run_unscoped (find_one w_users u_id user_scoping i)) (=)" for x
    by (cases x) (auto intro: agree_basic agree_unscoped agree_others)
  then show ?thesis unfolding driverTelemetry_def same_for_client_fields [OF assms]
    by (rule agree_bnd) (simp add: agree_basic(1))
qed

lemma agree_rows:
  assumes client: "au_role user = CLIENT" and "list_all2 same_for_client ds ds'"
  shows "agree (order_rows metres speed user sts ds) (order_rows metres speed user sts ds') (=)"
  using assms(2)
proof (induction rule: list_all2_induct)
  case (Cons d ds d' ds')
  have eta: "agree (computeEtaMinutes metres speed d) (computeEtaMinutes metres speed d') (=)"
    unfolding computeEtaMinutes_def by (rule agree_bnd [OF agree_telemetry [OF Cons(1)]]) (simp add: agree_basic(1))
  show ?case
    unfolding order_rows.simps same_shape [OF client Cons(1)] same_for_client_fields [OF Cons(1)]
    by (rule agree_bnd [OF eta], rule agree_bnd [OF Cons(3)]) (simp add: agree_basic(1))
qed (simp add: agree_basic(1))

lemma agree_same: "(\<And>s. m s = (fst (m s), s)) \<Longrightarrow> (\<And>s t. alike s t \<Longrightarrow> fst (m t) = fst (m s)) \<Longrightarrow> agree m m (=)"
  by (rule agreeI) (metis sum.exhaust)

lemma agree_parse: "agree (parseEnumQuery names v) (parseEnumQuery names v) (=)"
  by (rule agreeI) (auto simp: parseEnumQuery_def ret_def bnd_def demand_def throw_def split: option.split)

lemma agree_stations: "agree (findManyIncludingInactive ids) (findManyIncludingInactive ids) (=)"
  unfolding findManyIncludingInactive_def Let_def
  by (cases "remdups (List.map_filter id ids) = []") (auto intro!: agree_basic(1) agree_bnd [OF agree_others(3)])

lemma agree_station: "agree (findByIdIncludingInactive x) (findByIdIncludingInactive x) (=)"
  unfolding findByIdIncludingInactive_def by (cases x) (auto intro: agree_basic(1) agree_others)

lemma agree_endpoint: "agree m m' R \<Longrightarrow> agree (endpoint roles user m) (endpoint roles user m') R"
  unfolding endpoint_def by (rule agree_bnd [OF agree_basic(2)]) (rule agree_intercept)

lemma agree_findMine:
  assumes client: "au_role user = CLIENT"
  shows "agree (findMine metres speed user status bucket oid) (findMine metres speed user status bucket oid) (=)"
proof -
  have query: "order_query user filt d' = order_query user filt d" if "same_for_client d d'" for d d' filt
    unfolding order_query_def same_for_client_fields [OF that] ..
  have list: "agree (findForUser user filt) (findForUser user filt) (list_all2 same_for_client)" for filt
    unfolding findForUser_def by (rule agree_find_orders) (rule query)
  have ids: "map o_stationId ds' = map o_stationId ds" if "list_all2 same_for_client ds ds'" for ds ds'
    using that by (induction rule: list_all2_induct) (simp_all add: same_for_client_fields)
  have rest: "agree (bnd (findManyIncludingInactive (map o_stationId ds)) (\<lambda>sts. order_rows metres speed user sts ds))
      (bnd (findManyIncludingInactive (map o_stationId ds')) (\<lambda>sts. order_rows metres speed user sts ds')) (=)"
    if "list_all2 same_for_client ds ds'" for ds ds'
    unfolding ids [OF that] by (rule agree_bnd [OF agree_stations]) (simp add: agree_rows [OF client that])
  show ?thesis unfolding findMine_def
    by (rule agree_endpoint, rule agree_bnd [OF agree_parse], simp, rule agree_bnd [OF agree_basic(2)],
      rule agree_bnd [OF list], rule rest)
qed

lemma agree_findOneOrder:
  assumes client: "au_role user = CLIENT"
  shows "agree (findOneOrder metres speed user i) (findOneOrder metres speed user i) (=)"
proof -
  have rest: "agree (bnd (findByIdIncludingInactive (o_stationId d)) (\<lambda>station.
     bnd (driverTelemetry metres speed d) (\<lambda>t.
     bnd (findByOrderId (o_id d)) (\<lambda>rating.
     ret \<lparr>od_order = toRoleScopedShape d user, od_telemetry = t, od_station = station,
          od_vehicleVerified = list_ex (\<lambda>v. vv_stage v = DEPARTURE_STAGE \<and> vv_matched v) (o_verifications d),
          od_rating = map_option (\<lambda>x. (rt_score x, rt_review x)) rating\<rparr>))))
    (bnd (findByIdIncludingInactive (o_stationId d')) (\<lambda>station.
     bnd (driverTelemetry metres speed d') (\<lambda>t.
     bnd (findByOrderId (o_id d')) (\<lambda>rating.
     ret \<lparr>od_order = toRoleScopedShape d' user, od_telemetry = t, od_station = station,
          od_vehicleVerified = list_ex (\<lambda>v. vv_stage v = DEPARTURE_STAGE \<and> vv_matched v) (o_verifications d'),
          od_rating = map_option (\<lambda>x. (rt_score x, rt_review x)) rating\<rparr>)))) (=)"
    if d: "same_for_client d d'" for d d'
  proof -
    have flag: "list_ex (\<lambda>v. vv_stage v = DEPARTURE_STAGE \<and> vv_matched v) (o_verifications d') =
        list_ex (\<lambda>v. vv_stage v = DEPARTURE_STAGE \<and> vv_matched v) (o_verifications d)"
      using d by (simp add: same_for_client_def departure_verified_def)
    show ?thesis
      unfolding same_shape [OF client d] same_for_client_fields [OF d] flag findByOrderId_def
      by (rule agree_bnd [OF agree_station], rule agree_bnd [OF agree_telemetry [OF d]],
        rule agree_bnd [OF agree_others(4)]) (simp add: agree_basic(1))
  qed
  show ?thesis unfolding findOneOrder_def
    by (rule agree_endpoint, rule agree_bnd [OF agree_findOneForUser], rule rest)
qed

section \<open>Properties\<close>


section \<open>A concrete instance\<close>

definition watched :: order where
  "watched = blank_order\<lparr>o_status := IN_TRANSIT, o_driverId := Some 7,
     o_stopEvents := [blank_stop 50 DETECTED 900]\<rparr>"

definition watched_world :: world where
  "watched_world = empty_world\<lparr>w_orders := [watched]\<rparr>"


end
