(* ===== verification/Pagination.thy ===== *)
theory Pagination
  imports Domain "HOL-Library.AList"
begin

text \<open>
  Keyset pagination: \<open>common/pagination/cursor.util.ts\<close> and \<open>common/pagination/paginate.util.ts\<close>.

  A document is read field by field through \<open>val\<close>; a cursor is the payload of the last item of a page, or text that is
  no payload.  The encoding as base64url of JSON belongs to the standard library.  Every request sees the collection
  as it stands at that moment.
\<close>

section \<open>Cursors\<close>

record cursor_sort_field =
  sf_field :: string
  sf_desc :: bool

datatype 'v cursor = Encoded "(string \<times> 'v) list" | Malformed string

definition encodeCursor :: "(string \<times> 'v) list \<Rightarrow> 'v cursor" where
  "encodeCursor payload = Encoded payload"

definition decodeCursor :: "'v cursor \<Rightarrow> exn + (string \<times> 'v) list" where
  "decodeCursor c = (case c of Encoded payload \<Rightarrow> Inr payload | Malformed _ \<Rightarrow> Inl (BadRequest None))"

text \<open>\<open>{ field: v }\<close>, \<open>{ field: { $lt: v } }\<close> and \<open>{ field: { $gt: v } }\<close>; a field the payload lacks satisfies none.\<close>

datatype 'v condition = Equals "'v option" | Below "'v option" | Above "'v option"

fun holds :: "'v::linorder condition \<Rightarrow> 'v \<Rightarrow> bool" where
  "holds (Equals b) v \<longleftrightarrow> b = Some v"
| "holds (Below b) v \<longleftrightarrow> (case b of None \<Rightarrow> False | Some x \<Rightarrow> v < x)"
| "holds (Above b) v \<longleftrightarrow> (case b of None \<Rightarrow> False | Some x \<Rightarrow> x < v)"

definition keyset_clause :: "cursor_sort_field list \<Rightarrow> (string \<times> 'v) list \<Rightarrow> nat \<Rightarrow> (string \<times> 'v condition) list" where
  "keyset_clause ks boundary i =
     (let clause = fold (\<lambda>j. AList.update (sf_field (ks ! j)) (Equals (map_of boundary (sf_field (ks ! j))))) [0..<i] [];
          key = ks ! i; b = map_of boundary (sf_field key)
      in AList.update (sf_field key) (if sf_desc key then Below b else Above b) clause)"

definition buildKeysetFilter :: "cursor_sort_field list \<Rightarrow> (string \<times> 'v) list \<Rightarrow> (string \<times> 'v condition) list list" where
  "buildKeysetFilter ks boundary = map (keyset_clause ks boundary) [0..<length ks]"

definition selected :: "(string \<times> 'v::linorder condition) list list \<Rightarrow> (string \<Rightarrow> 'v) \<Rightarrow> bool" where
  "selected filt v \<longleftrightarrow> list_ex (list_all (\<lambda>(f, c). holds c (v f))) filt"

definition buildSortSpec :: "cursor_sort_field list \<Rightarrow> (string \<times> int) list" where
  "buildSortSpec ks = map (\<lambda>k. (sf_field k, if sf_desc k then -1 else 1)) ks"

definition extractCursorPayload :: "(string \<Rightarrow> 'v) \<Rightarrow> cursor_sort_field list \<Rightarrow> (string \<times> 'v) list" where
  "extractCursorPayload v ks = map (\<lambda>k. (sf_field k, v (sf_field k))) ks"

section \<open>A page\<close>

text \<open>\<open>.sort(spec)\<close> of the database, as an insertion sort.\<close>

fun in_order :: "(string \<times> int) list \<Rightarrow> (string \<Rightarrow> 'v::linorder) \<Rightarrow> (string \<Rightarrow> 'v) \<Rightarrow> bool" where
  "in_order [] v w \<longleftrightarrow> True"
| "in_order ((f, dir) # spec) v w \<longleftrightarrow>
     (if v f = w f then in_order spec v w else if dir = 1 then v f < w f else w f < v f)"

primrec put_in :: "('d \<Rightarrow> 'd \<Rightarrow> bool) \<Rightarrow> 'd \<Rightarrow> 'd list \<Rightarrow> 'd list" where
  "put_in le x [] = [x]"
| "put_in le x (y # ys) = (if le x y then x # y # ys else y # put_in le x ys)"

definition sorted_by :: "('d \<Rightarrow> 'd \<Rightarrow> bool) \<Rightarrow> 'd list \<Rightarrow> 'd list" where
  "sorted_by le ds = foldr (put_in le) ds []"

record ('d, 'v) page =
  pg_items :: "'d list"
  pg_nextCursor :: "'v cursor option"

definition paginate ::
  "('d \<Rightarrow> string \<Rightarrow> 'v::linorder) \<Rightarrow> 'd list \<Rightarrow> ('d \<Rightarrow> bool) \<Rightarrow> cursor_sort_field list \<Rightarrow> 'v cursor option \<Rightarrow> nat \<Rightarrow>
     exn + ('d, 'v) page" where
  "paginate val ds P ks cursor pageSize =
     (case (case cursor of None \<Rightarrow> Inr (\<lambda>_. True)
            | Some c \<Rightarrow> map_sum id (\<lambda>boundary d. selected (buildKeysetFilter ks boundary) (val d)) (decodeCursor c)) of
        Inl e \<Rightarrow> Inl e
      | Inr after \<Rightarrow>
          (let docs = take (pageSize + 1)
                 (sorted_by (\<lambda>d e. in_order (buildSortSpec ks) (val d) (val e)) (filter (\<lambda>d. P d \<and> after d) ds));
               hasMore = pageSize < length docs;
               items = (if hasMore then take pageSize docs else docs)
           in Inr \<lparr>pg_items = items,
                pg_nextCursor = (if hasMore then Some (encodeCursor (extractCursorPayload (val (last items)) ks)) else None)\<rparr>))"

section \<open>The order of the pages\<close>

text \<open>The lexicographic order that the sort keys describe.\<close>

fun comes_after :: "cursor_sort_field list \<Rightarrow> (string \<Rightarrow> 'v::linorder) \<Rightarrow> (string \<Rightarrow> 'v) \<Rightarrow> bool" where
  "comes_after [] v w \<longleftrightarrow> False"
| "comes_after (k # ks) v w \<longleftrightarrow>
     (if v (sf_field k) = w (sf_field k) then comes_after ks v w
      else if sf_desc k then w (sf_field k) < v (sf_field k) else v (sf_field k) < w (sf_field k))"

lemma comes_after_trans: "comes_after ks u v \<Longrightarrow> comes_after ks v w \<Longrightarrow> comes_after ks u w"
  by (induction ks) (auto split: if_splits)

lemma comes_after_irrefl [simp]: "\<not> comes_after ks v v"
  by (induction ks) auto

lemma comes_after_total: "(\<exists>k \<in> set ks. v (sf_field k) \<noteq> w (sf_field k)) \<Longrightarrow> comes_after ks v w \<or> comes_after ks w v"
  by (induction ks) auto

lemma in_order_iff: "in_order (buildSortSpec ks) v w \<longleftrightarrow> \<not> comes_after ks w v"
  by (induction ks) (auto simp: buildSortSpec_def)

lemma comes_after_index:
  "comes_after ks v w \<longleftrightarrow> (\<exists>i < length ks. (\<forall>j < i. v (sf_field (ks ! j)) = w (sf_field (ks ! j))) \<and>
     (let f = sf_field (ks ! i) in if sf_desc (ks ! i) then w f < v f else v f < w f))"
proof (induction ks)
  case (Cons k ks)
  have "(\<exists>i < length (k # ks). (\<forall>j < i. v (sf_field ((k # ks) ! j)) = w (sf_field ((k # ks) ! j))) \<and>
     (let f = sf_field ((k # ks) ! i) in if sf_desc ((k # ks) ! i) then w f < v f else v f < w f)) \<longleftrightarrow>
     (let f = sf_field k in if sf_desc k then w f < v f else v f < w f) \<or>
     (v (sf_field k) = w (sf_field k) \<and> comes_after ks v w)"
    unfolding Cons.IH by (auto simp: Ex_less_Suc2 All_less_Suc2 Let_def)
  then show ?case by (auto simp: Let_def)
qed simp

lemma update_new: "k \<notin> fst ` set al \<Longrightarrow> AList.update k v al = al @ [(k, v)]"
  by (induction al) auto

lemma prefix_conditions:
  assumes "distinct (map sf_field ks)" "i \<le> length ks"
  shows "fold (\<lambda>j. AList.update (sf_field (ks ! j)) (g j)) [0..<i] [] = map (\<lambda>j. (sf_field (ks ! j), g j)) [0..<i]"
  using assms(2)
proof (induction i)
  case (Suc i)
  have "sf_field (ks ! i) \<notin> fst ` set (map (\<lambda>j. (sf_field (ks ! j), g j)) [0..<i])"
    using assms(1) Suc.prems by (auto simp: distinct_conv_nth)
  then show ?case using Suc by (simp add: update_new)
qed simp

lemma payload_field:
  "distinct (map sf_field ks) \<Longrightarrow> i < length ks \<Longrightarrow> map_of (extractCursorPayload v ks) (sf_field (ks ! i)) = Some (v (sf_field (ks ! i)))"
  unfolding extractCursorPayload_def by (rule map_of_is_SomeI) (auto simp: comp_def)

text \<open>The filter of a cursor is the order of the keys.\<close>

lemma selected_iff:
  assumes "distinct (map sf_field ks)"
  shows "selected (buildKeysetFilter ks (extractCursorPayload v ks)) w \<longleftrightarrow> comes_after ks v w"
proof -
  let ?b = "map_of (extractCursorPayload v ks)"
  have clause: "list_all (\<lambda>(f, c). holds c (w f)) (keyset_clause ks (extractCursorPayload v ks) i) \<longleftrightarrow>
      (\<forall>j < i. v (sf_field (ks ! j)) = w (sf_field (ks ! j))) \<and>
      (let f = sf_field (ks ! i) in if sf_desc (ks ! i) then w f < v f else v f < w f)" if i: "i < length ks" for i
  proof -
    let ?pre = "map (\<lambda>j. (sf_field (ks ! j), Equals (?b (sf_field (ks ! j))))) [0..<i]"
    have "sf_field (ks ! i) \<notin> fst ` set ?pre" using assms i by (auto simp: distinct_conv_nth)
    then have "keyset_clause ks (extractCursorPayload v ks) i =
        ?pre @ [(sf_field (ks ! i), if sf_desc (ks ! i) then Below (?b (sf_field (ks ! i))) else Above (?b (sf_field (ks ! i))))]"
      using i by (simp add: keyset_clause_def Let_def prefix_conditions [OF assms] update_new)
    moreover have "?b (sf_field (ks ! j)) = Some (v (sf_field (ks ! j)))" if "j \<le> i" for j
      using payload_field [OF assms, of j] i that by simp
    ultimately show ?thesis by (simp add: Let_def list.pred_map comp_def) (auto simp: list_all_iff)
  qed
  then show ?thesis
    by (auto simp: selected_def buildKeysetFilter_def list_ex_iff comes_after_index)
qed

lemma put_in_set [simp]: "set (put_in le x xs) = insert x (set xs)"
  by (induction xs) auto

lemma put_in_length [simp]: "length (put_in le x xs) = Suc (length xs)"
  by (induction xs) auto

lemma sorted_by_set [simp]: "set (sorted_by le xs) = set xs" "length (sorted_by le xs) = length xs"
  by (induction xs) (auto simp: sorted_by_def)

text \<open>No two documents agree on every sort key.\<close>

definition separates :: "cursor_sort_field list \<Rightarrow> ('d \<Rightarrow> string \<Rightarrow> 'v) \<Rightarrow> 'd set \<Rightarrow> bool" where
  "separates ks val A \<longleftrightarrow> (\<forall>d \<in> A. \<forall>e \<in> A. d \<noteq> e \<longrightarrow> (\<exists>k \<in> set ks. val d (sf_field k) \<noteq> val e (sf_field k)))"

abbreviation after_doc :: "cursor_sort_field list \<Rightarrow> ('d \<Rightarrow> string \<Rightarrow> 'v::linorder) \<Rightarrow> 'd \<Rightarrow> 'd \<Rightarrow> bool" where
  "after_doc ks val d e \<equiv> comes_after ks (val d) (val e)"

lemma put_in_sorted:
  assumes "sorted_wrt (after_doc ks val) xs" "separates ks val (insert x (set xs))" "x \<notin> set xs"
  shows "sorted_wrt (after_doc ks val) (put_in (\<lambda>d e. in_order (buildSortSpec ks) (val d) (val e)) x xs)"
  using assms
proof (induction xs)
  case (Cons y ys)
  have "after_doc ks val x y \<or> after_doc ks val y x"
    using Cons.prems by (intro comes_after_total) (auto simp: separates_def)
  moreover have "separates ks val (insert x (set ys))" using Cons.prems(2) by (auto simp: separates_def)
  ultimately show ?case using Cons by (auto simp: in_order_iff dest: comes_after_trans)
qed simp

lemma sorted_by_sorted:
  assumes "distinct xs" "separates ks val (set xs)"
  shows "sorted_wrt (after_doc ks val) (sorted_by (\<lambda>d e. in_order (buildSortSpec ks) (val d) (val e)) xs)"
  using assms
proof (induction xs)
  case (Cons x xs)
  then have "sorted_wrt (after_doc ks val) (sorted_by (\<lambda>d e. in_order (buildSortSpec ks) (val d) (val e)) xs)"
    by (auto simp: separates_def)
  then have "sorted_wrt (after_doc ks val) (put_in (\<lambda>d e. in_order (buildSortSpec ks) (val d) (val e)) x
      (sorted_by (\<lambda>d e. in_order (buildSortSpec ks) (val d) (val e)) xs))"
    using Cons.prems by (intro put_in_sorted) auto
  then show ?case by (simp add: sorted_by_def)
qed (simp add: sorted_by_def)

section \<open>Following the cursors\<close>

text \<open>What a client does: one request per page, each against the collection of that moment, until there is no next
  cursor.  The flag says that the end was reached.\<close>

primrec walk ::
  "('d \<Rightarrow> string \<Rightarrow> 'v::linorder) \<Rightarrow> ('d \<Rightarrow> bool) \<Rightarrow> cursor_sort_field list \<Rightarrow> nat \<Rightarrow> 'd list list \<Rightarrow> 'v cursor option \<Rightarrow>
     'd list \<times> bool" where
  "walk val P ks n [] c = ([], False)"
| "walk val P ks n (ds # rest) c = (case paginate val ds P ks c n of
     Inl e \<Rightarrow> ([], False)
   | Inr pg \<Rightarrow> (case pg_nextCursor pg of
       None \<Rightarrow> (pg_items pg, True)
     | Some c' \<Rightarrow> (pg_items pg @ fst (walk val P ks n rest (Some c')), snd (walk val P ks n rest (Some c')))))"

definition cursor_after :: "('d \<Rightarrow> string \<Rightarrow> 'v) \<Rightarrow> cursor_sort_field list \<Rightarrow> 'd \<Rightarrow> 'v cursor" where
  "cursor_after val ks d = encodeCursor (extractCursorPayload (val d) ks)"

definition past :: "('d \<Rightarrow> string \<Rightarrow> 'v::linorder) \<Rightarrow> cursor_sort_field list \<Rightarrow> 'd option \<Rightarrow> 'd \<Rightarrow> bool" where
  "past val ks b d \<longleftrightarrow> (case b of None \<Rightarrow> True | Some x \<Rightarrow> after_doc ks val x d)"

text \<open>One page from a boundary: the first documents past it, and the boundary of the next.\<close>

lemma last_of_take: "0 < n \<Longrightarrow> n < length S \<Longrightarrow> last (take n S) = S ! (n - 1)"
  by (subst last_conv_nth) (auto simp: min_def)

lemma page_from:
  assumes keys: "distinct (map sf_field ks)" and n: "0 < n" and ds: "distinct ds" "separates ks val (set ds)"
  obtains S where "sorted_wrt (after_doc ks val) S" "set S = {d \<in> set ds. P d \<and> past val ks b d}"
    "paginate val ds P ks (map_option (cursor_after val ks) b) n = Inr \<lparr>pg_items = take n S,
       pg_nextCursor = (if n < length S then Some (cursor_after val ks (S ! (n - 1))) else None)\<rparr>"
proof -
  define S where "S = sorted_by (\<lambda>d e. in_order (buildSortSpec ks) (val d) (val e)) (filter (\<lambda>d. P d \<and> past val ks b d) ds)"
  have sorted: "sorted_wrt (after_doc ks val) S"
    unfolding S_def using ds by (intro sorted_by_sorted) (auto simp: separates_def)
  have set: "set S = {d \<in> set ds. P d \<and> past val ks b d}" by (auto simp: S_def)
  have "(case map_option (cursor_after val ks) b of None \<Rightarrow> Inr (\<lambda>_. True)
      | Some c \<Rightarrow> map_sum id (\<lambda>boundary d. selected (buildKeysetFilter ks boundary) (val d)) (decodeCursor c)) =
      Inr (past val ks b)"
    by (cases b) (auto simp: cursor_after_def encodeCursor_def decodeCursor_def selected_iff [OF keys] past_def [abs_def])
  then have "paginate val ds P ks (map_option (cursor_after val ks) b) n = Inr \<lparr>pg_items = take n S,
       pg_nextCursor = (if n < length S then Some (cursor_after val ks (S ! (n - 1))) else None)\<rparr>"
    using n last_of_take [of n S] by (simp add: paginate_def Let_def S_def [symmetric] cursor_after_def min_def)
  with sorted set show thesis by (rule that)
qed

lemma walk_from:
  assumes keys: "distinct (map sf_field ks)" and n: "0 < n"
    and snaps: "\<forall>ds \<in> set snaps. distinct ds" "separates ks val (\<Union> (set ` set snaps))"
    and run: "walk val P ks n snaps (map_option (cursor_after val ks) b) = (items, True)"
  shows "sorted_wrt (after_doc ks val) items \<and> (\<forall>d \<in> set items. P d \<and> past val ks b d \<and> (\<exists>ds \<in> set snaps. d \<in> set ds)) \<and>
    (\<forall>d. (\<forall>ds \<in> set snaps. d \<in> set ds) \<and> P d \<and> past val ks b d \<longrightarrow> d \<in> set items)"
  using snaps run
proof (induction snaps arbitrary: b items)
  case (Cons ds rest)
  have ds: "distinct ds" "separates ks val (set ds)" using Cons.prems by (auto simp: separates_def)
  obtain S where S: "sorted_wrt (after_doc ks val) S" "set S = {d \<in> set ds. P d \<and> past val ks b d}"
    and pg: "paginate val ds P ks (map_option (cursor_after val ks) b) n = Inr \<lparr>pg_items = take n S,
       pg_nextCursor = (if n < length S then Some (cursor_after val ks (S ! (n - 1))) else None)\<rparr>"
    by (rule page_from [OF keys n ds])
  show ?case
  proof (cases "n < length S")
    case False
    with Cons.prems(3) pg S show ?thesis by auto
  next
    case True
    define x where "x = S ! (n - 1)"
    have x: "x \<in> set S" using True n by (simp add: x_def)
    obtain more where more: "walk val P ks n rest (map_option (cursor_after val ks) (Some x)) = (more, True)"
      and items: "items = take n S @ more"
      using Cons.prems(3) pg True by (cases "walk val P ks n rest (Some (cursor_after val ks x))") (auto simp: x_def)
    have rest: "\<forall>ds \<in> set rest. distinct ds" "separates ks val (\<Union> (set ` set rest))"
      using Cons.prems by (auto simp: separates_def)
    note IH = Cons.IH [OF rest more]
    note IH1 = IH [THEN conjunct1] and IH2 = IH [THEN conjunct2, THEN conjunct1] and IH3 = IH [THEN conjunct2, THEN conjunct2]
    have front: "y = x \<or> after_doc ks val y x" if "y \<in> set (take n S)" for y
    proof -
      from that obtain i where i: "i < n" "y = S ! i" using True by (auto simp: in_set_conv_nth)
      then show ?thesis using sorted_wrt_nth_less [OF S(1), of i "n - 1"] True n by (cases "i = n - 1") (auto simp: x_def)
    qed
    have beyond: "after_doc ks val x y" if "y \<in> set (drop n S)" for y
    proof -
      from that obtain i where i: "i < length (drop n S)" "y = drop n S ! i" unfolding in_set_conv_nth by blast
      then have "n + i < length S" "y = S ! (n + i)" by simp_all
      then show ?thesis using sorted_wrt_nth_less [OF S(1), of "n - 1" "n + i"] n by (simp add: x_def)
    qed
    have later: "past val ks b d" if "after_doc ks val x d" for d
      using that x S(2) by (auto simp: past_def dest: comes_after_trans split: option.splits)
    have m: "sorted_wrt (after_doc ks val) more" "\<forall>z \<in> set more. after_doc ks val x z"
      using IH1 IH2 unfolding past_def option.case by blast+
    have cross: "after_doc ks val y z" if "y \<in> set (take n S)" "z \<in> set more" for y z
      using front [OF that(1)] m(2) that(2) comes_after_trans by blast
    have sorted: "sorted_wrt (after_doc ks val) items"
      unfolding items sorted_wrt_append using sorted_wrt_take [OF S(1)] m cross by blast
    have "d \<in> set items" if d: "\<forall>es \<in> set (ds # rest). d \<in> set es" "P d" "past val ks b d" for d
    proof -
      have "d \<in> set (take n S @ drop n S)" using d S(2) by simp
      then consider "d \<in> set (take n S)" | "d \<in> set (drop n S)" unfolding set_append by blast
      then show ?thesis
      proof cases
        case 2
        then have "past val ks (Some x) d" using beyond by (simp add: past_def)
        with IH3 d(1,2) have "d \<in> set more" by simp
        then show ?thesis by (simp add: items)
      qed (simp add: items)
    qed
    moreover have "P d \<and> past val ks b d \<and> (\<exists>es \<in> set (ds # rest). d \<in> set es)" if "d \<in> set items" for d
    proof -
      from that consider "d \<in> set S" | "d \<in> set more" unfolding items by (auto dest: in_set_takeD)
      then show ?thesis
      proof cases
        case 2
        with IH2 m(2) later show ?thesis by auto
      qed (use S(2) in simp)
    qed
    ultimately show ?thesis using sorted by blast
  qed
qed simp

lemma after_irrefl_distinct: "sorted_wrt (after_doc ks val) xs \<Longrightarrow> distinct xs"
  by (induction xs) auto

lemma walk_ends:
  assumes keys: "distinct (map sf_field ks)" and n: "0 < n" and ds: "distinct ds" "separates ks val (set ds)"
    and k: "card {d \<in> set ds. P d \<and> past val ks b d} < k"
  shows "snd (walk val P ks n (replicate k ds) (map_option (cursor_after val ks) b))"
  using k
proof (induction k arbitrary: b)
  case (Suc k)
  obtain S where S: "sorted_wrt (after_doc ks val) S" "set S = {d \<in> set ds. P d \<and> past val ks b d}"
    and pg: "paginate val ds P ks (map_option (cursor_after val ks) b) n = Inr \<lparr>pg_items = take n S,
       pg_nextCursor = (if n < length S then Some (cursor_after val ks (S ! (n - 1))) else None)\<rparr>"
    by (rule page_from [OF keys n ds])
  show ?case
  proof (cases "n < length S")
    case True
    define x where "x = S ! (n - 1)"
    have x: "x \<in> set ds" "P x" "past val ks b x" using True n S(2) nth_mem [of "n - 1" S] by (auto simp: x_def)
    have sub: "{d \<in> set ds. P d \<and> past val ks (Some x) d} \<subseteq> {d \<in> set ds. P d \<and> past val ks b d}"
      using x(3) by (auto simp: past_def dest: comes_after_trans split: option.splits)
    have "x \<notin> {d \<in> set ds. P d \<and> past val ks (Some x) d}" "x \<in> {d \<in> set ds. P d \<and> past val ks b d}"
      using x by (simp_all add: past_def)
    with sub have "{d \<in> set ds. P d \<and> past val ks (Some x) d} \<subset> {d \<in> set ds. P d \<and> past val ks b d}" by blast
    then have "card {d \<in> set ds. P d \<and> past val ks (Some x) d} < card {d \<in> set ds. P d \<and> past val ks b d}"
      by (intro psubset_card_mono) auto
    with Suc.prems have "card {d \<in> set ds. P d \<and> past val ks (Some x) d} < k" by simp
    from Suc.IH [OF this] show ?thesis using pg True by (simp add: x_def)
  qed (use pg in simp)
qed simp

section \<open>Properties\<close>

text \<open>C19: following the cursors to the end skips nothing and repeats nothing.  When the sort keys tell documents
  apart, and even if documents come and go between two requests, the pages of a finished walk are in the order of the
  keys, without duplicates, hold only documents the filter selects, and hold every such document that was there
  throughout.\<close>

theorem pages_neither_skip_nor_repeat:
  assumes "distinct (map sf_field ks)" and "0 < n"
    and "\<forall>ds \<in> set snaps. distinct ds" and "separates ks val (\<Union> (set ` set snaps))"
    and "walk val P ks n snaps None = (items, True)"
  shows "sorted_wrt (\<lambda>d e. comes_after ks (val d) (val e)) items \<and> distinct items \<and>
     (\<forall>d \<in> set items. P d \<and> (\<exists>ds \<in> set snaps. d \<in> set ds)) \<and>
     (\<forall>d. (\<forall>ds \<in> set snaps. d \<in> set ds) \<and> P d \<longrightarrow> d \<in> set items)"
  using walk_from [OF assms(1-4), of P None items] assms(5)
  by (auto simp: past_def intro: after_irrefl_distinct)


section \<open>A concrete instance\<close>

definition newest_first :: "cursor_sort_field list" where
  "newest_first = [\<lparr>sf_field = ''createdAt'', sf_desc = True\<rparr>, \<lparr>sf_field = ''_id'', sf_desc = True\<rparr>]"

definition read_pair :: "int \<times> int \<Rightarrow> string \<Rightarrow> int" where
  "read_pair d f = (if f = ''createdAt'' then fst d else snd d)"

lemma newest_first_keys: "distinct (map sf_field newest_first)" "separates newest_first read_pair A"
  by (auto simp: newest_first_def separates_def read_pair_def prod_eq_iff)

theorem pages_neither_skip_nor_repeat_witness:
  "\<exists>items. walk read_pair (\<lambda>_. True) newest_first 2 [[(1, 1), (2, 2), (2, 3)], [(9, 9), (1, 1), (2, 2), (2, 3)]] None = (items, True) \<and>
     distinct items \<and> set items = {(2, 3), (2, 2), (1, 1)}"
proof -
  have run: "walk read_pair (\<lambda>_. True) newest_first 2 [[(1, 1), (2, 2), (2, 3)], [(9, 9), (1, 1), (2, 2), (2, 3)]] None =
      ([(2, 3), (2, 2), (1, 1)], True)"
    by code_simp
  then show ?thesis
    using pages_neither_skip_nor_repeat [OF newest_first_keys(1) _ _ newest_first_keys(2) run] by auto
qed


end
