(* ===== verification/Redis.thy ===== *)
theory Redis
  imports World
begin

text \<open>
  The Redis commands the services issue, over the entries of \<open>w_redis\<close>: an entry is gone once its
  time-to-live has run out, \<open>TTL\<close> reports the remaining time rounded to whole seconds, \<open>INCR\<close> starts
  a missing counter at one and keeps the time-to-live of a present one.  While \<open>w_redis_up\<close> is false every
  command throws, which is how an unreachable store reaches the caller.
\<close>

definition live_entry :: "redis_key \<Rightarrow> world \<Rightarrow> (redis_value \<times> instant option) option" where
  "live_entry k s = (case w_redis s k of
     None \<Rightarrow> None
   | Some (v, until) \<Rightarrow> (case until of
        None \<Rightarrow> Some (v, None)
      | Some t \<Rightarrow> if w_now s < t then Some (v, Some t) else None))"

definition redis_command :: "'a service \<Rightarrow> 'a service" where
  "redis_command m = bnd (asks w_redis_up) (\<lambda>up. bnd (guard up InternalError) (\<lambda>_. m))"

definition put_entry :: "redis_key \<Rightarrow> (redis_value \<times> instant option) option \<Rightarrow> world \<Rightarrow> world" where
  "put_entry k e s = s\<lparr>w_redis := (w_redis s)(k := e)\<rparr>"

definition redis_get :: "redis_key \<Rightarrow> redis_value option service" where
  "redis_get k = redis_command (asks (\<lambda>s. map_option fst (live_entry k s)))"

definition redis_set :: "redis_key \<Rightarrow> redis_value \<Rightarrow> int \<Rightarrow> unit service" where
  "redis_set k v ttlSeconds =
     redis_command (modify (\<lambda>s. put_entry k (Some (v, Some (w_now s + ttlSeconds * 1000))) s))"

definition redis_set_nx :: "redis_key \<Rightarrow> redis_value \<Rightarrow> int \<Rightarrow> bool service" where
  "redis_set_nx k v ttlMs = redis_command (
     bnd (asks (live_entry k)) (\<lambda>present.
     if present \<noteq> None then ret False
     else bnd (modify (\<lambda>s. put_entry k (Some (v, Some (w_now s + ttlMs))) s)) (\<lambda>_. ret True)))"

definition redis_del :: "redis_key list \<Rightarrow> unit service" where
  "redis_del ks = redis_command
     (modify (\<lambda>s. s\<lparr>w_redis := (\<lambda>k. if k \<in> set ks then None else w_redis s k)\<rparr>))"

text \<open>The counters are never written as text; \<open>INCR\<close> of a text value is an error.\<close>

definition redis_incr :: "redis_key \<Rightarrow> nat service" where
  "redis_incr k = redis_command (
     bnd (asks (live_entry k)) (\<lambda>present.
     case present of
       None \<Rightarrow> bnd (modify (put_entry k (Some (Counter 1, None)))) (\<lambda>_. ret 1)
     | Some (Counter n, until) \<Rightarrow> bnd (modify (put_entry k (Some (Counter (Suc n), until)))) (\<lambda>_. ret (Suc n))
     | Some (Text _, until) \<Rightarrow> throw InternalError))"

definition redis_expire :: "redis_key \<Rightarrow> int \<Rightarrow> unit service" where
  "redis_expire k ttlSeconds = redis_command (
     bnd (asks (live_entry k)) (\<lambda>present.
     case present of
       None \<Rightarrow> ret ()
     | Some (v, _) \<Rightarrow> modify (\<lambda>s. put_entry k (Some (v, Some (w_now s + ttlSeconds * 1000))) s)))"

definition redis_ttl :: "redis_key \<Rightarrow> int service" where
  "redis_ttl k = redis_command (
     bnd (asks (live_entry k)) (\<lambda>present.
     bnd (asks w_now) (\<lambda>now.
     ret (case present of
       None \<Rightarrow> - 2
     | Some (_, None) \<Rightarrow> - 1
     | Some (_, Some t) \<Rightarrow> (t - now + 500) div 1000))))"

lemmas redis_defs = redis_get_def redis_set_def redis_set_nx_def redis_del_def redis_incr_def
  redis_expire_def redis_ttl_def redis_command_def

lemma live_put_entry [simp]:
  "live_entry k (put_entry j e s) = (if k = j then live_entry k (s\<lparr>w_redis := (\<lambda>_. e)\<rparr>) else live_entry k s)"
  by (auto simp: live_entry_def put_entry_def split: option.splits)

lemma live_const [simp]:
  "live_entry k (s\<lparr>w_redis := (\<lambda>_. None)\<rparr>) = None"
  "live_entry k (s\<lparr>w_redis := (\<lambda>_. Some (v, None))\<rparr>) = Some (v, None)"
  "live_entry k (s\<lparr>w_redis := (\<lambda>_. Some (v, Some t))\<rparr>) = (if w_now s < t then Some (v, Some t) else None)"
  by (simp_all add: live_entry_def)

lemma put_entry_frame [simp]:
  "w_now (put_entry k e s) = w_now s" "w_redis_up (put_entry k e s) = w_redis_up s"
  "w_scope (put_entry k e s) = w_scope s" "w_users (put_entry k e s) = w_users s"
  "w_config (put_entry k e s) = w_config s"
  by (simp_all add: put_entry_def)

text \<open>What looks at no Redis entry is kept by every command.\<close>

lemma keeps_redis:
  assumes "\<And>s g. P s \<Longrightarrow> P (s\<lparr>w_redis := g\<rparr>)"
  shows "keeps P (redis_get k)" "keeps P (redis_set k v n)" "keeps P (redis_set_nx k v n)" "keeps P (redis_del ks)"
    "keeps P (redis_incr k)" "keeps P (redis_expire k n)" "keeps P (redis_ttl k)"
proof -
  have put: "P s \<Longrightarrow> P (put_entry k e s)" for s k e using assms by (simp add: put_entry_def)
  have val: "keeps P (case v of Counter n \<Rightarrow> f n | Text t \<Rightarrow> g t)"
    if "\<And>n. keeps P (f n)" "\<And>t. keeps P (g t)" for v and f :: "nat \<Rightarrow> 'x service" and g
    using that by (cases v) simp_all
  have entry: "keeps P (case e of None \<Rightarrow> m | Some (a, b) \<Rightarrow> f a b)"
    if "keeps P m" "\<And>a b. keeps P (f a b)" for e :: "(redis_value \<times> instant option) option" and m :: "'y service" and f
    using that by (cases e) auto
  show "keeps P (redis_get k)" "keeps P (redis_set k v n)" "keeps P (redis_set_nx k v n)" "keeps P (redis_del ks)"
    "keeps P (redis_expire k n)" "keeps P (redis_ttl k)"
    unfolding redis_defs
    by (intro keeps_bnd keeps_basic keeps_modify keeps_if keeps_option entry put assms; assumption?)+
  show "keeps P (redis_incr k)"
    unfolding redis_defs
    by (intro keeps_bnd keeps_basic keeps_modify entry val put; (assumption | simp)?)+
qed

end
