(* ===== verification/Accounts.thy ===== *)
theory Accounts
  imports Access Redis Pricing
begin

text \<open>
  User accounts and their sessions: \<open>modules/users/users.service.ts\<close>,
  \<open>modules/sessions/session-audit.service.ts\<close> and
  \<open>modules/users/services/credit-limit-requests.service.ts\<close>.

  An account carries a session generation, the epoch every token of the account is minted with, and, for the
  administrator roles, a bounded list of open sessions.  Both are checked on every request.  The password hash
  of the bcrypt library is the parameter \<open>bcrypt\<close>.
\<close>

section \<open>Session audit\<close>

record session_subject =
  ss_userId :: oid
  ss_companyId :: "oid option"
  ss_role :: user_role
  ss_generation :: nat
  ss_sid :: "string option"

abbreviation session_scoping :: "session_event scoping" where
  "session_scoping \<equiv> tenant_scoped se_companyId"

definition write_event ::
  "session_subject \<Rightarrow> session_event_type \<Rightarrow> session_revocation_cause option \<Rightarrow> unit service" where
  "write_event subject type cause =
     bnd (asks w_scope) (\<lambda>ctx.
     bnd (of_sum (resolveCompanyId ctx)) (\<lambda>acting.
     bnd (asks w_now) (\<lambda>now.
     insert_doc w_session_events_update
       \<lparr>se_userId = ss_userId subject,
        se_companyId = (case acting of None \<Rightarrow> ss_companyId subject | Some c \<Rightarrow> Some c),
        se_role = ss_role subject, se_type = type, se_cause = cause, se_generation = ss_generation subject,
        se_sid = (if ss_sid subject = Some '''' then None else ss_sid subject), se_at = now\<rparr>)))"

definition signedIn :: "session_subject \<Rightarrow> unit service" where
  "signedIn subject = write_event subject SIGNED_IN None"

definition signedOut :: "session_subject \<Rightarrow> unit service" where
  "signedOut subject = write_event subject SIGNED_OUT None"

definition revoked :: "session_subject \<Rightarrow> session_revocation_cause \<Rightarrow> unit service" where
  "revoked subject cause = write_event subject REVOKED (Some cause)"

definition recoveryRequested :: "session_subject \<Rightarrow> unit service" where
  "recoveryRequested subject = write_event subject RECOVERY_REQUESTED None"

definition recoveryVerifyFailed :: "session_subject \<Rightarrow> unit service" where
  "recoveryVerifyFailed subject = write_event subject RECOVERY_VERIFY_FAILED None"

definition loginCodeRequested :: "session_subject \<Rightarrow> unit service" where
  "loginCodeRequested subject = write_event subject LOGIN_CODE_REQUESTED None"

definition loginCodeVerifyFailed :: "session_subject \<Rightarrow> unit service" where
  "loginCodeVerifyFailed subject = write_event subject LOGIN_CODE_VERIFY_FAILED None"

definition lastSignInAt :: "oid \<Rightarrow> instant option service" where
  "lastSignInAt userId =
     bnd (find_newest w_session_events session_scoping (\<lambda>e. se_userId e = userId \<and> se_type e = SIGNED_IN)) (\<lambda>latest.
     ret (map_option se_at latest))"

section \<open>Looking accounts up\<close>

definition SESSION_CAPPED_ROLES :: "user_role list" where
  "SESSION_CAPPED_ROLES = [SUPER_ADMIN, FUEL_COMPANY_ADMIN, TRANSPORT_COMPANY_ADMIN]"

definition isSessionCappedRole :: "user_role \<Rightarrow> bool" where
  "isSessionCappedRole role \<longleftrightarrow> role \<in> set SESSION_CAPPED_ROLES"

text \<open>The schema lower-cases and trims \<open>email\<close>, in a document and in a filter.\<close>

definition normal_email :: "string \<Rightarrow> string" where
  "normal_email email = trim (toLowerCase email)"

definition findByEmailForAuth :: "string \<Rightarrow> user option service" where
  "findByEmailForAuth email = find_first w_users user_scoping (\<lambda>u. u_email u = normal_email email)"

definition findByPhoneForAuth :: "string \<Rightarrow> user option service" where
  "findByPhoneForAuth phone =
     find_first w_users user_scoping (\<lambda>u. u_phone u = trim phone \<and> u_role u \<in> {CLIENT, DRIVER})"

definition findSingleActiveAdminByPhone :: "string \<Rightarrow> user option service" where
  "findSingleActiveAdminByPhone phone =
     bnd (find_all w_users user_scoping
            (\<lambda>u. u_phone u = trim phone \<and> isSessionCappedRole (u_role u) \<and> u_isActive u)) (\<lambda>found.
     let matches = take 2 found in ret (if length matches = 1 then Some (matches ! 0) else None))"

definition findAnyByPhone :: "string \<Rightarrow> user option service" where
  "findAnyByPhone phone = find_first w_users user_scoping (\<lambda>u. u_phone u = trim phone)"

record company_scoping_info =
  csi_isActive :: bool
  csi_type :: company_type
  csi_parentFuelCompanyId :: "oid option"

definition getScopingInfo :: "oid \<Rightarrow> company_scoping_info option service" where
  "getScopingInfo i = asks (\<lambda>s. map_option (\<lambda>c. \<lparr>csi_isActive = (c_status c = ACTIVE), csi_type = c_type c,
     csi_parentFuelCompanyId = c_parentFuelCompanyId c\<rparr>) (get_by c_id i (w_companies s)))"

section \<open>Is the account usable, is the session live\<close>

datatype unusable_reason = ACCOUNT_INACTIVE | COMPANY_IS_SUSPENDED

record active_check =
  ac_user :: "user option"
  ac_usable :: bool
  ac_parentFuelCompanyId :: "oid option"
  ac_unusableReason :: "unusable_reason option"

definition loadActiveUser :: "oid \<Rightarrow> active_check service" where
  "loadActiveUser userId =
     bnd (find_one w_users u_id user_scoping userId) (\<lambda>found.
     case found of
       None \<Rightarrow> ret \<lparr>ac_user = None, ac_usable = False, ac_parentFuelCompanyId = None,
                   ac_unusableReason = Some ACCOUNT_INACTIVE\<rparr>
     | Some user \<Rightarrow>
         if \<not> u_isActive user
         then ret \<lparr>ac_user = Some user, ac_usable = False, ac_parentFuelCompanyId = None,
                   ac_unusableReason = Some ACCOUNT_INACTIVE\<rparr>
         else (case (if u_role user = SUPER_ADMIN then None else u_companyId user) of
            None \<Rightarrow> ret \<lparr>ac_user = Some user, ac_usable = True, ac_parentFuelCompanyId = None, ac_unusableReason = None\<rparr>
          | Some companyId \<Rightarrow>
              bnd (getScopingInfo companyId) (\<lambda>scoping.
              ret (case scoping of
                 None \<Rightarrow> \<lparr>ac_user = Some user, ac_usable = False, ac_parentFuelCompanyId = None,
                          ac_unusableReason = Some COMPANY_IS_SUSPENDED\<rparr>
               | Some info \<Rightarrow>
                   if \<not> csi_isActive info
                   then \<lparr>ac_user = Some user, ac_usable = False, ac_parentFuelCompanyId = None,
                         ac_unusableReason = Some COMPANY_IS_SUSPENDED\<rparr>
                   else \<lparr>ac_user = Some user, ac_usable = True,
                         ac_parentFuelCompanyId = csi_parentFuelCompanyId info, ac_unusableReason = None\<rparr>))))"

definition validateActiveSession :: "oid \<Rightarrow> user service" where
  "validateActiveSession userId =
     bnd (loadActiveUser userId) (\<lambda>check.
     bnd (guard (ac_usable check) Unauthorized) (\<lambda>_.
     demand Unauthorized (ac_user check)))"

definition payload_generation :: "jwt_payload \<Rightarrow> nat" where
  "payload_generation payload = (case jp_sgen payload of None \<Rightarrow> 0 | Some g \<Rightarrow> g)"

definition session_open :: "user \<Rightarrow> string option \<Rightarrow> bool" where
  "session_open user sid \<longleftrightarrow> (case sid of
     None \<Rightarrow> False | Some k \<Rightarrow> k \<noteq> '''' \<and> k \<in> as_sid ` set (u_activeSessions user))"

definition validateActiveSessionWithScoping :: "jwt_payload \<Rightarrow> (user \<times> oid option) service" where
  "validateActiveSessionWithScoping payload =
     bnd (loadActiveUser (jp_sub payload)) (\<lambda>check.
     case ac_user check of
       None \<Rightarrow> throw (SessionRevoked None)
     | Some user \<Rightarrow>
         let cause = (if ac_unusableReason check = Some COMPANY_IS_SUSPENDED then Some COMPANY_SUSPENDED
                      else u_lastRevocationCause user)
         in bnd (guard (ac_usable check \<and> payload_generation payload = u_sessionGeneration user) (SessionRevoked cause)) (\<lambda>_.
            bnd (guard (isSessionCappedRole (u_role user) \<longrightarrow> session_open user (jp_sid payload))
                   (SessionRevoked (Some SESSION_LIMIT_EXCEEDED))) (\<lambda>_.
            ret (user, ac_parentFuelCompanyId check))))"

definition jwt_validate :: "jwt_payload \<Rightarrow> authenticated_user service" where
  "jwt_validate payload =
     bnd (validateActiveSessionWithScoping payload) (\<lambda>(user, parentFuelCompanyId).
     ret \<lparr>au_userId = u_id user, au_role = u_role user, au_companyId = u_companyId user,
          au_parentFuelCompanyId = parentFuelCompanyId, au_sgen = None, au_sid = jp_sid payload\<rparr>)"

section \<open>Writing accounts\<close>

definition update_user :: "oid \<Rightarrow> (user \<Rightarrow> user) \<Rightarrow> user option service" where
  "update_user userId f = find_and_update w_users w_users_update u_id user_scoping userId (\<lambda>_. True) f"

definition set_password :: "string \<Rightarrow> user \<Rightarrow> user" where
  "set_password passwordHash u = u\<lparr>u_passwordHash := passwordHash, u_lastRevocationCause := Some PASSWORD_RESET,
     u_activeSessions := [], u_sessionGeneration := Suc (u_sessionGeneration u)\<rparr>"

definition revokeAndSetPassword :: "oid \<Rightarrow> string \<Rightarrow> user service" where
  "revokeAndSetPassword userId passwordHash = bnd (update_user userId (set_password passwordHash)) (demand NotFound)"

definition end_sessions :: "session_revocation_cause option \<Rightarrow> user \<Rightarrow> user" where
  "end_sessions cause u = u\<lparr>u_sessionGeneration := Suc (u_sessionGeneration u), u_activeSessions := [],
     u_lastRevocationCause := cause\<rparr>"

definition revokeAllSessions :: "oid \<Rightarrow> session_revocation_cause option \<Rightarrow> user service" where
  "revokeAllSessions userId cause = bnd (update_user userId (end_sessions cause)) (demand NotFound)"

definition merge_session :: "string \<Rightarrow> instant \<Rightarrow> active_session list \<Rightarrow> active_session list" where
  "merge_session sid now sessions = sort_key as_createdAt (sessions @ [\<lparr>as_sid = sid, as_createdAt = now\<rparr>])"

definition newest :: "nat \<Rightarrow> 'a list \<Rightarrow> 'a list" where
  "newest cap merged = drop (length merged - cap) merged"

definition openSession :: "oid \<Rightarrow> string \<Rightarrow> nat \<Rightarrow> string list service" where
  "openSession userId sid cap =
     bnd (find_one w_users u_id user_scoping userId) (\<lambda>found.
     bnd (demand NotFound found) (\<lambda>user.
     bnd (asks w_now) (\<lambda>now.
     let merged = merge_session sid now (u_activeSessions user);
         kept = newest cap merged;
         evictedSids = map as_sid (filter (\<lambda>x. as_sid x \<notin> as_sid ` set kept) merged)
     in bnd (update_user userId (\<lambda>u. u\<lparr>u_activeSessions := kept\<rparr>)) (\<lambda>_. ret evictedSids))))"

definition pull_session :: "string \<Rightarrow> user \<Rightarrow> user" where
  "pull_session sid u = u\<lparr>u_activeSessions := filter (\<lambda>x. as_sid x \<noteq> sid) (u_activeSessions u)\<rparr>"

definition closeSession :: "oid \<Rightarrow> string \<Rightarrow> user service" where
  "closeSession userId sid = bnd (update_user userId (pull_session sid)) (demand NotFound)"

definition releaseActiveOrderOnDeactivation :: "oid \<Rightarrow> unit service" where
  "releaseActiveOrderOnDeactivation userId =
     bnd (find_and_update w_users w_users_update u_id user_scoping userId (\<lambda>u. u_activeOrderId u \<noteq> None)
            (\<lambda>u. u\<lparr>u_isAvailable := True, u_activeOrderId := None\<rparr>)) (\<lambda>_. ret ())"

record new_user =
  nu_companyId :: "oid option"
  nu_role :: user_role
  nu_email :: string
  nu_password :: string
  nu_fullName :: string
  nu_phone :: string
  nu_station :: "user_station option"

definition user_document :: "(string \<Rightarrow> string) \<Rightarrow> oid \<Rightarrow> oid option \<Rightarrow> new_user \<Rightarrow> user" where
  "user_document bcrypt i companyId data = \<lparr>u_id = i, u_companyId = companyId, u_role = nu_role data,
     u_email = normal_email (nu_email data), u_passwordHash = bcrypt (nu_password data), u_fullName = trim (nu_fullName data),
     u_phone = nu_phone data, u_profilePictureFileId = None, u_isActive = True, u_sessionGeneration = 0,
     u_activeSessions = [], u_lastRevocationCause = None, u_station = nu_station data, u_creditLimit = None,
     u_isAvailable = True, u_isOnline = False, u_lastSeenAt = None, u_activeOrderId = None, u_location = None,
     u_locationUpdatedAt = None, u_lastMovedAt = None, u_lastMovedLocation = None, u_ratingAverage = None,
     u_ratingCount = 0\<rparr>"

text \<open>The unique indexes on \<open>email\<close> and \<open>phone\<close>; a collision reaches the caller as a conflict.\<close>

definition collides :: "user \<Rightarrow> user \<Rightarrow> bool" where
  "collides u v \<longleftrightarrow> u_id u \<noteq> u_id v \<and> (u_email u = u_email v \<or> u_phone u = u_phone v)"

definition create_user :: "(string \<Rightarrow> string) \<Rightarrow> new_user \<Rightarrow> user service" where
  "create_user bcrypt data =
     bnd (asks w_scope) (\<lambda>ctx.
     bnd (of_sum (resolveCompanyId ctx)) (\<lambda>acting.
     bnd fresh_id (\<lambda>i.
     let u = user_document bcrypt i (case acting of None \<Rightarrow> nu_companyId data | Some c \<Rightarrow> Some c) data
     in bnd (asks w_users) (\<lambda>us.
        bnd (guard (\<not> list_ex (collides u) us) (Conflict None)) (\<lambda>_.
        bnd (insert_doc w_users_update u) (\<lambda>_. ret u))))))"

definition countByRole :: "oid \<Rightarrow> user_role \<Rightarrow> nat service" where
  "countByRole companyId role =
     bnd (tenant_key companyId) (\<lambda>c. count_docs w_users user_scoping (\<lambda>u. u_companyId u = Some c \<and> u_role u = role))"

record user_filter =
  uf_role :: "user_role option"
  uf_isActive :: "bool option"
  uf_companyId :: "oid option"

definition user_matches :: "user_filter \<Rightarrow> user \<Rightarrow> bool" where
  "user_matches f u \<longleftrightarrow> (case uf_role f of None \<Rightarrow> True | Some r \<Rightarrow> u_role u = r) \<and>
     (case uf_isActive f of None \<Rightarrow> True | Some b \<Rightarrow> u_isActive u = b) \<and>
     (case uf_companyId f of None \<Rightarrow> True | Some c \<Rightarrow> u_companyId u = Some c)"

definition findAllUsers :: "user_filter \<Rightarrow> user list service" where
  "findAllUsers f = (case uf_companyId f of
     None \<Rightarrow> find_all w_users user_scoping (user_matches f)
   | Some c \<Rightarrow> bnd (tenant_key c) (\<lambda>own. find_all w_users user_scoping (user_matches (f\<lparr>uf_companyId := Some own\<rparr>))))"

definition setActive :: "oid \<Rightarrow> bool \<Rightarrow> user service" where
  "setActive i isActive = bnd (update_user i (\<lambda>u. u\<lparr>u_isActive := isActive\<rparr>)) (demand NotFound)"

definition setCreditLimit :: "oid \<Rightarrow> rat \<Rightarrow> user service" where
  "setCreditLimit i creditLimit = bnd (update_user i (\<lambda>u. u\<lparr>u_creditLimit := Some creditLimit\<rparr>)) (demand NotFound)"

record user_patch =
  up_fullName :: "string option"
  up_phone :: "string option"
  up_companyId :: "oid option"
  up_profilePictureFileId :: "oid option"

definition no_patch :: user_patch where
  "no_patch = \<lparr>up_fullName = None, up_phone = None, up_companyId = None, up_profilePictureFileId = None\<rparr>"

definition apply_patch :: "user_patch \<Rightarrow> user \<Rightarrow> user" where
  "apply_patch data u = u\<lparr>
     u_fullName := (case up_fullName data of None \<Rightarrow> u_fullName u | Some n \<Rightarrow> trim n),
     u_phone := (case up_phone data of None \<Rightarrow> u_phone u | Some p \<Rightarrow> p),
     u_companyId := (case up_companyId data of None \<Rightarrow> u_companyId u | Some c \<Rightarrow> Some c),
     u_profilePictureFileId := (case up_profilePictureFileId data of None \<Rightarrow> u_profilePictureFileId u | Some f \<Rightarrow> Some f)\<rparr>"

definition updateUser :: "oid \<Rightarrow> user_patch \<Rightarrow> user service" where
  "updateUser i data =
     bnd (find_one w_users u_id user_scoping i) (\<lambda>found.
     bnd (demand NotFound found) (\<lambda>u.
     bnd (asks w_users) (\<lambda>us.
     bnd (guard (\<not> list_ex (collides (apply_patch data u)) us) (Conflict None)) (\<lambda>_.
     bnd (update_user i (apply_patch data)) (demand NotFound)))))"

section \<open>Credit limit requests\<close>

abbreviation limit_scoping :: "credit_limit_request scoping" where
  "limit_scoping \<equiv> tenant_scoped (\<lambda>d. Some (clr_companyId d))"

definition createLimitRequest :: "oid \<Rightarrow> oid \<Rightarrow> rat \<Rightarrow> credit_limit_request service" where
  "createLimitRequest clientId companyId requestedAmount =
     bnd (find_first w_limit_requests limit_scoping
            (\<lambda>d. clr_clientId d = clientId \<and> clr_state d = REQUEST_PENDING)) (\<lambda>existing.
     bnd (guard (existing = None) (Conflict (Some LIMIT_REQUEST_ALREADY_RESOLVED))) (\<lambda>_.
     bnd (tenant_key companyId) (\<lambda>owner.
     bnd fresh_id (\<lambda>i.
     bnd (guard (requestedAmount \<ge> 1 / 100) InvalidDocument) (\<lambda>_.
     let d = \<lparr>clr_id = i, clr_companyId = owner, clr_clientId = clientId, clr_requestedAmount = requestedAmount,
              clr_state = REQUEST_PENDING, clr_grantedAmount = None, clr_resolvedBy = None, clr_resolvedAt = None\<rparr>
     in bnd (insert_doc w_limit_requests_update d) (\<lambda>_. ret d))))))"

definition findLimitRequestsForCompany :: "limit_request_state option \<Rightarrow> credit_limit_request list service" where
  "findLimitRequestsForCompany state =
     bnd (find_all w_limit_requests limit_scoping
            (\<lambda>d. case state of None \<Rightarrow> True | Some k \<Rightarrow> clr_state d = k)) (\<lambda>ds. ret (rev ds))"

definition findLimitRequestsForClient :: "oid \<Rightarrow> credit_limit_request list service" where
  "findLimitRequestsForClient clientId =
     bnd (find_all w_limit_requests limit_scoping (\<lambda>d. clr_clientId d = clientId)) (\<lambda>ds. ret (rev ds))"

definition resolution :: "bool \<Rightarrow> rat option \<Rightarrow> oid \<Rightarrow> instant \<Rightarrow> credit_limit_request \<Rightarrow> rat \<Rightarrow> credit_limit_request" where
  "resolution accept grantedAmount resolvedBy now d requested =
     (if accept then d\<lparr>clr_state := REQUEST_ACCEPTED,
          clr_grantedAmount := Some (case grantedAmount of None \<Rightarrow> requested | Some g \<Rightarrow> g),
          clr_resolvedBy := Some resolvedBy, clr_resolvedAt := Some now\<rparr>
      else d\<lparr>clr_state := REQUEST_REJECTED, clr_resolvedBy := Some resolvedBy, clr_resolvedAt := Some now\<rparr>)"

definition resolveLimitRequest :: "oid \<Rightarrow> oid \<Rightarrow> bool \<Rightarrow> rat option \<Rightarrow> credit_limit_request service" where
  "resolveLimitRequest i resolvedBy accept grantedAmount =
     bnd (find_one w_limit_requests clr_id limit_scoping i) (\<lambda>found.
     bnd (demand NotFound found) (\<lambda>request.
     bnd (asks w_now) (\<lambda>now.
     transaction (
       bnd (find_and_update w_limit_requests w_limit_requests_update clr_id limit_scoping i
              (\<lambda>d. clr_state d = REQUEST_PENDING)
              (\<lambda>d. resolution accept grantedAmount resolvedBy now d (clr_requestedAmount request))) (\<lambda>result.
       bnd (demand (Conflict (Some LIMIT_REQUEST_ALREADY_RESOLVED)) result) (\<lambda>resolved.
       if accept
       then bnd (setCreditLimit (clr_clientId resolved) (the (clr_grantedAmount resolved))) (\<lambda>_. ret resolved)
       else ret resolved))))))"

end
