(* ===== verification/Regions.thy ===== *)
theory Regions
  imports Access
begin

text \<open>
  The reference table of regions and governorates: \<open>modules/regions/regions.constants.ts\<close>, with the codes
  of \<open>common/enums/region.enum.ts\<close> as the strings they denote.  The Arabic names are left out: a HOL string
  is ASCII.
\<close>

record region_info =
  ri_code :: region_code
  ri_nameEn :: string
  ri_governorates :: "governorate_code list"

record governorate_info =
  gi_code :: governorate_code
  gi_region :: region_code
  gi_nameEn :: string

definition REGIONS :: "region_info list" where
  "REGIONS = [
     \<lparr>ri_code = ''RIYADH'', ri_nameEn = ''Riyadh'',
      ri_governorates = [''RIYADH_CITY'', ''DIRIYAH'', ''KHARJ'', ''DAWADMI'', ''MAJMAAH'']\<rparr>,
     \<lparr>ri_code = ''MAKKAH'', ri_nameEn = ''Makkah'',
      ri_governorates = [''MAKKAH_CITY'', ''JEDDAH'', ''TAIF'', ''RABIGH'', ''QUNFUDHAH'']\<rparr>,
     \<lparr>ri_code = ''MADINAH'', ri_nameEn = ''Madinah'',
      ri_governorates = [''MADINAH_CITY'', ''YANBU'', ''ALULA'', ''BADR'']\<rparr>,
     \<lparr>ri_code = ''QASSIM'', ri_nameEn = ''Qassim'',
      ri_governorates = [''BURAYDAH'', ''UNAYZAH'', ''RASS'']\<rparr>,
     \<lparr>ri_code = ''EASTERN_PROVINCE'', ri_nameEn = ''Eastern Province'',
      ri_governorates = [''DAMMAM'', ''DHAHRAN'', ''KHOBAR'', ''AHSA'', ''JUBAIL'', ''QATIF'']\<rparr>,
     \<lparr>ri_code = ''ASIR'', ri_nameEn = ''Asir'',
      ri_governorates = [''ABHA'', ''KHAMIS_MUSHAIT'', ''BISHA'']\<rparr>,
     \<lparr>ri_code = ''TABUK'', ri_nameEn = ''Tabuk'',
      ri_governorates = [''TABUK_CITY'', ''DUBA'']\<rparr>,
     \<lparr>ri_code = ''HAIL'', ri_nameEn = ''Hail'',
      ri_governorates = [''HAIL_CITY'']\<rparr>,
     \<lparr>ri_code = ''NORTHERN_BORDERS'', ri_nameEn = ''Northern Borders'',
      ri_governorates = [''ARAR'', ''RAFHA'']\<rparr>,
     \<lparr>ri_code = ''JAZAN'', ri_nameEn = ''Jazan'',
      ri_governorates = [''JAZAN_CITY'', ''SABYA'']\<rparr>,
     \<lparr>ri_code = ''NAJRAN'', ri_nameEn = ''Najran'',
      ri_governorates = [''NAJRAN_CITY'', ''SHARURAH'']\<rparr>,
     \<lparr>ri_code = ''AL_BAHAH'', ri_nameEn = ''Al Bahah'',
      ri_governorates = [''AL_BAHAH_CITY'']\<rparr>,
     \<lparr>ri_code = ''AL_JOUF'', ri_nameEn = ''Al Jouf'',
      ri_governorates = [''SAKAKA'', ''QURAYYAT'']\<rparr>]"

definition GOVERNORATE_NAMES :: "(governorate_code \<times> string) list" where
  "GOVERNORATE_NAMES = [
     (''RIYADH_CITY'', ''Riyadh''),
     (''DIRIYAH'', ''Diriyah''),
     (''KHARJ'', ''Al-Kharj''),
     (''DAWADMI'', ''Al-Dawadmi''),
     (''MAJMAAH'', ''Al-Majma'ah''),
     (''MAKKAH_CITY'', ''Makkah''),
     (''JEDDAH'', ''Jeddah''),
     (''TAIF'', ''Taif''),
     (''RABIGH'', ''Rabigh''),
     (''QUNFUDHAH'', ''Al-Qunfudhah''),
     (''MADINAH_CITY'', ''Madinah''),
     (''YANBU'', ''Yanbu''),
     (''ALULA'', ''AlUla''),
     (''BADR'', ''Badr''),
     (''BURAYDAH'', ''Buraydah''),
     (''UNAYZAH'', ''Unaizah''),
     (''RASS'', ''Ar Rass''),
     (''DAMMAM'', ''Dammam''),
     (''DHAHRAN'', ''Dhahran''),
     (''KHOBAR'', ''Al Khobar''),
     (''AHSA'', ''Al-Ahsa''),
     (''JUBAIL'', ''Jubail''),
     (''QATIF'', ''Qatif''),
     (''ABHA'', ''Abha''),
     (''KHAMIS_MUSHAIT'', ''Khamis Mushait''),
     (''BISHA'', ''Bisha''),
     (''TABUK_CITY'', ''Tabuk''),
     (''DUBA'', ''Duba''),
     (''HAIL_CITY'', ''Hail''),
     (''ARAR'', ''Arar''),
     (''RAFHA'', ''Rafha''),
     (''JAZAN_CITY'', ''Jazan''),
     (''SABYA'', ''Sabya''),
     (''NAJRAN_CITY'', ''Najran''),
     (''SHARURAH'', ''Sharurah''),
     (''AL_BAHAH_CITY'', ''Al Bahah''),
     (''SAKAKA'', ''Sakaka''),
     (''QURAYYAT'', ''Qurayyat'')]"

definition GOVERNORATES :: "governorate_info list" where
  "GOVERNORATES = concat (map (\<lambda>region. map (\<lambda>code. \<lparr>gi_code = code, gi_region = ri_code region,
     gi_nameEn = the (map_of GOVERNORATE_NAMES code)\<rparr>) (ri_governorates region)) REGIONS)"

text \<open>\<open>new Map(entries)\<close>: the last entry of a key wins.\<close>

definition REGION_BY_CODE :: "region_code \<Rightarrow> region_info option" where
  "REGION_BY_CODE = map_of (rev (map (\<lambda>r. (ri_code r, r)) REGIONS))"

definition GOVERNORATE_BY_CODE :: "governorate_code \<Rightarrow> governorate_info option" where
  "GOVERNORATE_BY_CODE = map_of (rev (map (\<lambda>g. (gi_code g, g)) GOVERNORATES))"

definition isValidRegionCode :: "string \<Rightarrow> bool" where
  "isValidRegionCode code \<longleftrightarrow> REGION_BY_CODE code \<noteq> None"

definition isValidGovernorateCode :: "string \<Rightarrow> bool" where
  "isValidGovernorateCode code \<longleftrightarrow> GOVERNORATE_BY_CODE code \<noteq> None"

definition governorateBelongsToRegion :: "governorate_code \<Rightarrow> region_code \<Rightarrow> bool" where
  "governorateBelongsToRegion governorate region \<longleftrightarrow>
     map_option gi_region (GOVERNORATE_BY_CODE governorate) = Some region"

definition regions_list :: "region_info list service" where
  "regions_list = ret REGIONS"

definition regions_listGovernorates :: "governorate_info list service" where
  "regions_listGovernorates = ret GOVERNORATES"

text \<open>No governorate stands under two regions, so the flat lookup agrees with the nested table.\<close>

lemma governorates_distinct: "distinct (map gi_code GOVERNORATES)"
  by code_simp

lemma regions_distinct: "distinct (map ri_code REGIONS)"
  by code_simp

lemma every_governorate_named: "\<forall>g \<in> set GOVERNORATES. map_of GOVERNORATE_NAMES (gi_code g) = Some (gi_nameEn g)"
  by code_simp

lemma governorate_region_iff:
  "governorateBelongsToRegion g r \<longleftrightarrow> (\<exists>info \<in> set REGIONS. ri_code info = r \<and> g \<in> set (ri_governorates info))"
proof -
  have dist: "distinct (map fst (map (\<lambda>g. (gi_code g, g)) GOVERNORATES))"
    using governorates_distinct by (simp add: comp_def)
  then have look: "GOVERNORATE_BY_CODE g = Some i \<longleftrightarrow> i \<in> set GOVERNORATES \<and> gi_code i = g" for i
    by (auto simp: GOVERNORATE_BY_CODE_def map_of_eq_Some_iff rev_map [symmetric])
  have "governorateBelongsToRegion g r \<longleftrightarrow> (\<exists>i. GOVERNORATE_BY_CODE g = Some i \<and> gi_region i = r)"
    by (auto simp: governorateBelongsToRegion_def)
  also have "\<dots> \<longleftrightarrow> (\<exists>i \<in> set GOVERNORATES. gi_code i = g \<and> gi_region i = r)" using look by blast
  also have "\<dots> \<longleftrightarrow> (\<exists>info \<in> set REGIONS. ri_code info = r \<and> g \<in> set (ri_governorates info))"
    by (force simp: GOVERNORATES_def)
  finally show ?thesis .
qed

end
