(* ===== verification/Companies.thy ===== *)
theory Companies
  imports Accounts Regions
begin

text \<open>
  Companies: the rest of \<open>modules/companies/companies.service.ts\<close> (the lookups pricing and routing use are in
  \<open>Pricing\<close>) and \<open>companies.controller.ts\<close>.  No scoping plugin is attached to companies; access is decided by
  the controller.  The upload of a commercial register is a file id the storage has returned.
\<close>

section \<open>The service\<close>

definition findNameById :: "oid \<Rightarrow> string option service" where
  "findNameById i = asks (\<lambda>s. map_option c_name (get_by c_id i (w_companies s)))"

definition update_company :: "oid \<Rightarrow> (company \<Rightarrow> company) \<Rightarrow> company service" where
  "update_company i f =
     bnd (find_and_update w_companies w_companies_update c_id unscoped i (\<lambda>_. True) f) (demand NotFound)"

record pricing_input =
  pci_deliveryFee :: rat
  pci_serviceFeePercent :: rat
  pci_taxRatePercent :: rat
  pci_tankerCapacitiesLiters :: "rat list"

definition setPricingConfig :: "oid \<Rightarrow> pricing_input \<Rightarrow> company service" where
  "setPricingConfig i config =
     bnd (asks w_now) (\<lambda>now.
     update_company i (\<lambda>c. c\<lparr>c_pricingConfig := Some \<lparr>pc_deliveryFee = pci_deliveryFee config,
       pc_serviceFeePercent = pci_serviceFeePercent config, pc_taxRatePercent = pci_taxRatePercent config,
       pc_tankerCapacitiesLiters = pci_tankerCapacitiesLiters config, pc_updatedAt = now\<rparr>\<rparr>))"

record new_company =
  nc_name :: string
  nc_contactEmail :: string
  nc_contactPhone :: string

definition company_document :: "oid \<Rightarrow> company_type \<Rightarrow> oid option \<Rightarrow> new_company \<Rightarrow> company" where
  "company_document i type parent data = \<lparr>c_id = i, c_name = trim (nc_name data), c_type = type,
     c_parentFuelCompanyId = parent, c_servedRegions = [], c_coveredRegions = [], c_commercialRegisterFileId = None,
     c_commissionCeiling = None, c_status = ACTIVE, c_fuelPrices = [], c_pricingConfig = None, c_deliveryRates = [],
     c_contactEmail = nc_contactEmail data, c_contactPhone = nc_contactPhone data\<rparr>"

text \<open>Validation of the name, then the unique index on it; a collision reaches the caller as a conflict.\<close>

definition insert_company :: "company_type \<Rightarrow> oid option \<Rightarrow> new_company \<Rightarrow> company service" where
  "insert_company type parent data =
     bnd fresh_id (\<lambda>i.
     let c = company_document i type parent data
     in bnd (guard (2 \<le> length (c_name c) \<and> length (c_name c) \<le> 120) InvalidDocument) (\<lambda>_.
        bnd (asks w_companies) (\<lambda>cs.
        bnd (guard (\<not> list_ex (\<lambda>x. c_name x = c_name c) cs) (Conflict None)) (\<lambda>_.
        bnd (insert_doc w_companies_update c) (\<lambda>_. ret c)))))"

definition createFuelCompany :: "new_company \<Rightarrow> company service" where
  "createFuelCompany data = insert_company FUEL None data"

definition createTransportCompany :: "oid \<Rightarrow> new_company \<Rightarrow> company service" where
  "createTransportCompany fuelCompanyId data = insert_company TRANSPORT (Some fuelCompanyId) data"

definition countByType :: "company_type \<Rightarrow> nat service" where
  "countByType type = count_docs w_companies unscoped (\<lambda>c. c_type c = type)"

record company_filter =
  cf_id :: "oid option"
  cf_type :: "company_type option"
  cf_status :: "company_status option"

definition company_matches :: "company_filter \<Rightarrow> company \<Rightarrow> bool" where
  "company_matches f c \<longleftrightarrow> (case cf_id f of None \<Rightarrow> True | Some i \<Rightarrow> c_id c = i) \<and>
     (case cf_type f of None \<Rightarrow> True | Some t \<Rightarrow> c_type c = t) \<and>
     (case cf_status f of None \<Rightarrow> True | Some k \<Rightarrow> c_status c = k)"

definition findAllCompanies :: "company_filter \<Rightarrow> company list service" where
  "findAllCompanies f = find_all w_companies unscoped (company_matches f)"

definition setStatus :: "oid \<Rightarrow> company_status \<Rightarrow> company service" where
  "setStatus i status = update_company i (\<lambda>c. c\<lparr>c_status := status\<rparr>)"

definition setCommercialRegisterFile :: "oid \<Rightarrow> oid \<Rightarrow> company service" where
  "setCommercialRegisterFile i fileId = update_company i (\<lambda>c. c\<lparr>c_commercialRegisterFileId := Some fileId\<rparr>)"

text \<open>A price list replaces the stored one.  \<open>new Map\<close> keeps the last entry of a grade.\<close>

definition last_by :: "('d \<Rightarrow> 'k) \<Rightarrow> 'k \<Rightarrow> 'd list \<Rightarrow> 'd option" where
  "last_by key k ds = get_by key k (rev ds)"

definition price_change :: "instant \<Rightarrow> fuel_price list \<Rightarrow> fuel_type \<times> rat \<Rightarrow> fuel_price" where
  "price_change now before incoming = (case last_by fp_fuelType (fst incoming) before of
     None \<Rightarrow> \<lparr>fp_fuelType = fst incoming, fp_basePricePerLiter = snd incoming, fp_previousPricePerLiter = None,
              fp_priceChangedAt = None\<rparr>
   | Some prior \<Rightarrow>
       if fp_basePricePerLiter prior = snd incoming
       then \<lparr>fp_fuelType = fst incoming, fp_basePricePerLiter = snd incoming,
             fp_previousPricePerLiter = fp_previousPricePerLiter prior, fp_priceChangedAt = fp_priceChangedAt prior\<rparr>
       else \<lparr>fp_fuelType = fst incoming, fp_basePricePerLiter = snd incoming,
             fp_previousPricePerLiter = Some (fp_basePricePerLiter prior), fp_priceChangedAt = Some now\<rparr>)"

definition setFuelPrices :: "oid \<Rightarrow> (fuel_type \<times> rat) list \<Rightarrow> company service" where
  "setFuelPrices i fuelPrices =
     bnd (findCompany i) (\<lambda>existing.
     bnd (asks w_now) (\<lambda>now.
     let next_prices = map (price_change now (c_fuelPrices existing)) fuelPrices
     in update_company i (\<lambda>c. c\<lparr>c_fuelPrices := next_prices\<rparr>)))"

definition getDeliveryRates :: "oid \<Rightarrow> delivery_rate list service" where
  "getDeliveryRates companyId = asks (\<lambda>s. case get_by c_id companyId (w_companies s) of
     None \<Rightarrow> [] | Some c \<Rightarrow> c_deliveryRates c)"

record rate_input =
  ri_regionCode :: region_code
  ri_governorateCode :: "governorate_code option"
  ri_pricePerKm :: rat
  ri_minPrice :: rat

text \<open>The key of a rate is the text \<open>region:governorate\<close>, a star standing for the whole region.\<close>

definition area_key :: "region_code \<Rightarrow> governorate_code option \<Rightarrow> string" where
  "area_key region governorate = region @ '':'' @ (case governorate of None \<Rightarrow> ''*'' | Some g \<Rightarrow> g)"

definition rate_key :: "delivery_rate \<Rightarrow> string" where
  "rate_key r = area_key (dr_regionCode r) (dr_governorateCode r)"

definition rate_change :: "instant \<Rightarrow> delivery_rate list \<Rightarrow> rate_input \<Rightarrow> delivery_rate" where
  "rate_change now before incoming =
     \<lparr>dr_regionCode = ri_regionCode incoming, dr_governorateCode = ri_governorateCode incoming,
      dr_pricePerKm = ri_pricePerKm incoming, dr_minPrice = ri_minPrice incoming,
      dr_updatedAt = (case last_by rate_key (area_key (ri_regionCode incoming) (ri_governorateCode incoming)) before of
         None \<Rightarrow> now
       | Some prior \<Rightarrow> if dr_pricePerKm prior = ri_pricePerKm incoming \<and> dr_minPrice prior = ri_minPrice incoming
           then dr_updatedAt prior else now)\<rparr>"

definition setDeliveryRates :: "oid \<Rightarrow> rate_input list \<Rightarrow> company service" where
  "setDeliveryRates i rates =
     bnd (findCompany i) (\<lambda>existing.
     bnd (guard (c_type existing = TRANSPORT) (BadRequest None)) (\<lambda>_.
     bnd (asks w_now) (\<lambda>now.
     let next_rates = map (rate_change now (c_deliveryRates existing)) rates
     in update_company i (\<lambda>c. c\<lparr>c_deliveryRates := next_rates\<rparr>))))"

definition findTransporters :: "oid \<Rightarrow> company list service" where
  "findTransporters fuelCompanyId =
     find_all w_companies unscoped (\<lambda>c. c_type c = TRANSPORT \<and> c_parentFuelCompanyId c = Some fuelCompanyId)"

definition assignRegions :: "oid \<Rightarrow> oid \<Rightarrow> region_code list \<Rightarrow> company service" where
  "assignRegions fuelCompanyId transportCompanyId regionCodes =
     bnd (findCompany transportCompanyId) (\<lambda>transporter.
     bnd (guard (c_type transporter = TRANSPORT) NotFound) (\<lambda>_.
     bnd (guard (c_parentFuelCompanyId transporter = Some fuelCompanyId) NotFound) (\<lambda>_.
     update_company transportCompanyId (\<lambda>c. c\<lparr>c_servedRegions := regionCodes\<rparr>))))"

definition setCoveredRegions :: "oid \<Rightarrow> region_code list \<Rightarrow> company service" where
  "setCoveredRegions i regionCodes = update_company i (\<lambda>c. c\<lparr>c_coveredRegions := regionCodes\<rparr>)"

definition setCommissionCeiling :: "oid \<Rightarrow> rat \<Rightarrow> company service" where
  "setCommissionCeiling i commissionCeiling = update_company i (\<lambda>c. c\<lparr>c_commissionCeiling := Some commissionCeiling\<rparr>)"

section \<open>The endpoints\<close>

definition assertCompanyAccess :: "authenticated_user \<Rightarrow> oid \<Rightarrow> unit service" where
  "assertCompanyAccess user companyId =
     guard (au_role user = SUPER_ADMIN \<or> au_companyId user = Some companyId) NotFound"

definition may_read_company :: "authenticated_user \<Rightarrow> company \<Rightarrow> bool" where
  "may_read_company user c \<longleftrightarrow> au_role user = SUPER_ADMIN \<or> au_companyId user = Some (c_id c) \<or>
     (au_role user = FUEL_COMPANY_ADMIN \<and> c_type c = TRANSPORT \<and> c_parentFuelCompanyId c \<noteq> None \<and>
      c_parentFuelCompanyId c = au_companyId user)"

definition assertCompanyReadAccess :: "authenticated_user \<Rightarrow> company \<Rightarrow> unit service" where
  "assertCompanyReadAccess user c = guard (may_read_company user c) NotFound"

record onboarding_dto =
  onb_company :: new_company
  onb_adminEmail :: string
  onb_adminPassword :: string
  onb_adminFullName :: string
  onb_adminPhone :: string

definition admin_of :: "onboarding_dto \<Rightarrow> oid \<Rightarrow> user_role \<Rightarrow> new_user" where
  "admin_of dto companyId role = \<lparr>nu_companyId = Some companyId, nu_role = role, nu_email = onb_adminEmail dto,
     nu_password = onb_adminPassword dto, nu_fullName = onb_adminFullName dto, nu_phone = onb_adminPhone dto,
     nu_station = None\<rparr>"

definition companies_create ::
  "(string \<Rightarrow> string) \<Rightarrow> authenticated_user \<Rightarrow> oid option \<Rightarrow> onboarding_dto \<Rightarrow> (company \<times> oid \<times> string) service" where
  "companies_create bcrypt user commercialRegister dto = endpoint [SUPER_ADMIN] user (
     bnd (transaction (
       bnd (createFuelCompany (onb_company dto)) (\<lambda>company.
       bnd (create_user bcrypt (admin_of dto (c_id company) FUEL_COMPANY_ADMIN)) (\<lambda>admin.
       ret (company, admin))))) (\<lambda>(company, admin).
     bnd (case commercialRegister of None \<Rightarrow> ret ()
          | Some fileId \<Rightarrow> bnd (setCommercialRegisterFile (c_id company) fileId) (\<lambda>_. ret ())) (\<lambda>_.
     bnd (findCompany (c_id company)) (\<lambda>stored.
     ret (stored, u_id admin, u_email admin)))))"

definition company_type_names :: "(string \<times> company_type) list" where
  "company_type_names = [(''FUEL'', FUEL), (''TRANSPORT'', TRANSPORT)]"

definition company_status_names :: "(string \<times> company_status) list" where
  "company_status_names = [(''ACTIVE'', ACTIVE), (''SUSPENDED'', SUSPENDED)]"

definition companies_findAll :: "authenticated_user \<Rightarrow> string option \<Rightarrow> string option \<Rightarrow> company list service" where
  "companies_findAll user type status = endpoint [SUPER_ADMIN, FUEL_COMPANY_ADMIN] user (
     bnd (parseEnumQuery company_type_names type) (\<lambda>t.
     bnd (parseEnumQuery company_status_names status) (\<lambda>k.
     if au_role user = SUPER_ADMIN then findAllCompanies \<lparr>cf_id = None, cf_type = t, cf_status = k\<rparr>
     else bnd (demand Unauthorized (au_companyId user)) (\<lambda>own.
          findAllCompanies \<lparr>cf_id = Some own, cf_type = t, cf_status = k\<rparr>))))"

definition companies_findOne :: "authenticated_user \<Rightarrow> oid \<Rightarrow> company service" where
  "companies_findOne user i = endpoint [] user (
     bnd (findCompany i) (\<lambda>company. bnd (assertCompanyReadAccess user company) (\<lambda>_. ret company)))"

definition companies_setStatus :: "authenticated_user \<Rightarrow> oid \<Rightarrow> company_status \<Rightarrow> company service" where
  "companies_setStatus user i status = endpoint [SUPER_ADMIN] user (setStatus i status)"

definition companies_getFuelPrices :: "authenticated_user \<Rightarrow> oid \<Rightarrow> fuel_price list service" where
  "companies_getFuelPrices user i = endpoint [] user (
     bnd (assertCompanyAccess user i) (\<lambda>_. bnd (findCompany i) (\<lambda>company. ret (c_fuelPrices company))))"

definition companies_setFuelPrices :: "authenticated_user \<Rightarrow> oid \<Rightarrow> (fuel_type \<times> rat) list \<Rightarrow> company service" where
  "companies_setFuelPrices user i prices = endpoint [FUEL_COMPANY_ADMIN] user (
     bnd (assertCompanyAccess user i) (\<lambda>_. setFuelPrices i prices))"

definition companies_getPricingConfig :: "authenticated_user \<Rightarrow> oid \<Rightarrow> pricing_config service" where
  "companies_getPricingConfig user i = endpoint [] user (
     bnd (assertCompanyAccess user i) (\<lambda>_.
     bnd (getPricingConfig i) (demand (Conflict (Some PRICING_NOT_CONFIGURED)))))"

definition companies_setPricingConfig :: "authenticated_user \<Rightarrow> oid \<Rightarrow> pricing_input \<Rightarrow> pricing_config option service" where
  "companies_setPricingConfig user i dto = endpoint [FUEL_COMPANY_ADMIN] user (
     bnd (assertCompanyAccess user i) (\<lambda>_.
     bnd (setPricingConfig i dto) (\<lambda>company. ret (c_pricingConfig company))))"

definition companies_getDeliveryRates :: "authenticated_user \<Rightarrow> oid \<Rightarrow> delivery_rate list service" where
  "companies_getDeliveryRates user i = endpoint [] user (
     bnd (findCompany i) (\<lambda>company.
     bnd (assertCompanyReadAccess user company) (\<lambda>_. getDeliveryRates i)))"

definition rate_area_ok :: "rate_input \<Rightarrow> bool" where
  "rate_area_ok rate \<longleftrightarrow> (case ri_governorateCode rate of
     None \<Rightarrow> True | Some g \<Rightarrow> g = '''' \<or> governorateBelongsToRegion g (ri_regionCode rate))"

definition companies_setDeliveryRates :: "authenticated_user \<Rightarrow> oid \<Rightarrow> rate_input list \<Rightarrow> delivery_rate list service" where
  "companies_setDeliveryRates user i rates = endpoint [TRANSPORT_COMPANY_ADMIN] user (
     bnd (assertCompanyAccess user i) (\<lambda>_.
     bnd (guard (list_all rate_area_ok rates) (BadRequest None)) (\<lambda>_.
     bnd (guard (distinct (map (\<lambda>r. area_key (ri_regionCode r) (ri_governorateCode r)) rates)) (BadRequest None)) (\<lambda>_.
     bnd (setDeliveryRates i rates) (\<lambda>company. ret (c_deliveryRates company))))))"

definition companies_listTransporters :: "authenticated_user \<Rightarrow> oid \<Rightarrow> company list service" where
  "companies_listTransporters user i = endpoint [FUEL_COMPANY_ADMIN] user (
     bnd (assertCompanyAccess user i) (\<lambda>_. findTransporters i))"

definition companies_onboardTransporter ::
  "(string \<Rightarrow> string) \<Rightarrow> authenticated_user \<Rightarrow> oid \<Rightarrow> onboarding_dto \<Rightarrow> (company \<times> oid \<times> string) service" where
  "companies_onboardTransporter bcrypt user parentFuelCompanyId dto = endpoint [SUPER_ADMIN] user (
     bnd (try_catch (bnd (findCompany parentFuelCompanyId) (\<lambda>c. ret (Some c))) (\<lambda>_. ret None)) (\<lambda>parent.
     bnd (guard (case parent of None \<Rightarrow> False | Some c \<Rightarrow> c_type c = FUEL) (BadRequest (Some INVALID_PARENT_FUEL_COMPANY))) (\<lambda>_.
     transaction (
       bnd (createTransportCompany parentFuelCompanyId (onb_company dto)) (\<lambda>transporter.
       bnd (create_user bcrypt (admin_of dto (c_id transporter) TRANSPORT_COMPANY_ADMIN)) (\<lambda>admin.
       ret (transporter, u_id admin, u_email admin)))))))"

text \<open>The acting fuel company's scope stamps its own id on the administrator; a second write puts the
  transporter's id there.\<close>

definition companies_createTransporter ::
  "(string \<Rightarrow> string) \<Rightarrow> authenticated_user \<Rightarrow> oid \<Rightarrow> onboarding_dto \<Rightarrow> (company \<times> oid \<times> string) service" where
  "companies_createTransporter bcrypt user i dto = endpoint [FUEL_COMPANY_ADMIN] user (
     bnd (assertCompanyAccess user i) (\<lambda>_.
     transaction (
       bnd (createTransportCompany i (onb_company dto)) (\<lambda>transporter.
       bnd (create_user bcrypt (admin_of dto (c_id transporter) TRANSPORT_COMPANY_ADMIN)) (\<lambda>admin.
       bnd (updateUser (u_id admin) (no_patch\<lparr>up_companyId := Some (c_id transporter)\<rparr>)) (\<lambda>admin'.
       ret (transporter, u_id admin', u_email admin')))))))"

definition companies_assignRegions :: "authenticated_user \<Rightarrow> oid \<Rightarrow> region_code list \<Rightarrow> company service" where
  "companies_assignRegions user i regionCodes = endpoint [FUEL_COMPANY_ADMIN] user (
     bnd (demand Unauthorized (au_companyId user)) (\<lambda>own. assignRegions own i regionCodes))"

definition companies_getCoveredRegions :: "authenticated_user \<Rightarrow> oid \<Rightarrow> region_code list service" where
  "companies_getCoveredRegions user i = endpoint [FUEL_COMPANY_ADMIN, SUPER_ADMIN] user (
     bnd (assertCompanyAccess user i) (\<lambda>_. bnd (findCompany i) (\<lambda>company. ret (c_coveredRegions company))))"

definition companies_setCoveredRegions :: "authenticated_user \<Rightarrow> oid \<Rightarrow> region_code list \<Rightarrow> region_code list service" where
  "companies_setCoveredRegions user i regionCodes = endpoint [FUEL_COMPANY_ADMIN] user (
     bnd (assertCompanyAccess user i) (\<lambda>_.
     bnd (setCoveredRegions i regionCodes) (\<lambda>company. ret (c_coveredRegions company))))"

definition companies_setCommissionCeiling :: "authenticated_user \<Rightarrow> oid \<Rightarrow> rat \<Rightarrow> rat option service" where
  "companies_setCommissionCeiling user i commissionCeiling = endpoint [SUPER_ADMIN] user (
     bnd (setCommissionCeiling i commissionCeiling) (\<lambda>company. ret (c_commissionCeiling company)))"

end
