(* ===== verification/Stations.thy ===== *)
theory Stations
  imports Regions Samples
begin

text \<open>
  The delivery stations of a client: \<open>modules/stations/stations.service.ts\<close> and
  \<open>stations.controller.ts\<close>.  Stations stand in the order of their creation; a list sorted by
  \<open>isDefault\<close> descending and then \<open>createdAt\<close> ascending is the defaults followed by the others.
\<close>

section \<open>The service\<close>

definition default_first :: "station list \<Rightarrow> station list" where
  "default_first ds = filter stn_isDefault ds @ filter (\<lambda>d. \<not> stn_isDefault d) ds"

definition findForClient :: "oid \<Rightarrow> station list service" where
  "findForClient clientId =
     bnd (find_all w_stations station_scoping (\<lambda>d. stn_clientId d = clientId \<and> stn_isActive d)) (\<lambda>ds. ret (default_first ds))"

definition findAllForCompany :: "oid option \<Rightarrow> station list service" where
  "findAllForCompany companyId = (case companyId of
     None \<Rightarrow> bnd (find_all w_stations station_scoping (\<lambda>_. True)) (\<lambda>ds. ret (rev ds))
   | Some c \<Rightarrow> bnd (tenant_key c) (\<lambda>own.
       bnd (find_all w_stations station_scoping (\<lambda>d. stn_companyId d = own)) (\<lambda>ds. ret (rev ds))))"

definition countForPlatform :: "nat service" where
  "countForPlatform = count_docs w_stations station_scoping (\<lambda>_. True)"

definition update_station :: "oid \<Rightarrow> (station \<Rightarrow> bool) \<Rightarrow> (station \<Rightarrow> station) \<Rightarrow> station option service" where
  "update_station stationId P f = find_and_update w_stations w_stations_update stn_id station_scoping stationId P f"

definition setFavourite :: "oid \<Rightarrow> oid \<Rightarrow> bool \<Rightarrow> station service" where
  "setFavourite stationId clientId isFavourite =
     bnd (update_station stationId (\<lambda>d. stn_clientId d = clientId) (\<lambda>d. d\<lparr>stn_isFavourite := isFavourite\<rparr>)) (demand NotFound)"

definition findForClientAsAdmin :: "oid \<Rightarrow> station list service" where
  "findForClientAsAdmin clientId =
     bnd (find_all w_stations station_scoping (\<lambda>d. stn_clientId d = clientId)) (\<lambda>ds. ret (default_first ds))"

text \<open>The unique index on \<open>clientId\<close> over the defaults.\<close>

definition clashes_default :: "oid \<Rightarrow> oid \<Rightarrow> station list \<Rightarrow> bool" where
  "clashes_default clientId i ds \<longleftrightarrow> list_ex (\<lambda>d. stn_clientId d = clientId \<and> stn_isDefault d \<and> stn_id d \<noteq> i) ds"

record station_fields =
  sfd_name :: "string option"
  sfd_regionCode :: region_code
  sfd_governorateCode :: governorate_code
  sfd_location :: coords
  sfd_addressText :: "string option"

definition createStation :: "oid \<Rightarrow> oid \<Rightarrow> station_fields \<Rightarrow> station service" where
  "createStation clientId companyId dto =
     bnd (count_docs w_stations station_scoping (\<lambda>d. stn_clientId d = clientId \<and> stn_isActive d)) (\<lambda>existingCount.
     bnd (tenant_key companyId) (\<lambda>owner.
     bnd fresh_id (\<lambda>i.
     let d = \<lparr>stn_id = i, stn_companyId = owner, stn_clientId = clientId, stn_name = sfd_name dto,
              stn_regionCode = sfd_regionCode dto, stn_governorateCode = sfd_governorateCode dto,
              stn_location = sfd_location dto,
              stn_addressText = (case sfd_addressText dto of None \<Rightarrow> '''' | Some t \<Rightarrow> t),
              stn_isDefault = (existingCount = 0), stn_isFavourite = False, stn_isActive = True\<rparr>
     in bnd (asks w_stations) (\<lambda>ds.
        bnd (guard (\<not> (stn_isDefault d \<and> clashes_default clientId i ds)) DuplicateKey) (\<lambda>_.
        bnd (insert_doc w_stations_update d) (\<lambda>_. ret d))))))"

record station_changes =
  sc_name :: "string option"
  sc_regionCode :: "region_code option"
  sc_governorateCode :: "governorate_code option"
  sc_location :: "coords option"
  sc_addressText :: "string option"

definition or_else :: "'a option \<Rightarrow> 'a \<Rightarrow> 'a" where
  "or_else x d = (case x of None \<Rightarrow> d | Some a \<Rightarrow> a)"

definition change_station :: "station_changes \<Rightarrow> station \<Rightarrow> station" where
  "change_station dto d = d\<lparr>
     stn_name := (case sc_name dto of None \<Rightarrow> stn_name d | Some n \<Rightarrow> Some n),
     stn_regionCode := or_else (sc_regionCode dto) (stn_regionCode d),
     stn_governorateCode := or_else (sc_governorateCode dto) (stn_governorateCode d),
     stn_location := or_else (sc_location dto) (stn_location d),
     stn_addressText := or_else (sc_addressText dto) (stn_addressText d)\<rparr>"

definition updateStation :: "oid \<Rightarrow> station_changes \<Rightarrow> station service" where
  "updateStation stationId dto = bnd (update_station stationId (\<lambda>_. True) (change_station dto)) (demand NotFound)"

definition removeStation :: "oid \<Rightarrow> unit service" where
  "removeStation stationId =
     bnd (find_first w_stations station_scoping (\<lambda>d. stn_id d = stationId \<and> stn_isActive d)) (\<lambda>found.
     bnd (demand NotFound found) (\<lambda>target.
     bnd (count_docs w_stations station_scoping (\<lambda>d. stn_clientId d = stn_clientId target \<and> stn_isActive d)) (\<lambda>activeCount.
     bnd (guard (activeCount > 1) (Conflict (Some LAST_STATION))) (\<lambda>_.
     bnd (update_station stationId (\<lambda>_. True) (\<lambda>d. d\<lparr>stn_isActive := False, stn_isDefault := False\<rparr>)) (\<lambda>_.
     if stn_isDefault target
     then bnd (find_first w_stations station_scoping
                 (\<lambda>d. stn_clientId d = stn_clientId target \<and> stn_isActive d \<and> stn_id d \<noteq> stationId)) (\<lambda>next_station.
          case next_station of
            None \<Rightarrow> ret ()
          | Some n \<Rightarrow>
              bnd (asks w_stations) (\<lambda>ds.
              bnd (guard (\<not> clashes_default (stn_clientId n) (stn_id n) ds) DuplicateKey) (\<lambda>_.
              bnd (update_station (stn_id n) (\<lambda>_. True) (\<lambda>d. d\<lparr>stn_isDefault := True\<rparr>)) (\<lambda>_. ret ()))))
     else ret ())))))"

definition findDefaultForClient :: "oid \<Rightarrow> station option service" where
  "findDefaultForClient clientId =
     find_first w_stations station_scoping (\<lambda>d. stn_clientId d = clientId \<and> stn_isDefault d \<and> stn_isActive d)"

section \<open>The endpoints\<close>

definition stations_findMine :: "authenticated_user \<Rightarrow> station list service" where
  "stations_findMine user = endpoint [CLIENT] user (findForClient (au_userId user))"

definition stations_findAll :: "authenticated_user \<Rightarrow> oid option \<Rightarrow> station list service" where
  "stations_findAll user companyId = endpoint [FUEL_COMPANY_ADMIN, SUPER_ADMIN] user (findAllForCompany companyId)"

definition stations_setFavourite :: "authenticated_user \<Rightarrow> oid \<Rightarrow> bool \<Rightarrow> station service" where
  "stations_setFavourite user i isFavourite = endpoint [CLIENT] user (setFavourite i (au_userId user) isFavourite)"

definition stations_update :: "authenticated_user \<Rightarrow> oid \<Rightarrow> station_changes \<Rightarrow> station service" where
  "stations_update user i dto = endpoint [FUEL_COMPANY_ADMIN] user (
     bnd (guard ((sc_regionCode dto = None) = (sc_governorateCode dto = None)) (BadRequest None)) (\<lambda>_.
     bnd (guard (case (sc_regionCode dto, sc_governorateCode dto) of
                   (Some r, Some g) \<Rightarrow> governorateBelongsToRegion g r | _ \<Rightarrow> True) (BadRequest None)) (\<lambda>_.
     updateStation i dto)))"

definition stations_remove :: "authenticated_user \<Rightarrow> oid \<Rightarrow> unit service" where
  "stations_remove user i = endpoint [FUEL_COMPANY_ADMIN] user (removeStation i)"

section \<open>One default station per client\<close>

definition actives :: "oid \<Rightarrow> station list \<Rightarrow> station list" where
  "actives c ds = filter (\<lambda>d. stn_clientId d = c \<and> stn_isActive d) ds"

definition defaults :: "oid \<Rightarrow> station list \<Rightarrow> station list" where
  "defaults c ds = filter (\<lambda>d. stn_clientId d = c \<and> stn_isDefault d) ds"

definition stations_ok :: "station list \<Rightarrow> bool" where
  "stations_ok ds \<longleftrightarrow> distinct (map stn_id ds) \<and> (\<forall>d \<in> set ds. stn_isDefault d \<longrightarrow> stn_isActive d) \<and>
     (\<forall>c. length (defaults c ds) = (if actives c ds = [] then 0 else 1))"

lemma length_filter_upd_by:
  assumes "distinct (map key ds)" and "get_by key i ds = Some d"
  shows "length (filter P (upd_by key i f ds)) + of_bool (P d) = length (filter P ds) + of_bool (P (f d))"
proof -
  have count: "int (length (filter P xs)) = sum_list (map (\<lambda>x. of_bool (P x)) xs)" for xs
    by (induction xs) simp_all
  have "int (length (filter P (upd_by key i f ds))) = int (length (filter P ds)) - of_bool (P d) + of_bool (P (f d))"
    unfolding count by (rule sum_list_map_upd_by [OF assms])
  then show ?thesis by (simp split: if_splits) (auto simp: of_bool_def split: if_splits)
qed

lemma stations_ok_patch:
  assumes ok: "stations_ok ds"
    and f: "\<And>d. stn_id (f d) = stn_id d \<and> stn_clientId (f d) = stn_clientId d \<and> stn_isDefault (f d) = stn_isDefault d \<and>
      stn_isActive (f d) = stn_isActive d"
  shows "stations_ok (upd_by stn_id i f ds)"
proof -
  have len: "length (filter P (map g xs)) = length (filter P xs)" if "\<And>d. P (g d) \<longleftrightarrow> P d" for P and g :: "station \<Rightarrow> station" and xs
    using that by (induction xs) simp_all
  let ?g = "\<lambda>d. if stn_id d = i then f d else d"
  have d: "length (defaults c (upd_by stn_id i f ds)) = length (defaults c ds)" for c
    unfolding defaults_def upd_by_def by (rule len) (simp add: f)
  have "length (actives c (upd_by stn_id i f ds)) = length (actives c ds)" for c
    unfolding actives_def upd_by_def by (rule len) (simp add: f)
  then have a: "actives c (upd_by stn_id i f ds) = [] \<longleftrightarrow> actives c ds = []" for c
    by (metis length_0_conv)
  have flags: "\<forall>d \<in> set (upd_by stn_id i f ds). stn_isDefault d \<longrightarrow> stn_isActive d"
    using ok f by (auto simp: stations_ok_def upd_by_def)
  show ?thesis using ok d a flags by (simp add: stations_ok_def f)
qed

lemma stations_ok_new:
  assumes ok: "stations_ok ds" and new: "stn_id d \<notin> stn_id ` set ds" "stn_isActive d"
    and dflt: "stn_isDefault d \<longleftrightarrow> actives (stn_clientId d) ds = []"
  shows "stations_ok (ds @ [d])"
  using ok new dflt by (auto simp: stations_ok_def actives_def defaults_def)

lemma stations_ok_promote:
  assumes dist: "distinct (map stn_id ds)" and flags: "\<forall>d \<in> set ds. stn_isDefault d \<longrightarrow> stn_isActive d"
    and others: "\<And>c. c \<noteq> stn_clientId n \<Longrightarrow> length (defaults c ds) = (if actives c ds = [] then 0 else 1)"
    and none: "defaults (stn_clientId n) ds = []"
    and n: "get_by stn_id i ds = Some n" "stn_isActive n"
  shows "stations_ok (upd_by stn_id i (\<lambda>d. d\<lparr>stn_isDefault := True\<rparr>) ds)"
proof -
  let ?f = "\<lambda>d. d\<lparr>stn_isDefault := True\<rparr>"
  let ?ds = "upd_by stn_id i ?f ds"
  have n_in: "n \<in> set ds" by (rule get_by_mem [OF n(1)])
  have n_off: "\<not> stn_isDefault n" using none n_in by (auto simp: defaults_def filter_empty_conv)
  have d: "length (defaults c ?ds) = length (defaults c ds) + of_bool (stn_clientId n = c)" for c
    using length_filter_upd_by [OF dist n(1), of "\<lambda>d. stn_clientId d = c \<and> stn_isDefault d" ?f] n_off
    by (simp add: defaults_def)
  have "length (actives c ?ds) = length (actives c ds)" for c
    using length_filter_upd_by [OF dist n(1), of "\<lambda>d. stn_clientId d = c \<and> stn_isActive d" ?f]
    by (simp add: actives_def)
  then have a: "actives c ?ds = [] \<longleftrightarrow> actives c ds = []" for c by (metis length_0_conv)
  have own: "actives (stn_clientId n) ds \<noteq> []" using n_in n(2) by (auto simp: actives_def filter_empty_conv)
  have fl: "\<forall>d \<in> set ?ds. stn_isDefault d \<longrightarrow> stn_isActive d"
    using flags n by (auto simp: upd_by_def dest: get_by_distinct [OF dist])
  have "length (defaults c ?ds) = (if actives c ?ds = [] then 0 else 1)" for c
    using others [of c] none own by (cases "c = stn_clientId n") (auto simp: d a)
  with fl dist show ?thesis by (simp add: stations_ok_def)
qed

text \<open>The acting scope sees every station of the client.\<close>

definition sees_stations_of :: "oid \<Rightarrow> world \<Rightarrow> bool" where
  "sees_stations_of c s \<longleftrightarrow> (\<exists>v. station_scoping (w_scope s) = Inr v \<and> (\<forall>d \<in> set (w_stations s). stn_clientId d = c \<longrightarrow> v d))"

lemma sees_filter:
  assumes "sees_stations_of c s" "station_scoping (w_scope s) = Inr v" "\<And>d. P d \<Longrightarrow> stn_clientId d = c"
  shows "filter (\<lambda>d. v d \<and> P d) (w_stations s) = filter P (w_stations s)"
  using assms by (auto simp: sees_stations_of_def intro: filter_cong)

lemma createStation_ok:
  assumes ok: "stations_ok (w_stations s)" and fresh: "\<forall>d \<in> set (w_stations s). stn_id d < w_next_id s"
    and sees: "sees_stations_of c s" and run: "createStation c companyId dto s = (r, s')"
  shows "stations_ok (w_stations s')"
proof (cases r)
  case (Inl e)
  with run ok show ?thesis by (auto simp: createStation_def tenant_key_def prog_inv Let_def)
next
  case (Inr d)
  then obtain v where v: "station_scoping (w_scope s) = Inr v" and d: "stn_id d = w_next_id s" "stn_isActive d" "stn_clientId d = c"
      "stn_isDefault d \<longleftrightarrow> length (filter (\<lambda>d. v d \<and> stn_clientId d = c \<and> stn_isActive d) (w_stations s)) = 0"
    and s': "w_stations s' = w_stations s @ [d]"
    using run by (auto simp: createStation_def tenant_key_def prog_inv Let_def)
  have "filter (\<lambda>d. v d \<and> stn_clientId d = c \<and> stn_isActive d) (w_stations s) = actives c (w_stations s)"
    unfolding actives_def by (rule sees_filter [OF sees v]) simp
  with d have "stn_isDefault d \<longleftrightarrow> actives (stn_clientId d) (w_stations s) = []" by simp
  with ok d(1,2) fresh show ?thesis unfolding s' by (intro stations_ok_new) auto
qed

lemma update_station_ok:
  assumes "stations_ok (w_stations s)" and "update_station i P f s = (r, s')"
    and "\<And>d. stn_id (f d) = stn_id d \<and> stn_clientId (f d) = stn_clientId d \<and> stn_isDefault (f d) = stn_isDefault d \<and>
      stn_isActive (f d) = stn_isActive d"
  shows "stations_ok (w_stations s')"
  using assms stations_ok_patch [OF assms(1,3)]
  by (cases r; cases "projr r") (auto simp: update_station_def prog_inv)

lemma updateStation_ok:
  assumes "stations_ok (w_stations s)" and "updateStation i dto s = (r, s')"
  shows "stations_ok (w_stations s')"
proof -
  obtain x s1 where x: "update_station i (\<lambda>_. True) (change_station dto) s = (x, s1)" by fastforce
  then have "stations_ok (w_stations s1)" by (rule update_station_ok [OF assms(1)]) (simp add: change_station_def)
  with x assms(2) show ?thesis by (cases r) (auto simp: updateStation_def prog_inv)
qed

lemma setFavourite_ok:
  assumes "stations_ok (w_stations s)" and "setFavourite i c b s = (r, s')"
  shows "stations_ok (w_stations s')"
proof -
  obtain x s1 where x: "update_station i (\<lambda>d. stn_clientId d = c) (\<lambda>d. d\<lparr>stn_isFavourite := b\<rparr>) s = (x, s1)" by fastforce
  then have "stations_ok (w_stations s1)" by (rule update_station_ok [OF assms(1)]) simp
  with x assms(2) show ?thesis by (cases r) (auto simp: setFavourite_def prog_inv)
qed

text \<open>Taking a station out of service: what is left of its client's stations.\<close>

lemma retired:
  assumes ok: "stations_ok ds" and t: "get_by stn_id i ds = Some t" "stn_isActive t"
  defines "ds' \<equiv> upd_by stn_id i (\<lambda>d. d\<lparr>stn_isActive := False, stn_isDefault := False\<rparr>) ds"
  shows "distinct (map stn_id ds')" "\<forall>d \<in> set ds'. stn_isDefault d \<longrightarrow> stn_isActive d"
    "length (actives c ds') + of_bool (stn_clientId t = c) = length (actives c ds)"
    "length (defaults c ds') + of_bool (stn_clientId t = c \<and> stn_isDefault t) = length (defaults c ds)"
proof -
  have dist: "distinct (map stn_id ds)" using ok by (simp add: stations_ok_def)
  show "distinct (map stn_id ds')" using dist by (simp add: ds'_def)
  show "\<forall>d \<in> set ds'. stn_isDefault d \<longrightarrow> stn_isActive d"
    using ok by (auto simp: ds'_def upd_by_def stations_ok_def)
  show "length (actives c ds') + of_bool (stn_clientId t = c) = length (actives c ds)"
    using length_filter_upd_by [OF dist t(1), of "\<lambda>d. stn_clientId d = c \<and> stn_isActive d"] t(2)
    by (simp add: ds'_def actives_def)
  show "length (defaults c ds') + of_bool (stn_clientId t = c \<and> stn_isDefault t) = length (defaults c ds)"
    using length_filter_upd_by [OF dist t(1), of "\<lambda>d. stn_clientId d = c \<and> stn_isDefault d"]
    by (simp add: ds'_def defaults_def)
qed

lemma retired_other:
  assumes ok: "stations_ok ds" and t: "get_by stn_id i ds = Some t" "stn_isActive t" and c: "c \<noteq> stn_clientId t"
  defines "ds' \<equiv> upd_by stn_id i (\<lambda>d. d\<lparr>stn_isActive := False, stn_isDefault := False\<rparr>) ds"
  shows "length (defaults c ds') = (if actives c ds' = [] then 0 else 1)"
proof -
  have "length (actives c ds') = length (actives c ds)" "length (defaults c ds') = length (defaults c ds)"
    using retired(3,4) [OF ok t, of c] c unfolding ds'_def by simp_all
  then show ?thesis using ok by (metis length_0_conv stations_ok_def)
qed

lemma findFirst_id:
  assumes "distinct (map stn_id ds)" "find (\<lambda>d. v d \<and> stn_id d = i \<and> stn_isActive d) ds = Some t"
  shows "get_by stn_id i ds = Some t" "v t" "stn_isActive t"
proof -
  from assms(2) have t: "t \<in> set ds" "v t" "stn_id t = i" "stn_isActive t" by (auto simp: find_Some_iff)
  with get_by_distinct [OF assms(1), of t] show "get_by stn_id i ds = Some t" "v t" "stn_isActive t" by simp_all
qed

lemma removeStation_ok:
  assumes ok: "stations_ok (w_stations s)" and sees: "\<And>d. get_by stn_id i (w_stations s) = Some d \<Longrightarrow> sees_stations_of (stn_clientId d) s"
    and run: "removeStation i s = (r, s')"
  shows "stations_ok (w_stations s')"
proof (cases "\<exists>v t. station_scoping (w_scope s) = Inr v \<and>
    find (\<lambda>d. v d \<and> stn_id d = i \<and> stn_isActive d) (w_stations s) = Some t \<and>
    length (filter (\<lambda>d. v d \<and> stn_clientId d = stn_clientId t \<and> stn_isActive d) (w_stations s)) > 1")
  case False
  then have "s' = s"
    using run by (cases r) (auto simp: removeStation_def prog_inv)
  with ok show ?thesis by simp
next
  case True
  then obtain v t where v: "station_scoping (w_scope s) = Inr v"
    and found: "find (\<lambda>d. v d \<and> stn_id d = i \<and> stn_isActive d) (w_stations s) = Some t"
    and many: "length (filter (\<lambda>d. v d \<and> stn_clientId d = stn_clientId t \<and> stn_isActive d) (w_stations s)) > 1"
    by blast
  have dist: "distinct (map stn_id (w_stations s))" using ok by (simp add: stations_ok_def)
  note t = findFirst_id [OF dist found]
  let ?c = "stn_clientId t"
  let ?off = "\<lambda>d :: station. d\<lparr>stn_isActive := False, stn_isDefault := False\<rparr>"
  let ?ds = "upd_by stn_id i ?off (w_stations s)"
  let ?s1 = "w_stations_update (upd_by stn_id i ?off) s"
  note off = retired [OF ok t(1,3)]
  have "filter (\<lambda>d. v d \<and> stn_clientId d = ?c \<and> stn_isActive d) (w_stations s) = actives ?c (w_stations s)"
    unfolding actives_def by (rule sees_filter [OF sees [OF t(1)] v]) simp
  with many have left: "actives ?c ?ds \<noteq> []" using off(3) [of ?c] by auto
  have gone: "update_station i (\<lambda>_. True) ?off s = (Inr (Some (?off t)), ?s1)"
    using v t by (simp add: update_station_def find_and_update_def cas_def)
  have off_id: "get_by stn_id i (w_stations s) = Some t" "v t" by (fact t(1), fact t(2))
  have rest: "removeStation i s = (if stn_isDefault t
      then bnd (find_first w_stations station_scoping (\<lambda>d. stn_clientId d = ?c \<and> stn_isActive d \<and> stn_id d \<noteq> i)) (\<lambda>n.
        case n of None \<Rightarrow> ret () | Some n \<Rightarrow>
          bnd (asks w_stations) (\<lambda>ds.
          bnd (guard (\<not> clashes_default (stn_clientId n) (stn_id n) ds) DuplicateKey) (\<lambda>_.
          bnd (update_station (stn_id n) (\<lambda>_. True) (\<lambda>d. d\<lparr>stn_isDefault := True\<rparr>)) (\<lambda>_. ret ())))) ?s1
      else (Inr (), ?s1))"
    using v found many gone
    by (simp add: removeStation_def bnd_def find_first_def count_docs_def demand_def guard_def ret_def)
  show ?thesis
  proof (cases "stn_isDefault t")
    case False
    with rest run have s': "s' = ?s1" by simp
    have "length (defaults c ?ds) = (if actives c ?ds = [] then 0 else 1)" for c
    proof (cases "c = ?c")
      case True
      have "actives c (w_stations s) \<noteq> []" using off(3) [of c] left True by (metis add_is_0 length_0_conv)
      with off(4) [of c] False left True ok show ?thesis by (simp add: stations_ok_def)
    qed (rule retired_other [OF ok t(1,3)])
    with off(1,2) show ?thesis by (simp add: s' stations_ok_def)
  next
    case True
    have none: "defaults ?c ?ds = []" using off(4) [of ?c] True ok by (simp add: stations_ok_def split: if_splits)
    let ?P = "\<lambda>d. v d \<and> stn_clientId d = ?c \<and> stn_isActive d \<and> stn_id d \<noteq> i"
    have "find ?P ?ds \<noteq> None"
    proof -
      from left obtain d where d: "d \<in> set ?ds" "stn_clientId d = ?c" "stn_isActive d" by (auto simp: actives_def filter_empty_conv)
      from set_upd_by [OF d(1)] have in_s: "d \<in> set (w_stations s) \<and> stn_id d \<noteq> i"
      proof (elim disjE bexE)
        fix d0 assume "stn_id d0 = i \<and> d = ?off d0"
        with d(3) show ?thesis by simp
      qed
      from sees [OF t(1)] v in_s d(2) have "v d" by (auto simp: sees_stations_of_def)
      with d in_s show ?thesis unfolding find_None_iff by blast
    qed
    then obtain n where n: "find ?P ?ds = Some n" by blast
    then have n': "n \<in> set ?ds" "v n" "stn_clientId n = ?c" "stn_isActive n" by (auto simp: find_Some_iff)
    have get_n: "get_by stn_id (stn_id n) ?ds = Some n" by (rule get_by_distinct [OF off(1) n'(1)])
    have clash: "\<not> clashes_default (stn_clientId n) (stn_id n) ?ds"
      using none n'(3) by (auto simp: clashes_default_def list_ex_iff defaults_def filter_empty_conv)
    have "w_stations s' = upd_by stn_id (stn_id n) (\<lambda>d. d\<lparr>stn_isDefault := True\<rparr>) ?ds"
      using rest run True v n clash get_n n'(2)
      by (simp add: bnd_def find_first_def asks_def guard_def ret_def update_station_def find_and_update_def cas_def)
    moreover have "stations_ok (upd_by stn_id (stn_id n) (\<lambda>d. d\<lparr>stn_isDefault := True\<rparr>) ?ds)"
      using none n'(3) retired_other [OF ok t(1,3)] by (intro stations_ok_promote [OF off(1,2) _ _ get_n n'(4)]) simp_all
    ultimately show ?thesis by simp
  qed
qed

section \<open>Properties\<close>

text \<open>Any sequence of station operations, each by an actor who sees the stations of the client it touches.\<close>

inductive station_step :: "world \<Rightarrow> world \<Rightarrow> bool" where
  adds: "createStation c companyId dto s = (r, s') \<Longrightarrow> sees_stations_of c s \<Longrightarrow> station_step s s'"
| changes: "updateStation i ch s = (r', s') \<Longrightarrow> station_step s s'"
| stars: "setFavourite i c b s = (r', s') \<Longrightarrow> station_step s s'"
| removes: "removeStation i s = (r'', s') \<Longrightarrow>
    (\<And>d. get_by stn_id i (w_stations s) = Some d \<Longrightarrow> sees_stations_of (stn_clientId d) s) \<Longrightarrow> station_step s s'"
| acts: "station_step s (s\<lparr>w_scope := ctx\<rparr>)"

definition station_ids_used :: "world \<Rightarrow> bool" where
  "station_ids_used s \<longleftrightarrow> (\<forall>d \<in> set (w_stations s). stn_id d < w_next_id s)"

lemma station_ids_keep:
  "station_ids_used s \<Longrightarrow> (\<And>d. stn_id (f d) = stn_id d) \<Longrightarrow> station_ids_used (w_stations_update (upd_by stn_id i f) s)"
  by (auto simp: station_ids_used_def upd_by_def)

lemma keeps_update_station:
  "(\<And>d. stn_id (f d) = stn_id d) \<Longrightarrow> keeps station_ids_used (update_station i P f)"
  unfolding update_station_def by (intro keeps_find_and_update station_ids_keep)

lemma station_step_ids: "station_step s s' \<Longrightarrow> station_ids_used s \<Longrightarrow> station_ids_used s'"
proof (induction rule: station_step.induct)
  case (adds c companyId dto s r s')
  then show ?case
    by (cases r) (auto simp: createStation_def tenant_key_def prog_inv Let_def station_ids_used_def less_Suc_eq)
next
  case (changes i ch s r' s')
  have "keeps station_ids_used (updateStation i ch)"
    unfolding updateStation_def by (intro keeps_bnd keeps_basic keeps_update_station) (simp add: change_station_def)
  with changes show ?case by (auto dest: keepsD)
next
  case (stars i c b s r' s')
  have "keeps station_ids_used (setFavourite i c b)"
    unfolding setFavourite_def by (intro keeps_bnd keeps_basic keeps_update_station) simp
  with stars show ?case by (auto dest: keepsD)
next
  case (removes i s r'' s')
  have "keeps station_ids_used (removeStation i)"
    unfolding removeStation_def by (intro keeps_bnd keeps_basic keeps_reads keeps_if keeps_option keeps_update_station) simp_all
  with removes show ?case by (auto dest: keepsD)
qed (simp add: station_ids_used_def)

text \<open>C30: from a state where every client with an active station has exactly one default among them, no sequence of
  additions, edits, favourites and removals by actors who see the client's stations leaves a client with an active
  station and no default, or with two, or with a default that is withdrawn.\<close>

theorem one_default_station:
  assumes "station_step\<^sup>*\<^sup>* s s'" and "stations_ok (w_stations s)" and "station_ids_used s"
  shows "stations_ok (w_stations s')"
proof -
  have "stations_ok (w_stations s') \<and> station_ids_used s'"
    using assms
  proof (induction rule: rtranclp_induct)
    case (step y z)
    then have y: "stations_ok (w_stations y)" "station_ids_used y" by simp_all
    have "stations_ok (w_stations z)"
      using step.hyps(2) y
      by (cases rule: station_step.cases)
        (auto intro: updateStation_ok setFavourite_ok removeStation_ok createStation_ok [simplified] simp: station_ids_used_def)
    with step.hyps(2) y show ?case by (auto dest: station_step_ids)
  qed simp
  then show ?thesis by simp
qed

definition blank_station :: station where
  "blank_station = \<lparr>stn_id = 50, stn_companyId = 1, stn_clientId = 5, stn_name = None, stn_regionCode = ''RIYADH'',
     stn_governorateCode = ''RIYADH_CITY'', stn_location = (46, 24), stn_addressText = '''', stn_isDefault = True,
     stn_isFavourite = False, stn_isActive = True\<rparr>"

definition two_stations :: world where
  "two_stations = empty_world\<lparr>w_stations := [blank_station, blank_station\<lparr>stn_id := 51, stn_isDefault := False\<rparr>]\<rparr>"

lemma two_stations_sees: "sees_stations_of c two_stations"
  by (simp add: sees_stations_of_def two_stations_def empty_world_def)

lemma two_stations_ok: "stations_ok (w_stations two_stations)"
  by (auto simp: stations_ok_def defaults_def actives_def two_stations_def blank_station_def)

lemma one_default_station_witness:
  "stations_ok (w_stations (snd (removeStation 50 two_stations))) \<and>
   map stn_isDefault (w_stations (snd (removeStation 50 two_stations))) = [False, True]"
proof -
  obtain r s' where run: "removeStation 50 two_stations = (r, s')" by fastforce
  have "station_step two_stations s'" by (rule station_step.removes [OF run two_stations_sees])
  then have "station_step\<^sup>*\<^sup>* two_stations s'" by blast
  moreover have "station_ids_used two_stations"
    by (simp add: station_ids_used_def two_stations_def blank_station_def empty_world_def)
  ultimately have "stations_ok (w_stations s')" by (rule one_default_station [OF _ two_stations_ok])
  moreover have "map stn_isDefault (w_stations (snd (removeStation 50 two_stations))) = [False, True]"
    by code_simp
  ultimately show ?thesis using run by simp
qed

end
