(* ===== verification/Auth.thy ===== *)
theory Auth
  imports Accounts Otp
begin

text \<open>
  Signing in and out: \<open>modules/auth/auth.service.ts\<close>, the one-time-code sign-in of administrators
  (\<open>services/login-code.service.ts\<close>, \<open>login-abuse.service.ts\<close>, \<open>challenge.service.ts\<close>), password recovery
  (\<open>services/password-reset.service.ts\<close>) and the change of a phone number
  (\<open>users/services/phone-verification.service.ts\<close>).

  The libraries are the fields of \<open>libraries\<close>: bcrypt, SHA-256 in hexadecimal, the JSON web token signer and
  verifier, and the text message provider, which accepts a message or not.  Random codes, salts, session ids,
  tokens and seeds are arguments.
\<close>

datatype token_use = ACCESS_TOKEN | REFRESH_TOKEN

record libraries =
  lib_hash :: "string \<Rightarrow> string"
  lib_compare :: "string \<Rightarrow> string \<Rightarrow> bool"
  lib_sha :: "string \<Rightarrow> string"
  lib_sign :: "token_use \<Rightarrow> jwt_payload \<Rightarrow> string"
  lib_verify :: "token_use \<Rightarrow> string \<Rightarrow> jwt_payload option"
  lib_sms :: "string \<Rightarrow> string \<Rightarrow> bool"

section \<open>Passwords and tokens\<close>

record token_pair =
  tp_accessToken :: string
  tp_refreshToken :: string

record safe_user =
  su_id :: oid
  su_role :: user_role
  su_companyId :: "oid option"
  su_fullName :: string
  su_email :: string

definition toSafeUser :: "user \<Rightarrow> safe_user" where
  "toSafeUser user = \<lparr>su_id = u_id user, su_role = u_role user, su_companyId = u_companyId user,
     su_fullName = u_fullName user, su_email = u_email user\<rparr>"

definition token_payload :: "user \<Rightarrow> nat \<Rightarrow> string option \<Rightarrow> jwt_payload" where
  "token_payload user generation sid = \<lparr>jp_sub = u_id user, jp_role = u_role user, jp_companyId = u_companyId user,
     jp_sgen = Some generation, jp_sid = (if sid = Some '''' then None else sid)\<rparr>"

definition issueTokenPair :: "libraries \<Rightarrow> user \<Rightarrow> nat \<Rightarrow> string option \<Rightarrow> token_pair" where
  "issueTokenPair L user generation sid =
     \<lparr>tp_accessToken = lib_sign L ACCESS_TOKEN (token_payload user generation sid),
      tp_refreshToken = lib_sign L REFRESH_TOKEN (token_payload user generation sid)\<rparr>"

definition subject_of :: "user \<Rightarrow> nat \<Rightarrow> session_subject" where
  "subject_of user generation = \<lparr>ss_userId = u_id user, ss_companyId = u_companyId user, ss_role = u_role user,
     ss_generation = generation, ss_sid = None\<rparr>"

definition mobileLogin :: "libraries \<Rightarrow> user \<Rightarrow> (token_pair \<times> safe_user) service" where
  "mobileLogin L user =
     bnd (transaction (
       bnd (revokeAllSessions (u_id user) (Some SIGNED_IN_ELSEWHERE)) (\<lambda>revokedUser.
       let subject = subject_of user (u_sessionGeneration revokedUser)
       in bnd (revoked subject SIGNED_IN_ELSEWHERE) (\<lambda>_.
          bnd (signedIn subject) (\<lambda>_.
          ret (u_sessionGeneration revokedUser)))))) (\<lambda>generation.
     bnd (asks w_now) (\<lambda>now.
     bnd (emit (SessionRevokedEvent (u_id user) SIGNED_IN_ELSEWHERE now)) (\<lambda>_.
     bnd (emit (DisconnectUser (u_id user))) (\<lambda>_.
     ret (issueTokenPair L user generation None, toSafeUser user)))))"

text \<open>Opening an administrator's session: the eviction rows and the sign-in row of one transaction.\<close>

definition open_admin_session :: "user \<Rightarrow> string \<Rightarrow> nat \<Rightarrow> unit service" where
  "open_admin_session user sid cap =
     bnd (openSession (u_id user) sid cap) (\<lambda>evictedSids.
     let base = subject_of user (u_sessionGeneration user)
     in bnd (for_each evictedSids (\<lambda>evictedSid. revoked (base\<lparr>ss_sid := Some evictedSid\<rparr>) SESSION_LIMIT_EXCEEDED)) (\<lambda>_.
        signedIn (base\<lparr>ss_sid := Some sid\<rparr>)))"

definition adminLogin :: "libraries \<Rightarrow> string \<Rightarrow> user \<Rightarrow> (token_pair \<times> safe_user) service" where
  "adminLogin L sid user =
     bnd (asks (\<lambda>s. lc_maxAdminSessions (cfg_login (w_config s)))) (\<lambda>cap.
     bnd (transaction (open_admin_session user sid cap)) (\<lambda>_.
     ret (issueTokenPair L user (u_sessionGeneration user) (Some sid), toSafeUser user)))"

record login_dto =
  ld_phone :: "string option"
  ld_email :: string
  ld_password :: string

definition login :: "libraries \<Rightarrow> string \<Rightarrow> login_dto \<Rightarrow> (token_pair \<times> safe_user) service" where
  "login L sid dto =
     bnd (case ld_phone dto of
            Some phone \<Rightarrow> if phone \<noteq> '''' then findByPhoneForAuth phone else findByEmailForAuth (ld_email dto)
          | None \<Rightarrow> findByEmailForAuth (ld_email dto)) (\<lambda>found.
     bnd (demand Unauthorized found) (\<lambda>user.
     bnd (guard (lib_compare L (ld_password dto) (u_passwordHash user)) Unauthorized) (\<lambda>_.
     bnd (validateActiveSession (u_id user)) (\<lambda>_.
     if isSessionCappedRole (u_role user) then adminLogin L sid user else mobileLogin L user))))"

definition logout :: "authenticated_user \<Rightarrow> unit service" where
  "logout actor = transaction (
     case (if isSessionCappedRole (au_role actor) \<and> au_sid actor \<noteq> Some '''' then au_sid actor else None) of
       Some sid \<Rightarrow>
         bnd (closeSession (au_userId actor) sid) (\<lambda>user.
         signedOut \<lparr>ss_userId = au_userId actor, ss_companyId = u_companyId user, ss_role = u_role user,
           ss_generation = u_sessionGeneration user, ss_sid = Some sid\<rparr>)
     | None \<Rightarrow>
         bnd (revokeAllSessions (au_userId actor) None) (\<lambda>user.
         signedOut \<lparr>ss_userId = au_userId actor, ss_companyId = u_companyId user, ss_role = u_role user,
           ss_generation = u_sessionGeneration user, ss_sid = None\<rparr>))"

definition refresh :: "libraries \<Rightarrow> string \<Rightarrow> token_pair service" where
  "refresh L refreshToken =
     bnd (demand Unauthorized (lib_verify L REFRESH_TOKEN refreshToken)) (\<lambda>payload.
     bnd (validateActiveSession (jp_sub payload)) (\<lambda>user.
     bnd (guard (payload_generation payload = u_sessionGeneration user) (SessionRevoked (u_lastRevocationCause user))) (\<lambda>_.
     bnd (guard (isSessionCappedRole (u_role user) \<longrightarrow> session_open user (jp_sid payload))
            (SessionRevoked (Some SESSION_LIMIT_EXCEEDED))) (\<lambda>_.
     ret (issueTokenPair L user (u_sessionGeneration user) (jp_sid payload))))))"

definition issueAdminCodeSession :: "libraries \<Rightarrow> user \<Rightarrow> string \<Rightarrow> (token_pair \<times> safe_user) service" where
  "issueAdminCodeSession L user sid = ret (issueTokenPair L user (u_sessionGeneration user) (Some sid), toSafeUser user)"

section \<open>Counters against guessing\<close>

text \<open>Every command of these counters fails closed: an unreachable store refuses the request.\<close>

definition closed_command :: "'a service \<Rightarrow> 'a service" where
  "closed_command command = try_catch command (\<lambda>_. throw ServiceUnavailable)"

abbreviation login_setting :: "(login_config \<Rightarrow> 'a) \<Rightarrow> 'a service" where
  "login_setting f \<equiv> asks (\<lambda>s. f (cfg_login (w_config s)))"

definition rateLimited :: "int \<Rightarrow> 'a service" where
  "rateLimited ttl = throw (TooManyRequests (Some LOGIN_RATE_LIMITED) (max 1 ttl))"

definition assertNotBlocked :: "string \<Rightarrow> unit service" where
  "assertNotBlocked phone =
     bnd (closed_command (redis_ttl (LoginBlocked phone))) (\<lambda>ttl.
     if ttl > 0 then rateLimited ttl else ret ())"

text \<open>\<open>INCR\<close>, and \<open>EXPIRE\<close> on the first count of a window.\<close>

definition count_in_window :: "redis_key \<Rightarrow> int \<Rightarrow> nat service" where
  "count_in_window k windowSeconds =
     bnd (redis_incr k) (\<lambda>n.
     bnd (if n = 1 then redis_expire k windowSeconds else ret ()) (\<lambda>_. ret n))"

definition registerCodeRequest :: "string \<Rightarrow> unit service" where
  "registerCodeRequest phone =
     bnd (login_setting lc_windowMinutes) (\<lambda>windowMinutes.
     bnd (login_setting lc_maxRequests) (\<lambda>maxRequests.
     bnd (closed_command (count_in_window (LoginRate phone) (windowMinutes * 60))) (\<lambda>count.
     if count > maxRequests
     then bnd (closed_command (count_in_window (LoginRateHits phone) (windowMinutes * 60))) (\<lambda>_.
          bnd (closed_command (redis_ttl (LoginRate phone))) rateLimited)
     else ret ())))"

definition counter_value :: "redis_value option \<Rightarrow> nat" where
  "counter_value v = (case v of Some (Counter n) \<Rightarrow> n | _ \<Rightarrow> 0)"

definition challengeRequired :: "string \<Rightarrow> bool service" where
  "challengeRequired phone =
     bnd (login_setting lc_challengeAfter) (\<lambda>after.
     bnd (closed_command (redis_get (LoginRateHits phone))) (\<lambda>hits.
     ret (counter_value hits \<ge> after)))"

definition recordVerificationFailure :: "string \<Rightarrow> unit service" where
  "recordVerificationFailure phone =
     bnd (login_setting lc_blockMinutes) (\<lambda>blockMinutes.
     bnd (login_setting lc_failThreshold) (\<lambda>threshold.
     bnd (closed_command (count_in_window (LoginFails phone) (blockMinutes * 60))) (\<lambda>fails.
     if fails \<ge> threshold then closed_command (redis_set (LoginBlocked phone) (Text ''1'') (blockMinutes * 60))
     else ret ())))"

definition clearOnSuccess :: "string \<Rightarrow> unit service" where
  "clearOnSuccess phone =
     closed_command (redis_del [LoginRate phone, LoginFails phone, LoginRateHits phone, LoginBlocked phone])"

section \<open>Proof of work\<close>

definition parseHexDigit :: "char \<Rightarrow> nat option" where
  "parseHexDigit ch = (let n = of_char ch :: nat
     in if 48 \<le> n \<and> n \<le> 57 then Some (n - 48) else if 97 \<le> n \<and> n \<le> 102 then Some (n - 87)
        else if 65 \<le> n \<and> n \<le> 70 then Some (n - 55) else None)"

text \<open>\<open>Math.clz32(nibble) - 28\<close> for a nibble from 1 to 15; \<open>Math.clz32\<close> of NaN is 32.\<close>

definition nibble_zeros :: "nat option \<Rightarrow> nat" where
  "nibble_zeros nibble = (case nibble of
     None \<Rightarrow> 4
   | Some n \<Rightarrow> if n \<ge> 8 then 0 else if n \<ge> 4 then 1 else if n \<ge> 2 then 2 else 3)"

fun leadingZeroBits :: "string \<Rightarrow> nat" where
  "leadingZeroBits [] = 0"
| "leadingZeroBits (ch # hexDigest) =
     (if parseHexDigit ch = Some 0 then 4 + leadingZeroBits hexDigest else nibble_zeros (parseHexDigit ch))"

record login_challenge =
  ch_seed :: string
  ch_nonce :: string

definition issueChallenge :: "string \<Rightarrow> (string \<times> nat) service" where
  "issueChallenge seed =
     bnd (login_setting lc_powDifficultyBits) (\<lambda>difficultyBits.
     bnd (login_setting lc_powSeedTtlSeconds) (\<lambda>ttl.
     bnd (closed_command (redis_set (PowSeed seed) (Counter difficultyBits) ttl)) (\<lambda>_.
     ret (seed, difficultyBits))))"

definition verifyChallenge :: "libraries \<Rightarrow> string \<Rightarrow> string \<Rightarrow> bool service" where
  "verifyChallenge L seed nonce =
     bnd (closed_command (redis_get (PowSeed seed))) (\<lambda>stored.
     if stored = None then ret False
     else if leadingZeroBits (lib_sha L (seed @ nonce)) \<ge> counter_value stored
     then bnd (try_catch (redis_del [PowSeed seed]) (\<lambda>_. ret ())) (\<lambda>_. ret True)
     else ret False)"

section \<open>One-time codes on their own documents\<close>

text \<open>\<open>{ ...record.toObject(), usedAt: record.consumedAt }\<close>\<close>

definition as_otp_record :: "'r one_time_code_scheme \<Rightarrow> otp_record_like" where
  "as_otp_record r = \<lparr>otp_hash = oc_hash r, otp_salt = oc_salt r, otp_expiresAt = oc_expiresAt r,
     otp_usedAt = oc_consumedAt r, otp_attempts = oc_attempts r\<rparr>"

definition issueCode :: "libraries \<Rightarrow> string \<Rightarrow> string \<Rightarrow> redis_key \<Rightarrow> int \<Rightarrow> otp_record_like service" where
  "issueCode L code salt cacheKey expiryMinutes =
     bnd (asks w_now) (\<lambda>now.
     bnd (redis_set cacheKey (Text code) (expiryMinutes * 60)) (\<lambda>_.
     ret \<lparr>otp_hash = hashOtp (lib_sha L) code salt, otp_salt = salt, otp_expiresAt = now + expiryMinutes * 60000,
          otp_usedAt = None, otp_attempts = 0\<rparr>))"

definition new_code :: "oid \<Rightarrow> oid \<Rightarrow> string \<Rightarrow> instant \<Rightarrow> otp_record_like \<Rightarrow> one_time_code" where
  "new_code i userId phone now record = \<lparr>oc_id = i, oc_userId = userId, oc_phone = phone, oc_hash = otp_hash record,
     oc_salt = otp_salt record, oc_expiresAt = otp_expiresAt record, oc_attempts = 0, oc_consumedAt = None,
     oc_createdAt = now\<rparr>"

definition unconsumed :: "oid \<Rightarrow> 'r one_time_code_scheme \<Rightarrow> bool" where
  "unconsumed userId r \<longleftrightarrow> oc_userId r = userId \<and> oc_consumedAt r = None"

definition live_for :: "string \<Rightarrow> 'r one_time_code_scheme \<Rightarrow> bool" where
  "live_for phone r \<longleftrightarrow> oc_phone r = phone \<and> oc_consumedAt r = None"

definition more_attempts :: "'r one_time_code_scheme \<Rightarrow> 'r one_time_code_scheme" where
  "more_attempts r = r\<lparr>oc_attempts := Suc (oc_attempts r)\<rparr>"

definition send_sms :: "libraries \<Rightarrow> string \<Rightarrow> string \<Rightarrow> bool service" where
  "send_sms L phone message = (if lib_sms L phone message then bnd (emit (SmsSent phone message)) (\<lambda>_. ret True) else ret False)"

definition sms_text :: "string \<Rightarrow> string \<Rightarrow> string \<Rightarrow> string" where
  "sms_text kind code expiry =
     ''Your CIRO Fuel '' @ kind @ '' code is '' @ code @ ''. It expires in '' @ expiry @ '' minutes.''"

section \<open>Administrators sign in with a code\<close>

record code_offer =
  co_expiresInMinutes :: int
  co_attemptsAllowed :: nat

text \<open>\<open>show\<close> is how JavaScript prints the number of minutes.\<close>

definition requestCode ::
  "libraries \<Rightarrow> (int \<Rightarrow> string) \<Rightarrow> string \<Rightarrow> string \<Rightarrow> string \<Rightarrow> string \<Rightarrow> login_challenge option \<Rightarrow> code_offer service" where
  "requestCode L shown code salt seed phone challenge =
     bnd (assertNotBlocked phone) (\<lambda>_.
     bnd (challengeRequired phone) (\<lambda>required.
     bnd (if \<not> required then ret False
          else bnd (case challenge of None \<Rightarrow> ret False | Some c \<Rightarrow> verifyChallenge L (ch_seed c) (ch_nonce c)) (\<lambda>solved.
               if solved then ret True
               else bnd (issueChallenge seed) (\<lambda>(fresh, difficultyBits). throw (ChallengeNeeded fresh difficultyBits))))
       (\<lambda>challengeSolved.
     bnd (if challengeSolved then ret () else registerCodeRequest phone) (\<lambda>_.
     bnd (login_setting lc_expiryMinutes) (\<lambda>expiryMinutes.
     bnd (login_setting lc_maxAttempts) (\<lambda>maxAttempts.
     let response = \<lparr>co_expiresInMinutes = expiryMinutes, co_attemptsAllowed = maxAttempts\<rparr>
     in bnd (run_unscoped (findSingleActiveAdminByPhone phone)) (\<lambda>found.
     case found of
       None \<Rightarrow> bnd (login_setting lc_revealUnknownPhone) (\<lambda>reveal.
               if reveal then throw (NotFoundFor PHONE_NOT_REGISTERED) else ret response)
     | Some holder \<Rightarrow>
         bnd (issueCode L code salt (LoginCodeText (u_id holder)) expiryMinutes) (\<lambda>record.
         bnd (delete_many w_login_codes_update unscoped (unconsumed (u_id holder))) (\<lambda>_.
         bnd fresh_id (\<lambda>i.
         bnd (asks w_now) (\<lambda>now.
         bnd (insert_doc w_login_codes_update (new_code i (u_id holder) phone now record)) (\<lambda>_.
         bnd (send_sms L phone (sms_text ''sign-in'' code (shown expiryMinutes))) (\<lambda>_.
         bnd (loginCodeRequested (subject_of holder (u_sessionGeneration holder))) (\<lambda>_.
         ret response))))))))))))))"

definition refuse_code :: "string \<Rightarrow> one_time_code option \<Rightarrow> otp_verify_result \<Rightarrow> 'a service" where
  "refuse_code phone found result =
     bnd (case found of
            Some r \<Rightarrow>
              if result = MISMATCH
              then bnd (find_and_update w_login_codes w_login_codes_update oc_id unscoped (oc_id r) (\<lambda>_. True) more_attempts) (\<lambda>_. ret ())
              else ret ()
          | None \<Rightarrow> ret ()) (\<lambda>_.
     bnd (recordVerificationFailure phone) (\<lambda>_.
     bnd (case found of
            Some r \<Rightarrow> bnd (findUserById (oc_userId r)) (\<lambda>u. loginCodeVerifyFailed (subject_of u (u_sessionGeneration u)))
          | None \<Rightarrow> ret ()) (\<lambda>_.
     throw (BadRequest (Some LOGIN_CODE_INVALID)))))"

definition verifyCode :: "libraries \<Rightarrow> string \<Rightarrow> string \<Rightarrow> string \<Rightarrow> (token_pair \<times> safe_user) service" where
  "verifyCode L sid phone code =
     bnd (assertNotBlocked phone) (\<lambda>_.
     bnd (find_newest w_login_codes unscoped (live_for phone)) (\<lambda>found.
     bnd (asks w_now) (\<lambda>now.
     bnd (login_setting lc_maxAttempts) (\<lambda>maxAttempts.
     let result = verifyRecord (lib_sha L) now (map_option as_otp_record found) code maxAttempts
     in if result \<noteq> MATCH then refuse_code phone found result
        else bnd (demand InternalError found) (\<lambda>record.
             bnd (findUserById (oc_userId record)) (\<lambda>holder.
             bnd (login_setting lc_maxAdminSessions) (\<lambda>cap.
             bnd (transaction (
               bnd (find_and_update w_login_codes w_login_codes_update oc_id unscoped (oc_id record) (\<lambda>_. True)
                      (\<lambda>r. r\<lparr>oc_consumedAt := Some now\<rparr>)) (\<lambda>_.
               open_admin_session holder sid cap))) (\<lambda>_.
             bnd (clearOnSuccess phone) (\<lambda>_.
             bnd (redis_del [LoginCodeText (u_id holder)]) (\<lambda>_.
             issueAdminCodeSession L holder sid))))))))))"

section \<open>Password recovery\<close>

definition checkRateLimit :: "string \<Rightarrow> unit service" where
  "checkRateLimit phone =
     bnd (login_setting lc_resetWindowMinutes) (\<lambda>windowMinutes.
     bnd (login_setting lc_resetMaxRequests) (\<lambda>maxRequests.
     bnd (count_in_window (ResetRate phone) (windowMinutes * 60)) (\<lambda>count.
     if count > maxRequests
     then bnd (redis_ttl (ResetRate phone)) (\<lambda>ttl. throw (TooManyRequests (Some RESET_RATE_LIMITED) (max 1 ttl)))
     else ret ())))"

definition new_reset :: "one_time_code \<Rightarrow> password_reset" where
  "new_reset r = one_time_code.extend r \<lparr>pr_verifiedAt = None, pr_resetTokenHash = None\<rparr>"

definition requestReset :: "libraries \<Rightarrow> (int \<Rightarrow> string) \<Rightarrow> string \<Rightarrow> string \<Rightarrow> string \<Rightarrow> code_offer service" where
  "requestReset L shown code salt phone =
     bnd (checkRateLimit phone) (\<lambda>_.
     bnd (login_setting lc_resetExpiryMinutes) (\<lambda>expiryMinutes.
     bnd (login_setting lc_resetMaxAttempts) (\<lambda>maxAttempts.
     let response = \<lparr>co_expiresInMinutes = expiryMinutes, co_attemptsAllowed = maxAttempts\<rparr>
     in bnd (run_unscoped (
          bnd (findByPhoneForAuth phone) (\<lambda>mobile.
          case mobile of Some u \<Rightarrow> ret (Some u) | None \<Rightarrow> findSingleActiveAdminByPhone phone))) (\<lambda>found.
     case found of
       None \<Rightarrow> ret response
     | Some holder \<Rightarrow>
         bnd (issueCode L code salt (ResetCodeText (u_id holder)) expiryMinutes) (\<lambda>record.
         bnd (delete_many w_resets_update unscoped (unconsumed (u_id holder))) (\<lambda>_.
         bnd fresh_id (\<lambda>i.
         bnd (asks w_now) (\<lambda>now.
         bnd (insert_doc w_resets_update (new_reset (new_code i (u_id holder) phone now record))) (\<lambda>_.
         bnd (send_sms L phone (sms_text ''password reset'' code (shown expiryMinutes))) (\<lambda>_.
         bnd (recoveryRequested (subject_of holder (u_sessionGeneration holder))) (\<lambda>_.
         ret response)))))))))))"

definition update_reset :: "oid \<Rightarrow> (password_reset \<Rightarrow> password_reset) \<Rightarrow> password_reset option service" where
  "update_reset i f = find_and_update w_resets w_resets_update oc_id unscoped i (\<lambda>_. True) f"

definition verifyReset :: "libraries \<Rightarrow> string \<Rightarrow> string \<Rightarrow> string \<Rightarrow> string service" where
  "verifyReset L resetToken phone code =
     bnd (find_newest w_resets unscoped (live_for phone)) (\<lambda>found.
     bnd (asks w_now) (\<lambda>now.
     bnd (login_setting lc_resetMaxAttempts) (\<lambda>maxAttempts.
     let result = verifyRecord (lib_sha L) now (map_option as_otp_record found) code maxAttempts
     in bnd (case found of
               Some r \<Rightarrow>
                 if result = MISMATCH \<or> result = LOCKED_OUT
                 then bnd (if result = MISMATCH then bnd (update_reset (oc_id r) more_attempts) (\<lambda>_. ret ()) else ret ()) (\<lambda>_.
                      bnd (findUserById (oc_userId r)) (\<lambda>u.
                      recoveryVerifyFailed (subject_of u (u_sessionGeneration u))))
                 else ret ()
             | None \<Rightarrow> ret ()) (\<lambda>_.
        bnd (guard (result = MATCH) (BadRequest (Some RESET_CODE_INVALID))) (\<lambda>_.
        bnd (demand InternalError found) (\<lambda>record.
        bnd (update_reset (oc_id record)
               (\<lambda>r. r\<lparr>pr_verifiedAt := Some now, pr_resetTokenHash := Some (lib_sha L resetToken)\<rparr>)) (\<lambda>_.
        bnd (redis_del [ResetCodeText (oc_userId record)]) (\<lambda>_.
        ret resetToken))))))))"

definition completeReset :: "libraries \<Rightarrow> string \<Rightarrow> string \<Rightarrow> unit service" where
  "completeReset L resetToken newPassword =
     bnd (find_first w_resets unscoped
            (\<lambda>r. pr_resetTokenHash r = Some (lib_sha L resetToken) \<and> oc_consumedAt r = None)) (\<lambda>found.
     bnd (demand (BadRequest (Some RESET_CODE_INVALID)) found) (\<lambda>record.
     bnd (asks w_now) (\<lambda>now.
     bnd (guard (pr_verifiedAt record \<noteq> None \<and> now < oc_expiresAt record) (BadRequest (Some RESET_CODE_INVALID))) (\<lambda>_.
     transaction (
       bnd (revokeAndSetPassword (oc_userId record) (lib_hash L newPassword)) (\<lambda>user.
       bnd (update_reset (oc_id record) (\<lambda>r. r\<lparr>oc_consumedAt := Some now\<rparr>)) (\<lambda>_.
       revoked (subject_of user (u_sessionGeneration user)) PASSWORD_RESET)))))))"

section \<open>Changing a phone number\<close>

definition PHONE_MAX_ATTEMPTS :: nat where
  "PHONE_MAX_ATTEMPTS = 5"

definition requestVerification ::
  "libraries \<Rightarrow> (int \<Rightarrow> string) \<Rightarrow> string \<Rightarrow> string \<Rightarrow> oid \<Rightarrow> string \<Rightarrow> (instant \<times> nat) service" where
  "requestVerification L shown code salt userId newPhone =
     bnd (run_unscoped (findAnyByPhone newPhone)) (\<lambda>holder.
     bnd (guard (case holder of None \<Rightarrow> True | Some u \<Rightarrow> u_id u = userId) (Conflict (Some PHONE_IN_USE))) (\<lambda>_.
     bnd (asks (\<lambda>s. cfg_otpExpiryMinutes (w_config s))) (\<lambda>expiryMinutes.
     bnd (issueCode L code salt (PhoneCodeText userId) expiryMinutes) (\<lambda>record.
     bnd (delete_many w_phone_codes_update unscoped (unconsumed userId)) (\<lambda>_.
     bnd fresh_id (\<lambda>i.
     bnd (asks w_now) (\<lambda>now.
     bnd (insert_doc w_phone_codes_update (new_code i userId newPhone now record)) (\<lambda>_.
     bnd (send_sms L newPhone (sms_text ''verification'' code (shown expiryMinutes))) (\<lambda>sent.
     if sent then ret (otp_expiresAt record, PHONE_MAX_ATTEMPTS)
     else bnd (delete_many w_phone_codes_update unscoped (\<lambda>r. oc_id r = i)) (\<lambda>_.
          bnd (redis_del [PhoneCodeText userId]) (\<lambda>_.
          throw (BadGateway SMS_SEND_FAILED))))))))))))"

definition ceil_seconds :: "int \<Rightarrow> int" where
  "ceil_seconds ms = - ((- ms) div 1000)"

definition confirmVerification :: "libraries \<Rightarrow> oid \<Rightarrow> string \<Rightarrow> user service" where
  "confirmVerification L userId code =
     bnd (find_newest w_phone_codes unscoped (unconsumed userId)) (\<lambda>found.
     bnd (asks w_now) (\<lambda>now.
     let result = verifyRecord (lib_sha L) now (map_option as_otp_record found) code PHONE_MAX_ATTEMPTS
     in case found of
          None \<Rightarrow> throw Unauthorized
        | Some record \<Rightarrow>
            bnd (if result = MISMATCH
                 then bnd (find_and_update w_phone_codes w_phone_codes_update oc_id unscoped (oc_id record) (\<lambda>_. True) more_attempts) (\<lambda>_. ret ())
                 else ret ()) (\<lambda>_.
            bnd (guard (result \<noteq> LOCKED_OUT) (TooManyRequests None (max 1 (ceil_seconds (oc_expiresAt record - now))))) (\<lambda>_.
            bnd (guard (result = MATCH) Unauthorized) (\<lambda>_.
            bnd (find_and_update w_phone_codes w_phone_codes_update oc_id unscoped (oc_id record) (\<lambda>_. True)
                   (\<lambda>r. r\<lparr>oc_consumedAt := Some now\<rparr>)) (\<lambda>_.
            bnd (redis_del [PhoneCodeText userId]) (\<lambda>_.
            updateUser userId (no_patch\<lparr>up_phone := Some (oc_phone record)\<rparr>))))))))"

end
