(* ===== verification/Account_Endpoints.thy ===== *)
theory Account_Endpoints
  imports Companies Stations Auth Endpoints
begin

text \<open>
  The HTTP layer over accounts: \<open>modules/users/users.controller.ts\<close>,
  \<open>modules/users/credit-limit-requests.controller.ts\<close> and \<open>modules/auth/auth.controller.ts\<close>.  An endpoint
  that is public has no acting user and runs under the anonymous scope.  A profile picture is a file id the
  storage has returned.
\<close>

section \<open>Users\<close>

record create_user_dto =
  cu_role :: user_role
  cu_email :: string
  cu_password :: string
  cu_fullName :: string
  cu_phone :: string
  cu_station :: "station_fields option"

definition embedded_station :: "station_fields \<Rightarrow> user_station" where
  "embedded_station dto = \<lparr>us_name = sfd_name dto, us_regionCode = sfd_regionCode dto,
     us_governorateCode = sfd_governorateCode dto, us_location = sfd_location dto,
     us_addressText = or_else (sfd_addressText dto) ''''\<rparr>"

definition new_account :: "create_user_dto \<Rightarrow> oid \<Rightarrow> new_user" where
  "new_account dto companyId = \<lparr>nu_companyId = Some companyId, nu_role = cu_role dto, nu_email = cu_email dto,
     nu_password = cu_password dto, nu_fullName = cu_fullName dto, nu_phone = cu_phone dto,
     nu_station = (if cu_role dto = CLIENT then map_option embedded_station (cu_station dto) else None)\<rparr>"

definition users_create :: "(string \<Rightarrow> string) \<Rightarrow> authenticated_user \<Rightarrow> create_user_dto \<Rightarrow> user service" where
  "users_create bcrypt user dto = endpoint [FUEL_COMPANY_ADMIN, TRANSPORT_COMPANY_ADMIN] user (
     bnd (demand (BadRequest None) (au_companyId user)) (\<lambda>companyId.
     bnd (guard (au_role user = FUEL_COMPANY_ADMIN \<longrightarrow> cu_role dto = CLIENT) (Forbidden None)) (\<lambda>_.
     bnd (guard (au_role user = TRANSPORT_COMPANY_ADMIN \<longrightarrow> cu_role dto = DRIVER) (Forbidden None)) (\<lambda>_.
     bnd (guard (cu_role dto = CLIENT \<longrightarrow> cu_station dto \<noteq> None) (BadRequest None)) (\<lambda>_.
     bnd (guard (cu_role dto = CLIENT \<longrightarrow> (case cu_station dto of None \<Rightarrow> True
            | Some st \<Rightarrow> governorateBelongsToRegion (sfd_governorateCode st) (sfd_regionCode st))) (BadRequest None)) (\<lambda>_.
     bnd (create_user bcrypt (new_account dto companyId)) (\<lambda>created.
     bnd (case (if cu_role dto = CLIENT then cu_station dto else None) of
            None \<Rightarrow> ret () | Some st \<Rightarrow> bnd (createStation (u_id created) companyId st) (\<lambda>_. ret ())) (\<lambda>_.
     ret created))))))))"

definition users_findAll :: "authenticated_user \<Rightarrow> user_role option \<Rightarrow> string option \<Rightarrow> oid option \<Rightarrow> user list service" where
  "users_findAll user role isActive companyId =
     endpoint [FUEL_COMPANY_ADMIN, TRANSPORT_COMPANY_ADMIN, SUPER_ADMIN] user (
     findAllUsers \<lparr>uf_role = role,
       uf_isActive = (case isActive of None \<Rightarrow> None | Some t \<Rightarrow> if t = '''' then None else Some (t = ''true'')),
       uf_companyId = companyId\<rparr>)"

record credit_standing =
  crs_creditLimit :: "rat option"
  crs_consumed :: "rat option"
  crs_available :: "rat option"

definition no_standing :: credit_standing where
  "no_standing = \<lparr>crs_creditLimit = None, crs_consumed = None, crs_available = None\<rparr>"

definition standing_of :: "oid \<Rightarrow> rat \<Rightarrow> credit_standing service" where
  "standing_of clientId creditLimit =
     bnd (getAvailableCredit clientId) (\<lambda>available.
     ret \<lparr>crs_creditLimit = Some creditLimit, crs_consumed = Some (roundCurrency (creditLimit - available)),
          crs_available = Some available\<rparr>)"

definition users_myCredit :: "authenticated_user \<Rightarrow> credit_standing service" where
  "users_myCredit user = endpoint [CLIENT] user (
     bnd (findUserById (au_userId user)) (\<lambda>client.
     case u_creditLimit client of None \<Rightarrow> ret no_standing | Some l \<Rightarrow> standing_of (au_userId user) l))"

definition users_createLimitRequest :: "authenticated_user \<Rightarrow> rat \<Rightarrow> credit_limit_request service" where
  "users_createLimitRequest user requestedAmount = endpoint [CLIENT] user (
     bnd (demand (BadRequest None) (au_companyId user)) (\<lambda>companyId.
     createLimitRequest (au_userId user) companyId requestedAmount))"

definition users_findMyLimitRequests :: "authenticated_user \<Rightarrow> credit_limit_request list service" where
  "users_findMyLimitRequests user = endpoint [CLIENT] user (findLimitRequestsForClient (au_userId user))"

definition users_findMyLitreBalances :: "authenticated_user \<Rightarrow> litre_balance list service" where
  "users_findMyLitreBalances user = endpoint [CLIENT] user (listBalancesForClient (au_userId user))"

definition users_requestPhoneVerification ::
  "libraries \<Rightarrow> (int \<Rightarrow> string) \<Rightarrow> string \<Rightarrow> string \<Rightarrow> authenticated_user \<Rightarrow> string \<Rightarrow> (instant \<times> nat) service" where
  "users_requestPhoneVerification L shown code salt user newPhone =
     endpoint [] user (requestVerification L shown code salt (au_userId user) newPhone)"

definition users_confirmPhoneVerification :: "libraries \<Rightarrow> authenticated_user \<Rightarrow> string \<Rightarrow> user service" where
  "users_confirmPhoneVerification L user code = endpoint [] user (confirmVerification L (au_userId user) code)"

definition require_client :: "oid \<Rightarrow> user service" where
  "require_client i =
     bnd (findUserById i) (\<lambda>target. bnd (guard (u_role target = CLIENT) (BadRequest None)) (\<lambda>_. ret target))"

definition users_findClientStations :: "authenticated_user \<Rightarrow> oid \<Rightarrow> station list service" where
  "users_findClientStations user i = endpoint [FUEL_COMPANY_ADMIN] user (
     bnd (require_client i) (\<lambda>_. findForClientAsAdmin i))"

definition users_createClientStation :: "authenticated_user \<Rightarrow> oid \<Rightarrow> station_fields \<Rightarrow> station service" where
  "users_createClientStation user i dto = endpoint [FUEL_COMPANY_ADMIN] user (
     bnd (require_client i) (\<lambda>target.
     bnd (guard (governorateBelongsToRegion (sfd_governorateCode dto) (sfd_regionCode dto)) (BadRequest None)) (\<lambda>_.
     createStation i (the (u_companyId target)) dto)))"

definition own_or_admin :: "authenticated_user \<Rightarrow> oid \<Rightarrow> bool" where
  "own_or_admin user i \<longleftrightarrow>
     au_role user \<in> {FUEL_COMPANY_ADMIN, TRANSPORT_COMPANY_ADMIN, SUPER_ADMIN} \<or> au_userId user = i"

definition users_findOne :: "authenticated_user \<Rightarrow> oid \<Rightarrow> (user \<times> string option) service" where
  "users_findOne user i = endpoint [] user (
     bnd (guard (own_or_admin user i) (Forbidden None)) (\<lambda>_.
     bnd (findUserById i) (\<lambda>target.
     case (if u_role target = DRIVER then u_companyId target else None) of
       None \<Rightarrow> ret (target, None)
     | Some c \<Rightarrow> bnd (findNameById c) (\<lambda>companyName. ret (target, companyName)))))"

definition users_update :: "authenticated_user \<Rightarrow> oid \<Rightarrow> string option \<Rightarrow> string option \<Rightarrow> user service" where
  "users_update user i fullName phone = endpoint [] user (
     bnd (guard (own_or_admin user i) (Forbidden None)) (\<lambda>_.
     updateUser i (no_patch\<lparr>up_fullName := fullName, up_phone := phone\<rparr>)))"

definition users_activate :: "authenticated_user \<Rightarrow> oid \<Rightarrow> user service" where
  "users_activate user i = endpoint [FUEL_COMPANY_ADMIN, TRANSPORT_COMPANY_ADMIN] user (setActive i True)"

definition deactivateUser :: "oid \<Rightarrow> user service" where
  "deactivateUser i =
     bnd (transaction (
       bnd (setActive i False) (\<lambda>_.
       bnd (revokeAllSessions i (Some ACCOUNT_DEACTIVATED)) (\<lambda>target.
       bnd (releaseActiveOrderOnDeactivation i) (\<lambda>_.
       bnd (revoked (subject_of target (u_sessionGeneration target)) ACCOUNT_DEACTIVATED) (\<lambda>_.
       ret target)))))) (\<lambda>target.
     bnd (asks w_now) (\<lambda>now.
     bnd (emit (SessionRevokedEvent i ACCOUNT_DEACTIVATED now)) (\<lambda>_. ret target)))"

definition users_deactivate :: "authenticated_user \<Rightarrow> oid \<Rightarrow> user service" where
  "users_deactivate user i = endpoint [FUEL_COMPANY_ADMIN, TRANSPORT_COMPANY_ADMIN] user (deactivateUser i)"

definition users_getCreditLimit :: "authenticated_user \<Rightarrow> oid \<Rightarrow> credit_standing service" where
  "users_getCreditLimit user i = endpoint [FUEL_COMPANY_ADMIN] user (
     bnd (require_client i) (\<lambda>target.
     case u_creditLimit target of None \<Rightarrow> ret no_standing | Some l \<Rightarrow> standing_of i l))"

definition users_setCreditLimit :: "authenticated_user \<Rightarrow> oid \<Rightarrow> rat \<Rightarrow> credit_standing service" where
  "users_setCreditLimit user i creditLimit = endpoint [FUEL_COMPANY_ADMIN] user (
     bnd (require_client i) (\<lambda>_.
     bnd (setCreditLimit i creditLimit) (\<lambda>updated.
     bnd (getAvailableCredit i) (\<lambda>available.
     ret \<lparr>crs_creditLimit = u_creditLimit updated,
          crs_consumed = Some (roundCurrency (or_else (u_creditLimit updated) 0 - available)),
          crs_available = Some available\<rparr>))))"

definition users_uploadProfilePicture :: "authenticated_user \<Rightarrow> oid \<Rightarrow> oid option \<Rightarrow> user service" where
  "users_uploadProfilePicture user i fileId = endpoint [] user (
     bnd (guard (own_or_admin user i) (Forbidden None)) (\<lambda>_.
     bnd (demand (BadRequest None) fileId) (\<lambda>f.
     bnd (demand (BadRequest None) (au_companyId user)) (\<lambda>_.
     updateUser i (no_patch\<lparr>up_profilePictureFileId := Some f\<rparr>)))))"

section \<open>Credit limit requests\<close>

definition limits_findForCompany :: "authenticated_user \<Rightarrow> limit_request_state option \<Rightarrow> credit_limit_request list service" where
  "limits_findForCompany user state = endpoint [FUEL_COMPANY_ADMIN] user (findLimitRequestsForCompany state)"

definition limits_resolve :: "authenticated_user \<Rightarrow> oid \<Rightarrow> bool \<Rightarrow> rat option \<Rightarrow> credit_limit_request service" where
  "limits_resolve user i accept grantedAmount = endpoint [FUEL_COMPANY_ADMIN] user (
     bnd (resolveLimitRequest i (au_userId user) accept grantedAmount) (\<lambda>resolved.
     bnd (notify (clr_companyId resolved) (clr_clientId resolved) CREDIT_LIMIT_REQUEST_RESOLVED None) (\<lambda>_.
     ret resolved)))"

section \<open>Authentication\<close>

definition public :: "'a service \<Rightarrow> 'a service" where
  "public handler = run_unscoped handler"

definition auth_login :: "libraries \<Rightarrow> string \<Rightarrow> login_dto \<Rightarrow> (token_pair \<times> safe_user) service" where
  "auth_login L sid dto = public (login L sid dto)"

definition auth_requestLoginCode ::
  "libraries \<Rightarrow> (int \<Rightarrow> string) \<Rightarrow> string \<Rightarrow> string \<Rightarrow> string \<Rightarrow> string \<Rightarrow> login_challenge option \<Rightarrow> code_offer service" where
  "auth_requestLoginCode L shown code salt seed phone challenge = public (requestCode L shown code salt seed phone challenge)"

definition auth_verifyLoginCode :: "libraries \<Rightarrow> string \<Rightarrow> string \<Rightarrow> string \<Rightarrow> (token_pair \<times> safe_user) service" where
  "auth_verifyLoginCode L sid phone code = public (verifyCode L sid phone code)"

definition auth_refresh :: "libraries \<Rightarrow> string \<Rightarrow> token_pair service" where
  "auth_refresh L refreshToken = public (refresh L refreshToken)"

definition auth_logout :: "authenticated_user \<Rightarrow> unit service" where
  "auth_logout user = endpoint [] user (logout user)"

definition auth_requestPasswordReset ::
  "libraries \<Rightarrow> (int \<Rightarrow> string) \<Rightarrow> string \<Rightarrow> string \<Rightarrow> string \<Rightarrow> code_offer service" where
  "auth_requestPasswordReset L shown code salt phone = public (requestReset L shown code salt phone)"

definition auth_verifyResetCode :: "libraries \<Rightarrow> string \<Rightarrow> string \<Rightarrow> string \<Rightarrow> string service" where
  "auth_verifyResetCode L resetToken phone code = public (verifyReset L resetToken phone code)"

definition auth_completePasswordReset :: "libraries \<Rightarrow> string \<Rightarrow> string \<Rightarrow> unit service" where
  "auth_completePasswordReset L resetToken newPassword = public (completeReset L resetToken newPassword)"

definition resolveStation :: "user \<Rightarrow> user_station option service" where
  "resolveStation fullUser =
     (if u_role fullUser \<noteq> CLIENT then ret None
      else bnd (findDefaultForClient (u_id fullUser)) (\<lambda>defaultStation.
           ret (case defaultStation of
             None \<Rightarrow> u_station fullUser
           | Some d \<Rightarrow> Some \<lparr>us_name = stn_name d, us_regionCode = stn_regionCode d,
               us_governorateCode = stn_governorateCode d, us_location = stn_location d,
               us_addressText = stn_addressText d\<rparr>)))"

record me_reply =
  me_id :: oid
  me_role :: user_role
  me_companyId :: "oid option"
  me_fullName :: string
  me_email :: string
  me_phone :: string
  me_isActive :: bool
  me_station :: "user_station option"
  me_creditLimit :: "rat option"

definition auth_me :: "authenticated_user \<Rightarrow> me_reply service" where
  "auth_me user = endpoint [] user (
     bnd (findUserById (au_userId user)) (\<lambda>fullUser.
     bnd (resolveStation fullUser) (\<lambda>station.
     ret \<lparr>me_id = u_id fullUser, me_role = u_role fullUser, me_companyId = u_companyId fullUser,
          me_fullName = u_fullName fullUser, me_email = u_email fullUser, me_phone = u_phone fullUser,
          me_isActive = u_isActive fullUser, me_station = station, me_creditLimit = u_creditLimit fullUser\<rparr>)))"

record operator_account =
  oa_fullName :: string
  oa_email :: string
  oa_phone :: string
  oa_activeSessionCount :: nat
  oa_lastSignInAt :: "instant option"

definition auth_meAccount :: "authenticated_user \<Rightarrow> operator_account service" where
  "auth_meAccount user = endpoint [SUPER_ADMIN] user (
     bnd (findUserById (au_userId user)) (\<lambda>fullUser.
     bnd (lastSignInAt (au_userId user)) (\<lambda>at_time.
     ret \<lparr>oa_fullName = u_fullName fullUser, oa_email = u_email fullUser, oa_phone = u_phone fullUser,
          oa_activeSessionCount = length (u_activeSessions fullUser), oa_lastSignInAt = at_time\<rparr>)))"

end
