(* ===== verification/Sessions.thy ===== *)
theory Sessions
  imports Account_Endpoints
begin

text \<open>
  Sessions over time.  The locale \<open>account_frame\<close> is the contract of a state predicate that every write to
  an account respects: a write may raise the session generation but not lower it, and may leave no more open
  sessions than the cap.  Every operation of the account services keeps such a predicate, proved once; the step
  relation \<open>account_step\<close> composes the operations in any order with the passing of time, the acting scope and
  outages of the counter store, and the predicates that matter are interpreted.
\<close>

definition account_write :: "nat \<Rightarrow> (user \<Rightarrow> user) \<Rightarrow> bool" where
  "account_write cap f \<longleftrightarrow> (\<forall>u. u_id (f u) = u_id u \<and> u_role (f u) = u_role u \<and>
     u_sessionGeneration u \<le> u_sessionGeneration (f u) \<and>
     length (u_activeSessions (f u)) \<le> max cap (length (u_activeSessions u)))"

abbreviation session_cap :: "world \<Rightarrow> nat" where
  "session_cap s \<equiv> lc_maxAdminSessions (cfg_login (w_config s))"

locale account_frame =
  fixes P :: "world \<Rightarrow> bool" and cap :: nat
  assumes fr_cap: "P s \<Longrightarrow> session_cap s = cap"
    and fr_user: "P s \<Longrightarrow> account_write cap f \<Longrightarrow> P (w_users_update (upd_by u_id i f) s)"
    and fr_new: "P s \<Longrightarrow> u_id u = w_next_id s \<Longrightarrow> u_sessionGeneration u = 0 \<Longrightarrow> u_activeSessions u = [] \<Longrightarrow>
      P (w_users_update (\<lambda>us. us @ [u]) (s\<lparr>w_next_id := Suc (w_next_id s)\<rparr>))"
    and fr_next: "P s \<Longrightarrow> P (s\<lparr>w_next_id := Suc (w_next_id s)\<rparr>)"
    and fr_session_events: "P s \<Longrightarrow> P (w_session_events_update g1 s)"
    and fr_login_codes: "P s \<Longrightarrow> P (w_login_codes_update g2 s)"
    and fr_resets: "P s \<Longrightarrow> P (w_resets_update g3 s)"
    and fr_phone_codes: "P s \<Longrightarrow> P (w_phone_codes_update g4 s)"
    and fr_limits: "P s \<Longrightarrow> P (w_limit_requests_update g5 s)"
    and fr_companies: "P s \<Longrightarrow> P (w_companies_update g6 s)"
    and fr_redis: "P s \<Longrightarrow> P (s\<lparr>w_redis := r\<rparr>)"
    and fr_up: "P s \<Longrightarrow> P (s\<lparr>w_redis_up := b\<rparr>)"
    and fr_emits: "P s \<Longrightarrow> P (s\<lparr>w_emits := es\<rparr>)"
    and fr_scope: "P s \<Longrightarrow> P (s\<lparr>w_scope := ctx\<rparr>)"
    and fr_clock: "P s \<Longrightarrow> P (s\<lparr>w_now := t\<rparr>)"
    and fr_rollback: "P s \<Longrightarrow> P s' \<Longrightarrow> P (rollback s s')"
begin

lemma keeps_transaction: "keeps P m \<Longrightarrow> keeps P (transaction m)"
  by (rule keepsI, rename_tac s r s', case_tac r)
    (auto simp: prog_inv dest!: keepsD [of P m] intro: fr_rollback)

lemma keeps_unscoped: "keeps P m \<Longrightarrow> keeps P (run_unscoped m)"
  by (rule keeps_run_unscoped) (assumption, rule fr_scope)

lemma keeps_setting: "(\<And>s. P s \<Longrightarrow> keeps P (f (g s))) \<Longrightarrow> keeps P (bnd (asks g) f)"
  by (rule keepsI) (auto simp: bnd_def asks_def dest: keepsD)

lemma keeps_store: "keeps P (redis_get k)" "keeps P (redis_set k v n)" "keeps P (redis_set_nx k v n)"
  "keeps P (redis_del ks)" "keeps P (redis_incr k)" "keeps P (redis_expire k n)" "keeps P (redis_ttl k)"
  by (rule keeps_redis, rule fr_redis, assumption)+

lemma keeps_update_user: "account_write cap f \<Longrightarrow> keeps P (update_user i f)"
  unfolding update_user_def by (intro keeps_find_and_update fr_user)

lemma keeps_write_event: "keeps P (write_event subject type cause)"
  unfolding write_event_def by (intro keeps_bnd keeps_basic keeps_insert_doc fr_session_events)

lemma keeps_audit: "keeps P (signedIn u)" "keeps P (signedOut u)" "keeps P (revoked u c)" "keeps P (recoveryRequested u)"
  "keeps P (recoveryVerifyFailed u)" "keeps P (loginCodeRequested u)" "keeps P (loginCodeVerifyFailed u)"
  by (simp_all add: signedIn_def signedOut_def revoked_def recoveryRequested_def recoveryVerifyFailed_def
      loginCodeRequested_def loginCodeVerifyFailed_def keeps_write_event)

lemma keeps_lookups: "keeps P (findByEmailForAuth e)" "keeps P (findByPhoneForAuth p)" "keeps P (findSingleActiveAdminByPhone p)"
  "keeps P (findAnyByPhone p)" "keeps P (findUserById i)" "keeps P (loadActiveUser i)" "keeps P (validateActiveSession i)"
proof -
  show "keeps P (findByEmailForAuth e)" "keeps P (findByPhoneForAuth p)" "keeps P (findSingleActiveAdminByPhone p)"
    "keeps P (findAnyByPhone p)" "keeps P (findUserById i)"
    unfolding findByEmailForAuth_def findByPhoneForAuth_def findSingleActiveAdminByPhone_def findAnyByPhone_def
      findUserById_def Let_def by (intro keeps_bnd keeps_basic keeps_reads)+
  show load: "keeps P (loadActiveUser i)"
    unfolding loadActiveUser_def getScopingInfo_def by (intro keeps_bnd keeps_basic keeps_reads keeps_option keeps_if)
  then show "keeps P (validateActiveSession i)"
    unfolding validateActiveSession_def by (intro keeps_bnd keeps_basic)
qed

lemma writes: "account_write cap (set_password h)" "account_write cap (end_sessions c)" "account_write cap (pull_session k)"
  "account_write cap (\<lambda>u. u\<lparr>u_isAvailable := True, u_activeOrderId := None\<rparr>)" "account_write cap (\<lambda>u. u\<lparr>u_isActive := b\<rparr>)"
  "account_write cap (\<lambda>u. u\<lparr>u_creditLimit := l\<rparr>)" "account_write cap (apply_patch d)"
  "account_write cap (\<lambda>u. u\<lparr>u_activeSessions := newest cap xs\<rparr>)"
  by (auto simp: account_write_def set_password_def end_sessions_def pull_session_def apply_patch_def newest_def
      intro: le_trans [OF length_filter_le])

lemma keeps_sessions: "keeps P (revokeAndSetPassword i h)" "keeps P (revokeAllSessions i c)" "keeps P (openSession i k cap)"
  "keeps P (closeSession i k)" "keeps P (releaseActiveOrderOnDeactivation i)" "keeps P (setActive i b)" "keeps P (setCreditLimit i l)"
  "keeps P (updateUser i d)"
  unfolding revokeAndSetPassword_def revokeAllSessions_def openSession_def closeSession_def releaseActiveOrderOnDeactivation_def
    setActive_def setCreditLimit_def updateUser_def Let_def
  by (intro keeps_bnd keeps_basic keeps_reads keeps_update_user keeps_find_and_update fr_user writes; assumption)+

lemma keeps_setStatus: "keeps P (setStatus i k)"
  unfolding setStatus_def update_company_def by (intro keeps_bnd keeps_basic keeps_find_and_update fr_companies)

lemma keeps_create_user: "keeps P (create_user bcrypt d)"
proof (rule keepsI)
  fix s r s' assume s: "P s" and run: "create_user bcrypt d s = (r, s')"
  show "P s'"
  proof (cases r)
    case (Inl e)
    with run s show ?thesis by (auto simp: create_user_def prog_inv Let_def intro: fr_next)
  next
    case (Inr u)
    with run s show ?thesis
      by (auto simp: create_user_def prog_inv Let_def user_document_def intro!: fr_new)
  qed
qed

lemma keeps_closed: "keeps P m \<Longrightarrow> keeps P (closed_command m)"
  unfolding closed_command_def by (intro keeps_try_catch keeps_basic)

lemma keeps_abuse: "keeps P (assertNotBlocked p)" "keeps P (registerCodeRequest p)" "keeps P (challengeRequired p)"
  "keeps P (recordVerificationFailure p)" "keeps P (clearOnSuccess p)" "keeps P (checkRateLimit p)"
  unfolding assertNotBlocked_def registerCodeRequest_def challengeRequired_def recordVerificationFailure_def clearOnSuccess_def
    checkRateLimit_def count_in_window_def rateLimited_def
  by (intro keeps_bnd keeps_basic keeps_if keeps_closed keeps_store)+

lemma keeps_challenge: "keeps P (issueChallenge seed)" "keeps P (verifyChallenge L seed nonce)"
  unfolding issueChallenge_def verifyChallenge_def
  by (intro keeps_bnd keeps_basic keeps_if keeps_closed keeps_store keeps_try_catch)+

lemma keeps_codes: "keeps P (issueCode L c t k n)" "keeps P (send_sms L p m)"
proof -
  show "keeps P (issueCode L c t k n)" unfolding issueCode_def by (intro keeps_bnd keeps_basic keeps_store)
  show "keeps P (send_sms L p m)"
    unfolding send_sms_def by (intro keeps_bnd keeps_basic keeps_if keeps_emit fr_emits)
qed

lemma keeps_admin_session: "keeps P (open_admin_session u k cap)"
  unfolding open_admin_session_def Let_def by (intro keeps_bnd keeps_sessions keeps_for_each keeps_audit)

lemma keeps_login: "keeps P (login L sid dto)"
proof -
  have "keeps P (adminLogin L sid u)" for u
    unfolding adminLogin_def
  proof (rule keeps_setting)
    fix s assume "P s"
    then show "keeps P (bnd (transaction (open_admin_session u sid (session_cap s)))
        (\<lambda>_. ret (issueTokenPair L u (u_sessionGeneration u) (Some sid), toSafeUser u)))"
      by (simp only: fr_cap) (intro keeps_bnd keeps_transaction keeps_admin_session keeps_basic)
  qed
  moreover have "keeps P (mobileLogin L u)" for u
    unfolding mobileLogin_def Let_def
    by (intro keeps_bnd keeps_transaction keeps_sessions keeps_audit keeps_basic keeps_emit fr_emits)
  ultimately show ?thesis
    unfolding login_def by (intro keeps_bnd keeps_basic keeps_option keeps_if keeps_lookups)
qed

lemma keeps_leaving: "keeps P (logout a)" "keeps P (refresh L t)" "keeps P (deactivateUser i)"
proof -
  show "keeps P (logout a)"
    unfolding logout_def by (intro keeps_transaction keeps_option keeps_bnd keeps_sessions keeps_audit)
  show "keeps P (refresh L t)"
    unfolding refresh_def by (intro keeps_bnd keeps_basic keeps_lookups)
  show "keeps P (deactivateUser i)"
    unfolding deactivateUser_def by (intro keeps_bnd keeps_transaction keeps_sessions keeps_audit keeps_basic keeps_emit fr_emits)
qed

lemma keeps_requestCode: "keeps P (requestCode L shown c t seed p ch)"
proof -
  have split: "keeps P (case x of (a, b) \<Rightarrow> f a b)" if "\<And>a b. keeps P (f a b)" for x and f :: "'a \<Rightarrow> 'b \<Rightarrow> 'c service"
    using that by (cases x) simp
  show ?thesis
    unfolding requestCode_def Let_def
    by (intro keeps_bnd keeps_basic keeps_abuse keeps_option keeps_if keeps_challenge split keeps_unscoped keeps_lookups keeps_codes
        keeps_delete_many keeps_fresh_id keeps_insert_doc keeps_audit fr_login_codes fr_next)
qed

lemma keeps_verifyCode: "keeps P (verifyCode L sid p c)"
proof -
  have refuse: "keeps P (refuse_code p found x :: (token_pair \<times> safe_user) service)" for found x
    unfolding refuse_code_def
    by (intro keeps_bnd keeps_basic keeps_abuse keeps_option keeps_if keeps_find_and_update keeps_lookups keeps_audit fr_login_codes)
  have open_it: "keeps P (bnd (login_setting lc_maxAdminSessions) (\<lambda>n. bnd (transaction (bnd (find_and_update w_login_codes
      w_login_codes_update oc_id unscoped i (\<lambda>_. True) f) (\<lambda>_. open_admin_session u sid n))) (\<lambda>_. m)))"
    if "keeps P m" for i f u and m :: "(token_pair \<times> safe_user) service"
  proof (rule keeps_setting)
    fix s assume "P s"
    then show "keeps P (bnd (transaction (bnd (find_and_update w_login_codes w_login_codes_update oc_id unscoped i (\<lambda>_. True) f)
        (\<lambda>_. open_admin_session u sid (session_cap s)))) (\<lambda>_. m))"
      by (simp only: fr_cap)
        (intro keeps_bnd keeps_transaction keeps_admin_session keeps_find_and_update fr_login_codes that)
  qed
  show ?thesis
    unfolding verifyCode_def issueAdminCodeSession_def Let_def
    by (intro keeps_bnd keeps_basic keeps_abuse keeps_reads keeps_if refuse open_it keeps_lookups keeps_store)
qed

lemma keeps_recovery: "keeps P (requestReset L shown c t p)" "keeps P (verifyReset L k p c)" "keeps P (completeReset L k pw)"
proof -
  show "keeps P (requestReset L shown c t p)"
    unfolding requestReset_def Let_def
    by (intro keeps_bnd keeps_basic keeps_abuse keeps_option keeps_unscoped keeps_lookups keeps_codes
        keeps_delete_many keeps_fresh_id keeps_insert_doc keeps_audit fr_resets fr_next)
  show "keeps P (verifyReset L k p c)"
    unfolding verifyReset_def update_reset_def Let_def
    by (intro keeps_bnd keeps_basic keeps_option keeps_if keeps_lookups keeps_reads keeps_find_and_update keeps_audit
        keeps_store fr_resets)
  show "keeps P (completeReset L k pw)"
    unfolding completeReset_def update_reset_def Let_def
    by (intro keeps_bnd keeps_basic keeps_reads keeps_find_and_update keeps_audit keeps_transaction keeps_sessions fr_resets)
qed

lemma keeps_phone: "keeps P (requestVerification L shown c t i p)" "keeps P (confirmVerification L i c)"
proof -
  show "keeps P (requestVerification L shown c t i p)"
    unfolding requestVerification_def
    by (intro keeps_bnd keeps_basic keeps_if keeps_unscoped keeps_lookups keeps_codes
        keeps_delete_many keeps_fresh_id keeps_insert_doc keeps_store fr_phone_codes fr_next)
  show "keeps P (confirmVerification L i c)"
    unfolding confirmVerification_def Let_def
    by (intro keeps_bnd keeps_basic keeps_option keeps_if keeps_reads keeps_find_and_update keeps_store keeps_sessions
        fr_phone_codes)
qed

lemma keeps_limit_requests: "keeps P (createLimitRequest i c a)" "keeps P (resolveLimitRequest i b accept g)"
proof -
  show "keeps P (createLimitRequest i c a)"
    unfolding createLimitRequest_def tenant_key_def Let_def
    by (intro keeps_bnd keeps_basic keeps_reads keeps_fresh_id keeps_insert_doc fr_limits fr_next)
  show "keeps P (resolveLimitRequest i b accept g)"
    unfolding resolveLimitRequest_def
    by (intro keeps_bnd keeps_basic keeps_if keeps_reads keeps_find_and_update keeps_transaction keeps_sessions fr_limits)
qed

end

section \<open>The steps of an account\<close>

inductive account_step :: "libraries \<Rightarrow> world \<Rightarrow> world \<Rightarrow> bool" for L where
  signs_in: "account_step L s (snd (login L sid dto s))"
| asks_code: "account_step L s (snd (requestCode L shown c t seed p ch s))"
| signs_in_by_code: "account_step L s (snd (verifyCode L sid p c s))"
| renews: "account_step L s (snd (refresh L tok s))"
| signs_out: "account_step L s (snd (logout a s))"
| asks_reset: "account_step L s (snd (requestReset L shown c t p s))"
| proves_reset: "account_step L s (snd (verifyReset L k p c s))"
| resets: "account_step L s (snd (completeReset L k pw s))"
| asks_phone: "account_step L s (snd (requestVerification L shown c t i p s))"
| changes_phone: "account_step L s (snd (confirmVerification L i c s))"
| registers: "account_step L s (snd (create_user bcrypt d s))"
| edits: "account_step L s (snd (updateUser i ch s))"
| activates: "account_step L s (snd (setActive i b s))"
| deactivates: "account_step L s (snd (deactivateUser i s))"
| asks_limit: "account_step L s (snd (createLimitRequest i cid amt s))"
| answers_limit: "account_step L s (snd (resolveLimitRequest i by acc g s))"
| suspends: "account_step L s (snd (setStatus cid st s))"
| acts_as: "account_step L s (s\<lparr>w_scope := ctx\<rparr>)"
| time_passes: "account_step L s (s\<lparr>w_now := now\<rparr>)"
| store_fails: "account_step L s (s\<lparr>w_redis_up := up\<rparr>)"

context account_frame
begin

lemma after_run: "keeps P m \<Longrightarrow> P s \<Longrightarrow> P (snd (m s))"
  by (simp add: keeps_def)

lemma account_step_keeps: "account_step L s s' \<Longrightarrow> P s \<Longrightarrow> P s'"
  by (induction rule: account_step.induct)
    (simp_all add: after_run keeps_login keeps_requestCode keeps_verifyCode keeps_leaving keeps_recovery keeps_phone
      keeps_create_user keeps_sessions keeps_limit_requests keeps_setStatus fr_scope fr_clock fr_up)

lemma account_steps_keep: "(account_step L)\<^sup>*\<^sup>* s s' \<Longrightarrow> P s \<Longrightarrow> P s'"
  by (induction rule: rtranclp_induct) (auto intro: account_step_keeps)

end

section \<open>What the steps keep\<close>

definition generations_from :: "nat \<Rightarrow> (oid \<Rightarrow> nat) \<Rightarrow> world \<Rightarrow> bool" where
  "generations_from cap m s \<longleftrightarrow> session_cap s = cap \<and> (\<forall>u \<in> set (w_users s). m (u_id u) \<le> u_sessionGeneration u) \<and>
     (\<forall>i \<ge> w_next_id s. m i = 0)"

definition sessions_within :: "nat \<Rightarrow> world \<Rightarrow> bool" where
  "sessions_within cap s \<longleftrightarrow> session_cap s = cap \<and> (\<forall>u \<in> set (w_users s). length (u_activeSessions u) \<le> cap)"

lemma account_writeD:
  "account_write cap f \<Longrightarrow> u_id (f u) = u_id u \<and> u_role (f u) = u_role u \<and> u_sessionGeneration u \<le> u_sessionGeneration (f u) \<and>
     length (u_activeSessions (f u)) \<le> max cap (length (u_activeSessions u))"
  by (simp add: account_write_def)

interpretation generations: account_frame "generations_from cap m" cap
proof unfold_locales
  fix s f i
  assume "generations_from cap m s" and f: "account_write cap f"
  then show "generations_from cap m (w_users_update (upd_by u_id i f) s)"
    by (auto simp: generations_from_def upd_by_def account_writeD [OF f] intro: le_trans [OF _ conjunct1 [OF conjunct2 [OF conjunct2 [OF account_writeD [OF f]]]]])
qed (auto simp: generations_from_def Suc_le_eq)

interpretation within: account_frame "sessions_within cap" cap
proof unfold_locales
  fix s f i
  assume "sessions_within cap s" and f: "account_write cap f"
  then show "sessions_within cap (w_users_update (upd_by u_id i f) s)"
    using account_writeD [OF f] by (auto simp: sessions_within_def upd_by_def) (metis le_trans max.absorb1)
qed (auto simp: sessions_within_def)

text \<open>A token minted for an earlier generation is worthless.\<close>

lemma loadActiveUser_found:
  assumes "loadActiveUser i s = (Inr check, s')" and "ac_user check = Some u"
  shows "get_by u_id i (w_users s) = Some u \<and> s' = s"
  using assms
  by (auto simp: loadActiveUser_def getScopingInfo_def prog_inv split: option.splits if_splits)

lemma validate_accepts:
  assumes "validateActiveSessionWithScoping p s = (Inr (u, parent), s')"
  shows "get_by u_id (jp_sub p) (w_users s) = Some u" "payload_generation p = u_sessionGeneration u"
    "isSessionCappedRole (u_role u) \<Longrightarrow> session_open u (jp_sid p)" "u_isActive u" "s' = s"
proof -
  from assms obtain check s1 where check: "loadActiveUser (jp_sub p) s = (Inr check, s1)" "ac_user check = Some u"
    "ac_usable check" "payload_generation p = u_sessionGeneration u"
    "isSessionCappedRole (u_role u) \<longrightarrow> session_open u (jp_sid p)" "s' = s1"
    by (auto simp: validateActiveSessionWithScoping_def prog_inv Let_def)
  with loadActiveUser_found [OF check(1,2)] show "get_by u_id (jp_sub p) (w_users s) = Some u"
    "payload_generation p = u_sessionGeneration u" "s' = s" "isSessionCappedRole (u_role u) \<Longrightarrow> session_open u (jp_sid p)"
    by auto
  from check(1-3) show "u_isActive u"
    by (auto simp: loadActiveUser_def getScopingInfo_def prog_inv split: option.splits if_splits)
qed

lemma refresh_accepts:
  assumes "refresh L tok s = (Inr pair, s')" and "lib_verify L REFRESH_TOKEN tok = Some p"
  obtains u where "get_by u_id (jp_sub p) (w_users s) = Some u" "payload_generation p = u_sessionGeneration u"
    "isSessionCappedRole (u_role u) \<Longrightarrow> session_open u (jp_sid p)"
proof -
  from assms obtain check s1 u where check: "loadActiveUser (jp_sub p) s = (Inr check, s1)" "ac_user check = Some u"
    "payload_generation p = u_sessionGeneration u" "isSessionCappedRole (u_role u) \<longrightarrow> session_open u (jp_sid p)"
    by (auto simp: refresh_def validateActiveSession_def prog_inv)
  with loadActiveUser_found [OF check(1,2)] that show ?thesis by blast
qed

section \<open>Opening and ending sessions\<close>

definition audit_row ::
  "user \<Rightarrow> instant \<Rightarrow> session_event_type \<Rightarrow> session_revocation_cause option \<Rightarrow> nat \<Rightarrow> string option \<Rightarrow> session_event" where
  "audit_row u now type cause generation sid = \<lparr>se_userId = u_id u, se_companyId = u_companyId u, se_role = u_role u,
     se_type = type, se_cause = cause, se_generation = generation, se_sid = sid, se_at = now\<rparr>"

abbreviation append_events :: "session_event list \<Rightarrow> world \<Rightarrow> world" where
  "append_events es s \<equiv> w_session_events_update (\<lambda>xs. xs @ es) s"

lemma write_event_anonymous:
  assumes "w_scope s = anonymous"
  shows "write_event subject type cause s = (Inr (), append_events [\<lparr>se_userId = ss_userId subject,
     se_companyId = ss_companyId subject, se_role = ss_role subject, se_type = type, se_cause = cause,
     se_generation = ss_generation subject, se_sid = (if ss_sid subject = Some '''' then None else ss_sid subject),
     se_at = w_now s\<rparr>] s)"
  using assms by (cases "ss_companyId subject") (simp_all add: write_event_def bnd_def asks_def of_sum_def insert_doc_def modify_def)

lemma evictions_logged:
  assumes "w_scope s = anonymous" and "'''' \<notin> set ks"
  shows "for_each ks (\<lambda>k. revoked (subject_of u g\<lparr>ss_sid := Some k\<rparr>) c) s =
    (Inr (), append_events (map (\<lambda>k. audit_row u (w_now s) REVOKED (Some c) g (Some k)) ks) s)"
  using assms
proof (induction ks arbitrary: s)
  case Nil
  then show ?case by (simp add: ret_def)
next
  case (Cons k ks)
  let ?s1 = "append_events [audit_row u (w_now s) REVOKED (Some c) g (Some k)] s"
  have "revoked (subject_of u g\<lparr>ss_sid := Some k\<rparr>) c s = (Inr (), ?s1)"
    using Cons.prems by (auto simp: revoked_def write_event_anonymous subject_of_def audit_row_def)
  moreover have "for_each ks (\<lambda>k. revoked (subject_of u g\<lparr>ss_sid := Some k\<rparr>) c) ?s1 =
      (Inr (), append_events (map (\<lambda>k. audit_row u (w_now s) REVOKED (Some c) g (Some k)) ks) ?s1)"
    using Cons.prems Cons.IH [of ?s1] by simp
  ultimately show ?case by (simp add: bnd_def o_def)
qed

text \<open>The sessions of an account in the order they were opened, none opened after \<open>now\<close>.\<close>

definition sessions_ordered :: "instant \<Rightarrow> user \<Rightarrow> bool" where
  "sessions_ordered now u \<longleftrightarrow> sorted (map as_createdAt (u_activeSessions u)) \<and> distinct (map as_sid (u_activeSessions u)) \<and>
     (\<forall>x \<in> set (u_activeSessions u). as_createdAt x \<le> now \<and> as_sid x \<noteq> '''')"

lemma merge_ordered:
  assumes "sessions_ordered now u"
  shows "merge_session sid now (u_activeSessions u) = u_activeSessions u @ [\<lparr>as_sid = sid, as_createdAt = now\<rparr>]"
  using assms by (auto simp: merge_session_def sessions_ordered_def sorted_append intro!: sort_key_id_if_sorted)

lemma split_newest: "\<exists>old. xs = old @ newest cap xs \<and> length (newest cap xs) = min cap (length xs)"
  by (rule exI [of _ "take (length xs - cap) xs"]) (simp add: newest_def min_def)

lemma open_admin_session_run:
  assumes scope: "w_scope s = anonymous" and user: "get_by u_id (u_id user) (w_users s) = Some user"
    and ordered: "sessions_ordered (w_now s) user" and sid: "sid \<notin> as_sid ` set (u_activeSessions user)" "sid \<noteq> ''''"
  obtains old kept where
    "u_activeSessions user @ [\<lparr>as_sid = sid, as_createdAt = w_now s\<rparr>] = old @ kept"
    "length kept = min cap (Suc (length (u_activeSessions user)))"
    "open_admin_session user sid cap s = (Inr (), append_events
       (map (\<lambda>x. audit_row user (w_now s) REVOKED (Some SESSION_LIMIT_EXCEEDED) (u_sessionGeneration user) (Some (as_sid x))) old @
        [audit_row user (w_now s) SIGNED_IN None (u_sessionGeneration user) (Some sid)])
       (w_users_update (upd_by u_id (u_id user) (\<lambda>u. u\<lparr>u_activeSessions := kept\<rparr>)) s))"
proof -
  let ?all = "u_activeSessions user @ [\<lparr>as_sid = sid, as_createdAt = w_now s\<rparr>]"
  let ?kept = "newest cap ?all"
  obtain old where old: "?all = old @ ?kept" "length ?kept = min cap (length ?all)" using split_newest by metis
  have dist: "distinct (map as_sid ?all)" "'''' \<notin> as_sid ` set ?all"
    using ordered sid by (auto simp: sessions_ordered_def)
  then have parts: "distinct (map as_sid (old @ ?kept))" "'''' \<notin> as_sid ` set (old @ ?kept)"
    using old(1) by (metis, metis)
  then have named: "'''' \<notin> as_sid ` set old" by auto
  have "filter (\<lambda>x. as_sid x \<notin> as_sid ` set ?kept) (old @ ?kept) = old"
    using parts(1) by (auto simp: filter_id_conv filter_empty_conv simp del: append_assoc)
  then have evicted: "filter (\<lambda>x. as_sid x \<notin> as_sid ` set ?kept) ?all = old" using old(1) by metis
  let ?s1 = "w_users_update (upd_by u_id (u_id user) (\<lambda>u. u\<lparr>u_activeSessions := ?kept\<rparr>)) s"
  have opened: "openSession (u_id user) sid cap s = (Inr (map as_sid old), ?s1)"
    using user scope merge_ordered [OF ordered, of sid] evicted
    by (simp add: openSession_def bnd_def find_one_def demand_def asks_def Let_def update_user_def find_and_update_def cas_def ret_def)
  let ?s2 = "append_events (map (\<lambda>k. audit_row user (w_now s) REVOKED (Some SESSION_LIMIT_EXCEEDED)
     (u_sessionGeneration user) (Some k)) (map as_sid old)) ?s1"
  have "for_each (map as_sid old) (\<lambda>k. revoked (subject_of user (u_sessionGeneration user)\<lparr>ss_sid := Some k\<rparr>) SESSION_LIMIT_EXCEEDED) ?s1
      = (Inr (), ?s2)"
    using scope named by (subst evictions_logged) auto
  moreover have "signedIn (subject_of user (u_sessionGeneration user)\<lparr>ss_sid := Some sid\<rparr>) ?s2 =
      (Inr (), append_events [audit_row user (w_now s) SIGNED_IN None (u_sessionGeneration user) (Some sid)] ?s2)"
    using scope sid by (simp add: signedIn_def write_event_anonymous subject_of_def audit_row_def)
  ultimately have "open_admin_session user sid cap s = (Inr (), append_events [audit_row user (w_now s) SIGNED_IN None
      (u_sessionGeneration user) (Some sid)] ?s2)"
    using opened by (simp add: open_admin_session_def bnd_def Let_def)
  with old show thesis by (intro that [of old ?kept]) (simp_all add: o_def)
qed

lemma loadActiveUser_transfer:
  assumes "loadActiveUser i s = (Inr check, s1)" "ac_usable check" "w_scope s = anonymous" "w_scope s' = anonymous"
    "get_by u_id i (w_users s) = Some u" "get_by u_id i (w_users s') = Some u'" "w_companies s' = w_companies s"
    "u_isActive u' = u_isActive u" "u_role u' = u_role u" "u_companyId u' = u_companyId u"
  shows "\<exists>check'. loadActiveUser i s' = (Inr check', s') \<and> ac_usable check' \<and> ac_user check' = Some u'"
  using assms
  by (auto simp: loadActiveUser_def bnd_def find_one_def ret_def getScopingInfo_def asks_def split: option.splits if_splits)

lemma validate_intro:
  assumes "loadActiveUser (jp_sub p) s = (Inr check, s)" "ac_usable check" "ac_user check = Some u"
    "payload_generation p = u_sessionGeneration u" "isSessionCappedRole (u_role u) \<Longrightarrow> session_open u (jp_sid p)"
  shows "validateActiveSessionWithScoping p s = (Inr (u, ac_parentFuelCompanyId check), s)"
  using assms by (simp add: validateActiveSessionWithScoping_def bnd_def guard_def ret_def Let_def)

text \<open>What a sign-in leaves of the account, and which token it hands out.\<close>

lemma mobileLogin_run:
  assumes "w_scope s = anonymous" "get_by u_id (u_id user) (w_users s) = Some user"
  shows "mobileLogin L user s = (Inr (issueTokenPair L user (Suc (u_sessionGeneration user)) None, toSafeUser user),
    append_events [audit_row user (w_now s) REVOKED (Some SIGNED_IN_ELSEWHERE) (Suc (u_sessionGeneration user)) None,
       audit_row user (w_now s) SIGNED_IN None (Suc (u_sessionGeneration user)) None]
      (w_users_update (upd_by u_id (u_id user) (end_sessions (Some SIGNED_IN_ELSEWHERE)))
        (s\<lparr>w_emits := w_emits s @ [SessionRevokedEvent (u_id user) SIGNED_IN_ELSEWHERE (w_now s), DisconnectUser (u_id user)]\<rparr>)))"
  using assms
  by (simp add: mobileLogin_def transaction_def bnd_def revokeAllSessions_def update_user_def find_and_update_def cas_def
      demand_def Let_def revoked_def signedIn_def write_event_anonymous asks_def emit_def modify_def ret_def subject_of_def
      audit_row_def end_sessions_def)

lemma adminLogin_run:
  assumes scope: "w_scope s = anonymous" and user: "get_by u_id (u_id user) (w_users s) = Some user"
    and ordered: "sessions_ordered (w_now s) user" and sid: "sid \<notin> as_sid ` set (u_activeSessions user)" "sid \<noteq> ''''"
    and cap: "0 < session_cap s"
  obtains s' kept where "adminLogin L sid user s = (Inr (issueTokenPair L user (u_sessionGeneration user) (Some sid), toSafeUser user), s')"
    "get_by u_id (u_id user) (w_users s') = Some (user\<lparr>u_activeSessions := kept\<rparr>)" "sid \<in> as_sid ` set kept"
    "w_scope s' = anonymous" "w_companies s' = w_companies s"
proof -
  let ?new = "\<lparr>as_sid = sid, as_createdAt = w_now s\<rparr>"
  obtain old kept where parts: "u_activeSessions user @ [?new] = old @ kept"
      "length kept = min (session_cap s) (Suc (length (u_activeSessions user)))"
    and opened: "open_admin_session user sid (session_cap s) s = (Inr (), append_events
       (map (\<lambda>x. audit_row user (w_now s) REVOKED (Some SESSION_LIMIT_EXCEEDED) (u_sessionGeneration user) (Some (as_sid x))) old @
        [audit_row user (w_now s) SIGNED_IN None (u_sessionGeneration user) (Some sid)])
       (w_users_update (upd_by u_id (u_id user) (\<lambda>u. u\<lparr>u_activeSessions := kept\<rparr>)) s))" (is "_ = (_, ?s')")
    by (rule open_admin_session_run [OF scope user ordered sid])
  have "kept \<noteq> []" using parts(2) cap by auto
  then have "last kept = ?new" using parts(1) by (metis last_appendR last_snoc)
  then have "?new \<in> set kept" using \<open>kept \<noteq> []\<close> by (metis last_in_set)
  then have "sid \<in> as_sid ` set kept" by force
  moreover have "adminLogin L sid user s = (Inr (issueTokenPair L user (u_sessionGeneration user) (Some sid), toSafeUser user), ?s')"
    using opened by (simp add: adminLogin_def bnd_def asks_def transaction_def ret_def)
  ultimately show thesis using user scope by (intro that [of ?s' kept]) (simp_all add: get_by_upd_by)
qed

lemma lookup_found:
  "findByPhoneForAuth p s = (Inr (Some u), s1) \<Longrightarrow> u \<in> set (w_users s) \<and> s1 = s"
  "findByEmailForAuth e s = (Inr (Some u), s1) \<Longrightarrow> u \<in> set (w_users s) \<and> s1 = s"
  by (auto simp: findByPhoneForAuth_def findByEmailForAuth_def prog_inv dest!: sym [of "Some u"] simp: find_Some_iff)

lemma login_run:
  assumes "login L sid dto s = (Inr reply, s')"
  obtains user check where "user \<in> set (w_users s)" "lib_compare L (ld_password dto) (u_passwordHash user)"
    "loadActiveUser (u_id user) s = (Inr check, s)" "ac_usable check"
    "(if isSessionCappedRole (u_role user) then adminLogin L sid user else mobileLogin L user) s = (Inr reply, s')"
proof -
  obtain user s1 s2 s3 u where look: "(case ld_phone dto of
            Some phone \<Rightarrow> if phone \<noteq> '''' then findByPhoneForAuth phone else findByEmailForAuth (ld_email dto)
          | None \<Rightarrow> findByEmailForAuth (ld_email dto)) s = (Inr (Some user), s1)"
    and pw: "guard (lib_compare L (ld_password dto) (u_passwordHash user)) Unauthorized s1 = (Inr (), s2)"
    and val: "validateActiveSession (u_id user) s2 = (Inr u, s3)"
    and go: "(if isSessionCappedRole (u_role user) then adminLogin L sid user else mobileLogin L user) s3 = (Inr reply, s')"
    using assms unfolding login_def by (elim bndE) (simp add: demand_inv)
  from look have user: "user \<in> set (w_users s)" "s1 = s"
    by (auto split: option.splits if_splits dest: lookup_found)
  from pw have pw': "lib_compare L (ld_password dto) (u_passwordHash user)" "s2 = s1" by (simp_all add: guard_inv)
  from val obtain check where check: "loadActiveUser (u_id user) s2 = (Inr check, s3)" "ac_usable check" "ac_user check = Some u"
    by (auto simp: validateActiveSession_def prog_inv)
  from loadActiveUser_found [OF check(1,3)] have "s3 = s2" by simp
  with user check go pw' that show thesis by blast
qed

section \<open>Properties\<close>

text \<open>C26: once an account's session generation has passed the one a token was minted with, no sequence of sign-ins,
  sign-outs, renewals, resets, deactivations, reactivations, edits, suspensions, scopes, clock changes or counter-store
  outages makes the token good again: it opens no request, and as a refresh token it renews nothing.\<close>

theorem revoked_token_stays_revoked:
  assumes steps: "(account_step L)\<^sup>*\<^sup>* s s'"
    and owner: "get_by u_id (jp_sub p) (w_users s) = Some u" "payload_generation p < u_sessionGeneration u"
    and ids: "distinct (map u_id (w_users s))" "jp_sub p < w_next_id s"
  shows "validateActiveSessionWithScoping p s' \<noteq> (Inr r, t) \<and>
    (lib_verify L REFRESH_TOKEN tok = Some p \<longrightarrow> refresh L tok s' \<noteq> (Inr pair, t'))"
proof -
  let ?m = "\<lambda>i. if i = jp_sub p then u_sessionGeneration u else 0"
  have "generations_from (session_cap s) ?m s"
    using owner(1) ids by (auto simp: generations_from_def dest: get_by_distinct)
  then have later: "generations_from (session_cap s) ?m s'" by (rule generations.account_steps_keep [OF steps])
  have stale: "payload_generation p \<noteq> u_sessionGeneration v" if "get_by u_id (jp_sub p) (w_users s') = Some v" for v
    using later get_by_mem [OF that] get_by_key [OF that] owner(2) by (fastforce simp: generations_from_def)
  have "validateActiveSessionWithScoping p s' \<noteq> (Inr r, t)"
    using stale by (cases r) (auto dest: validate_accepts(1,2))
  moreover have "refresh L tok s' \<noteq> (Inr pair, t')" if "lib_verify L REFRESH_TOKEN tok = Some p"
    using stale that by (auto elim: refresh_accepts)
  ultimately show ?thesis by blast
qed

text \<open>C28: if no account has more open sessions than the configured cap, none ever has, whatever the account operations.\<close>

theorem open_sessions_bounded:
  assumes "(account_step L)\<^sup>*\<^sup>* s s'" and "\<forall>u \<in> set (w_users s). length (u_activeSessions u) \<le> session_cap s"
  shows "\<forall>u \<in> set (w_users s'). length (u_activeSessions u) \<le> session_cap s'"
proof -
  have "sessions_within (session_cap s) s" using assms(2) by (simp add: sessions_within_def)
  then have "sessions_within (session_cap s) s'" by (rule within.account_steps_keep [OF assms(1)])
  then show ?thesis by (simp add: sessions_within_def)
qed

text \<open>When an administrator signs in, the new session joins the open ones, in the order they were opened; those
  beyond the cap, the oldest ones and no others, are dropped and each leaves a \<open>REVOKED\<close> row with the cause
  \<open>SESSION_LIMIT_EXCEEDED\<close> before the \<open>SIGNED_IN\<close> row; the generation does not move, and a token of a dropped
  session opens no request any more.\<close>

theorem admin_login_evicts_oldest:
  assumes run: "adminLogin L sid user s = (Inr reply, s')" and role: "isSessionCappedRole (u_role user)"
    and scope: "w_scope s = anonymous" and user: "get_by u_id (u_id user) (w_users s) = Some user"
    and ordered: "sessions_ordered (w_now s) user" and sid: "sid \<notin> as_sid ` set (u_activeSessions user)" "sid \<noteq> ''''"
  shows "\<exists>old kept. u_activeSessions user @ [\<lparr>as_sid = sid, as_createdAt = w_now s\<rparr>] = old @ kept \<and>
    length kept = min (session_cap s) (Suc (length (u_activeSessions user))) \<and>
    get_by u_id (u_id user) (w_users s') = Some (user\<lparr>u_activeSessions := kept\<rparr>) \<and>
    w_session_events s' = w_session_events s @
      map (\<lambda>x. audit_row user (w_now s) REVOKED (Some SESSION_LIMIT_EXCEEDED) (u_sessionGeneration user) (Some (as_sid x))) old @
      [audit_row user (w_now s) SIGNED_IN None (u_sessionGeneration user) (Some sid)] \<and>
    (\<forall>x \<in> set old. \<forall>p r t. jp_sub p = u_id user \<and> jp_sid p = Some (as_sid x) \<longrightarrow>
       validateActiveSessionWithScoping p s' \<noteq> (Inr r, t))"
proof -
  let ?new = "\<lparr>as_sid = sid, as_createdAt = w_now s\<rparr>"
  obtain old kept where parts: "u_activeSessions user @ [?new] = old @ kept"
      "length kept = min (session_cap s) (Suc (length (u_activeSessions user)))"
    and opened: "open_admin_session user sid (session_cap s) s = (Inr (), append_events
       (map (\<lambda>x. audit_row user (w_now s) REVOKED (Some SESSION_LIMIT_EXCEEDED) (u_sessionGeneration user) (Some (as_sid x))) old @
        [audit_row user (w_now s) SIGNED_IN None (u_sessionGeneration user) (Some sid)])
       (w_users_update (upd_by u_id (u_id user) (\<lambda>u. u\<lparr>u_activeSessions := kept\<rparr>)) s))"
    by (rule open_admin_session_run [OF scope user ordered sid])
  have s': "s' = append_events
       (map (\<lambda>x. audit_row user (w_now s) REVOKED (Some SESSION_LIMIT_EXCEEDED) (u_sessionGeneration user) (Some (as_sid x))) old @
        [audit_row user (w_now s) SIGNED_IN None (u_sessionGeneration user) (Some sid)])
       (w_users_update (upd_by u_id (u_id user) (\<lambda>u. u\<lparr>u_activeSessions := kept\<rparr>)) s)"
    using run opened by (auto simp: adminLogin_def prog_inv)
  have now_user: "get_by u_id (u_id user) (w_users s') = Some (user\<lparr>u_activeSessions := kept\<rparr>)"
    using user by (simp add: s' get_by_upd_by)
  have "distinct (map as_sid (old @ kept))"
    using ordered sid parts(1) [symmetric] by (simp add: sessions_ordered_def)
  then have gone: "as_sid x \<notin> as_sid ` set kept" if "x \<in> set old" for x using that by auto
  have "validateActiveSessionWithScoping p s' \<noteq> (Inr r, t)"
    if "x \<in> set old" "jp_sub p = u_id user" "jp_sid p = Some (as_sid x)" for x p r t
  proof
    assume ok: "validateActiveSessionWithScoping p s' = (Inr r, t)"
    then obtain u parent where "validateActiveSessionWithScoping p s' = (Inr (u, parent), t)" by (cases r) simp
    note accepted = validate_accepts [OF this]
    from accepted(1) now_user that(2) have "u = user\<lparr>u_activeSessions := kept\<rparr>" by simp
    with accepted(3) role gone [OF that(1)] that(3) show False by (simp add: session_open_def)
  qed
  with parts now_user show ?thesis by (intro exI [of _ old] exI [of _ kept]) (simp add: s')
qed

text \<open>A sign-in with the right password of a usable account hands out a token pair that the platform accepts at
  once: both tokens verify to one payload, a request presenting it is let in as the account signed in, and the password
  matched its hash.  For a client or a driver the payload carries the next generation, so every earlier token of the
  account is refused from then on.\<close>

theorem login_token_opens:
  assumes run: "login L sid dto s = (Inr (tp, su), s')"
    and tokens: "\<And>kind p. lib_verify L kind (lib_sign L kind p) = Some p"
    and scope: "w_scope s = anonymous" and ids: "distinct (map u_id (w_users s))"
    and ordered: "\<forall>u \<in> set (w_users s). sessions_ordered (w_now s) u"
    and sid: "\<forall>u \<in> set (w_users s). sid \<notin> as_sid ` set (u_activeSessions u)" "sid \<noteq> ''''" and cap: "0 < session_cap s"
  shows "\<exists>p u0 u parent. lib_verify L ACCESS_TOKEN (tp_accessToken tp) = Some p \<and>
    lib_verify L REFRESH_TOKEN (tp_refreshToken tp) = Some p \<and>
    get_by u_id (su_id su) (w_users s) = Some u0 \<and> lib_compare L (ld_password dto) (u_passwordHash u0) \<and>
    validateActiveSessionWithScoping p s' = (Inr (u, parent), s') \<and> toSafeUser u = su \<and>
    payload_generation p = (if isSessionCappedRole (u_role u) then u_sessionGeneration u0 else Suc (u_sessionGeneration u0))"
proof -
  obtain user check where user: "user \<in> set (w_users s)" and pw: "lib_compare L (ld_password dto) (u_passwordHash user)"
    and check: "loadActiveUser (u_id user) s = (Inr check, s)" "ac_usable check"
    and rest: "(if isSessionCappedRole (u_role user) then adminLogin L sid user else mobileLogin L user) s = (Inr (tp, su), s')"
    by (rule login_run [OF run])
  have get: "get_by u_id (u_id user) (w_users s) = Some user" by (rule get_by_distinct [OF ids user])
  show ?thesis
  proof (cases "isSessionCappedRole (u_role user)")
    case True
    obtain s1 kept where login: "adminLogin L sid user s =
        (Inr (issueTokenPair L user (u_sessionGeneration user) (Some sid), toSafeUser user), s1)"
      and s1: "get_by u_id (u_id user) (w_users s1) = Some (user\<lparr>u_activeSessions := kept\<rparr>)" "sid \<in> as_sid ` set kept"
        "w_scope s1 = anonymous" "w_companies s1 = w_companies s"
      using adminLogin_run [OF scope get bspec [OF ordered user] bspec [OF sid(1) user] sid(2) cap] by metis
    obtain check' where c': "loadActiveUser (u_id user) s1 = (Inr check', s1)" "ac_usable check'"
        "ac_user check' = Some (user\<lparr>u_activeSessions := kept\<rparr>)"
      using loadActiveUser_transfer [OF check scope s1(3) get s1(1,4)] by auto
    let ?p = "token_payload user (u_sessionGeneration user) (Some sid)"
    have "validateActiveSessionWithScoping ?p s1 = (Inr (user\<lparr>u_activeSessions := kept\<rparr>, ac_parentFuelCompanyId check'), s1)"
      using c' s1(2) sid(2) by (intro validate_intro) (auto simp: token_payload_def payload_generation_def session_open_def)
    moreover have "s' = s1" "tp = issueTokenPair L user (u_sessionGeneration user) (Some sid)" "su = toSafeUser user"
      using rest login True by simp_all
    ultimately show ?thesis using tokens pw get True
      by (intro exI [of _ ?p] exI [of _ user] exI [of _ "user\<lparr>u_activeSessions := kept\<rparr>"] exI)
        (auto simp: issueTokenPair_def toSafeUser_def token_payload_def payload_generation_def)
  next
    case False
    let ?u = "end_sessions (Some SIGNED_IN_ELSEWHERE) user"
    let ?p = "token_payload user (Suc (u_sessionGeneration user)) None"
    from rest False have parts: "tp = issueTokenPair L user (Suc (u_sessionGeneration user)) None" "su = toSafeUser user"
      "get_by u_id (u_id user) (w_users s') = Some ?u" "w_scope s' = anonymous" "w_companies s' = w_companies s"
      using mobileLogin_run [OF scope get] get scope by (auto simp: get_by_upd_by end_sessions_def)
    obtain check' where c': "loadActiveUser (u_id user) s' = (Inr check', s')" "ac_usable check'" "ac_user check' = Some ?u"
      using loadActiveUser_transfer [OF check scope parts(4) get parts(3,5)] by (auto simp: end_sessions_def)
    have "validateActiveSessionWithScoping ?p s' = (Inr (?u, ac_parentFuelCompanyId check'), s')"
      using c' False by (intro validate_intro) (auto simp: token_payload_def payload_generation_def end_sessions_def)
    with parts tokens pw get False show ?thesis
      by (intro exI [of _ ?p] exI [of _ user] exI [of _ ?u] exI)
        (auto simp: issueTokenPair_def toSafeUser_def token_payload_def payload_generation_def end_sessions_def)
  qed
qed

section \<open>A concrete account\<close>

text \<open>A token is the payload in unary, so that the verifier can read it back.\<close>

definition unary :: "nat \<Rightarrow> string" where
  "unary n = replicate n (CHR ''1'') @ ''.''"

definition pop_unary :: "string \<Rightarrow> nat \<times> string" where
  "pop_unary t = (length (takeWhile (\<lambda>c. c = CHR ''1'') t), tl (dropWhile (\<lambda>c. c = CHR ''1'') t))"

definition opt_code :: "nat option \<Rightarrow> nat" where
  "opt_code x = (case x of None \<Rightarrow> 0 | Some n \<Rightarrow> Suc n)"

definition opt_of :: "nat \<Rightarrow> nat option" where
  "opt_of n = (if n = 0 then None else Some (n - 1))"

definition role_names :: "user_role list" where
  "role_names = [SUPER_ADMIN, FUEL_COMPANY_ADMIN, TRANSPORT_COMPANY_ADMIN, CLIENT, DRIVER]"

definition role_code :: "user_role \<Rightarrow> nat" where
  "role_code r = (case r of SUPER_ADMIN \<Rightarrow> 0 | FUEL_COMPANY_ADMIN \<Rightarrow> 1 | TRANSPORT_COMPANY_ADMIN \<Rightarrow> 2 | CLIENT \<Rightarrow> 3 | DRIVER \<Rightarrow> 4)"

definition toy_sign :: "token_use \<Rightarrow> jwt_payload \<Rightarrow> string" where
  "toy_sign kind p = unary (jp_sub p) @ unary (role_code (jp_role p)) @ unary (opt_code (jp_companyId p)) @
     unary (opt_code (jp_sgen p)) @ (case jp_sid p of None \<Rightarrow> ''n'' | Some k \<Rightarrow> CHR ''s'' # k)"

definition toy_verify :: "token_use \<Rightarrow> string \<Rightarrow> jwt_payload option" where
  "toy_verify kind t = (let (a, t1) = pop_unary t; (b, t2) = pop_unary t1; (c, t3) = pop_unary t2; (d, t4) = pop_unary t3
     in Some \<lparr>jp_sub = a, jp_role = role_names ! b, jp_companyId = opt_of c, jp_sgen = opt_of d,
          jp_sid = (if hd t4 = CHR ''s'' then Some (tl t4) else None)\<rparr>)"

definition toy_libraries :: libraries where
  "toy_libraries = \<lparr>lib_hash = id, lib_compare = (=), lib_sha = id, lib_sign = toy_sign, lib_verify = toy_verify,
     lib_sms = (\<lambda>_ _. True)\<rparr>"

lemma pop_unary [simp]: "pop_unary (unary n @ t) = (n, t)"
proof -
  have "takeWhile (\<lambda>c. c = CHR ''1'') (replicate n (CHR ''1'') @ CHR ''.'' # t) = replicate n (CHR ''1'')"
    "dropWhile (\<lambda>c. c = CHR ''1'') (replicate n (CHR ''1'') @ CHR ''.'' # t) = CHR ''.'' # t"
    by (induction n) simp_all
  then show ?thesis by (simp add: pop_unary_def unary_def)
qed

lemma toy_tokens: "lib_verify toy_libraries kind (lib_sign toy_libraries kind p) = Some p"
proof -
  have role: "role_names ! role_code r = r" for r by (cases r) (simp_all add: role_names_def role_code_def)
  have opt: "opt_of (opt_code x) = x" for x by (cases x) (simp_all add: opt_of_def opt_code_def)
  have sid: "(if hd t = CHR ''s'' then Some (tl t) else None) = k" if "t = (case k of None \<Rightarrow> ''n'' | Some x \<Rightarrow> CHR ''s'' # x)" for t k
    using that by (cases k) simp_all
  show ?thesis
    by (simp only: toy_libraries_def libraries.select_convs toy_sign_def toy_verify_def pop_unary Let_def split_conv role opt sid [OF refl])
      simp
qed

definition blank_admin :: user where
  "blank_admin = blank_user\<lparr>u_id := 9, u_role := FUEL_COMPANY_ADMIN, u_email := ''a@x'', u_phone := ''9'', u_passwordHash := ''pw'',
     u_sessionGeneration := 1, u_activeSessions := [\<lparr>as_sid = ''k1'', as_createdAt = 1\<rparr>,
       \<lparr>as_sid = ''k2'', as_createdAt = 2\<rparr>, \<lparr>as_sid = ''k3'', as_createdAt = 3\<rparr>]\<rparr>"

definition office :: world where
  "office = empty_world\<lparr>w_users := [blank_admin, blank_user], w_companies := [fuel_company]\<rparr>"

definition admin_credentials :: login_dto where
  "admin_credentials = \<lparr>ld_phone = None, ld_email = ''a@x'', ld_password = ''pw''\<rparr>"

definition old_token :: jwt_payload where
  "old_token = \<lparr>jp_sub = 9, jp_role = FUEL_COMPANY_ADMIN, jp_companyId = Some 1, jp_sgen = Some 0, jp_sid = Some ''k1''\<rparr>"

lemmas office_defs = office_def blank_admin_def sample_defs

lemma office_ids: "distinct (map u_id (w_users office))" "get_by u_id 9 (w_users office) = Some blank_admin"
  "w_scope office = anonymous" "session_cap office = 3" "w_now office = 1000" "w_next_id office = 100"
  by (simp_all add: office_defs)

lemma office_sessions:
  "\<forall>u \<in> set (w_users office). sessions_ordered (w_now office) u"
  "\<forall>u \<in> set (w_users office). ''k4'' \<notin> as_sid ` set (u_activeSessions u)"
  "\<forall>u \<in> set (w_users office). length (u_activeSessions u) \<le> session_cap office"
  by (simp_all add: sessions_ordered_def office_defs)

lemma office_login: "\<exists>reply s'. login toy_libraries ''k4'' admin_credentials office = (Inr reply, s')"
  by (rule run_succeeds) code_simp

lemma revoked_token_stays_revoked_witness:
  "\<exists>s'. (account_step toy_libraries)\<^sup>*\<^sup>* office s' \<and> s' \<noteq> office \<and> (\<forall>r t. validateActiveSessionWithScoping old_token s' \<noteq> (Inr r, t))"
proof -
  let ?s' = "snd (login toy_libraries ''k4'' admin_credentials office)"
  have step: "(account_step toy_libraries)\<^sup>*\<^sup>* office ?s'" by (intro r_into_rtranclp account_step.signs_in)
  have "validateActiveSessionWithScoping old_token ?s' \<noteq> (Inr r, t)" for r t
    using revoked_token_stays_revoked [OF step, of old_token blank_admin r t] office_ids
    by (simp add: old_token_def payload_generation_def blank_admin_def)
  moreover have "length (w_session_events ?s') \<noteq> length (w_session_events office)" by code_simp
  ultimately show ?thesis using step by (intro exI [of _ ?s']) auto
qed

lemma open_sessions_bounded_witness:
  "(let s' = snd (login toy_libraries ''k4'' admin_credentials office)
    in map (\<lambda>u. map as_sid (u_activeSessions u)) (w_users s') = [[''k2'', ''k3'', ''k4''], []] \<and>
       (\<forall>u \<in> set (w_users s'). length (u_activeSessions u) \<le> session_cap s'))"
proof -
  let ?s' = "snd (login toy_libraries ''k4'' admin_credentials office)"
  have "(account_step toy_libraries)\<^sup>*\<^sup>* office ?s'" by (intro r_into_rtranclp account_step.signs_in)
  from open_sessions_bounded [OF this office_sessions(3)]
  have "\<forall>u \<in> set (w_users ?s'). length (u_activeSessions u) \<le> session_cap ?s'" .
  moreover have "map (\<lambda>u. map as_sid (u_activeSessions u)) (w_users ?s') = [[''k2'', ''k3'', ''k4''], []]" by code_simp
  ultimately show ?thesis by (simp add: Let_def)
qed

lemma admin_login_evicts_oldest_witness:
  "\<exists>reply s' old kept. adminLogin toy_libraries ''k4'' blank_admin office = (Inr reply, s') \<and>
     u_activeSessions blank_admin @ [\<lparr>as_sid = ''k4'', as_createdAt = 1000\<rparr>] = old @ kept \<and> length kept = 3 \<and>
     get_by u_id 9 (w_users s') = Some (blank_admin\<lparr>u_activeSessions := kept\<rparr>)"
proof -
  have "\<exists>reply s'. adminLogin toy_libraries ''k4'' blank_admin office = (Inr reply, s')"
    by (rule run_succeeds) code_simp
  then obtain reply s' where run: "adminLogin toy_libraries ''k4'' blank_admin office = (Inr reply, s')" by blast
  have u: "u_id blank_admin = 9" "isSessionCappedRole (u_role blank_admin)" "length (u_activeSessions blank_admin) = 3"
    by (simp_all add: blank_admin_def isSessionCappedRole_def SESSION_CAPPED_ROLES_def)
  have sid: "''k4'' \<notin> as_sid ` set (u_activeSessions blank_admin)" by (simp add: blank_admin_def)
  have ord: "sessions_ordered (w_now office) blank_admin" by (simp add: sessions_ordered_def office_defs)
  have "get_by u_id (u_id blank_admin) (w_users office) = Some blank_admin" using office_ids(2) u(1) by simp
  from admin_login_evicts_oldest [OF run u(2) office_ids(3) this ord sid] show ?thesis
    using run u office_ids by fastforce
qed

lemma login_token_opens_witness:
  "\<exists>tp su s' p u parent. login toy_libraries ''k4'' admin_credentials office = (Inr (tp, su), s') \<and>
     lib_verify toy_libraries ACCESS_TOKEN (tp_accessToken tp) = Some p \<and>
     validateActiveSessionWithScoping p s' = (Inr (u, parent), s') \<and> toSafeUser u = su"
proof -
  obtain tp su s' where run: "login toy_libraries ''k4'' admin_credentials office = (Inr (tp, su), s')"
    using office_login by (metis prod.collapse)
  have "0 < session_cap office" by (simp add: office_ids)
  from login_token_opens [OF run toy_tokens office_ids(3,1) office_sessions(1,2) _ this] run show ?thesis by auto
qed

end
