(* ===== verification/Announcements.thy ===== *)
theory Announcements
  imports Accounts Queues
begin

text \<open>
  Platform announcements: \<open>modules/announcements/announcements.service.ts\<close>,
  \<open>queues/announcement-fanout.processor.ts\<close> and \<open>announcements.controller.ts\<close>.

  The operator addresses the administrators of the companies named, or of every company.  The request only
  enqueues; a job resolves the candidates again, writes one delivery row per candidate and one notification per
  candidate that can be reached.  A job may run again, and may be cut off between two candidates.
\<close>

section \<open>The service\<close>

definition ANNOUNCEMENT_RECIPIENT_ROLES :: "user_role list" where
  "ANNOUNCEMENT_RECIPIENT_ROLES = [FUEL_COMPANY_ADMIN, TRANSPORT_COMPANY_ADMIN]"

record announcement_candidate =
  acd_companyId :: oid
  acd_recipient :: "user option"
  acd_failureReason :: "announcement_failure option"

definition new_candidate :: "oid \<Rightarrow> user option \<Rightarrow> announcement_failure option \<Rightarrow> announcement_candidate" where
  "new_candidate companyId recipient reason =
     \<lparr>acd_companyId = companyId, acd_recipient = recipient, acd_failureReason = reason\<rparr>"

definition company_candidates :: "user list \<Rightarrow> company \<Rightarrow> announcement_candidate list" where
  "company_candidates companyAdmins company =
     (if c_status company \<noteq> ACTIVE
      then map (\<lambda>admin. new_candidate (c_id company) (Some admin) (Some RECIPIENT_SUSPENDED)) companyAdmins @
           (if companyAdmins = [] then [new_candidate (c_id company) None (Some NO_ACTIVE_ADMIN)] else [])
      else (if filter u_isActive companyAdmins = [] then [new_candidate (c_id company) None (Some NO_ACTIVE_ADMIN)] else []) @
           map (\<lambda>admin. new_candidate (c_id company) (Some admin) (if u_isActive admin then None else Some ADMIN_DEACTIVATED))
             companyAdmins)"

definition resolveCandidates :: "oid list \<Rightarrow> announcement_candidate list service" where
  "resolveCandidates targetCompanyIds = run_unscoped (
     bnd (find_all w_companies unscoped (\<lambda>c. targetCompanyIds = [] \<or> c_id c \<in> set targetCompanyIds)) (\<lambda>companies.
     if companies = [] then ret []
     else bnd (find_all w_users user_scoping
                 (\<lambda>u. u_companyId u \<in> Some ` c_id ` set companies \<and> u_role u \<in> set ANNOUNCEMENT_RECIPIENT_ROLES)) (\<lambda>admins.
          ret (concat (map (\<lambda>c. company_candidates (filter (\<lambda>u. u_companyId u = Some (c_id c)) admins) c) companies)))))"

definition reachable_candidate :: "announcement_candidate \<Rightarrow> bool" where
  "reachable_candidate c \<longleftrightarrow> acd_failureReason c = None \<and> acd_recipient c \<noteq> None"

definition resolveRecipients :: "oid list \<Rightarrow> user list service" where
  "resolveRecipients targetCompanyIds =
     bnd (resolveCandidates targetCompanyIds) (\<lambda>candidates.
     ret (map (\<lambda>c. the (acd_recipient c)) (filter reachable_candidate candidates)))"

record create_announcement_dto =
  cad_title :: string
  cad_body :: string
  cad_targetCompanyIds :: "oid list"

definition createAnnouncement :: "create_announcement_dto \<Rightarrow> oid \<Rightarrow> (oid \<times> nat \<times> announcement_state) service" where
  "createAnnouncement dto sentBy =
     bnd (resolveRecipients (cad_targetCompanyIds dto)) (\<lambda>recipients.
     bnd (guard (trim (cad_title dto) \<noteq> '''' \<and> trim (cad_body dto) \<noteq> '''') InvalidDocument) (\<lambda>_.
     bnd fresh_id (\<lambda>i.
     bnd (insert_doc w_announcements_update
       \<lparr>an_id = i, an_title = trim (cad_title dto), an_body = trim (cad_body dto), an_sentBy = sentBy,
        an_targetCompanyIds = cad_targetCompanyIds dto, an_intendedRecipientCount = length recipients,
        an_deliveredCount = 0, an_failedCount = 0, an_state = QUEUED\<rparr>) (\<lambda>_.
     bnd (enqueueFanout i) (\<lambda>_.
     ret (i, length recipients, QUEUED))))))"

definition listAnnouncements :: "announcement list service" where
  "listAnnouncements = bnd (find_all w_announcements unscoped (\<lambda>_. True)) (\<lambda>ans. ret (rev ans))"

definition findAnnouncement :: "oid \<Rightarrow> (announcement \<times> announcement_delivery list) service" where
  "findAnnouncement i =
     bnd (find_one w_announcements an_id unscoped i) (\<lambda>found.
     bnd (demand NotFound found) (\<lambda>announcement.
     bnd (find_all w_deliveries unscoped (\<lambda>d. ad_announcementId d = i \<and> ad_failureReason d \<noteq> None)) (\<lambda>failures.
     ret (announcement, failures))))"

section \<open>The job\<close>

datatype delivery_outcome = DELIVERED_OUTCOME | FAILED_OUTCOME | SKIPPED_OUTCOME

text \<open>The two partial unique indexes of the delivery rows.\<close>

definition delivery_clash :: "announcement_delivery \<Rightarrow> announcement_delivery \<Rightarrow> bool" where
  "delivery_clash a b \<longleftrightarrow> ad_announcementId a = ad_announcementId b \<and>
     ((ad_recipientUserId a \<noteq> None \<and> ad_recipientUserId a = ad_recipientUserId b) \<or>
      (ad_companyAddressed a \<and> ad_companyAddressed b \<and> ad_companyId a = ad_companyId b))"

definition delivery_row :: "oid \<Rightarrow> oid \<Rightarrow> announcement_candidate \<Rightarrow> announcement_delivery" where
  "delivery_row i announcementId c = \<lparr>ad_id = i, ad_announcementId = announcementId,
     ad_recipientUserId = map_option u_id (acd_recipient c), ad_companyAddressed = (acd_recipient c = None),
     ad_companyId = acd_companyId c, ad_notificationId = None, ad_failureReason = acd_failureReason c\<rparr>"

definition insert_delivery :: "announcement_delivery \<Rightarrow> unit service" where
  "insert_delivery d =
     bnd (asks w_deliveries) (\<lambda>ds.
     bnd (guard (\<not> list_ex (delivery_clash d) ds) DuplicateKey) (\<lambda>_.
     insert_doc w_deliveries_update d))"

definition platform_notice :: "oid \<Rightarrow> oid \<Rightarrow> oid service" where
  "platform_notice companyId recipientUserId =
     bnd fresh_id (\<lambda>i.
     bnd (tenant_key companyId) (\<lambda>c.
     bnd (insert_doc w_notifications_update
       \<lparr>n_id = i, n_companyId = c, n_recipientUserId = recipientUserId, n_type = PLATFORM_ANNOUNCEMENT,
        n_orderId = None, n_readAt = None\<rparr>) (\<lambda>_. ret i)))"

definition deliverTo :: "oid \<Rightarrow> announcement_candidate \<Rightarrow> delivery_outcome service" where
  "deliverTo announcementId c = try_catch (
     bnd fresh_id (\<lambda>i.
     bnd (insert_delivery (delivery_row i announcementId c)) (\<lambda>_.
     case (if acd_failureReason c = None then acd_recipient c else None) of
       None \<Rightarrow> ret FAILED_OUTCOME
     | Some recipient \<Rightarrow>
         bnd (try_catch (platform_notice (acd_companyId c) (u_id recipient)) (\<lambda>e.
                bnd (try_catch (delete_many w_deliveries_update unscoped (\<lambda>d. ad_id d = i)) (\<lambda>_. ret ())) (\<lambda>_.
                throw e))) (\<lambda>notificationId.
         bnd (find_and_update w_deliveries w_deliveries_update ad_id unscoped i (\<lambda>_. True)
                (\<lambda>d. d\<lparr>ad_notificationId := Some notificationId\<rparr>)) (\<lambda>_.
         ret DELIVERED_OUTCOME)))))
     (\<lambda>e. if e = DuplicateKey then ret SKIPPED_OUTCOME else throw e)"

fun deliver_all :: "oid \<Rightarrow> announcement_candidate list \<Rightarrow> (nat \<times> nat) service" where
  "deliver_all announcementId [] = ret (0, 0)"
| "deliver_all announcementId (c # candidates) =
     bnd (deliverTo announcementId c) (\<lambda>outcome.
     bnd (deliver_all announcementId candidates) (\<lambda>(delivered, failed).
     ret (case outcome of
            DELIVERED_OUTCOME \<Rightarrow> (Suc delivered, failed)
          | FAILED_OUTCOME \<Rightarrow> (delivered, Suc failed)
          | SKIPPED_OUTCOME \<Rightarrow> (delivered, failed))))"

definition complete_fanout :: "nat \<Rightarrow> nat \<Rightarrow> announcement \<Rightarrow> announcement" where
  "complete_fanout delivered failed an = an\<lparr>an_deliveredCount := an_deliveredCount an + delivered,
     an_failedCount := an_failedCount an + failed, an_state := COMPLETED\<rparr>"

definition fanOut :: "oid \<Rightarrow> unit service" where
  "fanOut announcementId = run_unscoped (
     bnd (find_one w_announcements an_id unscoped announcementId) (\<lambda>found.
     case found of
       None \<Rightarrow> ret ()
     | Some announcement \<Rightarrow>
         bnd (resolveCandidates (an_targetCompanyIds announcement)) (\<lambda>candidates.
         bnd (deliver_all announcementId candidates) (\<lambda>(delivered, failed).
         bnd (find_and_update w_announcements w_announcements_update an_id unscoped announcementId (\<lambda>_. True)
                (complete_fanout delivered failed)) (\<lambda>_. ret ())))))"

text \<open>The same job cut off once \<open>k\<close> candidates are served, as a worker that closes leaves it.\<close>

definition fanOut_cut :: "nat \<Rightarrow> oid \<Rightarrow> unit service" where
  "fanOut_cut k announcementId = run_unscoped (
     bnd (find_one w_announcements an_id unscoped announcementId) (\<lambda>found.
     case found of
       None \<Rightarrow> ret ()
     | Some announcement \<Rightarrow>
         bnd (resolveCandidates (an_targetCompanyIds announcement)) (\<lambda>candidates.
         bnd (deliver_all announcementId (take k candidates)) (\<lambda>_. ret ()))))"

section \<open>The endpoints\<close>

definition announcements_create ::
  "authenticated_user \<Rightarrow> create_announcement_dto \<Rightarrow> (oid \<times> nat \<times> announcement_state) service" where
  "announcements_create user dto = endpoint [SUPER_ADMIN] user (createAnnouncement dto (au_userId user))"

definition announcements_list :: "authenticated_user \<Rightarrow> announcement list service" where
  "announcements_list user = endpoint [SUPER_ADMIN] user listAnnouncements"

definition announcements_findOne ::
  "authenticated_user \<Rightarrow> oid \<Rightarrow> (announcement \<times> announcement_delivery list) service" where
  "announcements_findOne user i = endpoint [SUPER_ADMIN] user (findAnnouncement i)"

end
