(* ===== verification/Fanout.thy ===== *)
theory Fanout
  imports Announcements
begin

text \<open>
  What the fan-out of announcements guarantees, over any sequence of announcements, runs of the job, runs cut off
  half way, and changes of accounts and companies in between.
\<close>

section \<open>One candidate\<close>

definition notice_to :: "oid \<Rightarrow> announcement_candidate \<Rightarrow> notification" where
  "notice_to i c = \<lparr>n_id = i, n_companyId = acd_companyId c, n_recipientUserId = u_id (the (acd_recipient c)),
     n_type = PLATFORM_ANNOUNCEMENT, n_orderId = None, n_readAt = None\<rparr>"

definition already :: "oid \<Rightarrow> announcement_candidate \<Rightarrow> world \<Rightarrow> bool" where
  "already an c s \<longleftrightarrow> list_ex (delivery_clash (delivery_row 0 an c)) (w_deliveries s)"

definition after_delivery :: "oid \<Rightarrow> announcement_candidate \<Rightarrow> world \<Rightarrow> world" where
  "after_delivery an c s = (let i = w_next_id s in
     if already an c s then s\<lparr>w_next_id := Suc i\<rparr>
     else if reachable_candidate c
     then s\<lparr>w_next_id := Suc (Suc i),
            w_deliveries := w_deliveries s @ [(delivery_row i an c)\<lparr>ad_notificationId := Some (Suc i)\<rparr>],
            w_notifications := w_notifications s @ [notice_to (Suc i) c]\<rparr>
     else s\<lparr>w_next_id := Suc i, w_deliveries := w_deliveries s @ [delivery_row i an c]\<rparr>)"

definition outcome_of :: "oid \<Rightarrow> announcement_candidate \<Rightarrow> world \<Rightarrow> delivery_outcome" where
  "outcome_of an c s = (if already an c s then SKIPPED_OUTCOME else if reachable_candidate c then DELIVERED_OUTCOME
     else FAILED_OUTCOME)"

definition ids_fresh :: "world \<Rightarrow> bool" where
  "ids_fresh s \<longleftrightarrow> (\<forall>d \<in> set (w_deliveries s). ad_id d < w_next_id s)"

lemma delivery_row_fields [simp]:
  "ad_id (delivery_row i an c) = i" "ad_announcementId (delivery_row i an c) = an"
  "ad_recipientUserId (delivery_row i an c) = map_option u_id (acd_recipient c)"
  "ad_companyAddressed (delivery_row i an c) = (acd_recipient c = None)"
  "ad_companyId (delivery_row i an c) = acd_companyId c" "ad_notificationId (delivery_row i an c) = None"
  "ad_failureReason (delivery_row i an c) = acd_failureReason c"
  by (simp_all add: delivery_row_def)

lemma clash_id: "delivery_clash (delivery_row i an c) = delivery_clash (delivery_row j an c)"
  by (simp add: fun_eq_iff delivery_clash_def delivery_row_def)

lemma tenant_key_anonymous: "w_scope s = anonymous \<Longrightarrow> tenant_key c s = (Inr c, s)"
  by (simp add: tenant_key_def asks_def bnd_def of_sum_def ret_def resolveCompanyId_def anonymous_def)

lemma upd_by_fresh: "(\<forall>d \<in> set ds. key d \<noteq> i) \<Longrightarrow> upd_by key i f (ds @ [x]) = ds @ [if key x = i then f x else x]"
  by (induction ds) simp_all

lemma deliverTo_run:
  assumes "w_scope s = anonymous" and "ids_fresh s"
  shows "deliverTo an c s = (Inr (outcome_of an c s), after_delivery an c s)"
proof -
  let ?i = "w_next_id s"
  let ?t = "s\<lparr>w_next_id := Suc ?i\<rparr>"
  let ?row = "delivery_row ?i an c"
  have clash: "delivery_clash ?row = delivery_clash (delivery_row 0 an c)" by (rule clash_id)
  show ?thesis
  proof (cases "already an c s")
    case True
    then show ?thesis
      by (simp add: deliverTo_def insert_delivery_def fresh_id_def asks_def guard_def bnd_def try_catch_def ret_def
          clash already_def after_delivery_def outcome_of_def)
  next
    case new: False
    then have ins: "insert_delivery ?row ?t = (Inr (), ?t\<lparr>w_deliveries := w_deliveries s @ [?row]\<rparr>)"
      by (simp add: insert_delivery_def asks_def guard_def bnd_def insert_doc_def modify_def clash already_def)
    show ?thesis
    proof (cases "reachable_candidate c")
      case False
      then have "(if acd_failureReason c = None then acd_recipient c else None) = None"
        by (auto simp: reachable_candidate_def)
      with ins new False show ?thesis
        by (simp add: deliverTo_def fresh_id_def bnd_def try_catch_def ret_def after_delivery_def outcome_of_def Let_def)
    next
      case True
      then obtain u where u: "acd_failureReason c = None" "acd_recipient c = Some u"
        by (auto simp: reachable_candidate_def)
      have old: "\<forall>d \<in> set (w_deliveries s). ad_id d \<noteq> ?i" using assms(2) by (auto simp: ids_fresh_def)
      have got: "get_by ad_id ?i (w_deliveries s @ [?row]) = Some ?row"
        using old by (auto simp: get_by_snoc get_by_None_iff delivery_row_def split: option.splits dest: get_by_mem get_by_key)
      show ?thesis using ins new True u assms(1) old got
        by (simp add: deliverTo_def platform_notice_def fresh_id_def bnd_def try_catch_def ret_def tenant_key_anonymous
            insert_doc_def modify_def find_and_update_def cas_def upd_by_fresh after_delivery_def outcome_of_def Let_def
            notice_to_def delivery_row_def)
    qed
  qed
qed

section \<open>Once per announcement and person\<close>

definition notices :: "oid \<Rightarrow> world \<Rightarrow> nat" where
  "notices u s = length (filter (\<lambda>n. n_type n = PLATFORM_ANNOUNCEMENT \<and> n_recipientUserId n = u) (w_notifications s))"

definition notified_rows :: "oid \<Rightarrow> world \<Rightarrow> announcement_delivery list" where
  "notified_rows u s = filter (\<lambda>d. ad_recipientUserId d = Some u \<and> ad_notificationId d \<noteq> None) (w_deliveries s)"

definition reached :: "oid \<Rightarrow> world \<Rightarrow> oid set" where
  "reached u s = ad_announcementId ` set (notified_rows u s)"

definition well_delivered :: "world \<Rightarrow> bool" where
  "well_delivered s \<longleftrightarrow> ids_fresh s \<and> sorted_wrt (\<lambda>a b. \<not> delivery_clash a b) (w_deliveries s) \<and>
     (\<forall>u. notices u s = length (notified_rows u s))"

lemma well_delivered_frame:
  assumes "well_delivered s" and "w_deliveries t = w_deliveries s" "w_notifications t = w_notifications s"
    "w_next_id s \<le> w_next_id t"
  shows "well_delivered t"
  using assms by (fastforce simp: well_delivered_def ids_fresh_def notices_def notified_rows_def)

lemma clash_sym: "delivery_clash a b \<longleftrightarrow> delivery_clash b a"
  unfolding delivery_clash_def by metis

lemma clash_notified: "delivery_clash a (d\<lparr>ad_notificationId := x\<rparr>) = delivery_clash a d"
  by (simp add: delivery_clash_def)

lemma after_delivery_frame [simp]:
  "w_scope (after_delivery an c s) = w_scope s" "w_users (after_delivery an c s) = w_users s"
  "w_companies (after_delivery an c s) = w_companies s" "w_announcements (after_delivery an c s) = w_announcements s"
  by (simp_all add: after_delivery_def Let_def)

lemma after_delivery_ok: "well_delivered s \<Longrightarrow> well_delivered (after_delivery an c s)"
proof -
  assume ok: "well_delivered s"
  have fresh: "\<not> delivery_clash d (delivery_row i an c)" if "\<not> already an c s" "d \<in> set (w_deliveries s)" for d i
    using that clash_id [of i an c 0] clash_sym [of d "delivery_row i an c"] by (auto simp: already_def list_ex_iff)
  show ?thesis using ok
    by (auto simp: after_delivery_def Let_def well_delivered_def ids_fresh_def sorted_wrt_append fresh clash_notified
        notices_def notified_rows_def notice_to_def reachable_candidate_def less_Suc_eq)
qed

fun deliveries_after :: "oid \<Rightarrow> announcement_candidate list \<Rightarrow> world \<Rightarrow> world" where
  "deliveries_after an [] s = s"
| "deliveries_after an (c # cs) s = deliveries_after an cs (after_delivery an c s)"

lemma deliveries_after_frame [simp]:
  "w_scope (deliveries_after an cs s) = w_scope s" "w_users (deliveries_after an cs s) = w_users s"
  "w_companies (deliveries_after an cs s) = w_companies s"
  "w_announcements (deliveries_after an cs s) = w_announcements s"
  by (induction cs arbitrary: s) simp_all

lemma deliveries_after_ok: "well_delivered s \<Longrightarrow> well_delivered (deliveries_after an cs s)"
  by (induction cs arbitrary: s) (simp_all add: after_delivery_ok)

lemma deliver_all_run:
  assumes "w_scope s = anonymous" and "well_delivered s"
  shows "\<exists>n. deliver_all an cs s = (Inr n, deliveries_after an cs s)"
  using assms
proof (induction cs arbitrary: s)
  case (Cons c cs)
  have "deliverTo an c s = (Inr (outcome_of an c s), after_delivery an c s)"
    using Cons.prems by (intro deliverTo_run) (simp_all add: well_delivered_def)
  moreover obtain n where "deliver_all an cs (after_delivery an c s) = (Inr n, deliveries_after an cs (after_delivery an c s))"
    using Cons.IH [of "after_delivery an c s"] Cons.prems by (auto simp: after_delivery_ok)
  ultimately show ?case by (cases n) (simp add: bnd_def ret_def)
qed (simp add: ret_def)

lemma resolveCandidates_state: "\<exists>cs. resolveCandidates targets s = (Inr cs, s)"
  by (simp add: resolveCandidates_def run_unscoped_def bnd_def find_all_def ret_def tenant_scoped_def resolveCompanyId_def
      anonymous_def)

lemma scope_ok: "well_delivered (s\<lparr>w_scope := c\<rparr>) \<longleftrightarrow> well_delivered s"
  by (auto intro: well_delivered_frame)

text \<open>Either form of the job leaves the rows and notifications of the candidates it served.\<close>

definition as_served :: "oid \<Rightarrow> announcement_candidate list \<Rightarrow> world \<Rightarrow> world \<Rightarrow> bool" where
  "as_served i cs s s' \<longleftrightarrow> (let d = deliveries_after i cs (s\<lparr>w_scope := anonymous\<rparr>)
     in w_deliveries s' = w_deliveries d \<and> w_notifications s' = w_notifications d \<and> w_next_id s' = w_next_id d)"

lemma as_served_ok: "as_served i cs s s' \<Longrightarrow> well_delivered s \<Longrightarrow> well_delivered s'"
proof -
  assume served: "as_served i cs s s'" and "well_delivered s"
  then have "well_delivered (deliveries_after i cs (s\<lparr>w_scope := anonymous\<rparr>))" by (simp add: deliveries_after_ok scope_ok)
  with served show ?thesis by (auto simp: as_served_def Let_def intro: well_delivered_frame)
qed

lemma jobs_serve:
  assumes ok: "well_delivered s"
  shows "\<exists>cs. as_served i cs s (snd (fanOut i s))" "\<exists>cs. as_served i cs s (snd (fanOut_cut k i s))"
proof -
  let ?t = "s\<lparr>w_scope := anonymous\<rparr>"
  have "(\<exists>cs. as_served i cs s (snd (fanOut i s))) \<and> (\<exists>cs. as_served i cs s (snd (fanOut_cut k i s)))"
  proof (cases "get_by an_id i (w_announcements s)")
    case None
    then have "as_served i [] s (snd (fanOut i s))" "as_served i [] s (snd (fanOut_cut k i s))"
      by (simp_all add: as_served_def fanOut_def fanOut_cut_def run_unscoped_def bnd_def find_one_def ret_def)
    then show ?thesis by blast
  next
    case (Some an)
    obtain cs where cs: "resolveCandidates (an_targetCompanyIds an) ?t = (Inr cs, ?t)" using resolveCandidates_state by blast
    have run: "\<exists>n. deliver_all i xs ?t = (Inr n, deliveries_after i xs ?t)" for xs
      using deliver_all_run [of ?t i xs] ok by (simp add: scope_ok)
    obtain a b where "deliver_all i cs ?t = (Inr (a, b), deliveries_after i cs ?t)" using run [of cs] by auto
    with Some cs have "as_served i cs s (snd (fanOut i s))"
      by (simp add: as_served_def fanOut_def run_unscoped_def bnd_def find_one_def ret_def find_and_update_def cas_def)
    moreover obtain n where "deliver_all i (take k cs) ?t = (Inr n, deliveries_after i (take k cs) ?t)"
      using run [of "take k cs"] by auto
    with Some cs have "as_served i (take k cs) s (snd (fanOut_cut k i s))"
      by (simp add: as_served_def fanOut_cut_def run_unscoped_def bnd_def find_one_def ret_def)
    ultimately show ?thesis by blast
  qed
  then show "\<exists>cs. as_served i cs s (snd (fanOut i s))" "\<exists>cs. as_served i cs s (snd (fanOut_cut k i s))" by blast+
qed

lemma keeps_announcing:
  assumes frame: "\<And>s t. P s \<Longrightarrow> w_deliveries t = w_deliveries s \<Longrightarrow> w_notifications t = w_notifications s \<Longrightarrow>
      w_next_id s \<le> w_next_id t \<Longrightarrow> P t"
  shows "keeps P (announcements_create user dto)"
proof -
  have resolve: "keeps P (resolveCandidates ts)" for ts
    by (rule keepsI) (metis resolveCandidates_state prod.inject)
  have inner: "keeps P (createAnnouncement dto i)" for i
    unfolding createAnnouncement_def resolveRecipients_def enqueueFanout_def queue_add_def
    by (intro keeps_bnd keeps_basic keeps_insert_doc keeps_fresh_id keeps_modify resolve) (auto intro: frame)
  show ?thesis
    unfolding announcements_create_def endpoint_def
  proof (intro keeps_bnd keeps_basic)
    show "keeps P (intercept user (createAnnouncement dto (au_userId user)))"
    proof (rule keepsI)
      fix s r s' assume ok: "P s" and "intercept user (createAnnouncement dto (au_userId user)) s = (r, s')"
      then obtain s1 where s1: "createAnnouncement dto (au_userId user) (s\<lparr>w_scope := scope_of user\<rparr>) = (r, s1)"
        "s' = s1\<lparr>w_scope := w_scope s\<rparr>" by (auto simp: intercept_def split: prod.splits)
      have "P (s\<lparr>w_scope := scope_of user\<rparr>)" using ok by (rule frame) simp_all
      with keepsD [OF inner s1(1)] have "P s1" by blast
      then show "P s'" unfolding s1(2) by (rule frame) simp_all
    qed
  qed
qed

inductive fanout_step :: "world \<Rightarrow> world \<Rightarrow> bool" where
  announces: "fanout_step s (snd (announcements_create user dto s))"
| runs: "fanout_step s (snd (fanOut i s))"
| is_cut_off: "fanout_step s (snd (fanOut_cut k i s))"
| meanwhile: "fanout_step s (s\<lparr>w_users := us, w_companies := cs\<rparr>)"

lemma fanout_step_ok: "fanout_step s s' \<Longrightarrow> well_delivered s \<Longrightarrow> well_delivered s'"
proof (induction rule: fanout_step.induct)
  case (announces s user dto)
  moreover have "keeps well_delivered (announcements_create user dto)"
    by (rule keeps_announcing) (rule well_delivered_frame)
  ultimately show ?case by (simp add: keeps_def)
qed (auto dest: jobs_serve as_served_ok intro: well_delivered_frame)

lemma distinct_keys: "sorted_wrt (\<lambda>a b. f a \<noteq> f b) xs \<Longrightarrow> distinct (map f xs)"
  by (induction xs) auto

lemma notified_once:
  assumes "well_delivered s"
  shows "distinct (map ad_announcementId (notified_rows u s))"
proof -
  have "sorted_wrt (\<lambda>a b. \<not> delivery_clash a b) (notified_rows u s)"
    using assms by (simp add: well_delivered_def notified_rows_def sorted_wrt_filter)
  then have "sorted_wrt (\<lambda>a b. ad_announcementId a \<noteq> ad_announcementId b) (notified_rows u s)"
    by (rule sorted_wrt_mono_rel [rotated]) (auto simp: delivery_clash_def notified_rows_def)
  then show ?thesis by (rule distinct_keys)
qed

text \<open>C21: whatever the sequence of announcements, of runs of their job, of runs cut off between two candidates and
  of changes to accounts and companies in between, a person has exactly one notification for each announcement
  that reached them: a job delivered again never notifies anyone twice.\<close>

theorem announcement_reaches_once:
  assumes "fanout_step\<^sup>*\<^sup>* s s'" and "well_delivered s"
  shows "well_delivered s' \<and> notices u s' = card (reached u s')"
proof -
  have ok: "well_delivered s'" using assms by (induction) (auto dest: fanout_step_ok)
  have "card (reached u s') = length (map ad_announcementId (notified_rows u s'))"
    unfolding reached_def using distinct_card [OF notified_once [OF ok, of u]] by simp
  with ok show ?thesis by (simp add: well_delivered_def)
qed

section \<open>A complete run\<close>

text \<open>What a row is unique by: the person, or the company that has nobody to name.\<close>

definition candidate_key :: "announcement_candidate \<Rightarrow> oid + oid" where
  "candidate_key c = (case acd_recipient c of None \<Rightarrow> Inr (acd_companyId c) | Some u \<Rightarrow> Inl (u_id u))"

definition notice_of :: "announcement_candidate \<Rightarrow> notification \<Rightarrow> bool" where
  "notice_of c n \<longleftrightarrow> reachable_candidate c \<and> n_recipientUserId n = u_id (the (acd_recipient c)) \<and>
     n_companyId n = acd_companyId c \<and> n_type n = PLATFORM_ANNOUNCEMENT \<and> n_readAt n = None"

lemma already_after:
  assumes "candidate_key c \<noteq> candidate_key c'" and "\<not> already an c s"
  shows "\<not> already an c (after_delivery an c' s)"
  using assms
  by (auto simp: already_def after_delivery_def Let_def delivery_clash_def candidate_key_def list_ex_iff
      split: option.splits)

lemma notices_after:
  assumes "\<not> already an c s"
  shows "notices u (after_delivery an c s) =
    notices u s + of_bool (reachable_candidate c \<and> u_id (the (acd_recipient c)) = u)"
  using assms by (auto simp: after_delivery_def Let_def notices_def notice_to_def)

lemma new_notices_after:
  assumes "n \<in> set (w_notifications (after_delivery an c s))"
  shows "n \<in> set (w_notifications s) \<or> notice_of c n"
  using assms by (auto simp: after_delivery_def Let_def notice_of_def notice_to_def split: if_splits)

lemma deliver_all_fresh:
  assumes "w_scope s = anonymous" and "well_delivered s" and "\<forall>c \<in> set cs. \<not> already an c s"
    and "distinct (map candidate_key cs)"
  shows "deliver_all an cs s = (Inr (length (filter reachable_candidate cs),
        length (filter (\<lambda>c. \<not> reachable_candidate c) cs)), deliveries_after an cs s) \<and>
     (\<forall>u. notices u (deliveries_after an cs s) =
        notices u s + length (filter (\<lambda>c. reachable_candidate c \<and> u_id (the (acd_recipient c)) = u) cs)) \<and>
     (\<forall>n \<in> set (w_notifications (deliveries_after an cs s)). n \<in> set (w_notifications s) \<or> (\<exists>c \<in> set cs. notice_of c n))"
  using assms
proof (induction cs arbitrary: s)
  case (Cons c cs)
  let ?t = "after_delivery an c s"
  have "deliverTo an c s = (Inr (outcome_of an c s), ?t)"
    using Cons.prems by (intro deliverTo_run) (simp_all add: well_delivered_def)
  moreover have "\<forall>c' \<in> set cs. \<not> already an c' ?t"
  proof
    fix c' assume c': "c' \<in> set cs"
    then have "candidate_key c' \<noteq> candidate_key c" using Cons.prems(4) by (metis distinct.simps(2) image_eqI list.set_map list.simps(9))
    then show "\<not> already an c' ?t" using Cons.prems(3) c' by (simp add: already_after)
  qed
  ultimately show ?case
    using Cons.IH [of ?t] Cons.prems notices_after [of an c s]
    by (auto simp: after_delivery_ok bnd_def ret_def outcome_of_def dest: new_notices_after)
qed (simp add: ret_def)

definition addressed :: "announcement \<Rightarrow> world \<Rightarrow> user \<Rightarrow> bool" where
  "addressed an s u \<longleftrightarrow> u_isActive u \<and> u_role u \<in> set ANNOUNCEMENT_RECIPIENT_ROLES \<and>
     (\<exists>c \<in> set (w_companies s). u_companyId u = Some (c_id c) \<and> c_status c = ACTIVE \<and>
        (an_targetCompanyIds an = [] \<or> c_id c \<in> set (an_targetCompanyIds an)))"

definition all_candidates :: "oid list \<Rightarrow> world \<Rightarrow> announcement_candidate list" where
  "all_candidates targets s =
     concat (map (\<lambda>c. company_candidates
         (filter (\<lambda>u. u_companyId u = Some (c_id c) \<and> u_role u \<in> set ANNOUNCEMENT_RECIPIENT_ROLES) (w_users s)) c)
       (filter (\<lambda>c. targets = [] \<or> c_id c \<in> set targets) (w_companies s)))"

lemma resolve_run: "resolveCandidates targets s = (Inr (all_candidates targets s), s)"
proof -
  let ?cs = "filter (\<lambda>c. targets = [] \<or> c_id c \<in> set targets) (w_companies s)"
  have "filter (\<lambda>u. u_companyId u = Some (c_id c)) (filter (\<lambda>u. u_companyId u \<in> Some ` c_id ` set ?cs \<and>
            u_role u \<in> set ANNOUNCEMENT_RECIPIENT_ROLES) (w_users s)) =
        filter (\<lambda>u. u_companyId u = Some (c_id c) \<and> u_role u \<in> set ANNOUNCEMENT_RECIPIENT_ROLES) (w_users s)"
    if "c \<in> set ?cs" for c
    unfolding filter_filter using that by (intro filter_cong refl) blast
  then have each: "map (\<lambda>c. company_candidates (filter (\<lambda>u. u_companyId u = Some (c_id c))
          (filter (\<lambda>u. u_companyId u \<in> Some ` c_id ` set ?cs \<and> u_role u \<in> set ANNOUNCEMENT_RECIPIENT_ROLES) (w_users s))) c) ?cs =
      map (\<lambda>c. company_candidates
         (filter (\<lambda>u. u_companyId u = Some (c_id c) \<and> u_role u \<in> set ANNOUNCEMENT_RECIPIENT_ROLES) (w_users s)) c) ?cs"
    by (intro map_cong refl) simp
  show ?thesis
  proof (cases "?cs = []")
    case True
    then show ?thesis by (simp add: resolveCandidates_def run_unscoped_def bnd_def find_all_def ret_def all_candidates_def)
  next
    case False
    then show ?thesis
      unfolding all_candidates_def each [symmetric]
      by (simp add: resolveCandidates_def run_unscoped_def bnd_def find_all_def ret_def tenant_scoped_def
          resolveCompanyId_def anonymous_def)
  qed
qed

lemma company_candidates_keys:
  assumes "distinct (map u_id us)"
  shows "distinct (map candidate_key (company_candidates us c))"
    "\<And>x. x \<in> set (company_candidates us c) \<Longrightarrow> acd_companyId x = c_id c \<and> (\<forall>u. acd_recipient x = Some u \<longrightarrow> u \<in> set us)"
  using assms
  by (auto simp: company_candidates_def new_candidate_def candidate_key_def distinct_map inj_on_def split: if_splits)

lemma candidates_distinct:
  assumes "distinct (map c_id cs)" and "distinct (map u_id us)"
  shows "distinct (map candidate_key (concat (map (\<lambda>c. company_candidates
     (filter (\<lambda>u. u_companyId u = Some (c_id c) \<and> P u) us) c) cs)))"
  using assms(1)
proof (induction cs)
  case (Cons c cs)
  let ?f = "\<lambda>c. company_candidates (filter (\<lambda>u. u_companyId u = Some (c_id c) \<and> P u) us) c"
  have us: "distinct (map u_id (filter Q us))" for Q using assms(2) by (simp add: distinct_map_filter)
  have "candidate_key x \<noteq> candidate_key y" if x: "x \<in> set (?f c)" and c': "c' \<in> set cs" and y: "y \<in> set (?f c')" for x y c'
  proof
    assume eq: "candidate_key x = candidate_key y"
    have ne: "c_id c \<noteq> c_id c'" using Cons.prems c' by auto
    note X = company_candidates_keys(2) [OF us x] and Y = company_candidates_keys(2) [OF us y]
    from eq X Y ne show False
      using assms(2) by (auto simp: candidate_key_def distinct_map inj_on_def split: option.splits)
  qed
  then show ?case using Cons company_candidates_keys(1) [OF us] by (auto simp: image_iff)
qed simp

lemma recipients_are_addressed:
  fixes an :: announcement
  assumes "distinct (map u_id (w_users s))" and "distinct (map c_id (w_companies s))"
  defines "cs \<equiv> all_candidates (an_targetCompanyIds an) s"
  shows "(\<lambda>c. the (acd_recipient c)) ` {c \<in> set cs. reachable_candidate c} = {u \<in> set (w_users s). addressed an s u}"
    "\<And>c. c \<in> set cs \<Longrightarrow> reachable_candidate c \<Longrightarrow> u_companyId (the (acd_recipient c)) = Some (acd_companyId c)"
    "distinct (map (\<lambda>c. u_id (the (acd_recipient c))) (filter reachable_candidate cs))"
proof -
  have one: "x \<in> set (company_candidates us c) \<and> reachable_candidate x \<longleftrightarrow>
      (\<exists>u \<in> set us. x = new_candidate (c_id c) (Some u) None \<and> u_isActive u \<and> c_status c = ACTIVE)" for us c x
    by (auto simp: company_candidates_def new_candidate_def reachable_candidate_def split: if_splits)
  let ?ok = "\<lambda>c. c \<in> set (w_companies s) \<and> (an_targetCompanyIds an = [] \<or> c_id c \<in> set (an_targetCompanyIds an))"
  have all: "x \<in> set cs \<and> reachable_candidate x \<longleftrightarrow> (\<exists>c u. ?ok c \<and> c_status c = ACTIVE \<and> u \<in> set (w_users s) \<and>
        u_companyId u = Some (c_id c) \<and> u_role u \<in> set ANNOUNCEMENT_RECIPIENT_ROLES \<and> u_isActive u \<and>
        x = new_candidate (c_id c) (Some u) None)" for x
  proof -
    let ?F = "\<lambda>c. company_candidates (filter (\<lambda>u. u_companyId u = Some (c_id c) \<and>
        u_role u \<in> set ANNOUNCEMENT_RECIPIENT_ROLES) (w_users s)) c"
    have "x \<in> set cs \<longleftrightarrow> (\<exists>c. ?ok c \<and> x \<in> set (?F c))" by (auto simp: cs_def all_candidates_def)
    then have "x \<in> set cs \<and> reachable_candidate x \<longleftrightarrow> (\<exists>c. ?ok c \<and> (x \<in> set (?F c) \<and> reachable_candidate x))" by blast
    also have "\<dots> \<longleftrightarrow> (\<exists>c u. ?ok c \<and> c_status c = ACTIVE \<and> u \<in> set (w_users s) \<and>
        u_companyId u = Some (c_id c) \<and> u_role u \<in> set ANNOUNCEMENT_RECIPIENT_ROLES \<and> u_isActive u \<and>
        x = new_candidate (c_id c) (Some u) None)"
      unfolding one set_filter mem_Collect_eq by blast
    finally show ?thesis .
  qed
  show "(\<lambda>c. the (acd_recipient c)) ` {c \<in> set cs. reachable_candidate c} = {u \<in> set (w_users s). addressed an s u}"
  proof (rule set_eqI)
    fix u
    have "u \<in> (\<lambda>c. the (acd_recipient c)) ` {c \<in> set cs. reachable_candidate c} \<longleftrightarrow>
        (\<exists>x. (x \<in> set cs \<and> reachable_candidate x) \<and> u = the (acd_recipient x))" by blast
    also have "\<dots> \<longleftrightarrow> (\<exists>c. ?ok c \<and> c_status c = ACTIVE \<and> u \<in> set (w_users s) \<and> u_companyId u = Some (c_id c) \<and>
        u_role u \<in> set ANNOUNCEMENT_RECIPIENT_ROLES \<and> u_isActive u)"
      (is "?L \<longleftrightarrow> ?R")
    proof
      assume ?L
      then show ?R unfolding all by (auto simp: new_candidate_def)
    next
      assume ?R
      then obtain c where "?ok c" "c_status c = ACTIVE" "u \<in> set (w_users s)" "u_companyId u = Some (c_id c)"
        "u_role u \<in> set ANNOUNCEMENT_RECIPIENT_ROLES" "u_isActive u" by blast
      then show ?L unfolding all by (intro exI [of _ "new_candidate (c_id c) (Some u) None"]) (auto simp: new_candidate_def)
    qed
    also have "\<dots> \<longleftrightarrow> u \<in> {u \<in> set (w_users s). addressed an s u}" unfolding addressed_def by blast
    finally show "u \<in> (\<lambda>c. the (acd_recipient c)) ` {c \<in> set cs. reachable_candidate c} \<longleftrightarrow>
        u \<in> {u \<in> set (w_users s). addressed an s u}" .
  qed
  show "u_companyId (the (acd_recipient c)) = Some (acd_companyId c)" if "c \<in> set cs" "reachable_candidate c" for c
    using all [of c] that by (auto simp: new_candidate_def)
  have "distinct (map candidate_key cs)"
    unfolding cs_def all_candidates_def using assms(1,2) by (intro candidates_distinct distinct_map_filter)
  then have "distinct (map candidate_key (filter reachable_candidate cs))" by (rule distinct_map_filter)
  moreover have "map candidate_key (filter reachable_candidate cs) =
      map Inl (map (\<lambda>c. u_id (the (acd_recipient c))) (filter reachable_candidate cs))"
    unfolding map_map by (rule map_cong) (auto simp: candidate_key_def reachable_candidate_def)
  ultimately show "distinct (map (\<lambda>c. u_id (the (acd_recipient c))) (filter reachable_candidate cs))"
    by (metis distinct_map)
qed

lemma count_one:
  assumes "distinct (map f (filter P xs))"
  shows "length (filter (\<lambda>x. P x \<and> f x = v) xs) = of_bool (v \<in> f ` {x \<in> set xs. P x})"
  using assms
proof (induction xs)
  case (Cons a xs)
  show ?case
  proof (cases "P a \<and> f a = v")
    case True
    then have "filter (\<lambda>x. P x \<and> f x = v) xs = []" using Cons.prems
      by (simp add: filter_empty_conv) (metis (mono_tags, lifting) image_eqI mem_Collect_eq)
    with True show ?thesis by auto
  next
    case False
    moreover have "distinct (map f (filter P xs))" using Cons.prems by (simp split: if_splits)
    ultimately show ?thesis using Cons.IH by (auto simp: of_bool_def)
  qed
qed simp

text \<open>C22: one run of the job for an announcement nobody has received yet notifies each active administrator of each
  active company it addresses exactly once and nobody else, stamps each notification with the recipient's own
  company, and records as delivered the number the composer was told when accounts are as they were then.\<close>

theorem fanout_completes:
  assumes "get_by an_id i (w_announcements s) = Some an" and "\<forall>d \<in> set (w_deliveries s). ad_announcementId d \<noteq> i"
    and "well_delivered s" and "distinct (map u_id (w_users s))" "distinct (map c_id (w_companies s))"
    and "fanOut i s = (r, s')"
  shows "\<exists>us missed. resolveRecipients (an_targetCompanyIds an) s = (Inr us, s) \<and>
     set us = {u \<in> set (w_users s). addressed an s u} \<and>
     (\<forall>v. notices v s' = notices v s + of_bool (v \<in> u_id ` set us)) \<and>
     (\<forall>n \<in> set (w_notifications s'). n \<in> set (w_notifications s) \<or>
        (\<exists>u \<in> set us. n_recipientUserId n = u_id u \<and> u_companyId u = Some (n_companyId n))) \<and>
     r = Inr () \<and> get_by an_id i (w_announcements s') = Some (complete_fanout (length us) missed an)"
proof -
  let ?t = "s\<lparr>w_scope := anonymous\<rparr>"
  let ?cs = "all_candidates (an_targetCompanyIds an) ?t"
  let ?us = "map (\<lambda>c. the (acd_recipient c)) (filter reachable_candidate ?cs)"
  let ?missed = "length (filter (\<lambda>c. \<not> reachable_candidate c) ?cs)"
  let ?d = "deliveries_after i ?cs ?t"
  have cs: "all_candidates (an_targetCompanyIds an) s = ?cs" by (simp add: all_candidates_def)
  have "distinct (map candidate_key ?cs)"
    unfolding all_candidates_def using assms(4,5) by (intro candidates_distinct distinct_map_filter) simp_all
  moreover have "\<forall>c \<in> set ?cs. \<not> already i c ?t"
    using assms(2) by (auto simp: already_def list_ex_iff delivery_clash_def)
  ultimately have d: "deliver_all i ?cs ?t = (Inr (length ?us, ?missed), ?d)"
    and n: "\<And>u. notices u ?d = notices u ?t + length (filter (\<lambda>c. reachable_candidate c \<and> u_id (the (acd_recipient c)) = u) ?cs)"
    and new: "\<forall>n \<in> set (w_notifications ?d). n \<in> set (w_notifications ?t) \<or> (\<exists>c \<in> set ?cs. notice_of c n)"
    using deliver_all_fresh [of ?t ?cs i] assms(3) by (simp_all add: scope_ok)
  have run: "r = Inr ()" "s' = ?d\<lparr>w_announcements := upd_by an_id i (complete_fanout (length ?us) ?missed) (w_announcements s),
      w_scope := w_scope s\<rparr>"
    using assms(6,1) d resolve_run [of "an_targetCompanyIds an" ?t]
    by (auto simp: fanOut_def run_unscoped_def bnd_def find_one_def ret_def find_and_update_def cas_def)
  note who = recipients_are_addressed [where an = an and s = s, OF assms(4,5), unfolded cs]
  have us: "set ?us = {u \<in> set (w_users s). addressed an s u}" using who(1) by (simp add: Collect_conj_eq set_filter)
  have count: "notices v s' = notices v s + of_bool (v \<in> u_id ` set ?us)" for v
    using n [of v] count_one [OF who(3), of v] by (simp add: run(2) notices_def image_image)
  have stamped: "\<forall>n \<in> set (w_notifications s'). n \<in> set (w_notifications s) \<or>
      (\<exists>u \<in> set ?us. n_recipientUserId n = u_id u \<and> u_companyId u = Some (n_companyId n))"
    using new who(2) by (auto simp: run(2) notice_of_def) metis
  have "resolveRecipients (an_targetCompanyIds an) s = (Inr ?us, s)"
    using resolve_run [of "an_targetCompanyIds an" s] by (simp add: resolveRecipients_def bnd_def ret_def cs)
  moreover have "get_by an_id i (w_announcements s') = Some (complete_fanout (length ?us) ?missed an)"
    using assms(1) by (simp add: run(2) get_by_upd_by complete_fanout_def)
  ultimately show ?thesis using us count stamped run(1) by blast
qed

section \<open>What a second run does not repair\<close>

text \<open>Rows are only ever added.\<close>

lemma deliveries_after_extends: "\<exists>ds. w_deliveries (deliveries_after an cs s) = w_deliveries s @ ds"
proof (induction cs arbitrary: s)
  case (Cons c cs)
  have "\<exists>ds. w_deliveries (after_delivery an c s) = w_deliveries s @ ds" by (simp add: after_delivery_def Let_def)
  with Cons [of "after_delivery an c s"] show ?case by auto
qed simp

lemma created_rows: "w_deliveries (snd (announcements_create user dto s)) = w_deliveries s"
proof -
  have "keeps (\<lambda>t. w_deliveries t = w_deliveries s) (announcements_create user dto)" by (rule keeps_announcing) simp
  then show ?thesis by (simp add: keeps_def)
qed

lemma step_extends:
  assumes "fanout_step s s'" and "well_delivered s"
  shows "\<exists>ds. w_deliveries s' = w_deliveries s @ ds"
  using assms
proof (induction rule: fanout_step.induct)
  case (announces s user dto)
  then show ?case by (simp add: created_rows)
next
  case (runs s i)
  then obtain cs where "as_served i cs s (snd (fanOut i s))" using jobs_serve by blast
  then show ?case using deliveries_after_extends [of i cs "s\<lparr>w_scope := anonymous\<rparr>"] by (simp add: as_served_def Let_def)
next
  case (is_cut_off s k i)
  then obtain cs where "as_served i cs s (snd (fanOut_cut k i s))" using jobs_serve by blast
  then show ?case using deliveries_after_extends [of i cs "s\<lparr>w_scope := anonymous\<rparr>"] by (simp add: as_served_def Let_def)
qed simp

lemma sorted_unique:
  assumes "sorted_wrt (\<lambda>a b. \<not> delivery_clash a b) ds" and "a \<in> set ds" "b \<in> set ds" "delivery_clash a b"
  shows "a = b"
  using assms by (induction ds) (auto simp: clash_sym)

text \<open>A person recorded as missed by an announcement, a deactivated administrator say, is never notified of it
  later, however often the job runs again and although the account has been reinstated in between.\<close>

theorem missed_stays_missed:
  assumes "fanout_step\<^sup>*\<^sup>* s s'" and "well_delivered s"
    and "d \<in> set (w_deliveries s)" "ad_announcementId d = i" "ad_recipientUserId d = Some u" "ad_notificationId d = None"
  shows "i \<notin> reached u s'"
proof -
  have ok: "well_delivered s' \<and> (\<exists>ds. w_deliveries s' = w_deliveries s @ ds)"
    using assms(1,2)
  proof (induction)
    case (step y z)
    then obtain ds where "w_deliveries y = w_deliveries s @ ds" "well_delivered y" by blast
    moreover obtain es where "w_deliveries z = w_deliveries y @ es" using step_extends [OF step.hyps(2)] calculation by blast
    ultimately show ?case using fanout_step_ok [OF step.hyps(2)] by simp
  qed simp
  then have d: "d \<in> set (w_deliveries s')" using assms(3) by auto
  have "e = d" if "e \<in> set (w_deliveries s')" "ad_announcementId e = i" "ad_recipientUserId e = Some u" for e
    using sorted_unique [of "w_deliveries s'" e d] ok d that assms(4,5)
    by (auto simp: well_delivered_def delivery_clash_def)
  with assms(6) show ?thesis by (force simp: reached_def notified_rows_def)
qed

text \<open>A candidate served once is skipped ever after, and the others are not affected.\<close>

lemma already_self: "already an c (after_delivery an c s)"
  by (cases "acd_recipient c")
    (auto simp: already_def after_delivery_def Let_def delivery_clash_def list_ex_iff reachable_candidate_def)

lemma already_kept: "already an c s \<Longrightarrow> already an c (deliveries_after an cs s)"
  using deliveries_after_extends [of an cs s] by (auto simp: already_def list_ex_iff)

lemma already_served: "c \<in> set cs \<Longrightarrow> already an c (deliveries_after an cs s)"
  by (induction cs arbitrary: s) (auto intro: already_self already_kept)

lemma not_already_others:
  "\<not> already an c s \<Longrightarrow> candidate_key c \<notin> candidate_key ` set cs \<Longrightarrow> \<not> already an c (deliveries_after an cs s)"
  by (induction cs arbitrary: s) (simp_all add: already_after)

lemma deliver_all_skip:
  assumes "w_scope s = anonymous" and "well_delivered s" and "\<forall>c \<in> set cs. already an c s"
  shows "\<exists>n \<ge> w_next_id s. deliver_all an (cs @ ds) s = deliver_all an ds (s\<lparr>w_next_id := n\<rparr>)"
  using assms
proof (induction cs arbitrary: s)
  case Nil
  show ?case by (intro exI [of _ "w_next_id s"]) simp
next
  case (Cons c cs)
  let ?t = "s\<lparr>w_next_id := Suc (w_next_id s)\<rparr>"
  have "deliverTo an c s = (Inr SKIPPED_OUTCOME, ?t)"
    using Cons.prems deliverTo_run [of s an c] by (simp add: well_delivered_def outcome_of_def after_delivery_def Let_def)
  then have step: "deliver_all an ((c # cs) @ ds) s = deliver_all an (cs @ ds) ?t"
    by (auto simp: bnd_def ret_def split: prod.splits sum.splits)
  have "well_delivered ?t" using Cons.prems(2) by (rule well_delivered_frame) simp_all
  then obtain n where "n \<ge> w_next_id ?t" "deliver_all an (cs @ ds) ?t = deliver_all an ds (?t\<lparr>w_next_id := n\<rparr>)"
    using Cons.IH [of ?t] Cons.prems by (auto simp: already_def)
  with step show ?case by (intro exI [of _ n]) simp
qed

lemma halves:
  "distinct (map f xs) \<Longrightarrow> distinct (map f (take k xs)) \<and> distinct (map f (drop k xs)) \<and>
     f ` set (take k xs) \<inter> f ` set (drop k xs) = {}"
  by (metis append_take_drop_id distinct_append list.set_map map_append)

lemma length_halves: "length (filter P (take k xs)) + length (filter P (drop k xs)) = length (filter P xs)"
  by (metis append_take_drop_id filter_append length_append)

lemma scope_self: "w_scope s = c \<Longrightarrow> s\<lparr>w_scope := c\<rparr> = s"
  by (cases s) simp

lemma all_candidates_frame:
  "w_users t = w_users s \<Longrightarrow> w_companies t = w_companies s \<Longrightarrow> all_candidates targets t = all_candidates targets s"
  by (simp add: all_candidates_def)

lemma fanOut_found:
  assumes "get_by an_id i (w_announcements s) = Some an"
    and "deliver_all i (all_candidates (an_targetCompanyIds an) s) (s\<lparr>w_scope := anonymous\<rparr>) = (Inr (a, b), d)"
  shows "fanOut i s = (Inr (), (w_announcements_update (upd_by an_id i (complete_fanout a b)) d)\<lparr>w_scope := w_scope s\<rparr>)
     \<or> get_by an_id i (w_announcements d) = None"
  using assms resolve_run [of "an_targetCompanyIds an" "s\<lparr>w_scope := anonymous\<rparr>"]
    all_candidates_frame [of "s\<lparr>w_scope := anonymous\<rparr>" s]
  by (cases "get_by an_id i (w_announcements d)")
    (simp_all add: fanOut_def run_unscoped_def bnd_def find_one_def ret_def find_and_update_def cas_def)

lemma second_run:
  assumes "w_scope s = anonymous" and "well_delivered s" and "\<forall>c \<in> set cs. \<not> already i c s"
    and "distinct (map candidate_key cs)"
  shows "\<exists>e. deliver_all i cs (deliveries_after i (take k cs) s) = (Inr (length (filter reachable_candidate (drop k cs)),
        length (filter (\<lambda>c. \<not> reachable_candidate c) (drop k cs))), e) \<and> w_announcements e = w_announcements s \<and>
     (\<forall>v. notices v e = notices v s + length (filter (\<lambda>c. reachable_candidate c \<and> u_id (the (acd_recipient c)) = v) cs))"
proof -
  let ?d = "deliveries_after i (take k cs) s"
  note h = halves [OF assms(4), of k]
  have ok: "well_delivered ?d" using assms(2) by (rule deliveries_after_ok)
  have first: "notices v ?d = notices v s +
      length (filter (\<lambda>c. reachable_candidate c \<and> u_id (the (acd_recipient c)) = v) (take k cs))" for v
    using deliver_all_fresh [of s "take k cs" i] assms h by (auto dest: in_set_takeD)
  obtain n where n: "n \<ge> w_next_id ?d" "deliver_all i cs ?d = deliver_all i (drop k cs) (?d\<lparr>w_next_id := n\<rparr>)"
    using deliver_all_skip [of ?d "take k cs" i "drop k cs"] ok assms(1) by (auto simp: already_served)
  let ?e = "?d\<lparr>w_next_id := n\<rparr>"
  have "well_delivered ?e" using ok n(1) by (auto intro: well_delivered_frame)
  moreover have "\<forall>c \<in> set (drop k cs). \<not> already i c ?e"
  proof
    fix c assume c: "c \<in> set (drop k cs)"
    then have "\<not> already i c ?d" using h assms(3) by (intro not_already_others) (auto dest: in_set_dropD)
    then show "\<not> already i c ?e" by (simp add: already_def)
  qed
  ultimately have "deliver_all i (drop k cs) ?e = (Inr (length (filter reachable_candidate (drop k cs)),
        length (filter (\<lambda>c. \<not> reachable_candidate c) (drop k cs))), deliveries_after i (drop k cs) ?e)"
    and "\<And>v. notices v (deliveries_after i (drop k cs) ?e) = notices v ?d +
        length (filter (\<lambda>c. reachable_candidate c \<and> u_id (the (acd_recipient c)) = v) (drop k cs))"
    using deliver_all_fresh [of ?e "drop k cs" i] h assms(1) by (simp_all add: notices_def)
  then show ?thesis
    using n(2) first length_halves [of _ k cs] by (intro exI [of _ "deliveries_after i (drop k cs) ?e"]) simp
qed

text \<open>An announcement whose first run was cut off is completed by the second run, and everyone addressed has
  their one notification; but the delivered count of the announcement misses all those the first run served.\<close>

theorem cut_run_is_not_counted:
  assumes "get_by an_id i (w_announcements s) = Some an" and "\<forall>d \<in> set (w_deliveries s). ad_announcementId d \<noteq> i"
    and "well_delivered s" and "distinct (map u_id (w_users s))" "distinct (map c_id (w_companies s))"
    and "fanOut_cut k i s = (r, t)" "fanOut i t = (r', s')"
  shows "\<exists>us an'. resolveRecipients (an_targetCompanyIds an) s = (Inr us, s) \<and>
     get_by an_id i (w_announcements s') = Some an' \<and> an_state an' = COMPLETED \<and>
     (\<forall>v. notices v s' = notices v s + of_bool (v \<in> u_id ` set us)) \<and>
     an_deliveredCount an' + length (filter reachable_candidate (take k (all_candidates (an_targetCompanyIds an) s))) =
       an_deliveredCount an + length us"
proof -
  let ?a = "s\<lparr>w_scope := anonymous\<rparr>"
  let ?cs = "all_candidates (an_targetCompanyIds an) s"
  let ?us = "map (\<lambda>c. the (acd_recipient c)) (filter reachable_candidate ?cs)"
  have dist: "distinct (map candidate_key ?cs)"
    unfolding all_candidates_def using assms(4,5) by (intro candidates_distinct distinct_map_filter) simp_all
  have new: "\<not> already i c ?a" for c using assms(2) by (auto simp: already_def list_ex_iff delivery_clash_def)
  have t: "t = (deliveries_after i (take k ?cs) ?a)\<lparr>w_scope := w_scope s\<rparr>"
    using deliver_all_run [of ?a i "take k ?cs"] assms(1,3,6) resolve_run [of "an_targetCompanyIds an" ?a]
    by (auto simp: fanOut_cut_def run_unscoped_def bnd_def find_one_def ret_def scope_ok all_candidates_def)
  have resumed: "t\<lparr>w_scope := anonymous\<rparr> = deliveries_after i (take k ?cs) ?a" by (simp add: t scope_self)
  have same: "notices v ?a = notices v s" for v by (simp add: notices_def)
  obtain e where e: "deliver_all i ?cs (t\<lparr>w_scope := anonymous\<rparr>) =
        (Inr (length (filter reachable_candidate (drop k ?cs)), length (filter (\<lambda>c. \<not> reachable_candidate c) (drop k ?cs))), e)"
      "w_announcements e = w_announcements s"
      "\<And>v. notices v e = notices v s + length (filter (\<lambda>c. reachable_candidate c \<and> u_id (the (acd_recipient c)) = v) ?cs)"
    using second_run [of ?a ?cs i k] dist new assms(3) unfolding resumed same by (auto simp: scope_ok)
  have same_t: "w_announcements t = w_announcements s" "w_users t = w_users s" "w_companies t = w_companies s"
    and scope: "w_scope t = w_scope s" by (simp_all add: t)
  have found: "get_by an_id i (w_announcements t) = Some an" using assms(1) same_t by simp
  have cand: "all_candidates (an_targetCompanyIds an) t = ?cs" by (rule all_candidates_frame [OF same_t(2,3)])
  have "s' = (w_announcements_update (upd_by an_id i (complete_fanout (length (filter reachable_candidate (drop k ?cs)))
      (length (filter (\<lambda>c. \<not> reachable_candidate c) (drop k ?cs))))) e)\<lparr>w_scope := w_scope s\<rparr>"
    using fanOut_found [OF found, unfolded cand, OF e(1)] assms(1,7) e(2) scope
    by (simp only: prod.inject option.distinct simp_thms)
  then have "notices v s' = notices v e"
    and "get_by an_id i (w_announcements s') = Some (complete_fanout (length (filter reachable_candidate (drop k ?cs)))
      (length (filter (\<lambda>c. \<not> reachable_candidate c) (drop k ?cs))) an)" for v
    using assms(1) e(2) by (simp_all add: get_by_upd_by complete_fanout_def notices_def)
  moreover have "resolveRecipients (an_targetCompanyIds an) s = (Inr ?us, s)"
    using resolve_run [of "an_targetCompanyIds an" s] by (simp add: resolveRecipients_def bnd_def ret_def)
  moreover have "notices v e = notices v s + of_bool (v \<in> u_id ` set ?us)" for v
    using e(3) [of v] count_one [OF recipients_are_addressed(3) [where an = an and s = s, OF assms(4,5)], of v]
    by (simp add: image_image)
  ultimately show ?thesis
    using length_halves [of reachable_candidate k ?cs] by (simp add: complete_fanout_def)
qed

section \<open>A concrete announcement\<close>

definition fuel_operator :: user where
  "fuel_operator = blank_user\<lparr>u_id := 9, u_role := FUEL_COMPANY_ADMIN, u_companyId := Some 1\<rparr>"

definition haul_operator :: user where
  "haul_operator = blank_user\<lparr>u_id := 10, u_role := TRANSPORT_COMPANY_ADMIN, u_companyId := Some 2\<rparr>"

definition news :: announcement where
  "news = \<lparr>an_id = 50, an_title = ''News'', an_body = ''Text'', an_sentBy = 1, an_targetCompanyIds = [],
     an_intendedRecipientCount = 2, an_deliveredCount = 0, an_failedCount = 0, an_state = QUEUED\<rparr>"

definition campaign :: world where
  "campaign = empty_world\<lparr>w_users := [blank_user, fuel_operator, haul_operator], w_companies := [fuel_company, transport_company],
     w_announcements := [news]\<rparr>"

lemmas campaign_defs = campaign_def news_def fuel_operator_def haul_operator_def sample_defs

lemma campaign_ok: "well_delivered campaign" "well_delivered (campaign\<lparr>w_users := us\<rparr>)"
  "get_by an_id 50 (w_announcements campaign) = Some news" "w_deliveries campaign = []"
  "distinct (map u_id (w_users campaign))" "distinct (map c_id (w_companies campaign))"
  by (simp_all add: well_delivered_def ids_fresh_def notices_def notified_rows_def campaign_defs)

lemma announcement_reaches_once_witness:
  "let s' = snd (fanOut 50 (snd (fanOut_cut 1 50 campaign)))
   in notices 9 s' = card (reached 9 s') \<and> notices 9 s' = 1 \<and> notices 10 s' = 1 \<and> notices 2 s' = 0"
proof -
  let ?s' = "snd (fanOut 50 (snd (fanOut_cut 1 50 campaign)))"
  have "fanout_step\<^sup>*\<^sup>* campaign ?s'"
    by (meson converse_rtranclp_into_rtranclp fanout_step.is_cut_off fanout_step.runs r_into_rtranclp)
  from announcement_reaches_once [OF this campaign_ok(1), of 9] have "notices 9 ?s' = card (reached 9 ?s')" by simp
  moreover have "notices 9 ?s' = 1 \<and> notices 10 ?s' = 1 \<and> notices 2 ?s' = 0" by code_simp
  ultimately show ?thesis unfolding Let_def by blast
qed

lemma fanout_completes_witness:
  "\<exists>us missed s'. fanOut 50 campaign = (Inr (), s') \<and> set us = {fuel_operator, haul_operator} \<and> notices 9 s' = 1 \<and>
     get_by an_id 50 (w_announcements s') = Some (complete_fanout (length us) missed news)"
proof -
  obtain r s' where run: "fanOut 50 campaign = (r, s')" by (cases "fanOut 50 campaign")
  have "\<forall>d \<in> set (w_deliveries campaign). ad_announcementId d \<noteq> 50" by (simp add: campaign_ok)
  from fanout_completes [OF campaign_ok(3) this campaign_ok(1,5,6) run]
  obtain us missed where us: "set us = {u \<in> set (w_users campaign). addressed news campaign u}" "r = Inr ()"
    "\<And>v. notices v s' = notices v campaign + of_bool (v \<in> u_id ` set us)"
    "get_by an_id 50 (w_announcements s') = Some (complete_fanout (length us) missed news)" by blast
  moreover have "{u \<in> set (w_users campaign). addressed news campaign u} = {fuel_operator, haul_operator}"
    by (auto simp: addressed_def ANNOUNCEMENT_RECIPIENT_ROLES_def campaign_defs)
  moreover have "u_id fuel_operator = 9" "notices 9 campaign = 0" by (simp_all add: notices_def campaign_defs)
  ultimately show ?thesis using run by (intro exI [of _ us] exI [of _ missed] exI [of _ s']) simp
qed

lemma missed_stays_missed_witness:
  "let s = snd (fanOut 50 (campaign\<lparr>w_users := [fuel_operator, haul_operator\<lparr>u_isActive := False\<rparr>]\<rparr>));
       s' = snd (fanOut 50 (s\<lparr>w_users := [fuel_operator, haul_operator], w_companies := w_companies s\<rparr>))
   in u_isActive haul_operator \<and> 50 \<in> reached 9 s' \<and> 50 \<notin> reached 10 s'"
proof -
  let ?s = "snd (fanOut 50 (campaign\<lparr>w_users := [fuel_operator, haul_operator\<lparr>u_isActive := False\<rparr>]\<rparr>))"
  let ?t = "?s\<lparr>w_users := [fuel_operator, haul_operator], w_companies := w_companies ?s\<rparr>"
  have ok: "well_delivered ?s" using fanout_step_ok [OF fanout_step.runs campaign_ok(2)] .
  have steps: "fanout_step\<^sup>*\<^sup>* ?s (snd (fanOut 50 ?t))"
  proof (rule converse_rtranclp_into_rtranclp)
    show "fanout_step ?s ?t" by (rule fanout_step.meanwhile)
    show "fanout_step\<^sup>*\<^sup>* ?t (snd (fanOut 50 ?t))" by (intro r_into_rtranclp fanout_step.runs)
  qed
  have row: "list_ex (\<lambda>d. ad_announcementId d = 50 \<and> ad_recipientUserId d = Some 10 \<and> ad_notificationId d = None) (w_deliveries ?s)"
    by code_simp
  then obtain d where "d \<in> set (w_deliveries ?s)" "ad_announcementId d = 50" "ad_recipientUserId d = Some 10"
    "ad_notificationId d = None" by (auto simp: list_ex_iff)
  from missed_stays_missed [OF steps ok this] have "50 \<notin> reached 10 (snd (fanOut 50 ?t))" .
  moreover have "list_ex (\<lambda>d. ad_announcementId d = 50) (notified_rows 9 (snd (fanOut 50 ?t)))" by code_simp
  then have "50 \<in> reached 9 (snd (fanOut 50 ?t))" by (force simp: reached_def list_ex_iff)
  moreover have "u_isActive haul_operator" by (simp add: campaign_defs)
  ultimately show ?thesis unfolding Let_def by blast
qed

lemma cut_run_is_not_counted_witness:
  "\<exists>s' an'. snd (fanOut 50 (snd (fanOut_cut 1 50 campaign))) = s' \<and> get_by an_id 50 (w_announcements s') = Some an' \<and>
     an_state an' = COMPLETED \<and> an_deliveredCount an' = 1 \<and> notices 9 s' = 1 \<and> notices 10 s' = 1"
proof -
  obtain r t where t: "fanOut_cut 1 50 campaign = (r, t)" by (cases "fanOut_cut 1 50 campaign")
  obtain r' s' where s': "fanOut 50 t = (r', s')" by (cases "fanOut 50 t")
  have "\<forall>d \<in> set (w_deliveries campaign). ad_announcementId d \<noteq> 50" by (simp add: campaign_ok)
  from cut_run_is_not_counted [OF campaign_ok(3) this campaign_ok(1,5,6) t s']
  obtain us an' where an': "resolveRecipients (an_targetCompanyIds news) campaign = (Inr us, campaign)"
    "get_by an_id 50 (w_announcements s') = Some an'" "an_state an' = COMPLETED"
    "\<And>v. notices v s' = notices v campaign + of_bool (v \<in> u_id ` set us)"
    "an_deliveredCount an' + length (filter reachable_candidate (take 1 (all_candidates (an_targetCompanyIds news) campaign))) =
       an_deliveredCount news + length us" by blast
  have "us = [fuel_operator, haul_operator]"
    using an'(1) by (simp add: resolveRecipients_def resolve_run bnd_def ret_def all_candidates_def company_candidates_def
        new_candidate_def reachable_candidate_def ANNOUNCEMENT_RECIPIENT_ROLES_def campaign_defs)
  moreover have "length (filter reachable_candidate (take 1 (all_candidates (an_targetCompanyIds news) campaign))) = 1"
    "an_deliveredCount news = 0" by code_simp+
  moreover have "u_id fuel_operator = 9" "u_id haul_operator = 10" "notices 9 campaign = 0" "notices 10 campaign = 0"
    by (simp_all add: notices_def campaign_defs)
  ultimately show ?thesis using an' t s' by auto
qed

end
