(* ===== verification/Scheduler.thy ===== *)
theory Scheduler
  imports Redis Stop_Detection
begin

text \<open>
  The fleet-wide lease of the scheduled sweeps (\<open>common/scheduler/scheduler-lease.service.ts\<close>), the presence of
  drivers (\<open>modules/tracking/presence/presence.service.ts\<close>), and both sweeps under the lease.

  A sweep may outlive its lease.  The run of one instance is therefore also given as its two ends, taking and
  releasing the lease, and \<open>lease_step\<close> interleaves the ends of any number of runs with the passing of time and
  outages of the store.
\<close>

section \<open>The lease\<close>

definition PRESENCE_OFFLINE :: string where "PRESENCE_OFFLINE = ''presence-offline''"
definition STOP_DETECTION :: string where "STOP_DETECTION = ''stop-detection''"

definition acquire_lease :: "string \<Rightarrow> string \<Rightarrow> bool service" where
  "acquire_lease sweep token =
     bnd (asks (\<lambda>s. pcf_leaseTtlMs (cfg_presence (w_config s)))) (\<lambda>ttlMs.
     try_catch (redis_set_nx (SweepLease sweep) (Text token) ttlMs) (\<lambda>_. ret False))"

text \<open>The script of the release compares and deletes in one command.\<close>

definition RELEASE_SCRIPT :: "redis_key \<Rightarrow> string \<Rightarrow> unit service" where
  "RELEASE_SCRIPT k token = redis_command (
     bnd (asks (\<lambda>s. map_option fst (live_entry k s))) (\<lambda>held.
     if held = Some (Text token) then modify (put_entry k None) else ret ()))"

definition release_lease :: "string \<Rightarrow> string \<Rightarrow> unit service" where
  "release_lease sweep token = try_catch (RELEASE_SCRIPT (SweepLease sweep) token) (\<lambda>_. ret ())"

definition runExclusively :: "string \<Rightarrow> string \<Rightarrow> unit service \<Rightarrow> bool service" where
  "runExclusively sweep token work =
     bnd (asks (\<lambda>s. pcf_leaseEnabled (cfg_presence (w_config s)))) (\<lambda>enabled.
     if \<not> enabled then bnd work (\<lambda>_. ret True)
     else bnd (acquire_lease sweep token) (\<lambda>acquired.
       if \<not> acquired then ret False
       else bnd (try_catch work (\<lambda>err. bnd (release_lease sweep token) (\<lambda>_. throw err))) (\<lambda>_.
            bnd (release_lease sweep token) (\<lambda>_. ret True))))"

section \<open>Presence\<close>

definition touch_presence :: "oid \<Rightarrow> unit service" where
  "touch_presence driverId =
     bnd (asks w_now) (\<lambda>now.
     bnd (find_and_update w_users w_users_update u_id user_scoping driverId (\<lambda>_. True)
            (\<lambda>u. u\<lparr>u_isOnline := True, u_lastSeenAt := Some now\<rparr>)) (\<lambda>_. ret ()))"

definition silent_since :: "instant \<Rightarrow> user \<Rightarrow> bool" where
  "silent_since cutoff u \<longleftrightarrow> u_role u = DRIVER \<and> u_isOnline u \<and>
     (case u_lastSeenAt u of None \<Rightarrow> False | Some t \<Rightarrow> t < cutoff)"

definition markSilentDriversOffline :: "unit service" where
  "markSilentDriversOffline =
     bnd (asks (\<lambda>s. w_now s - minutes (pcf_offlineThresholdMinutes (cfg_presence (w_config s))))) (\<lambda>cutoff.
     update_many w_users_update user_scoping (silent_since cutoff) (\<lambda>u. u\<lparr>u_isOnline := False\<rparr>))"

definition sweepOfflineDrivers :: "string \<Rightarrow> unit service" where
  "sweepOfflineDrivers token =
     bnd (runExclusively PRESENCE_OFFLINE token markSilentDriversOffline) (\<lambda>_. ret ())"

definition sweepStalledDeliveries :: "string \<Rightarrow> unit service" where
  "sweepStalledDeliveries token =
     bnd (runExclusively STOP_DETECTION token detectStalledDeliveries) (\<lambda>_. ret ())"

section \<open>Runs that overlap\<close>

text \<open>A run is named by its token; \<open>lf_running\<close> holds the runs that took the lease and have not ended, with the
  instant each took it, and \<open>lf_tokens\<close> every token drawn so far, since \<open>randomUUID\<close> does not repeat.\<close>

record lease_fleet =
  lf_world :: world
  lf_running :: "(string \<times> instant) list"
  lf_tokens :: "string set"

abbreviation lease_ttl :: "world \<Rightarrow> int" where
  "lease_ttl s \<equiv> pcf_leaseTtlMs (cfg_presence (w_config s))"

inductive lease_step :: "string \<Rightarrow> lease_fleet \<Rightarrow> lease_fleet \<Rightarrow> bool" for sweep where
  takes: "token \<notin> lf_tokens f \<Longrightarrow> acquire_lease sweep token (lf_world f) = (Inr True, t) \<Longrightarrow>
    lease_step sweep f (f\<lparr>lf_world := t, lf_running := (token, w_now (lf_world f)) # lf_running f,
      lf_tokens := insert token (lf_tokens f)\<rparr>)"
| loses: "token \<notin> lf_tokens f \<Longrightarrow> acquire_lease sweep token (lf_world f) = (Inr False, t) \<Longrightarrow>
    lease_step sweep f (f\<lparr>lf_world := t, lf_tokens := insert token (lf_tokens f)\<rparr>)"
| ends: "(token, since) \<in> set (lf_running f) \<Longrightarrow> release_lease sweep token (lf_world f) = (Inr (), t) \<Longrightarrow>
    lease_step sweep f (f\<lparr>lf_world := t, lf_running := filter (\<lambda>r. fst r \<noteq> token) (lf_running f)\<rparr>)"
| dies: "lease_step sweep f (f\<lparr>lf_running := filter (\<lambda>r. fst r \<noteq> token) (lf_running f)\<rparr>)"
| time_passes: "w_now (lf_world f) \<le> now \<Longrightarrow> lease_step sweep f (f\<lparr>lf_world := lf_world f\<lparr>w_now := now\<rparr>\<rparr>)"
| store_fails: "lease_step sweep f (f\<lparr>lf_world := lf_world f\<lparr>w_redis_up := up\<rparr>\<rparr>)"
| sweep_writes: "w_redis t = w_redis (lf_world f) \<Longrightarrow> w_now t = w_now (lf_world f) \<Longrightarrow> w_config t = w_config (lf_world f) \<Longrightarrow>
    lease_step sweep f (f\<lparr>lf_world := t\<rparr>)"

text \<open>A run that is within the time-to-live of its lease.\<close>

definition within_lease :: "lease_fleet \<Rightarrow> string \<Rightarrow> bool" where
  "within_lease f token \<longleftrightarrow>
     (\<exists>since. (token, since) \<in> set (lf_running f) \<and> w_now (lf_world f) < since + lease_ttl (lf_world f))"

definition leases_ok :: "string \<Rightarrow> lease_fleet \<Rightarrow> bool" where
  "leases_ok sweep f \<longleftrightarrow> (\<forall>r \<in> set (lf_running f). fst r \<in> lf_tokens f) \<and> distinct (map fst (lf_running f)) \<and>
     (\<forall>token since. (token, since) \<in> set (lf_running f) \<longrightarrow> w_now (lf_world f) < since + lease_ttl (lf_world f) \<longrightarrow>
        live_entry (SweepLease sweep) (lf_world f) = Some (Text token, Some (since + lease_ttl (lf_world f))))"

lemma acquire_lease_inv:
  "acquire_lease sweep token s = (r, t) \<longleftrightarrow>
     (if w_redis_up s \<and> live_entry (SweepLease sweep) s = None
      then r = Inr True \<and> t = put_entry (SweepLease sweep) (Some (Text token, Some (w_now s + lease_ttl s))) s
      else r = Inr False \<and> t = s)"
  by (auto simp: acquire_lease_def bnd_def asks_def try_catch_def redis_set_nx_def redis_command_def guard_def ret_def modify_def)

lemma release_lease_inv:
  "release_lease sweep token s = (r, t) \<longleftrightarrow> r = Inr () \<and>
     t = (if w_redis_up s \<and> map_option fst (live_entry (SweepLease sweep) s) = Some (Text token)
          then put_entry (SweepLease sweep) None s else s)"
  by (auto simp: release_lease_def RELEASE_SCRIPT_def bnd_def asks_def try_catch_def redis_command_def guard_def ret_def modify_def)

text \<open>Only the live entry of the lease, the clock and the time-to-live matter.\<close>

lemma leases_okI:
  assumes "\<forall>r \<in> set (lf_running g). fst r \<in> lf_tokens g" "distinct (map fst (lf_running g))"
    and "\<And>token since. (token, since) \<in> set (lf_running g) \<Longrightarrow> w_now (lf_world g) < since + lease_ttl (lf_world g) \<Longrightarrow>
      live_entry (SweepLease sweep) (lf_world g) = Some (Text token, Some (since + lease_ttl (lf_world g)))"
  shows "leases_ok sweep g"
  using assms by (simp add: leases_ok_def)

lemma leases_okD:
  assumes "leases_ok sweep f"
  shows "(\<forall>r \<in> set (lf_running f). fst r \<in> lf_tokens f)" "distinct (map fst (lf_running f))"
    "(token, since) \<in> set (lf_running f) \<Longrightarrow> w_now (lf_world f) < since + lease_ttl (lf_world f) \<Longrightarrow>
      live_entry (SweepLease sweep) (lf_world f) = Some (Text token, Some (since + lease_ttl (lf_world f)))"
  using assms by (simp_all add: leases_ok_def)

lemma live_entry_cong: "w_redis t = w_redis s \<Longrightarrow> w_now t = w_now s \<Longrightarrow> live_entry k t = live_entry k s"
  by (simp add: live_entry_def cong: option.case_cong prod.case_cong if_cong)

lemma lease_step_ok: "lease_step sweep f g \<Longrightarrow> leases_ok sweep f \<Longrightarrow> leases_ok sweep g"
proof (induction rule: lease_step.induct)
  case (takes token f t)
  from takes(2) have free: "live_entry (SweepLease sweep) (lf_world f) = None"
    and t: "t = put_entry (SweepLease sweep) (Some (Text token, Some (w_now (lf_world f) + lease_ttl (lf_world f)))) (lf_world f)"
    by (simp_all add: acquire_lease_inv split: if_splits)
  show ?case
  proof (rule leases_okI)
    show "distinct (map fst (lf_running (f\<lparr>lf_world := t, lf_running := (token, w_now (lf_world f)) # lf_running f,
        lf_tokens := insert token (lf_tokens f)\<rparr>)))"
      using leases_okD(1,2) [OF takes(3)] takes(1) by auto
  qed (use free leases_okD(1,3) [OF takes(3)] in \<open>auto simp: t\<close>)
next
  case (loses token f t)
  then have "t = lf_world f" by (simp add: acquire_lease_inv split: if_splits)
  with leases_okD [OF loses(3)] show ?case by (intro leases_okI) simp_all
next
  case (ends token since f t)
  from ends(2) have t: "t = (if w_redis_up (lf_world f) \<and>
       map_option fst (live_entry (SweepLease sweep) (lf_world f)) = Some (Text token)
     then put_entry (SweepLease sweep) None (lf_world f) else lf_world f)" by (simp add: release_lease_inv)
  have clock: "w_now t = w_now (lf_world f)" "w_config t = w_config (lf_world f)" by (simp_all add: t)
  show ?case
  proof (rule leases_okI)
    fix k start
    assume run: "(k, start) \<in> set (lf_running (f\<lparr>lf_world := t, lf_running := filter (\<lambda>r. fst r \<noteq> token) (lf_running f)\<rparr>))"
      "w_now (lf_world (f\<lparr>lf_world := t, lf_running := filter (\<lambda>r. fst r \<noteq> token) (lf_running f)\<rparr>))
         < start + lease_ttl (lf_world (f\<lparr>lf_world := t, lf_running := filter (\<lambda>r. fst r \<noteq> token) (lf_running f)\<rparr>))"
    then have "live_entry (SweepLease sweep) (lf_world f) = Some (Text k, Some (start + lease_ttl (lf_world f)))" "k \<noteq> token"
      using leases_okD(3) [OF ends(3), of k start] by (simp_all add: clock)
    then show "live_entry (SweepLease sweep) (lf_world (f\<lparr>lf_world := t, lf_running := filter (\<lambda>r. fst r \<noteq> token) (lf_running f)\<rparr>)) =
        Some (Text k, Some (start + lease_ttl (lf_world (f\<lparr>lf_world := t, lf_running := filter (\<lambda>r. fst r \<noteq> token) (lf_running f)\<rparr>))))"
      by (simp add: t)
  qed (use leases_okD(1,2) [OF ends(3)] in \<open>auto simp: distinct_map_filter\<close>)
next
  case (dies f token)
  then show ?case using leases_okD [OF dies] by (intro leases_okI) (auto simp: distinct_map_filter)
next
  case (time_passes f now)
  show ?case
  proof (rule leases_okI)
    fix k start
    assume run: "(k, start) \<in> set (lf_running (f\<lparr>lf_world := lf_world f\<lparr>w_now := now\<rparr>\<rparr>))"
      "w_now (lf_world (f\<lparr>lf_world := lf_world f\<lparr>w_now := now\<rparr>\<rparr>)) < start + lease_ttl (lf_world (f\<lparr>lf_world := lf_world f\<lparr>w_now := now\<rparr>\<rparr>))"
    then have "live_entry (SweepLease sweep) (lf_world f) = Some (Text k, Some (start + lease_ttl (lf_world f)))"
      using leases_okD(3) [OF time_passes(2), of k start] time_passes(1) by simp
    with run(2) show "live_entry (SweepLease sweep) (lf_world (f\<lparr>lf_world := lf_world f\<lparr>w_now := now\<rparr>\<rparr>)) =
        Some (Text k, Some (start + lease_ttl (lf_world (f\<lparr>lf_world := lf_world f\<lparr>w_now := now\<rparr>\<rparr>))))"
      by (auto simp: live_entry_def split: option.splits if_splits)
  qed (use leases_okD(1,2) [OF time_passes(2)] in simp_all)
next
  case (store_fails f up)
  have "live_entry (SweepLease sweep) (lf_world f\<lparr>w_redis_up := up\<rparr>) = live_entry (SweepLease sweep) (lf_world f)"
    by (rule live_entry_cong) simp_all
  then show ?case using leases_okD [OF store_fails] by (intro leases_okI) simp_all
next
  case (sweep_writes t f)
  then have "live_entry (SweepLease sweep) t = live_entry (SweepLease sweep) (lf_world f)" by (intro live_entry_cong)
  with sweep_writes(3) show ?case using leases_okD [OF sweep_writes(4)] sweep_writes(2) by (intro leases_okI) simp_all
qed

section \<open>Properties\<close>

text \<open>C36: however many instances race for a sweep, overrun it, die in it, find the store unreachable or end late, at any
  moment at most one run is within the time-to-live of its lease, and the store still names that run: no late release
  has taken the lease from it.\<close>

theorem lease_exclusive:
  assumes "(lease_step sweep)\<^sup>*\<^sup>* f g" and "lf_running f = []" and "within_lease g k"
  shows "(within_lease g k' \<longrightarrow> k' = k) \<and>
     (\<exists>until. live_entry (SweepLease sweep) (lf_world g) = Some (Text k, Some until) \<and> w_now (lf_world g) < until)"
proof -
  have "leases_ok sweep f" using assms(2) by (simp add: leases_ok_def)
  with assms(1) have "leases_ok sweep g" by (induction) (auto intro: lease_step_ok)
  note held = leases_okD(3) [OF this]
  from assms(3) obtain since where "(k, since) \<in> set (lf_running g)" "w_now (lf_world g) < since + lease_ttl (lf_world g)"
    by (auto simp: within_lease_def)
  with held [of k since] show ?thesis by (auto simp: within_lease_def dest: held)
qed

text \<open>One run outlives its lease, a second one takes it, and the late end of the first leaves it alone.\<close>

definition idle_fleet :: lease_fleet where
  "idle_fleet = \<lparr>lf_world = empty_world, lf_running = [], lf_tokens = {}\<rparr>"

definition overrun_fleet :: lease_fleet where
  "overrun_fleet = \<lparr>lf_world = put_entry (SweepLease STOP_DETECTION) (Some (Text ''b'', Some 115000)) (empty_world\<lparr>w_now := 60000\<rparr>),
     lf_running = [(''b'', 60000)], lf_tokens = {''a'', ''b''}\<rparr>"

lemma overrun_reached: "(lease_step STOP_DETECTION)\<^sup>*\<^sup>* idle_fleet overrun_fleet"
proof -
  let ?k = "SweepLease STOP_DETECTION"
  let ?w = "\<lambda>v until now. put_entry ?k (Some (Text v, Some until)) (empty_world\<lparr>w_now := now\<rparr>)"
  let ?f1 = "\<lparr>lf_world = ?w ''a'' 56000 1000, lf_running = [(''a'', 1000)], lf_tokens = {''a''}\<rparr>"
  let ?f2 = "\<lparr>lf_world = ?w ''a'' 56000 60000, lf_running = [(''a'', 1000)], lf_tokens = {''a''}\<rparr>"
  let ?f3 = "\<lparr>lf_world = ?w ''b'' 115000 60000, lf_running = [(''b'', 60000), (''a'', 1000)], lf_tokens = {''b'', ''a''}\<rparr>"
  have s1: "lease_step STOP_DETECTION idle_fleet ?f1"
    using takes [of "''a''" idle_fleet STOP_DETECTION "?w ''a'' 56000 1000"]
    by (simp add: idle_fleet_def acquire_lease_inv live_entry_def sample_defs put_entry_def)
  have s2: "lease_step STOP_DETECTION ?f1 ?f2"
    using time_passes [of ?f1 60000 STOP_DETECTION] by (simp add: put_entry_def sample_defs)
  have s3: "lease_step STOP_DETECTION ?f2 ?f3"
    using takes [of "''b''" ?f2 STOP_DETECTION "?w ''b'' 115000 60000"]
    by (simp add: acquire_lease_inv live_entry_def sample_defs put_entry_def)
  have s4: "lease_step STOP_DETECTION ?f3 overrun_fleet"
    using ends [of "''a''" 1000 ?f3 STOP_DETECTION "?w ''b'' 115000 60000"]
    by (simp add: overrun_fleet_def release_lease_inv live_entry_def put_entry_def insert_commute sample_defs)
  from r_into_rtranclp [of "lease_step STOP_DETECTION", OF s1] s2 have "(lease_step STOP_DETECTION)\<^sup>*\<^sup>* idle_fleet ?f2"
    by (rule rtranclp.rtrancl_into_rtrancl)
  from this s3 have "(lease_step STOP_DETECTION)\<^sup>*\<^sup>* idle_fleet ?f3" by (rule rtranclp.rtrancl_into_rtrancl)
  from this s4 show ?thesis by (rule rtranclp.rtrancl_into_rtrancl)
qed

theorem lease_exclusive_witness:
  "(lease_step STOP_DETECTION)\<^sup>*\<^sup>* idle_fleet overrun_fleet \<and> within_lease overrun_fleet ''b'' \<and>
   \<not> within_lease overrun_fleet ''a''"
proof -
  have b: "within_lease overrun_fleet ''b''" by (simp add: within_lease_def overrun_fleet_def sample_defs)
  have "lf_running idle_fleet = []" by (simp add: idle_fleet_def)
  from lease_exclusive [OF overrun_reached this b, of "''a''"] b overrun_reached show ?thesis by auto
qed

end
