(* ===== verification/Tracking.thy ===== *)
theory Tracking
  imports Scheduler Sessions
begin

text \<open>
  The tracking socket: \<open>modules/tracking/tracking.gateway.ts\<close> and the handshake of \<open>common/guards/ws-jwt.guard.ts\<close>.

  A socket carries the user its handshake established and is never authenticated again; \<open>w_rooms\<close> says which socket
  is in which room.  Its handlers run under a scope of their own.  The great-circle distance is the parameter \<open>metres\<close>.
\<close>

section \<open>Handshake and rooms\<close>

record socket =
  sk_id :: nat
  sk_user :: authenticated_user

definition authenticateSocket :: "libraries \<Rightarrow> string option \<Rightarrow> authenticated_user service" where
  "authenticateSocket L token =
     bnd (guard (token \<noteq> None \<and> token \<noteq> Some '''') Unauthorized) (\<lambda>_.
     bnd (demand Unauthorized (lib_verify L ACCESS_TOKEN (the token))) (\<lambda>payload.
     bnd (validateActiveSessionWithScoping payload) (\<lambda>(user, parentFuelCompanyId).
     ret \<lparr>au_userId = u_id user, au_role = u_role user, au_companyId = u_companyId user,
          au_parentFuelCompanyId = parentFuelCompanyId, au_sgen = jp_sgen payload, au_sid = jp_sid payload\<rparr>)))"

definition in_context :: "request_scope \<Rightarrow> 'a service \<Rightarrow> 'a service" where
  "in_context ctx m s = (case m (s\<lparr>w_scope := ctx\<rparr>) of (r, s') \<Rightarrow> (r, s'\<lparr>w_scope := w_scope s\<rparr>))"

definition handshake :: "libraries \<Rightarrow> nat \<Rightarrow> string option \<Rightarrow> socket service" where
  "handshake L k token = in_context anonymous (
     try_catch (bnd (authenticateSocket L token) (\<lambda>user. ret \<lparr>sk_id = k, sk_user = user\<rparr>)) (\<lambda>_. throw Unauthorized))"

definition join_room :: "socket \<Rightarrow> room \<Rightarrow> unit service" where
  "join_room client r = modify (\<lambda>s. s\<lparr>w_rooms := List.insert (sk_id client, r) (w_rooms s)\<rparr>)"

definition leave_room :: "socket \<Rightarrow> room \<Rightarrow> unit service" where
  "leave_room client r = modify (\<lambda>s. s\<lparr>w_rooms := removeAll (sk_id client, r) (w_rooms s)\<rparr>)"

definition handleConnection :: "socket \<Rightarrow> unit service" where
  "handleConnection client = in_context anonymous (
     try_catch (bnd (join_room client (UserRoom (au_userId (sk_user client)))) (\<lambda>_.
                if au_role (sk_user client) = DRIVER then touch_presence (au_userId (sk_user client)) else ret ()))
       (\<lambda>_. ret ()))"

text \<open>The scope of the handlers names no parent fuel company.\<close>

definition toContext :: "socket \<Rightarrow> request_scope" where
  "toContext client = \<lparr>rs_userId = Some (au_userId (sk_user client)), rs_role = Some (au_role (sk_user client)),
     rs_companyId = au_companyId (sk_user client), rs_parentFuelCompanyId = None\<rparr>"

section \<open>Watching an order\<close>

datatype socket_error = FORBIDDEN_ROLE | NOT_FOUND_REPLY | NOT_TRACKABLE | SESSION_REVOKED_REPLY

datatype watch_reply = Watching | WatchRefused socket_error

definition watch :: "socket \<Rightarrow> oid \<Rightarrow> watch_reply service" where
  "watch client orderId = in_context (toContext client) (
     if au_role (sk_user client) = DRIVER then ret (WatchRefused FORBIDDEN_ROLE)
     else bnd (find_one w_orders o_id order_scoping orderId) (\<lambda>found.
       case found of
         None \<Rightarrow> ret (WatchRefused NOT_FOUND_REPLY)
       | Some order \<Rightarrow>
           if au_role (sk_user client) = CLIENT \<and> o_clientId order \<noteq> au_userId (sk_user client)
           then ret (WatchRefused NOT_FOUND_REPLY)
           else if o_status order \<noteq> IN_TRANSIT \<and> o_status order \<noteq> UNLOADING then ret (WatchRefused NOT_TRACKABLE)
           else bnd (join_room client (OrderRoom orderId)) (\<lambda>_. ret Watching)))"

definition unwatch :: "socket \<Rightarrow> oid \<Rightarrow> unit service" where
  "unwatch client orderId = leave_room client (OrderRoom orderId)"

section \<open>A frame with a position\<close>

record location_frame =
  lfr_lat :: rat
  lfr_lng :: rat
  lfr_recordedAt :: string

datatype location_reply = LocationAccepted | BelowThreshold | LocationRefused socket_error

definition ABUSE_CEILING_MS :: int where "ABUSE_CEILING_MS = 5000"

text \<open>A missing baseline is infinitely far.\<close>

definition farther :: "(coords \<Rightarrow> coords \<Rightarrow> rat) \<Rightarrow> rat \<Rightarrow> coords option \<Rightarrow> coords \<Rightarrow> bool" where
  "farther metres threshold baseline p \<longleftrightarrow> (case baseline of None \<Rightarrow> True | Some q \<Rightarrow> metres q p > threshold)"

definition write_position :: "coords \<Rightarrow> instant \<Rightarrow> bool \<Rightarrow> user \<Rightarrow> user" where
  "write_position p now hasMoved u =
     (let u1 = u\<lparr>u_location := Some p, u_locationUpdatedAt := Some now\<rparr>
      in if hasMoved then u1\<lparr>u_lastMovedAt := Some now, u_lastMovedLocation := Some p\<rparr> else u1)"

definition record_position :: "(coords \<Rightarrow> coords \<Rightarrow> rat) \<Rightarrow> user \<Rightarrow> location_frame \<Rightarrow> location_reply service" where
  "record_position metres driver frame =
     bnd (asks w_now) (\<lambda>now.
     bnd (asks (\<lambda>s. cfg_presence (w_config s))) (\<lambda>cfg.
     let p = (lfr_lng frame, lfr_lat frame);
         elapsedMs = now - (case u_locationUpdatedAt driver of None \<Rightarrow> 0 | Some t \<Rightarrow> t);
         accepted = (farther metres (pcf_displacementThresholdMeters cfg) (u_location driver) p \<or>
                     rat_of_int elapsedMs \<ge> pcf_heartbeatMinutes cfg * 60000);
         hasMoved = farther metres (pcf_movementMeters cfg) (u_lastMovedLocation driver) p
     in if elapsedMs < ABUSE_CEILING_MS \<or> \<not> accepted then ret BelowThreshold
        else bnd (find_and_update w_users w_users_update u_id user_scoping (u_id driver) (\<lambda>_. True)
                    (write_position p now hasMoved)) (\<lambda>_.
             bnd (case u_activeOrderId driver of
                    None \<Rightarrow> ret ()
                  | Some orderId \<Rightarrow> emit (OrderLocationEvent orderId p (lfr_recordedAt frame) now)) (\<lambda>_.
             ret LocationAccepted))))"

definition locationUpdate ::
  "(coords \<Rightarrow> coords \<Rightarrow> rat) \<Rightarrow> socket \<Rightarrow> location_frame \<Rightarrow> location_reply service" where
  "locationUpdate metres client frame = in_context (toContext client) (
     if au_role (sk_user client) \<noteq> DRIVER then ret (LocationRefused FORBIDDEN_ROLE)
     else bnd (find_one w_users u_id user_scoping (au_userId (sk_user client))) (\<lambda>found.
       case found of
         None \<Rightarrow> ret (LocationRefused FORBIDDEN_ROLE)
       | Some driver \<Rightarrow>
           if (case au_sgen (sk_user client) of None \<Rightarrow> 0 | Some g \<Rightarrow> g) \<noteq> u_sessionGeneration driver
           then ret (LocationRefused SESSION_REVOKED_REPLY)
           else bnd (touch_presence (au_userId (sk_user client))) (\<lambda>_. record_position metres driver frame)))"

section \<open>Frame facts\<close>

lemma in_context_inv [prog_inv]:
  "in_context ctx m s = (r, s') \<longleftrightarrow> (\<exists>t. m (s\<lparr>w_scope := ctx\<rparr>) = (r, t) \<and> s' = t\<lparr>w_scope := w_scope s\<rparr>)"
  by (auto simp: in_context_def split: prod.splits)

definition watchable :: "socket \<Rightarrow> order \<Rightarrow> bool" where
  "watchable client d \<longleftrightarrow> (au_role (sk_user client) = CLIENT \<longrightarrow> o_clientId d = au_userId (sk_user client)) \<and>
     (o_status d = IN_TRANSIT \<or> o_status d = UNLOADING)"

definition entered :: "socket \<Rightarrow> oid \<Rightarrow> world \<Rightarrow> world" where
  "entered client i s = s\<lparr>w_rooms := List.insert (sk_id client, OrderRoom i) (w_rooms s)\<rparr>"

text \<open>A handler that fails or refuses writes nothing.\<close>

lemma watch_eq:
  "watch client i s =
     (if au_role (sk_user client) = DRIVER then (Inr (WatchRefused FORBIDDEN_ROLE), s)
      else case order_scoping (toContext client) of
        Inl e \<Rightarrow> (Inl e, s)
      | Inr v \<Rightarrow> (case get_by o_id i (w_orders s) of
          None \<Rightarrow> (Inr (WatchRefused NOT_FOUND_REPLY), s)
        | Some d \<Rightarrow>
            if \<not> v d \<or> (au_role (sk_user client) = CLIENT \<and> o_clientId d \<noteq> au_userId (sk_user client))
            then (Inr (WatchRefused NOT_FOUND_REPLY), s)
            else if o_status d \<noteq> IN_TRANSIT \<and> o_status d \<noteq> UNLOADING then (Inr (WatchRefused NOT_TRACKABLE), s)
            else (Inr Watching, entered client i s)))"
proof (cases "order_scoping (toContext client)")
  case (Inl e)
  then show ?thesis by (simp add: watch_def in_context_def bnd_def find_one_def ret_def)
next
  case (Inr v)
  show ?thesis
  proof (cases "get_by o_id i (w_orders s)")
    case None
    with Inr show ?thesis by (simp add: watch_def in_context_def bnd_def find_one_def ret_def)
  next
    case (Some d)
    have look: "find_one w_orders o_id order_scoping i (s\<lparr>w_scope := toContext client\<rparr>) =
        (Inr (if v d then Some d else None), s\<lparr>w_scope := toContext client\<rparr>)"
      using Inr Some by (simp add: find_one_def)
    consider "au_role (sk_user client) = DRIVER" | "au_role (sk_user client) \<noteq> DRIVER" "\<not> v d"
      | "au_role (sk_user client) \<noteq> DRIVER" "v d" by blast
    then show ?thesis
    proof cases
      case 3
      then show ?thesis using Inr Some look
        by (simp add: watch_def in_context_def bnd_def ret_def join_room_def modify_def entered_def)
    qed (use Inr Some look in \<open>simp_all add: watch_def in_context_def bnd_def ret_def\<close>)
  qed
qed

section \<open>Who may watch\<close>

text \<open>The rooms of the orders are joined only through \<open>watch\<close>; its right is that of the order, seen without a parent company.\<close>

definition may_watch :: "authenticated_user \<Rightarrow> order \<Rightarrow> bool" where
  "may_watch user d \<longleftrightarrow> (o_status d = IN_TRANSIT \<or> o_status d = UNLOADING) \<and>
     (case au_role user of
        SUPER_ADMIN \<Rightarrow> True
      | FUEL_COMPANY_ADMIN \<Rightarrow> au_companyId user = Some (o_fuelCompanyId d)
      | CLIENT \<Rightarrow> au_companyId user = Some (o_fuelCompanyId d) \<and> o_clientId d = au_userId user
      | _ \<Rightarrow> False)"

lemma watch_scope:
  "order_scoping (toContext client) = (case au_role (sk_user client) of
     SUPER_ADMIN \<Rightarrow> Inr (\<lambda>_. True)
   | TRANSPORT_COMPANY_ADMIN \<Rightarrow> Inl IsolationViolation
   | role \<Rightarrow> (case au_companyId (sk_user client) of
       None \<Rightarrow> Inl IsolationViolation
     | Some f \<Rightarrow> Inr (order_matches (case role of
         FUEL_COMPANY_ADMIN \<Rightarrow> ByFuelCompany f
       | CLIENT \<Rightarrow> ByClient f (au_userId (sk_user client))
       | _ \<Rightarrow> ByDriver f (au_userId (sk_user client))))))"
  by (cases "au_role (sk_user client)"; cases "au_companyId (sk_user client)") (simp_all add: toContext_def scope_defs)

lemma watch_admits:
  assumes "get_by o_id i (w_orders s) = Some d" and "may_watch (sk_user client) d"
  shows "watch client i s = (Inr Watching, entered client i s)"
  using assms
  by (cases "au_role (sk_user client)"; cases "au_companyId (sk_user client)")
    (simp_all add: watch_eq watch_scope may_watch_def)

lemma watch_refuses:
  assumes "\<And>d. get_by o_id i (w_orders s) = Some d \<Longrightarrow> \<not> may_watch (sk_user client) d"
  shows "\<exists>r. r \<noteq> Inr Watching \<and> watch client i s = (r, s)"
proof (cases "get_by o_id i (w_orders s)")
  case None
  then show ?thesis
    by (cases "au_role (sk_user client)"; cases "au_companyId (sk_user client)") (simp_all add: watch_eq watch_scope)
next
  case (Some d)
  from assms [OF Some] show ?thesis
    by (cases "au_role (sk_user client)"; cases "au_companyId (sk_user client)")
      (auto simp: Some watch_eq watch_scope may_watch_def)
qed

lemma watch_allowed:
  assumes "watch client i s = (Inr Watching, s')"
  shows "\<exists>d. get_by o_id i (w_orders s) = Some d \<and> may_watch (sk_user client) d"
proof (rule ccontr)
  assume "\<not> ?thesis"
  then obtain r where "r \<noteq> Inr Watching" "watch client i s = (r, s)" using watch_refuses [of i s client] by blast
  with assms show False by simp
qed

section \<open>Properties of watching\<close>

text \<open>A socket joins the room of an order exactly when the order is on the road or being unloaded and its user is the
  operator, an administrator of the order's fuel company or the client who placed it; a refusal changes nothing, and an
  admission changes only who is in the room.\<close>

theorem watch_rights:
  assumes "watch client i s = (r, s')"
  shows "(r = Inr Watching \<longleftrightarrow> (\<exists>d. get_by o_id i (w_orders s) = Some d \<and> may_watch (sk_user client) d)) \<and>
     s' = (if r = Inr Watching then entered client i s else s)"
proof (cases "\<exists>d. get_by o_id i (w_orders s) = Some d \<and> may_watch (sk_user client) d")
  case True
  then have "watch client i s = (Inr Watching, entered client i s)" using watch_admits by blast
  with assms True show ?thesis by simp
next
  case False
  then obtain x where "x \<noteq> Inr Watching" "watch client i s = (x, s)" using watch_refuses by blast
  with assms False show ?thesis by simp
qed

text \<open>C25: an administrator of the transport company that carries an order in transit reads it over HTTP, but the socket
  refuses to watch it with a tenant isolation error: the scope of the socket leaves out the parent fuel company.\<close>

theorem transporter_cannot_watch:
  assumes "au_role (sk_user client) = TRANSPORT_COMPANY_ADMIN"
    and "find_one w_orders o_id order_scoping i (s\<lparr>w_scope := scope_of (sk_user client)\<rparr>) = (Inr (Some d), t)"
    and "o_status d = IN_TRANSIT"
  shows "watch client i s = (Inl IsolationViolation, s) \<and> get_by o_id i (w_orders s) = Some d \<and>
     o_transportCompanyId d = au_companyId (sk_user client)"
  using assms(1) order_plugin.find_one_confined [OF assms(2)] assms(2)
  by (simp add: watch_eq watch_scope scope_of_def bypasses_def order_party_def prog_inv) (auto split: option.splits if_splits)

section \<open>A displaced device\<close>

definition claimed_generation :: "socket \<Rightarrow> nat" where
  "claimed_generation client = (case au_sgen (sk_user client) of None \<Rightarrow> 0 | Some g \<Rightarrow> g)"

lemma handshake_claims:
  assumes "handshake L k token s = (Inr client, t)"
  obtains u where "get_by u_id (au_userId (sk_user client)) (w_users s) = Some u" "t = s"
    "claimed_generation client = u_sessionGeneration u" "u_isActive u"
proof -
  let ?s = "s\<lparr>w_scope := anonymous\<rparr>"
  from assms obtain p u parent t0 where "validateActiveSessionWithScoping p ?s = (Inr (u, parent), t0)"
    and client: "sk_user client = \<lparr>au_userId = u_id u, au_role = u_role u, au_companyId = u_companyId u,
        au_parentFuelCompanyId = parent, au_sgen = jp_sgen p, au_sid = jp_sid p\<rparr>" and t: "t = t0\<lparr>w_scope := w_scope s\<rparr>"
    by (auto simp: handshake_def authenticateSocket_def prog_inv) blast+
  then have u: "get_by u_id (jp_sub p) (w_users s) = Some u" "payload_generation p = u_sessionGeneration u" "u_isActive u" "t0 = ?s"
    by (auto dest: validate_accepts)
  show thesis
  proof (rule that)
    show "get_by u_id (au_userId (sk_user client)) (w_users s) = Some u" using u(1) get_by_key [OF u(1)] client by simp
    show "claimed_generation client = u_sessionGeneration u" using u(2) client by (simp add: claimed_generation_def payload_generation_def)
  qed (use client t u in simp_all)
qed

lemma displaced_refused:
  assumes "\<And>v. get_by u_id (au_userId (sk_user client)) (w_users s) = Some v \<Longrightarrow> claimed_generation client \<noteq> u_sessionGeneration v"
  shows "\<exists>r. r \<in> {Inl IsolationViolation, Inr (LocationRefused FORBIDDEN_ROLE), Inr (LocationRefused SESSION_REVOKED_REPLY)} \<and>
     locationUpdate metres client frame s = (r, s)"
proof (cases "au_role (sk_user client) = DRIVER")
  case False
  then show ?thesis by (simp add: locationUpdate_def in_context_def ret_def)
next
  case True
  let ?s = "s\<lparr>w_scope := toContext client\<rparr>"
  consider (unscoped) "find_one w_users u_id user_scoping (au_userId (sk_user client)) ?s = (Inl IsolationViolation, ?s)"
    | (unseen) "find_one w_users u_id user_scoping (au_userId (sk_user client)) ?s = (Inr None, ?s)"
    | (seen) v where "find_one w_users u_id user_scoping (au_userId (sk_user client)) ?s = (Inr (Some v), ?s)"
        "claimed_generation client \<noteq> u_sessionGeneration v"
  proof (cases "user_scoping (toContext client)")
    case (Inl e)
    then have "e = IsolationViolation" by (simp add: tenant_plugin.fails_closed)
    with Inl unscoped show thesis by (simp add: find_one_def)
  next
    case (Inr f)
    show thesis
    proof (cases "get_by u_id (au_userId (sk_user client)) (w_users s)")
      case None
      with Inr unseen show thesis by (simp add: find_one_def)
    next
      case (Some v)
      with Inr unseen seen [of v] assms [OF Some] show thesis by (cases "f v") (simp_all add: find_one_def)
    qed
  qed
  then show ?thesis
  proof cases
    case (seen v)
    with True show ?thesis
      by (simp add: locationUpdate_def in_context_def bnd_def ret_def claimed_generation_def)
  qed (simp_all add: locationUpdate_def True in_context_def bnd_def ret_def)
qed

definition identifier_issued :: "nat \<Rightarrow> oid \<Rightarrow> world \<Rightarrow> bool" where
  "identifier_issued cap i s \<longleftrightarrow> session_cap s = cap \<and> i < w_next_id s"

interpretation issued: account_frame "identifier_issued cap i" cap
  by unfold_locales (auto simp: identifier_issued_def)

definition claims_at_least :: "oid \<Rightarrow> nat \<Rightarrow> oid \<Rightarrow> nat" where
  "claims_at_least i g = (\<lambda>j. if j = i then g else 0)"

lemma generations_start:
  assumes "get_by u_id i (w_users s) = Some u" and "distinct (map u_id (w_users s))" "i < w_next_id s"
  shows "generations_from (session_cap s) (claims_at_least i (u_sessionGeneration u)) s"
proof -
  have "w = u" if "w \<in> set (w_users s)" "u_id w = i" for w
    using get_by_distinct [of u_id "w_users s" w] that assms by simp
  with assms(3) show ?thesis by (auto simp: generations_from_def claims_at_least_def)
qed

lemma revokeAll_raises:
  assumes "revokeAllSessions i cause s = (Inr v, t)" and "generations_from cap (claims_at_least i g) s" and "identifier_issued cap i s"
  shows "generations_from cap (claims_at_least i (Suc g)) t"
proof -
  from assms(1) obtain u where u: "get_by u_id i (w_users s) = Some u"
    and t: "t = w_users_update (upd_by u_id i (end_sessions cause)) s"
    by (auto simp: revokeAllSessions_def update_user_def prog_inv)
  have "u_id u = i" "u \<in> set (w_users s)" using get_by_key [OF u] get_by_mem [OF u] .
  with assms(2,3) show ?thesis
    by (auto simp: identifier_issued_def t generations_from_def claims_at_least_def upd_by_def end_sessions_def)
qed

lemma generations_late:
  assumes "generations_from cap (claims_at_least i g) s" and "get_by u_id i (w_users s) = Some w"
  shows "g \<le> u_sessionGeneration w"
  using assms(1) get_by_mem [OF assms(2)] get_by_key [OF assms(2)] by (fastforce simp: generations_from_def claims_at_least_def)

section \<open>Properties of frames\<close>

text \<open>C27: a socket was opened, and later all sessions of its account were ended, as a sign-in elsewhere, a sign-out or a
  deactivation does; whatever happens to the accounts before and after, from then on every position the socket
  sends is refused and writes nothing: not the position, not the presence of the driver, not an event.\<close>

theorem displaced_device_is_mute:
  assumes "handshake L k token s = (Inr client, t)" and "distinct (map u_id (w_users s))" "au_userId (sk_user client) < w_next_id s"
    and "(account_step L)\<^sup>*\<^sup>* s s1" "revokeAllSessions (au_userId (sk_user client)) cause s1 = (Inr v, s2)"
      "(account_step L)\<^sup>*\<^sup>* s2 s3"
  shows "\<exists>r. r \<in> {Inl IsolationViolation, Inr (LocationRefused FORBIDDEN_ROLE), Inr (LocationRefused SESSION_REVOKED_REPLY)} \<and>
     locationUpdate metres client frame s3 = (r, s3)"
proof (rule displaced_refused)
  let ?i = "au_userId (sk_user client)" and ?g = "claimed_generation client"
  obtain u where "get_by u_id ?i (w_users s) = Some u" "?g = u_sessionGeneration u"
    using assms(1) by (rule handshake_claims)
  then have "generations_from (session_cap s) (claims_at_least ?i ?g) s" using generations_start assms(2,3) by simp
  then have "generations_from (session_cap s) (claims_at_least ?i ?g) s1" by (rule generations.account_steps_keep [OF assms(4)])
  moreover have "identifier_issued (session_cap s) ?i s1"
    by (rule issued.account_steps_keep [OF assms(4)]) (simp add: identifier_issued_def assms(3))
  ultimately have "generations_from (session_cap s) (claims_at_least ?i (Suc ?g)) s2" by (rule revokeAll_raises [OF assms(5)])
  then have late: "generations_from (session_cap s) (claims_at_least ?i (Suc ?g)) s3"
    by (rule generations.account_steps_keep [OF assms(6)])
  show "?g \<noteq> u_sessionGeneration w" if "get_by u_id ?i (w_users s3) = Some w" for w
    using generations_late [OF late that] by simp
qed

section \<open>A deactivated account that is still connected\<close>

lemma write_event_frame:
  assumes "write_event subject type cause s = (r, t)"
  shows "w_users t = w_users s" "w_orders t = w_orders s" "w_emits t = w_emits s" "w_now t = w_now s"
  using assms by (cases r; auto simp: write_event_def prog_inv)+

text \<open>Orders, events and the activity flag of an account across the writes of a deactivation.\<close>

definition only_accounts :: "oid \<Rightarrow> world \<Rightarrow> world \<Rightarrow> bool" where
  "only_accounts i s t \<longleftrightarrow> w_orders t = w_orders s \<and> w_emits t = w_emits s \<and> w_now t = w_now s \<and>
     (\<forall>w. get_by u_id i (w_users t) = Some w \<longrightarrow>
        (\<exists>u. get_by u_id i (w_users s) = Some u \<and> (u_isActive w \<longrightarrow> u_isActive u)))"

lemma only_accounts_trans: "only_accounts i s t \<Longrightarrow> only_accounts i t x \<Longrightarrow> only_accounts i s x"
  unfolding only_accounts_def by (metis (no_types))

lemma only_accounts_write:
  assumes "find_and_update w_users w_users_update u_id user_scoping i Q f s = (Inr r, t)"
    and "\<And>u. u_id (f u) = u_id u" "\<And>u. u_isActive (f u) \<Longrightarrow> u_isActive u"
  shows "only_accounts i s t"
  using assms by (cases r) (auto simp: prog_inv only_accounts_def get_by_upd_by)

lemma deactivated:
  assumes "deactivateUser i s = (Inr v, t)"
  shows "w_orders t = w_orders s" "w_emits t = w_emits s @ [SessionRevokedEvent i ACCOUNT_DEACTIVATED (w_now s)]"
    "get_by u_id i (w_users t) = Some w \<Longrightarrow> \<not> u_isActive w"
proof -
  from assms obtain u a b s1 s2 s3 s4 where
    s1: "setActive i False s = (Inr u, s1)" and s2: "revokeAllSessions i (Some ACCOUNT_DEACTIVATED) s1 = (Inr v, s2)"
    and s3: "releaseActiveOrderOnDeactivation i s2 = (Inr a, s3)"
    and s4: "revoked (subject_of v (u_sessionGeneration v)) ACCOUNT_DEACTIVATED s3 = (Inr b, s4)"
    and t: "t = s4\<lparr>w_emits := w_emits s4 @ [SessionRevokedEvent i ACCOUNT_DEACTIVATED (w_now s4)]\<rparr>"
    unfolding deactivateUser_def by (simp only: bnd_inv transaction_inv ret_inv asks_inv emit_inv) blast
  from s1 obtain x where x: "find_and_update w_users w_users_update u_id user_scoping i (\<lambda>_. True) (\<lambda>u. u\<lparr>u_isActive := False\<rparr>) s = (Inr (Some x), s1)"
    by (auto simp: setActive_def update_user_def bnd_inv demand_inv)
  then have off: "\<not> u_isActive w" if "get_by u_id i (w_users s1) = Some w" for w
    using that by (auto simp: prog_inv get_by_upd_by)
  from x have a1: "only_accounts i s s1" by (rule only_accounts_write) simp_all
  from s2 obtain y where "find_and_update w_users w_users_update u_id user_scoping i (\<lambda>_. True) (end_sessions (Some ACCOUNT_DEACTIVATED)) s1 = (Inr y, s2)"
    by (auto simp: revokeAllSessions_def update_user_def bnd_inv demand_inv)
  then have a2: "only_accounts i s1 s2" by (rule only_accounts_write) (simp_all add: end_sessions_def)
  from s3 obtain z where "find_and_update w_users w_users_update u_id user_scoping i (\<lambda>u. u_activeOrderId u \<noteq> None)
      (\<lambda>u. u\<lparr>u_isAvailable := True, u_activeOrderId := None\<rparr>) s2 = (Inr z, s3)"
    by (auto simp: releaseActiveOrderOnDeactivation_def bnd_inv ret_inv)
  then have a3: "only_accounts i s2 s3" by (rule only_accounts_write) simp_all
  have "only_accounts i s3 s4" using write_event_frame [OF s4 [unfolded revoked_def]] by (simp add: only_accounts_def)
  with a2 a3 have rest: "only_accounts i s1 s4" by (blast intro: only_accounts_trans)
  with a1 have all: "only_accounts i s s4" by (rule only_accounts_trans)
  from all show "w_orders t = w_orders s" "w_emits t = w_emits s @ [SessionRevokedEvent i ACCOUNT_DEACTIVATED (w_now s)]"
    by (simp_all add: only_accounts_def t)
  show "\<not> u_isActive w" if "get_by u_id i (w_users t) = Some w"
    using rest off that by (auto simp: only_accounts_def t)
qed

text \<open>Deactivating an account announces the end of its sessions but disconnects no socket, and the handler of
  \<open>order:watch\<close> never looks at the account again: a socket that could watch an order still joins its room, although the
  account can no longer open a new one.\<close>

theorem deactivated_socket_still_watches:
  assumes "deactivateUser (au_userId (sk_user client)) s = (Inr v, t)" and "watch client i s = (Inr Watching, s')"
  shows "watch client i t = (Inr Watching, entered client i t) \<and>
     w_emits t = w_emits s @ [SessionRevokedEvent (au_userId (sk_user client)) ACCOUNT_DEACTIVATED (w_now s)] \<and>
     (handshake L k token t = (Inr client', t') \<longrightarrow> au_userId (sk_user client') \<noteq> au_userId (sk_user client))"
proof -
  have "w_orders t = w_orders s" using assms(1) by (rule deactivated)
  moreover obtain d where "get_by o_id i (w_orders s) = Some d" "may_watch (sk_user client) d"
    using watch_allowed [OF assms(2)] by blast
  ultimately have "watch client i t = (Inr Watching, entered client i t)" by (simp add: watch_admits)
  moreover have "au_userId (sk_user client') \<noteq> au_userId (sk_user client)" if run: "handshake L k token t = (Inr client', t')"
  proof -
    obtain u where "get_by u_id (au_userId (sk_user client')) (w_users t) = Some u" "u_isActive u"
      using handshake_claims [OF run] by blast
    then show ?thesis using deactivated(3) [OF assms(1)] by force
  qed
  ultimately show ?thesis using deactivated(2) [OF assms(1)] by blast
qed

section \<open>A truck that stands\<close>

text \<open>What the sweep of stalled deliveries reads of a driver, relative to a world \<open>s0\<close>.\<close>

definition parked :: "oid \<Rightarrow> oid \<Rightarrow> coords \<Rightarrow> instant \<Rightarrow> world \<Rightarrow> world \<Rightarrow> bool" where
  "parked i orderId q since s0 s \<longleftrightarrow> w_orders s = w_orders s0 \<and> w_jobs s = w_jobs s0 \<and> w_next_id s = w_next_id s0 \<and>
     w_config s = w_config s0 \<and>
     (\<exists>u. get_by u_id i (w_users s) = Some u \<and> u_role u = DRIVER \<and> u_activeOrderId u = Some orderId \<and>
        u_lastMovedAt u = Some since \<and> u_lastMovedLocation u = Some q)"

definition keeps_baseline :: "(user \<Rightarrow> user) \<Rightarrow> bool" where
  "keeps_baseline f \<longleftrightarrow> (\<forall>u. u_id (f u) = u_id u \<and> u_role (f u) = u_role u \<and> u_activeOrderId (f u) = u_activeOrderId u \<and>
     u_lastMovedAt (f u) = u_lastMovedAt u \<and> u_lastMovedLocation (f u) = u_lastMovedLocation u)"

text \<open>The socket and its timers, as far as they concern the driver \<open>i\<close> who last moved to \<open>q\<close>: every frame of that
  driver stays within the movement threshold of \<open>q\<close>; other drivers send what they like.\<close>

inductive socket_step :: "(coords \<Rightarrow> coords \<Rightarrow> rat) \<Rightarrow> oid \<Rightarrow> coords \<Rightarrow> world \<Rightarrow> world \<Rightarrow> bool" for metres i q where
  connects: "socket_step metres i q s (snd (handleConnection client s))"
| sends: "au_userId (sk_user client) = i \<longrightarrow>
      metres q (lfr_lng frame, lfr_lat frame) \<le> pcf_movementMeters (cfg_presence (w_config s)) \<Longrightarrow>
    socket_step metres i q s (snd (locationUpdate metres client frame s))"
| watches: "socket_step metres i q s (snd (watch client k s))"
| leaves: "socket_step metres i q s (snd (unwatch client k s))"
| sweeps: "socket_step metres i q s (snd (in_context anonymous (sweepOfflineDrivers token) s))"
| time_passes: "socket_step metres i q s (s\<lparr>w_now := now\<rparr>)"
| store_fails: "socket_step metres i q s (s\<lparr>w_redis_up := up\<rparr>)"

lemma parked_write:
  assumes "parked i j q since s0 s" and "keeps_baseline f \<or> k \<noteq> i \<and> (\<forall>u. u_id (f u) = u_id u)"
  shows "parked i j q since s0 (w_users_update (upd_by u_id k f) s)"
  using assms by (auto simp: parked_def keeps_baseline_def get_by_upd_by)

lemma parked_frame:
  assumes "parked i j q since s0 s"
  shows "parked i j q since s0 (s\<lparr>w_scope := ctx\<rparr>)" "parked i j q since s0 (s\<lparr>w_rooms := rs\<rparr>)"
    "parked i j q since s0 (s\<lparr>w_emits := es\<rparr>)" "parked i j q since s0 (s\<lparr>w_now := now\<rparr>)"
    "parked i j q since s0 (s\<lparr>w_redis_up := up\<rparr>)" "parked i j q since s0 (s\<lparr>w_redis := g\<rparr>)"
  using assms by (simp_all add: parked_def)

lemma keeps_in_context: "keeps (parked i j q since s0) m \<Longrightarrow> keeps (parked i j q since s0) (in_context ctx m)"
  by (rule keepsI) (auto simp: prog_inv dest!: keepsD intro: parked_frame)

lemma keeps_asking: "(\<And>s. P s \<Longrightarrow> keeps P (f (g s))) \<Longrightarrow> keeps P (bnd (asks g) f)"
  by (rule keepsI) (auto simp: bnd_def asks_def dest: keepsD)

lemma keeps_finding:
  assumes "\<And>v s. P s \<Longrightarrow> get_by key j (coll s) = Some v \<Longrightarrow> keeps P (f (Some v))" and "keeps P (f None)"
  shows "keeps P (bnd (find_one coll key vis j) f)"
  using assms by (intro keepsI) (auto simp: bnd_def find_one_def dest: keepsD split: sum.splits option.splits if_splits)

lemma keeps_touch: "keeps (parked i j q since s0) (touch_presence k)"
  unfolding touch_presence_def
  by (intro keeps_bnd keeps_basic keeps_find_and_update parked_write) (auto simp: keeps_baseline_def)

lemma keeps_baseline_position: "keeps_baseline (write_position p now False)"
  by (simp add: keeps_baseline_def write_position_def Let_def)

text \<open>A frame that stays in range of the last move keeps it; a frame of another driver does not concern it.\<close>

lemma keeps_record_position:
  assumes range: "u_id v = i \<longrightarrow> metres q (lfr_lng frame, lfr_lat frame) \<le> pcf_movementMeters (cfg_presence (w_config s0))"
    and v: "parked i j q since s0 t" "get_by u_id (u_id v) (w_users t) = Some v"
  shows "keeps (parked i j q since s0) (record_position metres v frame)"
proof -
  let ?P = "parked i j q since s0" and ?p = "(lfr_lng frame, lfr_lat frame)"
  have moves: "keeps ?P (find_and_update w_users w_users_update u_id user_scoping (u_id v) Q
      (write_position ?p now (farther metres (pcf_movementMeters (cfg_presence (w_config s))) (u_lastMovedLocation v) ?p)))"
    if "?P s" for s now Q
  proof -
    have "\<not> farther metres (pcf_movementMeters (cfg_presence (w_config s))) (u_lastMovedLocation v) ?p" if "u_id v = i"
      using range v \<open>?P s\<close> that by (auto simp: parked_def farther_def)
    then show ?thesis
      by (intro keeps_find_and_update parked_write) (auto simp: keeps_baseline_position write_position_def Let_def)
  qed
  show ?thesis
    unfolding record_position_def Let_def
    by (intro keeps_if keeps_basic keeps_asking keeps_bnd [OF moves] keeps_bnd [OF keeps_option] keeps_emit parked_frame; assumption)
qed

lemma keeps_locationUpdate:
  assumes "au_userId (sk_user client) = i \<longrightarrow>
    metres q (lfr_lng frame, lfr_lat frame) \<le> pcf_movementMeters (cfg_presence (w_config s0))"
  shows "keeps (parked i j q since s0) (locationUpdate metres client frame)"
  unfolding locationUpdate_def
proof (intro keeps_in_context keeps_if keeps_basic keeps_finding)
  fix v t
  assume t: "parked i j q since s0 t" "get_by u_id (au_userId (sk_user client)) (w_users t) = Some v"
  then have "keeps (parked i j q since s0) (record_position metres v frame)"
    using get_by_key [OF t(2)] assms by (intro keeps_record_position [OF _ t(1)]) auto
  then show "keeps (parked i j q since s0) (case Some v of None \<Rightarrow> ret (LocationRefused FORBIDDEN_ROLE)
       | Some driver \<Rightarrow> if (case au_sgen (sk_user client) of None \<Rightarrow> 0 | Some g \<Rightarrow> g) \<noteq> u_sessionGeneration driver
           then ret (LocationRefused SESSION_REVOKED_REPLY)
           else bnd (touch_presence (au_userId (sk_user client))) (\<lambda>_. record_position metres driver frame))"
    by (simp add: keeps_bnd keeps_touch)
qed simp

lemma get_by_upd_where:
  "(\<And>d. key (f d) = key d) \<Longrightarrow>
     get_by key i (upd_where P f ds) = map_option (\<lambda>d. if P d then f d else d) (get_by key i ds)"
  by (induction ds) auto

lemma parked_many:
  assumes "parked i j q since s0 s" and "keeps_baseline f"
  shows "parked i j q since s0 (w_users_update (upd_where P f) s)"
proof -
  from assms(1) obtain u where "get_by u_id i (w_users s) = Some u" "u_role u = DRIVER" "u_activeOrderId u = Some j"
    "u_lastMovedAt u = Some since" "u_lastMovedLocation u = Some q" by (auto simp: parked_def)
  with assms show ?thesis by (cases "P u") (simp_all add: parked_def keeps_baseline_def get_by_upd_where)
qed

lemma keeps_sweep_offline: "keeps (parked i j q since s0) (sweepOfflineDrivers token)"
proof -
  have silent: "keeps (parked i j q since s0) markSilentDriversOffline"
    unfolding markSilentDriversOffline_def
  proof (intro keeps_bnd keeps_basic)
    show "keeps (parked i j q since s0) (update_many w_users_update user_scoping (silent_since cutoff) (\<lambda>u. u\<lparr>u_isOnline := False\<rparr>))" for cutoff
      by (auto simp: keeps_def update_many_def keeps_baseline_def intro: parked_many split: sum.splits)
  qed
  show ?thesis
    unfolding sweepOfflineDrivers_def runExclusively_def acquire_lease_def release_lease_def RELEASE_SCRIPT_def redis_command_def put_entry_def
    by (intro keeps_bnd keeps_basic keeps_if keeps_try_catch silent keeps_redis keeps_modify parked_frame; assumption?)
qed

lemma keeps_rooms: "keeps (parked i j q since s0) (join_room client r)" "keeps (parked i j q since s0) (leave_room client r)"
  by (auto simp: join_room_def leave_room_def intro!: keeps_modify parked_frame)

lemma socket_step_parked:
  assumes "socket_step metres i q s t" and "parked i j q since s0 s"
  shows "parked i j q since s0 t"
proof -
  have run: "keeps (parked i j q since s0) m \<Longrightarrow> parked i j q since s0 (snd (m s))" for m :: "'x service"
    using assms(2) by (simp add: keeps_def)
  have cfg: "w_config s = w_config s0" using assms(2) by (simp add: parked_def)
  from assms(1) show ?thesis
  proof cases
    case (connects client)
    then show ?thesis
      by (simp only: handleConnection_def)
        (intro run keeps_in_context keeps_try_catch keeps_bnd keeps_rooms keeps_if keeps_touch keeps_basic)
  next
    case (sends client frame)
    then show ?thesis using cfg by (auto intro!: run keeps_locationUpdate)
  next
    case (watches client k)
    have "snd (watch client k s) = s \<or> snd (watch client k s) = entered client k s"
      using watch_admits watch_refuses by (metis snd_conv)
    with watches assms(2) show ?thesis by (auto simp: entered_def intro: parked_frame)
  next
    case (leaves client k)
    then show ?thesis by (simp only: unwatch_def) (intro run keeps_rooms)
  next
    case (sweeps token)
    then show ?thesis by (simp only:) (intro run keeps_in_context keeps_sweep_offline)
  qed (use assms(2) in \<open>auto intro: parked_frame\<close>)
qed

section \<open>Properties of stops\<close>


section \<open>Witnesses\<close>

definition driving :: order where
  "driving = blank_order\<lparr>o_status := IN_TRANSIT, o_driverId := Some 7, o_transportCompanyId := Some 2\<rparr>"

lemma driving_fields [simp]:
  "o_id driving = 10" "o_status driving = IN_TRANSIT" "o_fuelCompanyId driving = 1" "o_clientId driving = 5"
  "o_transportCompanyId driving = Some 2" "o_stopEvents driving = []"
  by (simp_all add: driving_def blank_order_def)

definition highway :: world where
  "highway = empty_world\<lparr>w_now := 500000, w_companies := [fuel_company, transport_company],
     w_users := [blank_driver\<lparr>u_activeOrderId := Some 10, u_isAvailable := False, u_lastMovedAt := Some 0,
         u_lastMovedLocation := Some (46, 24)\<rparr>, blank_user],
     w_orders := [driving]\<rparr>"

definition socket_of :: "nat \<Rightarrow> oid \<Rightarrow> user_role \<Rightarrow> oid \<Rightarrow> oid option \<Rightarrow> socket" where
  "socket_of k i role company parent = \<lparr>sk_id = k, sk_user = \<lparr>au_userId = i, au_role = role, au_companyId = Some company,
     au_parentFuelCompanyId = parent, au_sgen = Some 0, au_sid = None\<rparr>\<rparr>"

definition nearby :: location_frame where
  "nearby = \<lparr>lfr_lat = 24, lfr_lng = 46 + 1 / 2, lfr_recordedAt = ''t''\<rparr>"

definition flat_metres :: "coords \<Rightarrow> coords \<Rightarrow> rat" where
  "flat_metres p q = 10 * \<bar>fst p - fst q\<bar> + 10 * \<bar>snd p - snd q\<bar>"

lemmas highway_defs = highway_def socket_of_def nearby_def flat_metres_def blank_driver_def blank_user_def fuel_company_def
  transport_company_def default_config_def default_presence_config_def empty_world_def

lemma client_watches: "watch (socket_of 1 5 CLIENT 1 None) 10 highway = (Inr Watching, entered (socket_of 1 5 CLIENT 1 None) 10 highway)"
  by (rule watch_admits [where d = driving]) (simp_all add: highway_defs may_watch_def)

theorem watch_rights_witness:
  "\<exists>d. get_by o_id 10 (w_orders highway) = Some d \<and> may_watch (sk_user (socket_of 1 5 CLIENT 1 None)) d"
  using watch_rights [OF client_watches] by simp

theorem transporter_cannot_watch_witness:
  "watch (socket_of 2 8 TRANSPORT_COMPANY_ADMIN 2 (Some 1)) 10 highway = (Inl IsolationViolation, highway)"
proof -
  let ?k = "socket_of 2 8 TRANSPORT_COMPANY_ADMIN 2 (Some 1)"
  have "find_one w_orders o_id order_scoping 10 (highway\<lparr>w_scope := scope_of (sk_user ?k)\<rparr>) =
      (Inr (Some (hd (w_orders highway))), highway\<lparr>w_scope := scope_of (sk_user ?k)\<rparr>)"
    by (simp add: find_one_def scope_defs scope_of_def highway_defs)
  then show ?thesis by (rule conjunct1 [OF transporter_cannot_watch, rotated]) (simp_all add: highway_defs)
qed

theorem deactivated_socket_still_watches_witness:
  "\<exists>v t. deactivateUser 5 highway = (Inr v, t) \<and>
     watch (socket_of 1 5 CLIENT 1 None) 10 t = (Inr Watching, entered (socket_of 1 5 CLIENT 1 None) 10 t)"
proof -
  have "\<exists>v t. deactivateUser 5 highway = (Inr v, t)" by (rule run_succeeds) code_simp
  then obtain v t where run: "deactivateUser (au_userId (sk_user (socket_of 1 5 CLIENT 1 None))) highway = (Inr v, t)"
    by (auto simp: socket_of_def)
  from deactivated_socket_still_watches [OF run client_watches] run show ?thesis by (auto simp: socket_of_def)
qed

theorem displaced_device_is_mute_witness:
  "\<exists>client v s2 r. revokeAllSessions 7 (Some SIGNED_IN_ELSEWHERE) highway = (Inr v, s2) \<and> sk_id client = 4 \<and>
     r \<noteq> Inr LocationAccepted \<and> locationUpdate flat_metres client nearby s2 = (r, s2)"
proof -
  let ?L = toy_libraries and ?tok = "lib_sign toy_libraries ACCESS_TOKEN
      \<lparr>jp_sub = 7, jp_role = DRIVER, jp_companyId = Some 2, jp_sgen = Some 0, jp_sid = None\<rparr>"
  have "\<exists>c t. handshake ?L 4 (Some ?tok) highway = (Inr c, t)" by (rule run_succeeds) code_simp
  then obtain c t where open4: "handshake ?L 4 (Some ?tok) highway = (Inr c, t)" by blast
  have "(fst (handshake ?L 4 (Some ?tok) highway)) = Inr (socket_of 4 7 DRIVER 2 (Some 1))" by code_simp
  with open4 have c: "c = socket_of 4 7 DRIVER 2 (Some 1)" by simp
  have "\<exists>v t. revokeAllSessions 7 (Some SIGNED_IN_ELSEWHERE) highway = (Inr v, t)" by (rule run_succeeds) code_simp
  then obtain v s2 where ended: "revokeAllSessions 7 (Some SIGNED_IN_ELSEWHERE) highway = (Inr v, s2)" by blast
  have "distinct (map u_id (w_users highway))" "au_userId (sk_user c) < w_next_id highway" by (simp_all add: c highway_defs)
  from displaced_device_is_mute [OF open4 this, of highway "Some SIGNED_IN_ELSEWHERE" v s2 s2 flat_metres nearby]
  obtain r where "r \<noteq> Inr LocationAccepted" "locationUpdate flat_metres c nearby s2 = (r, s2)"
    using ended by (auto simp: c socket_of_def)
  moreover have "sk_id c = 4" by (simp add: c socket_of_def)
  ultimately show ?thesis using ended by blast
qed


end
