(* ===== verification/Warehouses.thy ===== *)
theory Warehouses
  imports Access Pricing "HOL-Library.List_Lexorder" "HOL-Library.Char_ord"
begin

text \<open>
  The national list of fuel warehouses: \<open>modules/warehouses/warehouses.service.ts\<close> and
  \<open>warehouses.controller.ts\<close> (the nearest warehouse that supplies a grade is in \<open>Pricing\<close>).  The collection has no
  tenant.  Setters trim what is written and what is looked up by; the index on \<open>externalRef\<close> is unique over the
  warehouses that have one.
\<close>

section \<open>The service\<close>

record create_warehouse_dto =
  cwd_name :: string
  cwd_location :: coords
  cwd_addressText :: string
  cwd_region :: region_code
  cwd_governorate :: governorate_code
  cwd_fuelTypes :: "fuel_type list"
  cwd_externalRef :: "string option"

record update_warehouse_dto =
  uwd_name :: "string option"
  uwd_location :: "coords option"
  uwd_addressText :: "string option"
  uwd_region :: "region_code option"
  uwd_governorate :: "governorate_code option"
  uwd_fuelTypes :: "fuel_type list option"
  uwd_externalRef :: "string option"

definition findAllWarehouses :: "warehouse list service" where
  "findAllWarehouses = bnd (find_all w_warehouses unscoped (\<lambda>_. True)) (\<lambda>ws. ret (sort_key wh_name ws))"

definition findWarehouseById :: "oid \<Rightarrow> warehouse service" where
  "findWarehouseById i = bnd (find_one w_warehouses wh_id unscoped i) (demand NotFound)"

definition ref_clash :: "warehouse \<Rightarrow> warehouse \<Rightarrow> bool" where
  "ref_clash a b \<longleftrightarrow> wh_externalRef a \<noteq> None \<and> wh_externalRef a = wh_externalRef b"

definition new_warehouse :: "oid \<Rightarrow> create_warehouse_dto \<Rightarrow> string option \<Rightarrow> warehouse" where
  "new_warehouse i dto ref = \<lparr>wh_id = i, wh_name = trim (cwd_name dto), wh_location = cwd_location dto,
     wh_addressText = trim (cwd_addressText dto), wh_region = cwd_region dto, wh_governorate = cwd_governorate dto,
     wh_fuelTypes = cwd_fuelTypes dto, wh_isActive = True, wh_externalRef = map_option trim ref\<rparr>"

definition insert_warehouse :: "create_warehouse_dto \<Rightarrow> string option \<Rightarrow> warehouse service" where
  "insert_warehouse dto ref =
     bnd (guard (trim (cwd_name dto) \<noteq> '''' \<and> trim (cwd_addressText dto) \<noteq> '''') InvalidDocument) (\<lambda>_.
     bnd fresh_id (\<lambda>i.
     bnd (asks w_warehouses) (\<lambda>ws.
     bnd (guard (\<not> list_ex (ref_clash (new_warehouse i dto ref)) ws) DuplicateKey) (\<lambda>_.
     bnd (insert_doc w_warehouses_update (new_warehouse i dto ref)) (\<lambda>_.
     ret (new_warehouse i dto ref))))))"

definition createWarehouse :: "create_warehouse_dto \<Rightarrow> warehouse service" where
  "createWarehouse dto = insert_warehouse dto (cwd_externalRef dto)"

text \<open>\<open>{ $set: doc }\<close>: every field of the entry, and neither the id nor \<open>isActive\<close>.\<close>

definition set_entry :: "create_warehouse_dto \<Rightarrow> warehouse \<Rightarrow> warehouse" where
  "set_entry dto w = w\<lparr>wh_name := trim (cwd_name dto), wh_location := cwd_location dto,
     wh_addressText := trim (cwd_addressText dto), wh_region := cwd_region dto, wh_governorate := cwd_governorate dto,
     wh_fuelTypes := cwd_fuelTypes dto, wh_externalRef := map_option trim (cwd_externalRef dto)\<rparr>"

definition has_ref :: "string \<Rightarrow> warehouse \<Rightarrow> bool" where
  "has_ref ref w \<longleftrightarrow> wh_externalRef w = Some (trim ref)"

definition set_first :: "('a \<Rightarrow> bool) \<Rightarrow> ('a \<Rightarrow> 'a) \<Rightarrow> 'a list \<Rightarrow> 'a list" where
  "set_first P f xs = takeWhile (\<lambda>x. \<not> P x) xs @
     (case dropWhile (\<lambda>x. \<not> P x) xs of [] \<Rightarrow> [] | x # rest \<Rightarrow> f x # rest)"

text \<open>\<open>updateOne\<close> with \<open>upsert\<close>, which runs no validation: true when a document was inserted.\<close>

definition upsert_warehouse :: "create_warehouse_dto \<Rightarrow> string \<Rightarrow> bool service" where
  "upsert_warehouse dto ref =
     bnd (asks w_warehouses) (\<lambda>ws.
     if list_ex (has_ref ref) ws
     then bnd (modify (w_warehouses_update (set_first (has_ref ref) (set_entry dto)))) (\<lambda>_. ret False)
     else bnd fresh_id (\<lambda>i.
          bnd (insert_doc w_warehouses_update (new_warehouse i dto (Some ref))) (\<lambda>_. ret True)))"

primrec bulkLoad :: "create_warehouse_dto list \<Rightarrow> (nat \<times> nat) service" where
  "bulkLoad [] = ret (0, 0)"
| "bulkLoad (dto # entries) =
     bnd (case cwd_externalRef dto of
            None \<Rightarrow> bnd (insert_warehouse dto None) (\<lambda>_. ret True)
          | Some ref \<Rightarrow> if ref = '''' then bnd (insert_warehouse dto None) (\<lambda>_. ret True) else upsert_warehouse dto ref) (\<lambda>inserted.
     bnd (bulkLoad entries) (\<lambda>(created, updated).
     ret (if inserted then (Suc created, updated) else (created, Suc updated))))"

definition patch_warehouse :: "update_warehouse_dto \<Rightarrow> warehouse \<Rightarrow> warehouse" where
  "patch_warehouse dto w = w\<lparr>wh_name := (case uwd_name dto of None \<Rightarrow> wh_name w | Some x \<Rightarrow> trim x),
     wh_location := (case uwd_location dto of None \<Rightarrow> wh_location w | Some x \<Rightarrow> x),
     wh_addressText := (case uwd_addressText dto of None \<Rightarrow> wh_addressText w | Some x \<Rightarrow> trim x),
     wh_region := (case uwd_region dto of None \<Rightarrow> wh_region w | Some x \<Rightarrow> x),
     wh_governorate := (case uwd_governorate dto of None \<Rightarrow> wh_governorate w | Some x \<Rightarrow> x),
     wh_fuelTypes := (case uwd_fuelTypes dto of None \<Rightarrow> wh_fuelTypes w | Some x \<Rightarrow> x),
     wh_externalRef := (case uwd_externalRef dto of None \<Rightarrow> wh_externalRef w | Some x \<Rightarrow> Some (trim x))\<rparr>"

definition updateWarehouse :: "oid \<Rightarrow> update_warehouse_dto \<Rightarrow> warehouse service" where
  "updateWarehouse i dto =
     bnd (asks w_warehouses) (\<lambda>ws.
     bnd (guard (\<not> (case get_by wh_id i ws of
            None \<Rightarrow> False
          | Some w \<Rightarrow> list_ex (\<lambda>x. wh_id x \<noteq> i \<and> ref_clash (patch_warehouse dto w) x) ws)) DuplicateKey) (\<lambda>_.
     bnd (find_and_update w_warehouses w_warehouses_update wh_id unscoped i (\<lambda>_. True) (patch_warehouse dto)) (demand NotFound)))"

definition withdrawWarehouse :: "oid \<Rightarrow> warehouse service" where
  "withdrawWarehouse i =
     bnd (find_and_update w_warehouses w_warehouses_update wh_id unscoped i (\<lambda>_. True) (\<lambda>w. w\<lparr>wh_isActive := False\<rparr>))
       (demand NotFound)"

section \<open>The endpoints\<close>

definition warehouses_findAll :: "authenticated_user \<Rightarrow> warehouse list service" where
  "warehouses_findAll user = endpoint [] user findAllWarehouses"

definition warehouses_findOne :: "authenticated_user \<Rightarrow> oid \<Rightarrow> warehouse service" where
  "warehouses_findOne user i = endpoint [] user (findWarehouseById i)"

definition warehouses_create :: "authenticated_user \<Rightarrow> create_warehouse_dto \<Rightarrow> warehouse service" where
  "warehouses_create user dto = endpoint [SUPER_ADMIN] user (createWarehouse dto)"

definition warehouses_bulkLoad :: "authenticated_user \<Rightarrow> create_warehouse_dto list \<Rightarrow> (nat \<times> nat) service" where
  "warehouses_bulkLoad user warehouses = endpoint [SUPER_ADMIN] user (bulkLoad warehouses)"

definition warehouses_update :: "authenticated_user \<Rightarrow> oid \<Rightarrow> update_warehouse_dto \<Rightarrow> warehouse service" where
  "warehouses_update user i dto = endpoint [SUPER_ADMIN] user (updateWarehouse i dto)"

definition warehouses_withdraw :: "authenticated_user \<Rightarrow> oid \<Rightarrow> warehouse service" where
  "warehouses_withdraw user i = endpoint [SUPER_ADMIN] user (withdrawWarehouse i)"

section \<open>Loading a dataset twice\<close>

definition referenced :: "create_warehouse_dto \<Rightarrow> bool" where
  "referenced dto \<longleftrightarrow> (\<exists>ref. cwd_externalRef dto = Some ref \<and> ref \<noteq> '''')"

abbreviation ref_of :: "create_warehouse_dto \<Rightarrow> string option" where
  "ref_of dto \<equiv> map_option trim (cwd_externalRef dto)"

text \<open>What an entry asks of the list: the first warehouse under its reference carries its data.\<close>

definition loaded :: "create_warehouse_dto \<Rightarrow> warehouse list \<Rightarrow> bool" where
  "loaded dto ws \<longleftrightarrow> (\<exists>w. find (\<lambda>w. wh_externalRef w = ref_of dto) ws = Some w \<and> set_entry dto w = w)"

lemma set_first_Nil [simp]: "set_first P f [] = []"
  by (simp add: set_first_def)

lemma set_first_Cons [simp]: "set_first P f (x # xs) = (if P x then f x # xs else x # set_first P f xs)"
  by (simp add: set_first_def)

lemma length_set_first [simp]: "length (set_first P f xs) = length xs"
  by (induction xs) auto

lemma find_set_first:
  "(\<And>x. P x \<Longrightarrow> P (f x)) \<Longrightarrow> find P (set_first P f xs) = map_option f (find P xs)"
  by (induction xs) auto

lemma find_set_first_other:
  "(\<And>x. P x \<Longrightarrow> \<not> Q x \<and> \<not> Q (f x)) \<Longrightarrow> find Q (set_first P f xs) = find Q xs"
  by (induction xs) auto

lemma set_first_same: "find P xs = Some x \<Longrightarrow> f x = x \<Longrightarrow> set_first P f xs = xs"
  by (induction xs) auto

lemma list_ex_find: "list_ex P xs \<longleftrightarrow> find P xs \<noteq> None"
  by (induction xs) auto

lemma set_entry_fields [simp]: "wh_externalRef (set_entry dto w) = ref_of dto" "set_entry dto (set_entry dto w) = set_entry dto w"
  by (simp_all add: set_entry_def)

lemma new_entry [simp]:
  "wh_externalRef (new_warehouse i dto ref) = map_option trim ref"
  "cwd_externalRef dto = ref \<Longrightarrow> set_entry dto (new_warehouse i dto ref) = new_warehouse i dto ref"
  by (simp_all add: set_entry_def new_warehouse_def)

lemma upsert_run:
  assumes "cwd_externalRef dto = Some ref"
  shows "\<exists>t. upsert_warehouse dto ref s = (Inr (\<not> list_ex (has_ref ref) (w_warehouses s)), t) \<and> loaded dto (w_warehouses t) \<and>
     length (w_warehouses t) = length (w_warehouses s) + of_bool (\<not> list_ex (has_ref ref) (w_warehouses s)) \<and>
     (\<forall>e. ref_of e \<noteq> ref_of dto \<longrightarrow> loaded e (w_warehouses s) \<longrightarrow> loaded e (w_warehouses t))"
proof (cases "list_ex (has_ref ref) (w_warehouses s)")
  case True
  let ?ws = "set_first (has_ref ref) (set_entry dto) (w_warehouses s)"
  have key: "has_ref ref = (\<lambda>w. wh_externalRef w = ref_of dto)" using assms by (auto simp: has_ref_def)
  obtain w where "find (has_ref ref) (w_warehouses s) = Some w"
    using True by (auto simp: list_ex_find)
  then have "loaded dto ?ws" using find_set_first [of "has_ref ref" "set_entry dto" "w_warehouses s"] by (auto simp: loaded_def key)
  moreover have "loaded e ?ws" if "ref_of e \<noteq> ref_of dto" "loaded e (w_warehouses s)" for e
    using that find_set_first_other [of "has_ref ref" "\<lambda>w. wh_externalRef w = ref_of e" "set_entry dto" "w_warehouses s"]
    by (auto simp: loaded_def key)
  ultimately show ?thesis using True
    by (intro exI [of _ "s\<lparr>w_warehouses := ?ws\<rparr>"]) (simp add: upsert_warehouse_def bnd_def asks_def modify_def ret_def)
next
  case False
  let ?w = "new_warehouse (w_next_id s) dto (Some ref)"
  have absent: "find (\<lambda>w. wh_externalRef w = ref_of dto) (w_warehouses s) = None"
    using False assms by (auto simp: find_None_iff list_ex_iff has_ref_def)
  have grows: "find Q (xs @ [y]) = (case find Q xs of None \<Rightarrow> if Q y then Some y else None | Some x \<Rightarrow> Some x)" for Q xs and y :: warehouse
    by (induction xs) auto
  have "loaded dto (w_warehouses s @ [?w])" using assms absent by (simp add: loaded_def grows)
  moreover have "loaded e (w_warehouses s @ [?w])" if "loaded e (w_warehouses s)" for e
    using that by (auto simp: loaded_def grows)
  ultimately show ?thesis using False
    by (simp add: upsert_warehouse_def bnd_def asks_def modify_def ret_def fresh_id_def insert_doc_def)
qed

lemma load_step:
  assumes "referenced dto"
  obtains ref where "cwd_externalRef dto = Some ref"
    "bulkLoad (dto # es) s = bnd (upsert_warehouse dto ref) (\<lambda>inserted. bnd (bulkLoad es) (\<lambda>(created, updated).
       ret (if inserted then (Suc created, updated) else (created, Suc updated)))) s"
  using assms by (auto simp: referenced_def)

lemma load_first:
  assumes "\<forall>e \<in> set es. referenced e" and "distinct (map ref_of es)"
  shows "\<exists>created updated t. bulkLoad es s = (Inr (created, updated), t) \<and> created + updated = length es \<and>
     length (w_warehouses t) = length (w_warehouses s) + created \<and> (\<forall>e \<in> set es. loaded e (w_warehouses t)) \<and>
     (\<forall>e. ref_of e \<notin> ref_of ` set es \<longrightarrow> loaded e (w_warehouses s) \<longrightarrow> loaded e (w_warehouses t))"
  using assms
proof (induction es arbitrary: s)
  case Nil
  show ?case by (simp add: ret_def)
next
  case (Cons e es)
  then have "referenced e" by simp
  then obtain ref where ref: "cwd_externalRef e = Some ref" and run: "bulkLoad (e # es) s =
      bnd (upsert_warehouse e ref) (\<lambda>inserted. bnd (bulkLoad es) (\<lambda>(created, updated).
       ret (if inserted then (Suc created, updated) else (created, Suc updated)))) s" by (rule load_step)
  let ?new = "\<not> list_ex (has_ref ref) (w_warehouses s)"
  obtain s1 where s1: "upsert_warehouse e ref s = (Inr ?new, s1)" "loaded e (w_warehouses s1)"
    "length (w_warehouses s1) = length (w_warehouses s) + of_bool ?new"
    "\<And>x. ref_of x \<noteq> ref_of e \<Longrightarrow> loaded x (w_warehouses s) \<Longrightarrow> loaded x (w_warehouses s1)"
    using upsert_run [OF ref, of s] by blast
  obtain created updated t where t: "bulkLoad es s1 = (Inr (created, updated), t)" "created + updated = length es"
    "length (w_warehouses t) = length (w_warehouses s1) + created" "\<forall>x \<in> set es. loaded x (w_warehouses t)"
    "\<And>x. ref_of x \<notin> ref_of ` set es \<Longrightarrow> loaded x (w_warehouses s1) \<Longrightarrow> loaded x (w_warehouses t)"
    using Cons.IH [of s1] Cons.prems by auto
  have "bulkLoad (e # es) s = (Inr (if ?new then (Suc created, updated) else (created, Suc updated)), t)"
    by (simp only: run) (simp add: bnd_def s1(1) t(1) ret_def)
  moreover have "loaded e (w_warehouses t)" using t(5) [OF _ s1(2)] Cons.prems(2) by simp
  moreover have "loaded x (w_warehouses t)" if "ref_of x \<notin> ref_of ` set (e # es)" "loaded x (w_warehouses s)" for x
    using that by (intro t(5) s1(4)) auto
  ultimately show ?case using t(2-4) s1(3) by (cases ?new) auto
qed

lemma load_again: "\<forall>e \<in> set es. referenced e \<and> loaded e (w_warehouses s) \<Longrightarrow> bulkLoad es s = (Inr (0, length es), s)"
proof (induction es)
  case (Cons e es)
  then obtain ref w where e: "cwd_externalRef e = Some ref" "ref \<noteq> ''''"
    and w: "find (\<lambda>w. wh_externalRef w = ref_of e) (w_warehouses s) = Some w" "set_entry e w = w"
    by (auto simp: referenced_def loaded_def)
  have key: "has_ref ref = (\<lambda>w. wh_externalRef w = ref_of e)" using e by (auto simp: has_ref_def)
  have "upsert_warehouse e ref s = (Inr False, s)"
    using w set_first_same [where f = "set_entry e", OF w] by (simp add: upsert_warehouse_def bnd_def asks_def modify_def ret_def key list_ex_find)
  with e Cons show ?case by (simp add: bnd_def ret_def)
qed (simp add: ret_def)

section \<open>Properties\<close>

text \<open>C31: loading a dataset whose entries have distinct references always succeeds and adds exactly the warehouses it
  says it created; loading the same dataset again changes nothing and reports every entry as an update.\<close>

theorem bulk_load_idempotent:
  assumes "\<forall>e \<in> set es. referenced e" and "distinct (map ref_of es)"
  shows "\<exists>created updated t. bulkLoad es s = (Inr (created, updated), t) \<and> created + updated = length es \<and>
     length (w_warehouses t) = length (w_warehouses s) + created \<and> bulkLoad es t = (Inr (0, length es), t)"
  using load_first [OF assms, of s] load_again [of es] assms(1) by blast

definition port_entry :: "string \<Rightarrow> string \<Rightarrow> create_warehouse_dto" where
  "port_entry name ref = \<lparr>cwd_name = name, cwd_location = (39, 21), cwd_addressText = ''Port'', cwd_region = ''MAKKAH'',
     cwd_governorate = ''JEDDAH'', cwd_fuelTypes = [DIESEL], cwd_externalRef = Some ref\<rparr>"

theorem bulk_load_idempotent_witness:
  "let es = [port_entry ''North'' ''N1'', port_entry ''South'' '' N2''] in
   \<exists>c u t. bulkLoad es empty_world = (Inr (c, u), t) \<and> length (w_warehouses t) = c \<and> bulkLoad es t = (Inr (0, 2), t)"
proof -
  let ?es = "[port_entry ''North'' ''N1'', port_entry ''South'' '' N2'']"
  have "\<forall>e \<in> set ?es. referenced e" by (simp add: referenced_def port_entry_def)
  moreover have "distinct (map ref_of ?es)" by (simp add: port_entry_def trim_def is_space_def)
  ultimately show ?thesis using bulk_load_idempotent [of ?es empty_world] by (auto simp: empty_world_def)
qed

end
