(* ===== verification/Support.thy ===== *)
theory Support
  imports Orders Access Accounts
begin

text \<open>
  Problems a client raises with its fuel company: \<open>modules/support/support.service.ts\<close> and
  \<open>support.controller.ts\<close>.  A request has two states and one direction.
\<close>

section \<open>The service\<close>

abbreviation support_scoping :: "support_request scoping" where
  "support_scoping \<equiv> tenant_scoped (\<lambda>d. Some (sr_companyId d))"

record create_support_request_dto =
  csr_topic :: support_topic
  csr_message :: string
  csr_orderId :: "oid option"

definition notifyFuelCompanyAdmins :: "oid \<Rightarrow> support_request \<Rightarrow> unit service" where
  "notifyFuelCompanyAdmins companyId request =
     bnd (findAllUsers \<lparr>uf_role = Some FUEL_COMPANY_ADMIN, uf_isActive = Some True, uf_companyId = None\<rparr>) (\<lambda>admins.
     for_each admins (\<lambda>admin. notify companyId (u_id admin) SUPPORT_REQUEST_RAISED (sr_orderId request)))"

definition new_support_request :: "oid \<Rightarrow> oid \<Rightarrow> oid \<Rightarrow> create_support_request_dto \<Rightarrow> support_request" where
  "new_support_request i companyId clientId dto = \<lparr>sr_id = i, sr_companyId = companyId, sr_clientId = clientId,
     sr_orderId = csr_orderId dto, sr_topic = csr_topic dto, sr_message = trim (csr_message dto), sr_state = SUBMITTED,
     sr_acknowledgedAt = None, sr_acknowledgedBy = None\<rparr>"

definition createSupportRequest :: "oid \<Rightarrow> oid option \<Rightarrow> create_support_request_dto \<Rightarrow> support_request service" where
  "createSupportRequest clientId companyId dto =
     bnd (case csr_orderId dto of None \<Rightarrow> ret () | Some i \<Rightarrow> bnd (findOrderById i) (\<lambda>_. ret ())) (\<lambda>_.
     bnd (demand InternalError companyId) (\<lambda>supplied.
     bnd (tenant_key supplied) (\<lambda>owner.
     bnd (guard (trim (csr_message dto) \<noteq> '''') InvalidDocument) (\<lambda>_.
     bnd fresh_id (\<lambda>i.
     let request = new_support_request i owner clientId dto
     in bnd (insert_doc w_support_update request) (\<lambda>_.
        bnd (notifyFuelCompanyAdmins supplied request) (\<lambda>_. ret request)))))))"

text \<open>Requests stand in the order of their creation.\<close>

definition findSupportForClient :: "oid \<Rightarrow> support_request list service" where
  "findSupportForClient clientId = bnd (find_all w_support support_scoping (\<lambda>d. sr_clientId d = clientId)) (\<lambda>ds. ret (rev ds))"

definition findSupportForCompany :: "support_request list service" where
  "findSupportForCompany = bnd (find_all w_support support_scoping (\<lambda>_. True)) (\<lambda>ds. ret (rev ds))"

definition stamp_acknowledged :: "instant \<Rightarrow> oid \<Rightarrow> support_request \<Rightarrow> support_request" where
  "stamp_acknowledged now adminId d =
     d\<lparr>sr_state := ACKNOWLEDGED, sr_acknowledgedAt := Some now, sr_acknowledgedBy := Some adminId\<rparr>"

definition acknowledgeSupport :: "oid \<Rightarrow> oid \<Rightarrow> support_request service" where
  "acknowledgeSupport i adminId =
     bnd (find_one w_support sr_id support_scoping i) (\<lambda>found.
     bnd (demand NotFound found) (\<lambda>request.
     bnd (guard (sr_state request \<noteq> ACKNOWLEDGED) (Conflict None)) (\<lambda>_.
     bnd (asks w_now) (\<lambda>now.
     bnd (find_and_update w_support w_support_update sr_id unscoped i (\<lambda>_. True) (stamp_acknowledged now adminId)) (\<lambda>_.
     ret (stamp_acknowledged now adminId request))))))"

section \<open>The endpoints\<close>

definition support_create :: "authenticated_user \<Rightarrow> create_support_request_dto \<Rightarrow> support_request service" where
  "support_create user dto = endpoint [CLIENT] user (createSupportRequest (au_userId user) (au_companyId user) dto)"

definition support_findAll :: "authenticated_user \<Rightarrow> support_request list service" where
  "support_findAll user = endpoint [CLIENT, FUEL_COMPANY_ADMIN] user (
     if au_role user = CLIENT then findSupportForClient (au_userId user) else findSupportForCompany)"

definition support_acknowledge :: "authenticated_user \<Rightarrow> oid \<Rightarrow> support_request service" where
  "support_acknowledge user i = endpoint [FUEL_COMPANY_ADMIN] user (acknowledgeSupport i (au_userId user))"

section \<open>What the operations guarantee\<close>

text \<open>A request about an order needs the order to be one the client may see: otherwise nothing is written.\<close>

lemma support_needs_own_order:
  assumes "csr_orderId dto = Some i" and "findOrderById i s = (Inl e, s)"
  shows "createSupportRequest clientId companyId dto s = (Inl e, s)"
  using assms by (simp add: createSupportRequest_def bnd_def)

text \<open>An acknowledgement is final: it keeps its author and its time, and a second one is a conflict.\<close>

lemma acknowledged_once:
  assumes "acknowledgeSupport i adminId s = (Inr d, t)"
  shows "sr_acknowledgedBy d = Some adminId \<and> sr_acknowledgedAt d = Some (w_now s) \<and>
     get_by sr_id i (w_support t) = Some d \<and> acknowledgeSupport i other t = (Inl (Conflict None), t)"
proof -
  let ?f = "stamp_acknowledged (w_now s) adminId"
  from assms obtain v d0 r where v: "support_scoping (w_scope s) = Inr v" and d0: "get_by sr_id i (w_support s) = Some d0" "v d0"
    and d: "d = ?f d0" and run: "find_and_update w_support w_support_update sr_id unscoped i (\<lambda>_. True) ?f s = (Inr r, t)"
    by (auto simp: acknowledgeSupport_def prog_inv split: if_splits)
  from run d0(1) have t: "t = w_support_update (upd_by sr_id i ?f) s" by (cases r) (auto simp: prog_inv)
  have found: "get_by sr_id i (w_support t) = Some d"
    using d0(1) by (simp add: t d get_by_upd_by stamp_acknowledged_def)
  have owner: "sr_companyId d = sr_companyId d0" by (simp add: d stamp_acknowledged_def)
  have "v d = v d0" using v owner by (auto simp: tenant_scoped_def split: sum.splits option.splits)
  with found v d0(2) show ?thesis
    by (simp add: acknowledgeSupport_def bnd_def find_one_def demand_def guard_def d t stamp_acknowledged_def)
qed

end
