(* ===== verification/Drivers.thy ===== *)
theory Drivers
  imports Orders Accounts Companies
begin

text \<open>
  What is shown of drivers: their own day (\<open>modules/drivers/drivers.service.ts\<close>, with the day boundary of
  \<open>common/utils/day-boundary.util.ts\<close>) and the operator's roster (\<open>driver-roster.service.ts\<close>), behind
  \<open>drivers.controller.ts\<close>.  The wall clock of a time zone, as \<open>Intl.DateTimeFormat\<close>
  renders it to the second, is the parameter \<open>wallClock\<close>: the instant at which UTC shows the same figures.  The roster
  is the whole list, newest account first, without the cursor.
\<close>

section \<open>The day of a driver\<close>

definition DAY_MS :: int where "DAY_MS = 86400000"

text \<open>In milliseconds; the source divides by 60000 and multiplies again.\<close>

definition offsetAt :: "(instant \<Rightarrow> instant) \<Rightarrow> instant \<Rightarrow> int" where
  "offsetAt wallClock t = wallClock t - t"

definition startOfDayInTimezone :: "(instant \<Rightarrow> instant) \<Rightarrow> instant \<Rightarrow> instant" where
  "startOfDayInTimezone wallClock t =
     (let offset = offsetAt wallClock t; zonedNow = t + offset; startOfZonedDayAsUtc = zonedNow div DAY_MS * DAY_MS
      in startOfZonedDayAsUtc - offset)"

record driver_summary_reply =
  dsr_ratingAverage :: "rat option"
  dsr_ratingCount :: nat
  dsr_deliveriesToday :: nat
  dsr_readyForWork :: bool

definition delivered_since :: "oid \<Rightarrow> instant \<Rightarrow> order \<Rightarrow> bool" where
  "delivered_since driverId start d \<longleftrightarrow> o_driverId d = Some driverId \<and> o_status d = DELIVERED \<and>
     (case o_deliveredAt d of None \<Rightarrow> False | Some t \<Rightarrow> start \<le> t)"

definition summaryFor :: "(instant \<Rightarrow> instant) \<Rightarrow> oid \<Rightarrow> driver_summary_reply service" where
  "summaryFor wallClock driverId =
     bnd (find_one w_users u_id user_scoping driverId) (\<lambda>found.
     bnd (demand NotFound found) (\<lambda>driver.
     bnd (asks w_now) (\<lambda>now.
     bnd (count_docs w_orders order_scoping (delivered_since (u_id driver) (startOfDayInTimezone wallClock now))) (\<lambda>n.
     ret \<lparr>dsr_ratingAverage = u_ratingAverage driver, dsr_ratingCount = u_ratingCount driver, dsr_deliveriesToday = n,
          dsr_readyForWork = (u_isActive driver \<and> u_isOnline driver \<and> u_isAvailable driver \<and> u_activeOrderId driver = None)\<rparr>))))"

section \<open>The roster\<close>

definition dutyStateOf :: "user \<Rightarrow> duty_state" where
  "dutyStateOf driver =
     (if u_lastSeenAt driver = None then UNKNOWN_DUTY else if u_isOnline driver then ON_DUTY else OFF_DUTY)"

primrec dutyStateFilter :: "duty_state \<Rightarrow> user \<Rightarrow> bool" where
  "dutyStateFilter UNKNOWN_DUTY u \<longleftrightarrow> u_lastSeenAt u = None"
| "dutyStateFilter ON_DUTY u \<longleftrightarrow> u_lastSeenAt u \<noteq> None \<and> u_isOnline u"
| "dutyStateFilter OFF_DUTY u \<longleftrightarrow> u_lastSeenAt u \<noteq> None \<and> \<not> u_isOnline u"

record roster_filter =
  rf_isActive :: "bool option"
  rf_dutyState :: "duty_state option"

record roster_row =
  rr_driverId :: oid
  rr_fullName :: string
  rr_phone :: string
  rr_isActive :: bool
  rr_dutyState :: duty_state
  rr_transportCompany :: "(oid \<times> string) option"
  rr_lastOperatedTruck :: "(oid \<times> string) option"

definition resolveCompanyNames :: "user list \<Rightarrow> (oid \<Rightarrow> string option) service" where
  "resolveCompanyNames drivers =
     (if \<forall>u \<in> set drivers. u_companyId u = None then ret (\<lambda>_. None)
      else bnd (find_all w_companies unscoped (\<lambda>c. Some (c_id c) \<in> u_companyId ` set drivers)) (\<lambda>companies.
           ret (map_of (map (\<lambda>c. (c_id c, c_name c)) companies))))"

text \<open>Per driver, the truck of the newest order that has one; then the plates of these trucks in one query.\<close>

definition last_truck_id :: "order list \<Rightarrow> oid \<Rightarrow> oid option" where
  "last_truck_id past driverId = (case latest_by o_createdAt (filter (\<lambda>d. o_driverId d = Some driverId) past) of
     None \<Rightarrow> None | Some d \<Rightarrow> o_truckId d)"

definition resolveLastOperatedTrucks :: "oid list \<Rightarrow> (oid \<Rightarrow> (oid \<times> string) option) service" where
  "resolveLastOperatedTrucks driverIds =
     (if driverIds = [] then ret (\<lambda>_. None)
      else bnd (find_all w_orders order_scoping (\<lambda>d. o_driverId d \<in> Some ` set driverIds \<and> o_truckId d \<noteq> None)) (\<lambda>past.
        if past = [] then ret (\<lambda>_. None)
        else bnd (find_all w_trucks truck_scoping (\<lambda>t. Some (trk_id t) \<in> last_truck_id past ` set driverIds)) (\<lambda>trucks.
          ret (\<lambda>i. case last_truck_id past i of
                 None \<Rightarrow> None
               | Some truckId \<Rightarrow> (case map_of (map (\<lambda>t. (trk_id t, trk_plateNumber t)) trucks) truckId of
                    None \<Rightarrow> None
                  | Some plate \<Rightarrow> Some (truckId, plate))))))"

definition roster_query :: "roster_filter \<Rightarrow> user \<Rightarrow> bool" where
  "roster_query f u \<longleftrightarrow> u_role u = DRIVER \<and> (case rf_isActive f of None \<Rightarrow> True | Some b \<Rightarrow> u_isActive u = b) \<and>
     (case rf_dutyState f of None \<Rightarrow> True | Some st \<Rightarrow> dutyStateFilter st u)"

definition roster_row_of :: "(oid \<Rightarrow> string option) \<Rightarrow> (oid \<Rightarrow> (oid \<times> string) option) \<Rightarrow> user \<Rightarrow> roster_row" where
  "roster_row_of companies trucks driver = \<lparr>rr_driverId = u_id driver, rr_fullName = u_fullName driver, rr_phone = u_phone driver,
     rr_isActive = u_isActive driver, rr_dutyState = dutyStateOf driver,
     rr_transportCompany = (case u_companyId driver of
        None \<Rightarrow> None | Some c \<Rightarrow> map_option (\<lambda>name. (c, name)) (companies c)),
     rr_lastOperatedTruck = trucks (u_id driver)\<rparr>"

definition list_roster :: "roster_filter \<Rightarrow> roster_row list service" where
  "list_roster f =
     bnd (find_all w_users user_scoping (roster_query f)) (\<lambda>found.
     let items = rev found
     in bnd (resolveCompanyNames items) (\<lambda>companies.
        bnd (resolveLastOperatedTrucks (map u_id items)) (\<lambda>trucks.
        ret (map (roster_row_of companies trucks) items))))"

section \<open>The endpoints\<close>

definition parseBooleanQuery :: "string option \<Rightarrow> bool option service" where
  "parseBooleanQuery value =
     (if value = None \<or> value = Some '''' then ret None
      else if value = Some ''true'' then ret (Some True)
      else if value = Some ''false'' then ret (Some False)
      else throw (BadRequest None))"

definition duty_state_names :: "(string \<times> duty_state) list" where
  "duty_state_names = [(''ON_DUTY'', ON_DUTY), (''OFF_DUTY'', OFF_DUTY), (''UNKNOWN'', UNKNOWN_DUTY)]"

definition drivers_summary :: "(instant \<Rightarrow> instant) \<Rightarrow> authenticated_user \<Rightarrow> driver_summary_reply service" where
  "drivers_summary wallClock user = endpoint [DRIVER] user (summaryFor wallClock (au_userId user))"

definition drivers_roster :: "authenticated_user \<Rightarrow> string option \<Rightarrow> string option \<Rightarrow> roster_row list service" where
  "drivers_roster user isActive dutyState = endpoint [SUPER_ADMIN] user (
     bnd (parseBooleanQuery isActive) (\<lambda>active.
     bnd (parseEnumQuery duty_state_names dutyState) (\<lambda>state.
     list_roster \<lparr>rf_isActive = active, rf_dutyState = state\<rparr>)))"

section \<open>Lemmas\<close>

lemma duty_filter_is_duty_state: "dutyStateFilter st u \<longleftrightarrow> dutyStateOf u = st"
  by (cases st) (auto simp: dutyStateOf_def)

text \<open>What the lookups of a page return, given that the request sees every order and truck.\<close>

lemma operator_scope:
  "rs_role ctx = Some SUPER_ADMIN \<Longrightarrow> order_scoping ctx = Inr (\<lambda>_. True)"
  "rs_role ctx = Some SUPER_ADMIN \<Longrightarrow> tenant_scoped owner ctx = Inr (\<lambda>_. True)"
  by (simp_all add: scope_defs)

definition company_names :: "world \<Rightarrow> user list \<Rightarrow> oid \<Rightarrow> string option" where
  "company_names s drivers = (if \<forall>u \<in> set drivers. u_companyId u = None then (\<lambda>_. None)
     else map_of (map (\<lambda>c. (c_id c, c_name c)) (filter (\<lambda>c. Some (c_id c) \<in> u_companyId ` set drivers) (w_companies s))))"

definition driven_by :: "oid list \<Rightarrow> world \<Rightarrow> order list" where
  "driven_by driverIds s = filter (\<lambda>d. o_driverId d \<in> Some ` set driverIds \<and> o_truckId d \<noteq> None) (w_orders s)"

definition plates_of :: "oid list \<Rightarrow> world \<Rightarrow> oid \<Rightarrow> (oid \<times> string) option" where
  "plates_of driverIds s i = (if driverIds = [] \<or> driven_by driverIds s = [] then None
     else case last_truck_id (driven_by driverIds s) i of
        None \<Rightarrow> None
      | Some truckId \<Rightarrow> map_option (Pair truckId) (map_of (map (\<lambda>t. (trk_id t, trk_plateNumber t))
          (filter (\<lambda>t. Some (trk_id t) \<in> last_truck_id (driven_by driverIds s) ` set driverIds) (w_trucks s))) truckId))"

lemma roster_run:
  assumes "rs_role (w_scope s) = Some SUPER_ADMIN"
  shows "list_roster f s = (Inr (let items = rev (filter (roster_query f) (w_users s))
     in map (roster_row_of (company_names s items) (plates_of (map u_id items) s)) items), s)"
proof -
  let ?items = "rev (filter (roster_query f) (w_users s))"
  have names: "resolveCompanyNames ds s = (Inr (company_names s ds), s)" for ds
    by (simp add: resolveCompanyNames_def company_names_def bnd_def find_all_def ret_def)
  have found: "find_all w_orders order_scoping P s = (Inr (filter P (w_orders s)), s)"
    "find_all w_trucks truck_scoping Q s = (Inr (filter Q (w_trucks s)), s)" for P Q
    using operator_scope(1) [OF assms] operator_scope(2) [OF assms, of "\<lambda>d::truck. Some (trk_companyId d)"]
    by (simp_all add: find_all_def)
  have trucks: "resolveLastOperatedTrucks is s = (Inr (plates_of is s), s)" for "is"
  proof (cases "is = []")
    case False
    then show ?thesis
      by (simp only: resolveLastOperatedTrucks_def bnd_def found if_False prod.case sum.case driven_by_def [symmetric])
        (auto simp: plates_of_def bnd_def found ret_def fun_eq_iff split: option.split)
  qed (simp add: resolveLastOperatedTrucks_def plates_of_def [abs_def] ret_def)
  show ?thesis
    using operator_scope(2) [OF assms, of "\<lambda>d::user. u_companyId d"]
    by (simp add: list_roster_def bnd_def find_all_def Let_def names trucks ret_def)
qed

section \<open>Properties\<close>

text \<open>What the roster may be derived from: of a driver the identity, the employer, the two flags and whether he was ever
  seen; of an order who drove which truck, and in which sequence.\<close>

definition whereabouts_erased :: "user \<Rightarrow> user" where
  "whereabouts_erased u = u\<lparr>u_lastSeenAt := map_option (\<lambda>_. 0) (u_lastSeenAt u), u_location := None, u_locationUpdatedAt := None,
     u_lastMovedAt := None, u_lastMovedLocation := None, u_activeOrderId := None, u_isAvailable := True,
     u_ratingAverage := None, u_ratingCount := 0, u_email := '''', u_passwordHash := '''', u_activeSessions := []\<rparr>"

definition trip_erased :: "order \<Rightarrow> order" where
  "trip_erased d = blank_order\<lparr>o_driverId := o_driverId d, o_truckId := o_truckId d, o_createdAt := o_createdAt d\<rparr>"

definition roster_view :: "world \<Rightarrow> world" where
  "roster_view s = s\<lparr>w_users := map whereabouts_erased (w_users s), w_orders := map trip_erased (w_orders s)\<rparr>"

lemma filter_map_erased: "(\<And>x. P (g x) = P x) \<Longrightarrow> filter P (map g xs) = map g (filter P xs)"
  by (induction xs) auto

lemma latest_erased: "(\<And>x. key (g x) = key x) \<Longrightarrow> latest_by key (map g xs) = map_option g (latest_by key xs)"
proof (induction xs rule: rev_induct)
  case (snoc x xs)
  then show ?case by (cases "latest_by key xs") (simp_all add: latest_by_def)
qed (simp add: latest_by_def)

lemma erased_fields [simp]:
  "u_id (whereabouts_erased u) = u_id u" "u_role (whereabouts_erased u) = u_role u" "u_isActive (whereabouts_erased u) = u_isActive u"
  "u_companyId (whereabouts_erased u) = u_companyId u" "dutyStateOf (whereabouts_erased u) = dutyStateOf u"
  "roster_query f (whereabouts_erased u) = roster_query f u" "roster_row_of c t (whereabouts_erased u) = roster_row_of c t u"
  "o_driverId (trip_erased d) = o_driverId d" "o_truckId (trip_erased d) = o_truckId d" "o_createdAt (trip_erased d) = o_createdAt d"
  by (simp_all add: whereabouts_erased_def trip_erased_def dutyStateOf_def roster_query_def duty_filter_is_duty_state
      roster_row_of_def split: option.split)

lemma erased_lookups:
  "company_names (roster_view s) (map whereabouts_erased us) = company_names s us"
  "plates_of is (roster_view s) = plates_of is s"
proof -
  have "u_companyId ` whereabouts_erased ` X = u_companyId ` X" for X by (simp add: image_image)
  then show "company_names (roster_view s) (map whereabouts_erased us) = company_names s us"
    by (simp add: company_names_def roster_view_def)
  have driven: "driven_by is (roster_view s) = map trip_erased (driven_by is s)"
    by (simp add: driven_by_def roster_view_def filter_map_erased)
  have "last_truck_id (map trip_erased ds) i = last_truck_id ds i" for ds i
    by (simp add: last_truck_id_def filter_map_erased latest_erased split: option.split)
  then have ids: "last_truck_id (map trip_erased ds) = last_truck_id ds" for ds by (simp add: fun_eq_iff)
  have trucks: "w_trucks (roster_view s) = w_trucks s" by (simp add: roster_view_def)
  show "plates_of is (roster_view s) = plates_of is s"
    unfolding plates_of_def [abs_def] driven ids trucks map_is_Nil_conv by (rule refl)
qed

lemma roster_of_view:
  assumes "rs_role (w_scope s) = Some SUPER_ADMIN"
  shows "list_roster f (roster_view s) = (fst (list_roster f s), roster_view s)"
proof -
  have "w_scope (roster_view s) = w_scope s" by (simp add: roster_view_def)
  with assms have scope: "rs_role (w_scope (roster_view s)) = Some SUPER_ADMIN" by simp
  have items: "rev (filter (roster_query f) (w_users (roster_view s))) = map whereabouts_erased (rev (filter (roster_query f) (w_users s)))"
    by (simp add: roster_view_def filter_map_erased rev_map)
  show ?thesis
    unfolding roster_run [OF scope] roster_run [OF assms] Let_def items erased_lookups
    by (simp add: erased_lookups comp_def)
qed

text \<open>C17: the roster the operator reads is a function of identities, employers, duty states and who drove which truck:
  positions, movements, the moment a driver was last seen, the order he is on and everything else an order holds can
  change without a trace in it.\<close>

theorem roster_hides_whereabouts:
  assumes "au_role user = SUPER_ADMIN"
  shows "fst (drivers_roster user isActive dutyState (roster_view s)) = fst (drivers_roster user isActive dutyState s)"
proof -
  let ?in = "\<lambda>s. s\<lparr>w_scope := scope_of user\<rparr>"
  have scope: "rs_role (w_scope (?in s)) = Some SUPER_ADMIN" using assms by (simp add: scope_of_def)
  have swap: "?in (roster_view s) = roster_view (?in s)" by (simp add: roster_view_def)
  show ?thesis
    by (simp add: drivers_roster_def endpoint_def bnd_def guard_def roles_guard_def assms intercept_def swap
        parseBooleanQuery_def parseEnumQuery_def demand_def ret_def throw_def roster_of_view [OF scope] split: option.split prod.split)
qed

section \<open>Filter and report\<close>

lemma map_of_filtered:
  "(\<And>x. key x = k \<Longrightarrow> P x) \<Longrightarrow> map_of (map (\<lambda>x. (key x, g x)) (filter P xs)) k = map_of (map (\<lambda>x. (key x, g x)) xs) k"
  by (induction xs) auto

definition last_plate :: "world \<Rightarrow> oid \<Rightarrow> (oid \<times> string) option" where
  "last_plate s i = (case last_truck_id (filter (\<lambda>d. o_truckId d \<noteq> None) (w_orders s)) i of
     None \<Rightarrow> None
   | Some truckId \<Rightarrow> map_option (Pair truckId) (map_of (map (\<lambda>t. (trk_id t, trk_plateNumber t)) (w_trucks s)) truckId))"

text \<open>A row does not depend on the other rows it is looked up with.\<close>

lemma company_names_page:
  assumes "u \<in> set us" "u_companyId u = Some c"
  shows "company_names s us c = map_of (map (\<lambda>c. (c_id c, c_name c)) (w_companies s)) c"
proof -
  have "Some c \<in> u_companyId ` set us" using assms by force
  moreover have "\<not> (\<forall>u \<in> set us. u_companyId u = None)" using assms by auto
  ultimately show ?thesis unfolding company_names_def by (simp only: if_False) (rule map_of_filtered, simp)
qed

lemma plates_page:
  assumes "i \<in> set is"
  shows "plates_of is s i = last_plate s i"
proof -
  let ?all = "filter (\<lambda>d. o_truckId d \<noteq> None) (w_orders s)"
  have "filter (\<lambda>d. o_driverId d = Some i) (driven_by is s) = filter (\<lambda>d. o_driverId d = Some i) ?all"
    using assms by (auto simp: driven_by_def intro!: filter_cong)
  then have last: "last_truck_id (driven_by is s) i = last_truck_id ?all i" by (simp add: last_truck_id_def)
  have "last_truck_id (driven_by is s) i = None" if "driven_by is s = []" using that by (simp add: last_truck_id_def latest_by_def)
  moreover have "map_of (map (\<lambda>t. (trk_id t, trk_plateNumber t))
        (filter (\<lambda>t. Some (trk_id t) \<in> last_truck_id (driven_by is s) ` set is) (w_trucks s))) k =
      map_of (map (\<lambda>t. (trk_id t, trk_plateNumber t)) (w_trucks s)) k"
    if "last_truck_id (driven_by is s) i = Some k" for k
    using assms that by (intro map_of_filtered) force
  ultimately show ?thesis
    using assms last by (auto simp: plates_of_def last_plate_def split: option.split)
qed

definition roster_row_for :: "world \<Rightarrow> user \<Rightarrow> roster_row" where
  "roster_row_for s = roster_row_of (map_of (map (\<lambda>c. (c_id c, c_name c)) (w_companies s))) (last_plate s)"

lemma roster_rows:
  assumes "rs_role (w_scope s) = Some SUPER_ADMIN"
  shows "list_roster f s = (Inr (map (roster_row_for s) (rev (filter (roster_query f) (w_users s)))), s)"
proof -
  let ?items = "rev (filter (roster_query f) (w_users s))"
  have "roster_row_of (company_names s ?items) (plates_of (map u_id ?items) s) u = roster_row_for s u" if "u \<in> set ?items" for u
    using company_names_page [OF that] plates_page [of "u_id u" "map u_id ?items" s] that
    by (simp add: roster_row_of_def roster_row_for_def split: option.split)
  then show ?thesis by (simp add: roster_run [OF assms] Let_def)
qed

section \<open>Properties of the roster\<close>

text \<open>C32: the filter the roster queries with and the duty state it reports agree: filtering by a state yields exactly the
  rows of the unfiltered roster that report it, in the same order; and without a filter every driver account is a row,
  one that has never connected included.\<close>

theorem roster_filter_exact:
  assumes "rs_role (w_scope s) = Some SUPER_ADMIN"
  shows "\<exists>rows. list_roster \<lparr>rf_isActive = b, rf_dutyState = None\<rparr> s = (Inr rows, s) \<and>
     list_roster \<lparr>rf_isActive = b, rf_dutyState = Some st\<rparr> s = (Inr (filter (\<lambda>r. rr_dutyState r = st) rows), s) \<and>
     (b = None \<longrightarrow> map rr_driverId rows = map u_id (rev (filter (\<lambda>u. u_role u = DRIVER) (w_users s))))"
proof -
  have duty: "rr_dutyState (roster_row_for s u) = dutyStateOf u" "rr_driverId (roster_row_for s u) = u_id u" for u
    by (simp_all add: roster_row_for_def roster_row_of_def)
  have "filter (roster_query \<lparr>rf_isActive = b, rf_dutyState = Some st\<rparr>) us =
      filter (\<lambda>u. dutyStateOf u = st) (filter (roster_query \<lparr>rf_isActive = b, rf_dutyState = None\<rparr>) us)" for us
    by (auto simp: roster_query_def duty_filter_is_duty_state intro!: filter_cong)
  moreover have "roster_query \<lparr>rf_isActive = None, rf_dutyState = None\<rparr> = (\<lambda>u. u_role u = DRIVER)"
    by (simp add: roster_query_def fun_eq_iff)
  ultimately show ?thesis
    by (simp add: roster_rows [OF assms] filter_map comp_def duty rev_filter)
qed

text \<open>The boundary of a driver's day is late by the milliseconds of the request: with a zone at a fixed offset of whole
  seconds it is the start of the day plus \<open>t mod 1000\<close>, because the wall clock is rendered to the second while the
  offset is taken from the full instant.\<close>

theorem day_boundary_drifts:
  assumes "\<forall>t. wallClock t = t div 1000 * 1000 + zone" and "1000 dvd zone"
  shows "startOfDayInTimezone wallClock t = ((t + zone) div DAY_MS * DAY_MS - zone) + t mod 1000"
proof -
  obtain m where m: "zone = 1000 * m" using assms(2) by (elim dvdE)
  have split: "x div 86400000 = x div 1000 div 86400" for x :: int by (simp add: zdiv_zmult2_eq [symmetric])
  have "(t div 1000 * 1000 + zone) div DAY_MS = (t + zone) div DAY_MS"
    by (simp add: DAY_MS_def split m)
  moreover have "t div 1000 * 1000 + zone - t = zone - t mod 1000" by (simp add: minus_mod_eq_div_mult [symmetric])
  ultimately show ?thesis using assms(1) by (simp add: startOfDayInTimezone_def offsetAt_def Let_def)
qed

definition operator :: authenticated_user where
  "operator = \<lparr>au_userId = 1, au_role = SUPER_ADMIN, au_companyId = None, au_parentFuelCompanyId = None, au_sgen = None, au_sid = None\<rparr>"

definition roster_world :: world where
  "roster_world = empty_world\<lparr>w_scope := scope_of operator, w_companies := [transport_company], w_trucks := [blank_truck],
     w_users := [blank_driver\<lparr>u_lastSeenAt := Some 5, u_location := Some (46, 24)\<rparr>, blank_driver\<lparr>u_id := 8, u_isOnline := False\<rparr>],
     w_orders := [blank_order\<lparr>o_driverId := Some 7, o_truckId := Some 20\<rparr>]\<rparr>"

theorem roster_hides_whereabouts_witness:
  "fst (drivers_roster operator None None (roster_view roster_world)) = fst (drivers_roster operator None None roster_world) \<and>
   \<not> isl (fst (drivers_roster operator None None roster_world)) \<and> map u_location (w_users (roster_view roster_world)) = [None, None]"
proof -
  have "\<not> isl (fst (drivers_roster operator None None roster_world)) \<and> map u_location (w_users (roster_view roster_world)) = [None, None]"
    by code_simp
  with roster_hides_whereabouts [of operator None None roster_world] show ?thesis by (simp add: operator_def)
qed

theorem roster_filter_exact_witness:
  "\<exists>rows. list_roster \<lparr>rf_isActive = None, rf_dutyState = None\<rparr> roster_world = (Inr rows, roster_world) \<and>
     map rr_driverId rows = [8, 7] \<and>
     list_roster \<lparr>rf_isActive = None, rf_dutyState = Some ON_DUTY\<rparr> roster_world =
       (Inr (filter (\<lambda>r. rr_dutyState r = ON_DUTY) rows), roster_world)"
proof -
  have "rs_role (w_scope roster_world) = Some SUPER_ADMIN" by (simp add: roster_world_def scope_of_def operator_def)
  moreover have "map u_id (rev (filter (\<lambda>u. u_role u = DRIVER) (w_users roster_world))) = [8, 7]" by code_simp
  ultimately show ?thesis using roster_filter_exact [of roster_world None ON_DUTY] by auto
qed

theorem day_boundary_drifts_witness:
  "startOfDayInTimezone (\<lambda>t. t div 1000 * 1000 + 10800000) 86400500 = 75600000 + 500"
  using day_boundary_drifts [of "\<lambda>t. t div 1000 * 1000 + 10800000" 10800000 86400500] by (simp add: DAY_MS_def)

end
