(* ===== verification/Platform_Overview.thy ===== *)
theory Platform_Overview
  imports Orders Companies Stations
begin

text \<open>
  The operator's home screen: \<open>modules/platform/platform-overview.service.ts\<close> and \<open>platform.controller.ts\<close>.  The
  parser of dates and the start of the calendar month are the parameters \<open>parseDate\<close> and \<open>monthStart\<close>; a date that
  does not parse makes the rendering of the period throw, after the queries, which write nothing.
\<close>

section \<open>The figures\<close>

datatype period_figure_basis = RAISED_IN_PERIOD | DELIVERED_IN_PERIOD

record platform_overview =
  po_from :: instant
  po_to :: instant
  po_isDefault :: bool
  po_orderCount :: nat
  po_orderValue :: rat
  po_litresMoved :: rat
  po_basis :: "period_figure_basis \<times> period_figure_basis \<times> period_figure_basis"
  po_fuelCompanies :: nat
  po_transportCompanies :: nat
  po_stations :: nat
  po_byCompanyType :: "(company_type \<times> nat) list"
  po_byOrderBucket :: "(order_status_bucket \<times> nat) list"

definition delivered_between :: "instant \<Rightarrow> instant \<Rightarrow> order \<Rightarrow> bool" where
  "delivered_between from_at until d \<longleftrightarrow> o_status d = DELIVERED \<and>
     (case o_deliveredAt d of None \<Rightarrow> False | Some t \<Rightarrow> from_at \<le> t \<and> t \<le> until)"

definition order_value :: "order \<Rightarrow> rat" where
  "order_value d = (case o_finalPrice d of None \<Rightarrow> o_estimatedPrice d | Some p \<Rightarrow> p)"

definition sumDeliveredTotals :: "instant \<Rightarrow> instant \<Rightarrow> (rat \<times> rat) service" where
  "sumDeliveredTotals from_at until =
     bnd (find_all w_orders order_scoping (delivered_between from_at until)) (\<lambda>ds.
     ret (sum_list (map order_value ds), sum_list (map o_quantityLiters ds)))"

text \<open>\<open>readId\<close> and \<open>showId\<close> are the two directions of an object id as text.  The counts are keyed by the shown id and
  looked up by the text the caller sent.\<close>

definition transport_counts :: "(oid \<Rightarrow> string) \<Rightarrow> oid list \<Rightarrow> order list \<Rightarrow> string \<Rightarrow> nat option" where
  "transport_counts showId objectIds ds =
     map_of (map (\<lambda>i. (showId i, length (filter (\<lambda>d. o_transportCompanyId d = Some i) ds)))
       (filter (\<lambda>i. \<exists>d \<in> set ds. o_transportCompanyId d = Some i) objectIds))"

definition getTransportCompanyVolumes :: "(string \<Rightarrow> oid option) \<Rightarrow> (oid \<Rightarrow> string) \<Rightarrow> string list \<Rightarrow> instant \<Rightarrow> instant \<Rightarrow>
    (string \<times> nat) list service" where
  "getTransportCompanyVolumes readId showId companyIds from_at until =
     (let valid = filter (\<lambda>t. readId t \<noteq> None) companyIds; objectIds = map (\<lambda>t. the (readId t)) valid
      in if valid = [] then ret []
         else bnd (find_all w_orders order_scoping
                    (\<lambda>d. o_transportCompanyId d \<in> Some ` set objectIds \<and> raised_in from_at until d)) (\<lambda>ds.
              ret (map (\<lambda>t. (t, case transport_counts showId objectIds ds t of None \<Rightarrow> 0 | Some n \<Rightarrow> n)) valid)))"

definition getOverview :: "instant \<Rightarrow> instant \<Rightarrow> bool \<Rightarrow> platform_overview service" where
  "getOverview from_at until isDefault =
     bnd (sumDeliveredTotals from_at until) (\<lambda>(orderValue, litresMoved).
     bnd (countByType FUEL) (\<lambda>fuelCompanies.
     bnd (countByType TRANSPORT) (\<lambda>transportCompanies.
     bnd countForPlatform (\<lambda>stations.
     bnd (getPlatformSummary from_at until) (\<lambda>(buckets, n_total).
     ret \<lparr>po_from = from_at, po_to = until, po_isDefault = isDefault, po_orderCount = n_total, po_orderValue = orderValue,
          po_litresMoved = litresMoved, po_basis = (RAISED_IN_PERIOD, DELIVERED_IN_PERIOD, DELIVERED_IN_PERIOD),
          po_fuelCompanies = fuelCompanies, po_transportCompanies = transportCompanies, po_stations = stations,
          po_byCompanyType = [(FUEL, fuelCompanies), (TRANSPORT, transportCompanies)], po_byOrderBucket = buckets\<rparr>)))))"

section \<open>The endpoints\<close>

definition given :: "string option \<Rightarrow> bool" where
  "given text = (text \<noteq> None \<and> text \<noteq> Some '''')"

definition resolvePeriod :: "(string \<Rightarrow> instant option) \<Rightarrow> (instant \<Rightarrow> instant) \<Rightarrow> instant \<Rightarrow> string option \<Rightarrow> string option \<Rightarrow>
    (instant option \<times> instant option \<times> bool)" where
  "resolvePeriod parseDate monthStart now from_text until_text =
     (if given from_text then parseDate (the from_text) else Some (monthStart now),
      if given until_text then parseDate (the until_text) else Some now,
      \<not> given from_text \<and> \<not> given until_text)"

definition with_period :: "(string \<Rightarrow> instant option) \<Rightarrow> (instant \<Rightarrow> instant) \<Rightarrow> string option \<Rightarrow> string option \<Rightarrow>
    (instant \<Rightarrow> instant \<Rightarrow> bool \<Rightarrow> 'a service) \<Rightarrow> 'a service" where
  "with_period parseDate monthStart from_text until_text query =
     bnd (asks w_now) (\<lambda>now.
     case resolvePeriod parseDate monthStart now from_text until_text of
       (from_at, until, isDefault) \<Rightarrow>
         bnd (demand InternalError from_at) (\<lambda>a. bnd (demand InternalError until) (\<lambda>z. query a z isDefault)))"

definition platform_getOverview :: "(string \<Rightarrow> instant option) \<Rightarrow> (instant \<Rightarrow> instant) \<Rightarrow> authenticated_user \<Rightarrow>
    string option \<Rightarrow> string option \<Rightarrow> platform_overview service" where
  "platform_getOverview parseDate monthStart user from_text until_text =
     endpoint [SUPER_ADMIN] user (with_period parseDate monthStart from_text until_text getOverview)"

fun split_commas :: "string \<Rightarrow> string list" where
  "split_commas [] = [[]]"
| "split_commas (c # cs) =
     (if c = CHR '','' then [] # split_commas cs
      else case split_commas cs of [] \<Rightarrow> [[c]] | w # ws \<Rightarrow> (c # w) # ws)"

definition platform_getTransportCompanyVolumes :: "(string \<Rightarrow> instant option) \<Rightarrow> (instant \<Rightarrow> instant) \<Rightarrow>
    (string \<Rightarrow> oid option) \<Rightarrow> (oid \<Rightarrow> string) \<Rightarrow> authenticated_user \<Rightarrow> string option \<Rightarrow> string option \<Rightarrow> string option \<Rightarrow>
    (instant \<times> instant \<times> bool \<times> (string \<times> nat) list) service" where
  "platform_getTransportCompanyVolumes parseDate monthStart readId showId user companyIds from_text until_text =
     endpoint [SUPER_ADMIN] user (
       bnd (guard (given companyIds) (BadRequest None)) (\<lambda>_.
       with_period parseDate monthStart from_text until_text (\<lambda>a z isDefault.
         bnd (getTransportCompanyVolumes readId showId
                (filter (\<lambda>t. t \<noteq> []) (map trim (split_commas (the companyIds)))) a z) (\<lambda>items.
         ret (a, z, isDefault, items)))))"

section \<open>Properties\<close>

lemma split_by_type: "length (filter (\<lambda>c. c_type c = FUEL) cs) + length (filter (\<lambda>c. c_type c = TRANSPORT) cs) = length cs"
proof (induction cs)
  case (Cons c cs)
  then show ?case by (cases "c_type c") simp_all
qed simp

lemma volumes_sum:
  "distinct is \<Longrightarrow> sum_list (map (\<lambda>c. length (filter (\<lambda>d. f d = Some c) ds)) is) = length (filter (\<lambda>d. f d \<in> Some ` set is) ds)"
proof (induction "is")
  case (Cons i "is")
  have "length (filter (\<lambda>d. f d \<in> Some ` set (i # is)) ds) =
      length (filter (\<lambda>d. f d = Some i) ds) + length (filter (\<lambda>d. f d \<in> Some ` set is) ds)" if "i \<notin> set is"
    using that by (induction ds) auto
  with Cons show ?case by simp
qed simp

definition routed_to_any :: "oid list \<Rightarrow> instant \<Rightarrow> instant \<Rightarrow> order \<Rightarrow> bool" where
  "routed_to_any companies a z d \<longleftrightarrow> o_transportCompanyId d \<in> Some ` set companies \<and> raised_in a z d"

lemma transport_counts_shown:
  assumes "inj showId" "i \<in> set is"
  shows "(case transport_counts showId is ds (showId i) of None \<Rightarrow> 0 | Some n \<Rightarrow> n) =
     length (filter (\<lambda>d. o_transportCompanyId d = Some i) ds)"
proof -
  have look: "map_of (map (\<lambda>i. (showId i, f i)) xs) (showId i) = (if i \<in> set xs then Some (f i) else None)" for f :: "oid \<Rightarrow> nat" and xs
    by (induction xs) (auto dest: injD [OF assms(1)])
  have "length (filter (\<lambda>d. o_transportCompanyId d = Some i) ds) = 0" if "\<not> (\<exists>d \<in> set ds. o_transportCompanyId d = Some i)"
    using that by (auto simp: filter_empty_conv)
  then show ?thesis using assms(2) by (auto simp: transport_counts_def look)
qed

lemma volumes_run:
  assumes "order_scoping (w_scope s) = Inr (\<lambda>_. True)" and "inj showId" "\<And>i. readId (showId i) = Some i"
  shows "getTransportCompanyVolumes readId showId (map showId is) a z s = (Inr (map (\<lambda>i. (showId i,
     length (filter (\<lambda>d. o_transportCompanyId d = Some i) (filter (routed_to_any is a z) (w_orders s))))) is), s)"
proof -
  have valid: "filter (\<lambda>t. readId t \<noteq> None) (map showId is) = map showId is" by (simp add: filter_map comp_def assms(3))
  have ids: "map (\<lambda>t. the (readId t)) (map showId is) = is" by (simp add: comp_def assms(3))
  show ?thesis
  proof (cases "is")
    case Nil
    then show ?thesis by (simp add: getTransportCompanyVolumes_def ret_def)
  next
    case (Cons j js)
    then have "map showId is \<noteq> []" by simp
    moreover have "find_all w_orders order_scoping (\<lambda>d. o_transportCompanyId d \<in> Some ` set is \<and> raised_in a z d) s =
        (Inr (filter (routed_to_any is a z) (w_orders s)), s)"
      by (simp add: find_all_def assms(1) routed_to_any_def [abs_def])
    ultimately show ?thesis
      unfolding getTransportCompanyVolumes_def Let_def valid ids
      using transport_counts_shown [OF assms(2), of _ "is"] by (simp add: bnd_def ret_def)
  qed
qed

lemma overview_run:
  assumes "order_scoping (w_scope s) = Inr (\<lambda>_. True)" "station_scoping (w_scope s) = Inr (\<lambda>_. True)"
  obtains po where "getOverview a z b s = (Inr po, s)" "sum_list (map snd (po_byOrderBucket po)) = po_orderCount po"
    "map fst (po_byOrderBucket po) = all_buckets" "po_orderCount po = length (filter (raised_in a z) (w_orders s))"
    "po_fuelCompanies po + po_transportCompanies po = length (w_companies s)" "po_stations po = length (w_stations s)"
    "po_orderValue po = sum_list (map order_value (filter (delivered_between a z) (w_orders s)))"
proof -
  obtain counts n where sum: "getPlatformSummary a z s = (Inr (counts, n), s)"
  proof (cases "getPlatformSummary a z s")
    case (Pair r t)
    show thesis
    proof (cases r)
      case (Inl e)
      with Pair assms(1) show thesis
        by (simp add: getPlatformSummary_def all_buckets_def count_orders_def bnd_def find_all_def ret_def)
    next
      case (Inr x)
      with Pair platform_summary_total [of a z s "fst x" "snd x" t] that show thesis by (cases x) auto
    qed
  qed
  from platform_summary_total [OF this] assms(1) have n: "map fst counts = all_buckets" "n = sum_list (map snd counts)"
    "n = length (filter (raised_in a z) (w_orders s))" by auto
  let ?done = "filter (delivered_between a z) (w_orders s)"
  have "getOverview a z b s = (Inr \<lparr>po_from = a, po_to = z, po_isDefault = b, po_orderCount = n,
      po_orderValue = sum_list (map order_value ?done), po_litresMoved = sum_list (map o_quantityLiters ?done),
      po_basis = (RAISED_IN_PERIOD, DELIVERED_IN_PERIOD, DELIVERED_IN_PERIOD),
      po_fuelCompanies = length (filter (\<lambda>c. c_type c = FUEL) (w_companies s)),
      po_transportCompanies = length (filter (\<lambda>c. c_type c = TRANSPORT) (w_companies s)), po_stations = length (w_stations s),
      po_byCompanyType = [(FUEL, length (filter (\<lambda>c. c_type c = FUEL) (w_companies s))),
         (TRANSPORT, length (filter (\<lambda>c. c_type c = TRANSPORT) (w_companies s)))], po_byOrderBucket = counts\<rparr>, s)"
    by (simp add: getOverview_def sumDeliveredTotals_def countByType_def countForPlatform_def bnd_def ret_def
        find_all_def count_docs_def assms sum)
  from that [OF this] n show thesis by (simp add: split_by_type)
qed

text \<open>On the operator's home screen the six buckets add up to the number of orders raised in the period, the two kinds
  of companies to all companies, and the value is that of the orders delivered in it; and the volumes of any distinct
  transport companies, asked for the same period, count each of these orders at most once.\<close>

theorem overview_adds_up:
  assumes "rs_role (w_scope s) = Some SUPER_ADMIN" and "inj showId" "\<And>i. readId (showId i) = Some i" and "distinct is"
  shows "\<exists>po vols. getOverview a z b s = (Inr po, s) \<and> getTransportCompanyVolumes readId showId (map showId is) a z s = (Inr vols, s) \<and>
     sum_list (map snd (po_byOrderBucket po)) = po_orderCount po \<and>
     po_orderCount po = length (filter (raised_in a z) (w_orders s)) \<and>
     po_fuelCompanies po + po_transportCompanies po = length (w_companies s) \<and>
     po_orderValue po = sum_list (map order_value (filter (delivered_between a z) (w_orders s))) \<and>
     map fst vols = map showId is \<and> sum_list (map snd vols) = length (filter (routed_to_any is a z) (w_orders s)) \<and>
     sum_list (map snd vols) \<le> po_orderCount po"
proof -
  have scope: "order_scoping (w_scope s) = Inr (\<lambda>_. True)" "station_scoping (w_scope s) = Inr (\<lambda>_. True)"
    using assms(1) by (simp_all add: scope_defs)
  let ?ds = "filter (routed_to_any is a z) (w_orders s)"
  let ?vols = "map (\<lambda>i. (showId i, length (filter (\<lambda>d. o_transportCompanyId d = Some i) ?ds))) is"
  have "sum_list (map snd ?vols) = length (filter (\<lambda>d. o_transportCompanyId d \<in> Some ` set is) ?ds)"
    using volumes_sum [OF assms(4), of o_transportCompanyId ?ds] by (simp add: comp_def)
  also have "filter (\<lambda>d. o_transportCompanyId d \<in> Some ` set is) ?ds = ?ds"
    unfolding filter_filter by (rule filter_cong) (auto simp: routed_to_any_def)
  finally have total_vols: "sum_list (map snd ?vols) = length ?ds" .
  have "length (filter (routed_to_any is a z) ds) \<le> length (filter (raised_in a z) ds)" for ds
    by (induction ds) (auto simp: routed_to_any_def)
  then have "sum_list (map snd ?vols) \<le> length (filter (raised_in a z) (w_orders s))" by (simp only: total_vols)
  moreover have "map fst ?vols = map showId is" by simp
  moreover have "getTransportCompanyVolumes readId showId (map showId is) a z s = (Inr ?vols, s)"
    by (rule volumes_run [OF scope(1) assms(2,3)])
  moreover from overview_run [OF scope, of a z b] obtain po where "getOverview a z b s = (Inr po, s)"
    "sum_list (map snd (po_byOrderBucket po)) = po_orderCount po" "po_orderCount po = length (filter (raised_in a z) (w_orders s))"
    "po_fuelCompanies po + po_transportCompanies po = length (w_companies s)"
    "po_orderValue po = sum_list (map order_value (filter (delivered_between a z) (w_orders s)))" by blast
  ultimately show ?thesis using total_vols by (intro exI [of _ po] exI [of _ ?vols]) simp
qed

definition overview_world :: world where
  "overview_world = empty_world\<lparr>w_scope := anonymous\<lparr>rs_role := Some SUPER_ADMIN\<rparr>, w_companies := [fuel_company, transport_company],
     w_orders := [blank_order\<lparr>o_createdAt := 500, o_transportCompanyId := Some 2\<rparr>,
       blank_order\<lparr>o_id := 11, o_createdAt := 600, o_status := DELIVERED, o_deliveredAt := Some 700, o_finalPrice := Some 120\<rparr>]\<rparr>"

definition tally :: "oid \<Rightarrow> string" where
  "tally n = replicate n CHR ''1''"

theorem overview_adds_up_witness:
  "\<exists>po vols. getOverview 0 1000 False overview_world = (Inr po, overview_world) \<and>
     getTransportCompanyVolumes (\<lambda>t. Some (length t)) tally [''11'', ''111''] 0 1000 overview_world = (Inr vols, overview_world) \<and>
     po_orderCount po = 2 \<and> po_fuelCompanies po + po_transportCompanies po = 2 \<and> po_orderValue po = 120 \<and>
     map fst vols = [''11'', ''111''] \<and> sum_list (map snd vols) = 1"
proof -
  have "inj tally" by (rule injI) (metis length_replicate tally_def)
  moreover have "rs_role (w_scope overview_world) = Some SUPER_ADMIN" by code_simp
  moreover have "length (filter (raised_in 0 1000) (w_orders overview_world)) = 2"
    "length (w_companies overview_world) = 2"
    "sum_list (map order_value (filter (delivered_between 0 1000) (w_orders overview_world))) = 120"
    "length (filter (routed_to_any [2, 3] 0 1000) (w_orders overview_world)) = 1" by code_simp+
  moreover have "map tally [2, 3] = [''11'', ''111'']" by code_simp
  moreover have "length (tally i) = i" for i by (simp add: tally_def)
  ultimately show ?thesis
    using overview_adds_up [of overview_world tally "\<lambda>t. Some (length t)" "[2, 3]" 0 1000 False] by auto
qed

end
