(* ===== verification/Rate_Limits.thy ===== *)
theory Rate_Limits
  imports Auth
begin

text \<open>
  The rate limiter of the platform: \<open>common/throttler/resilient-throttler.storage.ts\<close> and the trackers of
  \<open>common/guards/global-throttler.guard.ts\<close> and \<open>user-throttler.guard.ts\<close>.

  The store in Redis and the guard that calls \<open>increment\<close> belong to packages.  What the shared store answers is an
  argument, \<open>None\<close> when it throws; the guard refuses a request exactly when the record says \<open>isBlocked\<close>.  A value of
  \<open>throttler_store\<close> is the memory of one process.
\<close>

section \<open>The counters of one process\<close>

record throttler_record =
  tr_totalHits :: nat
  tr_timeToExpire :: int
  tr_isBlocked :: bool
  tr_timeToBlockExpire :: int

record throttler_store =
  ts_degraded :: bool
  ts_local :: "string \<rightharpoonup> (nat \<times> instant)"

definition live_hits :: "instant \<Rightarrow> (nat \<times> instant) option \<Rightarrow> (nat \<times> instant) option" where
  "live_hits now existing = (case existing of None \<Rightarrow> None | Some (hits, e) \<Rightarrow> if e > now then Some (hits, e) else None)"

definition incrementLocally :: "string \<Rightarrow> int \<Rightarrow> nat \<Rightarrow> int \<Rightarrow> instant \<Rightarrow> throttler_store \<Rightarrow> throttler_record \<times> throttler_store" where
  "incrementLocally key ttl limit blockDuration now st =
     (let live = live_hits now (ts_local st key);
          totalHits = (case live of None \<Rightarrow> 1 | Some (hits, e) \<Rightarrow> hits + 1);
          isBlocked = (totalHits > limit);
          expiresAt = (case live of None \<Rightarrow> if isBlocked then now + blockDuration else now + ttl | Some (hits, e) \<Rightarrow> e);
          seconds = ceil_seconds (expiresAt - now)
      in (\<lparr>tr_totalHits = totalHits, tr_timeToExpire = seconds, tr_isBlocked = isBlocked,
           tr_timeToBlockExpire = (if isBlocked then seconds else 0)\<rparr>,
          st\<lparr>ts_local := (ts_local st)(key \<mapsto> (totalHits, expiresAt))\<rparr>))"

definition enterFallback :: "throttler_store \<Rightarrow> throttler_store" where
  "enterFallback st = (if ts_degraded st then st else st\<lparr>ts_degraded := True\<rparr>)"

definition leaveFallback :: "throttler_store \<Rightarrow> throttler_store" where
  "leaveFallback st = (if \<not> ts_degraded st then st else st\<lparr>ts_degraded := False, ts_local := (\<lambda>_. None)\<rparr>)"

definition increment :: "throttler_record option \<Rightarrow> string \<Rightarrow> int \<Rightarrow> nat \<Rightarrow> int \<Rightarrow> instant \<Rightarrow> throttler_store \<Rightarrow>
    throttler_record \<times> throttler_store" where
  "increment shared key ttl limit blockDuration now st =
     (case shared of
        Some answer \<Rightarrow> (answer, leaveFallback st)
      | None \<Rightarrow> incrementLocally key ttl limit blockDuration now (enterFallback st))"

definition evictExpired :: "instant \<Rightarrow> throttler_store \<Rightarrow> throttler_store" where
  "evictExpired now st = st\<lparr>ts_local := (\<lambda>key. case ts_local st key of
     None \<Rightarrow> None | Some (hits, e) \<Rightarrow> if e \<le> now then None else Some (hits, e))\<rparr>"

section \<open>Who is counted\<close>

datatype tracker = TrackUser oid | TrackAddress string

definition verifiedUserId :: "libraries \<Rightarrow> string option \<Rightarrow> oid option" where
  "verifiedUserId L authorization = (case authorization of
     None \<Rightarrow> None
   | Some auth \<Rightarrow> if take 7 auth \<noteq> ''Bearer '' then None else map_option jp_sub (lib_verify L ACCESS_TOKEN (drop 7 auth)))"

definition global_tracker :: "libraries \<Rightarrow> string option \<Rightarrow> string option \<Rightarrow> tracker" where
  "global_tracker L authorization ip = (case verifiedUserId L authorization of
     Some u \<Rightarrow> TrackUser u
   | None \<Rightarrow> TrackAddress (case ip of None \<Rightarrow> ''unknown'' | Some a \<Rightarrow> a))"

definition user_tracker :: "authenticated_user option \<Rightarrow> string \<Rightarrow> tracker" where
  "user_tracker user ip = (case user of Some u \<Rightarrow> TrackUser (au_userId u) | None \<Rightarrow> TrackAddress ip)"

definition throwThrottlingException :: "int \<Rightarrow> 'a service" where
  "throwThrottlingException timeToExpire = throw (TooManyRequests None (max 1 timeToExpire))"

section \<open>An outage of the shared store\<close>

text \<open>What one process sees while the store is out of reach: requests, and the eviction that runs every minute.
  \<open>admitted_between\<close> counts the requests under one key that it lets through from \<open>a\<close> on and before \<open>b\<close>.\<close>

datatype limiter_event = Request string instant | Evict instant

fun event_time :: "limiter_event \<Rightarrow> instant" where
  "event_time (Request k t) = t"
| "event_time (Evict t) = t"

primrec admitted_between :: "int \<Rightarrow> nat \<Rightarrow> int \<Rightarrow> string \<Rightarrow> instant \<Rightarrow> instant \<Rightarrow> limiter_event list \<Rightarrow> throttler_store \<Rightarrow> nat" where
  "admitted_between ttl limit blockDuration key a b [] st = 0"
| "admitted_between ttl limit blockDuration key a b (ev # evs) st = (case ev of
     Request k t \<Rightarrow>
       (case increment None k ttl limit blockDuration t st of (answer, st') \<Rightarrow>
         (if k = key \<and> a \<le> t \<and> t < b \<and> \<not> tr_isBlocked answer then 1 else 0) +
         admitted_between ttl limit blockDuration key a b evs st')
   | Evict t \<Rightarrow> admitted_between ttl limit blockDuration key a b evs (evictExpired t st))"

section \<open>What the fallback still guarantees\<close>

text \<open>Only the entry of the key matters: \<open>key_hits\<close> is what it becomes, \<open>quota\<close> how many more requests it can admit before \<open>b\<close>,
  from \<open>now\<close> on.\<close>

definition counted_hits :: "throttler_store \<Rightarrow> bool" where
  "counted_hits st \<longleftrightarrow> (\<forall>k h e. ts_local st k = Some (h, e) \<longrightarrow> 0 < h)"

definition quota :: "nat \<Rightarrow> instant \<Rightarrow> instant \<Rightarrow> instant \<Rightarrow> (nat \<times> instant) option \<Rightarrow> nat" where
  "quota limit a b now entry = (case live_hits now entry of
     None \<Rightarrow> if a \<le> now then limit else 2 * limit - 1
   | Some (h, e) \<Rightarrow> if b \<le> e then limit - h else if a < e then (limit - h) + limit else 2 * limit - 1)"

lemma counted_hitsD: "counted_hits st \<Longrightarrow> ts_local st k = Some (h, e) \<Longrightarrow> 0 < h"
  by (auto simp: counted_hits_def)

lemma fallback_local [simp]: "ts_local (enterFallback st) = ts_local st"
  by (simp add: enterFallback_def)

lemma increment_other: "k \<noteq> key \<Longrightarrow> ts_local (snd (increment None k ttl limit bd t st)) key = ts_local st key"
  by (simp add: increment_def incrementLocally_def Let_def)

lemma increment_own:
  "increment None k ttl limit bd t st = (r, st') \<Longrightarrow> (case live_hits t (ts_local st k) of
     None \<Rightarrow> ts_local st' k = Some (1, if 1 > limit then t + bd else t + ttl) \<and> tr_isBlocked r = (1 > limit)
   | Some (h, e) \<Rightarrow> ts_local st' k = Some (h + 1, e) \<and> tr_isBlocked r = (h + 1 > limit))"
  by (auto simp: increment_def incrementLocally_def Let_def split: option.splits prod.splits)

lemma counted_hitsI: "(\<And>k h e. ts_local st k = Some (h, e) \<Longrightarrow> 0 < h) \<Longrightarrow> counted_hits st"
  by (simp add: counted_hits_def)

lemma counted_increment: "counted_hits st \<Longrightarrow> increment None k ttl limit bd t st = (r, st') \<Longrightarrow> counted_hits st'"
  by (rule counted_hitsI) (auto simp: increment_def incrementLocally_def Let_def split: option.splits if_splits dest: counted_hitsD)

lemma counted_evict: "counted_hits st \<Longrightarrow> counted_hits (evictExpired t st)"
  by (rule counted_hitsI) (auto simp: evictExpired_def split: option.splits if_splits dest: counted_hitsD)

lemma evict_live: "now \<ge> t \<Longrightarrow> live_hits now (ts_local (evictExpired t st) k) = live_hits now (ts_local st k)"
  by (auto simp: evictExpired_def live_hits_def split: option.splits)

text \<open>Time only shrinks the quota, up to the end of the window.\<close>

lemma quota_later: "now \<le> t \<Longrightarrow> t < b \<Longrightarrow> (\<forall>h e. entry = Some (h, e) \<longrightarrow> 0 < h) \<Longrightarrow> quota limit a b t entry \<le> quota limit a b now entry"
  by (auto simp: quota_def live_hits_def split: option.splits)

lemma none_admitted_later: "\<forall>ev \<in> set evs. b \<le> event_time ev \<Longrightarrow> admitted_between ttl limit bd key a b evs st = 0"
  by (induction evs arbitrary: st) (auto split: limiter_event.splits prod.splits)

lemma none_admitted_zero: "admitted_between ttl 0 bd key a b evs st = 0"
proof (induction evs arbitrary: st)
  case (Cons ev evs)
  then show ?case
    by (auto split: limiter_event.splits prod.splits dest!: increment_own split: option.splits)
qed simp

text \<open>One request under the key uses up what it is admitted for.\<close>

lemma quota_request:
  assumes "increment None key ttl limit bd t st = (r, st')" and "0 < limit" "t < b" "b \<le> a + ttl" "counted_hits st"
  shows "(if a \<le> t \<and> \<not> tr_isBlocked r then 1 else 0) + quota limit a b t (ts_local st' key) \<le> quota limit a b t (ts_local st key)"
proof (cases "live_hits t (ts_local st key)")
  case None
  with increment_own [OF assms(1)] assms show ?thesis by (auto simp: quota_def live_hits_def)
next
  case (Some he)
  obtain h e where he: "he = (h, e)" by (cases he)
  with Some counted_hitsD [OF assms(5)] have "0 < h" "t < e" by (auto simp: live_hits_def split: option.splits if_splits)
  with increment_own [OF assms(1)] Some he assms show ?thesis by (auto simp: quota_def live_hits_def)
qed

lemma admitted_within_quota:
  assumes "0 < limit" "b \<le> a + ttl"
  shows "sorted (now # map event_time evs) \<Longrightarrow> counted_hits st \<Longrightarrow>
     admitted_between ttl limit bd key a b evs st \<le> quota limit a b now (ts_local st key)"
proof (induction evs arbitrary: now st)
  case (Cons ev evs)
  let ?t = "event_time ev"
  from Cons.prems have t: "now \<le> ?t" "sorted (?t # map event_time evs)" by auto
  show ?case
  proof (cases "?t < b")
    case False
    with t(2) have "\<forall>x \<in> set (ev # evs). b \<le> event_time x" by fastforce
    from none_admitted_later [OF this] show ?thesis by simp
  next
    case True
    have older: "quota limit a b ?t (ts_local st key) \<le> quota limit a b now (ts_local st key)"
      using Cons.prems(2) by (intro quota_later t True) (auto dest: counted_hitsD)
    show ?thesis
    proof (cases ev)
      case (Evict s)
      have "admitted_between ttl limit bd key a b evs (evictExpired s st) \<le> quota limit a b ?t (ts_local (evictExpired s st) key)"
        by (rule Cons.IH [OF t(2) counted_evict [OF Cons.prems(2)]])
      also have "\<dots> = quota limit a b ?t (ts_local st key)" by (simp add: quota_def evict_live Evict)
      finally show ?thesis using older by (simp add: Evict)
    next
      case (Request k s)
      obtain r st' where inc: "increment None k ttl limit bd s st = (r, st')" by (cases "increment None k ttl limit bd s st")
      note later = Cons.IH [OF t(2) counted_increment [OF Cons.prems(2) inc]]
      show ?thesis
      proof (cases "k = key")
        case True
        with quota_request [of key ttl limit bd s st r st' b a] inc \<open>?t < b\<close> assms Cons.prems(2) later older
        show ?thesis by (auto simp: Request split: if_splits)
      next
        case False
        with increment_other [of k key ttl limit bd s st] inc later older show ?thesis by (auto simp: Request)
      qed
    qed
  qed
qed simp

text \<open>C29: while the shared store is out of reach a process still limits: in any stretch of time no longer than the window,
  it lets through fewer than twice the limit of requests under one key, whatever other keys are used and whenever expired
  counters are evicted. The factor of two is that of a window that does not slide.\<close>

theorem outage_still_limits:
  assumes "sorted (map event_time evs)" and "b \<le> a + ttl" and "0 < limit"
  shows "admitted_between ttl limit blockDuration key a b evs \<lparr>ts_degraded = degraded, ts_local = (\<lambda>_. None)\<rparr> \<le> 2 * limit - 1"
proof (cases evs)
  case (Cons ev rest)
  let ?start = "\<lparr>ts_degraded = degraded, ts_local = (\<lambda>_. None)\<rparr>"
  have "sorted (event_time ev # map event_time evs)" using assms(1) Cons by simp
  then have "admitted_between ttl limit blockDuration key a b evs ?start \<le> quota limit a b (event_time ev) (ts_local ?start key)"
    by (intro admitted_within_quota assms) (simp_all add: counted_hits_def)
  with assms(3) show ?thesis by (auto simp: quota_def live_hits_def split: if_splits)
qed simp

text \<open>The bound is reached: two requests a minute, one late in a window, two early in the next.\<close>

theorem outage_still_limits_witness:
  "admitted_between 60000 2 60000 ''k'' 59000 119000
     [Request ''k'' 1000, Request ''x'' 1500, Request ''k'' 60000, Evict 61500, Request ''k'' 62000, Request ''k'' 62500, Request ''k'' 63000]
     \<lparr>ts_degraded = False, ts_local = (\<lambda>_. None)\<rparr> \<le> 2 * 2 - 1 \<and>
   admitted_between 60000 2 60000 ''k'' 59000 119000
     [Request ''k'' 1000, Request ''x'' 1500, Request ''k'' 60000, Evict 61500, Request ''k'' 62000, Request ''k'' 62500, Request ''k'' 63000]
     \<lparr>ts_degraded = False, ts_local = (\<lambda>_. None)\<rparr> = 3"
proof
  show "admitted_between 60000 2 60000 ''k'' 59000 119000
     [Request ''k'' 1000, Request ''x'' 1500, Request ''k'' 60000, Evict 61500, Request ''k'' 62000, Request ''k'' 62500, Request ''k'' 63000]
     \<lparr>ts_degraded = False, ts_local = (\<lambda>_. None)\<rparr> \<le> 2 * 2 - 1"
    by (rule outage_still_limits) simp_all
qed code_simp

text \<open>Back in reach, the store's own record is the answer, and the counters of the outage are gone.\<close>

lemma shared_store_rules:
  "increment (Some answer) key ttl limit bd now st = (answer, st') \<Longrightarrow> ts_degraded st \<Longrightarrow> \<not> ts_degraded st' \<and> ts_local st' = (\<lambda>_. None)"
  by (auto simp: increment_def leaveFallback_def)

end
