(* ===== verification/Health.thy ===== *)
theory Health
  imports Rate_Limits
begin

text \<open>
  The readiness of an instance and its way out: \<open>bootstrap/shutdown.service.ts\<close>, the handler of signals in
  \<open>bootstrap/configure-app.ts\<close> and \<open>modules/health/health.controller.ts\<close>.  The answers of the two databases to a ping within
  the timeout are arguments, and so is how long the application takes to close.
\<close>

section \<open>The drain gate\<close>

record instance_state =
  is_draining :: bool
  is_drainStartedAt :: "instant option"
  is_cronJobs :: "string list"
  is_intervals :: "string list"
  is_closing :: bool

text \<open>\<open>stopScheduledWork\<close> stops every job and removes every interval; what fails in it is logged.\<close>

definition stopScheduledWork :: "instance_state \<Rightarrow> instance_state" where
  "stopScheduledWork st = st\<lparr>is_cronJobs := [], is_intervals := []\<rparr>"

definition beginDraining :: "instant \<Rightarrow> instance_state \<Rightarrow> instance_state" where
  "beginDraining now st = (if is_draining st then st
     else stopScheduledWork (st\<lparr>is_draining := True, is_drainStartedAt := Some now\<rparr>))"

definition drainElapsedMs :: "instant \<Rightarrow> instance_state \<Rightarrow> int" where
  "drainElapsedMs now st = (case is_drainStartedAt st of None \<Rightarrow> 0 | Some t \<Rightarrow> now - t)"

datatype exit_record = CleanExit | ForcedExit | FailedExit

text \<open>\<open>closes\<close> says after how many milliseconds the application has closed, if it does, and whether without an error.\<close>

definition race_deadline :: "int \<Rightarrow> (int \<times> bool) option \<Rightarrow> exit_record" where
  "race_deadline drainMs closes = (case closes of
     None \<Rightarrow> ForcedExit
   | Some (after, clean) \<Rightarrow> if drainMs < after then ForcedExit else if clean then CleanExit else FailedExit)"

definition handle_signal :: "int \<Rightarrow> (int \<times> bool) option \<Rightarrow> instant \<Rightarrow> instance_state \<Rightarrow> exit_record option \<times> instance_state" where
  "handle_signal drainMs closes now st = (if is_closing st then (None, st)
     else (Some (race_deadline drainMs closes), beginDraining now (st\<lparr>is_closing := True\<rparr>)))"

definition exit_code :: "exit_record \<Rightarrow> nat" where
  "exit_code r = (if r = CleanExit then 0 else 1)"

section \<open>The probes\<close>

datatype indicator_entry = Up | Down "string option"

record health_body =
  hb_info :: "(string \<times> indicator_entry) list"
  hb_error :: "(string \<times> indicator_entry) list"
  hb_details :: "(string \<times> indicator_entry) list"
  hb_instanceId :: string

definition instanceId :: "string option \<Rightarrow> string" where
  "instanceId configured = (case configured of None \<Rightarrow> ''unknown'' | Some t \<Rightarrow> if t = [] then ''unknown'' else t)"

definition live :: "string option \<Rightarrow> int \<Rightarrow> string \<times> int" where
  "live configured uptimeMs = (instanceId configured, uptimeMs div 1000)"

definition redisStatus :: "string option \<Rightarrow> indicator_entry" where
  "redisStatus failure = (case failure of None \<Rightarrow> Up | Some m \<Rightarrow> Down (Some m))"

definition only :: "bool \<Rightarrow> 'a \<Rightarrow> 'a list" where
  "only b x = (if b then [x] else [])"

definition withRedisReported :: "bool \<Rightarrow> string \<Rightarrow> health_body \<Rightarrow> indicator_entry \<Rightarrow> health_body" where
  "withRedisReported throttlerDegraded instance_id body redis =
     (let up = (redis = Up);
          rateLimiting = (if throttlerDegraded then Down (Some ''per-instance fallback'') else Up);
          realtimeFanout = (if up then Up else Down (Some ''events may not reach clients on other instances''));
          degraded = only (\<not> up) (''redis'', redis) @ only (rateLimiting \<noteq> Up) (''rateLimiting'', rateLimiting) @
            only (realtimeFanout \<noteq> Up) (''realtimeFanout'', realtimeFanout);
          healthy = only up (''redis'', redis) @ only (rateLimiting = Up) (''rateLimiting'', rateLimiting) @
            only (realtimeFanout = Up) (''realtimeFanout'', realtimeFanout)
      in \<lparr>hb_info = hb_info body @ healthy, hb_error = hb_error body @ degraded,
          hb_details = hb_details body @ [(''redis'', redis), (''rateLimiting'', rateLimiting), (''realtimeFanout'', realtimeFanout)],
          hb_instanceId = instance_id\<rparr>)"

text \<open>The check of the framework: the ping of MongoDB is its only indicator, and a failed one is the 503.\<close>

definition mongo_check :: "string option \<Rightarrow> health_body + health_body" where
  "mongo_check failure = (case failure of
     None \<Rightarrow> Inr \<lparr>hb_info = [(''mongodb'', Up)], hb_error = [], hb_details = [(''mongodb'', Up)], hb_instanceId = ''''\<rparr>
   | Some m \<Rightarrow> Inl \<lparr>hb_info = [], hb_error = [(''mongodb'', Down (Some m))], hb_details = [(''mongodb'', Down (Some m))],
       hb_instanceId = ''''\<rparr>)"

text \<open>\<open>Inl\<close> is the body of a 503, \<open>Inr\<close> that of a 200.\<close>

definition ready :: "string option \<Rightarrow> throttler_store \<Rightarrow> instance_state \<Rightarrow> string option \<Rightarrow> string option \<Rightarrow> health_body + health_body" where
  "ready configured store st mongoFailure redisFailure =
     (let redis = redisStatus redisFailure; draining = Down (Some ''draining'')
      in if is_draining st
         then Inl \<lparr>hb_info = [], hb_error = [(''shutdown'', draining)], hb_details = [(''shutdown'', draining), (''redis'', redis)],
                hb_instanceId = instanceId configured\<rparr>
         else case mongo_check mongoFailure of
             Inl body \<Rightarrow> Inl body
           | Inr body \<Rightarrow> Inr (withRedisReported (ts_degraded store) (instanceId configured) body redis))"

section \<open>The verdict\<close>

text \<open>Only the drain gate and MongoDB decide; Redis and the rate limiter are reported without changing the verdict.\<close>

lemma ready_verdict: "isl (ready configured store st mongoFailure redisFailure) \<longleftrightarrow> is_draining st \<or> mongoFailure \<noteq> None"
  by (simp add: ready_def mongo_check_def Let_def split: option.split)

lemma ready_reports:
  assumes "ready configured store st None redisFailure = Inr body"
  shows "(''redis'', redisStatus redisFailure) \<in> set (if redisFailure = None then hb_info body else hb_error body) \<and>
     (ts_degraded store \<longleftrightarrow> ''rateLimiting'' \<in> fst ` set (hb_error body))"
  using assms by (cases redisFailure) (auto simp: ready_def mongo_check_def withRedisReported_def redisStatus_def only_def Let_def split: if_splits)

text \<open>A signal takes the instance out of rotation before anything closes; the first one counts, and nothing reopens the gate.\<close>

lemma signal_drains:
  "handle_signal drainMs closes now st = (outcome, st') \<Longrightarrow> is_closing st \<longrightarrow> is_draining st \<Longrightarrow>
     is_draining st' \<and> is_closing st' \<and> isl (ready configured store st' mongoFailure redisFailure) \<and>
     (is_draining st \<longrightarrow> is_drainStartedAt st' = is_drainStartedAt st)"
  by (auto simp: handle_signal_def beginDraining_def stopScheduledWork_def ready_verdict split: if_splits)

lemma drained_starts_nothing: "\<not> is_draining st \<Longrightarrow> is_cronJobs (beginDraining now st) = [] \<and> is_intervals (beginDraining now st) = []"
  by (simp add: beginDraining_def stopScheduledWork_def)

lemma exit_clean_in_time: "race_deadline drainMs closes = CleanExit \<longleftrightarrow> (\<exists>t \<le> drainMs. closes = Some (t, True))"
  by (auto simp: race_deadline_def split: option.splits if_splits)

end
