(* ===== verification/Files.thy ===== *)
theory Files
  imports Account_Endpoints Payments Card_Uid
begin

text \<open>
  Stored documents: \<open>modules/files\<close> over the local driver, \<open>common/storage/local-file-storage.ts\<close> and
  \<open>local-storage-token.ts\<close>.  The bytes are in \<open>w_blobs\<close>, by absolute path.

  \<open>file_driver\<close> holds what lies outside: the text of an object id, the HMAC (key and text to hex digits), the root
  directory, the configured secrets and lifetime, and which paths the file system lets be written.  The bucket of the
  cloud driver is not modelled.
\<close>

section \<open>Paths\<close>

text \<open>\<open>split\<close>, and \<open>normalize\<close> and \<open>resolve\<close> of POSIX paths.\<close>

fun split_on :: "char \<Rightarrow> string \<Rightarrow> string list" where
  "split_on sep [] = [[]]"
| "split_on sep (c # cs) =
     (if c = sep then [] # split_on sep cs
      else case split_on sep cs of [] \<Rightarrow> [[c]] | w # ws \<Rightarrow> (c # w) # ws)"

fun join_with :: "char \<Rightarrow> string list \<Rightarrow> string" where
  "join_with sep [] = []"
| "join_with sep [w] = w"
| "join_with sep (w # ws) = w @ sep # join_with sep ws"

definition path_step :: "bool \<Rightarrow> string list \<Rightarrow> string \<Rightarrow> string list" where
  "path_step allowAboveRoot res seg =
     (if seg = '''' \<or> seg = ''.'' then res
      else if seg = ''..'' then
        (if res \<noteq> [] \<and> last res \<noteq> ''..'' then butlast res else if allowAboveRoot then res @ [seg] else res)
      else res @ [seg])"

definition normalize_segments :: "bool \<Rightarrow> string \<Rightarrow> string list" where
  "normalize_segments allowAboveRoot p = foldl (path_step allowAboveRoot) [] (split_on CHR ''/'' p)"

definition is_absolute :: "string \<Rightarrow> bool" where
  "is_absolute p \<longleftrightarrow> p \<noteq> [] \<and> hd p = CHR ''/''"

definition normalize_path :: "string \<Rightarrow> string" where
  "normalize_path p =
     (if p = [] then ''.''
      else (let trailing = (last p = CHR ''/''); r = join_with CHR ''/'' (normalize_segments (\<not> is_absolute p) p) in
        if r = [] then (if is_absolute p then ''/'' else if trailing then ''./'' else ''.'')
        else (if is_absolute p then ''/'' else []) @ r @ (if trailing then ''/'' else [])))"

definition resolve_path :: "string \<Rightarrow> string \<Rightarrow> string" where
  "resolve_path dir p =
     CHR ''/'' # join_with CHR ''/'' (normalize_segments False (if is_absolute p then p else dir @ CHR ''/'' # p))"

text \<open>The regular expression \<open>^(\.\.(\/|\\|$))+\<close>, removed.\<close>

fun strip_up :: "string \<Rightarrow> string" where
  "strip_up (a # b # c # cs) =
     (if a = CHR ''.'' \<and> b = CHR ''.'' \<and> (c = CHR ''/'' \<or> c = CHR 0x5C) then strip_up cs else a # b # c # cs)"
| "strip_up p = (if p = ''..'' then [] else p)"

definition absolutePathFor :: "string \<Rightarrow> string \<Rightarrow> string option" where
  "absolutePathFor dir key =
     (let absolute = resolve_path dir (strip_up (normalize_path key))
      in if absolute \<noteq> dir \<and> take (length dir + 1) absolute \<noteq> dir @ ''/'' then None else Some absolute)"

text \<open>\<open>extname\<close>: from the last dot of the last component, unless the dot is its first character.\<close>

definition extname :: "string \<Rightarrow> string" where
  "extname p =
     (let base = rev (takeWhile (\<lambda>c. c \<noteq> CHR ''/'') (dropWhile (\<lambda>c. c = CHR ''/'') (rev p)));
          stem = rev (drop 1 (dropWhile (\<lambda>c. c \<noteq> CHR ''.'') (rev base)))
      in if CHR ''.'' \<notin> set base \<or> stem = [] \<or> base = ''..'' then [] else drop (length stem) base)"

section \<open>The token of the local driver\<close>

record file_driver =
  fd_showId :: "oid \<Rightarrow> string"
  fd_hmac :: "string \<Rightarrow> string \<Rightarrow> string"
  fd_root :: string
  fd_localTokenSecret :: string
  fd_jwtSecret :: string
  fd_ttlSeconds :: nat
  fd_writable :: "string \<Rightarrow> bool"

definition DERIVATION_CONTEXT :: string where
  "DERIVATION_CONTEXT = ''ciro:spec-012:local-file-storage-token:v1''"

definition deriveLocalTokenKey :: "(string \<Rightarrow> string \<Rightarrow> string) \<Rightarrow> string \<Rightarrow> string \<Rightarrow> string" where
  "deriveLocalTokenKey hmac configured jwtSecret = (if configured \<noteq> [] then configured else hmac jwtSecret DERIVATION_CONTEXT)"

definition epoch_seconds :: "instant \<Rightarrow> nat" where
  "epoch_seconds now = nat (now div 1000)"

definition token_payload_of :: "string \<Rightarrow> string \<Rightarrow> string" where
  "token_payload_of fileId expiresAt = fileId @ CHR ''.'' # expiresAt"

definition mintLocalToken :: "(string \<Rightarrow> string \<Rightarrow> string) \<Rightarrow> string \<Rightarrow> string \<Rightarrow> nat \<Rightarrow> instant \<Rightarrow> string" where
  "mintLocalToken hmac fileId key ttlSeconds now =
     (let payload = token_payload_of fileId (radix 10 (epoch_seconds now + ttlSeconds))
      in payload @ CHR ''.'' # hmac key payload)"

datatype token_rejection = MALFORMED | BAD_SIGNATURE | WRONG_FILE | EXPIRED

text \<open>\<open>Number\<close> of the expiry: a minted token writes it in decimal digits, and anything else is read as not finite.\<close>

definition read_expiry :: "string \<Rightarrow> nat option" where
  "read_expiry t = (if t \<noteq> [] \<and> list_all Card_Uid.is_digit t then Some (decimal t) else None)"

definition verifyLocalToken :: "(string \<Rightarrow> string \<Rightarrow> string) \<Rightarrow> string option \<Rightarrow> string \<Rightarrow> string \<Rightarrow> instant \<Rightarrow> token_rejection option" where
  "verifyLocalToken hmac token fileId key now = (case token of
     None \<Rightarrow> Some MALFORMED
   | Some t \<Rightarrow> (if t = [] then Some MALFORMED else case split_on CHR ''.'' t of
       [tokenFileId, expiresAtRaw, signature] \<Rightarrow>
         (if from_hex signature \<noteq> from_hex (hmac key (token_payload_of tokenFileId expiresAtRaw)) then Some BAD_SIGNATURE
          else if tokenFileId \<noteq> fileId then Some WRONG_FILE
          else case read_expiry expiresAtRaw of
            None \<Rightarrow> Some EXPIRED
          | Some expiresAt \<Rightarrow> if expiresAt < epoch_seconds now then Some EXPIRED else None)
     | _ \<Rightarrow> Some MALFORMED))"

definition token_key :: "file_driver \<Rightarrow> string" where
  "token_key D = deriveLocalTokenKey (fd_hmac D) (fd_localTokenSecret D) (fd_jwtSecret D)"

section \<open>The service\<close>

definition STORAGE_DIR :: string where "STORAGE_DIR = ''sys_storge''"
definition ALLOWED_MIME_TYPES :: "string list" where
  "ALLOWED_MIME_TYPES = [''image/jpeg'', ''image/png'', ''image/webp'', ''application/pdf'']"

record upload =
  ul_buffer :: string
  ul_mimeType :: string
  ul_originalName :: string

definition buildStorageKey :: "string \<Rightarrow> string \<Rightarrow> string \<Rightarrow> string" where
  "buildStorageKey storageDir companyId filename = normalize_path (join_with CHR ''/'' [storageDir, companyId, filename])"

definition storage_put :: "file_driver \<Rightarrow> string \<Rightarrow> string \<Rightarrow> unit service" where
  "storage_put D key buffer = (case absolutePathFor (fd_root D) key of
     None \<Rightarrow> throw InternalError
   | Some path \<Rightarrow> if fd_writable D path then modify (\<lambda>s. s\<lparr>w_blobs := (w_blobs s)(path \<mapsto> buffer)\<rparr>) else throw InternalError)"

text \<open>\<open>uuid\<close> is the random name the bytes get.\<close>

definition store :: "file_driver \<Rightarrow> string \<Rightarrow> oid \<Rightarrow> oid option \<Rightarrow> file_purpose \<Rightarrow> upload \<Rightarrow> stored_file service" where
  "store D uuid companyId ownerUserId purpose file =
     (let storagePath = buildStorageKey STORAGE_DIR (fd_showId D companyId) (uuid @ extname (ul_originalName file))
      in bnd (storage_put D storagePath (ul_buffer file)) (\<lambda>_.
         bnd (tenant_key companyId) (\<lambda>owner.
         bnd (guard (ul_mimeType file \<noteq> [] \<and> ul_originalName file \<noteq> []) InvalidDocument) (\<lambda>_.
         bnd fresh_id (\<lambda>i.
         let record = \<lparr>sf_id = i, sf_companyId = owner, sf_ownerUserId = ownerUserId, sf_purpose = purpose,
               sf_storagePath = storagePath, sf_mimeType = ul_mimeType file, sf_sizeBytes = length (ul_buffer file),
               sf_originalName = ul_originalName file\<rparr>
         in bnd (insert_doc w_files_update record) (\<lambda>_. ret record))))))"

abbreviation file_scoping :: "stored_file scoping" where
  "file_scoping \<equiv> tenant_scoped (\<lambda>d. Some (sf_companyId d))"

definition findForDownload :: "oid \<Rightarrow> stored_file service" where
  "findForDownload i = bnd (find_one w_files sf_id file_scoping i) (demand NotFound)"

definition findForDownloadUnscoped :: "oid \<Rightarrow> stored_file service" where
  "findForDownloadUnscoped i = run_unscoped (bnd (find_one w_files sf_id file_scoping i) (demand NotFound))"

text \<open>The location of a document: its id and token, as they stand in \<open>/api/v1/files/<id>/content?token=<token>\<close>.\<close>

definition signedUrlFor :: "file_driver \<Rightarrow> stored_file \<Rightarrow> (string \<times> string) service" where
  "signedUrlFor D file =
     bnd (asks w_now) (\<lambda>now.
     ret (fd_showId D (sf_id file), mintLocalToken (fd_hmac D) (fd_showId D (sf_id file)) (token_key D) (fd_ttlSeconds D) now))"

section \<open>The endpoints\<close>

text \<open>The limit on the size of an upload is enforced by the parser of the request.  The upload filter runs before the handler, on the part that carries the file.\<close>

definition upload_filter :: "upload option \<Rightarrow> unit service" where
  "upload_filter file = (case file of
     None \<Rightarrow> ret ()
   | Some f \<Rightarrow> guard (ul_mimeType f \<in> set ALLOWED_MIME_TYPES) (BadRequest None))"

definition files_upload :: "file_driver \<Rightarrow> string \<Rightarrow> authenticated_user \<Rightarrow> file_purpose \<Rightarrow> upload option \<Rightarrow> stored_file service" where
  "files_upload D uuid user purpose file = endpoint [] user (
     bnd (upload_filter file) (\<lambda>_.
     bnd (demand (BadRequest None) file) (\<lambda>f.
     bnd (demand (BadRequest None) (au_companyId user)) (\<lambda>companyId.
     store D uuid companyId (Some (au_userId user)) purpose f))))"

definition files_download :: "file_driver \<Rightarrow> authenticated_user \<Rightarrow> oid \<Rightarrow> (string \<times> string) service" where
  "files_download D user i = endpoint [] user (bnd (findForDownload i) (signedUrlFor D))"

text \<open>The bytes are streamed after the headers are sent; a path without bytes breaks the stream.\<close>

datatype content_reply = Streamed string string | StreamBroken string

definition files_content :: "file_driver \<Rightarrow> oid \<Rightarrow> string option \<Rightarrow> content_reply service" where
  "files_content D i token = public (
     bnd (asks w_now) (\<lambda>now.
     bnd (guard (verifyLocalToken (fd_hmac D) token (fd_showId D i) (token_key D) now = None) (Forbidden None)) (\<lambda>_.
     bnd (findForDownloadUnscoped i) (\<lambda>file.
     bnd (demand InternalError (absolutePathFor (fd_root D) (sf_storagePath file))) (\<lambda>path.
     bnd (asks (\<lambda>s. w_blobs s path)) (\<lambda>bytes.
     ret (case bytes of None \<Rightarrow> StreamBroken (sf_mimeType file) | Some b \<Rightarrow> Streamed (sf_mimeType file) b)))))))"

section \<open>Lemmas\<close>

lemma split_on_fresh: "sep \<notin> set w \<Longrightarrow> split_on sep (w @ sep # t) = w # split_on sep t"
  by (induction w) auto

lemma split_on_last: "sep \<notin> set w \<Longrightarrow> split_on sep w = [w]"
  by (induction w) auto

lemma radix10_digits: "list_all Card_Uid.is_digit (radix 10 n)" "CHR ''.'' \<notin> set (radix 10 n)" "decimal (radix 10 n) = n"
proof -
  have d: "Card_Uid.is_digit c" if "c \<in> set (radix 10 n)" for c using radix_digits [OF _ that] digit_kinds(2) by force
  then show "list_all Card_Uid.is_digit (radix 10 n)" by (simp add: list_all_iff)
  have "\<not> Card_Uid.is_digit CHR ''.''" by (simp add: Card_Uid.is_digit_def)
  with d show "CHR ''.'' \<notin> set (radix 10 n)" by blast
  show "decimal (radix 10 n) = n" using decimal_radix [of 0 n] by simp
qed

text \<open>A minted token is accepted for its own file, up to its expiry, and for nothing else.\<close>

lemma minted_token:
  assumes "CHR ''.'' \<notin> set fileId" and "\<And>k t. CHR ''.'' \<notin> set (hmac k t)"
  shows "verifyLocalToken hmac (Some (mintLocalToken hmac fileId key ttl now)) other key later =
     (if fileId \<noteq> other then Some WRONG_FILE
      else if epoch_seconds now + ttl < epoch_seconds later then Some EXPIRED else None)"
proof -
  let ?e = "radix 10 (epoch_seconds now + ttl)"
  have "split_on CHR ''.'' (mintLocalToken hmac fileId key ttl now) = [fileId, ?e, hmac key (token_payload_of fileId ?e)]"
    using assms radix10_digits(2) by (simp add: mintLocalToken_def token_payload_of_def split_on_fresh split_on_last)
  moreover have "mintLocalToken hmac fileId key ttl now \<noteq> []" by (simp add: mintLocalToken_def Let_def)
  ultimately show ?thesis by (simp add: verifyLocalToken_def read_expiry_def radix10_digits radix_nonempty)
qed

text \<open>An accepted token carries the signature of the requested file and an expiry that has not passed.\<close>

lemma accepted_token_signed:
  assumes "verifyLocalToken hmac (Some t) fileId key now = None"
  obtains e signature where "split_on CHR ''.'' t = [fileId, e, signature]"
    "from_hex signature = from_hex (hmac key (token_payload_of fileId e))" "read_expiry e \<noteq> None" "epoch_seconds now \<le> the (read_expiry e)"
  using assms by (auto simp: verifyLocalToken_def split: if_splits list.splits option.splits)

text \<open>No path the driver touches lies outside its root.\<close>

definition plain_segment :: "string \<Rightarrow> bool" where
  "plain_segment w \<longleftrightarrow> w \<notin> {'''',''.'', ''..''}"

lemma path_step_plain:
  assumes "\<forall>w \<in> set res. plain_segment w"
  shows "\<forall>w \<in> set (path_step False res seg). plain_segment w"
proof (cases "plain_segment seg")
  case True
  then have "path_step False res seg = res @ [seg]" by (simp add: path_step_def plain_segment_def)
  with assms True show ?thesis by simp
next
  case False
  then have "path_step False res seg = res \<or> path_step False res seg = butlast res"
    by (auto simp: path_step_def plain_segment_def)
  with assms show ?thesis by (metis in_set_butlastD)
qed

lemma normalize_plain: "\<forall>w \<in> set (normalize_segments False p). plain_segment w"
proof -
  have "\<forall>w \<in> set (foldl (path_step False) res segs). plain_segment w" if "\<forall>w \<in> set res. plain_segment w" for res segs
    using that
  proof (induction segs arbitrary: res)
    case (Cons seg segs)
    show ?case using Cons.IH [OF path_step_plain [OF Cons.prems]] by simp
  qed simp
  from this [of "[]"] show ?thesis by (simp add: normalize_segments_def)
qed

lemma stays_under_root:
  assumes "absolutePathFor dir key = Some p"
  shows "\<exists>segs. p = CHR ''/'' # join_with CHR ''/'' segs \<and> (\<forall>w \<in> set segs. plain_segment w) \<and>
     (p = dir \<or> take (length dir + 1) p = dir @ ''/'')"
proof -
  from assms have "p = resolve_path dir (strip_up (normalize_path key))" "p = dir \<or> take (length dir + 1) p = dir @ ''/''"
    by (auto simp: absolutePathFor_def Let_def split: if_splits)
  moreover from this(1) obtain q where "p = CHR ''/'' # join_with CHR ''/'' (normalize_segments False q)"
    unfolding resolve_path_def by blast
  ultimately show ?thesis using normalize_plain by blast
qed

section \<open>Properties\<close>

lemma get_by_end: "get_by key (key d) ds = None \<Longrightarrow> get_by key (key d) (ds @ [d]) = Some d"
  by (induction ds) (auto split: if_splits)

lemma store_run:
  assumes "store D uuid companyId owner purpose file s = (Inr f, s')"
  shows "\<exists>path. absolutePathFor (fd_root D) (sf_storagePath f) = Some path \<and> w_blobs s' = (w_blobs s)(path \<mapsto> ul_buffer file) \<and>
     w_files s' = w_files s @ [f] \<and> sf_id f = w_next_id s \<and> sf_mimeType f = ul_mimeType file \<and> w_scope s' = w_scope s \<and> w_now s' = w_now s"
  using assms
  by (auto simp: store_def storage_put_def tenant_key_def prog_inv Let_def modify_def split: option.splits if_splits)

text \<open>The bytes come first: a store that fails leaves no record.\<close>

lemma failed_store_no_record: "store D uuid companyId owner purpose file s = (Inl e, s') \<Longrightarrow> w_files s' = w_files s"
  by (auto simp: store_def storage_put_def tenant_key_def prog_inv Let_def modify_def split: option.splits if_splits)

text \<open>Who gets a location: whoever reads the record under the scope of its company.\<close>

lemma download_run:
  assumes "files_download D user i s = (Inr loc, s')"
  shows "\<exists>f. get_by sf_id i (w_files s) = Some f \<and> (au_role user = SUPER_ADMIN \<or> au_companyId user = Some (sf_companyId f)) \<and>
     loc = (fd_showId D i, mintLocalToken (fd_hmac D) (fd_showId D i) (token_key D) (fd_ttlSeconds D) (w_now s)) \<and> s' = s"
  using assms
  by (auto simp: files_download_def endpoint_def intercept_def findForDownload_def signedUrlFor_def roles_guard_def prog_inv scope_defs scope_of_def
      split: prod.splits if_splits user_role.splits option.splits sum.splits dest: get_by_key)

text \<open>C16: what is stored is served. The location of a stored document is given to the operator and to users of its company
  only; for as long as its lifetime lasts it yields the bytes and the type that were uploaded, afterwards nothing, and it
  yields no other document.\<close>

theorem stored_file_is_served:
  assumes stored: "store D uuid companyId owner purpose file s = (Inr f, s1)" and fresh: "\<forall>g \<in> set (w_files s). sf_id g < w_next_id s"
    and "inj (fd_showId D)" "\<And>i. CHR ''.'' \<notin> set (fd_showId D i)" "\<And>k t. CHR ''.'' \<notin> set (fd_hmac D k t)"
    and got: "files_download D user (sf_id f) s1 = (Inr (shown, token), s2)"
  shows "(au_role user = SUPER_ADMIN \<or> au_companyId user = Some (sf_companyId f)) \<and>
     fst (files_content D j (Some token) (s2\<lparr>w_now := t\<rparr>)) =
       (if j = sf_id f \<and> epoch_seconds t \<le> epoch_seconds (w_now s) + fd_ttlSeconds D
        then Inr (Streamed (ul_mimeType file) (ul_buffer file)) else Inl (Forbidden None))"
proof -
  from store_run [OF stored] obtain path where path: "absolutePathFor (fd_root D) (sf_storagePath f) = Some path"
    and s1: "w_blobs s1 = (w_blobs s)(path \<mapsto> ul_buffer file)" "w_files s1 = w_files s @ [f]" "sf_id f = w_next_id s"
      "sf_mimeType f = ul_mimeType file" "w_now s1 = w_now s" by blast
  have "get_by sf_id (sf_id f) (w_files s) = None" using fresh s1(3) by (fastforce simp: get_by_def find_None_iff)
  then have here: "get_by sf_id (sf_id f) (w_files s1) = Some f" using s1(2) get_by_end by simp
  with download_run [OF got] have user: "au_role user = SUPER_ADMIN \<or> au_companyId user = Some (sf_companyId f)" "s2 = s1"
    and token: "token = mintLocalToken (fd_hmac D) (fd_showId D (sf_id f)) (token_key D) (fd_ttlSeconds D) (w_now s1)" by auto
  have "fd_showId D (sf_id f) = fd_showId D j \<longleftrightarrow> j = sf_id f" using assms(3) by (auto dest: injD)
  then have verdict: "verifyLocalToken (fd_hmac D) (Some token) (fd_showId D j) (token_key D) t =
     (if j \<noteq> sf_id f then Some WRONG_FILE
      else if epoch_seconds (w_now s) + fd_ttlSeconds D < epoch_seconds t then Some EXPIRED else None)"
    unfolding token using minted_token assms(4,5) s1(5) by auto
  let ?s = "s1\<lparr>w_now := t\<rparr>"
  have found: "findForDownloadUnscoped (sf_id f) (?s\<lparr>w_scope := anonymous\<rparr>) = (Inr f, ?s\<lparr>w_scope := anonymous\<rparr>)"
    by (simp add: findForDownloadUnscoped_def run_unscoped_def bnd_def find_one_def tenant_scoped_def resolveCompanyId_def
        anonymous_def here demand_def ret_def)
  have "fst (files_content D j (Some token) ?s) =
      (if j = sf_id f \<and> epoch_seconds t \<le> epoch_seconds (w_now s) + fd_ttlSeconds D
       then Inr (Streamed (ul_mimeType file) (ul_buffer file)) else Inl (Forbidden None))"
  proof (cases "j = sf_id f \<and> epoch_seconds t \<le> epoch_seconds (w_now s) + fd_ttlSeconds D")
    case True
    with verdict have "verifyLocalToken (fd_hmac D) (Some token) (fd_showId D (sf_id f)) (token_key D) t = None" by simp
    with True found path show ?thesis
      by (simp add: files_content_def public_def run_unscoped_def bnd_def guard_def asks_def ret_def demand_def s1(1,4))
  next
    case False
    with verdict have "verifyLocalToken (fd_hmac D) (Some token) (fd_showId D j) (token_key D) t \<noteq> None" by auto
    with False show ?thesis
      by (auto simp: files_content_def public_def run_unscoped_def bnd_def guard_def asks_def throw_def)
  qed
  with user show ?thesis by simp
qed


text \<open>A driver whose ids are written in unary and whose signature is the hexadecimal of the length of the payload.\<close>

definition toy_driver :: file_driver where
  "toy_driver = \<lparr>fd_showId = (\<lambda>i. replicate i CHR ''a''), fd_hmac = (\<lambda>k t. if length t = 0 then ''00'' else ''01''),
     fd_root = ''/srv'', fd_localTokenSecret = '''', fd_jwtSecret = ''s'', fd_ttlSeconds = 300, fd_writable = (\<lambda>_. True)\<rparr>"

definition scan :: upload where
  "scan = \<lparr>ul_buffer = ''%PDF'', ul_mimeType = ''application/pdf'', ul_originalName = ''dir/scan.pdf''\<rparr>"

definition clerk :: authenticated_user where
  "clerk = \<lparr>au_userId = 9, au_role = FUEL_COMPANY_ADMIN, au_companyId = Some 1, au_parentFuelCompanyId = None, au_sgen = None, au_sid = None\<rparr>"

theorem stored_file_is_served_witness:
  "\<exists>f s1 token. store toy_driver ''u'' 1 (Some 9) PROFILE_PICTURE scan empty_world = (Inr f, s1) \<and>
     sf_storagePath f = ''sys_storge/a/u.pdf'' \<and> files_download toy_driver clerk (sf_id f) s1 = (Inr (replicate 100 CHR ''a'', token), s1) \<and>
     fst (files_content toy_driver (sf_id f) (Some token) (s1\<lparr>w_now := 300000\<rparr>)) = Inr (Streamed ''application/pdf'' ''%PDF'') \<and>
     fst (files_content toy_driver (sf_id f) (Some token) (s1\<lparr>w_now := 302000\<rparr>)) = Inl (Forbidden None)"
proof -
  let ?run = "store toy_driver ''u'' 1 (Some 9) PROFILE_PICTURE scan empty_world"
  have empty: "w_files empty_world = []" "w_next_id empty_world = 100" by (simp_all add: empty_world_def)
  have "\<not> isl (fst ?run)" "map sf_storagePath (w_files (snd ?run)) = [''sys_storge/a/u.pdf'']" by code_simp+
  moreover from this(1) obtain f s1 where run: "?run = (Inr f, s1)" by (cases ?run; cases "fst ?run") auto
  ultimately have f: "sf_id f = 100" "sf_storagePath f = ''sys_storge/a/u.pdf''" using store_run [OF run] empty by auto
  have "\<not> isl (fst (files_download toy_driver clerk 100 (snd ?run)))" by code_simp
  then obtain loc s2 where "files_download toy_driver clerk (sf_id f) s1 = (Inr loc, s2)"
    using run f by (cases "files_download toy_driver clerk 100 s1"; cases "fst (files_download toy_driver clerk 100 s1)") auto
  moreover from download_run [OF this] have "s2 = s1" "fst loc = replicate 100 CHR ''a''" using f by (auto simp: toy_driver_def)
  ultimately obtain token where got: "files_download toy_driver clerk (sf_id f) s1 = (Inr (replicate 100 CHR ''a'', token), s1)"
    by (cases loc) auto
  have "length (fd_showId toy_driver i) = i" for i by (simp add: toy_driver_def)
  then have "inj (fd_showId toy_driver)" by (metis injI)
  moreover have "CHR ''.'' \<notin> set (fd_showId toy_driver i)" "CHR ''.'' \<notin> set (fd_hmac toy_driver k t)" for i k t
    by (simp_all add: toy_driver_def)
  moreover have "w_now empty_world = 1000" "fd_ttlSeconds toy_driver = 300" "ul_buffer scan = ''%PDF''" "ul_mimeType scan = ''application/pdf''"
    "\<forall>g \<in> set (w_files empty_world). sf_id g < w_next_id empty_world"
    by (simp_all add: empty_world_def toy_driver_def scan_def)
  ultimately show ?thesis
    using stored_file_is_served [OF run _ _ _ _ got, of "sf_id f" 300000] stored_file_is_served [OF run _ _ _ _ got, of "sf_id f" 302000] run f got
    by (auto simp: epoch_seconds_def)
qed

end
