(* ===== verification/External_Services.thy ===== *)
theory External_Services
  imports Files
begin

text \<open>
  The calls to services outside: \<open>common/sms/taqnyat-sms-sender.ts\<close>, \<open>modules/orders/route.service.ts\<close>,
  \<open>modules/geocoding/geocoding.service.ts\<close>, and the endpoints over them.  A service is the parameter that gives its reply,
  \<open>None\<close> when the request fails or times out; a body that is no JSON is a body without fields.
\<close>

section \<open>Text messages\<close>

record taqnyat_payload =
  tq_rejected :: "string option"
  tq_messageId :: "string option"
  tq_message :: "string option"

record 'p http_reply =
  hr_ok :: bool
  hr_payload :: 'p

text \<open>\<open>phone.replace(/\D/g, '')\<close>, and the expansion of the local form of a Saudi mobile number.\<close>

definition toInternational :: "string \<Rightarrow> string" where
  "toInternational phone =
     (let digits = filter Assignment_Escalation.is_digit phone;
          bare = (if take 2 digits = ''00'' then drop 2 digits else digits)
      in if length bare = 10 \<and> take 2 bare = ''05'' then ''966'' @ drop 1 bare else bare)"

text \<open>\<open>rejected\<close> is the text of an array; brackets, commas and white space do not count.\<close>

definition wasRejected :: "taqnyat_payload \<Rightarrow> bool" where
  "wasRejected payload = (case tq_rejected payload of
     None \<Rightarrow> False
   | Some raw \<Rightarrow> filter (\<lambda>c. c \<notin> {CHR ''['', CHR '']'', CHR '',''} \<and> \<not> is_space c) raw \<noteq> [])"

text \<open>\<open>Number(recipient)\<close>: the request carries a number.\<close>

definition recipient_number :: "string \<Rightarrow> nat" where
  "recipient_number phone = decimal (toInternational phone)"

text \<open>Whether the promise resolves, given the service's reply for the number; otherwise it rejects.\<close>

definition taqnyat_send :: "(nat \<Rightarrow> string \<Rightarrow> taqnyat_payload http_reply option) \<Rightarrow> string \<Rightarrow> string \<Rightarrow> bool" where
  "taqnyat_send post phone message = (case post (recipient_number phone) message of
     None \<Rightarrow> False
   | Some response \<Rightarrow> hr_ok response \<and> \<not> wasRejected (hr_payload response))"

section \<open>Routes and addresses\<close>

record driving_route =
  dv_polyline :: string
  dv_distanceMeters :: rat
  dv_durationSeconds :: rat

record directions_payload =
  dp_status :: string
  dp_routes :: "(string option \<times> (rat option \<times> rat option) list) list"

definition drivingRoute :: "string option \<Rightarrow> (coords \<Rightarrow> coords \<Rightarrow> directions_payload http_reply option) \<Rightarrow> coords \<Rightarrow> coords \<Rightarrow> driving_route option" where
  "drivingRoute apiKey directions from_at to_at =
     (if apiKey = None \<or> apiKey = Some '''' then None
      else case directions from_at to_at of
        None \<Rightarrow> None
      | Some response \<Rightarrow>
          if \<not> hr_ok response \<or> dp_status (hr_payload response) \<noteq> ''OK'' then None
          else case dp_routes (hr_payload response) of
              (Some points, (Some distance, Some duration) # legs) # routes \<Rightarrow>
                if points = '''' then None
                else Some \<lparr>dv_polyline = points, dv_distanceMeters = distance, dv_durationSeconds = duration\<rparr>
            | _ \<Rightarrow> None)"

record geocode_payload =
  gp_status :: string
  gp_results :: "string option list"

definition reverseGeocode :: "string option \<Rightarrow> (rat \<Rightarrow> rat \<Rightarrow> geocode_payload http_reply option) \<Rightarrow> rat \<Rightarrow> rat \<Rightarrow> string" where
  "reverseGeocode apiKey geocode lat lng =
     (if apiKey = None \<or> apiKey = Some '''' then ''''
      else case geocode lat lng of
        None \<Rightarrow> ''''
      | Some response \<Rightarrow>
          if \<not> hr_ok response then ''''
          else case gp_results (hr_payload response) of
              Some addressText # results \<Rightarrow> if gp_status (hr_payload response) = ''OK'' then addressText else ''''
            | _ \<Rightarrow> '''')"

section \<open>The endpoints\<close>

definition geocoding_reverse :: "string option \<Rightarrow> (rat \<Rightarrow> rat \<Rightarrow> geocode_payload http_reply option) \<Rightarrow> authenticated_user \<Rightarrow>
    rat \<Rightarrow> rat \<Rightarrow> string service" where
  "geocoding_reverse apiKey geocode user lat lng = endpoint [FUEL_COMPANY_ADMIN] user (ret (reverseGeocode apiKey geocode lat lng))"

definition orders_drivingRoute :: "(coords \<Rightarrow> coords \<Rightarrow> rat) \<Rightarrow> rat \<Rightarrow> string option \<Rightarrow>
    (coords \<Rightarrow> coords \<Rightarrow> directions_payload http_reply option) \<Rightarrow> authenticated_user \<Rightarrow> oid \<Rightarrow> driving_route option service" where
  "orders_drivingRoute metres speed apiKey directions user i = endpoint [CLIENT] user (
     bnd (findOneForUser user i) (\<lambda>order.
     bnd (driverTelemetry metres speed order) (\<lambda>t.
     ret (case tl_driverLocation t of
            None \<Rightarrow> None
          | Some here \<Rightarrow> drivingRoute apiKey directions here (o_deliveryLocation order)))))"

text \<open>The reader of invoices is the parameter \<open>extract\<close>.\<close>

record 'x upload_result =
  ur_fileId :: oid
  ur_extracted :: 'x
  ur_orderedQuantityLitres :: rat

definition upload_invoice :: "file_driver \<Rightarrow> (string \<Rightarrow> string \<Rightarrow> 'x) \<Rightarrow> string \<Rightarrow> order \<Rightarrow> oid \<Rightarrow> upload \<Rightarrow> 'x upload_result service" where
  "upload_invoice D extract uuid order ownerUserId file =
     bnd (store D uuid (o_fuelCompanyId order) (Some ownerUserId) SUPPLIER_INVOICE_FILE file) (\<lambda>record.
     ret \<lparr>ur_fileId = sf_id record, ur_extracted = extract (ul_buffer file) (ul_mimeType file),
          ur_orderedQuantityLitres = o_quantityLiters order\<rparr>)"

definition orders_uploadSupplierInvoice :: "file_driver \<Rightarrow> (string \<Rightarrow> string \<Rightarrow> 'x) \<Rightarrow> string \<Rightarrow> authenticated_user \<Rightarrow> oid \<Rightarrow>
    upload option \<Rightarrow> 'x upload_result service" where
  "orders_uploadSupplierInvoice D extract uuid user i file = endpoint [FUEL_COMPANY_ADMIN] user (
     bnd (upload_filter file) (\<lambda>_.
     bnd (demand (BadRequest None) file) (\<lambda>f.
     bnd (findOrderById i) (\<lambda>order.
     upload_invoice D extract uuid order (au_userId user) f))))"

section \<open>Lemmas\<close>

text \<open>A number in the international form reaches the provider as it is, without its plus sign.\<close>

lemma international_unchanged: "E164_PATTERN phone \<Longrightarrow> CHR ''+'' # toInternational phone = phone"
proof (cases phone rule: E164_PATTERN.cases)
  case (1 p d rest)
  assume "E164_PATTERN phone"
  with 1 have p: "p = CHR ''+''" "Assignment_Escalation.is_digit d" "d \<noteq> CHR ''0''" "list_all Assignment_Escalation.is_digit rest" by auto
  have "\<not> Assignment_Escalation.is_digit CHR ''+''" by (simp add: Assignment_Escalation.is_digit_def)
  moreover have "filter Assignment_Escalation.is_digit rest = rest" using p(4) by (simp add: list_all_iff)
  ultimately have "filter Assignment_Escalation.is_digit phone = d # rest" using 1 p by simp
  with p show ?thesis by (cases rest) (simp_all add: toInternational_def Let_def 1)
qed auto

text \<open>No failure of a map service fails a request, and without a key none is called.\<close>

lemma no_key_no_call: "drivingRoute None directions x y = None" "reverseGeocode None geocode lat lng = ''''"
  by (simp_all add: drivingRoute_def reverseGeocode_def)

lemma route_needs_ok: "drivingRoute k directions x y = Some r \<Longrightarrow>
   \<exists>reply. directions x y = Some reply \<and> hr_ok reply \<and> dp_status (hr_payload reply) = ''OK''"
  by (auto simp: drivingRoute_def split: if_splits option.splits)

text \<open>An upload writes no order and no balance.\<close>

lemma upload_only_files:
  assumes "orders_uploadSupplierInvoice D extract uuid user i file s = (r, s')"
  shows "w_orders s' = w_orders s \<and> w_balances s' = w_balances s"
proof -
  note unfold = find_order_def orders_uploadSupplierInvoice_def upload_invoice_def upload_filter_def findOrderById_def endpoint_def intercept_def
    store_def storage_put_def tenant_key_def Let_def modify_def
  show ?thesis
  proof (cases r)
    case (Inl e)
    with assms show ?thesis by (auto simp: unfold prog_inv split: option.splits if_splits prod.splits)
  next
    case (Inr x)
    with assms show ?thesis by (auto simp: unfold prog_inv split: option.splits if_splits prod.splits)
  qed
qed

end
