(* ===== verification/Migrations.thy ===== *)
theory Migrations
  imports Assignment_Escalation
begin

text \<open>
  The data migrations of \<open>scripts/\<close>, which work on the raw collections: a field of a document may be absent.
  \<open>raw_db\<close> has the collections they touch.  Ids are unique; a loop of \<open>updateOne\<close> by id over documents read beforehand is
  written as one pass over the collection.  Each migration returns its summary.  A migration may be cut off after any of
  its writes; the writes of a step are therefore definitions of their own.  A summary keeps the id of an unmapped request
  without its state; the currency of a request, one constant, and the write times of a document are left out.
\<close>

section \<open>Raw documents\<close>

record raw_company =
  rc_id :: oid
  rc_name :: string
  rc_type :: "company_type option"
  rc_status :: "company_status option"
  rc_parentFuelCompanyId :: "oid option"
  rc_servedRegions :: "region_code list option"
  rc_contactEmail :: "string option"
  rc_contactPhone :: "string option"
  rc_migratedFrom :: "oid option"

record raw_embedded_station =
  res_regionCode :: region_code
  res_governorateCode :: governorate_code
  res_location :: coords
  res_addressText :: "string option"
  res_name :: "string option"

record raw_user =
  ru_id :: oid
  ru_companyId :: "oid option"
  ru_role :: user_role
  ru_email :: string
  ru_phone :: "string option"
  ru_isActive :: bool
  ru_location :: "coords option"
  ru_stationLocation :: "coords option"
  ru_station :: "raw_embedded_station option"

record raw_station =
  rs_id :: oid
  rs_companyId :: "oid option"
  rs_clientId :: oid
  rs_name :: "string option"
  rs_regionCode :: region_code
  rs_governorateCode :: governorate_code
  rs_location :: coords
  rs_addressText :: string
  rs_isDefault :: bool
  rs_isFavourite :: bool
  rs_isActive :: bool

record raw_order =
  ro_id :: oid
  ro_companyId :: "oid option"
  ro_fuelCompanyId :: "oid option"
  ro_transportCompanyId :: "oid option"
  ro_driverId :: "oid option"
  ro_assignedDriverId :: "oid option"
  ro_paymentMethod :: "payment_method option"
  ro_deliveryAddressText :: "string option"
  ro_clientId :: oid
  ro_stationId :: "oid option"
  ro_status :: order_status
  ro_invoiceId :: "oid option"
  ro_finalPrice :: "rat option"
  ro_estimatedPrice :: rat
  ro_updatedAt :: "instant option"

record raw_invoice =
  ri_id :: oid
  ri_orderId :: oid
  ri_fuelCompanyId :: "oid option"
  ri_clientId :: oid
  ri_amount :: rat
  ri_method :: payment_method
  ri_state :: invoice_state
  ri_payerRole :: user_role
  ri_settledAt :: instant

record raw_event =
  re_id :: oid
  re_orderId :: oid
  re_clientId :: "oid option"

record raw_db =
  db_companies :: "raw_company list"
  db_users :: "raw_user list"
  db_stations :: "raw_station list"
  db_orders :: "raw_order list"
  db_invoices :: "raw_invoice list"
  db_events :: "raw_event list"
  db_next :: oid
  db_now :: instant

section \<open>\<open>migrate-multi-tier.ts\<close>\<close>

record multi_tier_summary =
  ms_companiesTaggedFuel :: nat
  ms_transportersCreated :: nat
  ms_driversReassigned :: nat
  ms_ordersMigrated :: nat
  ms_clientsMigrated :: nat
  ms_historicalInvoicesCreated :: nat
  ms_needsRegionReview :: "oid list"

definition empty_multi_tier :: multi_tier_summary where
  "empty_multi_tier = \<lparr>ms_companiesTaggedFuel = 0, ms_transportersCreated = 0, ms_driversReassigned = 0, ms_ordersMigrated = 0,
     ms_clientsMigrated = 0, ms_historicalInvoicesCreated = 0, ms_needsRegionReview = []\<rparr>"

definition tag_fuel :: "raw_company \<Rightarrow> raw_company" where
  "tag_fuel c = (if rc_type c = None then c\<lparr>rc_type := Some FUEL, rc_servedRegions := Some []\<rparr> else c)"

definition insert_transporter :: "raw_company \<Rightarrow> raw_db \<Rightarrow> raw_db" where
  "insert_transporter fuel db = db\<lparr>db_next := Suc (db_next db), db_companies := db_companies db @ [
     \<lparr>rc_id = db_next db, rc_name = rc_name fuel @ '' '' @ [CHR 0xE2, CHR 0x80, CHR 0x94] @ '' Transport'', rc_type = Some TRANSPORT,
      rc_status = Some (case rc_status fuel of None \<Rightarrow> ACTIVE | Some st \<Rightarrow> st), rc_parentFuelCompanyId = Some (rc_id fuel),
      rc_servedRegions = Some [], rc_contactEmail = rc_contactEmail fuel, rc_contactPhone = rc_contactPhone fuel,
      rc_migratedFrom = Some (rc_id fuel)\<rparr>]\<rparr>"

definition drivers_of :: "raw_company \<Rightarrow> raw_db \<Rightarrow> raw_user list" where
  "drivers_of fuel db = filter (\<lambda>u. ru_companyId u = Some (rc_id fuel) \<and> ru_role u = DRIVER) (db_users db)"

definition reassign_drivers :: "raw_user list \<Rightarrow> oid \<Rightarrow> raw_db \<Rightarrow> raw_db" where
  "reassign_drivers drivers transporter db = db\<lparr>db_users :=
     map (\<lambda>u. if ru_id u \<in> ru_id ` set drivers then u\<lparr>ru_companyId := Some transporter\<rparr> else u) (db_users db)\<rparr>"

definition single_tier :: "oid \<Rightarrow> raw_order \<Rightarrow> bool" where
  "single_tier fuel d \<longleftrightarrow> ro_companyId d = Some fuel \<and> ro_fuelCompanyId d = None"

definition if_null :: "'a option \<Rightarrow> 'a option \<Rightarrow> 'a option" where
  "if_null x y = (if x = None then y else x)"

definition to_multi_tier :: "oid \<Rightarrow> raw_order \<Rightarrow> raw_order" where
  "to_multi_tier transporter d = d\<lparr>ro_fuelCompanyId := ro_companyId d, ro_transportCompanyId := Some transporter,
     ro_driverId := if_null (ro_driverId d) (ro_assignedDriverId d),
     ro_paymentMethod := if_null (ro_paymentMethod d) (Some DIRECT),
     ro_deliveryAddressText := if_null (ro_deliveryAddressText d) (Some ''''),
     ro_companyId := None, ro_assignedDriverId := None\<rparr>"

definition migrate_orders :: "oid \<Rightarrow> oid \<Rightarrow> raw_db \<Rightarrow> raw_db" where
  "migrate_orders fuel transporter db = db\<lparr>db_orders :=
     map (\<lambda>d. if single_tier fuel d then to_multi_tier transporter d else d) (db_orders db)\<rparr>"

definition migrate_company :: "raw_company \<Rightarrow> multi_tier_summary \<times> raw_db \<Rightarrow> multi_tier_summary \<times> raw_db" where
  "migrate_company fuel = (\<lambda>(sm, db).
     if \<exists>c \<in> set (db_companies db). rc_migratedFrom c = Some (rc_id fuel) then (sm, db)
     else let drivers = drivers_of fuel db; transporter = db_next db;
              moved = length (filter (single_tier (rc_id fuel)) (db_orders db))
          in (sm\<lparr>ms_transportersCreated := ms_transportersCreated sm + 1,
                 ms_needsRegionReview := ms_needsRegionReview sm @ [transporter],
                 ms_driversReassigned := ms_driversReassigned sm + length drivers,
                 ms_ordersMigrated := ms_ordersMigrated sm + moved\<rparr>,
              migrate_orders (rc_id fuel) transporter (reassign_drivers drivers transporter (insert_transporter fuel db))))"

definition stationless :: "raw_user \<Rightarrow> bool" where
  "stationless u \<longleftrightarrow> ru_role u = CLIENT \<and> ru_station u = None"

definition embed_station :: "raw_user \<Rightarrow> raw_user" where
  "embed_station u = u\<lparr>ru_station := Some \<lparr>res_regionCode = ''RIYADH'', res_governorateCode = ''RIYADH_CITY'',
     res_location = the (if_null (if_null (ru_stationLocation u) (ru_location u)) (Some (0, 0))),
     res_addressText = Some '''', res_name = None\<rparr>, ru_stationLocation := None\<rparr>"

definition historical :: "raw_order \<Rightarrow> bool" where
  "historical d \<longleftrightarrow> ro_status d \<in> {IN_TRANSIT, UNLOADING, DELIVERED} \<and> ro_invoiceId d = None"

definition set_invoice :: "oid \<Rightarrow> oid \<Rightarrow> raw_order list \<Rightarrow> raw_order list" where
  "set_invoice i invoice = map (\<lambda>d. if ro_id d = i then d\<lparr>ro_invoiceId := Some invoice\<rparr> else d)"

definition settle_history :: "raw_order \<Rightarrow> multi_tier_summary \<times> raw_db \<Rightarrow> multi_tier_summary \<times> raw_db" where
  "settle_history d = (\<lambda>(sm, db). case find (\<lambda>i. ri_orderId i = ro_id d) (db_invoices db) of
     Some existing \<Rightarrow> (sm, db\<lparr>db_orders := set_invoice (ro_id d) (ri_id existing) (db_orders db)\<rparr>)
   | None \<Rightarrow> (sm\<lparr>ms_historicalInvoicesCreated := ms_historicalInvoicesCreated sm + 1\<rparr>,
       db\<lparr>db_next := Suc (db_next db),
          db_invoices := db_invoices db @ [\<lparr>ri_id = db_next db, ri_orderId = ro_id d,
            ri_fuelCompanyId = if_null (ro_fuelCompanyId d) (ro_companyId d), ri_clientId = ro_clientId d,
            ri_amount = (case ro_finalPrice d of None \<Rightarrow> ro_estimatedPrice d | Some p \<Rightarrow> p), ri_method = DIRECT,
            ri_state = SETTLED, ri_payerRole = CLIENT,
            ri_settledAt = (case ro_updatedAt d of None \<Rightarrow> db_now db | Some t \<Rightarrow> t)\<rparr>],
          db_orders := set_invoice (ro_id d) (db_next db) (db_orders db)\<rparr>))"

definition migrateMultiTier :: "raw_db \<Rightarrow> multi_tier_summary \<times> raw_db" where
  "migrateMultiTier db0 =
     (let db1 = db0\<lparr>db_companies := map tag_fuel (db_companies db0)\<rparr>;
          sm1 = empty_multi_tier\<lparr>ms_companiesTaggedFuel := length (filter (\<lambda>c. rc_type c = None) (db_companies db0))\<rparr>;
          fuelCompanies = filter (\<lambda>c. rc_type c = Some FUEL) (db_companies db1);
          (sm2, db2) = fold migrate_company fuelCompanies (sm1, db1);
          clients = filter stationless (db_users db2);
          db3 = db2\<lparr>db_users := map (\<lambda>u. if stationless u then embed_station u else u) (db_users db2)\<rparr>;
          sm3 = sm2\<lparr>ms_needsRegionReview := ms_needsRegionReview sm2 @ map ru_id clients, ms_clientsMigrated := length clients\<rparr>
      in fold settle_history (filter historical (db_orders db3)) (sm3, db3))"

section \<open>\<open>migrate-005-stations.ts\<close>\<close>

record stations_summary =
  ss_stationsCreated :: nat
  ss_ordersBackfilled :: nat
  ss_paymentEventsBackfilled :: nat

definition default_station :: "oid \<Rightarrow> raw_db \<Rightarrow> raw_station option" where
  "default_station client db = find (\<lambda>st. rs_clientId st = client \<and> rs_isDefault st) (db_stations db)"

definition promote_station :: "raw_user \<Rightarrow> nat \<times> raw_db \<Rightarrow> nat \<times> raw_db" where
  "promote_station client = (\<lambda>(created, db). case ru_station client of
     None \<Rightarrow> (created, db)
   | Some station \<Rightarrow>
       if default_station (ru_id client) db \<noteq> None then (created, db)
       else (Suc created, db\<lparr>db_next := Suc (db_next db), db_stations := db_stations db @
         [\<lparr>rs_id = db_next db, rs_companyId = ru_companyId client, rs_clientId = ru_id client, rs_name = res_name station,
           rs_regionCode = res_regionCode station, rs_governorateCode = res_governorateCode station,
           rs_location = res_location station,
           rs_addressText = (case res_addressText station of None \<Rightarrow> '''' | Some t \<Rightarrow> t),
           rs_isDefault = True, rs_isFavourite = False, rs_isActive = True\<rparr>]\<rparr>))"

definition backfill_station :: "raw_db \<Rightarrow> raw_order \<Rightarrow> raw_order" where
  "backfill_station db d = (if ro_stationId d = None
     then d\<lparr>ro_stationId := map_option rs_id (default_station (ro_clientId d) db)\<rparr> else d)"

definition order_of_event :: "raw_db \<Rightarrow> raw_event \<Rightarrow> raw_order option" where
  "order_of_event db e = find (\<lambda>d. ro_id d = re_orderId e) (db_orders db)"

definition backfill_client :: "raw_db \<Rightarrow> raw_event \<Rightarrow> raw_event" where
  "backfill_client db e = (if re_clientId e = None
     then e\<lparr>re_clientId := map_option ro_clientId (order_of_event db e)\<rparr> else e)"

definition migrate005Stations :: "raw_db \<Rightarrow> stations_summary \<times> raw_db" where
  "migrate005Stations db0 =
     (let (created, db1) = fold promote_station
            (filter (\<lambda>u. ru_role u = CLIENT \<and> ru_station u \<noteq> None) (db_users db0)) (0, db0);
          orders = length (filter (\<lambda>d. ro_stationId d = None \<and> default_station (ro_clientId d) db1 \<noteq> None) (db_orders db1));
          db2 = db1\<lparr>db_orders := map (backfill_station db1) (db_orders db1)\<rparr>;
          events = length (filter (\<lambda>e. re_clientId e = None \<and> order_of_event db2 e \<noteq> None) (db_events db2));
          db3 = db2\<lparr>db_events := map (backfill_client db2) (db_events db2)\<rparr>
      in (\<lparr>ss_stationsCreated = created, ss_ordersBackfilled = orders, ss_paymentEventsBackfilled = events\<rparr>, db3))"

section \<open>\<open>normalize-admin-phones.ts\<close>\<close>

definition ADMIN_ROLES :: "user_role list" where
  "ADMIN_ROLES = [SUPER_ADMIN, FUEL_COMPANY_ADMIN, TRANSPORT_COMPANY_ADMIN]"

record phones_options =
  po_map :: "(string \<times> string) list option"
  po_deactivateUnmapped :: bool
  po_dryRun :: "bool option"

record phones_summary =
  ps_offendersBefore :: "(string \<times> string option \<times> user_role) list"
  ps_numbersAssigned :: nat
  ps_accountsDeactivated :: nat
  ps_offendersRemaining :: "(string \<times> user_role) list"

definition isE164 :: "string option \<Rightarrow> bool" where
  "isE164 v = (case v of None \<Rightarrow> False | Some t \<Rightarrow> E164_PATTERN t)"

definition email_and_role :: "raw_user \<Rightarrow> string \<times> user_role" where
  "email_and_role a = (ru_email a, ru_role a)"

definition phone_offenders :: "raw_db \<Rightarrow> raw_user list" where
  "phone_offenders db = filter (\<lambda>u. ru_role u \<in> set ADMIN_ROLES \<and> \<not> isE164 (ru_phone u)) (db_users db)"

definition write_user :: "oid \<Rightarrow> (raw_user \<Rightarrow> raw_user) \<Rightarrow> raw_db \<Rightarrow> raw_db" where
  "write_user i f db = db\<lparr>db_users := map (\<lambda>u. if ru_id u = i then f u else u) (db_users db)\<rparr>"

definition assigned_phone :: "phones_options \<Rightarrow> raw_user \<Rightarrow> string option" where
  "assigned_phone options o_user = (case map_of (the (if_null (po_map options) (Some []))) (ru_email o_user) of
     None \<Rightarrow> None | Some p \<Rightarrow> if p = [] then None else Some p)"

text \<open>The loop over the offenders; a mapped number of the wrong form throws, after the writes already made.\<close>

primrec normalize_all :: "phones_options \<Rightarrow> raw_user list \<Rightarrow> nat \<times> nat \<Rightarrow> raw_db \<Rightarrow> (unit + nat \<times> nat) \<times> raw_db" where
  "normalize_all options [] counts db = (Inr counts, db)"
| "normalize_all options (u # us) counts db = (case assigned_phone options u of
     Some phone \<Rightarrow>
       if \<not> E164_PATTERN phone then (Inl (), db)
       else normalize_all options us (fst counts + 1, snd counts) (write_user (ru_id u) (\<lambda>x. x\<lparr>ru_phone := Some phone\<rparr>) db)
   | None \<Rightarrow>
       if po_deactivateUnmapped options
       then normalize_all options us (fst counts, snd counts + 1) (write_user (ru_id u) (\<lambda>x. x\<lparr>ru_isActive := False\<rparr>) db)
       else normalize_all options us counts db)"

definition normalizeAdminPhones :: "phones_options \<Rightarrow> raw_db \<Rightarrow> (unit + phones_summary) \<times> raw_db" where
  "normalizeAdminPhones options db =
     (let willWrite = (the (if_null (po_map options) (Some [])) \<noteq> [] \<or> po_deactivateUnmapped options);
          dryRun = (case po_dryRun options of None \<Rightarrow> \<not> willWrite | Some b \<Rightarrow> b);
          offenders = phone_offenders db;
          before = map (\<lambda>a. (ru_email a, ru_phone a, ru_role a)) offenders
      in if dryRun then (Inr \<lparr>ps_offendersBefore = before, ps_numbersAssigned = 0, ps_accountsDeactivated = 0,
             ps_offendersRemaining = map email_and_role offenders\<rparr>, db)
         else case normalize_all options offenders (0, 0) db of
             (Inl u, db') \<Rightarrow> (Inl u, db')
           | (Inr (assigned, deactivated), db') \<Rightarrow>
               (Inr \<lparr>ps_offendersBefore = before, ps_numbersAssigned = assigned, ps_accountsDeactivated = deactivated,
                  ps_offendersRemaining = map email_and_role (phone_offenders db')\<rparr>, db'))"

section \<open>\<open>migrate-exchange-requests-to-offers.ts\<close>\<close>

datatype legacy_state = AWAITING_RESPONSE | REQUEST_ACCEPTED | REQUEST_DECLINED | REQUEST_WITHDRAWN

text \<open>The state of a raw request is a text; \<open>None\<close> stands for one outside the enumeration.\<close>

record raw_request =
  rq_id :: oid
  rq_raisedByCompanyId :: oid
  rq_recipientCompanyId :: oid
  rq_raisedByUserId :: oid
  rq_fuelType :: fuel_type
  rq_quantityLitres :: rat
  rq_unitPrice :: rat
  rq_deliveryAt :: instant
  rq_deliveryPlaceText :: "string option"
  rq_state :: "legacy_state option"
  rq_resolvedBy :: "oid option"
  rq_resolvedAt :: "instant option"
  rq_createdAt :: "instant option"

record agreement =
  ag_awardedCompanyId :: oid
  ag_agreedUnitPrice :: rat
  ag_agreedQuantityLitres :: rat
  ag_agreedTotal :: rat

record migrated_offer =
  mo_id :: oid
  mo_openToMarket :: bool
  mo_partyCompanyIds :: "oid list"
  mo_raisedByCompanyId :: oid
  mo_raisedByUserId :: oid
  mo_fuelType :: fuel_type
  mo_quantityLitres :: rat
  mo_deliveryAt :: instant
  mo_city :: governorate_code
  mo_notes :: string
  mo_state :: offer_state
  mo_resolvedBy :: "oid option"
  mo_resolvedAt :: "instant option"
  mo_migratedFromRequestId :: oid
  mo_createdAt :: instant
  mo_agreement :: "agreement option"

record migrated_proposal =
  mp_offerId :: oid
  mp_offerRaisedByCompanyId :: oid
  mp_proposingCompanyId :: oid
  mp_proposingUserId :: "oid option"
  mp_outcome :: proposal_outcome
  mp_unitPrice :: "rat option"
  mp_respondedAt :: instant
  mp_resolvedAt :: "instant option"

record exchange_db =
  xd_requests :: "raw_request list"
  xd_offers :: "migrated_offer list"
  xd_proposals :: "migrated_proposal list"
  xd_next :: oid
  xd_now :: instant

record exchange_summary_counts =
  xs_total :: nat
  xs_offersCreated :: nat
  xs_proposalsCreated :: nat
  xs_alreadyMigrated :: nat
  xs_unmapped :: "oid list"
  xs_needsCityReview :: "oid list"

fun mapState :: "legacy_state option \<Rightarrow> (offer_state \<times> proposal_outcome option) option" where
  "mapState (Some AWAITING_RESPONSE) = Some (OPEN, None)"
| "mapState (Some REQUEST_ACCEPTED) = Some (AWARDED, Some PROPOSAL_AWARDED)"
| "mapState (Some REQUEST_DECLINED) = Some (CLOSED_NO_AWARD, Some PROPOSAL_DECLINED)"
| "mapState (Some REQUEST_WITHDRAWN) = Some (WITHDRAWN, None)"
| "mapState None = None"

definition offer_of_request :: "oid \<Rightarrow> instant \<Rightarrow> raw_request \<Rightarrow> offer_state \<Rightarrow> migrated_offer" where
  "offer_of_request i now q offerState = \<lparr>mo_id = i, mo_openToMarket = False,
     mo_partyCompanyIds = [rq_raisedByCompanyId q, rq_recipientCompanyId q], mo_raisedByCompanyId = rq_raisedByCompanyId q,
     mo_raisedByUserId = rq_raisedByUserId q, mo_fuelType = rq_fuelType q, mo_quantityLitres = rq_quantityLitres q,
     mo_deliveryAt = rq_deliveryAt q, mo_city = ''RIYADH_CITY'',
     mo_notes = take 1000 (''[migrated] '' @ (case rq_deliveryPlaceText q of None \<Rightarrow> '''' | Some t \<Rightarrow> t)),
     mo_state = offerState, mo_resolvedBy = rq_resolvedBy q, mo_resolvedAt = rq_resolvedAt q, mo_migratedFromRequestId = rq_id q,
     mo_createdAt = (case rq_createdAt q of None \<Rightarrow> now | Some t \<Rightarrow> t),
     mo_agreement = (if rq_state q = Some REQUEST_ACCEPTED
       then Some \<lparr>ag_awardedCompanyId = rq_recipientCompanyId q, ag_agreedUnitPrice = rq_unitPrice q,
         ag_agreedQuantityLitres = rq_quantityLitres q, ag_agreedTotal = rq_unitPrice q * rq_quantityLitres q\<rparr> else None)\<rparr>"

definition insert_offer :: "raw_request \<Rightarrow> offer_state \<Rightarrow> exchange_db \<Rightarrow> exchange_db" where
  "insert_offer q offerState db = db\<lparr>xd_next := Suc (xd_next db),
     xd_offers := xd_offers db @ [offer_of_request (xd_next db) (xd_now db) q offerState]\<rparr>"

definition insert_proposal :: "raw_request \<Rightarrow> oid \<Rightarrow> proposal_outcome \<Rightarrow> exchange_db \<Rightarrow> exchange_db" where
  "insert_proposal q offerId outcome db = db\<lparr>xd_proposals := xd_proposals db @ [
     \<lparr>mp_offerId = offerId, mp_offerRaisedByCompanyId = rq_raisedByCompanyId q,
      mp_proposingCompanyId = rq_recipientCompanyId q, mp_proposingUserId = rq_resolvedBy q, mp_outcome = outcome,
      mp_unitPrice = (if outcome = PROPOSAL_AWARDED then Some (rq_unitPrice q) else None),
      mp_respondedAt = (case rq_resolvedAt q of None \<Rightarrow> xd_now db | Some t \<Rightarrow> t), mp_resolvedAt = rq_resolvedAt q\<rparr>]\<rparr>"

definition count_mapping :: "proposal_outcome option \<Rightarrow> exchange_summary_counts \<Rightarrow> exchange_summary_counts" where
  "count_mapping outcome sm = sm\<lparr>xs_offersCreated := xs_offersCreated sm + 1,
     xs_proposalsCreated := xs_proposalsCreated sm + (if outcome = None then 0 else 1)\<rparr>"

definition migrate_request :: "bool \<Rightarrow> raw_request \<Rightarrow> exchange_summary_counts \<times> exchange_db \<Rightarrow> exchange_summary_counts \<times> exchange_db" where
  "migrate_request dryRun q = (\<lambda>(sm, db).
     if \<exists>x \<in> set (xd_offers db). mo_migratedFromRequestId x = rq_id q
     then (sm\<lparr>xs_alreadyMigrated := xs_alreadyMigrated sm + 1\<rparr>, db)
     else case mapState (rq_state q) of
       None \<Rightarrow> (sm\<lparr>xs_unmapped := xs_unmapped sm @ [rq_id q]\<rparr>, db)
     | Some (offerState, outcome) \<Rightarrow>
         if dryRun then (count_mapping outcome sm, db)
         else ((count_mapping outcome sm)\<lparr>xs_needsCityReview := xs_needsCityReview sm @ [xd_next db]\<rparr>,
               case outcome of
                 None \<Rightarrow> insert_offer q offerState db
               | Some outc \<Rightarrow> insert_proposal q (xd_next db) outc (insert_offer q offerState db)))"

definition migrateExchangeRequestsToOffers :: "bool \<Rightarrow> exchange_db \<Rightarrow> exchange_summary_counts \<times> exchange_db" where
  "migrateExchangeRequestsToOffers dryRun db = fold (migrate_request dryRun) (xd_requests db)
     (\<lparr>xs_total = length (xd_requests db), xs_offersCreated = 0, xs_proposalsCreated = 0, xs_alreadyMigrated = 0, xs_unmapped = [], xs_needsCityReview = []\<rparr>, db)"

section \<open>The multi-tier migration, complete and cut off\<close>

definition has_transporter :: "oid \<Rightarrow> raw_db \<Rightarrow> bool" where
  "has_transporter fuel db \<longleftrightarrow> (\<exists>c \<in> set (db_companies db). rc_migratedFrom c = Some fuel)"

lemma migrate_company_skip: "has_transporter (rc_id fuel) db \<Longrightarrow> migrate_company fuel (sm, db) = (sm, db)"
  by (simp add: migrate_company_def has_transporter_def)

lemma migrate_company_run:
  assumes "\<not> has_transporter (rc_id fuel) db"
  obtains sm' where "migrate_company fuel (sm, db) =
     (sm', migrate_orders (rc_id fuel) (db_next db) (reassign_drivers (drivers_of fuel db) (db_next db) (insert_transporter fuel db)))"
  using assms that by (auto simp: migrate_company_def has_transporter_def Let_def)

lemma has_transporter_simps [simp]:
  "has_transporter i (insert_transporter fuel db) \<longleftrightarrow> has_transporter i db \<or> i = rc_id fuel"
  "has_transporter i (reassign_drivers us t db) \<longleftrightarrow> has_transporter i db"
  "has_transporter i (migrate_orders f t db) \<longleftrightarrow> has_transporter i db"
  by (auto simp: has_transporter_def insert_transporter_def reassign_drivers_def migrate_orders_def)

lemma orders_simps [simp]:
  "db_orders (insert_transporter fuel db) = db_orders db" "db_orders (reassign_drivers us t db) = db_orders db"
  "db_orders (migrate_orders f t db) = map (\<lambda>d. if single_tier f d then to_multi_tier t d else d) (db_orders db)"
  by (simp_all add: insert_transporter_def reassign_drivers_def migrate_orders_def)

lemma single_tier_migrated: "single_tier f (if single_tier g d then to_multi_tier t d else d) \<longleftrightarrow> single_tier f d \<and> f \<noteq> g"
  by (auto simp: single_tier_def to_multi_tier_def)

text \<open>What one company's step does to the transporters and to the orders still of one tier.\<close>

lemma migrate_company_step:
  assumes "migrate_company fuel (sm, db) = (sm', db')"
  shows "has_transporter i db' \<longleftrightarrow> has_transporter i db \<or> i = rc_id fuel"
    "\<exists>t. db_orders db' = (if has_transporter (rc_id fuel) db then db_orders db
       else map (\<lambda>d. if single_tier (rc_id fuel) d then to_multi_tier t d else d) (db_orders db))"
proof -
  show "has_transporter i db' \<longleftrightarrow> has_transporter i db \<or> i = rc_id fuel"
    using assms by (cases "has_transporter (rc_id fuel) db") (auto simp: migrate_company_skip elim!: migrate_company_run [of fuel db sm])
  show "\<exists>t. db_orders db' = (if has_transporter (rc_id fuel) db then db_orders db
       else map (\<lambda>d. if single_tier (rc_id fuel) d then to_multi_tier t d else d) (db_orders db))"
  proof (cases "has_transporter (rc_id fuel) db")
    case True
    with assms show ?thesis by (simp add: migrate_company_skip)
  next
    case False
    with assms show ?thesis by (intro exI [of _ "db_next db"]) (auto elim!: migrate_company_run [of fuel db sm])
  qed
qed

definition waiting :: "oid \<Rightarrow> oid \<Rightarrow> raw_db \<Rightarrow> bool" where
  "waiting fuel i db \<longleftrightarrow> (\<exists>d \<in> set (db_orders db). ro_id d = i \<and> single_tier fuel d)"

lemma waiting_step:
  assumes "migrate_company c (sm, db) = (sm', db')"
  shows "waiting fuel i db' \<longleftrightarrow> waiting fuel i db \<and> (rc_id c = fuel \<longrightarrow> has_transporter fuel db)"
proof -
  have same: "ro_id (if single_tier g d then to_multi_tier t d else d) = ro_id d" for g t d by (simp add: to_multi_tier_def)
  show ?thesis
  proof (cases "has_transporter (rc_id c) db")
    case True
    with migrate_company_step(2) [OF assms] show ?thesis by (auto simp: waiting_def)
  next
    case False
    with migrate_company_step(2) [OF assms] obtain t
      where "db_orders db' = map (\<lambda>d. if single_tier (rc_id c) d then to_multi_tier t d else d) (db_orders db)" by auto
    then have "waiting fuel i db' \<longleftrightarrow> (\<exists>d \<in> set (db_orders db). ro_id d = i \<and> single_tier fuel d \<and> fuel \<noteq> rc_id c)"
      by (simp only: waiting_def set_map bex_simps same single_tier_migrated)
    with False show ?thesis by (auto simp: waiting_def)
  qed
qed

lemma fold_companies:
  assumes "fold migrate_company cs (sm, db) = (sm', db')"
  shows "has_transporter fuel db' \<longleftrightarrow> has_transporter fuel db \<or> fuel \<in> rc_id ` set cs"
    "waiting fuel i db' \<longleftrightarrow> waiting fuel i db \<and> (fuel \<in> rc_id ` set cs \<longrightarrow> has_transporter fuel db)"
proof -
  have "(has_transporter fuel db' \<longleftrightarrow> has_transporter fuel db \<or> fuel \<in> rc_id ` set cs) \<and>
     (waiting fuel i db' \<longleftrightarrow> waiting fuel i db \<and> (fuel \<in> rc_id ` set cs \<longrightarrow> has_transporter fuel db))"
    using assms
  proof (induction cs arbitrary: sm db)
    case (Cons c cs)
    obtain sm1 db1 where step: "migrate_company c (sm, db) = (sm1, db1)" by (cases "migrate_company c (sm, db)")
    with Cons.prems have "fold migrate_company cs (sm1, db1) = (sm', db')" by simp
    from Cons.IH [OF this] migrate_company_step(1) [OF step] waiting_step [OF step] show ?case by auto
  qed simp
  then show "has_transporter fuel db' \<longleftrightarrow> has_transporter fuel db \<or> fuel \<in> rc_id ` set cs"
    "waiting fuel i db' \<longleftrightarrow> waiting fuel i db \<and> (fuel \<in> rc_id ` set cs \<longrightarrow> has_transporter fuel db)" by auto
qed

lemma waiting_map:
  assumes "db_orders db' = map f (db_orders db)"
    and "\<And>d. ro_id (f d) = ro_id d \<and> ro_companyId (f d) = ro_companyId d \<and> ro_fuelCompanyId (f d) = ro_fuelCompanyId d"
  shows "waiting fuel i db' \<longleftrightarrow> waiting fuel i db"
  using assms by (simp add: waiting_def single_tier_def)

lemma settle_step:
  assumes "settle_history d (sm, db) = (sm', db')"
  shows "db_companies db' = db_companies db" "waiting fuel i db' \<longleftrightarrow> waiting fuel i db"
proof -
  show "db_companies db' = db_companies db" using assms by (auto simp: settle_history_def split: option.splits)
  from assms obtain invoice where "db_orders db' = set_invoice (ro_id d) invoice (db_orders db)"
    by (auto simp: settle_history_def split: option.splits)
  then show "waiting fuel i db' \<longleftrightarrow> waiting fuel i db" unfolding set_invoice_def by (rule waiting_map) simp
qed

lemma fold_settle:
  assumes "fold settle_history ds (sm, db) = (sm', db')"
  shows "db_companies db' = db_companies db \<and> (waiting fuel i db' \<longleftrightarrow> waiting fuel i db)"
  using assms
proof (induction ds arbitrary: sm db)
  case (Cons d ds)
  obtain sm1 db1 where step: "settle_history d (sm, db) = (sm1, db1)" by (cases "settle_history d (sm, db)")
  with Cons.prems have "fold settle_history ds (sm1, db1) = (sm', db')" by simp
  from Cons.IH [OF this] settle_step [OF step] show ?case by simp
qed simp

lemma tag_fuel_keeps [simp]: "rc_id (tag_fuel c) = rc_id c" "rc_migratedFrom (tag_fuel c) = rc_migratedFrom c"
  by (simp_all add: tag_fuel_def)

definition fuel_ids :: "raw_db \<Rightarrow> oid set" where
  "fuel_ids db = rc_id ` {c \<in> set (db_companies db). rc_type c \<noteq> Some TRANSPORT}"

lemma tagged_fuel: "rc_type (tag_fuel c) = Some FUEL \<longleftrightarrow> rc_type c \<noteq> Some TRANSPORT"
  by (cases "rc_type c" rule: option.exhaust; cases "the (rc_type c)" rule: company_type.exhaust) (auto simp: tag_fuel_def)

text \<open>A run migrates the orders of every fuel company that has no transporter yet, and of no other.\<close>

lemma multi_tier_run:
  "waiting fuel i (snd (migrateMultiTier db)) \<longleftrightarrow> waiting fuel i db \<and> (fuel \<in> fuel_ids db \<longrightarrow> has_transporter fuel db)"
  "has_transporter fuel (snd (migrateMultiTier db)) \<longleftrightarrow> has_transporter fuel db \<or> fuel \<in> fuel_ids db"
proof -
  let ?db1 = "db\<lparr>db_companies := map tag_fuel (db_companies db)\<rparr>"
  let ?cs = "filter (\<lambda>c. rc_type c = Some FUEL) (db_companies ?db1)"
  define sm1 where "sm1 = empty_multi_tier\<lparr>ms_companiesTaggedFuel := length (filter (\<lambda>c. rc_type c = None) (db_companies db))\<rparr>"
  obtain sm2 db2 where f: "fold migrate_company ?cs (sm1, ?db1) = (sm2, db2)" by (cases "fold migrate_company ?cs (sm1, ?db1)")
  let ?db3 = "db2\<lparr>db_users := map (\<lambda>u. if stationless u then embed_station u else u) (db_users db2)\<rparr>"
  obtain sm3 where "snd (migrateMultiTier db) = snd (fold settle_history (filter historical (db_orders ?db3)) (sm3, ?db3))"
    using f by (simp add: migrateMultiTier_def Let_def sm1_def [symmetric])
  moreover obtain sm4 db4 where last: "fold settle_history (filter historical (db_orders ?db3)) (sm3, ?db3) = (sm4, db4)"
    by (cases "fold settle_history (filter historical (db_orders ?db3)) (sm3, ?db3)")
  ultimately have run: "snd (migrateMultiTier db) = db4" by simp
  have ids: "fuel \<in> rc_id ` set ?cs \<longleftrightarrow> fuel \<in> fuel_ids db"
    by (auto simp: fuel_ids_def tagged_fuel image_iff)
  have tags: "has_transporter fuel ?db1 \<longleftrightarrow> has_transporter fuel db" "waiting fuel i ?db1 \<longleftrightarrow> waiting fuel i db"
    by (auto simp: has_transporter_def waiting_def)
  have users: "has_transporter fuel ?db3 \<longleftrightarrow> has_transporter fuel db2" "waiting fuel i ?db3 \<longleftrightarrow> waiting fuel i db2"
    by (auto simp: has_transporter_def waiting_def)
  show "waiting fuel i (snd (migrateMultiTier db)) \<longleftrightarrow> waiting fuel i db \<and> (fuel \<in> fuel_ids db \<longrightarrow> has_transporter fuel db)"
    unfolding run using fold_settle [OF last, of fuel i] users fold_companies(2) [OF f, of fuel i] ids tags by blast
  have "has_transporter fuel (snd (migrateMultiTier db)) \<longleftrightarrow> has_transporter fuel ?db3"
    unfolding run using fold_settle [OF last] by (simp add: has_transporter_def)
  then show "has_transporter fuel (snd (migrateMultiTier db)) \<longleftrightarrow> has_transporter fuel db \<or> fuel \<in> fuel_ids db"
    using fold_companies(1) [OF f, of fuel] ids tags users by simp
qed

text \<open>A run of the multi-tier migration leaves no order of a fuel company that has no transporter yet in the old shape.
  A run cut off right after it created the transporter leaves every order of that company in the old shape, and no number
  of further runs migrates them, since each takes the transporter for the sign that the work is done.\<close>

theorem interrupted_migration_strands_orders:
  assumes "fuel \<in> set (db_companies db)" "rc_type fuel \<noteq> Some TRANSPORT" "\<not> has_transporter (rc_id fuel) db"
    and "d \<in> set (db_orders db)" "single_tier (rc_id fuel) d"
  shows "\<not> waiting (rc_id fuel) (ro_id d) (snd (migrateMultiTier db)) \<and>
     waiting (rc_id fuel) (ro_id d) (((\<lambda>x. snd (migrateMultiTier x)) ^^ n) (insert_transporter fuel db))"
proof
  have "rc_id fuel \<in> fuel_ids db" using assms(1,2) by (auto simp: fuel_ids_def)
  with assms(3) show "\<not> waiting (rc_id fuel) (ro_id d) (snd (migrateMultiTier db))" by (simp add: multi_tier_run)
  have "waiting (rc_id fuel) (ro_id d) (insert_transporter fuel db)" using assms(4,5) by (auto simp: waiting_def)
  moreover have "has_transporter (rc_id fuel) (insert_transporter fuel db)" by simp
  ultimately have "waiting (rc_id fuel) (ro_id d) (((\<lambda>x. snd (migrateMultiTier x)) ^^ n) (insert_transporter fuel db)) \<and>
     has_transporter (rc_id fuel) (((\<lambda>x. snd (migrateMultiTier x)) ^^ n) (insert_transporter fuel db))"
    by (induction n) (simp_all add: multi_tier_run)
  then show "waiting (rc_id fuel) (ro_id d) (((\<lambda>x. snd (migrateMultiTier x)) ^^ n) (insert_transporter fuel db))" ..
qed

text \<open>A fuel company without a transporter, with one order of the single-tier shape.\<close>

definition legacy_company :: raw_company where
  "legacy_company = \<lparr>rc_id = 1, rc_name = ''Fuel'', rc_type = None, rc_status = None, rc_parentFuelCompanyId = None,
     rc_servedRegions = None, rc_contactEmail = None, rc_contactPhone = None, rc_migratedFrom = None\<rparr>"

definition legacy_order :: raw_order where
  "legacy_order = \<lparr>ro_id = 2, ro_companyId = Some 1, ro_fuelCompanyId = None, ro_transportCompanyId = None, ro_driverId = None,
     ro_assignedDriverId = None, ro_paymentMethod = None, ro_deliveryAddressText = None, ro_clientId = 3, ro_stationId = None,
     ro_status = DELIVERED, ro_invoiceId = None, ro_finalPrice = None, ro_estimatedPrice = 100, ro_updatedAt = None\<rparr>"

definition legacy_db :: raw_db where
  "legacy_db = \<lparr>db_companies = [legacy_company], db_users = [], db_stations = [], db_orders = [legacy_order], db_invoices = [],
     db_events = [], db_next = 10, db_now = 0\<rparr>"

theorem interrupted_migration_strands_orders_witness:
  "\<not> waiting 1 2 (snd (migrateMultiTier legacy_db)) \<and>
   waiting 1 2 (((\<lambda>x. snd (migrateMultiTier x)) ^^ 5) (insert_transporter legacy_company legacy_db))"
  using interrupted_migration_strands_orders [of legacy_company legacy_db legacy_order 5]
  by (simp add: legacy_db_def legacy_company_def legacy_order_def has_transporter_def single_tier_def)

end
