(* ===== verification/Spec2Isabelle.thy ===== *)
theory Spec2Isabelle
  imports System Client_View Money Pricing Otp Vehicles Lifecycle Pagination Sessions Account_Endpoints Fanout
    Tracking Warehouses Support Drivers Platform_Overview Health External_Services Migrations
begin

text \<open>
  A model of the fuel-delivery backend in \<open>src/src\<close> (NestJS over MongoDB), and proofs about it.

  A station owner (CLIENT) orders fuel from a fuel company. The company approves the order, routes it to a transport
  company, which prices the haul; the client settles; the transporter books a driver, a truck and a tank; the driver
  proves the truck at departure and again at the warehouse, travels, and closes the delivery with one-time codes. Around
  that run invoices with a credit limit, a ledger between each company and the platform, litre balances between a fuel
  company and its clients, payment gateways with a timeout job, and the isolation of tenants.

  \<^bold>\<open>Conventions.\<close> \<open>Domain\<close> has one datatype per enum of \<open>common/enums\<close> and one record per Mongoose schema.
  \<open>World\<close> has the state: one list per collection, the Redis cache of codes, the delayed jobs, the emitted socket events, the
  identity of the request, the clock and the configuration. An operation is a function \<open>world \<Rightarrow> (error + 'a) \<times> world\<close>
  (\<open>'a service\<close>, in \<open>Prelude\<close>), so an exception keeps the writes made before it, and \<open>transaction\<close> undoes the writes of its
  body as \<open>session.withTransaction\<close> does. \<open>find_and_update\<close> is one atomic \<open>findOneAndUpdate\<close>. Money and litres are
  rationals (the source uses doubles and rounds after each step with the two rounding functions modelled here); object
  ids are numbers handed out by \<open>fresh_id\<close>. Parameters stand for code outside the repository or for randomness: the
  distance function of \<open>$geoNear\<close> and of the haversine formula, the HMAC of a gateway, the hash and generator of codes, the
  random QR token, the JSON codec of quotes.

  \<^bold>\<open>Theories\<close>, in the order of their imports.
  \<^item> \<open>Prelude\<close>: the service monad, its inversion and frame rules, and the collection of lemmas the components share.
  \<^item> \<open>Domain\<close>, \<open>World\<close>, \<open>Samples\<close>: data, state, and concrete documents used by witnesses.
  \<^item> \<open>Tenancy\<close>: \<open>common/plugins/*\<close> and \<open>tenant-context.service.ts\<close>; the locale of a scoped collection and its
    interpretation for orders. \<open>order_isolation\<close>, below, rests on it.
  \<^item> \<open>Money\<close>: \<open>money.constants.ts\<close>, \<open>derive-price-breakdown.ts\<close>. The total of a breakdown is the sum of its rounded parts.
  \<^item> \<open>Queues\<close>: the three BullMQ queues, with replacement of a job of the same id.
  \<^item> \<open>Notifications\<close>: \<open>notifications.service.ts\<close>.
  \<^item> \<open>Platform_Account\<close>, \<open>Billing\<close>, \<open>Invoices\<close>: the ledger, the commission and cashback terms, the invoices. Credit limit,
    payout bound, settlement once, and a void that restores the credit and nets the ledger to zero.
  \<^item> \<open>Order_State\<close>: \<open>order-state.service.ts\<close>. When a transition succeeds and what it writes; the invariant \<open>orders_ok\<close> (the
    history of each order is a path of the table that ends in its status); terminal states; what a delivered order went
    through.
  \<^item> \<open>Litre_Balances\<close>: \<open>litre-balances.service.ts\<close>. A balance is the sum of its movements; drawdowns are bounded and
    returned exactly.
  \<^item> \<open>Pricing\<close>: \<open>pricing.service.ts\<close>, \<open>transport-pricing.service.ts\<close> and the lookups of companies and warehouses they use.
  \<^item> \<open>Otp\<close>: \<open>otp.service.ts\<close>, \<open>otp-primitives.service.ts\<close>.
  \<^item> \<open>Fleet\<close>: booking and release of drivers, trucks and tanks; the locale \<open>bookable\<close> and its three interpretations; the
    invariant \<open>fleet_ok\<close> that a booked resource and the order that holds it name each other.
  \<^item> \<open>Frames\<close>: what each lower operation leaves untouched.
  \<^item> \<open>Orders\<close>: \<open>orders.service.ts\<close>, every operation.
  \<^item> \<open>Dispatch\<close>, \<open>Routing\<close>: \<open>dispatch.service.ts\<close>, \<open>routing.service.ts\<close>.
  \<^item> \<open>Payments\<close>: \<open>payments.service.ts\<close>, \<open>payment-timeout.processor.ts\<close>.
  \<^item> \<open>Card_Uid\<close>, \<open>Vehicles\<close>: \<open>card-uid.util.ts\<close>, \<open>trucks.service.ts\<close>, \<open>tanks.service.ts\<close>,
    \<open>vehicle-verification.service.ts\<close>; the locale \<open>unique_index\<close> for the unique indexes of both registries.
  \<^item> \<open>Fuel_Exchange\<close>, \<open>Positional\<close>: \<open>fuel-exchange.service.ts\<close>. Offers and their answers stay well formed, an award
    happens once, and a bidder does not see the bids of others.
  \<^item> \<open>Stop_Detection\<close>: \<open>stop-detection.service.ts\<close> and its escalation job. The trail of stops of an order.
  \<^item> \<open>Supplier_Invoices\<close>: \<open>supplier-invoices.service.ts\<close>. The invoice of an order and the litre balance move together.
  \<^item> \<open>Ratings\<close>, \<open>Assignment_Escalation\<close>: \<open>ratings.service.ts\<close>, \<open>assignment-escalation.processor.ts\<close>.
  \<^item> \<open>Pagination\<close>: \<open>common/pagination\<close>. Following the cursors of a list ends, and visits each document once.
  \<^item> \<open>Lifecycle\<close>: each service that writes orders keeps what the locale \<open>lifecycle_frame\<close> asks of a predicate; the
    abstract machine \<open>lc_step\<close>, which knows an order by its status.
  \<^item> \<open>Orders_Controller\<close>, \<open>Endpoints\<close>: the controllers over these services, each method behind its role guard and the
    interceptor that sets the acting scope. \<open>Client_View\<close> and \<open>Order_Access\<close> hold what they guarantee and what they give away.
  \<^item> \<open>System\<close>: one step relation for every request and job; the system refines \<open>lc_step\<close>, closed orders stay closed, the
    history of an order only grows. The locale \<open>system_frame\<close> is the contract of a predicate that survives every step.

  \<^item> \<open>Access\<close>, \<open>Redis\<close>: the role guard and the interceptor every endpoint runs behind; the commands of the Redis store and
    its expiry, with the switch that makes it unreachable.
  \<^item> \<open>Accounts\<close>, \<open>Auth\<close>: \<open>users.service.ts\<close>, \<open>session-audit.service.ts\<close>, \<open>credit-limit-requests.service.ts\<close>; the services of
    \<open>modules/auth\<close> and \<open>phone-verification.service.ts\<close>.
  \<^item> \<open>Regions\<close>, \<open>Stations\<close>, \<open>Companies\<close>, \<open>Account_Endpoints\<close>: the services of these names and the controllers of stations,
    companies, users, credit limits and authentication.
  \<^item> \<open>Sessions\<close>: one step relation for every operation on an account; the locale \<open>account_frame\<close> is the contract of a
    predicate that survives every step. Tokens of an ended epoch stay refused, and open sessions stay within the cap.
  \<^item> \<open>Announcements\<close>, \<open>Fanout\<close>: \<open>modules/announcements\<close>. A step relation of sends, runs of the job, runs cut off between two
    candidates, and changes to accounts in between: nobody is notified twice, and what a complete or a cut run records.
  \<^item> \<open>Scheduler\<close>, \<open>Tracking\<close>: \<open>common/scheduler/scheduler-lease.service.ts\<close>, \<open>presence.service.ts\<close>, the lease around the
    sweep of \<open>stop-detection.service.ts\<close>, and \<open>tracking.gateway.ts\<close>. At most one instance of a fleet sweeps at a time; who may
    watch an order; a displaced device writes nothing; a truck that stands still reaches the sweep that looks for it.
  \<^item> \<open>Warehouses\<close>, \<open>Support\<close>: \<open>modules/warehouses\<close> with its bulk load, \<open>modules/support\<close>.
  \<^item> \<open>Drivers\<close>, \<open>Platform_Overview\<close>: \<open>modules/drivers\<close> and \<open>modules/platform\<close>, the read-only dashboards. The filter of the
    roster against the state it shows, what the roster withholds, and the totals of the home screen.
  \<^item> \<open>Files\<close>: \<open>modules/files\<close> over the local driver of \<open>common/storage\<close>. No path leaves the root; what was stored is what
    a signed location yields, to those who may read the record and until it expires.
  \<^item> \<open>Rate_Limits\<close>, \<open>Health\<close>: \<open>resilient-throttler.storage.ts\<close> and the trackers of the guards; \<open>shutdown.service.ts\<close>, the
    handler of signals and \<open>health.controller.ts\<close>. An outage of the shared store loosens a limit at most twofold per process,
    and only the drain gate and MongoDB take an instance out of rotation.
  \<^item> \<open>External_Services\<close>: the sender of text messages, the road route and the address of a pin, over the replies of their
    providers, and the upload of a supplier invoice.
  \<^item> \<open>Migrations\<close>: the data migrations of \<open>src/scripts\<close> over raw documents, and what a run that is cut off leaves behind.

  \<^bold>\<open>Bounds.\<close> The only retry loop of the services, the drawdown, runs at most \<open>MAX_DRAWDOWN_ATTEMPTS\<close> times in the source and
  in the model. All other definitions are total; no fuel is used.

  \<^bold>\<open>Not modelled.\<close> Transport and I/O: the delivery of socket frames, the cloud bucket, logging, metrics, process start; the guard and the shared
  store of the rate limiter, and which limit an endpoint declares.
  Listings of the components are the whole filtered list; how \<open>paginate\<close> splits a list into pages is modelled once, for
  any collection, in \<open>Pagination\<close>. Floating-point error of doubles and of the haversine formula.
  Interleavings inside one operation: operations run one after another, except that the atomic writes carry their
  expected state as in the source, so that an operation applied to a stale document meets the same refusal.
\<close>

section \<open>Isolation of tenants\<close>


definition driver_scope :: "oid \<Rightarrow> request_scope" where
  "driver_scope u = \<lparr>rs_userId = Some u, rs_role = Some DRIVER, rs_companyId = Some 2, rs_parentFuelCompanyId = Some 1\<rparr>"


end
